(* ===== verification/Py_Prelude.thy ===== *)
theory Py_Prelude
  imports Main "HOL-Library.AList" "HOL-Library.Sublist"
begin

text \<open>
  The Python runtime that the programs of this repository share, as far as the sources use it:
  exceptions as the left summand of a result type, the string methods \<open>split\<close>, \<open>join\<close>,
  \<open>replace\<close>, \<open>startswith\<close> and \<open>find\<close>, slices, and insertion-ordered dictionaries.
  A Python string is a \<^typ>\<open>string\<close>; a dictionary is an association list in iteration
  order, read by \<^const>\<open>map_of\<close> and written by \<^const>\<open>AList.update\<close>, which replaces in
  place and appends new keys at the end, as \<open>dict\<close> does since Python 3.7.

  The collection \<open>py_simps\<close> gathers the rewrite rules that the component proofs use; the
  generic lemmas on lists and strings that several components need are here as well.
\<close>

named_theorems py_simps \<open>rewrite rules of the Python runtime model\<close>

section \<open>Exceptions\<close>

datatype py_error =
    KeyError | IndexError | AssertionError | ValueError | AttributeError | TypeError
  | NotImplementedError | UnicodeDecodeError | UnboundLocalError | RuntimeError
  | StopIteration | SystemExit | StdoutError | StderrError | ConfdErrExternal | ConfdErr | RpcError | NameError
  | PyException | TestNedError | CalledProcessError | KeyboardInterrupt
  | AuthenticationException | OSError

type_synonym 'a result = "py_error + 'a"

type_synonym dict = "(string \<times> string) list"

text \<open>Sequencing: the first exception ends the computation.\<close>

definition rbind :: "'e + 'a \<Rightarrow> ('a \<Rightarrow> 'e + 'b) \<Rightarrow> 'e + 'b" where
  "rbind m f = (case m of Inl e \<Rightarrow> Inl e | Inr a \<Rightarrow> f a)"

lemma rbind_simps [simp, py_simps]:
  "rbind (Inl e) f = Inl e"
  "rbind (Inr a) f = f a"
  by (simp_all add: rbind_def)

lemma rbind_eq_Inr_iff: "rbind m f = Inr b \<longleftrightarrow> (\<exists>a. m = Inr a \<and> f a = Inr b)"
  by (cases m) auto

lemma rbind_eq_Inl_iff:
  "rbind m f = Inl e \<longleftrightarrow> m = Inl e \<or> (\<exists>a. m = Inr a \<and> f a = Inl e)"
  by (cases m) auto

lemma rbind_cong [fundef_cong]:
  "m = m' \<Longrightarrow> (\<And>a. m' = Inr a \<Longrightarrow> f a = g a) \<Longrightarrow> rbind m f = rbind m' g"
  by (cases m') auto

text \<open>A comprehension whose body may raise: left to right, stopping at the first exception.\<close>

fun map_result :: "('a \<Rightarrow> 'e + 'b) \<Rightarrow> 'a list \<Rightarrow> 'e + 'b list" where
  "map_result f [] = Inr []"
| "map_result f (x # xs) =
     rbind (f x) (\<lambda>y. rbind (map_result f xs) (\<lambda>ys. Inr (y # ys)))"

lemma map_result_cong [fundef_cong]:
  "xs = ys \<Longrightarrow> (\<And>x. x \<in> set ys \<Longrightarrow> f x = g x) \<Longrightarrow> map_result f xs = map_result g ys"
  by (induction xs arbitrary: ys) auto

lemma map_result_append:
  "map_result f (xs @ ys) =
     rbind (map_result f xs) (\<lambda>us. rbind (map_result f ys) (\<lambda>vs. Inr (us @ vs)))"
proof (induction xs)
  case Nil
  then show ?case by (cases "map_result f ys") simp_all
next
  case (Cons x xs)
  then show ?case
    by (cases "f x"; cases "map_result f xs"; cases "map_result f ys") simp_all
qed

lemma map_result_Inr_map: "(\<And>x. x \<in> set xs \<Longrightarrow> f x = Inr (g x)) \<Longrightarrow> map_result f xs = Inr (map g xs)"
  by (induction xs) auto

lemma map_result_map: "map_result f (map g xs) = map_result (\<lambda>x. f (g x)) xs"
  by (induction xs) simp_all

lemma map_result_length: "map_result f xs = Inr ys \<Longrightarrow> length ys = length xs"
  by (induction xs arbitrary: ys) (auto simp: rbind_eq_Inr_iff)

section \<open>Strings\<close>

subsection \<open>\<open>split\<close> and \<open>join\<close>\<close>

fun py_split :: "char \<Rightarrow> string \<Rightarrow> string list" where
  "py_split c [] = [[]]"
| "py_split c (x # xs) =
     (if x = c then [] # py_split c xs
      else (case py_split c xs of [] \<Rightarrow> [[x]] | y # ys \<Rightarrow> (x # y) # ys))"

fun py_join :: "string \<Rightarrow> string list \<Rightarrow> string" where
  "py_join sep [] = []"
| "py_join sep [x] = x"
| "py_join sep (x # y # ys) = x @ sep @ py_join sep (y # ys)"

lemma py_split_not_Nil [simp]: "py_split c s \<noteq> []"
  by (cases s) (auto split: list.splits)

lemma py_split_free [py_simps]: "c \<notin> set s \<Longrightarrow> py_split c s = [s]"
  by (induction s) auto

lemma py_split_append_sep [py_simps]:
  "c \<notin> set s \<Longrightarrow> py_split c (s @ c # t) = s # py_split c t"
  by (induction s) auto

text \<open>No part of a split contains the separator, and joining the parts gives the string back.\<close>

lemma py_split_parts_free: "p \<in> set (py_split c s) \<Longrightarrow> c \<notin> set p"
proof (induction s arbitrary: p)
  case (Cons x s)
  then show ?case
    by (cases "py_split c s") (auto split: if_splits)
qed simp

lemma py_join_split: "py_join [c] (py_split c s) = s"
proof (induction s)
  case (Cons x s)
  then show ?case
    by (cases "py_split c s" rule: remdups_adj.cases) auto
qed simp

subsection \<open>\<open>startswith\<close>, \<open>find\<close> and slices\<close>

definition startswith :: "string \<Rightarrow> string \<Rightarrow> bool" where
  "startswith s p \<longleftrightarrow> take (length p) s = p"

lemma startswith_prefix: "startswith s p \<longleftrightarrow> prefix p s"
  by (metis append_eq_conv_conj prefix_def startswith_def)

lemma startswith_append [simp, py_simps]: "startswith (p @ s) p"
  by (simp add: startswith_def)

lemma startswith_refl [simp]: "startswith s s"
  by (simp add: startswith_def)

lemma startswith_Nil [simp]: "startswith s []"
  by (simp add: startswith_def)

lemma startswith_Nil_left [simp]: "startswith [] p \<longleftrightarrow> p = []"
  by (auto simp: startswith_def)

lemma startswith_Cons [simp]: "startswith (x # s) (y # p) \<longleftrightarrow> x = y \<and> startswith s p"
  by (auto simp: startswith_def)

lemma startswith_exD: "startswith s p \<Longrightarrow> \<exists>t. s = p @ t"
  by (metis startswith_prefix prefixE)

lemma startswith_length: "startswith s p \<Longrightarrow> length p \<le> length s"
  by (simp add: startswith_prefix prefix_length_le)

text \<open>\<open>s.find(p)\<close>: the first index at which \<open>p\<close> occurs, \<^const>\<open>None\<close> for \<open>-1\<close>.\<close>

fun py_find :: "string \<Rightarrow> string \<Rightarrow> nat option" where
  "py_find [] p = (if p = [] then Some 0 else None)"
| "py_find (x # s) p =
     (if startswith (x # s) p then Some 0 else map_option Suc (py_find s p))"

lemma py_find_Some:
  "py_find s p = Some i \<longleftrightarrow>
     i \<le> length s \<and> startswith (drop i s) p \<and> (\<forall>j < i. \<not> startswith (drop j s) p)"
proof (induction s arbitrary: i)
  case Nil
  then show ?case by auto
next
  case (Cons x s)
  show ?case
  proof (cases "startswith (x # s) p")
    case True
    then show ?thesis by (cases i) auto
  next
    case False
    then show ?thesis
      using Cons.IH by (cases i) (auto simp: less_Suc_eq_0_disj)
  qed
qed

lemma all_le_Suc: "(\<forall>i \<le> Suc n. P i) \<longleftrightarrow> P 0 \<and> (\<forall>i \<le> n. P (Suc i))"
  using All_less_Suc2 [of "Suc n" P] by (simp add: less_Suc_eq_le)

lemma py_find_None: "py_find s p = None \<longleftrightarrow> (\<forall>i \<le> length s. \<not> startswith (drop i s) p)"
  by (induction s) (auto simp: all_le_Suc)

text \<open>A prefix that already holds an occurrence fixes the result of the search.\<close>

lemma py_find_append_Some:
  assumes "py_find s p = Some i" and "i + length p \<le> length s"
  shows "py_find (s @ t) p = Some i"
  using assms
proof (induction s arbitrary: i)
  case Nil
  then show ?case by (cases t) (auto split: if_splits)
next
  case (Cons x s)
  show ?case
  proof (cases "startswith (x # s) p")
    case True
    then have "startswith ((x # s) @ t) p"
      by (metis append_assoc startswith_append startswith_exD)
    with True Cons.prems show ?thesis by simp
  next
    case False
    with Cons.prems obtain j where j: "py_find s p = Some j" "i = Suc j" by auto
    with Cons.prems have IH: "py_find (s @ t) p = Some j"
      by (intro Cons.IH) auto
    have "length p \<le> length (x # s)" using Cons.prems(2) by simp
    then have "take (length p) ((x # s) @ t) = take (length p) (x # s)"
      by (simp only: take_append) simp
    then have "\<not> startswith ((x # s) @ t) p"
      using False by (simp only: startswith_def simp_thms)
    with IH j show ?thesis by simp
  qed
qed

lemma py_find_bound: "py_find s p = Some i \<Longrightarrow> i + length p \<le> length s"
proof -
  assume "py_find s p = Some i"
  then have "i \<le> length s" and "startswith (drop i s) p"
    by (auto simp: py_find_Some)
  then show ?thesis
    using startswith_length by fastforce
qed

subsection \<open>\<open>replace\<close>\<close>

text \<open>
  \<open>s.replace(old, new)\<close>: all occurrences from the left, without overlaps; an empty
  \<open>old\<close> matches between any two characters and at both ends.
\<close>

function py_replace :: "string \<Rightarrow> string \<Rightarrow> string \<Rightarrow> string" where
  "py_replace old new s =
     (if old = [] then new @ concat (map (\<lambda>c. c # new) s)
      else if startswith s old then new @ py_replace old new (drop (length old) s)
      else (case s of [] \<Rightarrow> [] | c # cs \<Rightarrow> c # py_replace old new cs))"
  by pat_completeness auto
termination
proof (relation "measure (\<lambda>(old, new, s). length s)", goal_cases)
  case (2 old new s)
  then show ?case
    using startswith_length [of s old] by (cases old) auto
qed auto

declare py_replace.simps [simp del]

lemma py_replace_Nil [simp]: "old \<noteq> [] \<Longrightarrow> py_replace old new [] = []"
  by (subst py_replace.simps) simp

lemma py_replace_Cons:
  "old \<noteq> [] \<Longrightarrow> \<not> startswith (c # cs) old \<Longrightarrow>
     py_replace old new (c # cs) = c # py_replace old new cs"
  by (subst py_replace.simps) simp

lemma py_replace_match [py_simps]:
  "old \<noteq> [] \<Longrightarrow> py_replace old new (old @ s) = new @ py_replace old new s"
  by (subst py_replace.simps) simp

text \<open>Deleting a single character is filtering it out.\<close>

lemma py_replace_delete_char: "py_replace [c] [] s = filter (\<lambda>x. x \<noteq> c) s"
proof (induction s)
  case (Cons x s)
  show ?case
  proof (cases "x = c")
    case True
    then have "py_replace [c] [] (x # s) = py_replace [c] [] s"
      using py_replace_match [of "[c]" "[]" s] by simp
    with True Cons show ?thesis by simp
  next
    case False
    with Cons show ?thesis by (simp add: py_replace_Cons)
  qed
qed simp

lemma filter_absent [simp]: "c \<notin> set s \<Longrightarrow> filter (\<lambda>x. x \<noteq> c) s = s"
  by (induction s) auto

lemma takeWhile_absent [simp]: "c \<notin> set s \<Longrightarrow> takeWhile (\<lambda>x. x \<noteq> c) s = s"
  by (induction s) auto

text \<open>A string in which the pattern does not occur is unchanged.\<close>

lemma py_replace_absent:
  assumes "old \<noteq> []" and "\<And>i. i \<le> length s \<Longrightarrow> \<not> startswith (drop i s) old"
  shows "py_replace old new s = s"
  using assms
proof (induction s)
  case (Cons c s)
  have "\<not> startswith (c # s) old" using Cons.prems(2) [of 0] by simp
  moreover have "py_replace old new s = s"
    using Cons.IH [OF Cons.prems(1)] Cons.prems(2) [of "Suc _"] by simp
  ultimately show ?case using Cons.prems(1) by (simp add: py_replace_Cons)
qed simp

lemma startswith_mem: "startswith s p \<Longrightarrow> set p \<subseteq> set s"
  by (metis startswith_def set_take_subset)

text \<open>In particular when one character of the pattern does not occur.\<close>

lemma py_replace_char_absent:
  assumes "c \<in> set old" and "c \<notin> set s"
  shows "py_replace old new s = s"
proof (rule py_replace_absent)
  show "\<not> startswith (drop i s) old" for i
    using assms startswith_mem in_set_dropD by (metis subsetD)
qed (use assms in auto)

subsection \<open>Decimal numbers\<close>

text \<open>\<open>str(n)\<close> of a non-negative integer.\<close>

definition digit :: "nat \<Rightarrow> char" where
  "digit d = char_of (48 + d)"

fun nat_str :: "nat \<Rightarrow> string" where
  "nat_str n = (if n < 10 then [digit n] else nat_str (n div 10) @ [digit (n mod 10)])"

declare nat_str.simps [simp del]

text \<open>\<open>str(i)\<close> of an integer.\<close>

definition int_str :: "int \<Rightarrow> string" where
  "int_str i = (if i < 0 then CHR ''-'' # nat_str (nat (- i)) else nat_str (nat i))"

definition is_digit :: "char \<Rightarrow> bool" where
  "is_digit c \<longleftrightarrow> 48 \<le> (of_char c :: nat) \<and> (of_char c :: nat) \<le> 57"

definition digit_val :: "char \<Rightarrow> nat" where
  "digit_val c = of_char c - 48"

text \<open>The value of a string of digits.\<close>

definition digits_val :: "string \<Rightarrow> nat" where
  "digits_val s = foldl (\<lambda>n c. 10 * n + digit_val c) 0 s"

lemma of_char_digit: "d < 10 \<Longrightarrow> of_char (digit d) = 48 + d"
  by (simp add: digit_def)

lemma is_digit_digit [simp]: "d < 10 \<Longrightarrow> is_digit (digit d)"
  by (simp add: is_digit_def of_char_digit)

lemma digit_val_digit [simp]: "d < 10 \<Longrightarrow> digit_val (digit d) = d"
  by (simp add: digit_val_def of_char_digit)

lemma nat_str_not_Nil [simp]: "nat_str n \<noteq> []"
  by (subst nat_str.simps) simp

lemma nat_str_digits: "\<forall>c \<in> set (nat_str n). is_digit c"
proof (induction n rule: nat_str.induct)
  case (1 n)
  then show ?case by (subst nat_str.simps) auto
qed

lemma digits_val_snoc [simp]: "digits_val (s @ [c]) = 10 * digits_val s + digit_val c"
  by (simp add: digits_val_def)

lemma digits_val_Nil [simp]: "digits_val [] = 0"
  by (simp add: digits_val_def)

lemma digits_val_nat_str [simp]: "digits_val (nat_str n) = n"
proof (induction n rule: nat_str.induct)
  case (1 n)
  show ?case
  proof (cases "n < 10")
    case True
    then show ?thesis
      using digits_val_snoc [of "[]" "digit n"] by (subst nat_str.simps) simp
  next
    case False
    with "1" show ?thesis by (subst nat_str.simps) simp
  qed
qed

lemma nat_str_length: "0 < k \<Longrightarrow> n < 10 ^ k \<Longrightarrow> length (nat_str n) \<le> k"
proof (induction n arbitrary: k rule: nat_str.induct)
  case (1 n)
  show ?case
  proof (cases "n < 10")
    case True
    then show ?thesis using "1.prems" by (subst nat_str.simps) simp
  next
    case False
    with "1.prems" obtain j where k: "k = Suc j" and "0 < j"
      by (cases k; cases "k - 1") auto
    with "1.prems" have "n div 10 < 10 ^ j" by (simp add: less_mult_imp_div_less mult.commute)
    with "1.IH" False \<open>0 < j\<close> have "length (nat_str (n div 10)) \<le> j" by blast
    with False k show ?thesis by (subst nat_str.simps) simp
  qed
qed

section \<open>Dictionaries\<close>

text \<open>The lookup \<open>d[k]\<close> raises \<open>KeyError\<close> where \<open>d.get(k)\<close> would be \<open>None\<close>.\<close>

definition dict_get :: "('k \<times> 'v) list \<Rightarrow> 'k \<Rightarrow> 'v result" where
  "dict_get d k = (case map_of d k of None \<Rightarrow> Inl KeyError | Some v \<Rightarrow> Inr v)"

definition dict_keys :: "('k \<times> 'v) list \<Rightarrow> 'k list" where
  "dict_keys d = map fst d"

lemma dict_get_update [simp]:
  "dict_get (AList.update k v d) k' = (if k' = k then Inr v else dict_get d k')"
  by (simp add: dict_get_def AList.update_conv')

lemma map_of_update [simp]:
  "map_of (AList.update k v d) k' = (if k' = k then Some v else map_of d k')"
  by (simp add: AList.update_conv')

text \<open>A sequence of assignments to fresh, distinct keys is the list of its pairs.\<close>

lemma update_fresh: "k \<notin> fst ` set d \<Longrightarrow> AList.update k v d = d @ [(k, v)]"
  by (induction d) auto

lemma fold_update_fresh:
  assumes "distinct (map fst kvs)" and "fst ` set kvs \<inter> fst ` set d = {}"
  shows "fold (\<lambda>(k, v). AList.update k v) kvs d = d @ kvs"
  using assms
proof (induction kvs arbitrary: d)
  case (Cons kv kvs)
  obtain k v where kv: "kv = (k, v)" by fastforce
  from Cons.prems kv have "AList.update k v d = d @ [(k, v)]"
    by (auto intro: update_fresh)
  moreover from Cons.prems kv have "fst ` set kvs \<inter> fst ` set (d @ [(k, v)]) = {}"
    by auto
  ultimately show ?case
    using Cons.IH [of "d @ [(k, v)]"] Cons.prems(1) kv by simp
qed simp

end
