(* ===== verification/Gnmi_Messages.thy ===== *)
theory Gnmi_Messages
  imports Py_Prelude
begin

text \<open>
  The protobuf messages of \<open>confdgnmi/src/proto/gnmi.proto\<close> that the gNMI adapter reads and
  writes, one record or datatype per message. Enumerations of proto3 are open: a peer may send
  any number, so an enumeration that arrives in a request is an \<^typ>\<open>int\<close> with named constants;
  the ones only the server writes are datatypes. The key map of a path element is an association
  list in the order in which \<open>items()\<close> yields it; the equality that protobuf uses on it, and on
  the elements, ignores that order.

  A JSON payload is the text the bytes field holds, seen through \<open>json.loads\<close>: a text that
  decodes to a value, or a text that does not decode. The text \<open>json.dumps(v)\<close> is
  \<open>JsonDoc v\<close>, which is never empty.
\<close>

section \<open>Enumerations\<close>

abbreviation (input) JSON :: int where "JSON \<equiv> 0"
abbreviation (input) BYTES :: int where "BYTES \<equiv> 1"
abbreviation (input) PROTO :: int where "PROTO \<equiv> 2"
abbreviation (input) ASCII :: int where "ASCII \<equiv> 3"
abbreviation (input) JSON_IETF :: int where "JSON_IETF \<equiv> 4"

abbreviation (input) STREAM :: int where "STREAM \<equiv> 0"
abbreviation (input) ONCE :: int where "ONCE \<equiv> 1"
abbreviation (input) POLL :: int where "POLL \<equiv> 2"

abbreviation (input) DT_ALL :: int where "DT_ALL \<equiv> 0"
abbreviation (input) DT_CONFIG :: int where "DT_CONFIG \<equiv> 1"
abbreviation (input) DT_STATE :: int where "DT_STATE \<equiv> 2"
abbreviation (input) DT_OPERATIONAL :: int where "DT_OPERATIONAL \<equiv> 3"

datatype update_op = INVALID | DELETE | REPLACE | UPDATE

section \<open>Paths\<close>

record path_elem =
  pe_name :: string
  pe_key :: dict

record gnmi_path =
  p_elem :: "path_elem list"
  p_origin :: string
  p_target :: string

abbreviation mk_elem :: "string \<Rightarrow> dict \<Rightarrow> path_elem" where
  "mk_elem n ks \<equiv> \<lparr>pe_name = n, pe_key = ks\<rparr>"

abbreviation empty_path :: gnmi_path where
  "empty_path \<equiv> \<lparr>p_elem = [], p_origin = [], p_target = []\<rparr>"

definition elem_eq :: "path_elem \<Rightarrow> path_elem \<Rightarrow> bool" where
  "elem_eq e f \<longleftrightarrow> pe_name e = pe_name f \<and> set (pe_key e) = set (pe_key f)"

lemma elem_eq_refl [simp]: "elem_eq e e"
  by (simp add: elem_eq_def)

lemma list_all2_elem_eq_refl [simp]: "list_all2 elem_eq es es"
  by (simp add: list_all2_refl)

section \<open>Values\<close>

datatype json =
    JNull
  | JBool bool
  | JInt int
  | JStr string
  | JList "json list"
  | JObj "(string \<times> json) list"

datatype json_text = JsonDoc json | NotJson string

text \<open>The truth value of the bytes, and \<open>json.loads\<close> and \<open>json.dumps(v).encode()\<close>.\<close>

definition json_nonempty :: "json_text \<Rightarrow> bool" where
  "json_nonempty t \<longleftrightarrow> t \<noteq> NotJson []"

fun json_loads :: "json_text \<Rightarrow> json result" where
  "json_loads (JsonDoc v) = Inr v"
| "json_loads (NotJson s) = Inl ValueError"

definition json_dumps :: "json \<Rightarrow> json_text" where
  "json_dumps v = JsonDoc v"

lemma json_loads_dumps [simp]: "json_loads (json_dumps v) = Inr v"
  by (simp add: json_dumps_def)

lemma json_nonempty_dumps [simp]: "json_nonempty (json_dumps v)"
  by (simp add: json_nonempty_def json_dumps_def)

text \<open>The \<open>oneof\<close> of \<open>TypedValue\<close>; \<open>NoVal\<close> is the message with no member set.\<close>

datatype typed_value =
    StringVal string
  | IntVal int
  | UintVal nat
  | BoolVal bool
  | BytesVal string
  | FloatVal
  | DoubleVal
  | DecimalVal
  | LeaflistVal "typed_value list"
  | AnyVal
  | JsonVal json_text
  | JsonIetfVal json_text
  | AsciiVal string
  | ProtoBytes string
  | NoVal

section \<open>Requests and responses\<close>

record gnmi_update =
  u_path :: gnmi_path
  u_val :: typed_value

record notification =
  n_timestamp :: int
  n_prefix :: gnmi_path
  n_update :: "gnmi_update list"
  n_delete :: "gnmi_path list"
  n_atomic :: bool

datatype subscribe_response = RespUpdate notification | RespSync bool

record subscription_list =
  sl_prefix :: gnmi_path
  sl_paths :: "gnmi_path list"
  sl_mode :: int
  sl_encoding :: int

record update_result =
  ur_timestamp :: int
  ur_path :: gnmi_path
  ur_op :: update_op

record set_response =
  sr_prefix :: gnmi_path
  sr_response :: "update_result list"
  sr_timestamp :: int

end
