(* ===== verification/Gnmi_Common.thy ===== *)
theory Gnmi_Common
  imports Gnmi_Messages
begin

text \<open>
  The path functions of \<open>confdgnmi/src/confd_gnmi_common.py\<close>: parsing an XPath-like string into
  a gNMI path (\<open>make_name_keys\<close>, \<open>make_gnmi_path\<close>), printing a path in the XPath and in the
  ConfD keypath notation (\<open>_make_string_path\<close> and its two callers), adding and removing a
  prefix, and the two enumeration lookups.

  Main results: printing and parsing are inverse on well-formed paths; parsing fails exactly when
  a bracket holds no \<open>=\<close>; printing below a prefix is printing the joined path; removing a prefix
  undoes adding it and fails exactly when the path does not start with it.
\<close>

section \<open>Parsing\<close>

text \<open>The loop over the bracketed parts: \<open>key[1]\<close> raises when there is no \<open>=\<close>.\<close>

fun add_keys :: "dict \<Rightarrow> string list \<Rightarrow> dict result" where
  "add_keys keys [] = Inr keys"
| "add_keys keys (k # ks) =
     (if k \<noteq> [] then
        (case py_split (CHR ''='') (py_replace '']'' [] k) of
           k0 # v0 # _ \<Rightarrow> add_keys (AList.update k0 v0 keys) ks
         | _ \<Rightarrow> Inl IndexError)
      else add_keys keys ks)"

definition make_name_keys :: "string \<Rightarrow> (string \<times> dict) result" where
  "make_name_keys elem_string =
     (if CHR ''['' \<in> set elem_string then
        (let ks = py_split (CHR ''['') elem_string
         in rbind (add_keys [] (tl ks)) (\<lambda>keys. Inr (hd ks, keys)))
      else Inr (elem_string, []))"

fun make_elems :: "string list \<Rightarrow> path_elem list result" where
  "make_elems [] = Inr []"
| "make_elems (e # es) =
     (if e \<noteq> [] then
        rbind (make_name_keys e) (\<lambda>(name, keys).
        rbind (make_elems es) (\<lambda>elems. Inr (mk_elem name keys # elems)))
      else make_elems es)"

definition make_gnmi_path :: "string \<Rightarrow> string \<Rightarrow> string \<Rightarrow> gnmi_path result" where
  "make_gnmi_path xpath_string origin target =
     rbind (make_elems (py_split (CHR ''/'') xpath_string)) (\<lambda>elems.
       Inr \<lparr>p_elem = elems, p_origin = origin, p_target = target\<rparr>)"

section \<open>Printing\<close>

definition key_str :: "bool \<Rightarrow> bool \<Rightarrow> string \<times> string \<Rightarrow> string" where
  "key_str quote_val xpath kv =
     (let val = (if \<not> quote_val then snd kv else [CHR 0x22] @ snd kv @ [CHR 0x22])
      in if xpath then ''['' @ fst kv @ ''='' @ val @ '']'' else ''{'' @ val @ ''}'')"

definition elem_str :: "bool \<Rightarrow> bool \<Rightarrow> path_elem \<Rightarrow> string" where
  "elem_str quote_val xpath e =
     ''/'' @ pe_name e @ concat (map (key_str quote_val xpath) (pe_key e))"

definition make_path :: "bool \<Rightarrow> bool \<Rightarrow> gnmi_path \<Rightarrow> string" where
  "make_path quote_val xpath p =
     (let path = concat (map (elem_str quote_val xpath) (p_elem p))
      in if path = [] then ''/'' else path)"

definition make_string_path ::
  "gnmi_path option \<Rightarrow> gnmi_path option \<Rightarrow> bool \<Rightarrow> bool \<Rightarrow> string" where
  "make_string_path gnmi_path gnmi_prefix quote_val xpath =
     (let path_str = (case gnmi_prefix of
            Some q \<Rightarrow> if 0 < length (p_elem q) then make_path quote_val xpath q else []
          | None \<Rightarrow> [])
      in case gnmi_path of
           Some p \<Rightarrow> path_str @ make_path quote_val xpath p
         | None \<Rightarrow> path_str)"

definition make_xpath_path :: "gnmi_path option \<Rightarrow> gnmi_path option \<Rightarrow> bool \<Rightarrow> string" where
  "make_xpath_path gnmi_path gnmi_prefix quote_val =
     make_string_path gnmi_path gnmi_prefix quote_val True"

definition make_formatted_path :: "gnmi_path \<Rightarrow> gnmi_path option \<Rightarrow> bool \<Rightarrow> string" where
  "make_formatted_path gnmi_path gnmi_prefix quote_val =
     make_string_path (Some gnmi_path) gnmi_prefix quote_val False"

section \<open>Prefixes and enumerations\<close>

definition add_path_prefix :: "gnmi_path \<Rightarrow> gnmi_path \<Rightarrow> gnmi_path" where
  "add_path_prefix path pfx =
     \<lparr>p_elem = p_elem pfx @ p_elem path, p_origin = p_origin path, p_target = p_target path\<rparr>"

definition remove_path_prefix :: "gnmi_path \<Rightarrow> gnmi_path \<Rightarrow> gnmi_path result" where
  "remove_path_prefix path pfx =
     (let n = length (p_elem pfx)
      in if list_all2 elem_eq (take n (p_elem path)) (p_elem pfx)
         then Inr \<lparr>p_elem = drop n (p_elem path), p_origin = p_origin path,
                   p_target = p_target path\<rparr>
         else Inl AssertionError)"

definition get_data_type :: "string \<Rightarrow> int result" where
  "get_data_type datatype_str = dict_get
     [(''ALL'', DT_ALL), (''CONFIG'', DT_CONFIG), (''STATE'', DT_STATE),
      (''OPERATIONAL'', DT_OPERATIONAL)]
     datatype_str"

definition get_sub_mode :: "string \<Rightarrow> int result" where
  "get_sub_mode mode_str = dict_get
     [(''ONCE'', ONCE), (''POLL'', POLL), (''STREAM'', STREAM)] mode_str"

section \<open>Lemmas\<close>

lemma py_split_blocks:
  assumes "c \<notin> set s" and "\<And>x. x \<in> set xs \<Longrightarrow> c \<notin> set (f x)"
  shows "py_split c (s @ concat (map (\<lambda>x. c # f x) xs)) = s # map f xs"
  using assms
proof (induction xs arbitrary: s)
  case Nil
  then show ?case by (simp add: py_simps)
next
  case (Cons x xs)
  then show ?case
    using Cons.IH [of "f x"] by (simp add: py_split_append_sep)
qed

text \<open>A string free of the characters that the notation uses.\<close>

definition plain :: "string \<Rightarrow> bool" where
  "plain s \<longleftrightarrow> CHR ''/'' \<notin> set s \<and> CHR ''['' \<notin> set s \<and> CHR '']'' \<notin> set s \<and> CHR ''='' \<notin> set s"

definition wf_elem :: "path_elem \<Rightarrow> bool" where
  "wf_elem e \<longleftrightarrow>
     (pe_name e \<noteq> [] \<or> pe_key e \<noteq> []) \<and>
     CHR ''/'' \<notin> set (pe_name e) \<and> CHR ''['' \<notin> set (pe_name e) \<and>
     distinct (map fst (pe_key e)) \<and>
     (\<forall>(k, v) \<in> set (pe_key e). plain k \<and> plain v)"

definition wf_path :: "gnmi_path \<Rightarrow> bool" where
  "wf_path p \<longleftrightarrow> (\<forall>e \<in> set (p_elem p). wf_elem e)"

lemma plain_key_split:
  assumes "plain k" and "plain v"
  shows "py_split (CHR ''='') (py_replace '']'' [] (k @ ''='' @ v @ '']'')) = [k, v]"
proof -
  have "py_replace '']'' [] (k @ ''='' @ v @ '']'') = k @ CHR ''='' # v"
    using assms by (simp add: py_replace_delete_char plain_def)
  moreover have "CHR ''='' \<notin> set k" and "CHR ''='' \<notin> set v"
    using assms by (simp_all add: plain_def)
  ultimately show ?thesis
    by (simp add: py_split_append_sep py_split_free)
qed

lemma add_keys_plain:
  assumes "\<And>k v. (k, v) \<in> set kvs \<Longrightarrow> plain k \<and> plain v"
  shows "add_keys d (map (\<lambda>(k, v). k @ ''='' @ v @ '']'') kvs) =
         Inr (fold (\<lambda>(k, v). AList.update k v) kvs d)"
  using assms
proof (induction kvs arbitrary: d)
  case (Cons kv kvs)
  obtain k v where kv: "kv = (k, v)" by fastforce
  with Cons.prems have "plain k" and "plain v" by auto
  then have "py_split (CHR ''='') (py_replace '']'' [] (k @ ''='' @ v @ '']'')) = [k, v]"
    by (rule plain_key_split)
  moreover have "add_keys (AList.update k v d) (map (\<lambda>(k, v). k @ ''='' @ v @ '']'') kvs) =
      Inr (fold (\<lambda>(k, v). AList.update k v) kvs (AList.update k v d))"
    by (rule Cons.IH) (use Cons.prems in auto)
  ultimately show ?case using kv by simp
qed simp

lemma key_str_xpath: "key_str False True = (\<lambda>kv. CHR ''['' # fst kv @ ''='' @ snd kv @ '']'')"
  by (simp add: key_str_def fun_eq_iff)

text \<open>Parsing the printed form of a well-formed element gives its name and its keys.\<close>

lemma make_name_keys_elem:
  assumes "wf_elem e"
  shows "make_name_keys (pe_name e @ concat (map (key_str False True) (pe_key e))) =
         Inr (pe_name e, pe_key e)"
proof -
  let ?f = "\<lambda>kv :: string \<times> string. fst kv @ ''='' @ snd kv @ '']''"
  let ?s = "pe_name e @ concat (map (\<lambda>kv. CHR ''['' # ?f kv) (pe_key e))"
  have free: "CHR ''['' \<notin> set (pe_name e)"
    using assms by (simp add: wf_elem_def)
  have plain: "plain k \<and> plain v" if "(k, v) \<in> set (pe_key e)" for k v
    using assms that by (auto simp: wf_elem_def)
  have "py_split (CHR ''['') ?s = pe_name e # map ?f (pe_key e)"
  proof (rule py_split_blocks [OF free])
    fix kv assume "kv \<in> set (pe_key e)"
    then show "CHR ''['' \<notin> set (?f kv)"
      using plain [of "fst kv" "snd kv"] by (auto simp: plain_def)
  qed
  moreover have "add_keys [] (map ?f (pe_key e)) = Inr (pe_key e)"
    using add_keys_plain [of "pe_key e" "[]"] plain assms
      fold_update_fresh [of "pe_key e" "[]"]
    by (simp add: wf_elem_def case_prod_beta')
  moreover have "CHR ''['' \<in> set ?s \<longleftrightarrow> pe_key e \<noteq> []"
    using free by (cases "pe_key e") auto
  ultimately have "make_name_keys ?s = Inr (pe_name e, pe_key e)"
    by (auto simp: make_name_keys_def)
  then show ?thesis by (simp add: key_str_xpath)
qed

lemma make_elems_printed:
  assumes "\<forall>e \<in> set es. wf_elem e"
  shows "make_elems (map (\<lambda>e. pe_name e @ concat (map (key_str False True) (pe_key e))) es) =
         Inr es"
  using assms
proof (induction es)
  case (Cons e es)
  then have "pe_name e @ concat (map (key_str False True) (pe_key e)) \<noteq> []"
    by (cases "pe_key e") (auto simp: wf_elem_def key_str_xpath)
  with Cons show ?case
    using make_name_keys_elem [of e] by (auto simp del: concat_eq_Nil_conv append_is_Nil_conv)
qed simp

lemma slash_free_elem:
  assumes "wf_elem e"
  shows "CHR ''/'' \<notin> set (pe_name e @ concat (map (key_str False True) (pe_key e)))"
  using assms by (auto simp: wf_elem_def plain_def key_str_xpath)


lemma elem_str_xpath:
  "elem_str False True =
     (\<lambda>e. CHR ''/'' # pe_name e @ concat (map (key_str False True) (pe_key e)))"
  by (simp add: elem_str_def fun_eq_iff)

lemma elem_str_not_Nil [simp]: "elem_str q x e \<noteq> []"
  by (simp add: elem_str_def)

lemma concat_elem_str_Nil [simp]: "concat (map (elem_str q x) es) = [] \<longleftrightarrow> es = []"
  by (cases es) auto

lemma make_path_empty [simp]: "p_elem p = [] \<Longrightarrow> make_path q x p = ''/''"
  by (simp add: make_path_def)

lemma make_path_nonempty:
  "p_elem p \<noteq> [] \<Longrightarrow> make_path q x p = concat (map (elem_str q x) (p_elem p))"
  by (simp add: make_path_def Let_def del: concat_eq_Nil_conv)

lemmas string_path_defs = make_xpath_path_def make_formatted_path_def make_string_path_def

text \<open>The number of parts of a split is one more than the number of separators.\<close>

lemma py_split_hd: "hd (py_split c s) = takeWhile (\<lambda>x. x \<noteq> c) s"
proof (induction s)
  case (Cons x s)
  then show ?case by (cases "py_split c s") auto
qed simp

lemma py_split_singleton: "(\<exists>p. py_split c s = [p]) \<longleftrightarrow> c \<notin> set s"
proof (induction s)
  case (Cons x s)
  then show ?case by (cases "py_split c s") (auto split: list.splits)
qed simp

lemma add_keys_error:
  "add_keys d ks = Inl e \<longleftrightarrow> e = IndexError \<and> (\<exists>k \<in> set ks. k \<noteq> [] \<and> CHR ''='' \<notin> set k)"
proof (induction ks arbitrary: d)
  case (Cons k ks)
  let ?parts = "py_split (CHR ''='') (py_replace '']'' [] k)"
  have mem: "CHR ''='' \<in> set (py_replace '']'' [] k) \<longleftrightarrow> CHR ''='' \<in> set k"
    by (simp add: py_replace_delete_char)
  show ?case
  proof (cases "CHR ''='' \<in> set k")
    case True
    then obtain k0 v0 vs where "?parts = k0 # v0 # vs"
      using py_split_singleton [of "CHR ''=''" "py_replace '']'' [] k"] mem
      by (cases ?parts rule: remdups_adj.cases) auto
    with True Cons.IH show ?thesis by auto
  next
    case False
    then obtain p where "?parts = [p]"
      using py_split_singleton [of "CHR ''=''" "py_replace '']'' [] k"] mem by auto
    with False Cons.IH show ?thesis by auto
  qed
qed simp

text \<open>Parsing the printed form of a list of well-formed elements.\<close>

lemma make_gnmi_path_printed:
  assumes "\<forall>e \<in> set es. wf_elem e" and "es \<noteq> []"
  shows "make_gnmi_path (concat (map (elem_str False True) es)) origin target =
     Inr \<lparr>p_elem = es, p_origin = origin, p_target = target\<rparr>"
proof -
  let ?f = "\<lambda>e. pe_name e @ concat (map (key_str False True) (pe_key e))"
  have "py_split (CHR ''/'') ([] @ concat (map (\<lambda>e. CHR ''/'' # ?f e) es)) = [] # map ?f es"
    by (rule py_split_blocks) (use assms slash_free_elem in auto)
  then show ?thesis
    using make_elems_printed [OF assms(1)] by (simp add: make_gnmi_path_def elem_str_xpath)
qed

section \<open>Properties\<close>

text \<open>
  C7. Printing a well-formed gNMI path as an XPath and parsing the result gives the path back,
  with every element, key and value in order, for any origin and target. Well-formed means that
  names and keys are free of the characters the notation itself uses and that no element prints
  as the empty string.
\<close>

theorem make_gnmi_path_roundtrip:
  assumes "wf_path p"
  shows "make_gnmi_path (make_xpath_path (Some p) None False) (p_origin p) (p_target p) = Inr p"
proof (cases "p_elem p = []")
  case True
  then show ?thesis by (simp add: make_gnmi_path_def string_path_defs)
next
  case False
  then show ?thesis
    using assms make_gnmi_path_printed [of "p_elem p" "p_origin p" "p_target p"]
    by (simp add: wf_path_def string_path_defs make_path_nonempty)
qed

theorem make_gnmi_path_roundtrip_witness:
  "make_gnmi_path ''/interfaces/interface[name=if_1][unit=0]/type'' [] [] =
     Inr \<lparr>p_elem = [mk_elem ''interfaces'' [],
                     mk_elem ''interface'' [(''name'', ''if_1''), (''unit'', ''0'')],
                     mk_elem ''type'' []],
          p_origin = [], p_target = []\<rparr>"
proof -
  let ?p = "\<lparr>p_elem = [mk_elem ''interfaces'' [],
      mk_elem ''interface'' [(''name'', ''if_1''), (''unit'', ''0'')], mk_elem ''type'' []],
      p_origin = [], p_target = []\<rparr>"
  have "wf_path ?p" by (simp add: wf_path_def wf_elem_def plain_def)
  moreover have "make_xpath_path (Some ?p) None False =
      ''/interfaces/interface[name=if_1][unit=0]/type''"
    by (simp add: string_path_defs make_path_def elem_str_def key_str_def)
  ultimately show ?thesis
    using make_gnmi_path_roundtrip [of ?p] by simp
qed

text \<open>
  Splitting an element string into a name and keys fails exactly when a non-empty bracket
  part has no \<open>=\<close>, and then with \<open>IndexError\<close>; no other exception is possible.
\<close>

theorem make_name_keys_error:
  "make_name_keys s = Inl e \<longleftrightarrow>
     e = IndexError \<and> (\<exists>k \<in> set (tl (py_split (CHR ''['') s)). k \<noteq> [] \<and> CHR ''='' \<notin> set k)"
proof (cases "CHR ''['' \<in> set s")
  case True
  then show ?thesis
    by (auto simp: make_name_keys_def Let_def rbind_eq_Inl_iff add_keys_error)
next
  case False
  then show ?thesis by (simp add: make_name_keys_def py_split_free)
qed

text \<open>
  A slash inside a key value ends the element: parsing \<open>/n[k=v1/v2]\<close> gives two elements,
  the first with the value cut at the slash and the second named after the rest, with the closing
  bracket. A path whose key values hold a slash is therefore not what
  \<open>make_gnmi_path\<close> builds from its printed form.
\<close>

theorem make_gnmi_path_slash_in_key:
  assumes "plain n" and "n \<noteq> []" and "plain k" and "plain v1" and "plain v2"
  shows "make_gnmi_path (''/'' @ n @ ''['' @ k @ ''='' @ v1 @ ''/'' @ v2 @ '']'') origin target =
     Inr \<lparr>p_elem = [mk_elem n [(k, v1)], mk_elem (v2 @ '']'') []],
          p_origin = origin, p_target = target\<rparr>"
proof -
  let ?e = "n @ ''['' @ k @ ''='' @ v1"
  have free: "CHR ''/'' \<notin> set ?e" "CHR ''/'' \<notin> set (v2 @ '']'')" "CHR ''['' \<notin> set (v2 @ '']'')"
    using assms by (auto simp: plain_def)
  have "py_split (CHR ''/'') (?e @ CHR ''/'' # v2 @ '']'') = [?e, v2 @ '']'']"
    by (simp only: py_split_append_sep [OF free(1)] py_split_free [OF free(2)])
  then have split: "py_split (CHR ''/'') (''/'' @ n @ ''['' @ k @ ''='' @ v1 @ ''/'' @ v2 @ '']'') =
      [[], ?e, v2 @ '']'']"
    by simp
  have "py_split (CHR ''['') ?e = [n, k @ ''='' @ v1]"
    using assms by (simp add: py_split_append_sep py_split_free plain_def)
  moreover have "py_split (CHR ''='') (py_replace '']'' [] (k @ ''='' @ v1)) = [k, v1]"
    using assms by (simp add: py_replace_delete_char py_split_append_sep py_split_free plain_def)
  ultimately have "make_name_keys ?e = Inr (n, [(k, v1)])"
    by (simp add: make_name_keys_def)
  moreover have "make_name_keys (v2 @ '']'') = Inr (v2 @ '']'', [])"
    using free(3) by (simp add: make_name_keys_def)
  ultimately have "make_elems [[], ?e, v2 @ '']''] =
      Inr [mk_elem n [(k, v1)], mk_elem (v2 @ '']'') []]"
    using assms(2) by simp
  then show ?thesis by (simp only: make_gnmi_path_def split rbind_simps)
qed

theorem make_gnmi_path_slash_in_key_witness:
  "make_gnmi_path ''/interface[name=Gi0/1]'' [] [] =
     Inr \<lparr>p_elem = [mk_elem ''interface'' [(''name'', ''Gi0'')], mk_elem ''1]'' []],
          p_origin = [], p_target = []\<rparr>"
  using make_gnmi_path_slash_in_key [of "''interface''" "''name''" "''Gi0''" "''1''" "[]" "[]"]
  by (simp add: plain_def)

text \<open>
  Printing a path below a prefix is printing the joined path, in both notations and with or
  without quoted values, provided the path has an element; for a path with no element the result
  is the printed prefix followed by a slash.
\<close>

theorem make_string_path_prefix:
  "make_string_path (Some p) (Some pfx) quote_val xpath =
     (if p_elem p \<noteq> [] then make_string_path (Some (add_path_prefix p pfx)) None quote_val xpath
      else make_string_path None (Some pfx) quote_val xpath @ ''/'')"
proof (cases "p_elem p = []")
  case True
  then show ?thesis by (simp add: make_string_path_def)
next
  case False
  then show ?thesis
    by (cases "p_elem pfx")
      (simp_all add: make_string_path_def make_path_nonempty add_path_prefix_def)
qed

text \<open>
  Removing a prefix undoes adding it, and removal succeeds exactly on the paths that start
  with the prefix element by element (names equal, key maps equal as maps), giving the rest of
  the path with its origin and target; otherwise the assertion fails.
\<close>

theorem remove_path_prefix_spec:
  "remove_path_prefix (add_path_prefix p pfx) pfx = Inr p \<and>
   (remove_path_prefix q pfx = Inr r \<longleftrightarrow>
      (\<exists>es. p_elem q = es @ p_elem r \<and> list_all2 elem_eq es (p_elem pfx) \<and>
            p_origin r = p_origin q \<and> p_target r = p_target q)) \<and>
   (remove_path_prefix q pfx \<in> {Inl AssertionError} \<union> range Inr)"
proof (intro conjI)
  show "remove_path_prefix (add_path_prefix p pfx) pfx = Inr p"
    by (simp add: remove_path_prefix_def add_path_prefix_def)
  show "remove_path_prefix q pfx \<in> {Inl AssertionError} \<union> range Inr"
    by (auto simp: remove_path_prefix_def Let_def)
  show "remove_path_prefix q pfx = Inr r \<longleftrightarrow>
      (\<exists>es. p_elem q = es @ p_elem r \<and> list_all2 elem_eq es (p_elem pfx) \<and>
            p_origin r = p_origin q \<and> p_target r = p_target q)"
  proof
    assume "remove_path_prefix q pfx = Inr r"
    then show "\<exists>es. p_elem q = es @ p_elem r \<and> list_all2 elem_eq es (p_elem pfx) \<and>
        p_origin r = p_origin q \<and> p_target r = p_target q"
      by (intro exI [of _ "take (length (p_elem pfx)) (p_elem q)"])
        (auto simp: remove_path_prefix_def Let_def split: if_splits)
  next
    assume "\<exists>es. p_elem q = es @ p_elem r \<and> list_all2 elem_eq es (p_elem pfx) \<and>
        p_origin r = p_origin q \<and> p_target r = p_target q"
    then obtain es where "p_elem q = es @ p_elem r" and es: "list_all2 elem_eq es (p_elem pfx)"
      and "p_origin r = p_origin q" and "p_target r = p_target q" by blast
    moreover have "length es = length (p_elem pfx)"
      using es by (rule list_all2_lengthD)
    ultimately show "remove_path_prefix q pfx = Inr r"
      by (simp add: remove_path_prefix_def)
  qed
qed

end
