(* ===== verification/Gnmi_Adapter.thy ===== *)
theory Gnmi_Adapter
  imports Gnmi_Common
begin

text \<open>
  The abstract adapter of \<open>confdgnmi/src/confd_gnmi_adapter.py\<close>. Its class
  \<open>SubscriptionHandler\<close> has two fields of its own, the subscription list and the event queue of
  the \<open>read\<close> generator (record \<open>sub_handler\<close>, which a subclass extends), and the methods that a subclass
  supplies (record \<open>handler_ops\<close>, over the state \<open>'s\<close> of the subclass and of its adapter).

  The generator \<open>read\<close> is one pass of its loop body (\<open>read_iter\<close>) and the loop itself
  (\<open>read_loop\<close>), run over the events that are in the queue. The loop yields responses and ends in
  one of three ways: it returned, it raised, or it waits in \<open>read_queue.get()\<close> for an
  event that is not there yet. The recursion is over the queue, so the model is total. With an
  exception the state is the one before the pass that raised: the handler is not used again.

  The locale \<open>monitor_lifecycle\<close> is what \<open>read\<close> relies on of the subclass: how
  \<open>start_monitoring\<close>, \<open>stop_monitoring\<close> and the other methods change whether the change thread
  runs. The two adapters interpret it.
\<close>

section \<open>State and methods\<close>

datatype sub_event = SAMPLE | SEND_CHANGES | FINISH

record capability_model =
  cm_name :: string
  cm_organization :: string
  cm_version :: string
  cm_schema :: string

record sub_handler =
  sh_subscription_list :: subscription_list
  sh_read_queue :: "sub_event list option"

record 's handler_ops =
  op_get_sample :: "'s \<Rightarrow> gnmi_path \<Rightarrow> gnmi_path \<Rightarrow> gnmi_update list result"
  op_add_path_for_monitoring :: "'s \<Rightarrow> gnmi_path \<Rightarrow> gnmi_path \<Rightarrow> 's result"
  op_get_subscription_notifications ::
    "subscription_list \<Rightarrow> 's \<Rightarrow> ('s \<times> notification list) result"
  op_start_monitoring :: "'s \<Rightarrow> 's result"
  op_stop_monitoring :: "'s \<Rightarrow> 's result"

definition is_once :: "subscription_list \<Rightarrow> bool" where
  "is_once sl \<longleftrightarrow> sl_mode sl = ONCE"

definition is_poll :: "subscription_list \<Rightarrow> bool" where
  "is_poll sl \<longleftrightarrow> sl_mode sl = POLL"

definition is_monitor_changes :: "subscription_list \<Rightarrow> bool" where
  "is_monitor_changes sl \<longleftrightarrow> sl_mode sl = STREAM"

lemmas mode_defs = is_once_def is_poll_def is_monitor_changes_def

definition handler_init :: "subscription_list \<Rightarrow> sub_handler" where
  "handler_init sl =
     \<lparr>sh_subscription_list = sl, sh_read_queue = (if \<not> is_once sl then Some [] else None)\<rparr>"

definition put_event :: "sub_event \<Rightarrow> 'a sub_handler_scheme \<Rightarrow> 'a sub_handler_scheme result" where
  "put_event event h =
     (case sh_read_queue h of
        None \<Rightarrow> Inl AssertionError
      | Some q \<Rightarrow> Inr (h\<lparr>sh_read_queue := Some (q @ [event])\<rparr>))"

definition handler_stop :: "'a sub_handler_scheme \<Rightarrow> 'a sub_handler_scheme result" where
  "handler_stop h = put_event FINISH h"

definition handler_poll :: "'a sub_handler_scheme \<Rightarrow> 'a sub_handler_scheme result" where
  "handler_poll h = put_event SAMPLE h"

section \<open>Responses\<close>

fun sample_loop ::
  "'s handler_ops \<Rightarrow> gnmi_path \<Rightarrow> bool \<Rightarrow> gnmi_path list \<Rightarrow> 's \<Rightarrow> ('s \<times> gnmi_update list) result" where
  "sample_loop ops pfx start [] s = Inr (s, [])"
| "sample_loop ops pfx start (p # ps) s =
     rbind (op_get_sample ops s p pfx) (\<lambda>update.
     rbind (if start then op_add_path_for_monitoring ops s p pfx else Inr s) (\<lambda>s1.
     rbind (sample_loop ops pfx start ps s1) (\<lambda>(s2, updates). Inr (s2, update @ updates))))"

definition sample ::
  "'s handler_ops \<Rightarrow> subscription_list \<Rightarrow> bool \<Rightarrow> 's \<Rightarrow> ('s \<times> subscribe_response) result" where
  "sample ops sl start_monitoring s =
     rbind (sample_loop ops (sl_prefix sl) start_monitoring (sl_paths sl) s) (\<lambda>(s1, update).
     let notif = \<lparr>n_timestamp = 0, n_prefix = sl_prefix sl, n_update = update,
                  n_delete = [], n_atomic = False\<rparr>;
         response = RespUpdate notif
     in rbind (if start_monitoring then op_start_monitoring ops s1 else Inr s1) (\<lambda>s2.
        Inr (s2, response)))"

definition sync_response :: subscribe_response where
  "sync_response = RespSync True"

text \<open>The method of the base class: one notification with all monitored changes.\<close>

definition base_get_subscription_notifications ::
  "('s \<Rightarrow> ('s \<times> gnmi_update list) result) \<Rightarrow> subscription_list \<Rightarrow> 's \<Rightarrow>
     ('s \<times> notification list) result" where
  "base_get_subscription_notifications get_monitored_changes sl s =
     rbind (get_monitored_changes s) (\<lambda>(s1, update).
       Inr (s1, [\<lparr>n_timestamp = 0, n_prefix = sl_prefix sl, n_update = update,
                  n_delete = [], n_atomic = False\<rparr>]))"

definition changes ::
  "'s handler_ops \<Rightarrow> subscription_list \<Rightarrow> 's \<Rightarrow> ('s \<times> subscribe_response list) result" where
  "changes ops sl s =
     rbind (op_get_subscription_notifications ops sl s) (\<lambda>(s1, notifications).
       Inr (s1, map RespUpdate notifications))"

section \<open>The generator\<close>

text \<open>
  One pass of the loop body for the event \<open>event\<close>, up to \<open>read_queue.get()\<close>: the new state, the
  responses yielded, and whether the loop goes on (\<^const>\<open>False\<close> for \<open>break\<close>).
\<close>

definition read_iter ::
  "'s handler_ops \<Rightarrow> subscription_list \<Rightarrow> bool \<Rightarrow> sub_event option \<Rightarrow> 's \<Rightarrow>
     ('s \<times> subscribe_response list \<times> bool) result" where
  "read_iter ops sl first_sample event s =
     (if first_sample \<or> event = Some SAMPLE then
        rbind (sample ops sl (is_monitor_changes sl \<and> first_sample) s) (\<lambda>(s1, response).
          Inr (s1, [response] @ (if first_sample then [sync_response] else []), \<not> is_once sl))
      else if event = Some FINISH then Inr (s, [], False)
      else if event = Some SEND_CHANGES then
        rbind (changes ops sl s) (\<lambda>(s1, responses). Inr (s1, responses, True))
      else Inr (s, [], False))"

datatype read_outcome = Finished | Blocked | Raised py_error

definition read_end :: "'s handler_ops \<Rightarrow> subscription_list \<Rightarrow> 's \<Rightarrow> 's \<times> read_outcome" where
  "read_end ops sl s =
     (if is_monitor_changes sl then
        (case op_stop_monitoring ops s of Inl e \<Rightarrow> (s, Raised e) | Inr s1 \<Rightarrow> (s1, Finished))
      else (s, Finished))"

fun read_loop ::
  "'s handler_ops \<Rightarrow> subscription_list \<Rightarrow> bool \<Rightarrow> sub_event option \<Rightarrow> sub_event list \<Rightarrow> 's \<Rightarrow>
     subscribe_response list \<times> sub_event list \<times> 's \<times> read_outcome" where
  "read_loop ops sl first_sample event queue s =
     (case read_iter ops sl first_sample event s of
        Inl e \<Rightarrow> ([], queue, s, Raised e)
      | Inr (s1, responses, go_on) \<Rightarrow>
          if \<not> go_on then
            (let (s2, out) = read_end ops sl s1 in (responses, queue, s2, out))
          else (case queue of
              [] \<Rightarrow> (responses, [], s1, Blocked)
            | ev # queue' \<Rightarrow>
                (let (more, rest) = read_loop ops sl False (Some ev) queue' s1
                 in (responses @ more, rest))))"

declare read_loop.simps [simp del]

definition read ::
  "'s handler_ops \<Rightarrow> subscription_list \<Rightarrow> sub_event list \<Rightarrow> 's \<Rightarrow>
     subscribe_response list \<times> sub_event list \<times> 's \<times> read_outcome" where
  "read ops sl queue s = read_loop ops sl True None queue s"

section \<open>Lemmas\<close>

lemma sample_loop_no_start:
  "sample_loop ops pfx False ps s = Inr (s', us) \<Longrightarrow> s' = s"
  by (induction ps arbitrary: s' us) (auto simp: rbind_eq_Inr_iff split: prod.splits)

lemma sample_no_start: "sample ops sl False s = Inr (s', r) \<Longrightarrow> s' = s"
  by (auto simp: sample_def Let_def rbind_eq_Inr_iff dest: sample_loop_no_start)

lemma sample_is_update: "sample ops sl b s = Inr (s', r) \<Longrightarrow> \<exists>n. r = RespUpdate n \<and> n_prefix n = sl_prefix sl"
  by (auto simp: sample_def Let_def rbind_eq_Inr_iff)

lemma changes_are_updates: "changes ops sl s = Inr (s', rs) \<Longrightarrow> RespSync b \<notin> set rs"
  by (auto simp: changes_def rbind_eq_Inr_iff)

lemma read_iter_later_no_sync:
  "read_iter ops sl False ev s = Inr (s1, rs, go_on) \<Longrightarrow> RespSync b \<notin> set rs"
  by (auto simp: read_iter_def rbind_eq_Inr_iff split: if_splits
      dest: changes_are_updates sample_is_update)

lemma read_loop_later_no_sync:
  "read_loop ops sl False ev q s = (rs, q', s', out) \<Longrightarrow> RespSync b \<notin> set rs"
proof (induction q arbitrary: ev s rs)
  case Nil
  then show ?case
    by (auto simp: read_loop.simps [of ops sl False] split: sum.splits if_splits prod.splits
        dest: read_iter_later_no_sync)
next
  case (Cons e q)
  from Cons.prems show ?case
    by (auto simp: read_loop.simps [of ops sl False ev] split: sum.splits if_splits prod.splits
        dest: read_iter_later_no_sync Cons.IH)
qed

lemma read_loop_append:
  "read_loop ops sl first ev (q1 @ q2) s =
     (case read_loop ops sl first ev q1 s of
        (rs, q', s1, out) \<Rightarrow>
          if out = Blocked then
            (case q2 of
               [] \<Rightarrow> (rs, [], s1, Blocked)
             | ev' # q \<Rightarrow> (let (more, rest) = read_loop ops sl False (Some ev') q s1 in (rs @ more, rest)))
          else (rs, q' @ q2, s1, out))"
proof (induction q1 arbitrary: first ev s)
  case Nil
  then show ?case
    by (auto simp: read_loop.simps [of ops sl first] read_end_def
        split: sum.splits prod.splits list.splits)
next
  case (Cons e q1)
  then show ?case
    by (auto simp: read_loop.simps [of ops sl first] read_end_def
        split: sum.splits prod.splits list.splits)
qed

lemma read_loop_polls:
  assumes "\<not> is_once sl" and "\<not> is_monitor_changes sl" and "sample ops sl False s = Inr (s, r)"
  shows "read_loop ops sl False (Some SAMPLE) (replicate k SAMPLE @ FINISH # rest) s =
         (replicate (Suc k) r, rest, s, Finished)"
proof (induction k)
  case 0
  then show ?case
    using assms by (simp add: read_loop.simps [of _ _ _ _ "_ # _"] read_loop.simps [of _ _ _ "Some FINISH"]
        read_iter_def read_end_def split: list.splits)
next
  case (Suc k)
  then show ?case
    using assms by (simp add: read_loop.simps [of _ _ _ _ "_ # _"] read_iter_def)
qed

section \<open>What the generator relies on\<close>

text \<open>
  \<open>active s\<close> says that the change thread of the subclass runs. The laws are about the calls that
  return: starting activates and is refused while active, stopping deactivates, and nothing else
  changes it.
\<close>

locale monitor_lifecycle =
  fixes ops :: "'s handler_ops" and active :: "'s \<Rightarrow> bool"
  assumes add_path_keeps:
      "op_add_path_for_monitoring ops s p pfx = Inr s' \<Longrightarrow> active s' = active s"
    and start_refused: "active s \<Longrightarrow> op_start_monitoring ops s \<noteq> Inr s'"
    and start_activates: "op_start_monitoring ops s = Inr s' \<Longrightarrow> active s'"
    and notifications_keep:
      "op_get_subscription_notifications ops sl s = Inr (s', ns) \<Longrightarrow> active s' = active s"
    and stop_deactivates: "op_stop_monitoring ops s = Inr s' \<Longrightarrow> \<not> active s'"
begin

lemma sample_loop_active:
  "sample_loop ops pfx start ps s = Inr (s', us) \<Longrightarrow> active s' = active s"
proof (induction ps arbitrary: s us)
  case (Cons p ps)
  then show ?case
    by (cases start) (auto simp: rbind_eq_Inr_iff dest: add_path_keeps)
qed simp

lemma sample_active:
  "sample ops sl start s = Inr (s', r) \<Longrightarrow> active s' = (start \<or> active s)"
  by (cases start)
    (auto simp: sample_def Let_def rbind_eq_Inr_iff dest: sample_loop_active start_activates)

lemma read_iter_active:
  assumes "read_iter ops sl first ev s = Inr (s', rs, go_on)"
  shows "active s' = (first \<and> is_monitor_changes sl \<or> active s)"
proof (cases "first \<or> ev = Some SAMPLE")
  case True
  then obtain r where "sample ops sl (is_monitor_changes sl \<and> first) s = Inr (s', r)"
    using assms by (auto simp: read_iter_def rbind_eq_Inr_iff)
  then show ?thesis by (auto dest: sample_active)
next
  case False
  then show ?thesis
    using assms
    by (auto simp: read_iter_def changes_def rbind_eq_Inr_iff split: if_splits
        dest: notifications_keep)
qed

lemma read_loop_active:
  assumes "read_loop ops sl first ev q s = (rs, q', s', out)" and "is_monitor_changes sl"
    and "first \<or> active s"
  shows "(out = Finished \<longrightarrow> \<not> active s') \<and> (out = Blocked \<longrightarrow> active s')"
  using assms
proof (induction q arbitrary: first ev s rs)
  case Nil
  then show ?case
    by (auto simp: read_loop.simps [of ops sl first] read_end_def split: sum.splits if_splits
        dest: stop_deactivates read_iter_active)
next
  case (Cons e q)
  show ?case
  proof (cases "\<exists>s1 rs1. read_iter ops sl first ev s = Inr (s1, rs1, True)")
    case True
    then obtain s1 rs1 more where it: "read_iter ops sl first ev s = Inr (s1, rs1, True)"
      and rest: "read_loop ops sl False (Some e) q s1 = (more, q', s', out)"
      using Cons.prems by (auto simp: read_loop.simps [of ops sl first] split: prod.splits)
    have "active s1" using read_iter_active [OF it] Cons.prems by auto
    with Cons.IH [OF rest] Cons.prems show ?thesis by auto
  next
    case False
    with Cons.prems show ?thesis
      by (auto simp: read_loop.simps [of ops sl first] read_end_def split: sum.splits if_splits
          dest: stop_deactivates)
  qed
qed

text \<open>A STREAM subscription that returned has stopped its change thread; one that waits has it running.\<close>

lemma read_lifecycle:
  "read ops sl q s = (rs, q', s', out) \<Longrightarrow> is_monitor_changes sl \<Longrightarrow>
     (out = Finished \<longrightarrow> \<not> active s') \<and> (out = Blocked \<longrightarrow> active s')"
  unfolding read_def by (rule read_loop_active) auto

end

section \<open>Properties\<close>

text \<open>
  A ONCE subscription yields exactly the sample and then the sync response and returns,
  without touching the event queue; if taking the sample raises, nothing is yielded and the
  exception leaves the generator.
\<close>

theorem read_once:
  assumes "is_once sl"
  shows "read ops sl q s =
     (case sample ops sl False s of
        Inl e \<Rightarrow> ([], q, s, Raised e)
      | Inr (s1, r) \<Rightarrow> ([r, sync_response], q, s1, Finished))"
  using assms
  by (auto simp: read_def read_loop.simps [of ops] read_iter_def read_end_def mode_defs
      split: sum.splits)

theorem read_once_witness:
  "read \<lparr>op_get_sample = (\<lambda>s p pfx. Inr []), op_add_path_for_monitoring = (\<lambda>s p pfx. Inr s),
         op_get_subscription_notifications = (\<lambda>sl s. Inr (s, [])),
         op_start_monitoring = Inr, op_stop_monitoring = Inr\<rparr>
     \<lparr>sl_prefix = empty_path, sl_paths = [empty_path], sl_mode = ONCE, sl_encoding = JSON\<rparr>
     [SAMPLE] () =
   ([RespUpdate \<lparr>n_timestamp = 0, n_prefix = empty_path, n_update = [], n_delete = [],
                 n_atomic = False\<rparr>, RespSync True], [SAMPLE], (), Finished)"
  by (subst read_once) (simp_all add: mode_defs sample_def sync_response_def)

lemma read_polls:
  assumes "is_poll sl" and "sample ops sl False s = Inr (s, r)"
  shows "read ops sl (replicate k SAMPLE @ FINISH # rest) s =
     (r # sync_response # replicate k r, rest, s, Finished)"
proof -
  have mode: "\<not> is_once sl" "\<not> is_monitor_changes sl"
    using assms(1) by (auto simp: mode_defs)
  show ?thesis
  proof (cases k)
    case 0
    then show ?thesis
      using mode assms(2)
      by (simp add: read_def read_loop.simps [of _ _ True] read_loop.simps [of _ _ _ "Some FINISH"]
          read_iter_def read_end_def split: list.splits)
  next
    case (Suc n)
    then show ?thesis
      using mode assms(2) read_loop_polls [OF mode assms(2), of n rest]
      by (simp add: read_def read_loop.simps [of _ _ True] read_iter_def)
  qed
qed

text \<open>
  A POLL subscription whose queue holds \<open>k\<close> polls and then the end of the request stream yields
  one sample, the sync response and one more sample per poll, in this order, and returns; what is
  queued after the end is not looked at.
\<close>

theorem read_poll:
  assumes "is_poll sl" and "sample ops sl False s = Inr (s, r)"
  shows "read ops sl (replicate k SAMPLE @ FINISH # rest) s =
     (r # sync_response # replicate k r, rest, s, Finished)"
  using read_polls [OF assms] .

theorem read_poll_witness:
  "read \<lparr>op_get_sample = (\<lambda>s p pfx. Inr []), op_add_path_for_monitoring = (\<lambda>s p pfx. Inr s),
         op_get_subscription_notifications = (\<lambda>sl s. Inr (s, [])),
         op_start_monitoring = Inr, op_stop_monitoring = Inr\<rparr>
     \<lparr>sl_prefix = empty_path, sl_paths = [], sl_mode = POLL, sl_encoding = JSON\<rparr>
     [SAMPLE, SAMPLE, FINISH, SAMPLE] () =
   (let r = RespUpdate \<lparr>n_timestamp = 0, n_prefix = empty_path, n_update = [], n_delete = [],
                        n_atomic = False\<rparr>
    in ([r, RespSync True, r, r], [SAMPLE], (), Finished))"
  using read_poll [of "\<lparr>sl_prefix = empty_path, sl_paths = [], sl_mode = POLL, sl_encoding = JSON\<rparr>"
      "\<lparr>op_get_sample = (\<lambda>s p pfx. Inr []), op_add_path_for_monitoring = (\<lambda>s p pfx. Inr s),
        op_get_subscription_notifications = (\<lambda>sl s. Inr (s, [])),
        op_start_monitoring = Inr, op_stop_monitoring = Inr\<rparr>" "()"
      "RespUpdate \<lparr>n_timestamp = 0, n_prefix = empty_path, n_update = [], n_delete = [],
                   n_atomic = False\<rparr>" 2 "[SAMPLE]"]
  by (simp add: mode_defs sample_def sync_response_def numeral_2_eq_2 Let_def)

text \<open>
  Whatever the mode, the subclass and the events: either the first sample raised and nothing
  was yielded, or the responses are an update, the sync response, and then updates only. So the
  client sees exactly one sync response, in second place.
\<close>

theorem read_sync_second:
  "case read ops sl q s of (rs, q', s', out) \<Rightarrow>
     (rs = [] \<and> (\<exists>e. out = Raised e)) \<or>
     (\<exists>n more. rs = RespUpdate n # RespSync True # more \<and> (\<forall>b. RespSync b \<notin> set more))"
proof (cases "sample ops sl (is_monitor_changes sl) s")
  case (Inl e)
  then show ?thesis by (simp add: read_def read_loop.simps [of _ _ True] read_iter_def)
next
  case (Inr sr)
  obtain s1 r where sr: "sr = (s1, r)" by fastforce
  with Inr obtain n where n: "r = RespUpdate n" by (auto dest: sample_is_update)
  have it: "read_iter ops sl True None s = Inr (s1, [RespUpdate n, RespSync True], \<not> is_once sl)"
    using Inr sr n by (simp add: read_iter_def sync_response_def)
  show ?thesis
  proof (cases "is_once sl \<or> q = []")
    case True
    with it show ?thesis
      by (auto simp: read_def read_loop.simps [of _ _ True] split: list.splits prod.splits)
  next
    case False
    then obtain e q1 where q: "q = e # q1" by (cases q) auto
    obtain more q' s' out where l: "read_loop ops sl False (Some e) q1 s1 = (more, q', s', out)"
      by (cases "read_loop ops sl False (Some e) q1 s1")
    from False it q l have "read ops sl q s = (RespUpdate n # RespSync True # more, q', s', out)"
      by (simp add: read_def read_loop.simps [of _ _ True])
    with read_loop_later_no_sync [OF l] show ?thesis by auto
  qed
qed


end
