(* ===== verification/Gnmi_Demo_Adapter.thy ===== *)
theory Gnmi_Demo_Adapter
  imports Gnmi_Adapter "HOL-Library.Char_ord" "HOL-Library.List_Lexorder"
begin

text \<open>
  The demo adapter of \<open>confdgnmi/src/confd_gnmi_demo_adapter.py\<close>: a database of string values
  keyed by XPath strings, with a configuration and a state part, read by \<open>get\<close> and by subscription
  samples, written by \<open>set\<close> and by the change thread of \<open>Gnmi_Demo_Handler\<close>.

  The record \<open>demo_adapter\<close> holds the class attributes: the two dictionaries, the configured
  changes and the position in them. The regular expressions are written out as searches. The
  random module draws from a stream of numbers in the state (\<open>da_rnd\<close>, with the position
  \<open>da_rnd_idx\<close>), so every result is for an arbitrary stream.
\<close>

section \<open>State\<close>

definition NS_INTERFACES :: string where
  "NS_INTERFACES = ''ietf-interfaces:''"

definition NS_IANA :: string where
  "NS_IANA = ''iana-if-type:''"

text \<open>An element of \<open>config["changes"]\<close>: a pair, a string, or \<open>None\<close>.\<close>

datatype change = ChPath string string | ChStr string | ChNone

record demo_adapter =
  da_db :: dict
  da_state_db :: dict
  da_changes :: "change list option"
  da_changes_idx :: nat
  da_rnd :: "nat \<Rightarrow> nat"
  da_rnd_idx :: nat

section \<open>Database\<close>

definition nsless_xpath :: "string \<Rightarrow> string" where
  "nsless_xpath xpath = py_replace NS_INTERFACES [] xpath"

text \<open>
  The greedy group of the pattern \<open>\[name=(.+)\]\<close> after the literal part: the rest of the line up
  to its last closing bracket, if that leaves at least one character.
\<close>

definition greedy_to_bracket :: "string \<Rightarrow> string option" where
  "greedy_to_bracket s =
     (case dropWhile (\<lambda>c. c \<noteq> CHR '']'') (rev (takeWhile (\<lambda>c. c \<noteq> CHR 0x0A) s)) of
        [] \<Rightarrow> None
      | _ # pre \<Rightarrow> if pre = [] then None else Some (rev pre))"

fun get_key_from_xpath :: "string \<Rightarrow> string option" where
  "get_key_from_xpath s =
     (case (if startswith s ''[name='' then greedy_to_bracket (drop 6 s) else None) of
        Some key \<Rightarrow> Some key
      | None \<Rightarrow> (case s of [] \<Rightarrow> None | _ # t \<Rightarrow> get_key_from_xpath t))"

declare get_key_from_xpath.simps [simp del]

fun get_elem_from_xpath :: "string \<Rightarrow> string option" where
  "get_elem_from_xpath s =
     (let e = takeWhile (\<lambda>c. c \<noteq> CHR 0x0A) (drop 2 s)
      in if startswith s '']/'' \<and> e \<noteq> [] then Some e
         else (case s of [] \<Rightarrow> None | _ # t \<Rightarrow> get_elem_from_xpath t))"

declare get_elem_from_xpath.simps [simp del]

type_synonym elem_map = "(string option \<times> string) list"

definition key_elem_step ::
  "(string option \<times> elem_map) list \<Rightarrow> string \<times> string \<Rightarrow> (string option \<times> elem_map) list" where
  "key_elem_step map_db pv =
     (let key = get_key_from_xpath (fst pv);
          elem = get_elem_from_xpath (fst pv);
          elem_map = (case map_of map_db key of Some m \<Rightarrow> m | None \<Rightarrow> []);
          v = (if elem = Some ''type'' then NS_IANA @ snd pv else snd pv)
      in AList.update key (AList.update elem v elem_map) map_db)"

definition demo_db_to_key_elem_map :: "dict \<Rightarrow> (string option \<times> elem_map) list" where
  "demo_db_to_key_elem_map db = foldl key_elem_step [] db"

definition if_path :: "string \<Rightarrow> string" where
  "if_path if_name = ''/interfaces/interface[name='' @ if_name @ '']''"

definition state_if_path :: "string \<Rightarrow> string" where
  "state_if_path if_name = ''/interfaces-state/interface[name='' @ if_name @ '']''"

definition fill_step :: "demo_adapter \<Rightarrow> string \<Rightarrow> demo_adapter" where
  "fill_step a if_id =
     (let if_name = ''if_'' @ if_id;
          state_if_name = ''state_if_'' @ if_id;
          path = if_path if_name;
          state_path = state_if_path state_if_name
      in a\<lparr>da_db := AList.update (path @ ''/type'') ''gigabitEthernet''
                     (AList.update (path @ ''/name'') if_name (da_db a)),
           da_state_db := AList.update (state_path @ ''/type'') ''gigabitEthernet''
                     (AList.update (state_path @ ''/name'') state_if_name (da_state_db a))\<rparr>)"

definition fill_demo_db :: "nat \<Rightarrow> demo_adapter \<Rightarrow> demo_adapter" where
  "fill_demo_db num_of_ifs a =
     foldl fill_step a (sort (map (\<lambda>i. nat_str (i + 1)) [0..<num_of_ifs]))"

abbreviation num_of_ifs :: nat where "num_of_ifs \<equiv> 10"

text \<open>The singleton: the first call fills the database, later calls return the instance.\<close>

definition get_adapter :: "bool \<Rightarrow> demo_adapter \<Rightarrow> demo_adapter" where
  "get_adapter has_instance a = (if \<not> has_instance then fill_demo_db num_of_ifs a else a)"

section \<open>Configuration of the simulated changes\<close>

text \<open>
  An element below \<open>changes\<close> of the XML configuration, after parsing: the texts of its children
  and its own text (\<^const>\<open>None\<close> where ElementTree has \<open>None\<close>).
\<close>

record cfg_elem =
  ce_children :: "string option list"
  ce_text :: "string option"

fun load_changes :: "cfg_elem list \<Rightarrow> change list result" where
  "load_changes [] = Inr []"
| "load_changes (el # els) =
     (case ce_children el of
        [] \<Rightarrow> rbind (load_changes els) (\<lambda>cs.
               Inr ((case ce_text el of Some t \<Rightarrow> ChStr t | None \<Rightarrow> ChNone) # cs))
      | [Some p, Some v] \<Rightarrow> rbind (load_changes els) (\<lambda>cs.
               Inr (ChPath (nsless_xpath p) (py_replace NS_IANA [] v) # cs))
      | [_, _] \<Rightarrow> Inl AttributeError
      | _ \<Rightarrow> load_changes els)"

definition load_config_string :: "string \<Rightarrow> cfg_elem list \<Rightarrow> demo_adapter \<Rightarrow> demo_adapter result" where
  "load_config_string root_tag els a =
     (if root_tag \<noteq> ''demo'' then Inl AssertionError
      else if els = [] then Inr a
      else rbind (load_changes els) (\<lambda>cs.
        Inr (case da_changes a of
               None \<Rightarrow> a\<lparr>da_changes := Some cs, da_changes_idx := 0\<rparr>
             | Some old \<Rightarrow> a\<lparr>da_changes := Some (old @ cs)\<rparr>)))"

section \<open>Reading\<close>

definition elem_map_json :: "elem_map \<Rightarrow> json" where
  "elem_map_json m =
     JObj (map (\<lambda>(k, v). (case k of Some e \<Rightarrow> e | None \<Rightarrow> ''null'', JStr v)) m)"

text \<open>The loop over the matching paths, one entry per interface.\<close>

fun path_vals ::
  "(string option \<times> elem_map) list \<Rightarrow> string option \<Rightarrow> string option list \<Rightarrow> string list \<Rightarrow>
     (string \<times> json) list result" where
  "path_vals map_db path_elem keys_done [] = Inr []"
| "path_vals map_db path_elem keys_done (p # ps) =
     (let key = get_key_from_xpath p
      in if key \<in> set keys_done then path_vals map_db path_elem keys_done ps
         else rbind (dict_get map_db key) (\<lambda>elem_val.
              rbind (case path_elem of
                       Some e \<Rightarrow> rbind (dict_get elem_val (Some e)) (\<lambda>v. Inr (p, JStr v))
                     | None \<Rightarrow> Inr (py_replace ''/name'' [] (py_replace ''/type'' [] p),
                                    elem_map_json elem_val)) (\<lambda>pv.
              rbind (path_vals map_db path_elem (key # keys_done) ps) (\<lambda>pvs. Inr (pv # pvs)))))"

definition get_db_updates_for_path ::
  "gnmi_path \<Rightarrow> gnmi_path \<Rightarrow> dict \<Rightarrow> gnmi_update list result" where
  "get_db_updates_for_path path pfx db =
     (let path_with_prefix = make_xpath_path (Some path) (Some pfx) False;
          prefix_str = make_xpath_path None (Some pfx) False;
          map_db = demo_db_to_key_elem_map db;
          ifaces = nsless_xpath path_with_prefix
      in rbind
          (if ifaces = ''/interfaces'' \<or> ifaces = ''/interfaces-state'' then
             (case dict_keys db of
                [] \<Rightarrow> Inl IndexError
              | k0 # _ \<Rightarrow>
                  if startswith k0 ifaces then
                    Inr [(path_with_prefix,
                          JObj [(''interface'', JList (map (elem_map_json \<circ> snd) map_db))])]
                  else Inr [])
           else path_vals map_db (get_elem_from_xpath path_with_prefix) []
                  (filter (\<lambda>p. startswith (nsless_xpath p) (nsless_xpath path_with_prefix))
                     (dict_keys db)))
          (\<lambda>path_val_list.
             map_result (\<lambda>(p, v).
               rbind (make_gnmi_path (drop (length (nsless_xpath prefix_str)) p) [] []) (\<lambda>gp.
                 Inr \<lparr>u_path = gp, u_val = JsonIetfVal (json_dumps v)\<rparr>)) path_val_list))"

definition get_updates :: "demo_adapter \<Rightarrow> gnmi_path \<Rightarrow> gnmi_path \<Rightarrow> int \<Rightarrow> gnmi_update list result" where
  "get_updates a path pfx data_type =
     rbind (if data_type = DT_CONFIG \<or> data_type = DT_ALL
            then get_db_updates_for_path path pfx (da_db a) else Inr []) (\<lambda>updates.
     if data_type \<noteq> DT_CONFIG
     then get_db_updates_for_path path pfx (da_state_db a)
     else Inr updates)"

definition demo_get ::
  "demo_adapter \<Rightarrow> gnmi_path \<Rightarrow> gnmi_path list \<Rightarrow> int \<Rightarrow> notification list result" where
  "demo_get a pfx paths data_type =
     rbind (map_result (\<lambda>path. get_updates a path pfx data_type) paths) (\<lambda>updates.
       Inr [\<lparr>n_timestamp = 1, n_prefix = pfx, n_update = concat updates,
             n_delete = [], n_atomic = True\<rparr>])"

definition capability_list :: "(string \<times> string \<times> string) list" where
  "capability_list =
     [(''http://tail-f.com/ns/aaa/1.1:tailf-aaa'', [], ''2018-09-12''),
      (''urn:ietf:params:xml:ns:yang:ietf-inet-types:ietf-inet-types'', [], ''2013-07-15''),
      (''urn:ietf:params:xml:ns:yang:ietf-interfaces:ietf-interfaces'', [], ''2014-05-08'')]"

definition demo_capabilities :: "capability_model list" where
  "demo_capabilities =
     map (\<lambda>(n, org, ver). \<lparr>cm_name = n, cm_organization = org, cm_version = ver, cm_schema = []\<rparr>)
       capability_list"

definition demo_encodings :: "int list" where
  "demo_encodings = [JSON, JSON_IETF]"

section \<open>Writing\<close>

text \<open>
  \<open>"{}".format(val)\<close> of a message is the text format of the protobuf library, the parameter
  \<open>format_val\<close>. A decoded JSON value other than a string has no method \<open>replace\<close>.
\<close>

definition set_val_str :: "(typed_value \<Rightarrow> string) \<Rightarrow> typed_value \<Rightarrow> string result" where
  "set_val_str format_val val =
     (let load = (\<lambda>t. rbind (json_loads t) (\<lambda>j.
            case j of JStr s \<Rightarrow> Inr s | _ \<Rightarrow> Inl AttributeError))
      in case val of
           StringVal s \<Rightarrow> if s \<noteq> [] then Inr s else Inr (format_val val)
         | JsonIetfVal t \<Rightarrow> if json_nonempty t then load t else Inr (format_val val)
         | JsonVal t \<Rightarrow> if json_nonempty t then load t else Inr (format_val val)
         | _ \<Rightarrow> Inr (format_val val))"

definition set_update ::
  "(typed_value \<Rightarrow> string) \<Rightarrow> demo_adapter \<Rightarrow> gnmi_path \<Rightarrow> gnmi_path \<Rightarrow> typed_value \<Rightarrow>
     (demo_adapter \<times> update_op) result" where
  "set_update format_val a pfx path val =
     (let path_str = make_xpath_path (Some path) (Some pfx) False
      in if nsless_xpath path_str \<in> set (dict_keys (da_db a)) then
           rbind (set_val_str format_val val) (\<lambda>str_val.
             Inr (a\<lparr>da_db := AList.update path_str (py_replace NS_IANA [] str_val) (da_db a)\<rparr>,
                  UPDATE))
         else Inr (a, INVALID))"

text \<open>The updates are applied one by one: an exception leaves the earlier ones in the database.\<close>

fun demo_set ::
  "(typed_value \<Rightarrow> string) \<Rightarrow> demo_adapter \<Rightarrow> gnmi_path \<Rightarrow> gnmi_update list \<Rightarrow>
     demo_adapter \<times> (gnmi_path \<times> update_op) list result" where
  "demo_set format_val a pfx [] = (a, Inr [])"
| "demo_set format_val a pfx (up # ups) =
     (case set_update format_val a pfx (u_path up) (u_val up) of
        Inl e \<Rightarrow> (a, Inl e)
      | Inr (a1, op) \<Rightarrow>
          (let (a2, r) = demo_set format_val a1 pfx ups
           in (a2, rbind r (\<lambda>ops. Inr ((u_path up, op) # ops)))))"

definition demo_delete ::
  "demo_adapter \<Rightarrow> gnmi_path \<Rightarrow> gnmi_path list \<Rightarrow>
     demo_adapter \<times> (gnmi_path \<times> update_op) list result" where
  "demo_delete a pfx paths = (a, Inr [])"


section \<open>Searching in interface paths\<close>

lemma get_key_skip:
  "CHR ''['' \<notin> set pre \<Longrightarrow> get_key_from_xpath (pre @ s) = get_key_from_xpath s"
  by (induction pre) (auto simp: get_key_from_xpath.simps [of "_ # _"])

lemma greedy_to_bracket_block:
  assumes "n \<noteq> []" and "CHR 0x0A \<notin> set n" and "CHR 0x0A \<notin> set t" and "CHR '']'' \<notin> set t"
  shows "greedy_to_bracket (n @ CHR '']'' # t) = Some n"
proof -
  have line: "takeWhile (\<lambda>c. c \<noteq> CHR 0x0A) (n @ CHR '']'' # t) = n @ CHR '']'' # t"
    using assms(2,3) by (intro takeWhile_absent) simp
  have "dropWhile (\<lambda>c. c \<noteq> CHR '']'') (rev t @ CHR '']'' # rev n) = CHR '']'' # rev n"
    using assms(4) by (subst dropWhile_append2) auto
  with assms(1) show ?thesis
    by (simp only: greedy_to_bracket_def line) simp
qed

lemma get_elem_skip:
  "CHR '']'' \<notin> set pre \<Longrightarrow> get_elem_from_xpath (pre @ s) = get_elem_from_xpath s"
  by (induction pre) (auto simp: get_elem_from_xpath.simps [of "_ # _"])

lemma get_elem_hit:
  "e \<noteq> [] \<Longrightarrow> CHR 0x0A \<notin> set e \<Longrightarrow> get_elem_from_xpath (CHR '']'' # CHR ''/'' # e) = Some e"
  by (simp add: get_elem_from_xpath.simps [of "_ # _"])

lemma get_elem_bracket: "get_elem_from_xpath '']'' = None"
  by (simp add: get_elem_from_xpath.simps [of "[_]"] get_elem_from_xpath.simps [of "[]"])

lemma get_elem_last: "CHR '']'' \<notin> set pre \<Longrightarrow> get_elem_from_xpath (pre @ '']'') = None"
  by (simp add: get_elem_skip get_elem_bracket)

lemma get_elem_absent: "CHR '']'' \<notin> set s \<Longrightarrow> get_elem_from_xpath s = None"
  using get_elem_skip [of s "[]"] by (simp add: get_elem_from_xpath.simps)

text \<open>Removing the module prefix: without a colon nothing changes, and the prefix goes at the front.\<close>

lemma nsless_id: "CHR '':'' \<notin> set s \<Longrightarrow> nsless_xpath s = s"
  unfolding nsless_xpath_def
  by (rule py_replace_char_absent [of "CHR '':''"]) (simp_all add: NS_INTERFACES_def)

lemma strip_iana:
  "CHR '':'' \<notin> set x \<Longrightarrow> py_replace NS_IANA [] (NS_IANA @ x) = x"
  using py_replace_match [of NS_IANA "[]" x] py_replace_char_absent [of "CHR '':''" NS_IANA x "[]"]
  by (simp add: NS_IANA_def)

lemma nsless_slash:
  assumes "CHR '':'' \<notin> set s"
  shows "nsless_xpath (CHR ''/'' # NS_INTERFACES @ s) = CHR ''/'' # s"
proof -
  have ne: "NS_INTERFACES \<noteq> []" by (simp add: NS_INTERFACES_def)
  have "nsless_xpath (CHR ''/'' # NS_INTERFACES @ s) = CHR ''/'' # nsless_xpath (NS_INTERFACES @ s)"
    unfolding nsless_xpath_def by (rule py_replace_Cons [OF ne]) (simp add: NS_INTERFACES_def)
  also have "nsless_xpath (NS_INTERFACES @ s) = nsless_xpath s"
    using py_replace_match [OF ne, of "[]" s] by (simp add: nsless_xpath_def)
  finally show ?thesis using assms by (simp add: nsless_id)
qed

lemma py_replace_skip:
  "c \<notin> set pre \<Longrightarrow> py_replace (c # old) new (pre @ s) = pre @ py_replace (c # old) new s"
  by (induction pre) (auto simp: py_replace_Cons)

section \<open>Well-formed databases\<close>

text \<open>
  The shape that \<open>_fill_demo_db\<close> builds below a root such as \<open>/interfaces\<close>: per interface its key,
  and the values of its two leaves.
\<close>

type_synonym iface = "string \<times> string \<times> string"

definition iface_path :: "string \<Rightarrow> string \<Rightarrow> string" where
  "iface_path root n = root @ ''/interface[name='' @ n @ '']''"

definition db_of :: "string \<Rightarrow> iface list \<Rightarrow> dict" where
  "db_of root ifs = concat (map (\<lambda>(n, nv, t).
     [(iface_path root n @ ''/name'', nv), (iface_path root n @ ''/type'', t)]) ifs)"

definition wf_ifname :: "string \<Rightarrow> bool" where
  "wf_ifname n \<longleftrightarrow> n \<noteq> [] \<and> plain n \<and> CHR 0x0A \<notin> set n \<and> CHR '':'' \<notin> set n"

definition wf_root :: "string \<Rightarrow> bool" where
  "wf_root root \<longleftrightarrow> root = ''/interfaces'' \<or> root = ''/interfaces-state''"

definition wf_ifs :: "iface list \<Rightarrow> bool" where
  "wf_ifs ifs \<longleftrightarrow> distinct (map fst ifs) \<and> (\<forall>i \<in> set ifs. wf_ifname (fst i))"

definition key_elem_of :: "iface \<Rightarrow> string option \<times> elem_map" where
  "key_elem_of = (\<lambda>(n, nv, t). (Some n, [(Some ''name'', nv), (Some ''type'', NS_IANA @ t)]))"

lemma db_of_simps [simp]:
  "db_of root [] = []"
  "db_of root ((n, nv, t) # ifs) =
     (iface_path root n @ ''/name'', nv) # (iface_path root n @ ''/type'', t) # db_of root ifs"
  by (simp_all add: db_of_def)

lemma iface_path_key:
  assumes "wf_root root" and "wf_ifname n" and "CHR 0x0A \<notin> set t" and "CHR '']'' \<notin> set t"
  shows "get_key_from_xpath (iface_path root n @ t) = Some n"
proof -
  have "get_key_from_xpath (iface_path root n @ t) =
      get_key_from_xpath ((root @ ''/interface'') @ ''[name='' @ n @ CHR '']'' # t)"
    by (simp add: iface_path_def)
  also have "\<dots> = get_key_from_xpath (''[name='' @ n @ CHR '']'' # t)"
    by (rule get_key_skip) (use assms(1) in \<open>auto simp: wf_root_def\<close>)
  also have "\<dots> = Some n"
    using greedy_to_bracket_block [of n t] assms
    by (simp add: get_key_from_xpath.simps [of "_ # _"] wf_ifname_def)
  finally show ?thesis .
qed

lemma iface_path_elem:
  assumes "wf_root root" and "wf_ifname n" and "e \<noteq> []" and "CHR 0x0A \<notin> set e"
  shows "get_elem_from_xpath (iface_path root n @ CHR ''/'' # e) = Some e"
proof -
  have "get_elem_from_xpath (iface_path root n @ CHR ''/'' # e) =
      get_elem_from_xpath ((root @ ''/interface[name='' @ n) @ CHR '']'' # CHR ''/'' # e)"
    by (simp add: iface_path_def)
  also have "\<dots> = get_elem_from_xpath (CHR '']'' # CHR ''/'' # e)"
    by (rule get_elem_skip) (use assms in \<open>auto simp: wf_root_def wf_ifname_def plain_def\<close>)
  finally show ?thesis using assms by (simp add: get_elem_hit)
qed

lemma iface_path_no_elem:
  assumes "wf_root root" and "wf_ifname n"
  shows "get_elem_from_xpath (iface_path root n) = None"
  using get_elem_last [of "root @ ''/interface[name='' @ n"] assms
  by (auto simp: iface_path_def wf_root_def wf_ifname_def plain_def)

lemma key_elem_foldl:
  assumes "wf_root root" and "wf_ifs ifs" and "Some ` fst ` set ifs \<inter> fst ` set acc = {}"
  shows "foldl key_elem_step acc (db_of root ifs) = acc @ map key_elem_of ifs"
  using assms(2,3)
proof (induction ifs arbitrary: acc)
  case (Cons i ifs)
  obtain n nv t where i: "i = (n, nv, t)" by (cases i)
  have n: "wf_ifname n" and fresh: "Some n \<notin> fst ` set acc"
    using Cons.prems i by (auto simp: wf_ifs_def)
  then have none: "map_of acc (Some n) = None"
    by (simp add: map_of_eq_None_iff)
  have key: "get_key_from_xpath (iface_path root n @ ''/name'') = Some n"
      "get_key_from_xpath (iface_path root n @ ''/type'') = Some n"
    using assms(1) n by (simp_all add: iface_path_key)
  have elem: "get_elem_from_xpath (iface_path root n @ ''/name'') = Some ''name''"
      "get_elem_from_xpath (iface_path root n @ ''/type'') = Some ''type''"
    using assms(1) n by (simp_all add: iface_path_elem)
  have one: "key_elem_step acc (iface_path root n @ ''/name'', nv) =
      acc @ [(Some n, [(Some ''name'', nv)])]"
    by (simp add: key_elem_step_def key elem none update_fresh fresh)
  have "AList.update (Some n) m (acc @ [(Some n, m')]) = acc @ [(Some n, m)]" for m m'
    using fresh by (induction acc) auto
  then have two: "key_elem_step (acc @ [(Some n, [(Some ''name'', nv)])])
      (iface_path root n @ ''/type'', t) = acc @ [key_elem_of i]"
    by (simp add: key_elem_step_def key elem none i key_elem_of_def map_add_def)
  have "foldl key_elem_step (acc @ [key_elem_of i]) (db_of root ifs) =
      (acc @ [key_elem_of i]) @ map key_elem_of ifs"
    by (rule Cons.IH) (use Cons.prems i in \<open>auto simp: wf_ifs_def key_elem_of_def\<close>)
  with one two i show ?case by simp
qed simp

lemma key_elem_map_db_of:
  "wf_root root \<Longrightarrow> wf_ifs ifs \<Longrightarrow>
     demo_db_to_key_elem_map (db_of root ifs) = map key_elem_of ifs"
  by (simp add: demo_db_to_key_elem_map_def key_elem_foldl)


section \<open>Matching paths\<close>

lemma startswith_append_same [simp]: "startswith (p @ s) (p @ t) \<longleftrightarrow> startswith s t"
  by (induction p) simp_all

lemma startswith_block:
  "c \<notin> set m \<Longrightarrow> c \<notin> set n \<Longrightarrow>
     startswith (m @ c # s) (n @ c # t) \<longleftrightarrow> m = n \<and> startswith s t"
proof (induction m arbitrary: n)
  case Nil
  then show ?case by (cases n) auto
next
  case (Cons x m)
  then show ?case by (cases n) auto
qed

lemma startswith_iface:
  assumes "wf_ifname m" and "wf_ifname n"
  shows "startswith (iface_path root m @ s) (iface_path root n @ t) \<longleftrightarrow> m = n \<and> startswith s t"
proof -
  have "startswith (iface_path root m @ s) (iface_path root n @ t) \<longleftrightarrow>
      startswith ((root @ ''/interface[name='') @ m @ CHR '']'' # s)
                 ((root @ ''/interface[name='') @ n @ CHR '']'' # t)"
    by (simp add: iface_path_def)
  also have "\<dots> \<longleftrightarrow> startswith (m @ CHR '']'' # s) (n @ CHR '']'' # t)"
    by (rule startswith_append_same)
  also have "\<dots> \<longleftrightarrow> m = n \<and> startswith s t"
    by (rule startswith_block) (use assms in \<open>auto simp: wf_ifname_def plain_def\<close>)
  finally show ?thesis .
qed

lemma dict_keys_db_of:
  "dict_keys (db_of root ifs) =
     concat (map (\<lambda>i. [iface_path root (fst i) @ ''/name'', iface_path root (fst i) @ ''/type'']) ifs)"
  by (induction ifs) (auto simp: dict_keys_def)

lemma nsless_db_key:
  "wf_root root \<Longrightarrow> wf_ifname n \<Longrightarrow> CHR '':'' \<notin> set t \<Longrightarrow>
     nsless_xpath (iface_path root n @ t) = iface_path root n @ t"
  by (rule nsless_id) (auto simp: iface_path_def wf_root_def wf_ifname_def)

definition matching :: "string \<Rightarrow> string list \<Rightarrow> string list" where
  "matching q ks = filter (\<lambda>p. startswith (nsless_xpath p) q) ks"

lemma matching_keys:
  assumes "wf_root root" and "wf_ifs ifs"
  shows "matching q (dict_keys (db_of root ifs)) = filter (\<lambda>p. startswith p q) (dict_keys (db_of root ifs))"
  unfolding matching_def
proof (rule filter_cong [OF refl])
  fix p assume "p \<in> set (dict_keys (db_of root ifs))"
  then obtain i t where "i \<in> set ifs" "p = iface_path root (fst i) @ t" "CHR '':'' \<notin> set t"
    by (auto simp: dict_keys_db_of)
  with assms show "startswith (nsless_xpath p) q = startswith p q"
    by (simp add: nsless_db_key wf_ifs_def)
qed

text \<open>The keys below one interface: its own two leaves, or the one that is asked for.\<close>

lemma filter_iface:
  assumes "wf_ifs ifs" and "i \<in> set ifs"
  shows "filter (\<lambda>p. startswith p (iface_path root (fst i) @ t)) (dict_keys (db_of root ifs)) =
     filter (\<lambda>p. startswith p (iface_path root (fst i) @ t))
       [iface_path root (fst i) @ ''/name'', iface_path root (fst i) @ ''/type'']"
  using assms
proof (induction ifs)
  case (Cons j ifs)
  have wf: "wf_ifname (fst j)" "wf_ifname (fst i)" "wf_ifs ifs"
    using Cons.prems by (auto simp: wf_ifs_def)
  show ?case
  proof (cases "j = i")
    case True
    then have other: "k \<in> set ifs \<Longrightarrow> wf_ifname (fst k) \<and> fst k \<noteq> fst i" for k
      using Cons.prems by (auto simp: wf_ifs_def image_iff)
    have "filter (\<lambda>p. startswith p (iface_path root (fst i) @ t)) (dict_keys (db_of root ifs)) = []"
      using other wf(2) by (auto simp: dict_keys_db_of filter_empty_conv startswith_iface)
    with True show ?thesis by (simp add: dict_keys_db_of)
  next
    case False
    then have "i \<in> set ifs" "fst j \<noteq> fst i" using Cons.prems by (auto simp: wf_ifs_def)
    with Cons.IH wf show ?thesis by (simp add: dict_keys_db_of startswith_iface)
  qed
qed simp

lemma filter_iface_leaf:
  assumes "wf_ifs ifs" and "i \<in> set ifs" and "leaf = ''name'' \<or> leaf = ''type''"
  shows "filter (\<lambda>p. startswith p (iface_path root (fst i) @ CHR ''/'' # leaf))
     (dict_keys (db_of root ifs)) = [iface_path root (fst i) @ CHR ''/'' # leaf]"
  using assms by (subst filter_iface) auto

lemma filter_iface_both:
  assumes "wf_ifs ifs" and "i \<in> set ifs"
  shows "filter (\<lambda>p. startswith p (iface_path root (fst i))) (dict_keys (db_of root ifs)) =
     [iface_path root (fst i) @ ''/name'', iface_path root (fst i) @ ''/type'']"
  using filter_iface [OF assms, of root "[]"] by simp

lemma filter_all:
  "filter (\<lambda>p. startswith p (root @ ''/interface'')) (dict_keys (db_of root ifs)) =
     dict_keys (db_of root ifs)"
proof (rule filter_True, rule ballI)
  fix p assume "p \<in> set (dict_keys (db_of root ifs))"
  then obtain n t where "p = (root @ ''/interface'') @ ''[name='' @ n @ '']'' @ t"
    by (auto simp: dict_keys_db_of iface_path_def)
  then show "startswith p (root @ ''/interface'')" by (simp only: startswith_append)
qed

lemma strip_leaf:
  assumes "wf_root root" and "wf_ifname n"
  shows "py_replace ''/name'' [] (py_replace ''/type'' [] (iface_path root n @ ''/name'')) =
     iface_path root n"
proof -
  have n: "CHR ''/'' \<notin> set (n @ '']'')" using assms(2) by (simp add: wf_ifname_def plain_def)
  have tail: "py_replace ''/type'' [] (n @ '']/name'') = n @ '']/name''"
      "py_replace ''/name'' [] (n @ '']/name'') = n @ '']''"
    using py_replace_skip [OF n, of "''type''" "[]" "''/name''"]
      py_replace_skip [OF n, of "''name''" "[]" "''/name''"]
      py_replace_match [of "''/name''" "[]" "[]"]
    by (simp_all add: py_replace_Cons)
  from assms(1) consider "root = ''/interfaces''" | "root = ''/interfaces-state''"
    by (auto simp: wf_root_def)
  then show ?thesis
    by cases (simp_all add: iface_path_def py_replace_Cons tail)
qed

lemma map_of_key_elem:
  "wf_ifs ifs \<Longrightarrow> i \<in> set ifs \<Longrightarrow> dict_get (map key_elem_of ifs) (Some (fst i)) = Inr (snd (key_elem_of i))"
proof -
  assume wf: "wf_ifs ifs" and i: "i \<in> set ifs"
  have "map fst (map key_elem_of ifs) = map Some (map fst ifs)"
    by (auto simp: key_elem_of_def split: prod.splits)
  then have "distinct (map fst (map key_elem_of ifs))"
    using wf by (simp add: wf_ifs_def distinct_map inj_on_def)
  moreover have "key_elem_of i = (Some (fst i), snd (key_elem_of i))"
    by (cases i) (simp add: key_elem_of_def)
  then have "(Some (fst i), snd (key_elem_of i)) \<in> set (map key_elem_of ifs)"
    using i by (metis image_eqI list.set_map)
  ultimately show ?thesis by (simp add: dict_get_def del: map_map)
qed


lemma path_vals_list:
  assumes "wf_root root" and "wf_ifs ifs" and "set js \<subseteq> set ifs" and "distinct (map fst js)"
    and "Some ` fst ` set js \<inter> set done = {}"
  shows "path_vals (map key_elem_of ifs) None done (dict_keys (db_of root js)) =
     Inr (map (\<lambda>i. (iface_path root (fst i), elem_map_json (snd (key_elem_of i)))) js)"
  using assms(3-5)
proof (induction js arbitrary: "done")
  case (Cons i js)
  have wf: "wf_ifname (fst i)" and i: "i \<in> set ifs" using Cons.prems assms(2) by (auto simp: wf_ifs_def)
  have key: "get_key_from_xpath (iface_path root (fst i) @ ''/name'') = Some (fst i)"
      "get_key_from_xpath (iface_path root (fst i) @ ''/type'') = Some (fst i)"
    using assms(1) wf by (simp_all add: iface_path_key)
  have IH: "path_vals (map key_elem_of ifs) None (Some (fst i) # done) (dict_keys (db_of root js)) =
     Inr (map (\<lambda>i. (iface_path root (fst i), elem_map_json (snd (key_elem_of i)))) js)"
    by (rule Cons.IH) (use Cons.prems in auto)
  have keys: "dict_keys (db_of root (i # js)) =
      (iface_path root (fst i) @ ''/name'') # (iface_path root (fst i) @ ''/type'') #
      dict_keys (db_of root js)"
    by (cases i) (simp add: dict_keys_def)
  show ?case
    unfolding keys
    using Cons.prems IH strip_leaf [OF assms(1) wf] map_of_key_elem [OF assms(2) i]
    by (simp add: key)
qed (simp add: dict_keys_def)

section \<open>Requests below a prefix\<close>

text \<open>A prefix with one element that names the root, with or without the module name.\<close>

definition names_root :: "gnmi_path \<Rightarrow> string \<Rightarrow> bool" where
  "names_root pfx root \<longleftrightarrow>
     (\<exists>r. p_elem pfx = [mk_elem r []] \<and> root = CHR ''/'' # r \<and> CHR '':'' \<notin> set r) \<or>
     (\<exists>r. p_elem pfx = [mk_elem (NS_INTERFACES @ r) []] \<and> root = CHR ''/'' # r \<and> CHR '':'' \<notin> set r)"

lemma names_root_prefix:
  assumes "names_root pfx root" and "CHR '':'' \<notin> set s"
  shows "nsless_xpath (make_xpath_path None (Some pfx) False @ s) = root @ s"
proof -
  from assms(1) consider
      (plain) r where "p_elem pfx = [mk_elem r []]" "root = CHR ''/'' # r" "CHR '':'' \<notin> set r"
    | (ns) r where "p_elem pfx = [mk_elem (NS_INTERFACES @ r) []]" "root = CHR ''/'' # r"
        "CHR '':'' \<notin> set r"
    by (auto simp: names_root_def)
  then show ?thesis
  proof cases
    case plain
    with assms(2) show ?thesis
      using nsless_id [of "root @ s"] by (simp add: string_path_defs make_path_def elem_str_def)
  next
    case ns
    with assms(2) show ?thesis
      using nsless_slash [of "r @ s"] by (simp add: string_path_defs make_path_def elem_str_def)
  qed
qed

lemma names_root_length: "names_root pfx root \<Longrightarrow> nsless_xpath (make_xpath_path None (Some pfx) False) = root"
  using names_root_prefix [of pfx root "[]"] by simp

lemma names_root_bracket:
  "names_root pfx root \<Longrightarrow> wf_root root \<Longrightarrow> CHR '']'' \<notin> set (make_xpath_path None (Some pfx) False)"
  by (auto simp: names_root_def wf_root_def string_path_defs make_path_def elem_str_def
      NS_INTERFACES_def)

lemma xpath_below_prefix:
  assumes "p_elem path \<noteq> []" and "names_root pfx root"
  shows "make_xpath_path (Some path) (Some pfx) False =
     make_xpath_path None (Some pfx) False @ concat (map (elem_str False True) (p_elem path))"
  using assms by (auto simp: string_path_defs make_path_nonempty names_root_def)

text \<open>
  The common part of every read below a root: the request is not one of the two roots themselves,
  and the values found are turned into updates with the prefix cut off.
\<close>

definition to_update :: "nat \<Rightarrow> string \<times> json \<Rightarrow> gnmi_update result" where
  "to_update k = (\<lambda>(p, v). rbind (make_gnmi_path (drop k p) [] []) (\<lambda>gp.
     Inr \<lparr>u_path = gp, u_val = JsonIetfVal (json_dumps v)\<rparr>))"

lemma get_below_root:
  assumes "wf_root root" and "names_root pfx root" and "p_elem path \<noteq> []"
    and "s = concat (map (elem_str False True) (p_elem path))"
    and "CHR '':'' \<notin> set s" and "startswith s ''/interface''"
  shows "get_db_updates_for_path path pfx db =
     rbind (path_vals (demo_db_to_key_elem_map db)
              (get_elem_from_xpath (make_xpath_path None (Some pfx) False @ s)) []
              (matching (root @ s) (dict_keys db)))
       (map_result (to_update (length root)))"
proof -
  let ?pp = "make_xpath_path (Some path) (Some pfx) False"
  have pp: "?pp = make_xpath_path None (Some pfx) False @ s"
    using xpath_below_prefix assms(2-4) by simp
  then have ns: "nsless_xpath ?pp = root @ s"
    using names_root_prefix assms(2,5) by simp
  obtain t where "s = ''/interface'' @ t" using startswith_exD [OF assms(6)] by blast
  then have "root @ s \<noteq> ''/interfaces'' \<and> root @ s \<noteq> ''/interfaces-state''"
    using assms(1) by (auto simp: wf_root_def)
  then show ?thesis
    unfolding get_db_updates_for_path_def Let_def ns to_update_def
      names_root_length [OF assms(2)] matching_def
    by (simp add: pp)
qed

lemma to_update_printed:
  assumes "\<forall>e \<in> set es. wf_elem e" and "es \<noteq> []"
  shows "to_update (length root) (root @ concat (map (elem_str False True) es), v) =
     Inr \<lparr>u_path = \<lparr>p_elem = es, p_origin = [], p_target = []\<rparr>,
          u_val = JsonIetfVal (json_dumps v)\<rparr>"
  using make_gnmi_path_printed [OF assms] by (simp add: to_update_def)

abbreviation if_elem :: "string \<Rightarrow> path_elem" where
  "if_elem n \<equiv> mk_elem ''interface'' [(''name'', n)]"

lemma if_elem_str: "elem_str False True (if_elem n) = ''/interface[name='' @ n @ '']''"
  by (simp add: elem_str_def key_str_def)

lemma wf_if_elem: "wf_ifname n \<Longrightarrow> wf_elem (if_elem n)"
  by (simp add: wf_elem_def wf_ifname_def plain_def)

definition leaf_val :: "string \<Rightarrow> iface \<Rightarrow> string" where
  "leaf_val leaf = (\<lambda>(n, nv, t). if leaf = ''type'' then NS_IANA @ t else nv)"

lemma path_vals_leaf:
  assumes "wf_root root" and "wf_ifs ifs" and "i \<in> set ifs" and "leaf = ''name'' \<or> leaf = ''type''"
  shows "path_vals (map key_elem_of ifs) (Some leaf) [] [iface_path root (fst i) @ CHR ''/'' # leaf] =
     Inr [(iface_path root (fst i) @ CHR ''/'' # leaf, JStr (leaf_val leaf i))]"
proof -
  have wf: "wf_ifname (fst i)" using assms(2,3) by (auto simp: wf_ifs_def)
  have "dict_get (snd (key_elem_of i)) (Some leaf) = Inr (leaf_val leaf i)"
    using assms(4) by (cases i) (auto simp: key_elem_of_def leaf_val_def dict_get_def)
  moreover have "get_key_from_xpath (iface_path root (fst i) @ CHR ''/'' # leaf) = Some (fst i)"
    by (rule iface_path_key [OF assms(1) wf]) (use assms(4) in auto)
  ultimately show ?thesis
    using map_of_key_elem [OF assms(2,3)] by simp
qed

text \<open>A request for one leaf of one interface, for any database.\<close>

lemma leaf_request:
  assumes "wf_root root" and "wf_ifname n" and "names_root pfx root"
    and "leaf = ''name'' \<or> leaf = ''type''" and "p_elem path = [if_elem n, mk_elem leaf []]"
  shows "get_db_updates_for_path path pfx db =
     rbind (path_vals (demo_db_to_key_elem_map db) (Some leaf) []
              (matching (iface_path root n @ CHR ''/'' # leaf) (dict_keys db)))
       (map_result (to_update (length root)))"
proof -
  let ?s = "''/interface[name='' @ n @ '']/'' @ leaf"
  have s: "?s = concat (map (elem_str False True) (p_elem path))"
    by (simp add: assms(5) elem_str_def key_str_def)
  have rs: "root @ ?s = iface_path root n @ CHR ''/'' # leaf" by (simp add: iface_path_def)
  have "CHR '']'' \<notin> set (make_xpath_path None (Some pfx) False @ ''/interface[name='' @ n)"
    using names_root_bracket [OF assms(3,1)] assms(2) by (simp add: wf_ifname_def plain_def)
  from get_elem_skip [OF this, of "CHR '']'' # CHR ''/'' # leaf"]
  have elem: "get_elem_from_xpath (make_xpath_path None (Some pfx) False @ ?s) = Some leaf"
    using assms(4) get_elem_hit [of leaf] by auto
  have "CHR '':'' \<notin> set ?s" and "startswith ?s ''/interface''"
    using assms(2,4) by (auto simp: wf_ifname_def)
  from get_below_root [OF assms(1,3) _ s this, of db] assms(5) show ?thesis
    by (simp only: elem rs) simp
qed

lemma leaf_update:
  assumes "wf_ifname n" and "leaf = ''name'' \<or> leaf = ''type''"
  shows "to_update (length root) (iface_path root n @ CHR ''/'' # leaf, v) =
     Inr \<lparr>u_path = \<lparr>p_elem = [if_elem n, mk_elem leaf []], p_origin = [], p_target = []\<rparr>,
          u_val = JsonIetfVal (JsonDoc v)\<rparr>"
proof -
  have "iface_path root n @ CHR ''/'' # leaf =
      root @ concat (map (elem_str False True) [if_elem n, mk_elem leaf []])"
    by (simp add: iface_path_def elem_str_def key_str_def)
  moreover have "\<forall>e \<in> set [if_elem n, mk_elem leaf []]. wf_elem e"
    using wf_if_elem [OF assms(1)] assms(2) by (auto simp: wf_elem_def)
  ultimately show ?thesis
    using to_update_printed [of "[if_elem n, mk_elem leaf []]" root v]
    by (simp only: json_dumps_def) simp
qed

section \<open>Properties of reads\<close>

text \<open>The path string of a request for the type of an interface.\<close>

definition type_path :: "string \<Rightarrow> gnmi_path" where
  "type_path n = \<lparr>p_elem = [if_elem n, mk_elem ''type'' []], p_origin = [], p_target = []\<rparr>"

definition root_prefix :: "string \<Rightarrow> gnmi_path" where
  "root_prefix r = \<lparr>p_elem = [mk_elem r []], p_origin = [], p_target = []\<rparr>"

definition type_update :: "string \<Rightarrow> string \<Rightarrow> gnmi_update" where
  "type_update n v = \<lparr>u_path = type_path n, u_val = JsonIetfVal (JsonDoc (JStr (NS_IANA @ v)))\<rparr>"

lemma names_root_plain: "CHR '':'' \<notin> set r \<Longrightarrow> names_root (root_prefix r) (CHR ''/'' # r)"
  by (simp add: names_root_def root_prefix_def)

lemma names_root_ns: "CHR '':'' \<notin> set r \<Longrightarrow> names_root (root_prefix (NS_INTERFACES @ r)) (CHR ''/'' # r)"
  by (simp add: names_root_def root_prefix_def)

text \<open>A small database for the examples: one interface.\<close>

definition one_if :: "iface list" where
  "one_if = [(''if_1'', ''if_1'', ''gigabitEthernet'')]"

definition adapter_of :: "iface list \<Rightarrow> demo_adapter" where
  "adapter_of ifs = \<lparr>da_db = db_of ''/interfaces'' ifs, da_state_db = [], da_changes = None,
     da_changes_idx = 0, da_rnd = \<lambda>_. 0, da_rnd_idx = 0\<rparr>"

lemma wf_one_if: "wf_ifs one_if"
  by (simp add: one_if_def wf_ifs_def wf_ifname_def plain_def)

lemma one_if_mem: "(''if_1'', ''if_1'', ''gigabitEthernet'') \<in> set one_if"
  by (simp add: one_if_def)

lemma adapter_of_db: "da_db (adapter_of ifs) = db_of ''/interfaces'' ifs"
  by (simp add: adapter_of_def)

lemma get_leaf:
  assumes "wf_root root" and "wf_ifs ifs" and "(n, nv, t) \<in> set ifs" and "names_root pfx root"
    and "leaf = ''name'' \<or> leaf = ''type''"
    and "p_elem path = [if_elem n, mk_elem leaf []]"
  shows "get_db_updates_for_path path pfx (db_of root ifs) =
     Inr [\<lparr>u_path = \<lparr>p_elem = p_elem path, p_origin = [], p_target = []\<rparr>,
           u_val = JsonIetfVal (JsonDoc (JStr (if leaf = ''type'' then NS_IANA @ t else nv)))\<rparr>]"
proof -
  have wf: "wf_ifname n" using assms(2,3) by (auto simp: wf_ifs_def)
  have "matching (iface_path root n @ CHR ''/'' # leaf) (dict_keys (db_of root ifs)) =
      [iface_path root n @ CHR ''/'' # leaf]"
    using filter_iface_leaf [OF assms(2,3,5), of root] matching_keys [OF assms(1,2)] by simp
  then show ?thesis
    using leaf_request [OF assms(1) wf assms(4,5,6), of "db_of root ifs"]
      path_vals_leaf [OF assms(1,2,3,5)] key_elem_map_db_of [OF assms(1,2)]
      leaf_update [OF wf assms(5)] assms(6)
    by (simp add: leaf_val_def)
qed

text \<open>
  Reading a leaf of an interface: below a prefix that names the root, with or without the
  module name, the path of an existing interface and one of its two leaves gives exactly one
  update, with the requested path and the JSON string of the stored value; the value of \<open>type\<close>
  carries the \<open>iana-if-type\<close> module name.
\<close>

theorem demo_get_leaf:
  assumes "wf_root root" and "wf_ifs ifs" and "(n, nv, t) \<in> set ifs" and "names_root pfx root"
    and "leaf = ''name'' \<or> leaf = ''type''"
    and "p_elem path = [if_elem n, mk_elem leaf []]"
  shows "get_db_updates_for_path path pfx (db_of root ifs) =
     Inr [\<lparr>u_path = \<lparr>p_elem = p_elem path, p_origin = [], p_target = []\<rparr>,
           u_val = JsonIetfVal (JsonDoc (JStr (if leaf = ''type'' then NS_IANA @ t else nv)))\<rparr>]"
  using get_leaf [OF assms] .

lemma demo_get_leaf_witness:
  "get_db_updates_for_path (type_path ''if_1'') (root_prefix (NS_INTERFACES @ ''interfaces''))
     (db_of ''/interfaces'' one_if) = Inr [type_update ''if_1'' ''gigabitEthernet'']"
  using demo_get_leaf [OF _ wf_one_if one_if_mem names_root_ns, of "''interfaces''" "''type''" "type_path ''if_1''"]
  by (simp add: wf_root_def type_path_def type_update_def)

text \<open>
  Reading the interface list below its root gives one update per interface, in the order of
  the database: the path of the list entry, and a JSON object with both leaves.
\<close>

theorem demo_get_list:
  assumes "wf_root root" and "wf_ifs ifs" and "names_root pfx root"
    and "p_elem path = [mk_elem ''interface'' []]"
  shows "get_db_updates_for_path path pfx (db_of root ifs) =
     Inr (map (\<lambda>(n, nv, t).
       \<lparr>u_path = \<lparr>p_elem = [if_elem n], p_origin = [], p_target = []\<rparr>,
        u_val = JsonIetfVal (JsonDoc
          (JObj [(''name'', JStr nv), (''type'', JStr (NS_IANA @ t))]))\<rparr>) ifs)"
proof -
  have s: "''/interface'' = concat (map (elem_str False True) (p_elem path))"
    by (simp add: assms(4) elem_str_def)
  have "CHR '']'' \<notin> set (make_xpath_path None (Some pfx) False @ ''/interface'')"
    using names_root_bracket [OF assms(3,1)] by simp
  then have elem: "get_elem_from_xpath (make_xpath_path None (Some pfx) False @ ''/interface'') = None"
    by (rule get_elem_absent)
  have keys: "matching (root @ ''/interface'') (dict_keys (db_of root ifs)) = dict_keys (db_of root ifs)"
    by (simp only: matching_keys [OF assms(1,2)] filter_all)
  have "get_db_updates_for_path path pfx (db_of root ifs) =
     map_result (to_update (length root))
       (map (\<lambda>i. (iface_path root (fst i), elem_map_json (snd (key_elem_of i)))) ifs)"
    using get_below_root [OF assms(1,3) _ s, of "db_of root ifs"] assms(2,4)
      path_vals_list [OF assms(1,2), of ifs "[]"]
    by (simp add: keys elem key_elem_map_db_of [OF assms(1,2)] wf_ifs_def)
  also have "\<dots> = Inr (map (\<lambda>(n, nv, t).
       \<lparr>u_path = \<lparr>p_elem = [if_elem n], p_origin = [], p_target = []\<rparr>,
        u_val = JsonIetfVal (JsonDoc
          (JObj [(''name'', JStr nv), (''type'', JStr (NS_IANA @ t))]))\<rparr>) ifs)"
  proof -
    have "to_update (length root) (iface_path root (fst i), elem_map_json (snd (key_elem_of i))) =
        Inr ((\<lambda>(n, nv, t). \<lparr>u_path = \<lparr>p_elem = [if_elem n], p_origin = [], p_target = []\<rparr>,
          u_val = JsonIetfVal (JsonDoc
            (JObj [(''name'', JStr nv), (''type'', JStr (NS_IANA @ t))]))\<rparr>) i)"
      if "i \<in> set ifs" for i
    proof -
      have "wf_ifname (fst i)" using assms(2) that by (simp add: wf_ifs_def)
      then have "to_update (length root) (root @ concat (map (elem_str False True) [if_elem (fst i)]), v) =
          Inr \<lparr>u_path = \<lparr>p_elem = [if_elem (fst i)], p_origin = [], p_target = []\<rparr>,
               u_val = JsonIetfVal (json_dumps v)\<rparr>" for v
        by (intro to_update_printed) (simp_all add: wf_if_elem)
      then show ?thesis
        by (cases i) (simp add: if_elem_str iface_path_def key_elem_of_def elem_map_json_def json_dumps_def)
    qed
    then show ?thesis
      unfolding map_result_map by (intro map_result_Inr_map) simp
  qed
  finally show ?thesis .
qed


lemma demo_get_list_witness:
  "get_db_updates_for_path \<lparr>p_elem = [mk_elem ''interface'' []], p_origin = [], p_target = []\<rparr>
     (root_prefix ''interfaces'') (db_of ''/interfaces'' one_if) =
   Inr [\<lparr>u_path = \<lparr>p_elem = [if_elem ''if_1''], p_origin = [], p_target = []\<rparr>,
     u_val = JsonIetfVal (JsonDoc (JObj [(''name'', JStr ''if_1''),
       (''type'', JStr (NS_IANA @ ''gigabitEthernet''))]))\<rparr>]"
  using demo_get_list [OF _ wf_one_if names_root_plain, of "''interfaces''"
      "\<lparr>p_elem = [mk_elem ''interface'' []], p_origin = [], p_target = []\<rparr>"]
  by (simp add: wf_root_def one_if_def)

text \<open>
  A read of data type ALL runs the query on both databases and returns the result for the
  state database only: what the configuration database holds is computed and dropped.
\<close>

theorem demo_get_all_is_state:
  "get_updates a path pfx DT_ALL =
     rbind (get_db_updates_for_path path pfx (da_db a)) (\<lambda>_. get_updates a path pfx DT_STATE)"
  by (simp add: get_updates_def)

section \<open>The initial database\<close>

lemma nat_str_inj: "nat_str m = nat_str n \<longleftrightarrow> m = n"
  by (metis digits_val_nat_str)

lemma is_digit_chars:
  "is_digit c \<Longrightarrow> c \<noteq> CHR ''/'' \<and> c \<noteq> CHR ''['' \<and> c \<noteq> CHR '']'' \<and> c \<noteq> CHR ''='' \<and>
     c \<noteq> CHR 0x0A \<and> c \<noteq> CHR '':'' \<and> c \<noteq> CHR ''#'' \<and> c \<noteq> CHR ''-'' \<and> c \<noteq> CHR ''+''"
  by (auto simp: is_digit_def)

lemma nat_str_chars:
  "c \<in> {CHR ''/'', CHR ''['', CHR '']'', CHR ''='', CHR 0x0A, CHR '':'', CHR ''#''} \<Longrightarrow> c \<notin> set (nat_str n)"
  using nat_str_digits is_digit_chars by blast

lemma iface_path_eq [simp]: "iface_path root m = iface_path root n \<longleftrightarrow> m = n"
  by (simp add: iface_path_def)

lemma iface_leaf_eq:
  assumes "iface_path root m @ k = iface_path root n @ l"
    and "k \<in> {''/name'', ''/type''}" and "l \<in> {''/name'', ''/type''}"
  shows "m = n \<and> k = l"
proof -
  from assms(2,3) have len: "length k = length l" by auto
  with assms(1) have "iface_path root m = iface_path root n \<and> k = l" by (simp add: append_eq_append_conv)
  then show ?thesis by simp
qed

lemma db_of_fresh:
  assumes "l \<in> {''/name'', ''/type''}" and "n \<notin> fst ` set ifs"
  shows "iface_path root n @ l \<notin> fst ` set (db_of root ifs)"
  using assms(2)
proof (induction ifs)
  case (Cons i ifs)
  then have "fst i \<noteq> n" by auto
  then have "iface_path root n @ l \<noteq> iface_path root (fst i) @ k" if "k \<in> {''/name'', ''/type''}" for k
    using iface_leaf_eq [OF _ assms(1) that] by blast
  from this [of "''/name''"] this [of "''/type''"] Cons show ?case
    by (cases i) (simp add: db_of_def)
qed (simp add: db_of_def)

text \<open>Assigning the two leaves of a new interface appends them.\<close>

lemma db_of_append_iface:
  assumes "wf_ifs ifs" and "wf_ifname n" and "n \<notin> fst ` set ifs"
  shows "AList.update (iface_path root n @ ''/type'') t
     (AList.update (iface_path root n @ ''/name'') nv (db_of root ifs)) =
     db_of root (ifs @ [(n, nv, t)])"
proof -
  have fresh: "iface_path root n @ l \<notin> fst ` set (db_of root ifs)"
    if "l \<in> {''/name'', ''/type''}" for l
    using that assms(3) by (rule db_of_fresh)
  then have "AList.update (iface_path root n @ ''/name'') nv (db_of root ifs) =
      db_of root ifs @ [(iface_path root n @ ''/name'', nv)]"
    by (intro update_fresh) simp
  moreover have "AList.update (iface_path root n @ ''/type'') t
      (db_of root ifs @ [(iface_path root n @ ''/name'', nv)]) =
      (db_of root ifs @ [(iface_path root n @ ''/name'', nv)]) @ [(iface_path root n @ ''/type'', t)]"
    using fresh [of "''/type''"] by (intro update_fresh) auto
  moreover have "db_of root (ifs @ [(n, nv, t)]) = db_of root ifs @
      [(iface_path root n @ ''/name'', nv), (iface_path root n @ ''/type'', t)]"
    by (simp add: db_of_def)
  ultimately show ?thesis by simp
qed

definition initial_ifs :: "string \<Rightarrow> string list \<Rightarrow> iface list" where
  "initial_ifs stem ids = map (\<lambda>i. (stem @ i, stem @ i, ''gigabitEthernet'')) ids"

lemma wf_ifname_nat_str:
  assumes "wf_ifname stem"
  shows "wf_ifname (stem @ nat_str k)"
  using assms nat_str_chars [of _ k] by (auto simp: wf_ifname_def plain_def)

lemma wf_initial_ifs:
  assumes "distinct ids" and "set ids \<subseteq> range nat_str" and "wf_ifname stem"
  shows "wf_ifs (initial_ifs stem ids)"
  using assms wf_ifname_nat_str [OF assms(3)]
  by (auto simp: wf_ifs_def initial_ifs_def distinct_map inj_on_def)

lemma fill_steps:
  assumes "distinct ids" and "set ids \<subseteq> range nat_str"
    and "da_db a = []" and "da_state_db a = []"
  shows "foldl fill_step a ids =
     a\<lparr>da_db := db_of ''/interfaces'' (initial_ifs ''if_'' ids),
       da_state_db := db_of ''/interfaces-state'' (initial_ifs ''state_if_'' ids)\<rparr>"
  using assms(1,2)
proof (induction ids rule: rev_induct)
  case Nil
  then show ?case using assms(3,4) by (simp add: initial_ifs_def)
next
  case (snoc x ids)
  have stem: "wf_ifname ''if_''" "wf_ifname ''state_if_''"
    by (simp_all add: wf_ifname_def plain_def)
  have ids: "distinct ids" "set ids \<subseteq> range nat_str" and x: "x \<notin> set ids" "x \<in> range nat_str"
    using snoc.prems by auto
  from x(2) obtain k where k: "x = nat_str k" by auto
  have wf: "wf_ifname (''if_'' @ x)" "wf_ifname (''state_if_'' @ x)"
    unfolding k by (rule wf_ifname_nat_str, rule stem)+
  have new: "''if_'' @ x \<notin> fst ` set (initial_ifs ''if_'' ids)"
      "''state_if_'' @ x \<notin> fst ` set (initial_ifs ''state_if_'' ids)"
    using x(1) by (auto simp: initial_ifs_def)
  have paths: "if_path m = iface_path ''/interfaces'' m"
      "state_if_path m = iface_path ''/interfaces-state'' m" for m
    by (simp_all add: if_path_def state_if_path_def iface_path_def)
  note app = db_of_append_iface [OF wf_initial_ifs [OF ids stem(1)] wf(1) new(1)]
    db_of_append_iface [OF wf_initial_ifs [OF ids stem(2)] wf(2) new(2)]
  have snoc_ifs: "initial_ifs st (ids @ [x]) =
      initial_ifs st ids @ [(st @ x, st @ x, ''gigabitEthernet'')]" for st
    by (simp add: initial_ifs_def)
  show ?case
    unfolding foldl_append snoc.IH [OF ids] snoc_ifs
    by (simp add: fill_step_def Let_def paths app [simplified])
qed

lemma fill_demo_db_initial:
  assumes "da_db a = []" and "da_state_db a = []"
    and "ids = sort (map (\<lambda>i. nat_str (i + 1)) [0..<n])"
  shows "fill_demo_db n a =
       a\<lparr>da_db := db_of ''/interfaces'' (initial_ifs ''if_'' ids),
         da_state_db := db_of ''/interfaces-state'' (initial_ifs ''state_if_'' ids)\<rparr> \<and>
     wf_ifs (initial_ifs ''if_'' ids) \<and> wf_ifs (initial_ifs ''state_if_'' ids) \<and> length ids = n"
proof -
  have "distinct (map (\<lambda>i. nat_str (i + 1)) [0..<n])"
    by (auto simp: distinct_map inj_on_def nat_str_inj)
  then have ids: "distinct ids" "set ids \<subseteq> range nat_str"
    by (auto simp: assms(3))
  moreover have "wf_ifname ''if_''" "wf_ifname ''state_if_''"
    by (simp_all add: wf_ifname_def plain_def)
  ultimately show ?thesis
    using fill_steps [OF ids assms(1,2)] by (simp add: fill_demo_db_def assms(3) wf_initial_ifs)
qed

text \<open>
  Filling an empty database with \<open>n\<close> interfaces gives, in both parts, the \<open>n\<close> interfaces in
  alphabetical order of their numbers, each with its name and the type \<open>gigabitEthernet\<close>, and
  the result is well-formed, so that the properties of reads and writes apply to it.
\<close>

theorem fill_demo_db_spec:
  assumes "da_db a = []" and "da_state_db a = []"
    and "ids = sort (map (\<lambda>i. nat_str (i + 1)) [0..<n])"
  shows "fill_demo_db n a =
       a\<lparr>da_db := db_of ''/interfaces'' (initial_ifs ''if_'' ids),
         da_state_db := db_of ''/interfaces-state'' (initial_ifs ''state_if_'' ids)\<rparr> \<and>
     wf_ifs (initial_ifs ''if_'' ids) \<and> wf_ifs (initial_ifs ''state_if_'' ids) \<and> length ids = n"
  using fill_demo_db_initial [OF assms] .

lemma fill_demo_db_spec_witness:
  "da_db (fill_demo_db 2 (adapter_of [])) =
     db_of ''/interfaces'' (initial_ifs ''if_'' [''1'', ''2''])"
proof -
  have ids: "sort (map (\<lambda>i. nat_str (i + 1)) [0..<2]) = [''1'', ''2'']"
    by code_simp
  show ?thesis
    using fill_demo_db_spec [of "adapter_of []" "[''1'', ''2'']" 2] ids
    by (simp add: adapter_of_def)
qed

section \<open>Properties of writes\<close>

text \<open>The interface list with the type of one interface replaced.\<close>

definition set_type :: "string \<Rightarrow> string \<Rightarrow> iface list \<Rightarrow> iface list" where
  "set_type n v ifs = map (\<lambda>(m, nv, t). if m = n then (m, nv, v) else (m, nv, t)) ifs"

lemma set_type_names [simp]: "map fst (set_type n v ifs) = map fst ifs"
  by (auto simp: set_type_def)

lemma wf_set_type [simp]: "wf_ifs (set_type n v ifs) \<longleftrightarrow> wf_ifs ifs"
proof -
  have names: "wf_ifs js \<longleftrightarrow> distinct (map fst js) \<and> list_all wf_ifname (map fst js)" for js :: "iface list"
    by (simp add: wf_ifs_def list_all_iff)
  show ?thesis by (simp only: names set_type_names)
qed

lemma set_type_absent: "n \<notin> fst ` set ifs \<Longrightarrow> set_type n v ifs = ifs"
  by (induction ifs) (auto simp: set_type_def)

lemma set_type_mem: "(n, nv, t) \<in> set ifs \<Longrightarrow> (n, nv, v) \<in> set (set_type n v ifs)"
  by (force simp: set_type_def)

lemma update_db_of_type:
  assumes "wf_ifs ifs" and "(n, nv, t) \<in> set ifs"
  shows "AList.update (iface_path root n @ ''/type'') v (db_of root ifs) = db_of root (set_type n v ifs)"
  using assms
proof (induction ifs)
  case (Cons i ifs)
  obtain m mv s where i: "i = (m, mv, s)" by (cases i)
  have name: "iface_path root m @ ''/name'' \<noteq> iface_path root n @ ''/type''"
    using iface_leaf_eq [of root m "''/name''" n "''/type''"] by auto
  show ?case
  proof (cases "m = n")
    case True
    with Cons.prems i have "n \<notin> fst ` set ifs" by (auto simp: wf_ifs_def)
    then have "set_type n v (i # ifs) = (n, mv, v) # ifs"
      using set_type_absent [of n ifs v] True i by (simp add: set_type_def)
    with True i name show ?thesis by simp
  next
    case False
    then have "iface_path root m @ ''/type'' \<noteq> iface_path root n @ ''/type''" by simp
    moreover have "set_type n v (i # ifs) = i # set_type n v ifs"
      using False i by (simp add: set_type_def)
    ultimately show ?thesis
      using False i name Cons.prems Cons.IH by (auto simp: wf_ifs_def)
  qed
qed simp

lemma type_path_xpath:
  "make_xpath_path (Some (type_path n)) (Some (root_prefix r)) False =
     iface_path (CHR ''/'' # r) n @ ''/type''"
  by (simp add: type_path_def root_prefix_def string_path_defs make_path_def elem_str_def
      key_str_def iface_path_def)

lemma type_path_nsless:
  assumes "names_root (root_prefix r) root" and "wf_ifname n"
  shows "nsless_xpath (make_xpath_path (Some (type_path n)) (Some (root_prefix r)) False) =
     iface_path root n @ ''/type''"
proof -
  let ?s = "''/interface[name='' @ n @ '']/type''"
  have "make_xpath_path (Some (type_path n)) (Some (root_prefix r)) False =
      make_xpath_path None (Some (root_prefix r)) False @ ?s"
    by (subst xpath_below_prefix [OF _ assms(1)])
      (simp_all add: type_path_def elem_str_def key_str_def)
  moreover have "CHR '':'' \<notin> set ?s" using assms(2) by (simp add: wf_ifname_def)
  ultimately show ?thesis
    using names_root_prefix [OF assms(1), of ?s] by (simp add: iface_path_def)
qed

lemma get_leaf_type:
  assumes "wf_root root" and "wf_ifs ifs" and "(n, nv, t) \<in> set ifs" and "names_root pfx root"
  shows "get_db_updates_for_path (type_path n) pfx (db_of root ifs) = Inr [type_update n t]"
  using get_leaf [OF assms, of "''type''" "type_path n"]
  by (simp add: type_path_def type_update_def)

text \<open>One update of a type, through any prefix that names the root.\<close>

lemma demo_set_type:
  assumes "names_root (root_prefix r) root" and "wf_ifname n" and "CHR '':'' \<notin> set v"
    and "iface_path root n @ ''/type'' \<in> set (dict_keys (da_db a))"
  shows "demo_set format_val a (root_prefix r) [type_update n v] =
     (a\<lparr>da_db := AList.update (iface_path (CHR ''/'' # r) n @ ''/type'') v (da_db a)\<rparr>,
      Inr [(type_path n, UPDATE)])"
  using type_path_nsless [OF assms(1,2)] assms(4) strip_iana [OF assms(3)]
  by (simp add: set_update_def set_val_str_def type_update_def json_nonempty_def
      type_path_xpath)

lemma type_key_mem:
  "(n, nv, t) \<in> set ifs \<Longrightarrow> iface_path root n @ ''/type'' \<in> set (dict_keys (db_of root ifs))"
  by (force simp: dict_keys_db_of)

lemma demo_set_read:
  assumes "wf_ifs ifs" and "(n, nv, t) \<in> set ifs" and "da_db a = db_of ''/interfaces'' ifs"
    and "CHR '':'' \<notin> set v"
    and "demo_set format_val a (root_prefix ''interfaces'') [type_update n v] = (a', res)"
  shows "res = Inr [(type_path n, UPDATE)] \<and>
     a' = a\<lparr>da_db := db_of ''/interfaces'' (set_type n v ifs)\<rparr> \<and>
     get_updates a' (type_path n) (root_prefix ''interfaces'') DT_CONFIG = Inr [type_update n v]"
proof -
  let ?pfx = "root_prefix ''interfaces''"
  have wf: "wf_ifname n" using assms(1,2) by (auto simp: wf_ifs_def)
  have root: "names_root ?pfx ''/interfaces''" using names_root_plain [of "''interfaces''"] by simp
  have set: "demo_set format_val a ?pfx [type_update n v] =
      (a\<lparr>da_db := db_of ''/interfaces'' (set_type n v ifs)\<rparr>, Inr [(type_path n, UPDATE)])"
    using demo_set_type [OF root wf assms(4), of a format_val] type_key_mem [OF assms(2)] assms(3)
      update_db_of_type [OF assms(1,2), of "''/interfaces''" v]
    by simp
  have "get_db_updates_for_path (type_path n) ?pfx (db_of ''/interfaces'' (set_type n v ifs)) =
      Inr [type_update n v]"
    by (rule get_leaf_type [OF _ _ set_type_mem [OF assms(2)] root])
      (simp_all add: wf_root_def assms(1))
  moreover have "a' = a\<lparr>da_db := db_of ''/interfaces'' (set_type n v ifs)\<rparr>"
      "res = Inr [(type_path n, UPDATE)]"
    using set assms(5) by (simp_all del: demo_set.simps)
  ultimately show ?thesis by (simp add: get_updates_def)
qed

text \<open>
  Writing the type of an existing interface below the root \<open>/interfaces\<close>, with a value in the
  form that \<open>get\<close> returns: the result is the operation UPDATE for the path, the database is the old
  one with that type replaced and nothing else changed, and reading the leaf gives back exactly
  the update that was written.
\<close>

theorem demo_set_get:
  assumes "wf_ifs ifs" and "(n, nv, t) \<in> set ifs" and "da_db a = db_of ''/interfaces'' ifs"
    and "CHR '':'' \<notin> set v"
    and "demo_set format_val a (root_prefix ''interfaces'') [type_update n v] = (a', res)"
  shows "res = Inr [(type_path n, UPDATE)] \<and>
     a' = a\<lparr>da_db := db_of ''/interfaces'' (set_type n v ifs)\<rparr> \<and>
     get_updates a' (type_path n) (root_prefix ''interfaces'') DT_CONFIG = Inr [type_update n v]"
  using demo_set_read [OF assms] .

lemma demo_set_get_witness:
  "\<exists>a' res. demo_set (\<lambda>_. []) (adapter_of one_if) (root_prefix ''interfaces'')
       [type_update ''if_1'' ''fast''] = (a', res) \<and> res = Inr [(type_path ''if_1'', UPDATE)] \<and>
     get_updates a' (type_path ''if_1'') (root_prefix ''interfaces'') DT_CONFIG =
        Inr [type_update ''if_1'' ''fast'']"
proof -
  obtain a' res where e: "demo_set (\<lambda>_. []) (adapter_of one_if) (root_prefix ''interfaces'')
       [type_update ''if_1'' ''fast''] = (a', res)" by fastforce
  have "CHR '':'' \<notin> set ''fast''" by simp
  with e show ?thesis
    using demo_set_get [OF wf_one_if one_if_mem adapter_of_db _ e] by blast
qed

section \<open>Two spellings of one leaf\<close>

text \<open>
  A write through a prefix with the module name stores its value under a second key. The key
  belongs to the same interface and leaf, comes later in the database, and wins in every read.
\<close>

lemma ns_type_key:
  assumes "wf_ifname n"
  shows "get_key_from_xpath (iface_path (CHR ''/'' # NS_INTERFACES @ ''interfaces'') n @ ''/type'') = Some n"
    and "get_elem_from_xpath (iface_path (CHR ''/'' # NS_INTERFACES @ ''interfaces'') n @ ''/type'') = Some ''type''"
proof -
  let ?pre = "CHR ''/'' # NS_INTERFACES @ ''interfaces/interface''"
  have split: "iface_path (CHR ''/'' # NS_INTERFACES @ ''interfaces'') n @ ''/type'' =
      ?pre @ ''[name='' @ n @ CHR '']'' # ''/type''"
      "iface_path (CHR ''/'' # NS_INTERFACES @ ''interfaces'') n @ ''/type'' =
      (?pre @ ''[name='' @ n) @ CHR '']'' # CHR ''/'' # ''type''"
    by (simp_all add: iface_path_def)
  show "get_key_from_xpath (iface_path (CHR ''/'' # NS_INTERFACES @ ''interfaces'') n @ ''/type'') = Some n"
    unfolding split(1) using greedy_to_bracket_block [of n "''/type''"] assms
    by (subst get_key_skip)
      (simp_all add: NS_INTERFACES_def get_key_from_xpath.simps [of "_ # _"] wf_ifname_def)
  show "get_elem_from_xpath (iface_path (CHR ''/'' # NS_INTERFACES @ ''interfaces'') n @ ''/type'') = Some ''type''"
    unfolding split(2) using assms
    by (subst get_elem_skip) (auto simp: NS_INTERFACES_def get_elem_hit wf_ifname_def plain_def)
qed

lemma map_of_key_elem_of:
  assumes "wf_ifs ifs" and "(n, nv, t) \<in> set ifs"
  shows "map_of (map key_elem_of ifs) (Some n) = Some [(Some ''name'', nv), (Some ''type'', NS_IANA @ t)]"
  using map_of_key_elem [OF assms]
  by (simp add: dict_get_def key_elem_of_def split: option.splits)

lemma update_key_elem_of:
  assumes "wf_ifs ifs" and "(n, nv, t) \<in> set ifs"
  shows "AList.update (Some n) [(Some ''name'', nv), (Some ''type'', NS_IANA @ v)] (map key_elem_of ifs) =
     map key_elem_of (set_type n v ifs)"
  using assms
proof (induction ifs)
  case (Cons i ifs)
  obtain m mv s where i: "i = (m, mv, s)" by (cases i)
  show ?case
  proof (cases "m = n")
    case True
    with Cons.prems i have "n \<notin> fst ` set ifs" and "mv = nv" by (auto simp: wf_ifs_def image_iff)
    then show ?thesis
      using set_type_absent [of n ifs v] True i by (simp add: set_type_def key_elem_of_def)
  next
    case False
    moreover have "set_type n v (i # ifs) = i # set_type n v ifs"
      using False i by (simp add: set_type_def)
    ultimately show ?thesis
      using i Cons.prems Cons.IH by (auto simp: wf_ifs_def key_elem_of_def)
  qed
qed simp

lemma key_elem_map_shadowed:
  assumes "wf_ifs ifs" and "(n, nv, t) \<in> set ifs"
  shows "demo_db_to_key_elem_map (db_of ''/interfaces'' ifs @
       [(iface_path (CHR ''/'' # NS_INTERFACES @ ''interfaces'') n @ ''/type'', v)]) =
     map key_elem_of (set_type n v ifs)"
proof -
  have wf: "wf_ifname n" using assms by (auto simp: wf_ifs_def)
  have "demo_db_to_key_elem_map (db_of ''/interfaces'' ifs) = map key_elem_of ifs"
    by (rule key_elem_map_db_of) (simp_all add: wf_root_def assms(1))
  moreover have "key_elem_step (map key_elem_of ifs)
      (iface_path (CHR ''/'' # NS_INTERFACES @ ''interfaces'') n @ ''/type'', v) =
      map key_elem_of (set_type n v ifs)"
    using update_key_elem_of [OF assms, of v]
    by (simp add: key_elem_step_def ns_type_key [OF wf, simplified] map_of_key_elem_of [OF assms])
  ultimately show ?thesis
    by (simp add: demo_db_to_key_elem_map_def)
qed

lemma ns_key_fresh:
  "iface_path (CHR ''/'' # NS_INTERFACES @ ''interfaces'') n @ t \<notin> fst ` set (db_of ''/interfaces'' ifs)"
  by (induction ifs) (auto simp: iface_path_def NS_INTERFACES_def)

lemma update_append:
  "k \<in> fst ` set xs \<Longrightarrow> AList.update k v (xs @ ys) = AList.update k v xs @ ys"
  by (induction xs) auto

lemma get_shadowed:
  assumes "wf_ifs ifs" and "(n, nv, t) \<in> set ifs" and "names_root (root_prefix r) ''/interfaces''"
  shows "get_db_updates_for_path (type_path n) (root_prefix r) (db_of ''/interfaces'' ifs @
       [(iface_path (CHR ''/'' # NS_INTERFACES @ ''interfaces'') n @ ''/type'', v)]) =
     Inr [type_update n v]"
proof -
  let ?ns = "iface_path (CHR ''/'' # NS_INTERFACES @ ''interfaces'') n @ ''/type''"
  let ?key = "iface_path ''/interfaces'' n @ ''/type''"
  have wf: "wf_ifname n" and root: "wf_root ''/interfaces''"
    using assms(1,2) by (auto simp: wf_ifs_def wf_root_def)
  have "nsless_xpath ?ns = ?key"
    using type_path_nsless [OF names_root_ns [of "''interfaces''"] wf] type_path_xpath by simp
  then have "matching ?key [?ns] = [?ns]" by (simp add: matching_def)
  moreover have "matching ?key (dict_keys (db_of ''/interfaces'' ifs)) = [?key]"
    using filter_iface_leaf [OF assms(1,2), of "''type''"] matching_keys [OF root assms(1)] by simp
  ultimately have keys: "matching ?key (dict_keys (db_of ''/interfaces'' ifs @ [(?ns, v)])) = [?key, ?ns]"
    by (simp add: matching_def dict_keys_def)
  have key: "get_key_from_xpath ?key = Some n"
    by (rule iface_path_key [OF root wf]) simp_all
  have "dict_get (map key_elem_of (set_type n v ifs)) (Some n) =
      Inr [(Some ''name'', nv), (Some ''type'', NS_IANA @ v)]"
    using map_of_key_elem_of [of "set_type n v ifs", OF _ set_type_mem [OF assms(2)]] assms(1)
    by (simp add: dict_get_def)
  then have "path_vals (map key_elem_of (set_type n v ifs)) (Some ''type'') [] [?key, ?ns] =
      Inr [(?key, JStr (NS_IANA @ v))]"
    using key ns_type_key(1) [OF wf] by (simp add: dict_get_def)
  then show ?thesis
    using leaf_request [OF root wf assms(3), of "''type''" "type_path n"] keys
      key_elem_map_shadowed [OF assms(1,2)] leaf_update [OF wf, of "''type''" "''/interfaces''" "JStr (NS_IANA @ v)"]
    by (simp add: type_path_def type_update_def)
qed

text \<open>
  A write through the path with the module name and a later write through the plain path:
  both report UPDATE, and a read, through either path, returns the value of the first.
\<close>

theorem demo_set_lost_update:
  assumes "wf_ifs ifs" and "(n, nv, t) \<in> set ifs" and "da_db a = db_of ''/interfaces'' ifs"
    and "CHR '':'' \<notin> set v1" and "CHR '':'' \<notin> set v2"
    and "demo_set format_val a (root_prefix (NS_INTERFACES @ ''interfaces'')) [type_update n v1] = (a1, r1)"
    and "demo_set format_val a1 (root_prefix ''interfaces'') [type_update n v2] = (a2, r2)"
    and "r = ''interfaces'' \<or> r = NS_INTERFACES @ ''interfaces''"
  shows "r1 = Inr [(type_path n, UPDATE)] \<and> r2 = Inr [(type_path n, UPDATE)] \<and>
     get_updates a2 (type_path n) (root_prefix r) DT_CONFIG = Inr [type_update n v1]"
proof -
  let ?R = "CHR ''/'' # NS_INTERFACES @ ''interfaces''"
  let ?ns = "iface_path ?R n @ ''/type''"
  have wf: "wf_ifname n" using assms(1,2) by (auto simp: wf_ifs_def)
  have roots: "names_root (root_prefix ''interfaces'') ''/interfaces''"
      "names_root (root_prefix (NS_INTERFACES @ ''interfaces'')) ''/interfaces''"
    using names_root_plain [of "''interfaces''"] names_root_ns [of "''interfaces''"] by simp_all
  have a1: "a1 = a\<lparr>da_db := db_of ''/interfaces'' ifs @ [(?ns, v1)]\<rparr>" "r1 = Inr [(type_path n, UPDATE)]"
    using demo_set_type [OF roots(2) wf assms(4), of a format_val] type_key_mem [OF assms(2)]
      assms(3,6) update_fresh [OF ns_key_fresh] by (simp_all del: demo_set.simps)
  have a2: "a2 = a\<lparr>da_db := db_of ''/interfaces'' (set_type n v2 ifs) @ [(?ns, v1)]\<rparr>"
      "r2 = Inr [(type_path n, UPDATE)]"
    using demo_set_type [OF roots(1) wf assms(5), of a1 format_val] type_key_mem [OF assms(2)]
      assms(7) update_db_of_type [OF assms(1,2)] by (simp_all del: demo_set.simps add: a1 dict_keys_def update_append)
  have "get_db_updates_for_path (type_path n) (root_prefix r)
      (db_of ''/interfaces'' (set_type n v2 ifs) @ [(?ns, v1)]) = Inr [type_update n v1]"
    by (rule get_shadowed [OF _ set_type_mem [OF assms(2)]]) (use assms(1,8) roots in auto)
  then show ?thesis
    using a1(2) a2 by (simp add: get_updates_def)
qed

lemma demo_set_lost_update_witness:
  "\<exists>a1 r1 a2 r2.
     demo_set (\<lambda>_. []) (adapter_of one_if) (root_prefix (NS_INTERFACES @ ''interfaces''))
       [type_update ''if_1'' ''fast''] = (a1, r1) \<and>
     demo_set (\<lambda>_. []) a1 (root_prefix ''interfaces'') [type_update ''if_1'' ''slow''] = (a2, r2) \<and>
     r2 = Inr [(type_path ''if_1'', UPDATE)] \<and>
     get_updates a2 (type_path ''if_1'') (root_prefix ''interfaces'') DT_CONFIG =
        Inr [type_update ''if_1'' ''fast'']"
proof -
  obtain a1 r1 where e1: "demo_set (\<lambda>_. []) (adapter_of one_if)
      (root_prefix (NS_INTERFACES @ ''interfaces'')) [type_update ''if_1'' ''fast''] = (a1, r1)"
    by fastforce
  obtain a2 r2 where e2: "demo_set (\<lambda>_. []) a1 (root_prefix ''interfaces'')
      [type_update ''if_1'' ''slow''] = (a2, r2)" by fastforce
  have "CHR '':'' \<notin> set ''fast''" "CHR '':'' \<notin> set ''slow''" by simp_all
  with e1 e2 show ?thesis
    using demo_set_lost_update [OF wf_one_if one_if_mem adapter_of_db _ _ e1 e2] by blast
qed

end
