(* ===== verification/Gnmi_Demo_Handler.thy ===== *)
theory Gnmi_Demo_Handler
  imports Gnmi_Demo_Adapter "HOL-Library.Multiset"
begin

text \<open>
  The subscription handler of the demo adapter (\<open>SubscriptionHandler\<close> in
  \<open>confdgnmi/src/confd_gnmi_demo_adapter.py\<close>): samples from the database, and a change thread that
  modifies the database, collects the modifications in \<open>change_db\<close> and asks the \<open>read\<close> generator
  to send them.

  The record \<open>demo_handler\<close> extends the handler of the base class. The change thread is a
  status in the state; \<open>process_event\<close> and \<open>process_timeout\<close> are the two ways through one pass of
  its loop. The calls that raise inside the thread return the state they leave behind.
\<close>

section \<open>State\<close>

datatype change_event = ADD | SEND | FINISH_CHANGES

text \<open>Started and not yet in its loop, in its loop, returned, or ended by an exception.\<close>

datatype thread_status = Starting | Looping | Ended | Died py_error

record demo_handler = sub_handler +
  dh_adapter :: demo_adapter
  dh_monitored_paths :: "string list"
  dh_change_db :: "(string \<times> string) list"
  dh_change_thread :: "thread_status option"
  dh_change_event_queue :: "change_event list option"
  dh_add_count :: nat

definition demo_handler_init :: "demo_adapter \<Rightarrow> subscription_list \<Rightarrow> demo_handler" where
  "demo_handler_init a sl =
     \<lparr>sh_subscription_list = sh_subscription_list (handler_init sl),
      sh_read_queue = sh_read_queue (handler_init sl),
      dh_adapter = a, dh_monitored_paths = [], dh_change_db = [], dh_change_thread = None,
      dh_change_event_queue = None, dh_add_count = 0\<rparr>"

section \<open>Samples and changes\<close>

definition demo_get_sample :: "demo_handler \<Rightarrow> gnmi_path \<Rightarrow> gnmi_path \<Rightarrow> gnmi_update list result" where
  "demo_get_sample h path pfx =
     rbind (get_db_updates_for_path path pfx (da_db (dh_adapter h))) (\<lambda>updates.
       if length updates = 0 then get_db_updates_for_path path pfx (da_state_db (dh_adapter h))
       else Inr updates)"

definition change_update :: "gnmi_path \<Rightarrow> string \<times> string \<Rightarrow> gnmi_update result" where
  "change_update pfx c =
     (let prefix_str = nsless_xpath (make_xpath_path None (Some pfx) False);
          p = nsless_xpath (fst c);
          p = (if startswith p prefix_str then drop (length prefix_str) p else p);
          v = NS_IANA @ snd c
      in rbind (make_gnmi_path p [] []) (\<lambda>gp.
           Inr \<lparr>u_path = gp, u_val = JsonIetfVal (json_dumps (JStr v))\<rparr>))"

definition get_monitored_changes :: "demo_handler \<Rightarrow> (demo_handler \<times> gnmi_update list) result" where
  "get_monitored_changes h =
     (if \<not> length (dh_change_db h) > 0 then Inl AssertionError
      else rbind (map_result (change_update (sl_prefix (sh_subscription_list h))) (dh_change_db h))
             (\<lambda>update. Inr (h\<lparr>dh_change_db := []\<rparr>, update)))"

section \<open>The random module\<close>

definition rnd_next :: "demo_adapter \<Rightarrow> nat \<times> demo_adapter" where
  "rnd_next a = (da_rnd a (da_rnd_idx a), a\<lparr>da_rnd_idx := da_rnd_idx a + 1\<rparr>)"

text \<open>\<open>randint(0, hi)\<close> includes both ends.\<close>

definition randint :: "nat \<Rightarrow> demo_adapter \<Rightarrow> nat \<times> demo_adapter" where
  "randint hi a = (let (r, a1) = rnd_next a in (r mod (hi + 1), a1))"

text \<open>\<open>random.sample(population, k)\<close>: \<open>k\<close> draws without replacement.\<close>

fun rnd_sample :: "string list \<Rightarrow> nat \<Rightarrow> demo_adapter \<Rightarrow> string list \<times> demo_adapter" where
  "rnd_sample pop 0 a = ([], a)"
| "rnd_sample pop (Suc k) a =
     (let (r, a1) = rnd_next a;
          i = r mod length pop;
          (rest, a2) = rnd_sample (take i pop @ drop (Suc i) pop) k a1
      in (pop ! i # rest, a2))"

section \<open>Generating changes\<close>

definition candidate_paths :: "demo_handler \<Rightarrow> string list" where
  "candidate_paths h = remdups (concat (map (\<lambda>mp.
     map (py_replace ''/name'' ''/type'')
       (filter (\<lambda>p. startswith p mp) (dict_keys (da_db (dh_adapter h))))) (dh_monitored_paths h)))"

definition get_random_changes :: "demo_handler \<Rightarrow> demo_handler \<times> change list result" where
  "get_random_changes h =
     (let cand = candidate_paths h;
          (paths, a1) = rnd_sample cand (min (length cand) 4) (dh_adapter h)
      in case map_result (\<lambda>path. rbind (dict_get (da_db a1) path) (\<lambda>v.
                Inr (ChPath path (if v = ''gigabitEthernet'' then ''fastEther''
                                  else ''gigabitEthernet'')))) paths of
           Inl e \<Rightarrow> (h\<lparr>dh_adapter := a1\<rparr>, Inl e)
         | Inr cs \<Rightarrow>
             (let (r, a2) = randint 9 a1
              in (h\<lparr>dh_adapter := a2\<rparr>,
                  Inr (cs @ [ChStr (if r < 8 then ''send'' else ''break'')]))))"

fun is_str :: "change \<Rightarrow> bool" where
  "is_str (ChStr s) = True"
| "is_str c = False"

text \<open>The \<open>while\<close> loop over the configured changes: up to and including the next string.\<close>

fun config_batch :: "change list \<Rightarrow> change list" where
  "config_batch [] = []"
| "config_batch (c # cs) = (if is_str c then [c] else c # config_batch cs)"

definition get_config_changes :: "demo_adapter \<Rightarrow> demo_adapter \<times> change list result" where
  "get_config_changes a =
     (case da_changes a of
        None \<Rightarrow> (a, Inl AssertionError)
      | Some cs \<Rightarrow>
          (let idx = (if da_changes_idx a \<ge> length cs then 0 else da_changes_idx a);
               batch = config_batch (drop idx cs)
           in (a\<lparr>da_changes_idx := idx + length batch\<rparr>, Inr batch)))"

section \<open>The change thread\<close>

text \<open>The test \<open>path[0] != '/'\<close>, which raises on an empty path.\<close>

fun slash_path :: "string \<Rightarrow> string result" where
  "slash_path [] = Inl IndexError"
| "slash_path (c0 # cs) = Inr (if c0 \<noteq> CHR ''/'' then CHR ''/'' # c0 # cs else c0 # cs)"

definition record_change :: "string \<Rightarrow> string \<Rightarrow> demo_handler \<Rightarrow> demo_handler \<times> unit result" where
  "record_change path val h =
     (if \<exists>e \<in> set (dh_monitored_paths h). startswith path e then
        (let h1 = h\<lparr>dh_change_db := dh_change_db h @ [(path, val)]\<rparr>;
             a = dh_adapter h
         in if path \<in> set (dict_keys (da_db a)) then
              (h1\<lparr>dh_adapter := a\<lparr>da_db := AList.update path val (da_db a)\<rparr>\<rparr>, Inr ())
            else if path \<in> set (dict_keys (da_state_db a)) then
              (h1\<lparr>dh_adapter := a\<lparr>da_state_db := AList.update path val (da_state_db a)\<rparr>\<rparr>, Inr ())
            else (h1, Inl AssertionError))
      else (h, Inr ()))"

text \<open>The loop over one list of changes: what it leaves in the state, and the flag \<open>send\<close>.\<close>

fun apply_changes :: "change list \<Rightarrow> demo_handler \<Rightarrow> demo_handler \<times> bool result" where
  "apply_changes [] h = (h, Inr False)"
| "apply_changes (ChStr s # cs) h =
     (h, if s = ''send'' \<or> s = ''break'' then Inr (s = ''send'') else Inl AssertionError)"
| "apply_changes (ChNone # cs) h = (h, Inl TypeError)"
| "apply_changes (ChPath path val # cs) h =
     (case slash_path path of
        Inl e \<Rightarrow> (h, Inl e)
      | Inr p \<Rightarrow>
          (case record_change p val h of
             (h1, Inl e) \<Rightarrow> (h1, Inl e)
           | (h1, Inr _) \<Rightarrow> apply_changes cs h1))"

definition put_change_event :: "change_event \<Rightarrow> demo_handler \<Rightarrow> demo_handler result" where
  "put_change_event ev h =
     (case dh_change_event_queue h of
        None \<Rightarrow> Inl AttributeError
      | Some q \<Rightarrow> Inr (h\<lparr>dh_change_event_queue := Some (q @ [ev])\<rparr>))"

definition next_changes :: "demo_handler \<Rightarrow> demo_handler \<times> change list result" where
  "next_changes h =
     (if da_changes (dh_adapter h) \<noteq> None
      then (let (a, r) = get_config_changes (dh_adapter h) in (h\<lparr>dh_adapter := a\<rparr>, r))
      else get_random_changes h)"

text \<open>The event \<open>ADD\<close>.\<close>

definition process_add :: "demo_handler \<Rightarrow> demo_handler \<times> unit result" where
  "process_add h =
     (case next_changes h of
        (h1, Inl e) \<Rightarrow> (h1, Inl e)
      | (h1, Inr cs) \<Rightarrow>
          (case apply_changes cs h1 of
             (h2, Inl e) \<Rightarrow> (h2, Inl e)
           | (h2, Inr send) \<Rightarrow>
               if send \<and> length (dh_change_db h2) > 0
               then (case put_change_event SEND h2 of Inl e \<Rightarrow> (h2, Inl e) | Inr h3 \<Rightarrow> (h3, Inr ()))
               else (h2, Inr ())))"

definition died :: "demo_handler \<Rightarrow> py_error \<Rightarrow> demo_handler" where
  "died h e = h\<lparr>dh_change_thread := Some (Died e)\<rparr>"

text \<open>The event \<open>event\<close>, already taken from the queue.\<close>

fun process_event :: "change_event \<Rightarrow> demo_handler \<Rightarrow> demo_handler" where
  "process_event ADD h =
     (case process_add h of (h1, Inl e) \<Rightarrow> died h1 e | (h1, Inr _) \<Rightarrow> h1)"
| "process_event SEND h =
     (case put_event SEND_CHANGES h of Inl e \<Rightarrow> died h e | Inr h1 \<Rightarrow> h1)"
| "process_event FINISH_CHANGES h = h\<lparr>dh_change_thread := Some Ended\<rparr>"

text \<open>The handler of \<open>Empty\<close>: nothing came within a second.\<close>

definition process_timeout :: "demo_handler \<Rightarrow> demo_handler" where
  "process_timeout h =
     (let (skip, h1) =
        (if dh_add_count h = 0 then
           (let (r, a) = randint 1 (dh_adapter h)
            in (r = 0, h\<lparr>dh_add_count := 1, dh_adapter := a\<rparr>))
         else (False, h))
      in if skip then h1
         else (case put_change_event ADD (h1\<lparr>dh_add_count := 0\<rparr>) of
                 Inl e \<Rightarrow> died (h1\<lparr>dh_add_count := 0\<rparr>) e
               | Inr h2 \<Rightarrow> h2))"

definition process_start :: "demo_handler \<Rightarrow> demo_handler" where
  "process_start h =
     (if dh_change_event_queue h = None \<or> length (dh_change_db h) \<noteq> 0 then died h AssertionError
      else h\<lparr>dh_change_thread := Some Looping, dh_add_count := 0\<rparr>)"

text \<open>
  One pass of the thread: the start of \<open>process_changes\<close>, an event from the queue, or, with an
  empty queue, the timeout.
\<close>

definition thread_step :: "demo_handler \<Rightarrow> demo_handler" where
  "thread_step h =
     (case dh_change_thread h of
        Some Starting \<Rightarrow> process_start h
      | Some Looping \<Rightarrow>
          (case dh_change_event_queue h of
             None \<Rightarrow> died h AttributeError
           | Some [] \<Rightarrow> process_timeout h
           | Some (ev # q) \<Rightarrow> process_event ev (h\<lparr>dh_change_event_queue := Some q\<rparr>))
      | _ \<Rightarrow> h)"

section \<open>Monitoring\<close>

definition demo_add_path_for_monitoring :: "demo_handler \<Rightarrow> gnmi_path \<Rightarrow> gnmi_path \<Rightarrow> demo_handler result" where
  "demo_add_path_for_monitoring h path pfx =
     (let h1 = (if dh_change_event_queue h = None then h\<lparr>dh_change_event_queue := Some []\<rparr> else h)
      in Inr (h1\<lparr>dh_monitored_paths :=
           dh_monitored_paths h @ [nsless_xpath (make_xpath_path (Some path) (Some pfx) False)]\<rparr>))"

definition demo_start_monitoring :: "demo_handler \<Rightarrow> demo_handler result" where
  "demo_start_monitoring h =
     (if dh_change_thread h \<noteq> None then Inl AssertionError
      else Inr (h\<lparr>dh_change_thread := Some Starting\<rparr>))"

text \<open>
  \<open>join\<close>: the thread runs until it ends. While it does, the queue is not empty, so it takes one
  event per pass; \<open>n\<close> passes are enough, one per event in the queue and one to start
  (\<open>join_ends\<close> below).
\<close>

fun join_thread :: "nat \<Rightarrow> demo_handler \<Rightarrow> demo_handler" where
  "join_thread 0 h = h"
| "join_thread (Suc n) h = join_thread n (thread_step h)"

definition queue_len :: "demo_handler \<Rightarrow> nat" where
  "queue_len h = (case dh_change_event_queue h of None \<Rightarrow> 0 | Some q \<Rightarrow> length q)"

definition demo_stop_monitoring :: "demo_handler \<Rightarrow> demo_handler result" where
  "demo_stop_monitoring h =
     (if dh_change_thread h = None then Inr (h\<lparr>dh_monitored_paths := []\<rparr>)
      else rbind (put_change_event FINISH_CHANGES h) (\<lambda>h1.
        let h2 = join_thread (queue_len h1 + 1) h1
        in if dh_change_event_queue h2 \<noteq> Some [] then Inl AssertionError
           else Inr (h2\<lparr>dh_change_thread := None, dh_change_event_queue := None,
                        dh_monitored_paths := []\<rparr>)))"

definition demo_ops :: "demo_handler handler_ops" where
  "demo_ops =
     \<lparr>op_get_sample = demo_get_sample,
      op_add_path_for_monitoring = demo_add_path_for_monitoring,
      op_get_subscription_notifications = base_get_subscription_notifications get_monitored_changes,
      op_start_monitoring = demo_start_monitoring,
      op_stop_monitoring = demo_stop_monitoring\<rparr>"

lemma demo_ops_sel [simp]:
  "op_get_sample demo_ops = demo_get_sample"
  "op_add_path_for_monitoring demo_ops = demo_add_path_for_monitoring"
  "op_get_subscription_notifications demo_ops = base_get_subscription_notifications get_monitored_changes"
  "op_start_monitoring demo_ops = demo_start_monitoring"
  "op_stop_monitoring demo_ops = demo_stop_monitoring"
  by (simp_all add: demo_ops_def)

section \<open>Lemmas on the change thread\<close>

lemma dict_keys_update:
  "k \<in> set (dict_keys d) \<Longrightarrow> dict_keys (AList.update k v d) = dict_keys d"
  by (induction d) (auto simp: dict_keys_def)

text \<open>
  What a list of changes does to the handler: it appends to \<open>change_db\<close>, keeps the keys of both
  databases and touches nothing else.
\<close>

definition same_keys :: "demo_adapter \<Rightarrow> demo_adapter \<Rightarrow> bool" where
  "same_keys a b \<longleftrightarrow> dict_keys (da_db a) = dict_keys (da_db b) \<and>
     dict_keys (da_state_db a) = dict_keys (da_state_db b)"

lemma same_keys_refl [simp]: "same_keys a a"
  by (simp add: same_keys_def)

lemma same_keys_trans: "same_keys a b \<Longrightarrow> same_keys b c \<Longrightarrow> same_keys a c"
  by (simp add: same_keys_def)

lemma same_keys_sel [simp]:
  "same_keys a (b\<lparr>da_changes_idx := i\<rparr>) = same_keys a b"
  "same_keys a (b\<lparr>da_rnd_idx := i\<rparr>) = same_keys a b"
  by (simp_all add: same_keys_def)

definition appends :: "demo_handler \<Rightarrow> demo_handler \<Rightarrow> bool" where
  "appends h h' \<longleftrightarrow> (\<exists>a cs. h' = h\<lparr>dh_adapter := a, dh_change_db := dh_change_db h @ cs\<rparr> \<and>
     same_keys (dh_adapter h) a)"

lemma appends_refl: "appends h h"
  unfolding appends_def by (rule exI [of _ "dh_adapter h"], rule exI [of _ "[]"]) simp

lemma appends_trans:
  assumes "appends h1 h2" and "appends h2 h3"
  shows "appends h1 h3"
proof -
  from assms obtain a cs b ds where
    "h2 = h1\<lparr>dh_adapter := a, dh_change_db := dh_change_db h1 @ cs\<rparr>" "same_keys (dh_adapter h1) a"
    "h3 = h2\<lparr>dh_adapter := b, dh_change_db := dh_change_db h2 @ ds\<rparr>" "same_keys (dh_adapter h2) b"
    by (auto simp: appends_def)
  then show ?thesis
    unfolding appends_def
    by (intro exI [of _ b] exI [of _ "cs @ ds"]) (auto intro: same_keys_trans)
qed

lemma appends_adapter:
  "same_keys (dh_adapter h) a \<Longrightarrow> appends h (h\<lparr>dh_adapter := a\<rparr>)"
  unfolding appends_def by (rule exI [of _ a], rule exI [of _ "[]"]) simp

lemma appends_one:
  "same_keys (dh_adapter h) a \<Longrightarrow>
     appends h (h\<lparr>dh_change_db := dh_change_db h @ [c], dh_adapter := a\<rparr>)"
  unfolding appends_def by (rule exI [of _ a], rule exI [of _ "[c]"]) simp

lemma appends_change_db:
  "appends h (h\<lparr>dh_change_db := dh_change_db h @ [c]\<rparr>)"
  using appends_one [OF same_keys_refl, of h c] by simp

lemma record_change_appends: "appends h (fst (record_change path val h))"
  by (simp add: record_change_def Let_def appends_refl appends_one appends_change_db
      same_keys_def dict_keys_update)

lemma apply_changes_appends: "appends h (fst (apply_changes cs h))"
proof (induction cs h rule: apply_changes.induct)
  case (4 path val cs h)
  show ?case
  proof (cases "slash_path path")
    case (Inr p)
    obtain h1 r where rc: "record_change p val h = (h1, r)" by fastforce
    have h1: "appends h h1" using record_change_appends [of h p val] rc by simp
    show ?thesis
    proof (cases r)
      case (Inr u)
      from "4.IH" [OF \<open>slash_path path = Inr p\<close> rc [symmetric] Inr] h1 show ?thesis
        using \<open>slash_path path = Inr p\<close> rc Inr by (auto intro: appends_trans)
    qed (use \<open>slash_path path = Inr p\<close> rc h1 in simp)
  qed (simp add: appends_refl)
qed (simp_all add: appends_refl)

text \<open>Drawing random numbers.\<close>

lemma rnd_next_keys: "rnd_next a = (r, a1) \<Longrightarrow> a1 = a\<lparr>da_rnd_idx := da_rnd_idx a1\<rparr>"
  by (auto simp: rnd_next_def)

lemma randint_keys: "randint hi a = (r, a1) \<Longrightarrow> a1 = a\<lparr>da_rnd_idx := da_rnd_idx a1\<rparr> \<and> r \<le> hi"
  by (auto simp: randint_def rnd_next_def less_Suc_eq_le [symmetric])

lemma rnd_sample_spec:
  "rnd_sample pop k a = (xs, a1) \<Longrightarrow> k \<le> length pop \<Longrightarrow>
     length xs = k \<and> mset xs \<subseteq># mset pop \<and> a1 = a\<lparr>da_rnd_idx := da_rnd_idx a1\<rparr>"
proof (induction pop k a arbitrary: xs rule: rnd_sample.induct)
  case (2 pop k a)
  let ?i = "da_rnd a (da_rnd_idx a) mod length pop"
  have i: "?i < length pop" using "2.prems"(2) by (intro mod_less_divisor) linarith
  let ?rest = "take ?i pop @ drop (Suc ?i) pop"
  obtain ys where ys: "rnd_sample ?rest k (a\<lparr>da_rnd_idx := da_rnd_idx a + 1\<rparr>) = (ys, a1)"
    and xs: "xs = pop ! ?i # ys"
    using "2.prems"(1) by (auto simp: rnd_next_def Let_def split: prod.splits)
  have "length ys = k \<and> mset ys \<subseteq># mset ?rest \<and>
      a1 = a\<lparr>da_rnd_idx := da_rnd_idx a + 1\<rparr>\<lparr>da_rnd_idx := da_rnd_idx a1\<rparr>"
    by (rule "2.IH" [OF _ refl refl ys]) (use "2.prems"(2) i in \<open>simp_all add: rnd_next_def\<close>)
  moreover have "mset pop = add_mset (pop ! ?i) (mset ?rest)"
    using id_take_nth_drop [OF i] by (metis mset_append mset.simps(2) union_mset_add_mset_right)
  ultimately show ?case using xs by simp
qed auto

lemma get_random_changes_appends: "appends h (fst (get_random_changes h))"
proof -
  obtain ps a1 where s: "rnd_sample (candidate_paths h) (min (length (candidate_paths h)) 4) (dh_adapter h) = (ps, a1)"
    by fastforce
  obtain r a2 where t: "randint 9 a1 = (r, a2)" by fastforce
  have "a1 = (dh_adapter h)\<lparr>da_rnd_idx := da_rnd_idx a1\<rparr>" using rnd_sample_spec [OF s] by simp
  then have k1: "same_keys (dh_adapter h) a1" by (metis same_keys_refl same_keys_sel(2))
  then have k2: "same_keys (dh_adapter h) a2" using randint_keys [OF t] by (metis same_keys_sel(2))
  show ?thesis
    by (simp add: get_random_changes_def s t k1 k2 appends_adapter split: sum.splits)
qed

lemma get_config_changes_keys: "same_keys a (fst (get_config_changes a))"
  by (simp add: get_config_changes_def Let_def split: option.splits)

lemma next_changes_appends: "appends h (fst (next_changes h))"
  using get_random_changes_appends [of h] get_config_changes_keys [of "dh_adapter h"]
  by (auto simp: next_changes_def appends_adapter split: prod.splits)

text \<open>
  One event of the thread: the queue of the thread only grows, by at most one \<open>SEND\<close>, and only
  \<open>SEND\<close> writes to the queue of \<open>read\<close>.
\<close>

lemma appends_frame:
  assumes "appends h h'"
  shows "sh_subscription_list h' = sh_subscription_list h" and "sh_read_queue h' = sh_read_queue h"
    and "dh_monitored_paths h' = dh_monitored_paths h" and "dh_change_thread h' = dh_change_thread h"
    and "dh_change_event_queue h' = dh_change_event_queue h"
    and "same_keys (dh_adapter h) (dh_adapter h')"
    and "\<exists>cs. dh_change_db h' = dh_change_db h @ cs"
  using assms by (auto simp: appends_def)

definition puts :: "change_event list \<Rightarrow> demo_handler \<Rightarrow> demo_handler" where
  "puts evs h = h\<lparr>dh_change_event_queue := map_option (\<lambda>q. q @ evs) (dh_change_event_queue h)\<rparr>"

lemma puts_Nil [simp]: "puts [] h = h"
  by (cases h) (simp add: puts_def option.map_ident)

lemma puts_frame [simp]:
  "sh_subscription_list (puts evs h) = sh_subscription_list h"
  "sh_read_queue (puts evs h) = sh_read_queue h"
  "dh_monitored_paths (puts evs h) = dh_monitored_paths h"
  "dh_change_thread (puts evs h) = dh_change_thread h"
  "dh_adapter (puts evs h) = dh_adapter h"
  "dh_change_db (puts evs h) = dh_change_db h"
  "dh_change_event_queue (puts evs h) = map_option (\<lambda>q. q @ evs) (dh_change_event_queue h)"
  by (simp_all add: puts_def)

lemma put_change_event_puts:
  "put_change_event ev h = Inr h' \<Longrightarrow> h' = puts [ev] h"
  by (auto simp: put_change_event_def puts_def split: option.splits)

lemma process_add_appends:
  "\<exists>h1 evs. appends h h1 \<and> fst (process_add h) = puts evs h1 \<and>
     (evs = [] \<or> evs = [SEND] \<and> dh_change_db h1 \<noteq> [])"
proof -
  obtain h1 r1 where n: "next_changes h = (h1, r1)" by fastforce
  have a1: "appends h h1" using next_changes_appends [of h] n by simp
  show ?thesis
  proof (cases r1)
    case (Inl e)
    with n a1 show ?thesis by (intro exI [of _ h1] exI [of _ "[]"]) (simp add: process_add_def)
  next
    case (Inr cs)
    obtain h2 r2 where c: "apply_changes cs h1 = (h2, r2)" by fastforce
    have a2: "appends h h2"
      using appends_trans [OF a1 apply_changes_appends [of h1 cs]] c by simp
    show ?thesis
    proof (cases "r2 = Inr True \<and> dh_change_db h2 \<noteq> [] \<and> (\<exists>h3. put_change_event SEND h2 = Inr h3)")
      case True
      with n c Inr have "fst (process_add h) = puts [SEND] h2"
        by (auto simp: process_add_def dest: put_change_event_puts)
      with a2 True show ?thesis by blast
    next
      case False
      with n c Inr have "fst (process_add h) = puts [] h2"
        by (auto simp: process_add_def split: sum.splits)
      with a2 show ?thesis by blast
    qed
  qed
qed

text \<open>
  The thread runs: an event that is not the last one leaves it in its loop or ends it with an
  exception, and adds at most one event at the end of the queue.
\<close>

definition running :: "demo_handler \<Rightarrow> bool" where
  "running h \<longleftrightarrow> dh_change_thread h \<in> {Some Starting, Some Looping}"

lemma process_event_queue:
  assumes "dh_change_event_queue h = Some q"
  shows "\<exists>evs. dh_change_event_queue (process_event ev h) = Some (q @ evs) \<and> set evs \<subseteq> {SEND}"
proof (cases ev)
  case ADD
  from process_add_appends [of h] obtain h1 evs where
    "appends h h1" and "fst (process_add h) = puts evs h1" and "set evs \<subseteq> {SEND}"
    by fastforce
  with assms appends_frame(5) ADD show ?thesis
    by (auto simp: died_def split: prod.splits sum.splits)
qed (use assms in \<open>auto simp: put_event_def died_def split: option.splits\<close>)

lemma process_event_thread:
  assumes "dh_change_thread h = Some Looping" and "ev \<noteq> FINISH_CHANGES"
  shows "dh_change_thread (process_event ev h) = Some Looping \<or>
     (\<exists>e. dh_change_thread (process_event ev h) = Some (Died e))"
proof (cases ev)
  case ADD
  from process_add_appends [of h] obtain h1 evs where
    "appends h h1" and "fst (process_add h) = puts evs h1" by fastforce
  with assms appends_frame(4) ADD show ?thesis
    by (auto simp: died_def split: prod.splits sum.splits)
qed (use assms in \<open>auto simp: put_event_def died_def split: option.splits\<close>)

lemma thread_step_idle: "\<not> running h \<Longrightarrow> thread_step h = h"
  by (auto simp: running_def thread_step_def split: option.splits thread_status.splits)

lemma join_idle: "\<not> running h \<Longrightarrow> join_thread n h = h"
  by (induction n) (simp_all add: thread_step_idle)

text \<open>The bound in \<open>demo_stop_monitoring\<close> is enough: the thread has ended.\<close>

lemma join_looping:
  "dh_change_thread h = Some Looping \<Longrightarrow> dh_change_event_queue h = Some (q @ FINISH_CHANGES # rest) \<Longrightarrow>
     \<not> running (join_thread (Suc (length q)) h)"
proof (induction q arbitrary: h rest)
  case Nil
  then show ?case by (simp add: thread_step_def running_def)
next
  case (Cons ev q)
  let ?h = "h\<lparr>dh_change_event_queue := Some (q @ FINISH_CHANGES # rest)\<rparr>"
  have step: "thread_step h = process_event ev ?h"
    using Cons.prems by (simp add: thread_step_def)
  obtain evs where q: "dh_change_event_queue (process_event ev ?h) = Some (q @ FINISH_CHANGES # rest @ evs)"
    using process_event_queue [of ?h "q @ FINISH_CHANGES # rest" ev] by auto
  show ?case
  proof (cases "dh_change_thread (process_event ev ?h) = Some Looping")
    case True
    from Cons.IH [OF True q] step show ?thesis by simp
  next
    case False
    then have "\<not> running (process_event ev ?h)"
      using process_event_thread [of ?h ev] Cons.prems by (cases ev) (auto simp: running_def)
    with step show ?thesis by (simp add: join_idle thread_step_idle)
  qed
qed

section \<open>The handler as an instance of the generator's interface\<close>

interpretation demo: monitor_lifecycle demo_ops "\<lambda>h. dh_change_thread h \<noteq> None"
proof unfold_locales
  show "(dh_change_thread s' \<noteq> None) = (dh_change_thread s \<noteq> None)"
    if "op_add_path_for_monitoring demo_ops s p pfx = Inr s'" for s p pfx s'
    using that by (auto simp: demo_add_path_for_monitoring_def Let_def split: if_splits)
  show "op_start_monitoring demo_ops s \<noteq> Inr s'" if "dh_change_thread s \<noteq> None" for s s'
    using that by (auto simp: demo_start_monitoring_def)
  show "dh_change_thread s' \<noteq> None" if "op_start_monitoring demo_ops s = Inr s'" for s s'
    using that by (auto simp: demo_start_monitoring_def split: if_splits)
  show "(dh_change_thread s' \<noteq> None) = (dh_change_thread s \<noteq> None)"
    if "op_get_subscription_notifications demo_ops sl s = Inr (s', ns)" for sl s s' ns
    using that by (auto simp: base_get_subscription_notifications_def
        get_monitored_changes_def rbind_eq_Inr_iff split: if_splits)
  show "\<not> dh_change_thread s' \<noteq> None" if "op_stop_monitoring demo_ops s = Inr s'" for s s'
    using that by (auto simp: demo_stop_monitoring_def Let_def rbind_eq_Inr_iff
        split: if_splits)
qed

section \<open>Properties of monitoring\<close>

text \<open>
  The change thread of a STREAM subscription: when the generator returns, the thread is
  gone; while the generator waits for an event, the thread object is there.
\<close>

theorem demo_read_lifecycle:
  assumes "is_monitor_changes sl" and "read demo_ops sl q h = (rs, q', h', out)"
  shows "(out = Finished \<longrightarrow> dh_change_thread h' = None) \<and>
     (out = Blocked \<longrightarrow> dh_change_thread h' \<noteq> None)"
  using demo.read_lifecycle [OF assms(2,1)] by simp

text \<open>A STREAM subscription for the examples.\<close>

definition stream_sl :: subscription_list where
  "stream_sl = \<lparr>sl_prefix = root_prefix ''interfaces'', sl_paths = [type_path ''if_1''],
     sl_mode = STREAM, sl_encoding = JSON_IETF\<rparr>"

lemma demo_read_lifecycle_witness:
  "\<exists>rs q' h'. read demo_ops stream_sl [] (demo_handler_init (adapter_of one_if) stream_sl) =
     (rs, q', h', Blocked) \<and> dh_change_thread h' \<noteq> None"
proof -
  obtain rs q' h' out where r: "read demo_ops stream_sl []
      (demo_handler_init (adapter_of one_if) stream_sl) = (rs, q', h', out)"
    by (rule prod_cases4)
  moreover have "snd (snd (snd (read demo_ops stream_sl []
      (demo_handler_init (adapter_of one_if) stream_sl)))) = Blocked"
    by code_simp
  ultimately show ?thesis
    using demo_read_lifecycle [OF _ r] by (simp add: stream_sl_def is_monitor_changes_def)
qed

text \<open>
  Stopping while the thread is in its loop and only \<open>SEND\<close> events wait: every one of them
  reaches the queue of \<open>read\<close>, the thread is joined with its queue empty, and the handler is
  ready for a new start.
\<close>

theorem demo_stop_monitoring_drains:
  assumes "dh_change_thread h = Some Looping"
    and "dh_change_event_queue h = Some (replicate k SEND)" and "sh_read_queue h = Some rq"
  shows "demo_stop_monitoring h =
     Inr (h\<lparr>sh_read_queue := Some (rq @ replicate k SEND_CHANGES), dh_change_thread := None,
            dh_change_event_queue := None, dh_monitored_paths := []\<rparr>)"
proof -
  have join: "join_thread (k + 2) g =
      g\<lparr>sh_read_queue := Some (q @ replicate k SEND_CHANGES), dh_change_thread := Some Ended,
        dh_change_event_queue := Some []\<rparr>"
    if "dh_change_thread g = Some Looping" "sh_read_queue g = Some q"
      "dh_change_event_queue g = Some (replicate k SEND @ [FINISH_CHANGES])" for g k q
    using that
  proof (induction k arbitrary: g q)
    case 0
    then show ?case
      by (cases g) (simp add: thread_step_def)
  next
    case (Suc k)
    let ?g = "g\<lparr>dh_change_event_queue := Some (replicate k SEND @ [FINISH_CHANGES]),
                sh_read_queue := Some (q @ [SEND_CHANGES])\<rparr>"
    have "thread_step g = ?g" using Suc.prems by (simp add: thread_step_def put_event_def)
    moreover have "join_thread (k + 2) ?g =
        ?g\<lparr>sh_read_queue := Some ((q @ [SEND_CHANGES]) @ replicate k SEND_CHANGES),
           dh_change_thread := Some Ended, dh_change_event_queue := Some []\<rparr>"
      by (rule Suc.IH) (use Suc.prems in simp_all)
    ultimately show ?case by simp
  qed
  have "put_change_event FINISH_CHANGES h =
      Inr (h\<lparr>dh_change_event_queue := Some (replicate k SEND @ [FINISH_CHANGES])\<rparr>)"
    using assms(2) by (simp add: put_change_event_def)
  with join [of "h\<lparr>dh_change_event_queue := Some (replicate k SEND @ [FINISH_CHANGES])\<rparr>" rq k] assms
  show ?thesis by (simp add: demo_stop_monitoring_def queue_len_def Let_def)
qed

lemma demo_stop_monitoring_drains_witness:
  "dh_change_event_queue (projr (demo_stop_monitoring
     ((demo_handler_init (adapter_of one_if) stream_sl)
        \<lparr>dh_change_thread := Some Looping, dh_change_event_queue := Some [SEND, SEND]\<rparr>))) = None"
  using demo_stop_monitoring_drains [of "(demo_handler_init (adapter_of one_if) stream_sl)
        \<lparr>dh_change_thread := Some Looping, dh_change_event_queue := Some [SEND, SEND]\<rparr>" 2 "[]"]
  by (simp add: numeral_2_eq_2 demo_handler_init_def handler_init_def is_once_def stream_sl_def)

text \<open>
  Stopping while an \<open>ADD\<close> event waits whose changes end with \<open>send\<close>: the thread puts its \<open>SEND\<close>
  behind the \<open>FINISH\<close> of the stop and ends without taking it, so \<open>stop_monitoring\<close> fails on its own
  assertion that the queue is empty, and the end of the subscription raises.
\<close>

theorem demo_stop_monitoring_race:
  assumes "dh_change_thread h = Some Looping" and "dh_change_event_queue h = Some [ADD]"
    and "da_changes (dh_adapter h) = Some (ChPath (CHR ''/'' # p) v # ChStr ''send'' # cs)"
    and "da_changes_idx (dh_adapter h) = 0"
    and "\<exists>e \<in> set (dh_monitored_paths h). startswith (CHR ''/'' # p) e"
    and "CHR ''/'' # p \<in> set (dict_keys (da_db (dh_adapter h)))"
  shows "demo_stop_monitoring h = Inl AssertionError"
proof -
  have put: "put_change_event FINISH_CHANGES h =
      Inr (h\<lparr>dh_change_event_queue := Some [ADD, FINISH_CHANGES]\<rparr>)"
    using assms(2) by (simp add: put_change_event_def)
  let ?h = "h\<lparr>dh_change_event_queue := Some [ADD, FINISH_CHANGES]\<rparr>"
  obtain g where "thread_step ?h = g" and "dh_change_thread g = Some Looping"
    and "dh_change_event_queue g = Some [FINISH_CHANGES, SEND]"
    using assms
    by (simp add: thread_step_def process_add_def next_changes_def get_config_changes_def
        record_change_def put_change_event_def Let_def)
  then have "dh_change_event_queue (join_thread 3 ?h) = Some [SEND]"
    by (simp add: numeral_3_eq_3 thread_step_def [of g] thread_step_def [of "_\<lparr>dh_change_thread := _\<rparr>"])
  with put assms(1) show ?thesis
    by (simp add: demo_stop_monitoring_def queue_len_def numeral_3_eq_3)
qed

lemma demo_stop_monitoring_race_witness:
  "demo_stop_monitoring ((demo_handler_init ((adapter_of one_if)
      \<lparr>da_changes := Some [ChPath ''/interfaces/interface[name=if_1]/type'' ''fast'', ChStr ''send'']\<rparr>) stream_sl)
      \<lparr>dh_change_thread := Some Looping, dh_change_event_queue := Some [ADD],
       dh_monitored_paths := [''/interfaces'']\<rparr>) = Inl AssertionError"
  by (rule demo_stop_monitoring_race
        [where p = "''interfaces/interface[name=if_1]/type''" and v = "''fast''" and cs = "[]"])
    (simp_all add: demo_handler_init_def adapter_of_def one_if_def dict_keys_def iface_path_def)

section \<open>Properties of the simulated changes\<close>

lemma config_batch_split:
  "\<exists>rest. cs = config_batch cs @ rest"
  by (induction cs) auto

lemma config_batch_nonempty: "cs \<noteq> [] \<Longrightarrow> config_batch cs \<noteq> []"
  by (cases cs) auto

text \<open>The batches of \<open>n\<close> calls, one after the other.\<close>

fun config_run :: "nat \<Rightarrow> demo_adapter \<Rightarrow> demo_adapter \<times> change list" where
  "config_run 0 a = (a, [])"
| "config_run (Suc n) a =
     (case get_config_changes a of
        (a1, Inl e) \<Rightarrow> (a1, [])
      | (a1, Inr batch) \<Rightarrow> (let (a2, rest) = config_run n a1 in (a2, batch @ rest)))"

lemma config_run_from:
  "da_changes a = Some cs \<Longrightarrow> da_changes_idx a \<le> length cs \<Longrightarrow>
     \<exists>n \<le> length cs - da_changes_idx a.
       config_run n a = (a\<lparr>da_changes_idx := length cs\<rparr>, drop (da_changes_idx a) cs)"
proof (induction "length cs - da_changes_idx a" arbitrary: a rule: less_induct)
  case less
  let ?i = "da_changes_idx a"
  show ?case
  proof (cases "?i = length cs")
    case True
    then have "a\<lparr>da_changes_idx := length cs\<rparr> = a" by (cases a) simp
    with True show ?thesis by (intro exI [of _ 0]) simp
  next
    case False
    let ?b = "config_batch (drop ?i cs)"
    let ?a = "a\<lparr>da_changes_idx := ?i + length ?b\<rparr>"
    from False less.prems have i: "?i < length cs" by simp
    obtain rest where rest: "drop ?i cs = ?b @ rest" using config_batch_split by blast
    obtain m where b: "length ?b = Suc m"
      using i config_batch_nonempty [of "drop ?i cs"] by (cases ?b) auto
    have len: "length ?b + length rest = length cs - ?i"
      using arg_cong [OF rest, of length] by simp
    have call: "get_config_changes a = (?a, Inr ?b)"
      using less.prems i by (simp add: get_config_changes_def Let_def)
    have "\<exists>n \<le> length cs - da_changes_idx ?a.
        config_run n ?a = (?a\<lparr>da_changes_idx := length cs\<rparr>, drop (da_changes_idx ?a) cs)"
      by (rule less.hyps) (use less.prems i b len in simp_all)
    then obtain n where n: "n \<le> length cs - (?i + length ?b)"
      and run: "config_run n ?a = (a\<lparr>da_changes_idx := length cs\<rparr>, drop (?i + length ?b) cs)"
      by auto
    have "?b @ drop (?i + length ?b) cs = drop ?i cs"
      using rest by (metis add.commute append_eq_conv_conj drop_drop)
    then have "config_run (Suc n) a = (a\<lparr>da_changes_idx := length cs\<rparr>, drop ?i cs)"
      using call run by simp
    with n b i show ?thesis by (intro exI [of _ "Suc n"]) simp
  qed
qed

text \<open>
  The configured changes are replayed completely and in order: from the start of the list, some
  number of calls, at most one per element, returns exactly the configured list, batch by
  batch, and the next call starts over.
\<close>

theorem config_changes_cycle:
  assumes "da_changes a = Some cs" and "da_changes_idx a = 0"
  shows "\<exists>n \<le> length cs. config_run n a = (a\<lparr>da_changes_idx := length cs\<rparr>, cs) \<and>
     get_config_changes (a\<lparr>da_changes_idx := length cs\<rparr>) = get_config_changes a"
proof -
  have "get_config_changes (a\<lparr>da_changes_idx := length cs\<rparr>) = get_config_changes a"
    using assms by (simp add: get_config_changes_def Let_def)
  with config_run_from [OF assms(1)] assms(2) show ?thesis by auto
qed

lemma config_changes_cycle_witness:
  "\<exists>n \<le> 3. config_run n ((adapter_of one_if)\<lparr>da_changes := Some [ChPath ''/a'' ''x'', ChStr ''send'', ChStr ''break'']\<rparr>) =
     ((adapter_of one_if)\<lparr>da_changes := Some [ChPath ''/a'' ''x'', ChStr ''send'', ChStr ''break''], da_changes_idx := 3\<rparr>,
      [ChPath ''/a'' ''x'', ChStr ''send'', ChStr ''break''])"
  using config_changes_cycle
    [of "(adapter_of one_if)\<lparr>da_changes := Some [ChPath ''/a'' ''x'', ChStr ''send'', ChStr ''break'']\<rparr>"
      "[ChPath ''/a'' ''x'', ChStr ''send'', ChStr ''break'']"]
  by (auto simp: adapter_of_def numeral_3_eq_3)

text \<open>Whether a change falls under a monitored path.\<close>

definition monitored :: "demo_handler \<Rightarrow> string \<times> string \<Rightarrow> bool" where
  "monitored h pv \<longleftrightarrow> (\<exists>e \<in> set (dh_monitored_paths h). startswith (fst pv) e)"

lemma monitored_frame [simp]:
  "monitored (h\<lparr>dh_change_db := db\<rparr>) = monitored h"
  "monitored (h\<lparr>dh_adapter := a\<rparr>) = monitored h"
  by (simp_all add: monitored_def fun_eq_iff)

text \<open>
  A batch of changes to configuration leaves, closed by \<open>send\<close> or \<open>break\<close>: exactly the changes
  below a monitored path are recorded, in order, and assigned in the configuration database;
  everything else in the handler stays as it was, and the changes are to be sent exactly for
  \<open>send\<close>.
\<close>

theorem apply_changes_spec:
  assumes "\<forall>(p, v) \<in> set pvs. startswith p ''/'' \<and> p \<in> set (dict_keys (da_db (dh_adapter h)))"
    and "mark = ''send'' \<or> mark = ''break''"
  shows "apply_changes (map (\<lambda>(p, v). ChPath p v) pvs @ ChStr mark # later) h =
     (h\<lparr>dh_change_db := dh_change_db h @ filter (monitored h) pvs,
        dh_adapter := (dh_adapter h)\<lparr>da_db :=
          fold (\<lambda>(p, v). AList.update p v) (filter (monitored h) pvs) (da_db (dh_adapter h))\<rparr>\<rparr>,
      Inr (mark = ''send''))"
  using assms(1)
proof (induction pvs arbitrary: h)
  case Nil
  then show ?case using assms(2) by (cases h) auto
next
  case (Cons pv pvs)
  obtain p v where pv: "pv = (p, v)" by (cases pv)
  have p: "slash_path p = Inr p" and mem: "p \<in> set (dict_keys (da_db (dh_adapter h)))"
    using Cons.prems pv by (auto dest: startswith_exD)
  show ?case
  proof (cases "monitored h pv")
    case True
    let ?h = "h\<lparr>dh_change_db := dh_change_db h @ [pv],
                dh_adapter := (dh_adapter h)\<lparr>da_db := AList.update p v (da_db (dh_adapter h))\<rparr>\<rparr>"
    have rc: "record_change p v h = (?h, Inr ())"
      using True mem pv by (auto simp: record_change_def monitored_def Let_def)
    have "apply_changes (map (\<lambda>(p, v). ChPath p v) pvs @ ChStr mark # later) ?h =
     (?h\<lparr>dh_change_db := dh_change_db ?h @ filter (monitored ?h) pvs,
        dh_adapter := (dh_adapter ?h)\<lparr>da_db :=
          fold (\<lambda>(p, v). AList.update p v) (filter (monitored ?h) pvs) (da_db (dh_adapter ?h))\<rparr>\<rparr>,
      Inr (mark = ''send''))"
      by (rule Cons.IH) (use Cons.prems mem in \<open>auto simp: dict_keys_update\<close>)
    with True pv p rc show ?thesis by simp
  next
    case False
    then have "record_change p v h = (h, Inr ())"
      using pv by (auto simp: record_change_def monitored_def)
    with False pv p Cons show ?thesis by simp
  qed
qed

lemma apply_changes_spec_witness:
  "let h = (demo_handler_init (adapter_of one_if) stream_sl)\<lparr>dh_monitored_paths := [''/interfaces'']\<rparr>;
       pvs = [(''/interfaces/interface[name=if_1]/type'', ''fast'')]
   in dh_change_db (fst (apply_changes (map (\<lambda>(p, v). ChPath p v) pvs @ ChStr ''send'' # []) h)) = pvs"
proof -
  let ?h = "(demo_handler_init (adapter_of one_if) stream_sl)\<lparr>dh_monitored_paths := [''/interfaces'']\<rparr>"
  let ?pvs = "[(''/interfaces/interface[name=if_1]/type'', ''fast'')]"
  have "\<forall>(p, v) \<in> set ?pvs. startswith p ''/'' \<and> p \<in> set (dict_keys (da_db (dh_adapter ?h)))"
    by (simp add: demo_handler_init_def adapter_of_def one_if_def dict_keys_def iface_path_def)
  from apply_changes_spec [OF this, of "''send''" "[]"]
  have "fst (apply_changes (map (\<lambda>(p, v). ChPath p v) ?pvs @ ChStr ''send'' # []) ?h) =
     ?h\<lparr>dh_change_db := dh_change_db ?h @ filter (monitored ?h) ?pvs,
        dh_adapter := (dh_adapter ?h)\<lparr>da_db :=
          fold (\<lambda>(p, v). AList.update p v) (filter (monitored ?h) ?pvs) (da_db (dh_adapter ?h))\<rparr>\<rparr>"
    by (simp only: fst_conv simp_thms)
  then show ?thesis
    unfolding Let_def by (simp only:) (simp add: monitored_def demo_handler_init_def)
qed

lemma name_to_type:
  assumes "wf_root root" and "wf_ifname n" and "l \<in> {''/name'', ''/type''}"
  shows "py_replace ''/name'' ''/type'' (iface_path root n @ l) = iface_path root n @ ''/type''"
proof -
  have n: "CHR ''/'' \<notin> set (n @ '']'')" using assms(2) by (simp add: wf_ifname_def plain_def)
  have "py_replace ''/name'' ''/type'' ((n @ '']'') @ l) = (n @ '']'') @ ''/type''"
    using assms(3) py_replace_match [of "''/name''" "''/type''" "[]"]
    by (subst py_replace_skip [OF n]) (auto simp: py_replace_Cons)
  then have tail: "py_replace ''/name'' ''/type'' (n @ CHR '']'' # l) = n @ '']/type''" by simp
  from assms(1) consider "root = ''/interfaces''" | "root = ''/interfaces-state''"
    by (auto simp: wf_root_def)
  then show ?thesis
    by cases (simp_all add: iface_path_def py_replace_Cons tail)
qed

lemma candidate_paths_type:
  assumes "wf_ifs ifs" and "da_db (dh_adapter h) = db_of ''/interfaces'' ifs" and "p \<in> set (candidate_paths h)"
  shows "\<exists>n \<in> fst ` set ifs. p = iface_path ''/interfaces'' n @ ''/type''"
proof -
  from assms(2,3) obtain k where "p = py_replace ''/name'' ''/type'' k"
    and "k \<in> set (dict_keys (db_of ''/interfaces'' ifs))"
    by (auto simp: candidate_paths_def)
  then obtain i l where "i \<in> set ifs" "l \<in> {''/name'', ''/type''}"
    and "p = py_replace ''/name'' ''/type'' (iface_path ''/interfaces'' (fst i) @ l)"
    by (auto simp: dict_keys_db_of)
  then show ?thesis
    using name_to_type [of "''/interfaces''" "fst i" l] assms(1) by (auto simp: wf_root_def wf_ifs_def)
qed

lemma distinct_submset: "distinct xs \<Longrightarrow> mset ps \<subseteq># mset xs \<Longrightarrow> distinct ps"
  unfolding distinct_count_atmost_1
proof
  fix x
  assume xs: "\<forall>a. count (mset xs) a = (if a \<in> set xs then 1 else 0)" and "mset ps \<subseteq># mset xs"
  have "count (mset ps) x \<le> count (mset xs) x" by (rule mset_subset_eq_count) fact
  also have "\<dots> \<le> 1" using xs by simp
  finally have le: "count (mset ps) x \<le> 1" .
  show "count (mset ps) x = (if x \<in> set ps then 1 else 0)"
  proof (cases "x \<in> set ps")
    case True
    then have "count (mset ps) x \<noteq> 0" by simp
    with le have "count (mset ps) x = 1" by linarith
    with True show ?thesis by simp
  qed simp
qed

lemma dict_get_mem: "k \<in> set (dict_keys d) \<Longrightarrow> \<exists>v. dict_get d k = Inr v"
  by (force simp: dict_get_def dict_keys_def map_of_eq_None_iff split: option.splits)

text \<open>
  The random changes on a well-formed database never raise: at most four changes, on distinct
  paths, each the type leaf of an existing interface with a value other than the stored one,
  closed by \<open>send\<close> or \<open>break\<close>.
\<close>

theorem get_random_changes_spec:
  assumes "wf_ifs ifs" and "da_db (dh_adapter h) = db_of ''/interfaces'' ifs"
  shows "\<exists>h' pvs mark. get_random_changes h = (h', Inr (map (\<lambda>(p, v). ChPath p v) pvs @ [ChStr mark])) \<and>
     length pvs = min (length (candidate_paths h)) 4 \<and> distinct (map fst pvs) \<and>
     mark \<in> {''send'', ''break''} \<and>
     (\<forall>(p, v) \<in> set pvs. (\<exists>n \<in> fst ` set ifs. p = iface_path ''/interfaces'' n @ ''/type'') \<and>
        dict_get (da_db (dh_adapter h)) p \<noteq> Inr v)"
proof -
  let ?cand = "candidate_paths h"
  let ?new = "\<lambda>v. if v = ''gigabitEthernet'' then ''fastEther'' else ''gigabitEthernet''"
  let ?val = "\<lambda>p. ?new (projr (dict_get (da_db (dh_adapter h)) p))"
  obtain ps a1 where s: "rnd_sample ?cand (min (length ?cand) 4) (dh_adapter h) = (ps, a1)" by fastforce
  from rnd_sample_spec [OF s] have len: "length ps = min (length ?cand) 4"
    and sub: "mset ps \<subseteq># mset ?cand" and a1: "a1 = (dh_adapter h)\<lparr>da_rnd_idx := da_rnd_idx a1\<rparr>"
    by simp_all
  from a1 have db: "da_db a1 = da_db (dh_adapter h)" by (metis demo_adapter.select_convs(1) demo_adapter.surjective demo_adapter.update_convs(6))
  have "distinct ?cand" by (simp add: candidate_paths_def)
  then have dist: "distinct ps" using sub by (rule distinct_submset)
  have ps: "set ps \<subseteq> set ?cand" using sub by (metis set_mset_mono set_mset_mset)
  have get: "\<exists>v. dict_get (da_db (dh_adapter h)) p = Inr v" if "p \<in> set ps" for p
  proof -
    from that ps candidate_paths_type [OF assms] obtain i where "i \<in> set ifs"
      and "p = iface_path ''/interfaces'' (fst i) @ ''/type''" by blast
    then show ?thesis
      using type_key_mem [of "fst i" "fst (snd i)" "snd (snd i)" ifs "''/interfaces''"] dict_get_mem assms(2)
      by (metis prod.collapse)
  qed
  have val: "dict_get (da_db (dh_adapter h)) p \<noteq> Inr (?val p)" if "p \<in> set ps" for p
    using get [OF that] by auto
  have "map_result (\<lambda>path. rbind (dict_get (da_db a1) path) (\<lambda>v. Inr (ChPath path (?new v)))) ps =
      Inr (map (\<lambda>p. ChPath p (?val p)) ps)"
    using get by (intro map_result_Inr_map) (fastforce simp: db)
  moreover obtain r a2 where t: "randint 9 a1 = (r, a2)" by fastforce
  ultimately have "get_random_changes h = (h\<lparr>dh_adapter := a2\<rparr>,
      Inr (map (\<lambda>(p, v). ChPath p v) (map (\<lambda>p. (p, ?val p)) ps) @
           [ChStr (if r < 8 then ''send'' else ''break'')]))"
    by (simp add: get_random_changes_def s t o_def)
  with len dist ps val candidate_paths_type [OF assms] show ?thesis
    by (intro exI [of _ "h\<lparr>dh_adapter := a2\<rparr>"] exI [of _ "map (\<lambda>p. (p, ?val p)) ps"]
        exI [of _ "if r < 8 then ''send'' else ''break''"])
      (auto simp: o_def)
qed

lemma get_random_changes_spec_witness:
  "\<exists>h' pvs mark. get_random_changes ((demo_handler_init (adapter_of one_if) stream_sl)\<lparr>dh_monitored_paths := [''/interfaces'']\<rparr>) =
     (h', Inr (map (\<lambda>(p, v). ChPath p v) pvs @ [ChStr mark])) \<and> mark \<in> {''send'', ''break''}"
  using get_random_changes_spec [OF wf_one_if,
      of "(demo_handler_init (adapter_of one_if) stream_sl)\<lparr>dh_monitored_paths := [''/interfaces'']\<rparr>"]
  by (auto simp: demo_handler_init_def adapter_of_db)

section \<open>The subscription as a system of threads\<close>

text \<open>
  A STREAM subscription after its first sample: the change thread, the \<open>read\<close> generator driven by
  the server, requests of the client that put an event into the queue of \<open>read\<close>, and Set calls
  of any client on the shared database. Every action is atomic, as the locks of the code make
  it. \<open>ds_out\<close> is what the generator yielded, per event, and \<open>ds_recorded\<close> the changes that the thread
  added to \<open>change_db\<close>, over the whole run.
\<close>

record demo_sys =
  ds_handler :: demo_handler
  ds_reader :: read_outcome
  ds_out :: "(sub_event option \<times> subscribe_response list) list"
  ds_recorded :: "(string \<times> string) list"

datatype sys_action = ActThread | ActReader | ActRequest sub_event | ActSet gnmi_path "gnmi_update list"

definition new_changes :: "demo_handler \<Rightarrow> demo_handler \<Rightarrow> (string \<times> string) list" where
  "new_changes h h' = drop (length (dh_change_db h)) (dh_change_db h')"

definition reader_step :: "demo_sys \<Rightarrow> demo_sys option" where
  "reader_step s =
     (let h = ds_handler s; sl = sh_subscription_list h
      in case sh_read_queue h of
           Some (ev # q) \<Rightarrow>
             if ds_reader s = Blocked then
               (case read_iter demo_ops sl False (Some ev) (h\<lparr>sh_read_queue := Some q\<rparr>) of
                  Inl e \<Rightarrow> Some (s\<lparr>ds_handler := h\<lparr>sh_read_queue := Some q\<rparr>, ds_reader := Raised e\<rparr>)
                | Inr (h1, rs, True) \<Rightarrow>
                    Some (s\<lparr>ds_handler := h1, ds_out := ds_out s @ [(Some ev, rs)]\<rparr>)
                | Inr (h1, rs, False) \<Rightarrow>
                    (let (h2, out) = read_end demo_ops sl h1
                     in Some (s\<lparr>ds_handler := h2, ds_reader := out, ds_out := ds_out s @ [(Some ev, rs)],
                               ds_recorded := ds_recorded s @ new_changes h1 h2\<rparr>)))
             else None
         | _ \<Rightarrow> None)"

fun sys_step :: "(typed_value \<Rightarrow> string) \<Rightarrow> sys_action \<Rightarrow> demo_sys \<Rightarrow> demo_sys option" where
  "sys_step fmt ActThread s =
     (let h = thread_step (ds_handler s)
      in Some (s\<lparr>ds_handler := h, ds_recorded := ds_recorded s @ new_changes (ds_handler s) h\<rparr>))"
| "sys_step fmt ActReader s = reader_step s"
| "sys_step fmt (ActRequest ev) s =
     (case put_event ev (ds_handler s) of
        Inl e \<Rightarrow> None | Inr h \<Rightarrow> Some (s\<lparr>ds_handler := h\<rparr>))"
| "sys_step fmt (ActSet pfx ups) s =
     Some (s\<lparr>ds_handler := (ds_handler s)
       \<lparr>dh_adapter := fst (demo_set fmt (dh_adapter (ds_handler s)) pfx ups)\<rparr>\<rparr>)"

definition sys_init :: "demo_adapter \<Rightarrow> subscription_list \<Rightarrow> demo_sys option" where
  "sys_init a sl =
     (case read_iter demo_ops sl True None (demo_handler_init a sl) of
        Inr (h, rs, True) \<Rightarrow>
          Some \<lparr>ds_handler = h, ds_reader = Blocked, ds_out = [(None, rs)], ds_recorded = []\<rparr>
      | _ \<Rightarrow> None)"

inductive demo_reachable ::
  "(typed_value \<Rightarrow> string) \<Rightarrow> demo_adapter \<Rightarrow> subscription_list \<Rightarrow> demo_sys \<Rightarrow> bool"
  for fmt a sl where
  init: "sys_init a sl = Some s \<Longrightarrow> demo_reachable fmt a sl s"
| step: "demo_reachable fmt a sl s \<Longrightarrow> sys_step fmt act s = Some s' \<Longrightarrow> demo_reachable fmt a sl s'"

text \<open>The updates that were sent as changes.\<close>

definition resp_updates :: "subscribe_response \<Rightarrow> gnmi_update list" where
  "resp_updates r = (case r of RespUpdate n \<Rightarrow> n_update n | RespSync b \<Rightarrow> [])"

definition change_updates :: "(sub_event option \<times> subscribe_response list) list \<Rightarrow> gnmi_update list" where
  "change_updates out = concat (map (\<lambda>(ev, rs).
     if ev = Some SEND_CHANGES then concat (map resp_updates rs) else []) out)"

text \<open>What a pass of the thread keeps: the subscription, the changes recorded before, the keys.\<close>

definition extends :: "demo_handler \<Rightarrow> demo_handler \<Rightarrow> bool" where
  "extends h h' \<longleftrightarrow> sh_subscription_list h' = sh_subscription_list h \<and>
     same_keys (dh_adapter h) (dh_adapter h') \<and> prefix (dh_change_db h) (dh_change_db h')"

lemma extends_refl [simp]: "extends h h"
  by (simp add: extends_def)

lemma extends_trans: "extends h1 h2 \<Longrightarrow> extends h2 h3 \<Longrightarrow> extends h1 h3"
  unfolding extends_def using same_keys_trans prefix_order.trans by metis

lemma extends_frame [simp]:
  "extends h (h'\<lparr>dh_change_thread := t\<rparr>) = extends h h'"
  "extends h (h'\<lparr>dh_change_event_queue := q\<rparr>) = extends h h'"
  "extends h (h'\<lparr>dh_monitored_paths := ps\<rparr>) = extends h h'"
  "extends h (h'\<lparr>dh_add_count := k\<rparr>) = extends h h'"
  "extends h (h'\<lparr>sh_read_queue := rq\<rparr>) = extends h h'"
  "extends (h\<lparr>dh_change_event_queue := q\<rparr>) h' = extends h h'"
  "extends h (puts evs h') = extends h h'"
  "extends h (died h' e) = extends h h'"
  by (simp_all add: extends_def puts_def died_def)

lemma appends_extends: "appends h h' \<Longrightarrow> extends h h'"
  by (auto simp: extends_def appends_def)

lemma process_event_extends: "extends h (process_event ev h)"
proof (cases ev)
  case ADD
  from process_add_appends [of h] obtain h1 evs where
    "appends h h1" and "fst (process_add h) = puts evs h1" by blast
  then have "extends h (fst (process_add h))" by (simp add: appends_extends)
  with ADD show ?thesis by (auto split: prod.splits sum.splits)
qed (simp_all add: put_event_def split: option.splits sum.splits)

lemma process_timeout_extends: "extends h (process_timeout h)"
proof -
  have "extends h (h\<lparr>dh_add_count := k, dh_adapter := a\<rparr>)" if "randint 1 (dh_adapter h) = (r, a)" for r a k
  proof -
    have "same_keys (dh_adapter h) a"
      using randint_keys [OF that] by (metis same_keys_refl same_keys_sel(2))
    then show ?thesis by (simp add: extends_def)
  qed
  then show ?thesis
    by (auto simp: process_timeout_def Let_def put_change_event_def split: prod.splits option.splits)
qed

lemma thread_step_extends: "extends h (thread_step h)"
  using process_event_extends [of "h\<lparr>dh_change_event_queue := _\<rparr>"] process_timeout_extends [of h]
  by (auto simp: thread_step_def process_start_def
      split: option.splits thread_status.splits list.splits)

lemma join_thread_extends: "extends h (join_thread n h)"
  by (induction n arbitrary: h) (auto intro: extends_trans thread_step_extends)

lemma read_end_extends: "read_end demo_ops sl h = (h', out) \<Longrightarrow> extends h h'"
  using join_thread_extends [of "h\<lparr>dh_change_event_queue := _\<rparr>"]
  by (auto simp: read_end_def  demo_stop_monitoring_def put_change_event_def Let_def
      simp del: join_thread.simps Suc_eq_plus1 split: if_splits option.splits sum.splits)

lemma extends_new_changes:
  "extends h h' \<Longrightarrow> dh_change_db h' = dh_change_db h @ new_changes h h'"
  by (auto simp: extends_def new_changes_def prefix_def)

text \<open>What the generator does with an event.\<close>

lemma get_monitored_changes_Inr:
  "get_monitored_changes h = Inr (h', us) \<longleftrightarrow> dh_change_db h \<noteq> [] \<and> h' = h\<lparr>dh_change_db := []\<rparr> \<and>
     map_result (change_update (sl_prefix (sh_subscription_list h))) (dh_change_db h) = Inr us"
  by (auto simp: get_monitored_changes_def rbind_eq_Inr_iff)

lemma demo_read_iter_cases:
  assumes "read_iter demo_ops sl False (Some ev) h = Inr (h', rs, go_on)"
  shows "(ev = SAMPLE \<or> ev = FINISH) \<and> h' = h \<or>
     (\<exists>us. ev = SEND_CHANGES \<and> get_monitored_changes h = Inr (h', us) \<and>
        concat (map resp_updates rs) = us)"
  using assms
  by (cases ev)
    (auto simp: read_iter_def changes_def base_get_subscription_notifications_def 
      rbind_eq_Inr_iff resp_updates_def dest: sample_no_start)

text \<open>The invariant: what was sent and what is pending make up what was recorded.\<close>

definition delivered :: "subscription_list \<Rightarrow> demo_sys \<Rightarrow> bool" where
  "delivered sl s \<longleftrightarrow> sh_subscription_list (ds_handler s) = sl \<and>
     (\<exists>sent. ds_recorded s = sent @ dh_change_db (ds_handler s) \<and>
        map_result (change_update (sl_prefix sl)) sent = Inr (change_updates (ds_out s)))"

lemma delivered_thread:
  assumes "delivered sl s" and "extends (ds_handler s) h'"
  shows "delivered sl (s\<lparr>ds_handler := h', ds_recorded := ds_recorded s @ new_changes (ds_handler s) h'\<rparr>)"
  using assms extends_new_changes [OF assms(2)] by (auto simp: delivered_def extends_def)

lemma change_updates_snoc:
  "change_updates (out @ [(ev, rs)]) =
     change_updates out @ (if ev = Some SEND_CHANGES then concat (map resp_updates rs) else [])"
  by (simp add: change_updates_def)

lemma delivered_reader:
  assumes "delivered sl s" and "read_iter demo_ops sl False (Some ev) ((ds_handler s)\<lparr>sh_read_queue := q\<rparr>) = Inr (h1, rs, go_on)"
  shows "delivered sl (s\<lparr>ds_handler := h1, ds_out := ds_out s @ [(Some ev, rs)]\<rparr>)"
  using demo_read_iter_cases [OF assms(2)] assms(1)
  by (auto simp: delivered_def change_updates_snoc get_monitored_changes_Inr map_result_append)

lemma sys_init_Some:
  assumes "sys_init a sl = Some s"
  shows "\<exists>h rs. read_iter demo_ops sl True None (demo_handler_init a sl) = Inr (h, rs, True) \<and>
     s = \<lparr>ds_handler = h, ds_reader = Blocked, ds_out = [(None, rs)], ds_recorded = []\<rparr>"
  using assms by (auto simp: sys_init_def split: sum.splits bool.splits)

lemma sample_loop_demo:
  "sample_loop demo_ops pfx start ps h = Inr (h', us) \<Longrightarrow>
     sh_subscription_list h' = sh_subscription_list h \<and> dh_change_db h' = dh_change_db h \<and>
     dh_adapter h' = dh_adapter h \<and> sh_read_queue h' = sh_read_queue h"
proof (induction ps arbitrary: h us)
  case (Cons p ps)
  then obtain h1 us1 where
    "(if start then op_add_path_for_monitoring demo_ops h p pfx else Inr h) = Inr h1"
    and rest: "sample_loop demo_ops pfx start ps h1 = Inr (h', us1)"
    by (auto simp: rbind_eq_Inr_iff )
  then have "sh_subscription_list h1 = sh_subscription_list h \<and> dh_change_db h1 = dh_change_db h \<and>
      dh_adapter h1 = dh_adapter h \<and> sh_read_queue h1 = sh_read_queue h"
    by (auto simp: demo_add_path_for_monitoring_def Let_def split: if_splits)
  with Cons.IH [OF rest] show ?case by simp
qed simp

lemma sample_demo:
  "sample demo_ops sl start h = Inr (h', r) \<Longrightarrow>
     sh_subscription_list h' = sh_subscription_list h \<and> dh_change_db h' = dh_change_db h \<and>
     dh_adapter h' = dh_adapter h \<and> sh_read_queue h' = sh_read_queue h"
  by (auto simp: sample_def Let_def rbind_eq_Inr_iff  demo_start_monitoring_def
      dest: sample_loop_demo  split: if_splits)

lemma sys_init_handler:
  assumes "sys_init a sl = Some s"
  shows "sh_subscription_list (ds_handler s) = sl" and "dh_change_db (ds_handler s) = []"
    and "dh_adapter (ds_handler s) = a" and "ds_recorded s = []" and "ds_reader s = Blocked"
    and "sh_read_queue (ds_handler s) = sh_read_queue (handler_init sl)"
    and "change_updates (ds_out s) = []"
proof -
  from sys_init_Some [OF assms] obtain h rs r where s:
      "s = \<lparr>ds_handler = h, ds_reader = Blocked, ds_out = [(None, rs)], ds_recorded = []\<rparr>"
    and "sample demo_ops sl (is_monitor_changes sl) (demo_handler_init a sl) = Inr (h, r)"
    by (auto simp: read_iter_def rbind_eq_Inr_iff)
  from sample_demo [OF this(2)] s show "sh_subscription_list (ds_handler s) = sl"
    and "dh_change_db (ds_handler s) = []"
    and "dh_adapter (ds_handler s) = a" and "ds_recorded s = []" and "ds_reader s = Blocked"
    and "sh_read_queue (ds_handler s) = sh_read_queue (handler_init sl)"
    and "change_updates (ds_out s) = []"
    by (simp_all add: demo_handler_init_def handler_init_def change_updates_def)
qed

lemma delivered_step:
  assumes "delivered sl s" and "sys_step fmt act s = Some s'"
  shows "delivered sl s'"
proof (cases act)
  case ActThread
  with assms delivered_thread [OF assms(1) thread_step_extends] show ?thesis
    by (auto simp: Let_def)
next
  case ActReader
  let ?h = "ds_handler s"
  have sl: "sh_subscription_list ?h = sl" using assms(1) by (simp add: delivered_def)
  from assms(2) ActReader obtain ev q where q: "sh_read_queue ?h = Some (ev # q)" and b: "ds_reader s = Blocked"
    by (auto simp: reader_step_def Let_def split: option.splits list.splits if_splits)
  show ?thesis
  proof (cases "read_iter demo_ops sl False (Some ev) (?h\<lparr>sh_read_queue := Some q\<rparr>)")
    case (Inl e)
    with assms ActReader q b sl show ?thesis by (auto simp: reader_step_def Let_def delivered_def)
  next
    case (Inr r)
    then obtain h1 rs go_on where it:
      "read_iter demo_ops sl False (Some ev) (?h\<lparr>sh_read_queue := Some q\<rparr>) = Inr (h1, rs, go_on)"
      by (cases r) auto
    note d = delivered_reader [OF assms(1) it]
    obtain h2 out where e: "read_end demo_ops sl h1 = (h2, out)" by fastforce
    from delivered_thread [OF d, of h2] read_end_extends [OF e]
    have "delivered sl (s\<lparr>ds_out := ds_out s @ [(Some ev, rs)], ds_handler := h2,
        ds_recorded := ds_recorded s @ new_changes h1 h2\<rparr>)" by simp
    with d e it assms(2) ActReader q b sl show ?thesis
      by (cases go_on) (auto simp: reader_step_def Let_def delivered_def)
  qed
qed (use assms in \<open>auto simp: delivered_def put_event_def split: option.splits\<close>)

text \<open>
  C1. Delivery: in every interleaving of the change thread, the generator, client requests and
  Set calls, the updates that the generator has sent as changes, followed by the changes that
  still wait, are exactly the changes that the thread recorded: none is lost, doubled or moved.
\<close>

theorem demo_changes_delivered:
  assumes "demo_reachable fmt a sl s"
  shows "\<exists>sent. ds_recorded s = sent @ dh_change_db (ds_handler s) \<and>
     map_result (change_update (sl_prefix sl)) sent = Inr (change_updates (ds_out s))"
proof -
  from assms have "delivered sl s"
  proof induction
    case (init s)
    then show ?case by (auto simp: delivered_def sys_init_handler)
  qed (rule delivered_step)
  then show ?thesis by (simp add: delivered_def)
qed

text \<open>Running a list of actions.\<close>

fun sys_run :: "(typed_value \<Rightarrow> string) \<Rightarrow> sys_action list \<Rightarrow> demo_sys \<Rightarrow> demo_sys option" where
  "sys_run fmt [] s = Some s"
| "sys_run fmt (act # acts) s =
     (case sys_step fmt act s of None \<Rightarrow> None | Some s1 \<Rightarrow> sys_run fmt acts s1)"

lemma sys_run_reachable:
  "demo_reachable fmt a sl s \<Longrightarrow> sys_run fmt acts s = Some s' \<Longrightarrow> demo_reachable fmt a sl s'"
  by (induction acts arbitrary: s) (auto split: option.splits intro: demo_reachable.step)

definition run_from_init ::
  "(typed_value \<Rightarrow> string) \<Rightarrow> demo_adapter \<Rightarrow> subscription_list \<Rightarrow> sys_action list \<Rightarrow> demo_sys option" where
  "run_from_init fmt a sl acts =
     (case sys_init a sl of None \<Rightarrow> None | Some s \<Rightarrow> sys_run fmt acts s)"

lemma run_from_init_reachable:
  "run_from_init fmt a sl acts = Some s \<Longrightarrow> demo_reachable fmt a sl s"
  by (auto simp: run_from_init_def split: option.splits intro: sys_run_reachable demo_reachable.init)

text \<open>
  An example: one interface, a configured change that is sent at once, and a thread that runs
  twice through \<open>ADD\<close> and \<open>SEND\<close> before the generator is resumed.
\<close>

definition race_adapter :: demo_adapter where
  "race_adapter = (adapter_of one_if)
     \<lparr>da_changes := Some [ChPath ''/interfaces/interface[name=if_1]/type'' ''fastEther'', ChStr ''send'']\<rparr>"

definition add_and_send :: "sys_action list" where
  "add_and_send = replicate 4 ActThread"

definition race_run :: "nat \<Rightarrow> demo_sys option" where
  "race_run k = run_from_init (\<lambda>_. []) race_adapter stream_sl
     (ActThread # add_and_send @ add_and_send @ replicate k ActReader)"

lemma demo_changes_delivered_witness:
  "\<exists>s sent. race_run 1 = Some s \<and> ds_recorded s = sent @ dh_change_db (ds_handler s) \<and> length sent = 2 \<and>
     map_result (change_update (sl_prefix stream_sl)) sent = Inr (change_updates (ds_out s))"
proof -
  have "map_option (\<lambda>s. (length (ds_recorded s), dh_change_db (ds_handler s))) (race_run 1) = Some (2, [])"
    by code_simp
  then obtain s where s: "race_run 1 = Some s" and len: "length (ds_recorded s) = 2"
    and none: "dh_change_db (ds_handler s) = []"
    by auto
  from demo_changes_delivered [OF run_from_init_reachable [OF s [unfolded race_run_def]]] s len none
  show ?thesis by auto
qed

text \<open>
  The generator can die of its own queue: when the thread has asked twice for its changes to be
  sent before the generator runs, the first request sends all of them and the second one finds
  none, and the assertion in \<open>get_monitored_changes\<close> ends the subscription. The state is reachable
  with one interface and one configured change.
\<close>

theorem demo_second_send_raises:
  "\<exists>s. demo_reachable (\<lambda>_. []) race_adapter stream_sl s \<and> ds_reader s = Raised AssertionError \<and>
     dh_change_thread (ds_handler s) = Some Looping"
proof -
  have "map_option (\<lambda>s. (ds_reader s, dh_change_thread (ds_handler s))) (race_run 2) =
      Some (Raised AssertionError, Some Looping)"
    by code_simp
  then obtain s where s: "race_run 2 = Some s" and "ds_reader s = Raised AssertionError"
    and "dh_change_thread (ds_handler s) = Some Looping"
    by auto
  with run_from_init_reachable [OF s [unfolded race_run_def]] show ?thesis by blast
qed

end
