(* ===== verification/Gnmi_Server.thy ===== *)
theory Gnmi_Server
  imports Gnmi_Demo_Handler
begin

text \<open>
  The gNMI service of \<open>confdgnmi/src/confd_gnmi_server.py\<close>: every RPC of \<open>ConfDgNMIServicer\<close>, over
  the operations of an adapter (record \<open>adapter_ops\<close>, the abstract methods of
  \<open>GnmiServerAdapter\<close>). \<open>'w\<close> is the state of the adapters. The record \<open>rpc_context\<close> is what the
  service reads and writes of the gRPC context.

  The locale \<open>server_adapter\<close> is what the service relies on of an adapter; its lemmas are about
  arbitrary sequences of RPCs. The demo adapter interprets it.
\<close>

section \<open>Adapters and context\<close>

datatype adapter_type = TYPE_DEMO | TYPE_API | TYPE_NETCONF

record 'w adapter_ops =
  ao_get_adapter :: "'w \<Rightarrow> 'w"
  ao_connect :: "string \<Rightarrow> string \<Rightarrow> 'w \<Rightarrow> 'w result"
  ao_capabilities :: "'w \<Rightarrow> capability_model list result"
  ao_encodings :: "int list"
  ao_get :: "'w \<Rightarrow> gnmi_path \<Rightarrow> gnmi_path list \<Rightarrow> int \<Rightarrow> notification list result"
  ao_set :: "'w \<Rightarrow> gnmi_path \<Rightarrow> gnmi_update list \<Rightarrow> 'w \<times> (gnmi_path \<times> update_op) list result"
  ao_delete :: "'w \<Rightarrow> gnmi_path \<Rightarrow> gnmi_path list \<Rightarrow> 'w \<times> (gnmi_path \<times> update_op) list result"

datatype status_code = UNIMPLEMENTED

record rpc_context =
  ctx_metadata :: dict
  ctx_code :: "status_code option"
  ctx_details :: "int option option"

text \<open>The details name the refused encoding; its number, or \<^const>\<open>None\<close>, stands for the text.\<close>

record servicer =
  sv_adapter_type :: adapter_type

definition extract_user_metadata :: "rpc_context \<Rightarrow> (string \<times> string) result" where
  "extract_user_metadata ctx =
     (let metadict = fold (\<lambda>(k, v). AList.update k v) (ctx_metadata ctx) []
      in rbind (dict_get metadict ''username'') (\<lambda>username.
         rbind (dict_get metadict ''password'') (\<lambda>password. Inr (username, password))))"

text \<open>\<^const>\<open>None\<close> is the adapter of the type \<open>NETCONF\<close>, which the code does not create.\<close>

definition get_and_connect_adapter ::
  "'w adapter_ops \<Rightarrow> 'w adapter_ops \<Rightarrow> servicer \<Rightarrow> string \<Rightarrow> string \<Rightarrow> 'w \<Rightarrow>
     ('w \<times> 'w adapter_ops option) result" where
  "get_and_connect_adapter demo api sv username password w =
     (case sv_adapter_type sv of
        TYPE_DEMO \<Rightarrow> Inr (ao_get_adapter demo w, Some demo)
      | TYPE_API \<Rightarrow>
          rbind (ao_connect api username password (ao_get_adapter api w)) (\<lambda>w1. Inr (w1, Some api))
      | TYPE_NETCONF \<Rightarrow> Inr (w, None))"

definition get_connected_adapter ::
  "'w adapter_ops \<Rightarrow> 'w adapter_ops \<Rightarrow> servicer \<Rightarrow> rpc_context \<Rightarrow> 'w \<Rightarrow>
     ('w \<times> 'w adapter_ops option) result" where
  "get_connected_adapter demo api sv ctx w =
     rbind (extract_user_metadata ctx) (\<lambda>(username, password).
       get_and_connect_adapter demo api sv username password w)"

section \<open>Encodings\<close>

fun get_val_encoding :: "typed_value \<Rightarrow> int option" where
  "get_val_encoding (JsonVal t) = Some JSON"
| "get_val_encoding (JsonIetfVal t) = Some JSON_IETF"
| "get_val_encoding (AsciiVal s) = Some ASCII"
| "get_val_encoding (BytesVal s) = Some BYTES"
| "get_val_encoding (StringVal s) = Some PROTO"
| "get_val_encoding (IntVal i) = Some PROTO"
| "get_val_encoding (UintVal n) = Some PROTO"
| "get_val_encoding (BoolVal b) = Some PROTO"
| "get_val_encoding FloatVal = Some PROTO"
| "get_val_encoding (LeaflistVal vs) = Some PROTO"
| "get_val_encoding _ = None"

text \<open>The calls return the context, which they change before they raise.\<close>

definition ensure_encoding_supported ::
  "int option \<Rightarrow> 'w adapter_ops option \<Rightarrow> rpc_context \<Rightarrow> rpc_context \<times> unit result" where
  "ensure_encoding_supported encoding adapter ctx =
     (case adapter of
        None \<Rightarrow> (ctx, Inl AttributeError)
      | Some ops \<Rightarrow>
          if encoding \<notin> Some ` set (ao_encodings ops)
          then (ctx\<lparr>ctx_code := Some UNIMPLEMENTED, ctx_details := Some encoding\<rparr>,
                Inl NotImplementedError)
          else (ctx, Inr ()))"

fun verify_updates_encoding_supported ::
  "gnmi_update list \<Rightarrow> 'w adapter_ops option \<Rightarrow> rpc_context \<Rightarrow> rpc_context \<times> unit result" where
  "verify_updates_encoding_supported [] adapter ctx = (ctx, Inr ())"
| "verify_updates_encoding_supported (u # us) adapter ctx =
     (case ensure_encoding_supported (get_val_encoding (u_val u)) adapter ctx of
        (ctx1, Inl e) \<Rightarrow> (ctx1, Inl e)
      | (ctx1, Inr _) \<Rightarrow> verify_updates_encoding_supported us adapter ctx1)"

definition verify_encoding_supported ::
  "int \<Rightarrow> 'w adapter_ops option \<Rightarrow> rpc_context \<Rightarrow> rpc_context \<times> unit result" where
  "verify_encoding_supported encoding adapter ctx =
     ensure_encoding_supported (Some (if encoding = 0 then JSON else encoding)) adapter ctx"

section \<open>RPCs\<close>

record model_data =
  md_name :: string
  md_organization :: string
  md_version :: string

record capability_response =
  cr_supported_models :: "model_data list"
  cr_supported_encodings :: "int list"
  cr_gNMI_version :: string

record get_request =
  gr_prefix :: gnmi_path
  gr_path :: "gnmi_path list"
  gr_type :: int
  gr_encoding :: int

record set_request =
  rq_prefix :: gnmi_path
  rq_delete :: "gnmi_path list"
  rq_replace :: "gnmi_update list"
  rq_update :: "gnmi_update list"

text \<open>
  Every RPC returns the adapters' state and the context it leaves behind, and its response or the
  exception.
\<close>

definition Capabilities ::
  "'w adapter_ops \<Rightarrow> 'w adapter_ops \<Rightarrow> servicer \<Rightarrow> rpc_context \<Rightarrow> 'w \<Rightarrow>
     'w \<times> rpc_context \<times> capability_response result" where
  "Capabilities demo api sv ctx w =
     (case get_connected_adapter demo api sv ctx w of
        Inl e \<Rightarrow> (w, ctx, Inl e)
      | Inr (w1, None) \<Rightarrow> (w1, ctx, Inl AttributeError)
      | Inr (w1, Some ops) \<Rightarrow>
          (w1, ctx, rbind (ao_capabilities ops w1) (\<lambda>caps.
             Inr \<lparr>cr_supported_models = map (\<lambda>cap. \<lparr>md_name = cm_name cap,
                    md_organization = cm_organization cap, md_version = cm_version cap\<rparr>) caps,
                  cr_supported_encodings = ao_encodings ops, cr_gNMI_version = ''proto3''\<rparr>)))"

definition Get ::
  "'w adapter_ops \<Rightarrow> 'w adapter_ops \<Rightarrow> servicer \<Rightarrow> get_request \<Rightarrow> rpc_context \<Rightarrow> 'w \<Rightarrow>
     'w \<times> rpc_context \<times> notification list result" where
  "Get demo api sv request ctx w =
     (case get_connected_adapter demo api sv ctx w of
        Inl e \<Rightarrow> (w, ctx, Inl e)
      | Inr (w1, adapter) \<Rightarrow>
          (case verify_encoding_supported (gr_encoding request) adapter ctx of
             (ctx1, Inl e) \<Rightarrow> (w1, ctx1, Inl e)
           | (ctx1, Inr _) \<Rightarrow>
               (case adapter of
                  None \<Rightarrow> (w1, ctx1, Inl AttributeError)
                | Some ops \<Rightarrow>
                    (w1, ctx1, ao_get ops w1 (gr_prefix request) (gr_path request) (gr_type request)))))"

definition Set ::
  "'w adapter_ops \<Rightarrow> 'w adapter_ops \<Rightarrow> servicer \<Rightarrow> set_request \<Rightarrow> rpc_context \<Rightarrow> 'w \<Rightarrow>
     'w \<times> rpc_context \<times> set_response result" where
  "Set demo api sv request ctx w =
     (case get_connected_adapter demo api sv ctx w of
        Inl e \<Rightarrow> (w, ctx, Inl e)
      | Inr (w1, adapter) \<Rightarrow>
          (case verify_updates_encoding_supported (rq_update request) adapter ctx of
             (ctx1, Inl e) \<Rightarrow> (w1, ctx1, Inl e)
           | (ctx1, Inr _) \<Rightarrow>
               (case adapter of
                  None \<Rightarrow> (w1, ctx1, Inl AttributeError)
                | Some ops \<Rightarrow>
                    (case ao_set ops w1 (rq_prefix request) (rq_update request) of
                       (w2, Inl e) \<Rightarrow> (w2, ctx1, Inl e)
                     | (w2, Inr sets) \<Rightarrow>
                         (case ao_delete ops w2 (rq_prefix request) (rq_delete request) of
                            (w3, Inl e) \<Rightarrow> (w3, ctx1, Inl e)
                          | (w3, Inr dels) \<Rightarrow>
                              (w3, ctx1, Inr
                                 \<lparr>sr_prefix = rq_prefix request,
                                  sr_response = map (\<lambda>(path, op).
                                    \<lparr>ur_timestamp = 0, ur_path = path, ur_op = op\<rparr>) (sets @ dels),
                                  sr_timestamp = 0\<rparr>))))))"

section \<open>Subscribe\<close>

text \<open>
  A request of the stream. Both fields of the message always exist, so \<open>hasattr\<close> holds of both
  kinds; reading \<open>subscribe\<close> of a poll gives the default subscription list.
\<close>

datatype sub_request = SubscribeReq subscription_list | PollReq

fun req_subscribe :: "sub_request \<Rightarrow> subscription_list" where
  "req_subscribe (SubscribeReq sl) = sl"
| "req_subscribe PollReq = \<lparr>sl_prefix = empty_path, sl_paths = [], sl_mode = STREAM, sl_encoding = 0\<rparr>"

definition hasattr_poll :: "sub_request \<Rightarrow> bool" where
  "hasattr_poll r = True"

definition hasattr_subscribe :: "sub_request \<Rightarrow> bool" where
  "hasattr_subscribe r = True"

text \<open>
  The thread that reads the rest of the requests. The end of the iterator and an \<open>RpcError\<close> of it
  lead to the same calls.
\<close>

fun read_sub_request :: "sub_request list \<Rightarrow> bool \<Rightarrow> 'a sub_handler_scheme \<Rightarrow> 'a sub_handler_scheme result" where
  "read_sub_request [] stop_on_end h = (if stop_on_end then handler_stop h else Inr h)"
| "read_sub_request (req # reqs) stop_on_end h =
     (if hasattr_poll req then rbind (handler_poll h) (read_sub_request reqs stop_on_end)
      else Inl AssertionError)"

definition subscribe_rpc_done :: "'a sub_handler_scheme \<Rightarrow> 'a sub_handler_scheme result" where
  "subscribe_rpc_done h = (if \<not> is_once (sh_subscription_list h) then handler_stop h else Inr h)"

text \<open>
  The call up to the creation of the handler: the subscription list, or the exception.
  An empty request stream ends \<open>next\<close> with \<open>StopIteration\<close>, which leaves a generator as
  \<open>RuntimeError\<close>.
\<close>

definition subscribe_start ::
  "'w adapter_ops \<Rightarrow> 'w adapter_ops \<Rightarrow> servicer \<Rightarrow> sub_request list \<Rightarrow> rpc_context \<Rightarrow> 'w \<Rightarrow>
     'w \<times> rpc_context \<times> (subscription_list \<times> sub_request list) result" where
  "subscribe_start demo api sv requests ctx w =
     (case requests of
        [] \<Rightarrow> (w, ctx, Inl RuntimeError)
      | request # rest \<Rightarrow>
          (case get_connected_adapter demo api sv ctx w of
             Inl e \<Rightarrow> (w, ctx, Inl e)
           | Inr (w1, adapter) \<Rightarrow>
               (case verify_encoding_supported (sl_encoding (req_subscribe request)) adapter ctx of
                  (ctx1, Inl e) \<Rightarrow> (w1, ctx1, Inl e)
                | (ctx1, Inr _) \<Rightarrow>
                    if \<not> hasattr_subscribe request then (w1, ctx1, Inl AssertionError)
                    else (w1, ctx1, Inr (req_subscribe request, rest)))))"

text \<open>
  The generator of the call: the request thread puts its events, \<open>done\<close> says whether the RPC was
  ended by the client after that, and \<open>read\<close> runs on the events. By \<open>read_resume\<close> the result does not depend
  on when the events arrive.
\<close>

definition subscribe_run ::
  "'s handler_ops \<Rightarrow> subscription_list \<Rightarrow> sub_request list \<Rightarrow> bool \<Rightarrow> 's \<Rightarrow>
     (subscribe_response list \<times> sub_event list \<times> 's \<times> read_outcome) result" where
  "subscribe_run ops sl rest rpc_done s =
     (let h = handler_init sl
      in rbind (if \<not> is_once sl then read_sub_request rest (is_poll sl) h else Inr h) (\<lambda>h1.
         rbind (if rpc_done then subscribe_rpc_done h1 else Inr h1) (\<lambda>h2.
         Inr (read ops sl (case sh_read_queue h2 of Some q \<Rightarrow> q | None \<Rightarrow> []) s))))"

section \<open>What the service relies on\<close>

text \<open>
  An invariant of the adapters' state that every operation of an adapter keeps, also when the
  operation raises.
\<close>

locale server_adapter =
  fixes ops :: "'w adapter_ops" and inv :: "'w \<Rightarrow> bool"
  assumes get_adapter_keeps: "inv w \<Longrightarrow> inv (ao_get_adapter ops w)"
    and connect_keeps: "inv w \<Longrightarrow> ao_connect ops u p w = Inr w' \<Longrightarrow> inv w'"
    and set_keeps: "inv w \<Longrightarrow> inv (fst (ao_set ops w pfx ups))"
    and delete_keeps: "inv w \<Longrightarrow> inv (fst (ao_delete ops w pfx ps))"
begin

lemma get_connected_keeps:
  assumes "inv w" and "sv_adapter_type sv = TYPE_DEMO"
    and "get_connected_adapter ops api sv ctx w = Inr (w1, adapter)"
  shows "inv w1 \<and> adapter = Some ops"
  using assms
  by (auto simp: get_connected_adapter_def get_and_connect_adapter_def rbind_eq_Inr_iff
      intro: get_adapter_keeps)

lemma Capabilities_keeps:
  "inv w \<Longrightarrow> sv_adapter_type sv = TYPE_DEMO \<Longrightarrow> inv (fst (Capabilities ops api sv ctx w))"
  by (auto simp: Capabilities_def split: sum.splits prod.splits option.splits dest: get_connected_keeps)

lemma Get_keeps:
  "inv w \<Longrightarrow> sv_adapter_type sv = TYPE_DEMO \<Longrightarrow> inv (fst (Get ops api sv rq ctx w))"
  by (auto simp: Get_def split: sum.splits prod.splits option.splits dest: get_connected_keeps)

lemma Set_keeps:
  assumes "inv w" and "sv_adapter_type sv = TYPE_DEMO"
  shows "inv (fst (Set ops api sv rq ctx w))"
proof (cases "get_connected_adapter ops api sv ctx w")
  case (Inl e)
  with assms show ?thesis by (simp add: Set_def)
next
  case (Inr wa)
  obtain w1 adapter where wa: "wa = (w1, adapter)" by fastforce
  with get_connected_keeps [OF assms] Inr have w1: "inv w1" and adapter: "adapter = Some ops" by auto
  obtain w2 r2 where set: "ao_set ops w1 (rq_prefix rq) (rq_update rq) = (w2, r2)" by fastforce
  obtain w3 r3 where del: "ao_delete ops w2 (rq_prefix rq) (rq_delete rq) = (w3, r3)" by fastforce
  have "inv w2" using set_keeps [OF w1, of "rq_prefix rq" "rq_update rq"] set by simp
  moreover from this have "inv w3"
    using delete_keeps [of w2 "rq_prefix rq" "rq_delete rq"] del by simp
  ultimately show ?thesis
    using Inr wa w1 adapter set del by (auto simp: Set_def split: prod.splits sum.splits)
qed

end

section \<open>The demo adapter behind the service\<close>

record demo_world =
  dw_has_instance :: bool
  dw_adapter :: demo_adapter

definition demo_adapter_ops :: "(typed_value \<Rightarrow> string) \<Rightarrow> demo_world adapter_ops" where
  "demo_adapter_ops format_val =
     \<lparr>ao_get_adapter = (\<lambda>w. w\<lparr>dw_has_instance := True,
          dw_adapter := get_adapter (dw_has_instance w) (dw_adapter w)\<rparr>),
      ao_connect = (\<lambda>u p w. Inr w),
      ao_capabilities = (\<lambda>w. Inr demo_capabilities),
      ao_encodings = demo_encodings,
      ao_get = (\<lambda>w. demo_get (dw_adapter w)),
      ao_set = (\<lambda>w pfx ups. let (a, r) = demo_set format_val (dw_adapter w) pfx ups
                             in (w\<lparr>dw_adapter := a\<rparr>, r)),
      ao_delete = (\<lambda>w pfx ps. let (a, r) = demo_delete (dw_adapter w) pfx ps
                             in (w\<lparr>dw_adapter := a\<rparr>, r))\<rparr>"

lemma demo_adapter_ops_sel [simp]:
  "ao_get_adapter (demo_adapter_ops f) w = w\<lparr>dw_has_instance := True,
     dw_adapter := get_adapter (dw_has_instance w) (dw_adapter w)\<rparr>"
  "ao_connect (demo_adapter_ops f) u p w = Inr w"
  "ao_capabilities (demo_adapter_ops f) w = Inr demo_capabilities"
  "ao_encodings (demo_adapter_ops f) = demo_encodings"
  "ao_get (demo_adapter_ops f) w = demo_get (dw_adapter w)"
  "ao_set (demo_adapter_ops f) w pfx ups =
     (let (a, r) = demo_set f (dw_adapter w) pfx ups in (w\<lparr>dw_adapter := a\<rparr>, r))"
  "ao_delete (demo_adapter_ops f) w pfx ps =
     (let (a, r) = demo_delete (dw_adapter w) pfx ps in (w\<lparr>dw_adapter := a\<rparr>, r))"
  by (simp_all add: demo_adapter_ops_def)

text \<open>
  The leaves of the initial database, and the invariant: removing module names from a key leads to
  one of them, all of them are there, and the state part is the initial one.
\<close>

definition initial_ids :: "string list" where
  "initial_ids = sort (map (\<lambda>i. nat_str (i + 1)) [0..<num_of_ifs])"

definition initial_db :: dict where
  "initial_db = db_of ''/interfaces'' (initial_ifs ''if_'' initial_ids)"

definition initial_state_db :: dict where
  "initial_state_db = db_of ''/interfaces-state'' (initial_ifs ''state_if_'' initial_ids)"

definition spells_leaf :: "string \<Rightarrow> bool" where
  "spells_leaf k \<longleftrightarrow> (\<exists>n. (nsless_xpath ^^ n) k \<in> set (dict_keys initial_db))"

definition leaves_ok :: "demo_adapter \<Rightarrow> bool" where
  "leaves_ok a \<longleftrightarrow> set (dict_keys initial_db) \<subseteq> set (dict_keys (da_db a)) \<and>
     (\<forall>k \<in> set (dict_keys (da_db a)). spells_leaf k) \<and> da_state_db a = initial_state_db"

definition demo_inv :: "demo_world \<Rightarrow> bool" where
  "demo_inv w \<longleftrightarrow>
     (if dw_has_instance w then leaves_ok (dw_adapter w)
      else da_db (dw_adapter w) = [] \<and> da_state_db (dw_adapter w) = [])"

lemma spells_leaf_nsless: "spells_leaf (nsless_xpath k) \<Longrightarrow> spells_leaf k"
  unfolding spells_leaf_def by (metis comp_apply funpow_Suc_right)

lemma dict_keys_update_set: "set (dict_keys (AList.update k v d)) = insert k (set (dict_keys d))"
  by (induction d) (auto simp: dict_keys_def)

lemma set_update_leaves:
  assumes "leaves_ok a" and "set_update f a pfx path val = Inr (a1, op)"
  shows "leaves_ok a1"
  using assms spells_leaf_nsless
  by (auto simp: set_update_def leaves_ok_def Let_def rbind_eq_Inr_iff dict_keys_update_set
      split: if_splits)

lemma demo_set_leaves: "leaves_ok a \<Longrightarrow> leaves_ok (fst (demo_set f a pfx ups))"
proof (induction ups arbitrary: a)
  case (Cons up ups)
  then show ?case
    by (auto simp: Let_def split: sum.splits prod.splits dest: set_update_leaves)
       (metis Cons.IH fst_conv set_update_leaves)
qed simp

lemma demo_set_no_db: "da_db a = [] \<Longrightarrow> fst (demo_set f a pfx ups) = a"
  by (induction ups) (auto simp: set_update_def dict_keys_def Let_def split: prod.splits)

lemma get_adapter_leaves:
  "demo_inv w \<Longrightarrow> leaves_ok (get_adapter (dw_has_instance w) (dw_adapter w))"
proof (cases "dw_has_instance w")
  case False
  assume "demo_inv w"
  with False have "da_db (dw_adapter w) = []" "da_state_db (dw_adapter w) = []"
    by (simp_all add: demo_inv_def)
  from fill_demo_db_initial [OF this refl, of num_of_ifs] False show ?thesis
    by (auto simp: get_adapter_def leaves_ok_def initial_db_def initial_state_db_def initial_ids_def
        spells_leaf_def intro: exI [of _ 0])
qed (simp add: demo_inv_def get_adapter_def)

interpretation demo_srv: server_adapter "demo_adapter_ops format_val" demo_inv
proof unfold_locales
  show "demo_inv (ao_get_adapter (demo_adapter_ops format_val) w)" if "demo_inv w" for w
    using get_adapter_leaves [OF that] by (simp add: demo_inv_def)
  show "demo_inv w'" if "demo_inv w" "ao_connect (demo_adapter_ops format_val) u p w = Inr w'" for u p w w'
    using that by simp
  show "demo_inv (fst (ao_set (demo_adapter_ops format_val) w pfx ups))" if "demo_inv w" for w pfx ups
    using that demo_set_leaves [of "dw_adapter w" format_val pfx ups]
      demo_set_no_db [of "dw_adapter w" format_val pfx ups]
    by (auto simp: demo_inv_def split: prod.splits)
  show "demo_inv (fst (ao_delete (demo_adapter_ops format_val) w pfx ps))" if "demo_inv w" for w pfx ps
    using that by (simp add: demo_delete_def demo_inv_def)
qed

section \<open>Properties\<close>

text \<open>A client's call, and a sequence of calls by any clients.\<close>

datatype rpc =
    RpcCapabilities rpc_context
  | RpcGet get_request rpc_context
  | RpcSet set_request rpc_context

fun rpc_step :: "'w adapter_ops \<Rightarrow> 'w adapter_ops \<Rightarrow> servicer \<Rightarrow> 'w \<Rightarrow> rpc \<Rightarrow> 'w" where
  "rpc_step demo api sv w (RpcCapabilities ctx) = fst (Capabilities demo api sv ctx w)"
| "rpc_step demo api sv w (RpcGet rq ctx) = fst (Get demo api sv rq ctx w)"
| "rpc_step demo api sv w (RpcSet rq ctx) = fst (Set demo api sv rq ctx w)"

lemma demo_rpcs_inv:
  assumes "demo_inv w" and "sv_adapter_type sv = TYPE_DEMO"
  shows "demo_inv (foldl (rpc_step (demo_adapter_ops f) api sv) w rpcs)"
  using assms(1)
proof (induction rpcs arbitrary: w)
  case (Cons rpc rpcs)
  have "demo_inv (rpc_step (demo_adapter_ops f) api sv w rpc)"
    using Cons.prems assms(2)
    by (cases rpc) (simp_all add: demo_srv.Capabilities_keeps demo_srv.Get_keeps demo_srv.Set_keeps)
  then show ?case using Cons.IH by simp
qed simp

text \<open>
  From a server start and through any sequence of calls of any clients, whether they succeed or
  raise, the demo database keeps its leaves: once the database is filled, every initial leaf is
  there, every key is a spelling of an initial leaf with module names added, and the state part
  is as it was filled.
\<close>

theorem demo_server_leaves:
  assumes "sv_adapter_type sv = TYPE_DEMO"
    and "da_db a = []" and "da_state_db a = []"
    and "w = foldl (rpc_step (demo_adapter_ops f) api sv) \<lparr>dw_has_instance = False, dw_adapter = a\<rparr> rpcs"
    and "dw_has_instance w"
  shows "set (dict_keys initial_db) \<subseteq> set (dict_keys (da_db (dw_adapter w))) \<and>
     (\<forall>k \<in> set (dict_keys (da_db (dw_adapter w))). spells_leaf k) \<and>
     da_state_db (dw_adapter w) = initial_state_db"
proof -
  have "demo_inv \<lparr>dw_has_instance = False, dw_adapter = a\<rparr>"
    using assms(2,3) by (simp add: demo_inv_def)
  from demo_rpcs_inv [OF this assms(1), of f api rpcs] assms(4,5) show ?thesis
    by (simp add: demo_inv_def leaves_ok_def)
qed

lemma demo_server_leaves_witness:
  "let w = foldl (rpc_step (demo_adapter_ops (\<lambda>_. [])) (demo_adapter_ops (\<lambda>_. [])) \<lparr>sv_adapter_type = TYPE_DEMO\<rparr>)
       \<lparr>dw_has_instance = False, dw_adapter = adapter_of []\<rparr>
       [RpcCapabilities \<lparr>ctx_metadata = [(''username'', ''admin''), (''password'', ''admin'')],
          ctx_code = None, ctx_details = None\<rparr>]
   in dw_has_instance w \<and> da_state_db (dw_adapter w) = initial_state_db"
proof -
  let ?w = "foldl (rpc_step (demo_adapter_ops (\<lambda>_. [])) (demo_adapter_ops (\<lambda>_. [])) \<lparr>sv_adapter_type = TYPE_DEMO\<rparr>)
       \<lparr>dw_has_instance = False, dw_adapter = adapter_of []\<rparr>
       [RpcCapabilities \<lparr>ctx_metadata = [(''username'', ''admin''), (''password'', ''admin'')],
          ctx_code = None, ctx_details = None\<rparr>]"
  have has: "dw_has_instance ?w"
    by (simp add: Capabilities_def get_connected_adapter_def extract_user_metadata_def
        get_and_connect_adapter_def dict_get_def Let_def)
  have "da_db (adapter_of []) = []" "da_state_db (adapter_of []) = []"
    by (simp_all add: adapter_of_def)
  from demo_server_leaves [OF _ this refl has] has show ?thesis
    by (simp only: Let_def servicer.select_convs simp_thms)
qed

text \<open>Credentials are in the metadata.\<close>

definition has_user :: "rpc_context \<Rightarrow> bool" where
  "has_user ctx \<longleftrightarrow> {''username'', ''password''} \<subseteq> fst ` set (ctx_metadata ctx)"

lemma fold_update_keys:
  "fst ` set (fold (\<lambda>(k, v). AList.update k v) kvs d) = fst ` set kvs \<union> fst ` set d"
  by (induction kvs arbitrary: d) (auto simp: AList.dom_update split: prod.splits)

lemma dict_get_if: "dict_get d k = (if k \<in> fst ` set d then Inr (the (map_of d k)) else Inl KeyError)"
  using map_of_eq_None_iff [of d k] by (cases "map_of d k") (simp_all add: dict_get_def)

lemma extract_user:
  "has_user ctx \<Longrightarrow> \<exists>u p. extract_user_metadata ctx = Inr (u, p)"
  "\<not> has_user ctx \<Longrightarrow> extract_user_metadata ctx = Inl KeyError"
  by (auto simp: extract_user_metadata_def has_user_def dict_get_if fold_update_keys Let_def)

text \<open>The demo adapter as the service gets it.\<close>

abbreviation demo_servicer :: servicer where
  "demo_servicer \<equiv> \<lparr>sv_adapter_type = TYPE_DEMO\<rparr>"

abbreviation filled :: "demo_world \<Rightarrow> demo_world" where
  "filled w \<equiv> w\<lparr>dw_has_instance := True,
     dw_adapter := get_adapter (dw_has_instance w) (dw_adapter w)\<rparr>"

lemma demo_connected:
  "get_connected_adapter (demo_adapter_ops f) api demo_servicer ctx w =
     (if has_user ctx then Inr (filled w, Some (demo_adapter_ops f)) else Inl KeyError)"
  using extract_user [of ctx]
  by (auto simp: get_connected_adapter_def get_and_connect_adapter_def)

lemma demo_ensure_encoding:
  "ensure_encoding_supported enc (Some (demo_adapter_ops f)) ctx =
     (if enc = Some JSON \<or> enc = Some JSON_IETF then (ctx, Inr ())
      else (ctx\<lparr>ctx_code := Some UNIMPLEMENTED, ctx_details := Some enc\<rparr>, Inl NotImplementedError))"
  by (auto simp: ensure_encoding_supported_def demo_encodings_def)

lemma demo_verify_updates:
  "verify_updates_encoding_supported us (Some (demo_adapter_ops f)) ctx =
     (case find (\<lambda>u. get_val_encoding (u_val u) \<noteq> Some JSON \<and> get_val_encoding (u_val u) \<noteq> Some JSON_IETF) us of
        None \<Rightarrow> (ctx, Inr ())
      | Some u \<Rightarrow> (ctx\<lparr>ctx_code := Some UNIMPLEMENTED, ctx_details := Some (get_val_encoding (u_val u))\<rparr>,
                   Inl NotImplementedError))"
  by (induction us) (auto simp: demo_ensure_encoding)

text \<open>
  The Get RPC of the demo server: without both credentials in the metadata it raises and changes
  nothing; with an encoding other than JSON and JSON_IETF it sets the status UNIMPLEMENTED and
  raises; otherwise its response is the adapter's \<open>get\<close> on the database, which the first call
  fills.
\<close>

theorem Get_demo_spec:
  "Get (demo_adapter_ops f) api demo_servicer rq ctx w =
     (if \<not> has_user ctx then (w, ctx, Inl KeyError)
      else if gr_encoding rq = JSON \<or> gr_encoding rq = JSON_IETF then
        (filled w, ctx, demo_get (dw_adapter (filled w)) (gr_prefix rq) (gr_path rq) (gr_type rq))
      else (filled w, ctx\<lparr>ctx_code := Some UNIMPLEMENTED, ctx_details := Some (Some (gr_encoding rq))\<rparr>,
            Inl NotImplementedError))"
  by (auto simp: Get_def demo_connected verify_encoding_supported_def demo_ensure_encoding)

text \<open>
  The Set RPC of the demo server: the encodings of all updates are checked before the first
  write, so a refused request changes no value and names the first refused encoding; an accepted
  one applies the updates in order and reports one result per update. The replace and delete
  lists of the request have no effect.
\<close>

theorem Set_demo_spec:
  "Set (demo_adapter_ops f) api demo_servicer rq ctx w =
     (if \<not> has_user ctx then (w, ctx, Inl KeyError)
      else (case find (\<lambda>u. get_val_encoding (u_val u) \<noteq> Some JSON \<and>
                          get_val_encoding (u_val u) \<noteq> Some JSON_IETF) (rq_update rq) of
          Some u \<Rightarrow>
            (filled w, ctx\<lparr>ctx_code := Some UNIMPLEMENTED,
                           ctx_details := Some (get_val_encoding (u_val u))\<rparr>, Inl NotImplementedError)
        | None \<Rightarrow>
            (case demo_set f (dw_adapter (filled w)) (rq_prefix rq) (rq_update rq) of
               (a, r) \<Rightarrow> ((filled w)\<lparr>dw_adapter := a\<rparr>, ctx, rbind r (\<lambda>ops.
                 Inr \<lparr>sr_prefix = rq_prefix rq,
                      sr_response = map (\<lambda>(path, op). \<lparr>ur_timestamp = 0, ur_path = path, ur_op = op\<rparr>) ops,
                      sr_timestamp = 0\<rparr>)))))"
  by (auto simp: Set_def demo_connected demo_verify_updates demo_delete_def split: option.splits
      prod.splits sum.splits)

lemma handler_poll_queue:
  "sh_read_queue h = Some q \<Longrightarrow>
     read_sub_request rest True h = Inr (h\<lparr>sh_read_queue := Some (q @ replicate (length rest) SAMPLE @ [FINISH])\<rparr>)"
  by (induction rest arbitrary: h q)
    (simp_all add: handler_poll_def handler_stop_def put_event_def hasattr_poll_def)

text \<open>
  A POLL subscription through the service: the client gets one sample, the sync response and one
  more sample for every further request of its stream, of whatever kind, and the call returns
  when the stream ends; the end of the RPC leaves at most one unread event.
\<close>

theorem subscribe_poll:
  assumes "is_poll sl" and "sample ops sl False s = Inr (s, r)"
  shows "subscribe_run ops sl rest rpc_done s =
     Inr (r # sync_response # replicate (length rest) r, if rpc_done then [FINISH] else [], s, Finished)"
proof -
  have mode: "\<not> is_once sl" using assms(1) by (auto simp: mode_defs)
  have poll: "read ops sl (replicate (length rest) SAMPLE @ FINISH # q) s =
      (r # sync_response # replicate (length rest) r, q, s, Finished)" for q
    by (rule read_polls [OF assms])
  show ?thesis
    using mode assms(1) handler_poll_queue [of "handler_init sl" "[]" rest] poll [of "[]"] poll [of "[FINISH]"]
    by (simp add: subscribe_run_def Let_def handler_init_def subscribe_rpc_done_def handler_stop_def
        put_event_def)
qed

lemma subscribe_poll_witness:
  "let sl = \<lparr>sl_prefix = root_prefix ''interfaces'', sl_paths = [], sl_mode = POLL, sl_encoding = JSON\<rparr>;
       r = RespUpdate \<lparr>n_timestamp = 0, n_prefix = root_prefix ''interfaces'', n_update = [], n_delete = [],
                       n_atomic = False\<rparr>;
       h = demo_handler_init (adapter_of one_if) sl
   in subscribe_run demo_ops sl [PollReq, PollReq] True h = Inr ([r, sync_response, r, r], [FINISH], h, Finished)"
proof -
  let ?sl = "\<lparr>sl_prefix = root_prefix ''interfaces'', sl_paths = [], sl_mode = POLL, sl_encoding = JSON\<rparr>"
  have "is_poll ?sl" by (simp add: is_poll_def)
  from subscribe_poll [OF this, of demo_ops "demo_handler_init (adapter_of one_if) ?sl" _ "[PollReq, PollReq]" True]
  show ?thesis by (simp add: sample_def Let_def numeral_2_eq_2)
qed

end
