(* ===== verification/Gnmi_Client.thy ===== *)
theory Gnmi_Client
  imports Gnmi_Server
begin

text \<open>
  The client of \<open>confdgnmi/src/confd_gnmi_client.py\<close>: the requests it builds, the stream of requests of a
  subscription, how it reads and prints responses, and the main program. The channel to the
  server is a \<open>stub\<close>, a record with one function per RPC over the state \<open>'w\<close> of the server; \<open>service_stub\<close> is the
  one that leads to the service of \<open>Gnmi_Server\<close>, so client and server are composed as they are
  run.

  What the program prints is a list of \<open>out_line\<close>, one per call of \<open>print\<close> with the values it formats.
\<close>

section \<open>The channel\<close>

datatype stream_end = StreamEnd | StreamOpen | StreamError bool

text \<open>
  The responses of a subscription and how they end: the server returned, it waits for events, or an \<open>RpcError\<close>,
  with \<open>EOF\<close> in its details or not.
\<close>

record 'w stub =
  st_Capabilities :: "dict \<Rightarrow> 'w \<Rightarrow> 'w \<times> capability_response result"
  st_Get :: "get_request \<Rightarrow> dict \<Rightarrow> 'w \<Rightarrow> 'w \<times> notification list result"
  st_Set :: "set_request \<Rightarrow> dict \<Rightarrow> 'w \<Rightarrow> 'w \<times> set_response result"
  st_Subscribe :: "sub_request list \<Rightarrow> dict \<Rightarrow> 'w \<Rightarrow> 'w \<times> subscribe_response list \<times> stream_end"

record client =
  c_metadata :: dict

definition client_init :: "dict option \<Rightarrow> string \<Rightarrow> string \<Rightarrow> client" where
  "client_init metadata username password =
     \<lparr>c_metadata = (case metadata of
          None \<Rightarrow> [(''username'', username), (''password'', password)]
        | Some m \<Rightarrow> m)\<rparr>"

section \<open>Requests\<close>

definition get_capabilities :: "'w stub \<Rightarrow> client \<Rightarrow> 'w \<Rightarrow> 'w \<times> capability_response result" where
  "get_capabilities st c w = st_Capabilities st (c_metadata c) w"

datatype subscription_mode = TARGET_DEFINED | ON_CHANGE

record subscription =
  sb_path :: gnmi_path
  sb_mode :: subscription_mode

record subscription_msg =
  sm_prefix :: "gnmi_path option"
  sm_subscription :: "subscription list"
  sm_qos_marking :: nat
  sm_mode :: int
  sm_allow_aggregation :: bool
  sm_encoding :: int
  sm_updates_only :: bool

definition make_subscription_list ::
  "gnmi_path option \<Rightarrow> gnmi_path list \<Rightarrow> int \<Rightarrow> int \<Rightarrow> subscription_msg" where
  "make_subscription_list pfx paths mode encoding =
     \<lparr>sm_prefix = pfx,
      sm_subscription = map (\<lambda>path. \<lparr>sb_path = path,
        sb_mode = (if mode = STREAM then ON_CHANGE else TARGET_DEFINED)\<rparr>) paths,
      sm_qos_marking = 1, sm_mode = mode, sm_allow_aggregation = False, sm_encoding = encoding,
      sm_updates_only = False\<rparr>"

text \<open>What the server reads of the message: an unset prefix is the empty path.\<close>

definition opt_path :: "gnmi_path option \<Rightarrow> gnmi_path" where
  "opt_path p = (case p of None \<Rightarrow> empty_path | Some q \<Rightarrow> q)"

definition received_list :: "subscription_msg \<Rightarrow> subscription_list" where
  "received_list m = \<lparr>sl_prefix = opt_path (sm_prefix m), sl_paths = map sb_path (sm_subscription m),
     sl_mode = sm_mode m, sl_encoding = sm_encoding m\<rparr>"

definition make_poll_subscription :: sub_request where
  "make_poll_subscription = PollReq"

definition generate_subscriptions :: "subscription_msg \<Rightarrow> int \<Rightarrow> sub_request list" where
  "generate_subscriptions m poll_count =
     SubscribeReq (received_list m) #
     (if sm_mode m = POLL then replicate (nat poll_count) make_poll_subscription else [])"

definition client_get ::
  "'w stub \<Rightarrow> client \<Rightarrow> gnmi_path option \<Rightarrow> gnmi_path list \<Rightarrow> int \<Rightarrow> int \<Rightarrow> 'w \<Rightarrow> 'w \<times> notification list result" where
  "client_get st c pfx paths get_type encoding w =
     st_Get st \<lparr>gr_prefix = opt_path pfx, gr_path = paths, gr_type = get_type, gr_encoding = encoding\<rparr> (c_metadata c) w"

definition client_set ::
  "'w stub \<Rightarrow> client \<Rightarrow> gnmi_path option \<Rightarrow> (gnmi_path \<times> typed_value) list \<Rightarrow> 'w \<Rightarrow> 'w \<times> set_response result" where
  "client_set st c pfx pvs w =
     st_Set st \<lparr>rq_prefix = opt_path pfx, rq_delete = [], rq_replace = [],
       rq_update = map (\<lambda>(p, v). \<lparr>u_path = p, u_val = v\<rparr>) pvs\<rparr> (c_metadata c) w"

definition client_delete ::
  "'w stub \<Rightarrow> client \<Rightarrow> gnmi_path option \<Rightarrow> gnmi_path list \<Rightarrow> 'w \<Rightarrow> 'w \<times> set_response result" where
  "client_delete st c pfx paths w =
     st_Set st \<lparr>rq_prefix = opt_path pfx, rq_delete = paths, rq_replace = [], rq_update = []\<rparr> (c_metadata c) w"

section \<open>Output\<close>

datatype shown_value = ShownJson json | ShownMessage typed_value

datatype out_line =
    OutNotification int string bool
  | OutUpdates
  | OutPath string shown_value
  | OutResponse int
  | OutText string
  | OutModel string string string
  | OutEncodings "string list"
  | OutSetHead int string
  | OutSetResult int update_op string

definition shown :: "typed_value \<Rightarrow> shown_value result" where
  "shown v =
     (case v of
        JsonVal t \<Rightarrow> if json_nonempty t then rbind (json_loads t) (\<lambda>j. Inr (ShownJson j)) else Inr (ShownMessage v)
      | JsonIetfVal t \<Rightarrow> if json_nonempty t then rbind (json_loads t) (\<lambda>j. Inr (ShownJson j)) else Inr (ShownMessage v)
      | _ \<Rightarrow> Inr (ShownMessage v))"

text \<open>The lines printed, and the exception that stopped printing.\<close>

fun print_updates :: "string \<Rightarrow> gnmi_update list \<Rightarrow> out_line list \<times> unit result" where
  "print_updates pfx_str [] = ([], Inr ())"
| "print_updates pfx_str (u # us) =
     (case shown (u_val u) of
        Inl e \<Rightarrow> ([], Inl e)
      | Inr v \<Rightarrow>
          (let (ls, r) = print_updates pfx_str us
           in (OutPath (pfx_str @ make_xpath_path (Some (u_path u)) None False) v # ls, r)))"

definition print_notification :: "notification \<Rightarrow> out_line list \<times> unit result" where
  "print_notification n =
     (let pfx_str = make_xpath_path None (Some (n_prefix n)) False;
          (ls, r) = print_updates pfx_str (n_update n)
      in (OutNotification (n_timestamp n) pfx_str (n_atomic n) # OutUpdates # ls, r))"

text \<open>The field \<open>update\<close> of a response; of a sync response it is the default message.\<close>

fun response_update :: "subscribe_response \<Rightarrow> notification" where
  "response_update (RespUpdate n) = n"
| "response_update (RespSync b) =
     \<lparr>n_timestamp = 0, n_prefix = empty_path, n_update = [], n_delete = [], n_atomic = False\<rparr>"

text \<open>
  Reading responses: what is printed, how many were read, and the result; \<^const>\<open>None\<close> when the client
  waits for a response.
\<close>

fun read_subscribe_responses ::
  "subscribe_response list \<Rightarrow> stream_end \<Rightarrow> int \<Rightarrow> out_line list \<times> nat \<times> unit result option" where
  "read_subscribe_responses [] fin read_count =
     ([], 0, case fin of
               StreamEnd \<Rightarrow> Some (Inr ())
             | StreamOpen \<Rightarrow> None
             | StreamError eof \<Rightarrow> Some (if eof then Inr () else Inl RpcError))"
| "read_subscribe_responses (r # rs) fin read_count =
     (case print_notification (response_update r) of
        (ls, Inl e) \<Rightarrow> (OutResponse read_count # ls, 0, Some (Inl e))
      | (ls, Inr _) \<Rightarrow>
          if read_count > 0 \<and> read_count - 1 = 0 then (OutResponse read_count # ls, 1, Some (Inr ()))
          else (let (ls', n, res) = read_subscribe_responses rs fin
                      (if read_count > 0 then read_count - 1 else read_count)
                in (OutResponse read_count # ls @ ls', n + 1, res)))"

definition client_subscribe ::
  "'w stub \<Rightarrow> client \<Rightarrow> subscription_msg \<Rightarrow> int \<Rightarrow> int \<Rightarrow> 'w \<Rightarrow> 'w \<times> out_line list \<times> nat \<times> unit result option" where
  "client_subscribe st c m poll_count read_count w =
     (let (w1, rs, fin) = st_Subscribe st (generate_subscriptions m poll_count) (c_metadata c) w
      in (w1, read_subscribe_responses rs fin read_count))"

definition encoding_int_to_str :: "(int \<Rightarrow> string) \<Rightarrow> int \<Rightarrow> bool \<Rightarrow> string result" where
  "encoding_int_to_str show_int encoding no_error =
     (if encoding = 0 then Inr ''JSON''
      else if encoding = 1 then Inr ''BYTES''
      else if encoding = 2 then Inr ''PROTO''
      else if encoding = 3 then Inr ''ASCII''
      else if encoding = 4 then Inr ''JSON_IETF''
      else if no_error then Inr (''UNKNOWN('' @ show_int encoding @ '')'')
      else Inl ValueError)"

section \<open>The main program\<close>

record client_options =
  co_operation :: string
  co_prefix :: string
  co_paths :: "string list"
  co_datatype :: string
  co_vals :: "json_text list"
  co_submode :: string
  co_pollcount :: int
  co_readcount :: int
  co_username :: string
  co_password :: string
  co_encoding :: string

text \<open>The default options.\<close>

definition default_client_options :: client_options where
  "default_client_options =
     \<lparr>co_operation = ''capabilities'', co_prefix = [], co_paths = [], co_datatype = ''CONFIG'', co_vals = [],
      co_submode = ''ONCE'', co_pollcount = 5, co_readcount = 4, co_username = ''admin'', co_password = ''admin'',
      co_encoding = ''JSON_IETF''\<rparr>"

definition out_lines :: "('a \<Rightarrow> out_line list) \<Rightarrow> 'w \<times> 'a result \<Rightarrow> 'w \<times> out_line list \<times> unit result option" where
  "out_lines f wr = (case wr of (w, Inl e) \<Rightarrow> (w, [], Some (Inl e)) | (w, Inr a) \<Rightarrow> (w, f a, Some (Inr ())))"

fun print_notifications :: "notification list \<Rightarrow> out_line list \<times> unit result" where
  "print_notifications [] = ([], Inr ())"
| "print_notifications (n # ns) =
     (case print_notification n of
        (ls, Inl e) \<Rightarrow> (ls, Inl e)
      | (ls, Inr _) \<Rightarrow> (let (ls', r) = print_notifications ns in (ls @ ls', r)))"

definition print_set_response :: "set_response \<Rightarrow> out_line list" where
  "print_set_response r =
     OutText ''Set - UpdateResult:'' #
     OutSetHead (sr_timestamp r) (make_xpath_path (Some (sr_prefix r)) None False) #
     map (\<lambda>u. OutSetResult (ur_timestamp u) (ur_op u) (make_xpath_path (Some (ur_path u)) None False)) (sr_response r)"

definition print_capabilities :: "(int \<Rightarrow> string) \<Rightarrow> capability_response \<Rightarrow> out_line list" where
  "print_capabilities show_int r =
     OutText ''Capabilities:'' # OutText ''  supported models:'' #
     map (\<lambda>m. OutModel (md_name m) (md_organization m) (md_version m)) (cr_supported_models r) @
     [OutEncodings (map (\<lambda>e. projr (encoding_int_to_str show_int e True)) (cr_supported_encodings r))]"

text \<open>
  The program, after the options are parsed: the option \<open>--prefix\<close> is read, and the prefix is \<open>None\<close> all the
  same.
\<close>

definition client_main ::
  "(int \<Rightarrow> string) \<Rightarrow> 'w stub \<Rightarrow> client_options \<Rightarrow> 'w \<Rightarrow> 'w \<times> out_line list \<times> unit result option" where
  "client_main show_int st opt w =
     (let pfx = None; fail = (\<lambda>e. (w, [], Some (Inl e)))
      in case map_result (\<lambda>p. make_gnmi_path p [] []) (co_paths opt) of
           Inl e \<Rightarrow> fail e
         | Inr paths \<Rightarrow>
       (case rbind (get_data_type (co_datatype opt)) (\<lambda>dt. rbind (get_sub_mode (co_submode opt)) (\<lambda>sm.
               rbind (dict_get [(''JSON'', JSON), (''JSON_IETF'', JSON_IETF)] (co_encoding opt)) (\<lambda>enc. Inr (dt, sm, enc)))) of
          Inl e \<Rightarrow> fail e
        | Inr (dt, sm, encoding) \<Rightarrow>
           (let vals = map JsonIetfVal (co_vals opt);
                read_count = (if co_submode opt \<noteq> ''STREAM'' then - 1 else co_readcount opt);
                m = make_subscription_list pfx paths sm encoding;
                c = client_init None (co_username opt) (co_password opt)
            in if co_operation opt = ''capabilities'' then out_lines (print_capabilities show_int) (get_capabilities st c w)
               else if co_operation opt = ''subscribe'' then
                 (let (w1, ls, n, r) = client_subscribe st c m (co_pollcount opt) read_count w
                  in (w1, OutText ''Starting subscription ....'' # ls @
                          (if r = Some (Inr ()) then [OutText ''.... subscription done''] else []), r))
               else if co_operation opt = ''get'' then
                 (case client_get st c pfx paths dt encoding w of
                    (w1, Inl e) \<Rightarrow> (w1, [], Some (Inl e))
                  | (w1, Inr ns) \<Rightarrow> (let (ls, r) = print_notifications ns in (w1, OutText ''Get - Notifications:'' # ls, Some r)))
               else if co_operation opt = ''set'' then
                 (if length paths \<noteq> length vals then fail RuntimeError
                  else out_lines print_set_response (client_set st c pfx (zip paths vals) w))
               else if co_operation opt = ''delete'' then out_lines print_set_response (client_delete st c pfx paths w)
               else (w, [], Some (Inr ())))))"

section \<open>The channel to the service\<close>

abbreviation ctx_of :: "dict \<Rightarrow> rpc_context" where
  "ctx_of metadata \<equiv> \<lparr>ctx_metadata = metadata, ctx_code = None, ctx_details = None\<rparr>"

text \<open>An exception of the service reaches the client as \<open>RpcError\<close>.\<close>

definition rpc_result :: "'w \<times> rpc_context \<times> 'a result \<Rightarrow> 'w \<times> 'a result" where
  "rpc_result wcr = (case wcr of (w, _, Inl e) \<Rightarrow> (w, Inl RpcError) | (w, _, Inr a) \<Rightarrow> (w, Inr a))"

text \<open>
  The stream of a subscription: the request stream is read to its end, and the client does not cancel before the
  responses that it gets. \<open>handler\<close> is \<open>get_subscription_handler\<close> of the adapter and \<open>hops\<close> are the methods of the
  handler.
\<close>

definition service_stub ::
  "'w adapter_ops \<Rightarrow> 'w adapter_ops \<Rightarrow> servicer \<Rightarrow> 's handler_ops \<Rightarrow> ('w \<Rightarrow> subscription_list \<Rightarrow> 's) \<Rightarrow> 'w stub" where
  "service_stub demo api sv hops handler =
     \<lparr>st_Capabilities = (\<lambda>md w. rpc_result (Capabilities demo api sv (ctx_of md) w)),
      st_Get = (\<lambda>rq md w. rpc_result (Get demo api sv rq (ctx_of md) w)),
      st_Set = (\<lambda>rq md w. rpc_result (Set demo api sv rq (ctx_of md) w)),
      st_Subscribe = (\<lambda>rqs md w.
        (case subscribe_start demo api sv rqs (ctx_of md) w of
           (w1, _, Inl e) \<Rightarrow> (w1, [], StreamError False)
         | (w1, _, Inr (sl, rest)) \<Rightarrow>
             (case subscribe_run hops sl rest False (handler w1 sl) of
                Inl e \<Rightarrow> (w1, [], StreamError False)
              | Inr (rs, _, _, out) \<Rightarrow>
                  (w1, rs, case out of Finished \<Rightarrow> StreamEnd | Blocked \<Rightarrow> StreamOpen | Raised e \<Rightarrow> StreamError False))))\<rparr>"

section \<open>Reading responses\<close>

definition printable :: "subscribe_response \<Rightarrow> bool" where
  "printable r \<longleftrightarrow> snd (print_notification (response_update r)) = Inr ()"

definition response_lines :: "int \<Rightarrow> subscribe_response \<Rightarrow> out_line list" where
  "response_lines read_count r = OutResponse read_count # fst (print_notification (response_update r))"

fun stream_result :: "stream_end \<Rightarrow> unit result option" where
  "stream_result StreamEnd = Some (Inr ())"
| "stream_result StreamOpen = None"
| "stream_result (StreamError eof) = Some (if eof then Inr () else Inl RpcError)"

lemma printableE:
  assumes "printable r"
  obtains ls where "print_notification (response_update r) = (ls, Inr ())"
  using assms by (cases "print_notification (response_update r)") (auto simp: printable_def)

lemma read_responses_all:
  assumes "\<forall>r \<in> set rs. printable r" and "read_count \<le> 0"
  shows "read_subscribe_responses rs fin read_count =
     (concat (map (response_lines read_count) rs), length rs, stream_result fin)"
  using assms
proof (induction rs)
  case Nil
  then show ?case by (cases fin) simp_all
next
  case (Cons r rs)
  obtain ls where "print_notification (response_update r) = (ls, Inr ())"
    using Cons.prems(1) by (auto elim: printableE)
  with Cons show ?case by (simp add: response_lines_def)
qed

lemma read_responses_count:
  assumes "\<forall>r \<in> set rs. printable r" and "length rs = Suc k"
  shows "read_subscribe_responses (rs @ rs') fin (int (Suc k)) =
     (concat (map2 response_lines (rev (map int [1..<Suc (Suc k)])) rs), Suc k, Some (Inr ()))"
  using assms
proof (induction k arbitrary: rs)
  case 0
  then obtain r where rs: "rs = [r]" by (cases rs) auto
  with 0 obtain ls where "print_notification (response_update r) = (ls, Inr ())"
    by (auto elim: printableE)
  with rs show ?case by (simp add: response_lines_def)
next
  case (Suc k)
  then obtain r qs where rs: "rs = r # qs" "length qs = Suc k" by (cases rs) auto
  with Suc.prems(1) obtain ls where "print_notification (response_update r) = (ls, Inr ())"
    by (auto elim: printableE)
  moreover have "read_subscribe_responses (qs @ rs') fin (int (Suc k)) =
      (concat (map2 response_lines (rev (map int [1..<Suc (Suc k)])) qs), Suc k, Some (Inr ()))"
    using Suc.IH [of qs] Suc.prems(1) rs by simp
  ultimately show ?case using rs(1) by (simp add: response_lines_def add.commute)
qed

section \<open>Properties\<close>

text \<open>
  With a positive read count, the client prints that many responses, counting down, and returns after
  them, whether or not the server has more to send or is waiting for events.
\<close>

theorem read_count_returns:
  assumes "0 < read_count" and "nat read_count \<le> length rs"
    and "\<forall>r \<in> set (take (nat read_count) rs). printable r"
  shows "read_subscribe_responses rs fin read_count =
     (concat (map2 response_lines (rev (map int [1..<Suc (nat read_count)])) (take (nat read_count) rs)),
      nat read_count, Some (Inr ()))"
proof -
  obtain k where k: "nat read_count = Suc k" using assms(1) by (cases "nat read_count") auto
  then have "read_count = int (Suc k)" by simp
  with read_responses_count [of "take (Suc k) rs" k "drop (Suc k) rs" fin] assms(2,3) k
  show ?thesis by simp
qed

lemma read_count_returns_witness:
  "let r = RespUpdate \<lparr>n_timestamp = 7, n_prefix = empty_path, n_update = [], n_delete = [], n_atomic = False\<rparr>
   in \<exists>out. read_subscribe_responses [r, RespSync True, r] StreamOpen 2 = (out, 2, Some (Inr ()))"
proof -
  let ?r = "RespUpdate \<lparr>n_timestamp = 7, n_prefix = empty_path, n_update = [], n_delete = [], n_atomic = False\<rparr>"
  have "\<forall>r \<in> set (take (nat 2) [?r, RespSync True, ?r]). printable r"
    by (simp add: printable_def print_notification_def Let_def numeral_2_eq_2)
  from read_count_returns [OF _ _ this, of StreamOpen] show ?thesis by simp
qed

lemma client_user: "has_user (ctx_of (c_metadata (client_init None u p)))"
  by (simp add: has_user_def client_init_def)

lemma interfaces_xpath:
  "make_xpath_path None (Some (root_prefix ''interfaces'')) False = ''/interfaces''"
  by (simp add: root_prefix_def make_xpath_path_def make_string_path_def make_path_def elem_str_def)



text \<open>
  A polling client of the demo server, with \<open>k\<close> polls: it prints the sample, the sync response as an
  empty notification at time 0, and \<open>k\<close> more samples; all responses are read and the call returns.
\<close>

theorem client_poll:
  assumes "encoding = JSON \<or> encoding = JSON_IETF"
    and "m = make_subscription_list pfx paths POLL encoding"
    and "sample hops (received_list m) False (handler (filled w) (received_list m)) =
           Inr (handler (filled w) (received_list m), RespUpdate n)"
    and "print_notification n = (ls, Inr ())"
  shows "client_subscribe (service_stub (demo_adapter_ops f) api demo_servicer hops handler)
       (client_init None username password) m k (- 1) w =
     (filled w,
      (OutResponse (- 1) # ls) @
      [OutResponse (- 1), OutNotification 0 [] False, OutUpdates] @
      concat (replicate (nat k) (OutResponse (- 1) # ls)),
      nat k + 2, Some (Inr ()))"
proof -
  let ?sl = "received_list m" and ?c = "client_init None username password"
  let ?rs = "RespUpdate n # sync_response # replicate (nat k) (RespUpdate n)"
  have poll: "is_poll ?sl" and mode: "sm_mode m = POLL" and enc: "sl_encoding ?sl = encoding"
    using assms(2) by (simp_all add: received_list_def make_subscription_list_def is_poll_def)
  have run: "subscribe_run hops ?sl (replicate (nat k) make_poll_subscription) False (handler (filled w) ?sl) =
      Inr (?rs, [], handler (filled w) ?sl, Finished)"
    using subscribe_poll [OF poll assms(3), of "replicate (nat k) make_poll_subscription" False] by simp
  have start: "subscribe_start (demo_adapter_ops f) api demo_servicer (generate_subscriptions m k) (ctx_of (c_metadata ?c)) w =
      (filled w, ctx_of (c_metadata ?c), Inr (?sl, replicate (nat k) make_poll_subscription))"
    using assms(1) mode enc client_user [of username password]
    by (auto simp: subscribe_start_def generate_subscriptions_def demo_connected verify_encoding_supported_def
        demo_ensure_encoding hasattr_subscribe_def)
  have empty: "print_notification (response_update sync_response) = ([OutNotification 0 [] False, OutUpdates], Inr ())"
    by (simp add: sync_response_def print_notification_def make_xpath_path_def make_string_path_def
        make_path_def)
  have "\<forall>r \<in> set ?rs. printable r"
    using assms(4) empty by (auto simp: printable_def)
  from read_responses_all [OF this, of "- 1" StreamEnd] assms(4) empty start run
  show ?thesis
    by (simp add: client_subscribe_def service_stub_def response_lines_def)
qed

lemma client_poll_witness:
  "let m = make_subscription_list None [] POLL JSON_IETF;
       w = \<lparr>dw_has_instance = True, dw_adapter = adapter_of one_if\<rparr>;
       st = service_stub (demo_adapter_ops (\<lambda>_. [])) (demo_adapter_ops (\<lambda>_. [])) demo_servicer demo_ops
         (\<lambda>w. demo_handler_init (dw_adapter w))
   in \<exists>out. snd (client_subscribe st (client_init None ''admin'' ''admin'') m 3 (- 1) w) = (out, 5, Some (Inr ()))"
proof -
  let ?m = "make_subscription_list None [] POLL JSON_IETF"
  let ?w = "\<lparr>dw_has_instance = True, dw_adapter = adapter_of one_if\<rparr>"
  let ?n = "\<lparr>n_timestamp = 0, n_prefix = empty_path, n_update = [], n_delete = [], n_atomic = False\<rparr>"
  have enc: "JSON_IETF = JSON \<or> JSON_IETF = JSON_IETF" by simp
  have sam: "sample demo_ops (received_list ?m) False (demo_handler_init (dw_adapter (filled ?w)) (received_list ?m)) =
      Inr (demo_handler_init (dw_adapter (filled ?w)) (received_list ?m), RespUpdate ?n)"
    by (simp add: sample_def received_list_def make_subscription_list_def opt_path_def Let_def)
  have pr: "print_notification ?n = ([OutNotification 0 [] False, OutUpdates], Inr ())"
    by (simp add: print_notification_def make_xpath_path_def make_string_path_def)
  show ?thesis
    using client_poll [OF enc refl, of demo_ops None "[]" "\<lambda>w. demo_handler_init (dw_adapter w)" ?w ?n, OF sam pr,
        of "\<lambda>_. []" "demo_adapter_ops (\<lambda>_. [])" "''admin''" "''admin''" 3]
    by (simp add: Let_def)
qed

end
