(* ===== verification/Py_World.thy ===== *)
theory Py_World
  imports Py_Prelude
begin

text \<open>
  Programs that mostly call other programs. What happens outside is an environment: for the history of all
  calls so far, the last of which is the present one, it says whether the call raises and what it returns. A program
  (\<open>('e, 'a) io\<close>) extends the history and returns, raises, or is still running when its fuel is used up.

  The effects of a program are the visible calls in the history that it leaves. \<open>emits en vis m h L\<close> says that the
  program \<open>m\<close> has the effects \<open>L\<close>: whatever fails outside, what it leaves is a prefix of \<open>L\<close>, and all of \<open>L\<close> if it returns. The
  collection \<open>emits_rules\<close> has one rule for every construct.
\<close>

named_theorems emits_rules \<open>effects of the program constructs\<close>

section \<open>Programs\<close>

datatype 'a outcome = Ret 'a | Raise py_error | Running

record 'e env =
  en_fail :: "'e list \<Rightarrow> py_error option"
  en_bool :: "'e list \<Rightarrow> bool"
  en_num :: "'e list \<Rightarrow> nat"
  en_str :: "'e list \<Rightarrow> string"

type_synonym ('e, 'a) io = "'e env \<Rightarrow> 'e list \<Rightarrow> 'e list \<times> 'a outcome"

definition io_ret :: "'a \<Rightarrow> ('e, 'a) io" where
  "io_ret a = (\<lambda>en h. (h, Ret a))"

definition io_raise :: "py_error \<Rightarrow> ('e, 'a) io" where
  "io_raise e = (\<lambda>en h. (h, Raise e))"

definition io_running :: "('e, 'a) io" where
  "io_running = (\<lambda>en h. (h, Running))"

definition io_bind :: "('e, 'a) io \<Rightarrow> ('a \<Rightarrow> ('e, 'b) io) \<Rightarrow> ('e, 'b) io" where
  "io_bind m f = (\<lambda>en h.
     case m en h of (h1, Ret a) \<Rightarrow> f a en h1 | (h1, Raise e) \<Rightarrow> (h1, Raise e) | (h1, Running) \<Rightarrow> (h1, Running))"

abbreviation io_then :: "('e, 'a) io \<Rightarrow> ('e, 'b) io \<Rightarrow> ('e, 'b) io" where
  "io_then m m' \<equiv> io_bind m (\<lambda>_. m')"

text \<open>A call whose answer is read from the environment.\<close>

definition ask :: "('e env \<Rightarrow> 'e list \<Rightarrow> 'a) \<Rightarrow> 'e \<Rightarrow> ('e, 'a) io" where
  "ask field e = (\<lambda>en h.
     (h @ [e], case en_fail en (h @ [e]) of Some x \<Rightarrow> Raise x | None \<Rightarrow> Ret (field en (h @ [e]))))"

definition call :: "'e \<Rightarrow> ('e, unit) io" where
  "call = ask (\<lambda>_ _. ())"

fun calls :: "'e list \<Rightarrow> ('e, unit) io" where
  "calls [] = io_ret ()"
| "calls (e # es) = io_then (call e) (calls es)"

text \<open>The \<open>with\<close> statement: the end of the context is reached however the body ends.\<close>

definition io_with :: "'e \<Rightarrow> 'e \<Rightarrow> ('e, 'a) io \<Rightarrow> ('e, 'a) io" where
  "io_with enter leave m = io_then (call enter)
     (\<lambda>en h. case m en h of (h1, Running) \<Rightarrow> (h1, Running) | (h1, r) \<Rightarrow> (h1 @ [leave], r))"

definition io_when :: "bool \<Rightarrow> ('e, unit) io \<Rightarrow> ('e, unit) io" where
  "io_when b m = (if b then m else io_ret ())"

definition io_except :: "('e, 'a) io \<Rightarrow> py_error \<Rightarrow> ('e, 'a) io \<Rightarrow> ('e, 'a) io" where
  "io_except m x m' = (\<lambda>en h. case m en h of (h1, Raise e) \<Rightarrow> if e = x then m' en h1 else (h1, Raise e) | r \<Rightarrow> r)"

text \<open>A \<open>try\<close> whose handlers take every exception: the exception or the value is the result.\<close>

definition io_attempt :: "('e, 'a) io \<Rightarrow> ('e, 'a result) io" where
  "io_attempt m = (\<lambda>en h. case m en h of (h1, Ret a) \<Rightarrow> (h1, Ret (Inr a)) | (h1, Raise e) \<Rightarrow> (h1, Ret (Inl e)) | (h1, Running) \<Rightarrow> (h1, Running))"

definition io_try :: "('e, 'a) io \<Rightarrow> ('e, py_error option) io" where
  "io_try m = io_bind (io_attempt m) (\<lambda>r. io_ret (case r of Inl e \<Rightarrow> Some e | Inr _ \<Rightarrow> None))"

text \<open>\<open>subprocess.run\<close> with \<open>check=True\<close>.\<close>

definition run_checked :: "'e \<Rightarrow> ('e, unit) io" where
  "run_checked e = io_bind (ask en_num e) (\<lambda>code. if code = 0 then io_ret () else io_raise CalledProcessError)"

section \<open>Effects\<close>

definition emits :: "'e env \<Rightarrow> ('e \<Rightarrow> bool) \<Rightarrow> ('e, 'a) io \<Rightarrow> 'e list \<Rightarrow> 'e list \<Rightarrow> bool" where
  "emits en vis m h L \<longleftrightarrow>
     (\<exists>ks. filter vis (fst (m en h)) = filter vis h @ ks \<and> prefix ks L \<and> (\<forall>a. snd (m en h) = Ret a \<longrightarrow> ks = L))"

text \<open>A program without visible calls.\<close>

abbreviation silent :: "'e env \<Rightarrow> ('e \<Rightarrow> bool) \<Rightarrow> ('e, 'a) io \<Rightarrow> 'e list \<Rightarrow> bool" where
  "silent en vis m h \<equiv> emits en vis m h []"

lemma emits_ret [emits_rules]: "silent en vis (io_ret a) h"
  by (simp add: emits_def io_ret_def)

lemma emits_raise: "emits en vis (io_raise e) h L"
  by (simp add: emits_def io_raise_def)

lemma emits_running: "emits en vis io_running h L"
  by (simp add: emits_def io_running_def)

lemma emits_bind:
  assumes "emits en vis m h L" and "\<And>a h1. m en h = (h1, Ret a) \<Longrightarrow> emits en vis (f a) h1 L'"
  shows "emits en vis (io_bind m f) h (L @ L')"
proof -
  obtain h1 r where m: "m en h = (h1, r)" by (cases "m en h")
  with assms(1) obtain ks where ks: "filter vis h1 = filter vis h @ ks" "prefix ks L" "\<forall>a. r = Ret a \<longrightarrow> ks = L"
    by (auto simp: emits_def)
  show ?thesis
  proof (cases r)
    case (Ret a)
    with assms(2) [of h1 a] m ks show ?thesis by (fastforce simp: emits_def io_bind_def)
  qed (use m ks in \<open>auto simp: emits_def io_bind_def\<close>)
qed

lemma emits_silent_bind:
  assumes "silent en vis m h" and "\<And>a h1. m en h = (h1, Ret a) \<Longrightarrow> emits en vis (f a) h1 L'"
  shows "emits en vis (io_bind m f) h L'"
  using emits_bind [OF assms] by simp

text \<open>Effects that depend on what is read before them.\<close>

lemma emits_bind_ex:
  assumes "silent en vis m h" and "\<And>a h1. m en h = (h1, Ret a) \<Longrightarrow> \<exists>x. emits en vis (f a) h1 (F x)"
  shows "\<exists>x. emits en vis (io_bind m f) h (F x)"
proof (cases "\<exists>a h1. m en h = (h1, Ret a)")
  case True
  then obtain a h1 where m: "m en h = (h1, Ret a)" by blast
  with assms(2) obtain x where "emits en vis (f a) h1 (F x)" by blast
  with m have "emits en vis (io_bind m f) h (F x)" by (intro emits_silent_bind [OF assms(1)]) auto
  then show ?thesis ..
next
  case False
  then have "emits en vis (io_bind m f) h (F x)" for x by (intro emits_silent_bind [OF assms(1)]) auto
  then show ?thesis by blast
qed

lemma emits_ask: "emits en vis (ask field e) h (if vis e then [e] else [])"
  by (auto simp: emits_def ask_def split: option.splits)

lemma emits_one: "vis e \<Longrightarrow> emits en vis (call e) h [e]"
  using emits_ask [of en vis "\<lambda>_ _. ()" e h] by (simp add: call_def)

lemma silent_ask [emits_rules]: "\<not> vis e \<Longrightarrow> silent en vis (ask field e) h"
  using emits_ask [of en vis field e h] by simp

lemma emits_ask_ex:
  assumes "\<not> vis e" and "\<And>a h1. \<exists>x. emits en vis (f a) h1 (F x)"
  shows "\<exists>x. emits en vis (io_bind (ask field e) f) h (F x)"
  by (rule emits_bind_ex) (use assms in \<open>auto intro: silent_ask\<close>)

lemma emits_ask_vis:
  assumes "vis e" and "\<And>a h1. \<exists>x. emits en vis (f a) h1 (F a x)"
  shows "\<exists>a x. emits en vis (io_bind (ask field e) f) h (e # F a x)"
proof -
  let ?a = "field en (h @ [e])"
  obtain x where x: "emits en vis (f ?a) (h @ [e]) (F ?a x)" using assms(2) by blast
  have "emits en vis (io_bind (ask field e) f) h ([e] @ F ?a x)"
    using emits_ask [of en vis field e h] assms(1)
    by (intro emits_bind) (use x in \<open>auto simp: ask_def split: option.splits\<close>)
  then show ?thesis by auto
qed

lemma silent_call [emits_rules]: "\<not> vis e \<Longrightarrow> silent en vis (call e) h"
  unfolding call_def by (rule silent_ask)

lemma emits_calls: "emits en vis (calls es) h (filter vis es)"
proof (induction es arbitrary: h)
  case Nil
  show ?case by (simp add: emits_ret)
next
  case (Cons e es)
  from emits_bind [OF emits_ask [of en vis "\<lambda>_ _. ()" e h] Cons.IH] show ?case by (simp add: call_def split: if_splits)
qed

lemma call_Ret: "call e en h = (h1, Ret a) \<Longrightarrow> h1 = h @ [e]"
  by (simp add: call_def ask_def split: option.splits)

lemma ask_Ret: "ask field e en h = (h1, Ret a) \<Longrightarrow> h1 = h @ [e] \<and> a = field en (h @ [e])"
  by (auto simp: ask_def split: option.splits)

lemma emits_with:
  assumes "\<not> vis enter" and "\<not> vis leave" and "emits en vis m (h @ [enter]) L"
  shows "emits en vis (io_with enter leave m) h L"
  unfolding io_with_def
proof (rule emits_silent_bind)
  show "silent en vis (call enter) h" using assms(1) by (rule silent_call)
next
  fix a h1
  assume "call enter en h = (h1, Ret a)"
  then have "h1 = h @ [enter]" by (rule call_Ret)
  then show "emits en vis (\<lambda>en h. case m en h of (h1, Running) \<Rightarrow> (h1, Running) | (h1, r) \<Rightarrow> (h1 @ [leave], r)) h1 L"
    using assms by (auto simp: emits_def split: prod.splits outcome.splits)
qed

lemma emits_if: "(b \<Longrightarrow> emits en vis m h L) \<Longrightarrow> (\<not> b \<Longrightarrow> emits en vis m' h L) \<Longrightarrow> emits en vis (if b then m else m') h L"
  by simp

lemmas silent_intros = emits_silent_bind emits_with emits_if emits_ret silent_ask silent_call emits_raise emits_running

lemma silent_when: "silent en vis m h \<Longrightarrow> silent en vis (io_when b m) h"
  by (simp add: io_when_def emits_ret)

lemma silent_calls: "list_all (\<lambda>e. \<not> vis e) es \<Longrightarrow> silent en vis (calls es) h"
  using emits_calls [of en vis es h] by (simp add: list_all_iff)

lemma emits_when [emits_rules]:
  "(b \<Longrightarrow> emits en vis m h L) \<Longrightarrow> emits en vis (io_when b m) h (if b then L else [])"
  by (simp add: io_when_def emits_ret)

lemma emits_run_checked [emits_rules]: "emits en vis (run_checked e) h (if vis e then [e] else [])"
  unfolding run_checked_def
  using emits_bind [OF emits_ask [of en vis en_num e h], of "\<lambda>code. if code = 0 then io_ret () else io_raise CalledProcessError" "[]"]
  by (simp add: emits_ret emits_raise)

text \<open>An exception that is turned into another one, and one whose handler does nothing visible.\<close>

lemma emits_except_raise:
  assumes "emits en vis m h L"
  shows "emits en vis (io_except m x (io_raise e)) h L"
  using assms by (auto simp: emits_def io_except_def io_raise_def split: prod.splits outcome.splits)

lemma emits_except_print:
  assumes "vis e" and "\<not> vis p"
  shows "emits en vis (io_except (call e) x (call p)) h [e]"
  using assms by (auto simp: emits_def io_except_def call_def ask_def split: prod.splits outcome.splits option.splits)

text \<open>A program that returned did all its calls.\<close>

lemma io_bind_Ret: "io_bind m f en h = (h', Ret b) \<longleftrightarrow> (\<exists>h1 a. m en h = (h1, Ret a) \<and> f a en h1 = (h', Ret b))"
  by (auto simp: io_bind_def split: prod.splits outcome.splits)

lemma calls_Ret: "calls es en h = (h', Ret a) \<Longrightarrow> h' = h @ es"
proof (induction es arbitrary: h)
  case (Cons e es)
  then obtain h1 where "call e en h = (h1, Ret ())" "calls es en h1 = (h', Ret ())" by (auto simp: io_bind_Ret)
  with Cons.IH call_Ret show ?case by fastforce
qed (simp add: io_ret_def)

lemma emits_calls_then:
  assumes "filter vis es = es" and "\<And>h1. \<exists>x. emits en vis m h1 (F x)"
  shows "\<exists>x. emits en vis (io_then (calls es) m) h (es @ F x)"
proof -
  obtain x where x: "emits en vis m (h @ es) (F x)" using assms(2) by blast
  have "emits en vis (io_then (calls es) m) h (es @ F x)"
  proof (rule emits_bind)
    show "emits en vis (calls es) h es" using emits_calls [of en vis es h] assms(1) by simp
    show "emits en vis m h1 (F x)" if "calls es en h = (h1, Ret a)" for a h1 using x calls_Ret [OF that] by simp
  qed
  then show ?thesis ..
qed

lemma calls_history:
  assumes "calls es en h = (h', r)"
  shows "\<exists>ks. h' = h @ ks \<and> prefix ks es"
  using assms
proof (induction es arbitrary: h)
  case (Cons e es)
  show ?case
  proof (cases "en_fail en (h @ [e])")
    case None
    with Cons.prems have "calls es en (h @ [e]) = (h', r)" by (simp add: io_bind_def call_def ask_def)
    with Cons.IH obtain ks where "h' = (h @ [e]) @ ks" "prefix ks es" by blast
    then show ?thesis by (intro exI [of _ "e # ks"]) simp
  next
    case (Some x)
    with Cons.prems show ?thesis by (intro exI [of _ "[e]"]) (simp add: io_bind_def call_def ask_def)
  qed
qed (simp add: io_ret_def)

lemma io_try_Ret: "io_try m en h = (h', Ret r) \<Longrightarrow> \<exists>x. m en h = (h', x) \<and> (r = None \<longleftrightarrow> (\<exists>a. x = Ret a))"
  by (auto simp: io_try_def io_attempt_def io_bind_def io_ret_def split: prod.splits outcome.splits)

text \<open>Reading the statement: the effects from an empty history.\<close>

lemma emitsD:
  assumes "emits en vis m [] L" and "m en [] = (h, r)"
  shows "prefix (filter vis h) L" and "r = Ret a \<Longrightarrow> filter vis h = L"
  using assms by (auto simp: emits_def)

end
