(* ===== verification/Gnmi_Connect.thy ===== *)
theory Gnmi_Connect
  imports Py_World
begin

text \<open>
  How the parts of the gNMI demonstration connect: the channel of the client (\<open>__init__\<close> and \<open>close\<close> in \<open>confd_gnmi_client.py\<close>) and the server for
  external changes (\<open>start_external_change_server\<close> in \<open>confd_gnmi_api_adapter.py\<close>), over an environment.
\<close>

section \<open>The client\<close>

datatype channel_event =
    InsecureChannel string
  | OpenCertFile string
  | CloseCertFile
  | ReadCertFile
  | GetServerCertificate string int
  | SecureChannel string string
  | ChannelReady nat
  | CloseChannel

type_synonym 'a channel_prog = "(channel_event, 'a) io"

definition channel_target :: "string \<Rightarrow> int \<Rightarrow> string" where
  "channel_target host port = host @ '':'' @ int_str port"

text \<open>The certificate: from the file, or from the server itself.\<close>

definition server_cert :: "string \<Rightarrow> int \<Rightarrow> string option \<Rightarrow> string channel_prog" where
  "server_cert host port server_crt_file =
     (case server_crt_file of
        Some (c # cs) \<Rightarrow> io_with (OpenCertFile (c # cs)) CloseCertFile (ask en_str ReadCertFile)
      | _ \<Rightarrow> ask en_str (GetServerCertificate host port))"

definition open_channel :: "string \<Rightarrow> int \<Rightarrow> bool \<Rightarrow> string option \<Rightarrow> unit channel_prog" where
  "open_channel host port insecure server_crt_file =
     (if insecure then call (InsecureChannel (channel_target host port))
      else io_bind (server_cert host port server_crt_file) (\<lambda>ssl_cert. call (SecureChannel (channel_target host port) ssl_cert)))"

text \<open>The result is the metadata of every call.\<close>

definition client_connect ::
  "string \<Rightarrow> int \<Rightarrow> dict option \<Rightarrow> bool \<Rightarrow> string option \<Rightarrow> string \<Rightarrow> string \<Rightarrow> dict channel_prog" where
  "client_connect host port metadata insecure server_crt_file username password =
     (let md = (case metadata of None \<Rightarrow> [(''username'', username), (''password'', password)] | Some m \<Rightarrow> m)
      in io_then (open_channel host port insecure server_crt_file) (io_then (call (ChannelReady 5)) (io_ret md)))"

definition client_close :: "unit channel_prog" where
  "client_close = call CloseChannel"

section \<open>The server for external changes\<close>

datatype ext_event = NewExtSock | BindExt string int | ListenExt nat

definition start_external_change_server :: "int \<Rightarrow> (ext_event, unit) io" where
  "start_external_change_server external_port = calls [NewExtSock, BindExt ''localhost'' external_port, ListenExt 5]"

section \<open>Correctness\<close>

fun opens :: "channel_event \<Rightarrow> bool" where
  "opens (InsecureChannel _) = True"
| "opens (SecureChannel _ _) = True"
| "opens (ChannelReady _) = True"
| "opens _ = False"

lemma server_cert_silent: "silent en opens (server_cert host port crt) h"
  unfolding server_cert_def by (auto split: option.splits list.splits intro!: emits_with silent_ask)

text \<open>
  The client opens one channel, to the host and port that it was given, and only an insecure one if it was asked to; it waits for
  the channel before it returns, and returns the user and the password unless it was given other metadata.
\<close>

theorem client_connect_channel:
  assumes "client_connect host port metadata insecure crt username password en [] = (h, r)"
  shows "\<exists>cert. let c = (if insecure then InsecureChannel (channel_target host port) else SecureChannel (channel_target host port) cert)
     in prefix (filter opens h) [c, ChannelReady 5] \<and>
        (\<forall>md. r = Ret md \<longrightarrow> filter opens h = [c, ChannelReady 5] \<and>
           md = (case metadata of None \<Rightarrow> [(''username'', username), (''password'', password)] | Some m \<Rightarrow> m))"
proof -
  let ?c = "\<lambda>cert. if insecure then InsecureChannel (channel_target host port) else SecureChannel (channel_target host port) cert"
  have ch: "\<exists>cert. emits en opens (open_channel host port insecure crt) [] [?c cert]"
  proof (cases insecure)
    case True
    then show ?thesis by (simp add: open_channel_def emits_one)
  next
    case False
    have "\<exists>cert. emits en opens (open_channel host port False crt) [] [SecureChannel (channel_target host port) cert]"
      unfolding open_channel_def if_False
      by (rule emits_bind_ex [OF server_cert_silent]) (rule exI, rule emits_one, simp)
    with False show ?thesis by simp
  qed
  then obtain cert where ch: "emits en opens (open_channel host port insecure crt) [] [?c cert]" by blast
  have ready: "emits en opens (io_then (call (ChannelReady 5)) (io_ret md)) h1 ([ChannelReady 5] @ [])" for md h1
    by (rule emits_bind [OF emits_one]) (simp_all add: emits_ret)
  from emits_bind [OF ch ready] have em: "emits en opens (client_connect host port metadata insecure crt username password) [] [?c cert, ChannelReady 5]"
    by (simp only: client_connect_def Let_def append.simps)
  have md: "r = Ret md \<Longrightarrow> md = (case metadata of None \<Rightarrow> [(''username'', username), (''password'', password)] | Some m \<Rightarrow> m)" for md
    using assms by (auto simp: client_connect_def Let_def io_bind_Ret io_ret_def)
  show ?thesis using emitsD [OF em assms] md unfolding Let_def by blast
qed

definition calm_channel :: "channel_event env" where
  "calm_channel = \<lparr>en_fail = (\<lambda>_. None), en_bool = (\<lambda>_. True), en_num = (\<lambda>_. 0), en_str = (\<lambda>_. ''cert'')\<rparr>"

lemma calm_connect:
  "snd (client_connect ''h'' 1 None True None ''admin'' ''admin'' calm_channel []) = Ret [(''username'', ''admin''), (''password'', ''admin'')]"
  by code_simp

lemma client_connect_channel_witness:
  "filter opens (fst (client_connect ''h'' 1 None True None ''admin'' ''admin'' calm_channel [])) =
     [InsecureChannel (channel_target ''h'' 1), ChannelReady 5]"
  using client_connect_channel [where host = "''h''" and port = 1 and metadata = None and insecure = True and crt = None and username = "''admin''"
      and password = "''admin''" and en = calm_channel, OF prod.collapse [symmetric]] calm_connect
  by (simp add: Let_def)

end
