(* ===== verification/Gnmi_Api_Adapter.thy ===== *)
theory Gnmi_Api_Adapter
  imports Gnmi_Server
begin

text \<open>
  The adapter of \<open>confdgnmi/src/confd_gnmi_api_adapter.py\<close> that serves gNMI requests from a running
  ConfD: path prefixes, key paths, values, and the get, set and delete calls.

  The ConfD libraries (\<open>_confd\<close>, \<open>maapi\<close>, \<open>cdb\<close>) are not part of the repository. What the adapter
  calls of them is the record \<open>confd_lib\<close> (schema lookups and printing), a read transaction \<open>read_trans\<close> and the
  operations of a write transaction \<open>write_trans\<close> over the state \<open>'t\<close> of the transaction and the state \<open>'w\<close>
  of the database. The data the library hands out, schema nodes, key paths and values, are
  ordinary data with the attributes that the adapter reads.

  A string stands for its UTF-8 octets.
\<close>

section \<open>Data of the library\<close>

datatype cval_type =
    CT_INT8 | CT_INT16 | CT_INT32 | CT_UINT8 | CT_UINT16 | CT_UINT32
  | CT_BOOL | CT_IDENTITYREF | CT_OTHER

definition INT_VALS :: "cval_type set" where
  "INT_VALS = {CT_INT8, CT_INT16, CT_INT32, CT_UINT8, CT_UINT16, CT_UINT32}"

text \<open>The flags, the key tags and the type of a schema node, and its parent.\<close>

record node_info =
  ni_is_list :: bool
  ni_is_cdb :: bool
  ni_is_write :: bool
  ni_keys :: "int list"
  ni_identityref :: bool

datatype cs_node = CsNode (cs_info: node_info) (cs_parent: "cs_node option")

record confd_value =
  cv_type :: cval_type
  cv_int :: int
  cv_bool :: bool
  cv_str :: string
  cv_val2str :: "node_info \<Rightarrow> string"

text \<open>A key path has its last element first: tags with their namespaces, and the keys of a list entry.\<close>

datatype kp_item = KpTag int int | KpKeys "confd_value list"

type_synonym keypath = "kp_item list"

record confd_lib =
  cl_nslist :: "(int \<times> string \<times> string) list"
  cl_hash2str :: "int \<Rightarrow> string"
  cl_cs_node_cd :: "cs_node option \<Rightarrow> string \<Rightarrow> cs_node option"
  cl_pp_kpath :: "keypath \<Rightarrow> string"
  cl_xpath_pp_kpath :: "keypath \<Rightarrow> string"
  cl_str2val :: "string \<Rightarrow> node_info \<Rightarrow> confd_value result"
  cl_callback_error :: "py_error \<Rightarrow> py_error"

section \<open>The adapter\<close>

record api_class =
  ac_confd_addr :: string
  ac_confd_port :: int
  ac_monitor_external_changes :: bool
  ac_external_port :: int

text \<open>The defaults of \<open>confd_gnmi_api_adapter_defaults.py\<close>; the default port is not zero, so it is taken.\<close>

definition ApiAdapterDefaults :: api_class where
  "ApiAdapterDefaults =
     \<lparr>ac_confd_addr = ''127.0.0.1'', ac_confd_port = 4565, ac_monitor_external_changes = False,
      ac_external_port = 5055\<rparr>"

definition api_class_init :: "int \<Rightarrow> api_class" where
  "api_class_init CONFD_PORT =
     (let d = ApiAdapterDefaults
      in d\<lparr>ac_confd_port := (if ac_confd_port d \<noteq> 0 then ac_confd_port d else CONFD_PORT)\<rparr>)"

definition set_confd_addr :: "string \<Rightarrow> api_class \<Rightarrow> api_class" where
  "set_confd_addr addr c = c\<lparr>ac_confd_addr := addr\<rparr>"

definition set_confd_port :: "int \<Rightarrow> int option \<Rightarrow> api_class \<Rightarrow> api_class" where
  "set_confd_port CONFD_PORT port c =
     c\<lparr>ac_confd_port := (case port of None \<Rightarrow> CONFD_PORT | Some p \<Rightarrow> p)\<rparr>"

definition set_external_port :: "int \<Rightarrow> api_class \<Rightarrow> api_class" where
  "set_external_port port c = c\<lparr>ac_external_port := port\<rparr>"

definition set_monitor_external_changes :: "bool \<Rightarrow> api_class \<Rightarrow> api_class" where
  "set_monitor_external_changes v c = c\<lparr>ac_monitor_external_changes := v\<rparr>"

record api_adapter =
  aa_addr :: string
  aa_port :: int
  aa_username :: string
  aa_password :: string
  aa_module_to_pfx :: dict
  aa_pfx_to_module :: dict
  aa_ns_to_module :: "(int \<times> string) list"

text \<open>A dictionary comprehension: later entries win and keep the place of earlier ones.\<close>

definition dict_comp :: "('a \<Rightarrow> 'k) \<Rightarrow> ('a \<Rightarrow> 'v) \<Rightarrow> 'a list \<Rightarrow> ('k \<times> 'v) list" where
  "dict_comp key val xs = fold (\<lambda>x. AList.update (key x) (val x)) xs []"

definition api_init :: "confd_lib \<Rightarrow> api_adapter" where
  "api_init lib =
     \<lparr>aa_addr = [], aa_port = 0, aa_username = [], aa_password = [],
      aa_module_to_pfx = dict_comp (snd \<circ> snd) (fst \<circ> snd) (cl_nslist lib),
      aa_pfx_to_module = dict_comp (fst \<circ> snd) (snd \<circ> snd) (cl_nslist lib),
      aa_ns_to_module = dict_comp fst (snd \<circ> snd) (cl_nslist lib)\<rparr>"

definition api_connect ::
  "api_class \<Rightarrow> string option \<Rightarrow> int option \<Rightarrow> string \<Rightarrow> string \<Rightarrow> api_adapter \<Rightarrow> api_adapter" where
  "api_connect c addr port username password a =
     a\<lparr>aa_addr := (case addr of None \<Rightarrow> ac_confd_addr c | Some x \<Rightarrow> x),
       aa_port := (case port of None \<Rightarrow> ac_confd_port c | Some x \<Rightarrow> x),
       aa_username := username, aa_password := password\<rparr>"

text \<open>
  \<open>get_netconf_capabilities\<close>: the modules read from \<open>modules-state\<close>, as namespace, name and
  revision. When opening the transaction raises, \<open>values\<close> is never assigned; an exception during
  the iteration leaves the modules read before.
\<close>

definition get_netconf_capabilities ::
  "((string \<times> string \<times> string) list \<times> py_error option) result \<Rightarrow>
     (string \<times> string \<times> string \<times> string) list result" where
  "get_netconf_capabilities modules_state =
     (case modules_state of
        Inl e \<Rightarrow> Inl UnboundLocalError
      | Inr (modules, err) \<Rightarrow>
          Inr (map (\<lambda>(namespace, name, revision). (namespace, namespace @ '':'' @ name, [], revision)) modules))"

definition api_capabilities ::
  "((string \<times> string \<times> string) list \<times> py_error option) result \<Rightarrow> capability_model list result" where
  "api_capabilities modules_state =
     rbind (get_netconf_capabilities modules_state) (\<lambda>ns_list.
       Inr (map (\<lambda>(_, name, _, version).
         \<lparr>cm_name = name, cm_organization = [], cm_version = version, cm_schema = []\<rparr>) ns_list))"

definition api_encodings :: "int list" where
  "api_encodings = [JSON, JSON_IETF]"

section \<open>Paths and values\<close>

text \<open>
  \<open>re.sub(r'([^/:]+):', ...)\<close>: the text between two of the characters \<open>/\<close> and \<open>:\<close> is collected in \<open>acc\<close>,
  backwards, and replaced when a colon follows it.
\<close>

fun fix_prefixes_loop :: "dict \<Rightarrow> string \<Rightarrow> string \<Rightarrow> string" where
  "fix_prefixes_loop m acc [] = rev acc"
| "fix_prefixes_loop m acc (c # s) =
     (if c = CHR '':'' then
        (if acc = [] then [] else case map_of m (rev acc) of None \<Rightarrow> rev acc | Some pfx \<Rightarrow> pfx) @
        '':'' @ fix_prefixes_loop m [] s
      else if c = CHR ''/'' then rev acc @ ''/'' @ fix_prefixes_loop m [] s
      else fix_prefixes_loop m (c # acc) s)"

definition fix_path_prefixes :: "api_adapter \<Rightarrow> string \<Rightarrow> string" where
  "fix_path_prefixes a path = fix_prefixes_loop (aa_module_to_pfx a) [] path"

text \<open>The node and its parents, outermost first.\<close>

fun node_chain :: "cs_node \<Rightarrow> node_info list" where
  "node_chain (CsNode i None) = [i]"
| "node_chain (CsNode i (Some p)) = node_chain p @ [i]"

definition csnode_list :: "cs_node option \<Rightarrow> node_info list" where
  "csnode_list node = (case node of None \<Rightarrow> [] | Some n \<Rightarrow> node_chain n)"

text \<open>The loop over the nodes; the key path is read from its end, so it is reversed here.\<close>

fun keypath_elems ::
  "confd_lib \<Rightarrow> api_adapter \<Rightarrow> int \<Rightarrow> node_info list \<Rightarrow> kp_item list \<Rightarrow> path_elem list result" where
  "keypath_elems lib a ns [] items = Inr []"
| "keypath_elems lib a ns (node # nodes) [] = Inl AssertionError"
| "keypath_elems lib a ns (node # nodes) (KpKeys vs # items) = Inl AttributeError"
| "keypath_elems lib a ns (node # nodes) (KpTag tag tag_ns # items) =
     rbind (if tag_ns \<noteq> ns
            then rbind (dict_get (aa_ns_to_module a) tag_ns) (\<lambda>m. Inr (m @ '':'' @ cl_hash2str lib tag))
            else Inr (cl_hash2str lib tag)) (\<lambda>name.
     if ni_is_list node then
       (case items of
          KpKeys vs # items1 \<Rightarrow>
            rbind (keypath_elems lib a tag_ns nodes items1) (\<lambda>elems.
              Inr (mk_elem name (dict_comp (\<lambda>(k, v). cl_hash2str lib k) (\<lambda>(k, v). cv_str v)
                     (zip (ni_keys node) vs)) # elems))
        | _ \<Rightarrow> Inl AssertionError)
     else rbind (keypath_elems lib a tag_ns nodes items) (\<lambda>elems. Inr (mk_elem name [] # elems)))"

definition make_gnmi_keypath_elems ::
  "confd_lib \<Rightarrow> api_adapter \<Rightarrow> keypath \<Rightarrow> cs_node option \<Rightarrow> path_elem list result" where
  "make_gnmi_keypath_elems lib a keypath csnode = keypath_elems lib a 0 (csnode_list csnode) (rev keypath)"

definition make_gnmi_keypath ::
  "confd_lib \<Rightarrow> api_adapter \<Rightarrow> keypath \<Rightarrow> cs_node option \<Rightarrow> gnmi_path result" where
  "make_gnmi_keypath lib a keypath csnode =
     (let node = (case csnode of
            None \<Rightarrow> cl_cs_node_cd lib None (cl_pp_kpath lib keypath)
          | Some n \<Rightarrow> Some n)
      in rbind (make_gnmi_keypath_elems lib a keypath node) (\<lambda>elems.
           Inr \<lparr>p_elem = elems, p_origin = [], p_target = []\<rparr>))"

text \<open>\<open>csnode.info()\<close> of \<open>None\<close> raises.\<close>

definition val2str :: "confd_value \<Rightarrow> cs_node option \<Rightarrow> string result" where
  "val2str value csnode =
     (case csnode of None \<Rightarrow> Inl AttributeError | Some n \<Rightarrow> Inr (cv_val2str value (cs_info n)))"

definition json_value :: "api_adapter \<Rightarrow> confd_value \<Rightarrow> cs_node option \<Rightarrow> json result" where
  "json_value a value csnode =
     (if cv_type value \<in> INT_VALS then Inr (JInt (cv_int value))
      else if cv_type value = CT_BOOL then Inr (JBool (cv_bool value))
      else if cv_type value = CT_IDENTITYREF then
        rbind (val2str value csnode) (\<lambda>s.
          case py_split (CHR '':'') s of
            [pfx, idref] \<Rightarrow> rbind (dict_get (aa_pfx_to_module a) pfx) (\<lambda>m. Inr (JStr (m @ '':'' @ idref)))
          | _ \<Rightarrow> Inl ValueError)
      else rbind (val2str value csnode) (\<lambda>s. Inr (JStr s)))"

definition make_gnmi_json_value :: "api_adapter \<Rightarrow> confd_value \<Rightarrow> cs_node option \<Rightarrow> typed_value result" where
  "make_gnmi_json_value a value csnode =
     rbind (json_value a value csnode) (\<lambda>j. Inr (JsonIetfVal (json_dumps j)))"

section \<open>Reading\<close>

datatype confd_db = DB_RUNNING | DB_OPERATIONAL

record save_flags =
  sf_with_oper :: bool
  sf_oper_only :: bool

text \<open>
  A read transaction: the instances that an XPath expression selects, and for an instance the text that
  \<open>save_config\<close> streams together with the result code.
\<close>

record read_trans =
  rt_xpath_eval :: "string \<Rightarrow> keypath list result"
  rt_save_config :: "save_flags \<Rightarrow> string \<Rightarrow> json_text \<times> int"

text \<open>\<open>assert len(saved_data) == 1; [data] = saved_data.values()\<close>\<close>

fun only_value :: "json \<Rightarrow> json result" where
  "only_value (JObj kvs) = (case kvs of [(k, d)] \<Rightarrow> Inr d | _ \<Rightarrow> Inl AssertionError)"
| "only_value (JList xs) = (if length xs = 1 then Inl AttributeError else Inl AssertionError)"
| "only_value (JStr s) = (if length s = 1 then Inl AttributeError else Inl AssertionError)"
| "only_value _ = Inl TypeError"

definition add_update_json ::
  "confd_lib \<Rightarrow> api_adapter \<Rightarrow> read_trans \<Rightarrow> cs_node \<Rightarrow> save_flags \<Rightarrow> keypath \<Rightarrow> gnmi_update list result" where
  "add_update_json lib a t csnode flags keypath =
     (let (save_str, save_result) = rt_save_config t flags (cl_pp_kpath lib keypath)
      in if \<not> json_nonempty save_str then Inr []
         else rbind (json_loads save_str) (\<lambda>saved_data.
              if save_result \<noteq> 0 then Inl AssertionError
              else rbind (make_gnmi_keypath lib a keypath (Some csnode)) (\<lambda>p.
                   rbind (only_value saved_data) (\<lambda>d.
                     Inr [\<lparr>u_path = p, u_val = JsonIetfVal (json_dumps d)\<rparr>]))))"

definition api_get_updates ::
  "confd_lib \<Rightarrow> api_adapter \<Rightarrow> read_trans \<Rightarrow> string \<Rightarrow> save_flags \<Rightarrow> gnmi_update list result" where
  "api_get_updates lib a t path_str flags =
     (case cl_cs_node_cd lib None path_str of
        None \<Rightarrow> Inr []
      | Some csnode \<Rightarrow>
          rbind (rt_xpath_eval t path_str) (\<lambda>kps.
          rbind (map_result (add_update_json lib a t csnode flags) kps) (\<lambda>uss. Inr (concat uss))))"

text \<open>The database and the flags for a data type; other numbers read everything but operational data.\<close>

definition save_selection :: "int \<Rightarrow> confd_db \<times> save_flags" where
  "save_selection data_type =
     (if data_type = DT_ALL then (DB_OPERATIONAL, \<lparr>sf_with_oper = True, sf_oper_only = False\<rparr>)
      else if data_type = DT_CONFIG then (DB_RUNNING, \<lparr>sf_with_oper = False, sf_oper_only = False\<rparr>)
      else if data_type = DT_STATE then (DB_OPERATIONAL, \<lparr>sf_with_oper = False, sf_oper_only = True\<rparr>)
      else if data_type = DT_OPERATIONAL then (DB_OPERATIONAL, \<lparr>sf_with_oper = False, sf_oper_only = True\<rparr>)
      else (DB_OPERATIONAL, \<lparr>sf_with_oper = False, sf_oper_only = False\<rparr>))"

text \<open>
  \<open>get_updates_with_maapi_save\<close>: \<open>open_read\<close> is \<open>single_read_trans\<close> for a user, a database and an address.
  Every exception is logged, and no updates are returned.
\<close>

definition get_updates_with_maapi_save ::
  "confd_lib \<Rightarrow> (string \<Rightarrow> confd_db \<Rightarrow> string \<Rightarrow> read_trans result) \<Rightarrow> api_adapter \<Rightarrow> string \<Rightarrow> int \<Rightarrow>
     gnmi_update list" where
  "get_updates_with_maapi_save lib open_read a path data_type =
     (let (db, flags) = save_selection data_type
      in case rbind (open_read (aa_username a) db (aa_addr a)) (\<lambda>t.
                api_get_updates lib a t (fix_path_prefixes a path) flags) of
           Inl e \<Rightarrow> []
         | Inr updates \<Rightarrow> updates)"

text \<open>The updates with their paths relative to the prefix.\<close>

definition strip_updates :: "gnmi_path \<Rightarrow> gnmi_update list \<Rightarrow> gnmi_update list result" where
  "strip_updates pfx = map_result (\<lambda>u.
     rbind (remove_path_prefix (u_path u) pfx) (\<lambda>p. Inr \<lparr>u_path = p, u_val = u_val u\<rparr>))"

definition api_get ::
  "confd_lib \<Rightarrow> (string \<Rightarrow> confd_db \<Rightarrow> string \<Rightarrow> read_trans result) \<Rightarrow> api_adapter \<Rightarrow> gnmi_path \<Rightarrow>
     gnmi_path list \<Rightarrow> int \<Rightarrow> notification list result" where
  "api_get lib open_read a pfx paths data_type =
     (let updates2 = map (\<lambda>path. get_updates_with_maapi_save lib open_read a
            (make_xpath_path (Some path) (Some pfx) True) data_type) paths
      in rbind (strip_updates pfx (concat updates2)) (\<lambda>updates.
           Inr [\<lparr>n_timestamp = 1, n_prefix = pfx, n_update = updates, n_delete = [], n_atomic = True\<rparr>]))"

section \<open>Writing\<close>

text \<open>
  The operations of a write transaction. \<open>wt_apply\<close> commits it; a transaction that is left by an
  exception is aborted and leaves the database alone.
\<close>

datatype trans_cmd = SetElem json string | Pushd string | DeleteElem string

record ('w, 't) write_trans =
  wt_begin :: "string \<Rightarrow> string \<Rightarrow> 'w \<Rightarrow> 't result"
  wt_step :: "trans_cmd \<Rightarrow> 't \<Rightarrow> 't result"
  wt_apply :: "'t \<Rightarrow> 'w \<Rightarrow> 'w result"

text \<open>\<open>update_paths\<close> as the list of commands it issues, and the exception that stops it.\<close>

fun update_paths ::
  "confd_lib \<Rightarrow> api_adapter \<Rightarrow> string \<Rightarrow> json \<Rightarrow> cs_node option \<Rightarrow> trans_cmd list \<times> py_error option"
and update_items ::
  "confd_lib \<Rightarrow> api_adapter \<Rightarrow> (string \<times> json) list \<Rightarrow> cs_node option \<Rightarrow> trans_cmd list \<times> py_error option" where
  "update_paths lib a path (JObj items) parent_node =
     (let (cmds, err) = update_items lib a items (cl_cs_node_cd lib parent_node path)
      in (Pushd path # cmds, err))"
| "update_paths lib a path val parent_node =
     (case cl_cs_node_cd lib parent_node path of
        None \<Rightarrow> ([], Some AttributeError)
      | Some csnode \<Rightarrow>
          if ni_identityref (cs_info csnode) then
            (case val of
               JStr s \<Rightarrow> ([SetElem (JStr (fix_path_prefixes a s)) path], None)
             | _ \<Rightarrow> ([], Some TypeError))
          else ([SetElem val path], None))"
| "update_items lib a [] csnode = ([], None)"
| "update_items lib a ((leaf, v) # items) csnode =
     (case update_paths lib a (fix_path_prefixes a leaf) v csnode of
        (cmds, Some e) \<Rightarrow> (cmds, Some e)
      | (cmds, None) \<Rightarrow> (let (more, err) = update_items lib a items csnode in (cmds @ more, err)))"

fun run_cmds :: "('w, 't) write_trans \<Rightarrow> trans_cmd list \<Rightarrow> 't \<Rightarrow> 't result" where
  "run_cmds wt [] t = Inr t"
| "run_cmds wt (c # cs) t = rbind (wt_step wt c t) (run_cmds wt cs)"

definition run_update :: "('w, 't) write_trans \<Rightarrow> trans_cmd list \<times> py_error option \<Rightarrow> 't \<Rightarrow> 't result" where
  "run_update wt ce t =
     rbind (run_cmds wt (fst ce) t) (\<lambda>t1. case snd ce of None \<Rightarrow> Inr t1 | Some e \<Rightarrow> Inl e)"

definition api_set_update ::
  "confd_lib \<Rightarrow> ('w, 't) write_trans \<Rightarrow> api_adapter \<Rightarrow> gnmi_path \<Rightarrow> gnmi_path \<Rightarrow> typed_value \<Rightarrow> 't \<Rightarrow>
     ('t \<times> update_op) result" where
  "api_set_update lib wt a pfx path val t =
     (let path_str = fix_path_prefixes a (make_formatted_path path (Some pfx) False);
          set_json = (\<lambda>jt. rbind (json_loads jt) (\<lambda>jval. run_update wt (update_paths lib a path_str jval None) t))
      in rbind
           (case val of
              StringVal s \<Rightarrow> if s \<noteq> [] then wt_step wt (SetElem (JStr s) path_str) t else Inr t
            | JsonIetfVal jt \<Rightarrow> if json_nonempty jt then set_json jt else Inr t
            | _ \<Rightarrow> Inr t) (\<lambda>t1. Inr (t1, UPDATE)))"

fun set_updates ::
  "confd_lib \<Rightarrow> ('w, 't) write_trans \<Rightarrow> api_adapter \<Rightarrow> gnmi_path \<Rightarrow> gnmi_update list \<Rightarrow> 't \<Rightarrow>
     ('t \<times> (gnmi_path \<times> update_op) list) result" where
  "set_updates lib wt a pfx [] t = Inr (t, [])"
| "set_updates lib wt a pfx (up # ups) t =
     rbind (api_set_update lib wt a pfx (u_path up) (u_val up) t) (\<lambda>(t1, op).
     rbind (set_updates lib wt a pfx ups t1) (\<lambda>(t2, ops). Inr (t2, (u_path up, op) # ops)))"

text \<open>A call that runs in one write transaction and applies it at the end.\<close>

definition with_write_trans ::
  "('w, 't) write_trans \<Rightarrow> api_adapter \<Rightarrow> ('t \<Rightarrow> ('t \<times> 'r) result) \<Rightarrow> 'w \<Rightarrow> 'w \<times> 'r result" where
  "with_write_trans wt a body w =
     (case rbind (wt_begin wt (aa_username a) (aa_addr a) w) (\<lambda>t.
             rbind (body t) (\<lambda>(t1, r). rbind (wt_apply wt t1 w) (\<lambda>w1. Inr (w1, r)))) of
        Inl e \<Rightarrow> (w, Inl e)
      | Inr (w1, r) \<Rightarrow> (w1, Inr r))"

definition api_set ::
  "confd_lib \<Rightarrow> ('w, 't) write_trans \<Rightarrow> api_adapter \<Rightarrow> gnmi_path \<Rightarrow> gnmi_update list \<Rightarrow> 'w \<Rightarrow>
     'w \<times> (gnmi_path \<times> update_op) list result" where
  "api_set lib wt a pfx updates w = with_write_trans wt a (set_updates lib wt a pfx updates) w"

fun delete_paths ::
  "('w, 't) write_trans \<Rightarrow> api_adapter \<Rightarrow> gnmi_path \<Rightarrow> gnmi_path list \<Rightarrow> 't \<Rightarrow>
     ('t \<times> (gnmi_path \<times> update_op) list) result" where
  "delete_paths wt a pfx [] t = Inr (t, [])"
| "delete_paths wt a pfx (p # ps) t =
     rbind (wt_step wt (DeleteElem (fix_path_prefixes a (make_formatted_path p (Some pfx) False))) t) (\<lambda>t1.
     rbind (delete_paths wt a pfx ps t1) (\<lambda>(t2, ops). Inr (t2, (p, DELETE) # ops)))"

definition api_delete ::
  "('w, 't) write_trans \<Rightarrow> api_adapter \<Rightarrow> gnmi_path \<Rightarrow> gnmi_path list \<Rightarrow> 'w \<Rightarrow>
     'w \<times> (gnmi_path \<times> update_op) list result" where
  "api_delete wt a pfx paths w = with_write_trans wt a (delete_paths wt a pfx paths) w"

section \<open>Path prefixes\<close>

text \<open>What the regular expression does to a name: its module name becomes the prefix of the module.\<close>

definition fix_name :: "dict \<Rightarrow> string \<Rightarrow> string" where
  "fix_name m n =
     (case py_split (CHR '':'') n of
        [md, x] \<Rightarrow> (case map_of m md of None \<Rightarrow> md | Some pfx \<Rightarrow> pfx) @ '':'' @ x
      | _ \<Rightarrow> n)"

definition fix_elem :: "dict \<Rightarrow> path_elem \<Rightarrow> path_elem" where
  "fix_elem m e = e\<lparr>pe_name := fix_name m (pe_name e)\<rparr>"

definition fix_path :: "dict \<Rightarrow> gnmi_path \<Rightarrow> gnmi_path" where
  "fix_path m p = p\<lparr>p_elem := map (fix_elem m) (p_elem p)\<rparr>"

definition no_sep :: "string \<Rightarrow> bool" where
  "no_sep s \<longleftrightarrow> CHR ''/'' \<notin> set s \<and> CHR '':'' \<notin> set s"

text \<open>A name with at most one module in front of it, and keys without the two separators.\<close>

definition qname :: "string \<Rightarrow> bool" where
  "qname n \<longleftrightarrow> no_sep n \<or> (\<exists>md x. n = md @ '':'' @ x \<and> md \<noteq> [] \<and> no_sep md \<and> no_sep x)"

definition sep_elem :: "path_elem \<Rightarrow> bool" where
  "sep_elem e \<longleftrightarrow> qname (pe_name e) \<and> (\<forall>(k, v) \<in> set (pe_key e). no_sep k \<and> no_sep v)"

lemma qnameI: "md \<noteq> [] \<Longrightarrow> no_sep md \<Longrightarrow> no_sep x \<Longrightarrow> qname (md @ '':'' @ x)"
  by (auto simp: qname_def)

lemma fix_loop_run: "no_sep s \<Longrightarrow> fix_prefixes_loop m acc (s @ r) = fix_prefixes_loop m (rev s @ acc) r"
  by (induction s arbitrary: acc) (auto simp: no_sep_def)

lemma fix_loop_end: "r = [] \<or> hd r = CHR ''/'' \<Longrightarrow> fix_prefixes_loop m acc r = rev acc @ fix_prefixes_loop m [] r"
  by (cases r) auto

lemma fix_loop_name:
  assumes "qname n" and "no_sep ks" and "r = [] \<or> hd r = CHR ''/''"
  shows "fix_prefixes_loop m [] (n @ ks @ r) = fix_name m n @ ks @ fix_prefixes_loop m [] r"
proof (cases "no_sep n")
  case True
  then have "no_sep (n @ ks)" using assms(2) by (auto simp: no_sep_def)
  then have "fix_prefixes_loop m [] ((n @ ks) @ r) = (n @ ks) @ fix_prefixes_loop m [] r"
    using fix_loop_run [of "n @ ks" m "[]" r] fix_loop_end [OF assms(3), of m "rev (n @ ks)"]
    by (metis append_Nil2 rev_rev_ident)
  moreover have "fix_name m n = n"
    using True by (auto simp: fix_name_def no_sep_def py_split_free)
  ultimately show ?thesis by simp
next
  case False
  with assms(1) obtain md x where n: "n = md @ '':'' @ x" "md \<noteq> []" "no_sep md" "no_sep x"
    by (auto simp: qname_def)
  then have split: "py_split (CHR '':'') n = [md, x]"
    by (simp add: no_sep_def py_split_append_sep py_split_free)
  have "no_sep (x @ ks)" using n(4) assms(2) by (auto simp: no_sep_def)
  then have "fix_prefixes_loop m [] ((x @ ks) @ r) = (x @ ks) @ fix_prefixes_loop m [] r"
    using fix_loop_run [of "x @ ks" m "[]" r] fix_loop_end [OF assms(3), of m "rev (x @ ks)"]
    by (metis append_Nil2 rev_rev_ident)
  with n split show ?thesis
    using fix_loop_run [OF n(3), of m "[]" "'':'' @ x @ ks @ r"]
    by (simp add: fix_name_def split: option.splits)
qed

lemma fix_loop_elems:
  assumes "\<forall>e \<in> set es. sep_elem e" and "r = [] \<or> hd r = CHR ''/''"
  shows "fix_prefixes_loop m [] (concat (map (elem_str q x) es) @ r) =
     concat (map (elem_str q x \<circ> fix_elem m) es) @ fix_prefixes_loop m [] r"
  using assms(1)
proof (induction es)
  case (Cons e es)
  let ?ks = "concat (map (key_str q x) (pe_key e))"
  let ?r = "concat (map (elem_str q x) es) @ r"
  have "qname (pe_name e)" using Cons.prems by (simp add: sep_elem_def)
  moreover have "no_sep ?ks"
    using Cons.prems by (fastforce simp: no_sep_def sep_elem_def key_str_def Let_def)
  moreover have "?r = [] \<or> hd ?r = CHR ''/''"
    using assms(2) by (cases es) (auto simp: elem_str_def)
  ultimately have "fix_prefixes_loop m [] (pe_name e @ ?ks @ ?r) =
      fix_name m (pe_name e) @ ?ks @ fix_prefixes_loop m [] ?r"
    by (rule fix_loop_name)
  with Cons show ?case
    by (simp add: elem_str_def [of q x e] elem_str_def [of q x "fix_elem m e"]) (simp add: fix_elem_def)
qed simp

lemma elem_str_slash: "concat (map (elem_str q x) es) = [] \<longleftrightarrow> es = []"
  by (cases es) (simp_all add: elem_str_def)

lemma make_path_sep:
  "make_path q x p = (if p_elem p = [] then ''/'' else concat (map (elem_str q x) (p_elem p)))"
  using elem_str_slash [of q x "p_elem p"] by (simp add: make_path_def Let_def)

lemma fix_make_path:
  assumes "\<forall>e \<in> set (p_elem p). sep_elem e" and "r = [] \<or> hd r = CHR ''/''"
  shows "fix_prefixes_loop m [] (make_path q x p @ r) = make_path q x (fix_path m p) @ fix_prefixes_loop m [] r"
proof (cases "p_elem p = []")
  case True
  then show ?thesis by (simp add: make_path_sep fix_path_def)
next
  case False
  then show ?thesis using fix_loop_elems [OF assms] by (simp add: make_path_sep fix_path_def)
qed

text \<open>
  C10. Module names in paths: for a prefix and a path whose names have at most one module name, and whose
  keys have no slash and no colon, rewriting the printed path gives the printed form of the path in
  which every known module name is replaced by the prefix of the module, element by element, in
  the XPath and in the keypath notation, with and without quotes.
\<close>

theorem fix_path_prefixes_printed:
  assumes "\<forall>e \<in> set (p_elem p) \<union> set (p_elem pfx). sep_elem e"
  shows "fix_path_prefixes a (make_string_path (Some p) (Some pfx) q x) =
     make_string_path (Some (fix_path (aa_module_to_pfx a) p)) (Some (fix_path (aa_module_to_pfx a) pfx)) q x"
proof -
  let ?m = "aa_module_to_pfx a"
  have hd: "hd (make_path q x p) = CHR ''/''"
    by (cases "p_elem p") (simp_all add: make_path_sep elem_str_def)
  have p: "fix_prefixes_loop ?m [] (make_path q x p) = make_path q x (fix_path ?m p)"
    using fix_make_path [of p "[]" ?m q x] assms by simp
  with fix_make_path [of pfx "make_path q x p" ?m q x] hd assms show ?thesis
    by (simp add: fix_path_prefixes_def make_string_path_def Let_def fix_path_def)
qed

definition example_adapter :: api_adapter where
  "example_adapter = \<lparr>aa_addr = ''127.0.0.1'', aa_port = 4565, aa_username = ''admin'', aa_password = ''admin'',
     aa_module_to_pfx = [(''ietf-interfaces'', ''if''), (''ietf-ip'', ''ip'')],
     aa_pfx_to_module = [(''if'', ''ietf-interfaces''), (''ip'', ''ietf-ip'')],
     aa_ns_to_module = [(17, ''ietf-interfaces''), (18, ''ietf-ip'')]\<rparr>"

lemma fix_path_prefixes_printed_witness:
  "fix_path_prefixes example_adapter
     (make_formatted_path \<lparr>p_elem = [mk_elem ''interface'' [(''name'', ''lo'')], mk_elem ''ietf-ip:ipv4'' []],
        p_origin = [], p_target = []\<rparr>
        (Some \<lparr>p_elem = [mk_elem ''ietf-interfaces:interfaces'' []], p_origin = [], p_target = []\<rparr>) False) =
   ''/if:interfaces/interface{lo}/ip:ipv4''"
proof -
  let ?p = "\<lparr>p_elem = [mk_elem ''interface'' [(''name'', ''lo'')], mk_elem ''ietf-ip:ipv4'' []],
      p_origin = [], p_target = []\<rparr>"
  let ?pfx = "\<lparr>p_elem = [mk_elem ''ietf-interfaces:interfaces'' []], p_origin = [], p_target = []\<rparr>"
  have "qname ''ietf-ip:ipv4''" "qname ''ietf-interfaces:interfaces''"
    using qnameI [of "''ietf-ip''" "''ipv4''"] qnameI [of "''ietf-interfaces''" "''interfaces''"]
    by (simp_all add: no_sep_def)
  moreover have "qname ''interface''" by (simp add: qname_def no_sep_def)
  ultimately have "\<forall>e \<in> set (p_elem ?p) \<union> set (p_elem ?pfx). sep_elem e"
    by (simp add: sep_elem_def no_sep_def)
  from fix_path_prefixes_printed [OF this, of example_adapter False False] show ?thesis
    by (simp add: make_formatted_path_def make_string_path_def make_path_def fix_path_def fix_elem_def fix_name_def
        elem_str_def key_str_def example_adapter_def)
qed

section \<open>Key paths\<close>

text \<open>
  One step of an instance in the data tree: the tag, its namespace, the schema node, and the keys of
  a list entry.
\<close>

record kp_step =
  ks_tag :: int
  ks_ns :: int
  ks_node :: node_info
  ks_vals :: "confd_value list"

definition step_items :: "kp_step \<Rightarrow> kp_item list" where
  "step_items st = KpTag (ks_tag st) (ks_ns st) # (if ni_is_list (ks_node st) then [KpKeys (ks_vals st)] else [])"

definition steps_keypath :: "kp_step list \<Rightarrow> keypath" where
  "steps_keypath sts = rev (concat (map step_items sts))"

definition steps_node :: "kp_step list \<Rightarrow> cs_node option" where
  "steps_node sts = fold (\<lambda>st parent. Some (CsNode (ks_node st) parent)) sts None"

definition step_ok :: "confd_lib \<Rightarrow> api_adapter \<Rightarrow> kp_step \<Rightarrow> bool" where
  "step_ok lib a st \<longleftrightarrow> map_of (aa_ns_to_module a) (ks_ns st) \<noteq> None \<and>
     distinct (map (cl_hash2str lib) (ni_keys (ks_node st)))"

text \<open>The element for a step whose parent has the namespace \<open>ns\<close>.\<close>

definition step_elem :: "confd_lib \<Rightarrow> api_adapter \<Rightarrow> int \<times> kp_step \<Rightarrow> path_elem" where
  "step_elem lib a nst =
     (let (ns, st) = nst; name = cl_hash2str lib (ks_tag st)
      in mk_elem (if ks_ns st = ns then name else the (map_of (aa_ns_to_module a) (ks_ns st)) @ '':'' @ name)
           (if ni_is_list (ks_node st)
            then zip (map (cl_hash2str lib) (ni_keys (ks_node st))) (map cv_str (ks_vals st)) else []))"

lemma dict_comp_distinct:
  assumes "distinct (map key xs)"
  shows "dict_comp key val xs = map (\<lambda>x. (key x, val x)) xs"
proof -
  have "fold (\<lambda>x. AList.update (key x) (val x)) xs d = d @ map (\<lambda>x. (key x, val x)) xs"
    if "key ` set xs \<inter> fst ` set d = {}" for d
    using that assms
    by (induction xs arbitrary: d) (auto simp: update_fresh)
  then show ?thesis by (simp add: dict_comp_def)
qed

lemma dict_comp_keys:
  assumes "distinct (map f ks)"
  shows "dict_comp (\<lambda>(k, v). f k) (\<lambda>(k, v). g v) (zip ks vs) = zip (map f ks) (map g vs)"
proof -
  have "map (\<lambda>(k, v). f k) (zip ks vs) = take (length vs) (map f ks)"
    by (induction ks vs rule: list_induct2') auto
  then have "distinct (map (\<lambda>(k, v). f k) (zip ks vs))" using assms by simp
  from dict_comp_distinct [OF this, of "\<lambda>(k, v). g v"] show ?thesis
    by (simp add: zip_map_map case_prod_beta)
qed

lemma keypath_elems_steps:
  assumes "list_all (step_ok lib a) sts"
  shows "keypath_elems lib a ns (map ks_node sts) (concat (map step_items sts)) =
     Inr (map (step_elem lib a) (zip (ns # map ks_ns sts) sts))"
  using assms
proof (induction sts arbitrary: ns)
  case (Cons st sts)
  then obtain m where m: "map_of (aa_ns_to_module a) (ks_ns st) = Some m"
    by (auto simp: step_ok_def)
  with Cons show ?case
    by (auto simp: step_items_def step_elem_def step_ok_def dict_get_def dict_comp_keys)
qed simp

lemma csnode_list_steps: "csnode_list (steps_node sts) = map ks_node sts"
proof -
  have "csnode_list (fold (\<lambda>st parent. Some (CsNode (ks_node st) parent)) sts p) = csnode_list p @ map ks_node sts" for p
  proof (induction sts arbitrary: p)
    case (Cons st sts)
    show ?case
      by (cases p) (simp_all add: Cons.IH, simp_all add: csnode_list_def)
  qed simp
  then show ?thesis by (simp add: steps_node_def csnode_list_def)
qed

text \<open>
  C11. Key paths: for an instance at any depth, with list entries anywhere, the gNMI path has one element per
  step, with the key values under the names of the keys, and an element carries its module name
  exactly when its namespace is not that of its parent.
\<close>

theorem make_gnmi_keypath_steps:
  assumes "list_all (step_ok lib a) sts" and "sts \<noteq> []"
  shows "make_gnmi_keypath lib a (steps_keypath sts) (steps_node sts) =
     Inr \<lparr>p_elem = map (step_elem lib a) (zip (0 # map ks_ns sts) sts), p_origin = [], p_target = []\<rparr>"
proof -
  obtain n where n: "steps_node sts = Some n"
    using assms(2) by (cases sts rule: rev_cases) (auto simp: steps_node_def)
  then show ?thesis
    using csnode_list_steps [of sts] keypath_elems_steps [OF assms(1)]
    by (simp add: make_gnmi_keypath_def make_gnmi_keypath_elems_def steps_keypath_def)
qed

definition example_info :: node_info where
  "example_info = \<lparr>ni_is_list = False, ni_is_cdb = True, ni_is_write = True, ni_keys = [], ni_identityref = False\<rparr>"

definition str_value :: "string \<Rightarrow> confd_value" where
  "str_value s = \<lparr>cv_type = CT_OTHER, cv_int = 0, cv_bool = False, cv_str = s, cv_val2str = (\<lambda>_. s)\<rparr>"

definition example_lib :: confd_lib where
  "example_lib = \<lparr>cl_nslist = [(17, ''if'', ''ietf-interfaces''), (18, ''ip'', ''ietf-ip'')],
     cl_hash2str = (\<lambda>h. if h = 1 then ''interfaces'' else if h = 2 then ''interface'' else if h = 3 then ''name'' else ''ipv4''),
     cl_cs_node_cd = (\<lambda>parent p. Some (CsNode example_info parent)),
     cl_pp_kpath = (\<lambda>kp. ''/if:interfaces''), cl_xpath_pp_kpath = (\<lambda>kp. ''/if:interfaces''),
     cl_str2val = (\<lambda>s i. Inr (str_value s)), cl_callback_error = (\<lambda>e. ConfdErrExternal)\<rparr>"

lemma make_gnmi_keypath_steps_witness:
  "let sts = [\<lparr>ks_tag = 1, ks_ns = 17, ks_node = example_info, ks_vals = []\<rparr>,
       \<lparr>ks_tag = 2, ks_ns = 17, ks_node = example_info\<lparr>ni_is_list := True, ni_keys := [3]\<rparr>, ks_vals = [str_value ''lo'']\<rparr>,
       \<lparr>ks_tag = 4, ks_ns = 18, ks_node = example_info, ks_vals = []\<rparr>]
   in make_gnmi_keypath example_lib example_adapter (steps_keypath sts) (steps_node sts) =
      Inr \<lparr>p_elem = [mk_elem ''ietf-interfaces:interfaces'' [], mk_elem ''interface'' [(''name'', ''lo'')],
             mk_elem ''ietf-ip:ipv4'' []], p_origin = [], p_target = []\<rparr>"
  unfolding Let_def
  by (subst make_gnmi_keypath_steps)
    (simp_all add: step_ok_def step_elem_def example_lib_def example_adapter_def example_info_def str_value_def)

section \<open>Transactions\<close>

text \<open>The commands that one update of a set request stands for.\<close>

definition update_cmds :: "confd_lib \<Rightarrow> api_adapter \<Rightarrow> gnmi_path \<Rightarrow> gnmi_update \<Rightarrow> trans_cmd list \<times> py_error option" where
  "update_cmds lib a pfx up =
     (let path_str = fix_path_prefixes a (make_formatted_path (u_path up) (Some pfx) False)
      in case u_val up of
           StringVal s \<Rightarrow> (if s \<noteq> [] then [SetElem (JStr s) path_str] else [], None)
         | JsonIetfVal (JsonDoc j) \<Rightarrow> update_paths lib a path_str j None
         | JsonIetfVal (NotJson s) \<Rightarrow> ([], if s = [] then None else Some ValueError)
         | _ \<Rightarrow> ([], None))"

lemma api_set_update_cmds:
  "api_set_update lib wt a pfx (u_path up) (u_val up) t =
     rbind (run_update wt (update_cmds lib a pfx up) t) (\<lambda>t1. Inr (t1, UPDATE))"
  by (cases "u_val up")
    (auto simp: api_set_update_def update_cmds_def run_update_def Let_def json_nonempty_def rbind_def
      split: json_text.splits sum.splits)

lemma run_cmds_append: "run_cmds wt (cs @ ds) t = rbind (run_cmds wt cs t) (run_cmds wt ds)"
  by (induction cs arbitrary: t) (auto simp: rbind_def split: sum.splits)

lemma set_updates_cmds:
  "set_updates lib wt a pfx ups t = Inr (t', ops) \<longleftrightarrow>
     list_all (\<lambda>up. snd (update_cmds lib a pfx up) = None) ups \<and>
     run_cmds wt (concat (map (fst \<circ> update_cmds lib a pfx) ups)) t = Inr t' \<and>
     ops = map (\<lambda>up. (u_path up, UPDATE)) ups"
proof (induction ups arbitrary: t ops)
  case (Cons up ups)
  show ?case
    by (cases "snd (update_cmds lib a pfx up)")
      (auto simp: api_set_update_cmds run_update_def rbind_eq_Inr_iff Cons.IH run_cmds_append)
qed auto

lemma with_write_trans_cases:
  "with_write_trans wt a body w = (w', r) \<Longrightarrow>
     (\<exists>e. r = Inl e \<and> w' = w) \<or>
     (\<exists>t t' x. wt_begin wt (aa_username a) (aa_addr a) w = Inr t \<and> body t = Inr (t', x) \<and>
        wt_apply wt t' w = Inr w' \<and> r = Inr x)"
  by (auto simp: with_write_trans_def rbind_def split: sum.splits)


text \<open>
  A transaction with the current position of \<open>pushd\<close>, as the library documents it: a relative path is
  taken from the position. It collects the values it writes, and the database is the list of all of
  them.
\<close>

definition at_cwd :: "string \<Rightarrow> string \<Rightarrow> string" where
  "at_cwd cwd p = (if startswith p ''/'' then p else cwd @ ''/'' @ p)"

fun cwd_step :: "trans_cmd \<Rightarrow> string \<times> (string \<times> json) list \<Rightarrow> (string \<times> (string \<times> json) list) result" where
  "cwd_step (SetElem v p) (cwd, ws) = Inr (cwd, ws @ [(at_cwd cwd p, v)])"
| "cwd_step (Pushd p) (cwd, ws) = Inr (at_cwd cwd p, ws)"
| "cwd_step (DeleteElem p) (cwd, ws) = Inr (cwd, filter (\<lambda>(q, _). q \<noteq> at_cwd cwd p) ws)"

definition cwd_trans :: "((string \<times> json) list, string \<times> (string \<times> json) list) write_trans" where
  "cwd_trans = \<lparr>wt_begin = (\<lambda>user addr w. Inr ([], w)), wt_step = cwd_step, wt_apply = (\<lambda>t w. Inr (snd t))\<rparr>"


text \<open>Members of an object that are leaves of a schema node: no objects, no identities, plain names.\<close>

fun is_object :: "json \<Rightarrow> bool" where
  "is_object (JObj kvs) = True"
| "is_object _ = False"

definition leaf_member :: "confd_lib \<Rightarrow> api_adapter \<Rightarrow> cs_node option \<Rightarrow> string \<times> json \<Rightarrow> bool" where
  "leaf_member lib a node kv \<longleftrightarrow>
     \<not> is_object (snd kv) \<and> \<not> startswith (fix_path_prefixes a (fst kv)) ''/'' \<and>
     (case cl_cs_node_cd lib node (fix_path_prefixes a (fst kv)) of
        None \<Rightarrow> False | Some n \<Rightarrow> \<not> ni_identityref (cs_info n))"

definition member_writes :: "api_adapter \<Rightarrow> string \<Rightarrow> (string \<times> json) list \<Rightarrow> (string \<times> json) list" where
  "member_writes a at kvs = map (\<lambda>(k, v). (at @ ''/'' @ fix_path_prefixes a k, v)) kvs"

lemma update_paths_leaf:
  assumes "leaf_member lib a node (k, v)"
  shows "update_paths lib a (fix_path_prefixes a k) v node = ([SetElem v (fix_path_prefixes a k)], None)"
  using assms by (cases v) (auto simp: leaf_member_def split: option.splits)

lemma update_items_leaves:
  assumes "list_all (leaf_member lib a node) kvs"
  shows "update_items lib a kvs node = (map (\<lambda>(k, v). SetElem v (fix_path_prefixes a k)) kvs, None)"
  using assms
proof (induction kvs)
  case (Cons kv kvs)
  then show ?case by (cases kv) (simp add: update_paths_leaf)
qed simp

lemma cwd_trans_sel [simp]:
  "wt_begin cwd_trans user addr w = Inr ([], w)" "wt_step cwd_trans = cwd_step"
  "wt_apply cwd_trans t w = Inr (snd t)"
  by (simp_all add: cwd_trans_def)

lemma run_leaves:
  assumes "list_all (leaf_member lib a node) kvs"
  shows "run_cmds cwd_trans (map (\<lambda>(k, v). SetElem v (fix_path_prefixes a k)) kvs) (cwd, ws) =
     Inr (cwd, ws @ member_writes a cwd kvs)"
  using assms
  by (induction kvs arbitrary: ws) (auto simp: member_writes_def leaf_member_def at_cwd_def)

lemma api_set_one:
  assumes "update_cmds lib a pfx up = (cmds, None)" and "run_cmds cwd_trans cmds ([], ws) = Inr (cwd, ws')"
  shows "api_set lib cwd_trans a pfx [up] ws = (ws', Inr [(u_path up, UPDATE)])"
  using assms by (simp add: api_set_def with_write_trans_def api_set_update_cmds run_update_def)

lemma formatted_slash: "startswith (make_formatted_path p (Some pfx) False) ''/''"
  by (auto simp: make_formatted_path_def make_string_path_def make_path_sep elem_str_def Let_def
      startswith_def neq_Nil_conv split: list.splits)

lemma at_cwd_fixed:
  "at_cwd cwd (fix_path_prefixes a (make_formatted_path p (Some pfx) False)) =
     fix_path_prefixes a (make_formatted_path p (Some pfx) False)"
  using formatted_slash [of p pfx]
  by (cases "make_formatted_path p (Some pfx) False") (auto simp: at_cwd_def fix_path_prefixes_def)

text \<open>
  Setting an object whose members are leaves writes every member once, in order, below the path of the
  update, with the module names of the members replaced by prefixes.
\<close>

theorem api_set_object:
  assumes "path_str = fix_path_prefixes a (make_formatted_path p (Some pfx) False)"
    and "list_all (leaf_member lib a (cl_cs_node_cd lib None path_str)) kvs"
  shows "api_set lib cwd_trans a pfx [\<lparr>u_path = p, u_val = JsonIetfVal (json_dumps (JObj kvs))\<rparr>] ws =
     (ws @ member_writes a path_str kvs, Inr [(p, UPDATE)])"
proof -
  have "at_cwd [] path_str = path_str" by (simp add: assms(1) at_cwd_fixed)
  then show ?thesis
    using api_set_one [where cmds = "Pushd path_str # map (\<lambda>(k, v). SetElem v (fix_path_prefixes a k)) kvs"
        and up = "\<lparr>u_path = p, u_val = JsonIetfVal (json_dumps (JObj kvs))\<rparr>"]
      update_items_leaves [OF assms(2)] run_leaves [OF assms(2)] assms(1)
    by (simp add: update_cmds_def json_dumps_def Let_def)
qed

abbreviation ex_path :: gnmi_path where
  "ex_path \<equiv> \<lparr>p_elem = [mk_elem ''ietf-ip:ip'' []], p_origin = [], p_target = []\<rparr>"

lemmas example_simps = leaf_member_def member_writes_def example_lib_def example_adapter_def example_info_def
  fix_path_prefixes_def make_formatted_path_def make_string_path_def make_path_def elem_str_def startswith_def

lemma api_set_object_witness:
  "api_set example_lib cwd_trans example_adapter empty_path
     [\<lparr>u_path = ex_path, u_val = JsonIetfVal (json_dumps (JObj [(''mtu'', JInt 9), (''ietf-ip:on'', JBool True)]))\<rparr>] [] =
   ([(''/ip:ip/mtu'', JInt 9), (''/ip:ip/ip:on'', JBool True)], Inr [(ex_path, UPDATE)])"
  using api_set_object [OF refl, where lib = example_lib and a = example_adapter and p = ex_path and pfx = empty_path
      and kvs = "[(''mtu'', JInt 9), (''ietf-ip:on'', JBool True)]" and ws = "[]"]
  by (simp add: example_simps)

text \<open>
  A nested object is entered with \<open>pushd\<close> and never left: the members that follow it in the outer
  object are written below the inner one, and not below the path of the update.
\<close>

theorem api_set_nested_misplaced:
  assumes "path_str = fix_path_prefixes a (make_formatted_path p (Some pfx) False)"
    and "outer = cl_cs_node_cd lib None path_str"
    and "\<not> startswith (fix_path_prefixes a x) ''/''"
    and "list_all (leaf_member lib a (cl_cs_node_cd lib outer (fix_path_prefixes a x))) inner_kvs"
    and "list_all (leaf_member lib a outer) kvs"
  shows "api_set lib cwd_trans a pfx [\<lparr>u_path = p, u_val = JsonIetfVal (json_dumps (JObj ((x, JObj inner_kvs) # kvs)))\<rparr>] ws =
     (ws @ member_writes a (path_str @ ''/'' @ fix_path_prefixes a x) (inner_kvs @ kvs), Inr [(p, UPDATE)])"
proof -
  let ?x = "fix_path_prefixes a x"
  let ?set = "\<lambda>kvs. map (\<lambda>(k, v). SetElem v (fix_path_prefixes a k)) kvs"
  have at: "at_cwd [] path_str = path_str" "at_cwd path_str ?x = path_str @ ''/'' @ ?x"
    using assms(3) by (simp_all add: assms(1) at_cwd_fixed) (simp add: at_cwd_def)
  have "run_cmds cwd_trans (?set inner_kvs @ ?set kvs) (cwd, ws) = Inr (cwd, ws @ member_writes a cwd (inner_kvs @ kvs))" for cwd
    unfolding run_cmds_append run_leaves [OF assms(4)]
    using run_leaves [OF assms(5)] by (simp add: member_writes_def)
  with at show ?thesis
    using api_set_one [where cmds = "Pushd path_str # Pushd ?x # ?set inner_kvs @ ?set kvs"
        and up = "\<lparr>u_path = p, u_val = JsonIetfVal (json_dumps (JObj ((x, JObj inner_kvs) # kvs)))\<rparr>"]
      update_items_leaves [OF assms(4)] update_items_leaves [OF assms(5)] assms(1,2)
    by (simp add: update_cmds_def json_dumps_def Let_def)
qed

lemma api_set_nested_misplaced_witness:
  "api_set example_lib cwd_trans example_adapter empty_path
     [\<lparr>u_path = ex_path, u_val = JsonIetfVal (json_dumps (JObj [(''v4'', JObj [(''mtu'', JInt 9)]), (''on'', JBool True)]))\<rparr>] [] =
   ([(''/ip:ip/v4/mtu'', JInt 9), (''/ip:ip/v4/on'', JBool True)], Inr [(ex_path, UPDATE)])"
  using api_set_nested_misplaced [OF refl refl, where lib = example_lib and a = example_adapter and p = ex_path
      and pfx = empty_path and x = "''v4''" and inner_kvs = "[(''mtu'', JInt 9)]" and kvs = "[(''on'', JBool True)]" and ws = "[]"]
  by (simp add: example_simps)

text \<open>
  Values with the encoding \<open>JSON\<close>, which the adapter announces, are not written: whatever the library does,
  no command is issued for them, and the result still has an \<open>UPDATE\<close> for every path.
\<close>

theorem api_set_ignores_json:
  assumes "list_all (\<lambda>up. \<exists>jt. u_val up = JsonVal jt) ups"
    and "wt_begin wt (aa_username a) (aa_addr a) w = Inr t" and "wt_apply wt t w = Inr w"
  shows "api_set lib wt a pfx ups w = (w, Inr (map (\<lambda>up. (u_path up, UPDATE)) ups)) \<and> JSON \<in> set api_encodings"
proof -
  have "set_updates lib wt a pfx ups t = Inr (t, map (\<lambda>up. (u_path up, UPDATE)) ups)"
    using assms(1) by (induction ups) (auto simp: api_set_update_def Let_def)
  then show ?thesis using assms(2,3) by (simp add: api_set_def with_write_trans_def api_encodings_def)
qed

lemma api_set_ignores_json_witness:
  "api_set example_lib cwd_trans example_adapter empty_path
     [\<lparr>u_path = ex_path, u_val = JsonVal (json_dumps (JInt 9))\<rparr>] [(''/ip:ip'', JInt 1)] =
   ([(''/ip:ip'', JInt 1)], Inr [(ex_path, UPDATE)])"
  using api_set_ignores_json [where lib = example_lib and a = example_adapter and pfx = empty_path and wt = cwd_trans
      and ups = "[\<lparr>u_path = ex_path, u_val = JsonVal (json_dumps (JInt 9))\<rparr>]" and w = "[(''/ip:ip'', JInt 1)]"
      and t = "([], [(''/ip:ip'', JInt 1)])"]
  by simp

section \<open>The adapter behind the service\<close>

text \<open>
  Every RPC makes a new adapter and connects it. The world of the service is the adapter of the
  current call and the database; \<open>open_read\<close> and \<open>modules_state\<close> read the database.
\<close>

record 'w api_world =
  aw_adapter :: api_adapter
  aw_db :: 'w

definition api_adapter_ops ::
  "confd_lib \<Rightarrow> api_class \<Rightarrow> ('w \<Rightarrow> string \<Rightarrow> confd_db \<Rightarrow> string \<Rightarrow> read_trans result) \<Rightarrow> ('w, 't) write_trans \<Rightarrow>
     ('w \<Rightarrow> ((string \<times> string \<times> string) list \<times> py_error option) result) \<Rightarrow> 'w api_world adapter_ops" where
  "api_adapter_ops lib c open_read wt modules_state =
     \<lparr>ao_get_adapter = (\<lambda>w. w\<lparr>aw_adapter := api_init lib\<rparr>),
      ao_connect = (\<lambda>username password w. Inr (w\<lparr>aw_adapter :=
         api_connect c (Some (ac_confd_addr c)) (Some (ac_confd_port c)) username password (aw_adapter w)\<rparr>)),
      ao_capabilities = (\<lambda>w. api_capabilities (modules_state (aw_db w))),
      ao_encodings = api_encodings,
      ao_get = (\<lambda>w. api_get lib (open_read (aw_db w)) (aw_adapter w)),
      ao_set = (\<lambda>w pfx ups. let (db, r) = api_set lib wt (aw_adapter w) pfx ups (aw_db w) in (w\<lparr>aw_db := db\<rparr>, r)),
      ao_delete = (\<lambda>w pfx ps. let (db, r) = api_delete wt (aw_adapter w) pfx ps (aw_db w) in (w\<lparr>aw_db := db\<rparr>, r))\<rparr>"

text \<open>The adapter that a call of a user works with.\<close>

definition user_adapter :: "confd_lib \<Rightarrow> api_class \<Rightarrow> string \<Rightarrow> string \<Rightarrow> api_adapter" where
  "user_adapter lib c username password =
     api_connect c (Some (ac_confd_addr c)) (Some (ac_confd_port c)) username password (api_init lib)"

lemma api_connected:
  assumes "extract_user_metadata ctx = Inr (username, password)"
  shows "get_connected_adapter demo (api_adapter_ops lib c open_read wt ms) \<lparr>sv_adapter_type = TYPE_API\<rparr> ctx w =
     Inr (w\<lparr>aw_adapter := user_adapter lib c username password\<rparr>, Some (api_adapter_ops lib c open_read wt ms))"
  using assms
  by (simp add: get_connected_adapter_def get_and_connect_adapter_def api_adapter_ops_def user_adapter_def)

text \<open>
  C39. A set request is two transactions and not one: when the deletions raise, the client gets the exception, and
  the updates of the same request stay in the database.
\<close>

theorem Set_api_not_atomic:
  assumes "extract_user_metadata ctx = Inr (username, password)"
    and "a = user_adapter lib c username password"
    and "verify_updates_encoding_supported (rq_update rq) (Some ops) ctx = (ctx, Inr ())"
    and "ops = api_adapter_ops lib c open_read wt ms"
    and "api_set lib wt a (rq_prefix rq) (rq_update rq) (aw_db w) = (db_mid, Inr sets)"
    and "api_delete wt a (rq_prefix rq) (rq_delete rq) db_mid = (db_end, Inl e)"
  shows "Set demo ops \<lparr>sv_adapter_type = TYPE_API\<rparr> rq ctx w = (\<lparr>aw_adapter = a, aw_db = db_mid\<rparr>, ctx, Inl e)"
proof -
  have "db_end = db_mid"
    using with_write_trans_cases [OF assms(6) [unfolded api_delete_def]] by auto
  moreover have "w = \<lparr>aw_adapter = aw_adapter w, aw_db = aw_db w\<rparr>" by simp
  ultimately show ?thesis
    using assms api_connected [OF assms(1), of demo lib c open_read wt ms w]
    by (cases w) (simp add: Set_def api_adapter_ops_def)
qed

text \<open>A library that refuses to delete.\<close>

definition refusing_trans :: "((string \<times> json) list, string \<times> (string \<times> json) list) write_trans" where
  "refusing_trans = cwd_trans\<lparr>wt_step := (\<lambda>c t. case c of DeleteElem p \<Rightarrow> Inl ConfdErr | _ \<Rightarrow> cwd_step c t)\<rparr>"

lemma Set_api_not_atomic_witness:
  "let ops = api_adapter_ops example_lib ApiAdapterDefaults (\<lambda>_ _ _ _. Inl ConfdErr) refusing_trans (\<lambda>_. Inl ConfdErr);
       ctx = \<lparr>ctx_metadata = [(''username'', ''admin''), (''password'', ''pw'')], ctx_code = None, ctx_details = None\<rparr>
   in case Set ops ops \<lparr>sv_adapter_type = TYPE_API\<rparr>
        \<lparr>rq_prefix = empty_path, rq_delete = [ex_path], rq_replace = [], rq_update = [\<lparr>u_path = ex_path, u_val = JsonIetfVal (json_dumps (JInt 9))\<rparr>]\<rparr>
        ctx \<lparr>aw_adapter = example_adapter, aw_db = []\<rparr> of
      (w, _, r) \<Rightarrow> aw_db w = [(''/ip:ip'', JInt 9)] \<and> r = Inl ConfdErr"
proof -
  let ?ops = "api_adapter_ops example_lib ApiAdapterDefaults (\<lambda>_ _ _ _. Inl ConfdErr) refusing_trans (\<lambda>_. Inl ConfdErr)"
  let ?ctx = "\<lparr>ctx_metadata = [(''username'', ''admin''), (''password'', ''pw'')], ctx_code = None, ctx_details = None\<rparr>"
  let ?ups = "[\<lparr>u_path = ex_path, u_val = JsonIetfVal (json_dumps (JInt 9))\<rparr>]"
  let ?rq = "\<lparr>rq_prefix = empty_path, rq_delete = [ex_path], rq_replace = [], rq_update = ?ups\<rparr>"
  let ?a = "user_adapter example_lib ApiAdapterDefaults ''admin'' ''pw''"
  have 1: "extract_user_metadata ?ctx = Inr (''admin'', ''pw'')"
    by (simp add: extract_user_metadata_def dict_get_def)
  have 2: "verify_updates_encoding_supported ?ups (Some ?ops) ?ctx = (?ctx, Inr ())"
    by (simp add: ensure_encoding_supported_def api_adapter_ops_def api_encodings_def)
  note sims = user_adapter_def api_connect_def api_init_def dict_comp_def refusing_trans_def cwd_trans_def example_simps
  have 3: "api_set example_lib refusing_trans ?a empty_path ?ups [] = ([(''/ip:ip'', JInt 9)], Inr [(ex_path, UPDATE)])"
    by (simp add: api_set_def with_write_trans_def api_set_update_def run_update_def json_dumps_def json_nonempty_def
        Let_def at_cwd_def sims)
  have 4: "api_delete refusing_trans ?a empty_path [ex_path] [(''/ip:ip'', JInt 9)] = ([(''/ip:ip'', JInt 9)], Inl ConfdErr)"
    by (simp add: api_delete_def with_write_trans_def sims)
  have "Set ?ops ?ops \<lparr>sv_adapter_type = TYPE_API\<rparr> ?rq ?ctx \<lparr>aw_adapter = example_adapter, aw_db = []\<rparr> =
      (\<lparr>aw_adapter = ?a, aw_db = [(''/ip:ip'', JInt 9)]\<rparr>, ?ctx, Inl ConfdErr)"
    by (rule Set_api_not_atomic [where rq = ?rq and db_end = "[(''/ip:ip'', JInt 9)]" and sets = "[(ex_path, UPDATE)]", OF 1 refl _ refl])
      (simp_all only: 2 3 4 set_request.simps api_world.simps)
  then show ?thesis by (simp only: Let_def prod.case api_world.simps simp_thms)
qed

text \<open>
  Reading hides failures: when no transaction can be opened for the user, for example since the
  user is not known, a get request of any paths is answered with one notification without updates.
\<close>

theorem api_get_hides_errors:
  assumes "open_read (aa_username a) = (\<lambda>db addr. Inl e)"
  shows "api_get lib open_read a pfx paths data_type =
     Inr [\<lparr>n_timestamp = 1, n_prefix = pfx, n_update = [], n_delete = [], n_atomic = True\<rparr>]"
proof -
  have "concat (map (\<lambda>path. get_updates_with_maapi_save lib open_read a
      (make_xpath_path (Some path) (Some pfx) True) data_type) paths) = []"
    using assms by (simp add: get_updates_with_maapi_save_def split: prod.splits)
  then show ?thesis unfolding api_get_def Let_def by (simp only:) (simp add: strip_updates_def)
qed

lemma api_get_hides_errors_witness:
  "api_get example_lib (\<lambda>_ _ _. Inl ConfdErr) example_adapter empty_path [ex_path] DT_ALL =
     Inr [\<lparr>n_timestamp = 1, n_prefix = empty_path, n_update = [], n_delete = [], n_atomic = True\<rparr>]"
  by (rule api_get_hides_errors) (rule refl)

end
