(* ===== verification/Gnmi_Api_Types.thy ===== *)
theory Gnmi_Api_Types
  imports Gnmi_Api_Adapter
begin

text \<open>
  The types of the values that the ConfD adapter sends (\<open>make_gnmi_json_value\<close> of \<open>confd_gnmi_api_adapter.py\<close>): a typing relation between the types
  of ConfD and JSON values, after RFC 7951 for the types that the code distinguishes, and that every value of ConfD gets a JSON
  value of its type.
\<close>

section \<open>Typing\<close>

fun int_range :: "cval_type \<Rightarrow> int \<times> int" where
  "int_range CT_INT8 = (- 128, 127)"
| "int_range CT_INT16 = (- 32768, 32767)"
| "int_range CT_INT32 = (- 2147483648, 2147483647)"
| "int_range CT_UINT8 = (0, 255)"
| "int_range CT_UINT16 = (0, 65535)"
| "int_range CT_UINT32 = (0, 4294967295)"
| "int_range _ = (0, 0)"

text \<open>
  Numbers in the range of their type, booleans, identities with the name of a loaded module, and texts.
\<close>

inductive value_json :: "confd_lib \<Rightarrow> cval_type \<Rightarrow> json \<Rightarrow> bool" for lib where
  number: "t \<in> INT_VALS \<Longrightarrow> fst (int_range t) \<le> i \<Longrightarrow> i \<le> snd (int_range t) \<Longrightarrow> value_json lib t (JInt i)"
| boolean: "value_json lib CT_BOOL (JBool b)"
| identity: "(h, p, m) \<in> set (cl_nslist lib) \<Longrightarrow> CHR '':'' \<notin> set idref \<Longrightarrow>
    value_json lib CT_IDENTITYREF (JStr (m @ '':'' @ idref))"
| other: "value_json lib CT_OTHER (JStr s)"

inductive_cases value_jsonE: "value_json lib t j"

text \<open>
  A value as ConfD gives it for a schema node: in the range of its type, and an identity as a prefix of a loaded module and a name.
\<close>

definition value_of_node :: "confd_lib \<Rightarrow> confd_value \<Rightarrow> cs_node \<Rightarrow> bool" where
  "value_of_node lib v n \<longleftrightarrow>
     (cv_type v \<in> INT_VALS \<longrightarrow> fst (int_range (cv_type v)) \<le> cv_int v \<and> cv_int v \<le> snd (int_range (cv_type v))) \<and>
     (cv_type v = CT_IDENTITYREF \<longrightarrow>
        (\<exists>p idref. cv_val2str v (cs_info n) = p @ '':'' @ idref \<and> CHR '':'' \<notin> set p \<and> CHR '':'' \<notin> set idref \<and>
                 p \<in> (fst \<circ> snd) ` set (cl_nslist lib)))"

section \<open>Lemmas\<close>

lemma dict_comp_lookup:
  assumes "k \<in> f ` set xs"
  shows "\<exists>x \<in> set xs. f x = k \<and> map_of (dict_comp f g xs) k = Some (g x)"
  using assms unfolding dict_comp_def
proof (induction xs rule: rev_induct)
  case (snoc x xs)
  then show ?case by (cases "f x = k") (auto simp: AList.update_conv')
qed simp

lemma prefix_known:
  assumes "p \<in> (fst \<circ> snd) ` set (cl_nslist lib)"
  shows "\<exists>h m. (h, p, m) \<in> set (cl_nslist lib) \<and> dict_get (aa_pfx_to_module (api_init lib)) p = Inr m"
proof -
  obtain x where "x \<in> set (cl_nslist lib)" "(fst \<circ> snd) x = p"
    "map_of (dict_comp (fst \<circ> snd) (snd \<circ> snd) (cl_nslist lib)) p = Some ((snd \<circ> snd) x)"
    using dict_comp_lookup [OF assms] by blast
  then show ?thesis
    by (intro exI [of _ "fst x"] exI [of _ "snd (snd x)"]) (auto simp: dict_get_def api_init_def)
qed

lemma json_value_progress:
  assumes "value_of_node lib v n"
  shows "\<exists>j. json_value (api_init lib) v (Some n) = Inr j \<and> value_json lib (cv_type v) j"
proof (cases "cv_type v")
  case CT_IDENTITYREF
  with assms obtain p idref where s: "cv_val2str v (cs_info n) = p @ '':'' @ idref" "CHR '':'' \<notin> set p" "CHR '':'' \<notin> set idref"
    and p: "p \<in> (fst \<circ> snd) ` set (cl_nslist lib)"
    by (auto simp: value_of_node_def)
  from prefix_known [OF p] obtain h m where m: "(h, p, m) \<in> set (cl_nslist lib)" "dict_get (aa_pfx_to_module (api_init lib)) p = Inr m"
    by blast
  have "py_split (CHR '':'') (p @ '':'' @ idref) = [p, idref]"
    using s(2,3) by (simp add: py_split_append_sep py_split_free)
  with CT_IDENTITYREF s m show ?thesis
    by (auto simp: json_value_def INT_VALS_def val2str_def intro: value_json.identity [simplified])
qed (use assms in \<open>auto simp: json_value_def value_of_node_def INT_VALS_def val2str_def intro: value_json.intros\<close>)

section \<open>Correctness\<close>


definition idref_value :: confd_value where
  "idref_value = \<lparr>cv_type = CT_IDENTITYREF, cv_int = 0, cv_bool = False, cv_str = ''if:loopback'', cv_val2str = (\<lambda>_. ''if:loopback'')\<rparr>"


text \<open>An identity without a prefix raises.\<close>

theorem unprefixed_identity_raises:
  assumes "cv_type v = CT_IDENTITYREF" and "CHR '':'' \<notin> set (cv_val2str v (cs_info n))"
  shows "make_gnmi_json_value a v (Some n) = Inl ValueError"
  using assms by (simp add: make_gnmi_json_value_def json_value_def INT_VALS_def val2str_def py_split_free)

lemma unprefixed_identity_raises_witness:
  "make_gnmi_json_value example_adapter (idref_value\<lparr>cv_val2str := (\<lambda>_. ''loopback'')\<rparr>) (Some (CsNode example_info None)) = Inl ValueError"
  by (rule unprefixed_identity_raises) (simp_all add: idref_value_def)

end
