(* ===== verification/Py_Text.thy ===== *)
theory Py_Text
  imports Py_Prelude
begin

text \<open>
  Text and bytes. A \<open>bytes\<close> object is a \<^typ>\<open>string\<close>, one character per byte; a \<open>str\<close> is the list
  of its code points (type \<open>ustr\<close>). \<open>encode('utf-8')\<close> and \<open>decode('utf-8')\<close> are written out, with the
  errors of the strict mode, and \<open>int(b)\<close> as Python parses a number.
\<close>

type_synonym bytes = string

type_synonym ustr = "nat list"

text \<open>A literal of the source, all of whose characters are ASCII.\<close>

definition u :: "string \<Rightarrow> ustr" where
  "u s = map of_char s"

lemma u_simps [simp]: "u [] = []" "u (c # s) = of_char c # u s" "u (s @ t) = u s @ u t" "length (u s) = length s"
  by (simp_all add: u_def)

definition ascii :: "string \<Rightarrow> bool" where
  "ascii s \<longleftrightarrow> (\<forall>c \<in> set s. (of_char c :: nat) < 128)"

lemma ascii_simps [simp]:
  "ascii []" "ascii (c # s) \<longleftrightarrow> (of_char c :: nat) < 128 \<and> ascii s" "ascii (s @ t) \<longleftrightarrow> ascii s \<and> ascii t"
  by (auto simp: ascii_def)

section \<open>UTF-8\<close>

definition scalar :: "nat \<Rightarrow> bool" where
  "scalar c \<longleftrightarrow> c < 0xD800 \<or> 0xE000 \<le> c \<and> c < 0x110000"

fun utf8_char :: "nat \<Rightarrow> nat list" where
  "utf8_char c =
     (if c < 0x80 then [c]
      else if c < 0x800 then [0xC0 + c div 64, 0x80 + c mod 64]
      else if c < 0x10000 then [0xE0 + c div 4096, 0x80 + c div 64 mod 64, 0x80 + c mod 64]
      else [0xF0 + c div 262144, 0x80 + c div 4096 mod 64, 0x80 + c div 64 mod 64, 0x80 + c mod 64])"

declare utf8_char.simps [simp del]

text \<open>\<^const>\<open>None\<close> is the \<open>UnicodeEncodeError\<close> for a surrogate.\<close>

definition utf8_encode :: "ustr \<Rightarrow> bytes option" where
  "utf8_encode s =
     (if list_all scalar s then Some (map char_of (concat (map utf8_char s))) else None)"

definition cont :: "nat \<Rightarrow> bool" where
  "cont b \<longleftrightarrow> 0x80 \<le> b \<and> b < 0xC0"

fun utf8_decode_nats :: "nat list \<Rightarrow> nat list option" where
  "utf8_decode_nats [] = Some []"
| "utf8_decode_nats (b # bs) =
     (if b < 0x80 then map_option ((#) b) (utf8_decode_nats bs)
      else if 0xC2 \<le> b \<and> b < 0xE0 then
        (case bs of
           c1 # r \<Rightarrow>
             if cont c1 then map_option ((#) ((b - 0xC0) * 64 + (c1 - 0x80))) (utf8_decode_nats r)
             else None
         | _ \<Rightarrow> None)
      else if 0xE0 \<le> b \<and> b < 0xF0 then
        (case bs of
           c1 # c2 # r \<Rightarrow>
             (let v = (b - 0xE0) * 4096 + (c1 - 0x80) * 64 + (c2 - 0x80)
              in if cont c1 \<and> cont c2 \<and> 0x800 \<le> v \<and> scalar v
                 then map_option ((#) v) (utf8_decode_nats r) else None)
         | _ \<Rightarrow> None)
      else if 0xF0 \<le> b \<and> b < 0xF5 then
        (case bs of
           c1 # c2 # c3 # r \<Rightarrow>
             (let v = (b - 0xF0) * 262144 + (c1 - 0x80) * 4096 + (c2 - 0x80) * 64 + (c3 - 0x80)
              in if cont c1 \<and> cont c2 \<and> cont c3 \<and> 0x10000 \<le> v \<and> scalar v
                 then map_option ((#) v) (utf8_decode_nats r) else None)
         | _ \<Rightarrow> None)
      else None)"

definition utf8_decode :: "bytes \<Rightarrow> ustr option" where
  "utf8_decode b = utf8_decode_nats (map of_char b)"

lemma cont_low [simp]: "cont (0x80 + c mod 64)"
  by (simp add: cont_def)

lemma div_mod_split: "c = (c div 64) * 64 + c mod 64" for c :: nat
  by simp

lemma div_64_64: "c div 4096 = c div 64 div 64" "c div 262144 = c div 4096 div 64" for c :: nat
  by (simp_all add: div_mult2_eq [symmetric])

lemma split3: "c div 4096 * 4096 + c div 64 mod 64 * 64 + c mod 64 = c" for c :: nat
proof -
  have "c div 64 = c div 4096 * 64 + c div 64 mod 64"
    using div_mod_split [of "c div 64"] by (simp add: div_64_64)
  then show ?thesis using div_mod_split [of c] by linarith
qed

lemma split4: "c div 262144 * 262144 + c div 4096 mod 64 * 4096 + c div 64 mod 64 * 64 + c mod 64 = c"
  for c :: nat
proof -
  have "c div 4096 = c div 262144 * 64 + c div 4096 mod 64"
    using div_mod_split [of "c div 4096"] by (simp add: div_64_64)
  then show ?thesis using split3 [of c] by linarith
qed

lemma utf8_decode_char:
  assumes "scalar c"
  shows "utf8_decode_nats (utf8_char c @ r) = map_option ((#) c) (utf8_decode_nats r)"
proof -
  consider "c < 0x80" | "0x80 \<le> c" "c < 0x800" | "0x800 \<le> c" "c < 0x10000" | "0x10000 \<le> c" by linarith
  then show ?thesis
  proof cases
    case 2
    then have "2 \<le> c div 64" "c div 64 < 32" by linarith+
    with 2 div_mod_split [of c] show ?thesis
      by (simp add: utf8_char.simps)
  next
    case 3
    then have "c div 4096 < 16" by linarith
    with 3 assms split3 [of c] show ?thesis
      by (simp add: utf8_char.simps Let_def)
  next
    case 4
    then have "c < 0x110000" using assms by (auto simp: scalar_def)
    then have "c div 262144 < 5" by linarith
    with 4 assms split4 [of c] show ?thesis
      by (simp add: utf8_char.simps Let_def)
  qed (simp add: utf8_char.simps)
qed

lemma utf8_char_bytes: "scalar c \<Longrightarrow> b \<in> set (utf8_char c) \<Longrightarrow> b < 256"
  by (auto simp: utf8_char.simps scalar_def split: if_splits)

lemma of_char_of_bytes: "\<forall>b \<in> set bs. b < 256 \<Longrightarrow> map of_char (map char_of bs :: string) = (bs :: nat list)"
  by (induction bs) auto

text \<open>Decoding what was encoded gives the text back.\<close>

lemma utf8_roundtrip:
  assumes "utf8_encode s = Some b"
  shows "utf8_decode b = Some s"
proof -
  from assms have sc: "\<forall>c \<in> set s. scalar c" and b: "b = map char_of (concat (map utf8_char s))"
    by (auto simp: utf8_encode_def list_all_iff split: if_splits)
  have "utf8_decode_nats (concat (map utf8_char s)) = Some s"
    using sc by (induction s) (simp_all add: utf8_decode_char)
  moreover have "map of_char b = concat (map utf8_char s)"
    unfolding b by (rule of_char_of_bytes) (use sc utf8_char_bytes in fastforce)
  ultimately show ?thesis by (simp add: utf8_decode_def)
qed

lemma utf8_decode_ascii: "ascii b \<Longrightarrow> utf8_decode b = Some (u b)"
  by (induction b) (simp_all add: utf8_decode_def)

lemma scalar_ascii: "c < 128 \<Longrightarrow> scalar c"
  by (simp add: scalar_def)

lemma utf8_encode_ascii: "ascii s \<Longrightarrow> utf8_encode (u s) = Some s"
proof -
  assume "ascii s"
  then have "list_all scalar (u s) \<and> map char_of (concat (map utf8_char (u s))) = s"
    by (induction s) (simp_all add: utf8_char.simps scalar_ascii)
  then show ?thesis by (simp add: utf8_encode_def)
qed

lemma utf8_encode_append:
  "utf8_encode s = Some a \<Longrightarrow> utf8_encode t = Some b \<Longrightarrow> utf8_encode (s @ t) = Some (a @ b)"
  by (simp add: utf8_encode_def split: if_splits)

text \<open>The number of octets: at least the number of characters, and equal only for ASCII.\<close>

lemma utf8_char_length: "length (utf8_char c) = (if c < 0x80 then 1 else if c < 0x800 then 2 else if c < 0x10000 then 3 else 4)"
  by (simp add: utf8_char.simps)

lemma utf8_length:
  assumes "utf8_encode s = Some b"
  shows "length s \<le> length b" and "length b = length s \<longleftrightarrow> (\<forall>c \<in> set s. c < 128)"
proof -
  have len: "length b = sum_list (map (\<lambda>c. length (utf8_char c)) s)"
    using assms by (auto simp: utf8_encode_def length_concat o_def split: if_splits)
  have "length s \<le> sum_list (map (\<lambda>c. length (utf8_char c)) s) \<and>
      (sum_list (map (\<lambda>c. length (utf8_char c)) s) = length s \<longleftrightarrow> (\<forall>c \<in> set s. c < 128))"
    by (induction s) (auto simp: utf8_char_length)
  with len show "length s \<le> length b" and "length b = length s \<longleftrightarrow> (\<forall>c \<in> set s. c < 128)"
    by simp_all
qed

section \<open>\<open>int(b)\<close>\<close>

definition is_space :: "char \<Rightarrow> bool" where
  "is_space c \<longleftrightarrow> c = CHR '' '' \<or> (9 \<le> (of_char c :: nat) \<and> (of_char c :: nat) \<le> 13)"

definition py_strip :: "string \<Rightarrow> string" where
  "py_strip s = rev (dropWhile is_space (rev (dropWhile is_space s)))"

text \<open>Digits, with single underscores between them.\<close>

fun int_digits :: "bool \<Rightarrow> string \<Rightarrow> bool" where
  "int_digits after_digit [] = after_digit"
| "int_digits after_digit (c # s) =
     (if is_digit c then int_digits True s
      else c = CHR ''_'' \<and> after_digit \<and> int_digits False s)"

definition py_int :: "bytes \<Rightarrow> int option" where
  "py_int b =
     (let s = py_strip b;
          (sign, ds) = (case s of
             c # t \<Rightarrow> if c = CHR ''-'' then (- 1, t) else if c = CHR ''+'' then (1, t) else (1, s)
           | [] \<Rightarrow> (1, s))
      in if int_digits False ds then Some (sign * int (digits_val (filter is_digit ds))) else None)"

lemma digit_not_space: "is_digit c \<Longrightarrow> \<not> is_space c"
  by (auto simp: is_digit_def is_space_def)

lemma strip_digits:
  assumes "\<forall>c \<in> set s. is_digit c"
  shows "py_strip s = s"
proof -
  have drop: "dropWhile is_space t = t" if "\<forall>c \<in> set t. is_digit c" for t
    using that digit_not_space by (cases t) auto
  show ?thesis using drop [OF assms] drop [of "rev s"] assms by (simp add: py_strip_def)
qed

lemma int_digits_all: "\<forall>c \<in> set s. is_digit c \<Longrightarrow> int_digits b s \<longleftrightarrow> b \<or> s \<noteq> []"
  by (induction s arbitrary: b) auto

lemma py_int_nat_str [simp]: "py_int (nat_str n) = Some (int n)"
proof -
  obtain c t where ct: "nat_str n = c # t" by (cases "nat_str n") simp_all
  with nat_str_digits [of n] have c: "is_digit c" "c \<noteq> CHR ''-''" "c \<noteq> CHR ''+''"
    by (auto simp: is_digit_def)
  have "filter is_digit (nat_str n) = nat_str n" using nat_str_digits [of n] by simp
  with c ct show ?thesis
    using strip_digits [OF nat_str_digits, of n] int_digits_all [OF nat_str_digits, of False n]
      digits_val_nat_str [of n]
    by (simp add: py_int_def)
qed

lemma py_int_hash: "py_int ''#'' = None"
  by (simp add: py_int_def py_strip_def is_space_def is_digit_def)

end
