(* ===== verification/Gnmi_Api_Handler.thy ===== *)
theory Gnmi_Api_Handler
  imports Gnmi_Api_Adapter Py_Text
begin

text \<open>
  The subscription handler of \<open>confdgnmi/src/confd_gnmi_api_adapter.py\<close>: samples, monitored paths, CDB
  subscriptions, changes of CDB and of external programs, and the change thread. The thread is its
  start (\<open>api_thread_start\<close>) and one pass of \<open>socket_loop\<close> (\<open>api_thread_step\<close>, for what \<open>select\<close> found), and the record
  \<open>api_env\<close> has the answers of CDB and of the operating system.

  The handler interprets \<open>monitor_lifecycle\<close>, so the results on the generator \<open>read\<close> hold for it, and the
  step relation \<open>api_sys_step\<close> interleaves the thread, the generator and the requests.
\<close>

section \<open>State\<close>

datatype change_op = MODIFIED | OpText string

type_synonym api_change = "change_op \<times> gnmi_path \<times> typed_value"

datatype api_thread = ThStarting | ThLooping bool | ThEnded | ThDied py_error

text \<open>
  \<open>ah_stop_pipe\<close> says whether the pipe is open. \<open>ah_syncs\<close> counts the calls of
  \<open>sync_subscription_socket\<close>, by which CDB learns that a change was processed.
\<close>

record api_handler = sub_handler +
  ah_adapter :: api_adapter
  ah_monitored_paths :: "gnmi_path list"
  ah_change_db :: "(int \<times> api_change list) list"
  ah_change_thread :: "api_thread option"
  ah_stop_pipe :: bool
  ah_subpoint_paths :: "(int \<times> gnmi_path) list"
  ah_syncs :: nat

abbreviation (input) EXT_SPOINT :: int where "EXT_SPOINT \<equiv> - 1"

definition api_handler_init :: "api_adapter \<Rightarrow> subscription_list \<Rightarrow> api_handler" where
  "api_handler_init a sl =
     sub_handler.extend (handler_init sl)
       \<lparr>ah_adapter = a, ah_monitored_paths = [], ah_change_db = [], ah_change_thread = None,
        ah_stop_pipe = False, ah_subpoint_paths = [], ah_syncs = 0\<rparr>"

text \<open>What happened to an instance, as \<open>diff_iterate\<close> reports it.\<close>

datatype mop = MOP_CREATED | MOP_DELETED | MOP_MODIFIED | MOP_VALUE_SET | MOP_OTHER

type_synonym cdb_diff = "(keypath \<times> mop \<times> confd_value) list"

text \<open>
  What \<open>select\<close> found: a message of an external program, the subscription points that
  changed, with their differences, or the exception of reading them, the result of
  \<open>sync_subscription_socket\<close>, and the stop pipe.
\<close>

record ready =
  rd_external :: "bytes option"
  rd_sub :: "(int \<times> cdb_diff) list result option"
  rd_sync :: "unit result"
  rd_stop :: bool

record api_env =
  ev_connect :: "unit result"
  ev_subscribe2 :: "nat \<Rightarrow> string \<Rightarrow> bool \<Rightarrow> int result"
  ev_bind :: "unit result"
  ev_ready :: "api_handler \<Rightarrow> ready"

section \<open>Samples and notifications\<close>

definition notification_of :: "(int \<times> gnmi_path) list \<Rightarrow> int \<times> api_change list \<Rightarrow> notification result" where
  "notification_of subpoint_paths sc =
     (let (sub_point, chs) = sc
      in rbind (dict_get subpoint_paths sub_point) (\<lambda>pfx.
         rbind (map_result (\<lambda>(_, path, val).
           rbind (remove_path_prefix path pfx) (\<lambda>p. Inr \<lparr>u_path = p, u_val = val\<rparr>)) chs) (\<lambda>updates.
         Inr \<lparr>n_timestamp = 0, n_prefix = pfx, n_update = updates, n_delete = [], n_atomic = False\<rparr>)))"

definition api_get_subscription_notifications ::
  "subscription_list \<Rightarrow> api_handler \<Rightarrow> (api_handler \<times> notification list) result" where
  "api_get_subscription_notifications sl h =
     (if length (ah_change_db h) = 0 then Inl AssertionError
      else rbind (map_result (notification_of (ah_subpoint_paths h)) (ah_change_db h)) (\<lambda>ns.
           Inr (h\<lparr>ah_change_db := []\<rparr>, ns)))"

definition api_get_sample ::
  "confd_lib \<Rightarrow> (string \<Rightarrow> confd_db \<Rightarrow> string \<Rightarrow> read_trans result) \<Rightarrow> api_handler \<Rightarrow> gnmi_path \<Rightarrow> gnmi_path \<Rightarrow>
     gnmi_update list result" where
  "api_get_sample lib open_read h path pfx =
     strip_updates pfx (get_updates_with_maapi_save lib open_read (ah_adapter h)
       (make_xpath_path (Some path) (Some pfx) True) DT_ALL)"

definition api_add_path_for_monitoring :: "api_handler \<Rightarrow> gnmi_path \<Rightarrow> gnmi_path \<Rightarrow> api_handler result" where
  "api_add_path_for_monitoring h path pfx =
     Inr (h\<lparr>ah_monitored_paths := ah_monitored_paths h @ [add_path_prefix path pfx]\<rparr>)"

text \<open>The first element loses its prefix.\<close>

definition kp_to_xpath :: "confd_lib \<Rightarrow> keypath \<Rightarrow> string" where
  "kp_to_xpath lib kp =
     (let xpath = py_replace [CHR 0x22] [] (cl_xpath_pp_kpath lib kp);
          starts_slash = startswith xpath ''/''
      in if CHR '':'' \<in> set xpath then
           (let rest = tl (dropWhile (\<lambda>c. c \<noteq> CHR '':'') xpath) in if starts_slash then ''/'' @ rest else rest)
         else xpath)"

section \<open>Changes\<close>

definition append_changes :: "int \<Rightarrow> api_change list \<Rightarrow> api_handler \<Rightarrow> api_handler" where
  "append_changes sub_point chs h = h\<lparr>ah_change_db := ah_change_db h @ [(sub_point, chs)]\<rparr>"

text \<open>Both kinds of changes end like this; the changes stay when the event cannot be put.\<close>

definition record_changes :: "int \<Rightarrow> api_change list \<Rightarrow> api_handler \<Rightarrow> api_handler \<times> unit result" where
  "record_changes sub_point chs h =
     (let h1 = append_changes sub_point chs h
      in case put_event SEND_CHANGES h1 of Inl e \<Rightarrow> (h1, Inl e) | Inr h2 \<Rightarrow> (h2, Inr ()))"

definition cdb_iter :: "confd_lib \<Rightarrow> api_adapter \<Rightarrow> keypath \<times> mop \<times> confd_value \<Rightarrow> api_change list result" where
  "cdb_iter lib a kon =
     (let (kp, op, newv) = kon; csnode = cl_cs_node_cd lib None (cl_pp_kpath lib kp)
      in if op = MOP_VALUE_SET then
           rbind (make_gnmi_keypath lib a kp csnode) (\<lambda>path.
           rbind (make_gnmi_json_value a newv csnode) (\<lambda>val. Inr [(MODIFIED, path, val)]))
         else Inr [])"

definition process_subscription ::
  "confd_lib \<Rightarrow> int \<times> cdb_diff \<Rightarrow> api_handler \<Rightarrow> api_handler \<times> unit result" where
  "process_subscription lib sd h =
     (case map_result (cdb_iter lib (ah_adapter h)) (snd sd) of
        Inl e \<Rightarrow> (h, Inl (cl_callback_error lib e))
      | Inr chs \<Rightarrow> record_changes (fst sd) (concat chs) h)"

fun process_points ::
  "confd_lib \<Rightarrow> (int \<times> cdb_diff) list \<Rightarrow> api_handler \<Rightarrow> api_handler \<times> unit result" where
  "process_points lib [] h = (h, Inr ())"
| "process_points lib (sd # sds) h =
     (case process_subscription lib sd h of
        (h1, Inl e) \<Rightarrow> (h1, Inl e)
      | (h1, Inr _) \<Rightarrow> process_points lib sds h1)"

text \<open>The strings of the message, three by three.\<close>

fun external_changes :: "confd_lib \<Rightarrow> api_adapter \<Rightarrow> string list \<Rightarrow> api_change list result" where
  "external_changes lib a (op # xpath # val # rest) =
     (let csnode = cl_cs_node_cd lib None (fix_path_prefixes a xpath)
      in rbind (make_gnmi_path xpath [] []) (\<lambda>path.
         rbind (case csnode of None \<Rightarrow> Inl AttributeError | Some n \<Rightarrow> cl_str2val lib val (cs_info n)) (\<lambda>cval.
         rbind (make_gnmi_json_value a cval csnode) (\<lambda>v.
         rbind (external_changes lib a rest) (\<lambda>cs. Inr ((OpText op, path, v) # cs))))))"
| "external_changes lib a _ = Inr []"

definition process_external_change :: "confd_lib \<Rightarrow> bytes \<Rightarrow> api_handler \<Rightarrow> api_handler \<times> unit result" where
  "process_external_change lib sent h =
     (let msg = take 1024 sent
      in case utf8_decode msg of
           None \<Rightarrow> (h, Inl UnicodeDecodeError)
         | Some _ \<Rightarrow>
             (let strs = py_split (CHR 0x0A) msg
              in if length strs mod 3 \<noteq> 0 then (h, Inl AssertionError)
                 else (case external_changes lib (ah_adapter h) strs of
                         Inl e \<Rightarrow> (h, Inl e)
                       | Inr chs \<Rightarrow> record_changes EXT_SPOINT chs h)))"

section \<open>The change thread\<close>

text \<open>The loop over the monitored paths, with the number of subscriptions made so far.\<close>

fun subscribe_paths ::
  "confd_lib \<Rightarrow> api_env \<Rightarrow> nat \<Rightarrow> gnmi_path list \<Rightarrow> api_handler \<Rightarrow> api_handler \<times> bool result" where
  "subscribe_paths lib env n [] h = (h, Inr False)"
| "subscribe_paths lib env n (path # paths) h =
     (let path_str = fix_path_prefixes (ah_adapter h) (make_formatted_path path None False)
      in case cl_cs_node_cd lib None path_str of
           None \<Rightarrow> (h, Inl AttributeError)
         | Some node \<Rightarrow>
             (let i = cs_info node
              in if ni_is_list i \<and> p_elem path = [] then (h, Inl IndexError)
                 else (let subpoint_path = (if ni_is_list i \<and> pe_key (last (p_elem path)) = []
                                            then path\<lparr>p_elem := butlast (p_elem path)\<rparr> else path)
                       in if ni_is_cdb i then
                            (case ev_subscribe2 env n path_str (ni_is_write i) of
                               Inl e \<Rightarrow> (h, Inl e)
                             | Inr spoint \<Rightarrow>
                                 subscribe_paths lib env (n + 1) paths
                                   (h\<lparr>ah_subpoint_paths := AList.update spoint subpoint_path (ah_subpoint_paths h)\<rparr>))
                          else (case subscribe_paths lib env n paths h of
                                  (h1, Inl e) \<Rightarrow> (h1, Inl e)
                                | (h1, Inr _) \<Rightarrow> (h1, Inr True)))))"

definition subscribe_monitored_paths_cdb ::
  "confd_lib \<Rightarrow> api_env \<Rightarrow> api_handler \<Rightarrow> api_handler \<times> bool result" where
  "subscribe_monitored_paths_cdb lib env h = subscribe_paths lib env 0 (ah_monitored_paths h) h"

text \<open>An exception inside the \<open>try\<close> block of \<open>process_changes\<close>: it is logged and the generator is asked to stop.\<close>

definition thread_failed :: "api_handler \<Rightarrow> api_handler" where
  "thread_failed h =
     (case handler_stop h of
        Inl e \<Rightarrow> h\<lparr>ah_change_thread := Some (ThDied e)\<rparr>
      | Inr h1 \<Rightarrow> h1\<lparr>ah_change_thread := Some ThEnded\<rparr>)"

definition api_thread_start :: "confd_lib \<Rightarrow> api_env \<Rightarrow> bool \<Rightarrow> api_handler \<Rightarrow> api_handler" where
  "api_thread_start lib env ext_changes h =
     (case (case ev_connect env of Inl e \<Rightarrow> (h, Inl e) | Inr _ \<Rightarrow> subscribe_monitored_paths_cdb lib env h) of
        (h1, Inl e) \<Rightarrow> h1\<lparr>ah_change_thread := Some (ThDied e)\<rparr>
      | (h1, Inr has_non_cdb) \<Rightarrow>
          if \<not> ah_stop_pipe h1 then h1\<lparr>ah_change_thread := Some (ThDied AssertionError)\<rparr>
          else if ext_changes \<and> has_non_cdb then
            (case ev_bind env of
               Inl e \<Rightarrow> thread_failed h1
             | Inr _ \<Rightarrow> h1\<lparr>ah_subpoint_paths := AList.update EXT_SPOINT empty_path (ah_subpoint_paths h1),
                          ah_change_thread := Some (ThLooping True)\<rparr>)
          else h1\<lparr>ah_change_thread := Some (ThLooping False)\<rparr>)"

text \<open>
  The part of a pass for the subscription socket: a callback error is logged, and everything else
  leaves the loop.
\<close>

definition loop_sub :: "confd_lib \<Rightarrow> ready \<Rightarrow> api_handler \<Rightarrow> api_handler \<times> unit result" where
  "loop_sub lib r h =
     (let catch = (\<lambda>h e. if e = ConfdErrExternal then (h, Inr ()) else (h, Inl e))
      in case rd_sub r of
           None \<Rightarrow> (h, Inr ())
         | Some (Inl e) \<Rightarrow> catch h e
         | Some (Inr points) \<Rightarrow>
             (case process_points lib points h of
                (h1, Inl e) \<Rightarrow> catch h1 e
              | (h1, Inr _) \<Rightarrow>
                  (case rd_sync r of
                     Inl e \<Rightarrow> catch h1 e
                   | Inr _ \<Rightarrow> (h1\<lparr>ah_syncs := ah_syncs h1 + 1\<rparr>, Inr ()))))"

text \<open>One pass of \<open>socket_loop\<close>: whether the loop goes on.\<close>

definition socket_loop_pass ::
  "confd_lib \<Rightarrow> bool \<Rightarrow> ready \<Rightarrow> api_handler \<Rightarrow> api_handler \<times> bool result" where
  "socket_loop_pass lib ext_server r h =
     (case (case (ext_server, rd_external r) of
              (True, Some msg) \<Rightarrow> process_external_change lib msg h
            | _ \<Rightarrow> (h, Inr ())) of
        (h1, Inl e) \<Rightarrow> (h1, Inl e)
      | (h1, Inr _) \<Rightarrow>
          (case loop_sub lib r h1 of
             (h2, Inl e) \<Rightarrow> (h2, Inl e)
           | (h2, Inr _) \<Rightarrow> (h2, Inr (\<not> rd_stop r))))"

definition api_thread_step :: "confd_lib \<Rightarrow> ready \<Rightarrow> api_handler \<Rightarrow> api_handler" where
  "api_thread_step lib r h =
     (case ah_change_thread h of
        Some (ThLooping ext_server) \<Rightarrow>
          (case socket_loop_pass lib ext_server r h of
             (h1, Inl e) \<Rightarrow> thread_failed h1
           | (h1, Inr True) \<Rightarrow> h1
           | (h1, Inr False) \<Rightarrow> h1\<lparr>ah_change_thread := Some ThEnded\<rparr>)
      | _ \<Rightarrow> h)"

definition api_start_monitoring :: "api_handler \<Rightarrow> api_handler result" where
  "api_start_monitoring h =
     (if ah_change_thread h \<noteq> None then Inl AssertionError
      else if ah_stop_pipe h then Inl AssertionError
      else Inr (h\<lparr>ah_stop_pipe := True, ah_change_thread := Some ThStarting\<rparr>))"

text \<open>\<open>join\<close>: the thread starts, if it had not yet, and makes its last pass with the stop pipe ready.\<close>

definition api_join :: "confd_lib \<Rightarrow> api_env \<Rightarrow> bool \<Rightarrow> api_handler \<Rightarrow> api_handler" where
  "api_join lib env ext_changes h =
     (let h1 = (if ah_change_thread h = Some ThStarting then api_thread_start lib env ext_changes h else h)
      in api_thread_step lib ((ev_ready env h1)\<lparr>rd_stop := True\<rparr>) h1)"

definition api_stop_monitoring :: "confd_lib \<Rightarrow> api_env \<Rightarrow> bool \<Rightarrow> api_handler \<Rightarrow> api_handler result" where
  "api_stop_monitoring lib env ext_changes h =
     (if ah_change_thread h = None then Inr (h\<lparr>ah_monitored_paths := []\<rparr>)
      else if \<not> ah_stop_pipe h then Inl AssertionError
      else Inr ((api_join lib env ext_changes h)
             \<lparr>ah_change_thread := None, ah_stop_pipe := False, ah_monitored_paths := []\<rparr>))"

definition api_ops ::
  "confd_lib \<Rightarrow> (string \<Rightarrow> confd_db \<Rightarrow> string \<Rightarrow> read_trans result) \<Rightarrow> api_env \<Rightarrow> bool \<Rightarrow> api_handler handler_ops" where
  "api_ops lib open_read env ext_changes =
     \<lparr>op_get_sample = api_get_sample lib open_read,
      op_add_path_for_monitoring = api_add_path_for_monitoring,
      op_get_subscription_notifications = api_get_subscription_notifications,
      op_start_monitoring = api_start_monitoring,
      op_stop_monitoring = api_stop_monitoring lib env ext_changes\<rparr>"

lemma api_ops_sel [simp]:
  "op_get_sample (api_ops lib open_read env x) = api_get_sample lib open_read"
  "op_add_path_for_monitoring (api_ops lib open_read env x) = api_add_path_for_monitoring"
  "op_get_subscription_notifications (api_ops lib open_read env x) = api_get_subscription_notifications"
  "op_start_monitoring (api_ops lib open_read env x) = api_start_monitoring"
  "op_stop_monitoring (api_ops lib open_read env x) = api_stop_monitoring lib env x"
  by (simp_all add: api_ops_def)

interpretation api: monitor_lifecycle "api_ops lib open_read env x" "\<lambda>h. ah_change_thread h \<noteq> None"
  for lib open_read env x
proof unfold_locales
  show "(ah_change_thread s' \<noteq> None) = (ah_change_thread s \<noteq> None)"
    if "op_add_path_for_monitoring (api_ops lib open_read env x) s p pfx = Inr s'" for s p pfx s'
    using that by (auto simp: api_add_path_for_monitoring_def)
  show "op_start_monitoring (api_ops lib open_read env x) s \<noteq> Inr s'" if "ah_change_thread s \<noteq> None" for s s'
    using that by (auto simp: api_start_monitoring_def)
  show "ah_change_thread s' \<noteq> None" if "op_start_monitoring (api_ops lib open_read env x) s = Inr s'" for s s'
    using that by (auto simp: api_start_monitoring_def split: if_splits)
  show "(ah_change_thread s' \<noteq> None) = (ah_change_thread s \<noteq> None)"
    if "op_get_subscription_notifications (api_ops lib open_read env x) sl s = Inr (s', ns)" for sl s s' ns
    using that by (auto simp: api_get_subscription_notifications_def rbind_eq_Inr_iff split: if_splits)
  show "\<not> ah_change_thread s' \<noteq> None"
    if "op_stop_monitoring (api_ops lib open_read env x) s = Inr s'" for s s'
    using that by (auto simp: api_stop_monitoring_def split: if_splits)
qed

section \<open>The thread and the generator\<close>

text \<open>
  A running subscription: the handler, the responses that the generator yielded for \<open>SEND_CHANGES\<close>, and the
  batches of changes that the thread recorded, over the whole run. The thread makes a pass for
  whatever \<open>select\<close> finds, the generator takes an event, and requests put events.
\<close>

record api_sys =
  as_handler :: api_handler
  as_out :: "subscribe_response list"
  as_recorded :: "(int \<times> api_change list) list"

inductive api_sys_step :: "confd_lib \<Rightarrow> api_handler handler_ops \<Rightarrow> api_sys \<Rightarrow> api_sys \<Rightarrow> bool" for lib ops where
  thread: "h' = api_thread_step lib r (as_handler s) \<Longrightarrow>
     api_sys_step lib ops s (s\<lparr>as_handler := h',
       as_recorded := as_recorded s @ drop (length (ah_change_db (as_handler s))) (ah_change_db h')\<rparr>)"
| reader: "sh_read_queue (as_handler s) = Some (ev # q) \<Longrightarrow>
     read_iter ops (sh_subscription_list (as_handler s)) False (Some ev)
       ((as_handler s)\<lparr>sh_read_queue := Some q\<rparr>) = Inr (h', rs, True) \<Longrightarrow>
     api_sys_step lib ops s (s\<lparr>as_handler := h', as_out := as_out s @ (if ev = SEND_CHANGES then rs else [])\<rparr>)"
| request: "put_event ev (as_handler s) = Inr h' \<Longrightarrow> api_sys_step lib ops s (s\<lparr>as_handler := h'\<rparr>)"

text \<open>The first sample is out, the thread is in its loop, and nothing has changed yet.\<close>

definition api_sys_init :: "api_sys \<Rightarrow> bool" where
  "api_sys_init s \<longleftrightarrow>
     (\<exists>b. ah_change_thread (as_handler s) = Some (ThLooping b)) \<and> sh_read_queue (as_handler s) \<noteq> None \<and>
     ah_change_db (as_handler s) = [] \<and> as_out s = [] \<and> as_recorded s = []"

inductive api_reachable :: "confd_lib \<Rightarrow> api_handler handler_ops \<Rightarrow> api_sys \<Rightarrow> api_sys \<Rightarrow> bool" for lib ops s0 where
  init: "api_sys_init s0 \<Longrightarrow> api_reachable lib ops s0 s0"
| step: "api_reachable lib ops s0 s \<Longrightarrow> api_sys_step lib ops s s' \<Longrightarrow> api_reachable lib ops s0 s'"

text \<open>What a pass of the thread may do: append batches, and put events, among them \<open>SEND_CHANGES\<close> if there are new batches.\<close>

definition api_extends :: "api_handler \<Rightarrow> api_handler \<Rightarrow> bool" where
  "api_extends h h' \<longleftrightarrow>
     ah_subpoint_paths h' = ah_subpoint_paths h \<and> sh_subscription_list h' = sh_subscription_list h \<and>
     (\<exists>batches evs. ah_change_db h' = ah_change_db h @ batches \<and>
        (\<forall>q. sh_read_queue h = Some q \<longrightarrow> sh_read_queue h' = Some (q @ evs) \<and> (batches \<noteq> [] \<longrightarrow> SEND_CHANGES \<in> set evs)))"

lemma api_extends_refl [simp]: "api_extends h h"
  by (auto simp: api_extends_def)

lemma api_extends_frame [simp]:
  "api_extends h (h'\<lparr>ah_change_thread := t\<rparr>) = api_extends h h'"
  "api_extends h (h'\<lparr>ah_syncs := n\<rparr>) = api_extends h h'"
  by (simp_all add: api_extends_def)

lemma api_extends_trans:
  assumes "api_extends h1 h2" and "api_extends h2 h3"
  shows "api_extends h1 h3"
proof -
  obtain b1 e1 where 1: "ah_change_db h2 = ah_change_db h1 @ b1"
    "\<forall>q. sh_read_queue h1 = Some q \<longrightarrow> sh_read_queue h2 = Some (q @ e1) \<and> (b1 \<noteq> [] \<longrightarrow> SEND_CHANGES \<in> set e1)"
    using assms(1) by (auto simp: api_extends_def)
  obtain b2 e2 where 2: "ah_change_db h3 = ah_change_db h2 @ b2"
    "\<forall>q. sh_read_queue h2 = Some q \<longrightarrow> sh_read_queue h3 = Some (q @ e2) \<and> (b2 \<noteq> [] \<longrightarrow> SEND_CHANGES \<in> set e2)"
    using assms(2) by (auto simp: api_extends_def)
  have "\<exists>batches evs. ah_change_db h3 = ah_change_db h1 @ batches \<and>
     (\<forall>q. sh_read_queue h1 = Some q \<longrightarrow> sh_read_queue h3 = Some (q @ evs) \<and> (batches \<noteq> [] \<longrightarrow> SEND_CHANGES \<in> set evs))"
    by (rule exI [of _ "b1 @ b2"], rule exI [of _ "e1 @ e2"]) (use 1 2 in auto)
  with assms show ?thesis by (simp add: api_extends_def)
qed

lemma record_changes_extends: "api_extends h (fst (record_changes sp cs h))"
  by (auto simp: record_changes_def append_changes_def put_event_def api_extends_def Let_def split: option.splits)

lemma process_subscription_extends: "api_extends h (fst (process_subscription lib sd h))"
  by (auto simp: process_subscription_def record_changes_extends split: sum.splits)

lemma process_points_extends: "api_extends h (fst (process_points lib sds h))"
proof (induction sds arbitrary: h)
  case (Cons sd sds)
  obtain h1 r where ps: "process_subscription lib sd h = (h1, r)" by fastforce
  have "api_extends h h1" using process_subscription_extends [of h lib sd] ps by simp
  then show ?case using ps Cons.IH [of h1] by (cases r) (auto intro: api_extends_trans)
qed simp

lemma external_change_extends: "api_extends h (fst (process_external_change lib msg h))"
  by (auto simp: process_external_change_def record_changes_extends Let_def split: option.splits sum.splits)

lemma loop_sub_extends: "api_extends h (fst (loop_sub lib r h))"
  using process_points_extends [of h lib]
  by (auto simp: loop_sub_def Let_def split: option.splits sum.splits prod.splits) (metis fst_conv)+

lemma socket_loop_extends: "api_extends h (fst (socket_loop_pass lib b r h))"
proof -
  obtain h1 r1 where 1: "(case (b, rd_external r) of (True, Some msg) \<Rightarrow> process_external_change lib msg h
      | _ \<Rightarrow> (h, Inr ())) = (h1, r1)" by fastforce
  have h1: "api_extends h h1"
    using 1 external_change_extends [of h lib] by (auto split: bool.splits option.splits) (metis fst_conv)
  obtain h2 r2 where 2: "loop_sub lib r h1 = (h2, r2)" by fastforce
  have "api_extends h h2" using api_extends_trans [OF h1] loop_sub_extends [of h1 lib r] 2 by simp
  with h1 show ?thesis unfolding socket_loop_pass_def 1 using 2 by (cases r1; cases r2) simp_all
qed

lemma thread_failed_extends: "api_extends h (thread_failed h)"
  by (auto simp: thread_failed_def handler_stop_def put_event_def split: sum.splits option.splits)
    (auto simp: api_extends_def)

lemma api_thread_extends: "api_extends h (api_thread_step lib r h)"
proof (cases "\<exists>b. ah_change_thread h = Some (ThLooping b)")
  case True
  then obtain b where b: "ah_change_thread h = Some (ThLooping b)" by blast
  obtain h1 res where 1: "socket_loop_pass lib b r h = (h1, res)" by fastforce
  then have "api_extends h h1" using socket_loop_extends [of h lib b r] by simp
  then show ?thesis
    using b 1 api_extends_trans [OF _ thread_failed_extends] by (auto simp: api_thread_step_def split: sum.splits bool.splits)
qed (auto simp: api_thread_step_def split: option.splits api_thread.splits)

text \<open>What was recorded is what was sent and what waits, and waiting changes have their event.\<close>

definition api_inv :: "(int \<times> gnmi_path) list \<Rightarrow> api_sys \<Rightarrow> bool" where
  "api_inv sps s \<longleftrightarrow>
     (let h = as_handler s
      in ah_subpoint_paths h = sps \<and>
         (\<exists>q. sh_read_queue h = Some q \<and> (ah_change_db h \<noteq> [] \<longrightarrow> SEND_CHANGES \<in> set q)) \<and>
         (\<exists>sent ns. as_recorded s = sent @ ah_change_db h \<and>
            map_result (notification_of sps) sent = Inr ns \<and> as_out s = map RespUpdate ns))"

lemma api_inv_thread:
  assumes "api_inv sps s" and "api_extends (as_handler s) h'"
  shows "api_inv sps (s\<lparr>as_handler := h',
     as_recorded := as_recorded s @ drop (length (ah_change_db (as_handler s))) (ah_change_db h')\<rparr>)"
  using assms by (fastforce simp: api_inv_def api_extends_def Let_def)

lemma api_reader_cases:
  assumes "read_iter (api_ops lib open_read env x) sl False (Some ev) h = Inr (h', rs, True)"
  shows "(ev = SAMPLE \<and> h' = h) \<or>
     (ev = SEND_CHANGES \<and> (\<exists>ns. map_result (notification_of (ah_subpoint_paths h)) (ah_change_db h) = Inr ns \<and>
        h' = h\<lparr>ah_change_db := []\<rparr> \<and> rs = map RespUpdate ns))"
  using assms
  by (auto simp: read_iter_def changes_def api_get_subscription_notifications_def rbind_eq_Inr_iff
      split: if_splits dest: sample_no_start)

lemma api_inv_step:
  assumes "api_sys_step lib (api_ops lib open_read env x) s s'" and "api_inv sps s"
  shows "api_inv sps s'"
  using assms
proof (induction rule: api_sys_step.cases)
  case (thread h' r s)
  then show ?case using api_inv_thread [OF _ api_thread_extends] by auto
next
  case (reader s ev q h' rs)
  from api_reader_cases [OF reader(4)] show ?case
  proof (elim disjE conjE exE)
    assume "ev = SAMPLE" "h' = (as_handler s)\<lparr>sh_read_queue := Some q\<rparr>"
    then show ?case using reader by (auto simp: api_inv_def Let_def)
  next
    fix ns
    assume ev: "ev = SEND_CHANGES" and h': "h' = (as_handler s)\<lparr>sh_read_queue := Some q\<rparr>\<lparr>ah_change_db := []\<rparr>"
      and rs: "rs = map RespUpdate ns"
      and ns: "map_result (notification_of (ah_subpoint_paths ((as_handler s)\<lparr>sh_read_queue := Some q\<rparr>)))
        (ah_change_db ((as_handler s)\<lparr>sh_read_queue := Some q\<rparr>)) = Inr ns"
    obtain sent ms where "as_recorded s = sent @ ah_change_db (as_handler s)"
      "map_result (notification_of sps) sent = Inr ms" "as_out s = map RespUpdate ms" "ah_subpoint_paths (as_handler s) = sps"
      using reader by (auto simp: api_inv_def Let_def)
    with ns rs ev h' reader(2) show ?case
      by (auto simp: api_inv_def Let_def map_result_append intro!: exI [of _ "as_recorded s"] exI [of _ "ms @ ns"])
  qed
next
  case (request ev s h')
  then show ?case
    by (fastforce simp: api_inv_def Let_def put_event_def split: option.splits)
qed

lemma api_reachable_inv:
  assumes "api_reachable lib (api_ops lib open_read env x) s0 s"
  shows "api_inv (ah_subpoint_paths (as_handler s0)) s"
  using assms
proof (induction rule: api_reachable.induct)
  case init
  then show ?case by (auto simp: api_inv_def api_sys_init_def Let_def)
next
  case (step s s')
  then show ?case using api_inv_step by blast
qed

section \<open>Properties\<close>


definition example_env :: api_env where
  "example_env = \<lparr>ev_connect = Inr (), ev_subscribe2 = (\<lambda>n p b. Inr 5), ev_bind = Inr (),
     ev_ready = (\<lambda>h. \<lparr>rd_external = None, rd_sub = None, rd_sync = Inr (), rd_stop = False\<rparr>)\<rparr>"

definition stream_list :: subscription_list where
  "stream_list = \<lparr>sl_prefix = empty_path, sl_paths = [], sl_mode = STREAM, sl_encoding = JSON\<rparr>"

definition example_handler :: api_handler where
  "example_handler = (api_handler_init example_adapter stream_list)
     \<lparr>ah_change_thread := Some (ThLooping False), ah_stop_pipe := True, ah_subpoint_paths := [(5, empty_path)]\<rparr>"

text \<open>One instance of the subscription point 5 got a value.\<close>

definition one_change :: ready where
  "one_change = \<lparr>rd_external = None,
     rd_sub = Some (Inr [(5, [([KpTag 1 17], MOP_VALUE_SET, str_value ''up'')])]), rd_sync = Inr (), rd_stop = False\<rparr>"

abbreviation ops_ex :: "api_handler handler_ops" where
  "ops_ex \<equiv> api_ops example_lib (\<lambda>_ _ _. Inl ConfdErr) example_env False"

definition change_notif :: notification where
  "change_notif = \<lparr>n_timestamp = 0, n_prefix = empty_path, n_update =
     [\<lparr>u_path = \<lparr>p_elem = [mk_elem ''ietf-interfaces:interfaces'' []], p_origin = [], p_target = []\<rparr>,
       u_val = JsonIetfVal (json_dumps (JStr ''up''))\<rparr>], n_delete = [], n_atomic = False\<rparr>"

definition change_batch :: "int \<times> api_change list" where
  "change_batch = (5, [(MODIFIED, \<lparr>p_elem = [mk_elem ''ietf-interfaces:interfaces'' []], p_origin = [], p_target = []\<rparr>,
     JsonIetfVal (json_dumps (JStr ''up'')))])"

lemmas handler_simps = example_handler_def api_handler_init_def handler_init_def stream_list_def mode_defs
  sub_handler.defs one_change_def change_batch_def

lemma one_change_step:
  "ah_change_thread h = Some (ThLooping False) \<Longrightarrow> ah_adapter h = example_adapter \<Longrightarrow> sh_read_queue h = Some q \<Longrightarrow>
   api_thread_step example_lib one_change h =
     h\<lparr>sh_read_queue := Some (q @ [SEND_CHANGES]), ah_change_db := ah_change_db h @ [change_batch], ah_syncs := ah_syncs h + 1\<rparr>"
  by (simp add: api_thread_step_def socket_loop_pass_def loop_sub_def one_change_def process_subscription_def cdb_iter_def
      make_gnmi_keypath_def make_gnmi_keypath_elems_def csnode_list_def make_gnmi_json_value_def json_value_def
      val2str_def INT_VALS_def str_value_def record_changes_def append_changes_def put_event_def change_batch_def
      example_lib_def example_info_def example_adapter_def dict_get_def Let_def)

lemma change_batch_notif: "notification_of [(5, empty_path)] change_batch = Inr change_notif"
  by (simp add: notification_of_def change_batch_def dict_get_def remove_path_prefix_def change_notif_def)


text \<open>
  Two changes before the client reads: when the thread has recorded batches with two events in the queue, the first
  event sends all of them, and the second finds nothing and ends the subscription with
  \<open>AssertionError\<close>, with the change thread still running.
\<close>

theorem api_second_event_raises:
  assumes "ah_change_db h \<noteq> []" and "map_result (notification_of (ah_subpoint_paths h)) (ah_change_db h) = Inr ns"
  shows "read_loop (api_ops lib open_read env x) sl False (Some SEND_CHANGES) (SEND_CHANGES # q) h =
     (map RespUpdate ns, q, h\<lparr>ah_change_db := []\<rparr>, Raised AssertionError)"
  using assms
  by (simp add: read_loop.simps [of _ sl] read_iter_def changes_def api_get_subscription_notifications_def)

lemma api_second_event_raises_witness:
  "let h = api_thread_step example_lib one_change (api_thread_step example_lib one_change example_handler)
   in sh_read_queue h = Some [SEND_CHANGES, SEND_CHANGES] \<and>
      (case read_loop ops_ex stream_list False (Some SEND_CHANGES) [SEND_CHANGES] h of (rs, q, h', out) \<Rightarrow>
         rs = [RespUpdate change_notif, RespUpdate change_notif] \<and> out = Raised AssertionError \<and>
         ah_change_thread h' = Some (ThLooping False))"
proof -
  let ?h = "api_thread_step example_lib one_change (api_thread_step example_lib one_change example_handler)"
  have h0: "ah_change_thread example_handler = Some (ThLooping False)" "ah_adapter example_handler = example_adapter"
    "sh_read_queue example_handler = Some []" "ah_change_db example_handler = []"
    "ah_subpoint_paths example_handler = [(5, empty_path)]"
    by (simp_all add: handler_simps)
  have h: "?h = example_handler\<lparr>sh_read_queue := Some [SEND_CHANGES, SEND_CHANGES],
      ah_change_db := [change_batch, change_batch], ah_syncs := ah_syncs example_handler + 1 + 1\<rparr>"
    unfolding one_change_step [OF h0(1-3)]
    by (subst one_change_step [where q = "[SEND_CHANGES]"]) (simp_all add: h0)
  have "read_loop ops_ex stream_list False (Some SEND_CHANGES) [SEND_CHANGES] ?h =
      (map RespUpdate [change_notif, change_notif], [], ?h\<lparr>ah_change_db := []\<rparr>, Raised AssertionError)"
    by (rule api_second_event_raises) (simp_all add: h h0 change_batch_notif)
  then show ?thesis by (simp add: h h0 Let_def)
qed



text \<open>
  A failing callback leaves CDB waiting: when a value cannot be converted, the error of the
  iteration is logged, nothing is recorded, and CDB is not told that the change was processed, so its
  transaction waits; the loop goes on as if nothing had happened.
\<close>

theorem api_callback_error_unsynced:
  assumes "ah_change_thread h = Some (ThLooping b)" and "rd_external r = None" and "\<not> rd_stop r"
    and "rd_sub r = Some (Inr ((sp, diffs) # points))"
    and "map_result (cdb_iter lib (ah_adapter h)) diffs = Inl e" and "cl_callback_error lib e = ConfdErrExternal"
  shows "api_thread_step lib r h = h"
  using assms by (auto simp: api_thread_step_def socket_loop_pass_def loop_sub_def process_subscription_def split: bool.splits)

lemma api_callback_error_unsynced_witness:
  "api_thread_step example_lib
     \<lparr>rd_external = None, rd_sub = Some (Inr [(5, [([KpTag 1 99], MOP_VALUE_SET, str_value ''up'')])]), rd_sync = Inr (), rd_stop = False\<rparr>
     example_handler = example_handler"
proof (rule api_callback_error_unsynced [where b = False and e = KeyError])
  have "cdb_iter example_lib example_adapter ([KpTag 1 99], MOP_VALUE_SET, str_value ''up'') = Inl KeyError"
    by (simp add: cdb_iter_def make_gnmi_keypath_def make_gnmi_keypath_elems_def csnode_list_def
        example_lib_def example_adapter_def example_info_def dict_get_def Let_def)
  then show "map_result (cdb_iter example_lib (ah_adapter example_handler)) [([KpTag 1 99], MOP_VALUE_SET, str_value ''up'')] =
      Inl KeyError"
    by (simp add: example_handler_def api_handler_init_def sub_handler.defs)
qed (simp_all add: handler_simps example_lib_def)

text \<open>The message of an external program for a list of changes.\<close>

definition external_message :: "(string \<times> string \<times> string) list \<Rightarrow> bytes" where
  "external_message cs = py_join [CHR 0x0A] (concat (map (\<lambda>(op, xpath, val). [op, xpath, val]) cs))"

definition lf_free :: "string \<times> string \<times> string \<Rightarrow> bool" where
  "lf_free c \<longleftrightarrow> (case c of (op, xpath, val) \<Rightarrow> CHR 0x0A \<notin> set op \<and> CHR 0x0A \<notin> set xpath \<and> CHR 0x0A \<notin> set val)"

lemma py_split_join:
  assumes "\<forall>x \<in> set xs. c \<notin> set x" and "xs \<noteq> []"
  shows "py_split c (py_join [c] xs) = xs"
  using assms
proof (induction "[c]" xs rule: py_join.induct)
  case (3 x y ys)
  then show ?case using py_split_append_sep [of c x "py_join [c] (y # ys)"] by simp
qed (simp_all add: py_split_free)

lemma external_strings:
  assumes "list_all lf_free cs" and "cs \<noteq> []"
  shows "py_split (CHR 0x0A) (external_message cs) = concat (map (\<lambda>(op, xpath, val). [op, xpath, val]) cs)"
  unfolding external_message_def
proof (rule py_split_join)
  show "\<forall>x \<in> set (concat (map (\<lambda>(op, xpath, val). [op, xpath, val]) cs)). CHR 0x0A \<notin> set x"
    using assms(1) by (fastforce simp: list_all_iff lf_free_def)
  show "concat (map (\<lambda>(op, xpath, val). [op, xpath, val]) cs) \<noteq> []"
    using assms(2) by (cases cs) auto
qed

definition external_change :: "confd_lib \<Rightarrow> api_adapter \<Rightarrow> string \<times> string \<times> string \<Rightarrow> api_change result" where
  "external_change lib a c =
     (case c of (op, xpath, val) \<Rightarrow> rbind (external_changes lib a [op, xpath, val]) (\<lambda>cs. Inr (hd cs)))"

lemma external_changes_map:
  "external_changes lib a (concat (map (\<lambda>(op, xpath, val). [op, xpath, val]) cs)) = map_result (external_change lib a) cs"
proof (induction cs)
  case (Cons c cs)
  obtain op xpath v where c: "c = (op, xpath, v)" by (cases c)
  show ?case
    by (simp add: c Cons.IH external_change_def rbind_def Let_def split: sum.splits)
qed simp

text \<open>
  The protocol of external programs: a message of changes without line feeds, of at most 1024 octets of text, is recorded
  as one batch with these changes in order and one event; a connection that is closed without a message ends
  the subscription.
\<close>

theorem external_message_recorded:
  assumes "ah_change_thread h = Some (ThLooping True)" and "sh_read_queue h = Some q"
    and "list_all lf_free cs" and "cs \<noteq> []" and "length (external_message cs) \<le> 1024" and "ascii (external_message cs)"
    and "map_result (external_change lib (ah_adapter h)) cs = Inr chs"
  shows "api_thread_step lib \<lparr>rd_external = Some (external_message cs), rd_sub = None, rd_sync = Inr (), rd_stop = False\<rparr> h =
       h\<lparr>ah_change_db := ah_change_db h @ [(EXT_SPOINT, chs)], sh_read_queue := Some (q @ [SEND_CHANGES])\<rparr> \<and>
     api_thread_step lib \<lparr>rd_external = Some [], rd_sub = None, rd_sync = Inr (), rd_stop = False\<rparr> h =
       h\<lparr>sh_read_queue := Some (q @ [FINISH]), ah_change_thread := Some ThEnded\<rparr>"
proof -
  have len: "length (concat (map (\<lambda>(op, xpath, val). [op, xpath, val]) cs)) mod 3 = 0"
    by (induction cs) auto
  have "process_external_change lib (external_message cs) h = record_changes EXT_SPOINT chs h"
    using assms(5) utf8_decode_ascii [OF assms(6)] len external_strings [OF assms(3,4)]
      external_changes_map [of lib "ah_adapter h" cs] assms(7)
    by (simp add: process_external_change_def Let_def)
  moreover have "process_external_change lib [] h = (h, Inl AssertionError)"
    by (simp add: process_external_change_def Let_def utf8_decode_def)
  ultimately show ?thesis
    using assms(1,2)
    by (simp add: api_thread_step_def socket_loop_pass_def loop_sub_def record_changes_def append_changes_def put_event_def
        thread_failed_def handler_stop_def Let_def)
qed

lemma external_message_recorded_witness:
  "let h = example_handler\<lparr>ah_change_thread := Some (ThLooping True)\<rparr>
   in ah_change_db (api_thread_step example_lib \<lparr>rd_external = Some ''mod\<newline>/a\<newline>1'', rd_sub = None, rd_sync = Inr (), rd_stop = False\<rparr> h) =
      [(- 1, [(OpText ''mod'', \<lparr>p_elem = [mk_elem ''a'' []], p_origin = [], p_target = []\<rparr>, JsonIetfVal (json_dumps (JStr ''1'')))])]"
proof -
  let ?h = "example_handler\<lparr>ah_change_thread := Some (ThLooping True)\<rparr>"
  let ?cs = "[(''mod'', ''/a'', ''1'')]"
  have m: "external_message ?cs = ''mod\<newline>/a\<newline>1''" by (simp add: external_message_def)
  have "map_result (external_change example_lib (ah_adapter ?h)) ?cs =
      Inr [(OpText ''mod'', \<lparr>p_elem = [mk_elem ''a'' []], p_origin = [], p_target = []\<rparr>, JsonIetfVal (json_dumps (JStr ''1'')))]"
    by (simp add: external_change_def example_lib_def example_info_def str_value_def make_gnmi_path_def make_name_keys_def
        make_gnmi_json_value_def json_value_def val2str_def INT_VALS_def Let_def)
  from external_message_recorded [OF _ _ _ _ _ _ this, of "[]"] show ?thesis
    unfolding m by (simp add: lf_free_def handler_simps ascii_def Let_def)
qed

end
