(* ===== verification/Route_Status.thy ===== *)
theory Route_Status
  imports Gnmi_Api_Handler
begin

text \<open>
  The example data provider \<open>confdgnmi/src/route_status.py\<close>: the route table, the callbacks by which
  ConfD reads it, the loop that serves ConfD, and the thread that changes routes at random and tells
  the gNMI adapter. The receiving side is \<open>process_external_change\<close> of \<open>Gnmi_Api_Handler\<close>.

  Random numbers come from an arbitrary source (record \<open>rng\<close>). A reply to ConfD is a value of \<open>data_reply\<close>; the
  two components of the key path that a callback reads, \<open>str(kp[0])\<close> and \<open>str(kp[1][0])\<close>, are its arguments.
\<close>

section \<open>The route table\<close>

record rng =
  rg_source :: "nat \<Rightarrow> nat"
  rg_index :: nat

definition py_randint :: "nat \<Rightarrow> nat \<Rightarrow> rng \<Rightarrow> nat \<times> rng" where
  "py_randint lo hi g =
     (lo + rg_source g (rg_index g) mod (hi - lo + 1), g\<lparr>rg_index := rg_index g + 1\<rparr>)"

record route =
  rt_id :: string
  leaf1 :: nat
  leaf2 :: nat
  leaf3 :: nat
  leaf4 :: nat

type_synonym routes = "(string \<times> route) list"

definition fill_route :: "bool \<Rightarrow> nat \<Rightarrow> routes \<times> rng \<Rightarrow> routes \<times> rng" where
  "fill_route random i s =
     (case s of (rs, g) \<Rightarrow>
        let (rtid, g1) =
              (if random then (let (n, g1) = py_randint 1 100 g in (nat_str n @ ''rt'' @ nat_str i, g1))
               else (''rt'' @ nat_str i, g));
            rt = \<lparr>rt_id = rtid, leaf1 = i * 2, leaf2 = i * 3, leaf3 = i * 4, leaf4 = i * 5\<rparr>
        in (AList.update (rt_id rt) rt rs, g1))"

definition fill_routes :: "int \<Rightarrow> bool \<Rightarrow> routes \<times> rng \<Rightarrow> routes \<times> rng" where
  "fill_routes num random s = fold (fill_route random) [1..<nat num] s"

definition route_data_init :: "int option \<Rightarrow> bool \<Rightarrow> rng \<Rightarrow> routes \<times> rng" where
  "route_data_init num random g =
     (case num of None \<Rightarrow> ([], g) | Some n \<Rightarrow> fill_routes n random ([], g))"

section \<open>Callbacks\<close>

datatype data_reply =
    ReplyValue nat
  | ReplyNotFound
  | ReplyNextKey "string option" int

definition cb_get_elem :: "routes \<Rightarrow> string \<Rightarrow> string \<Rightarrow> data_reply result" where
  "cb_get_elem rs elem key =
     (if length rs = 0 then Inl AssertionError
      else rbind (dict_get rs key) (\<lambda>route.
        Inr (if elem = ''leaf1'' then ReplyValue (leaf1 route)
             else if elem = ''leaf2'' then ReplyValue (leaf2 route)
             else if elem = ''leaf3'' then ReplyValue (leaf3 route)
             else if elem = ''leaf4'' then ReplyValue (leaf4 route)
             else ReplyNotFound)))"

text \<open>The element of a list at an index of Python; a negative one counts from the end.\<close>

definition py_item :: "'a list \<Rightarrow> int \<Rightarrow> 'a result" where
  "py_item xs i =
     (let j = (if i < 0 then i + int (length xs) else i)
      in if 0 \<le> j \<and> j < int (length xs) then Inr (xs ! nat j) else Inl IndexError)"

definition cb_get_next :: "routes \<Rightarrow> int \<Rightarrow> data_reply result" where
  "cb_get_next rs next =
     (if length rs = 0 then Inl AssertionError
      else (let next_idx = (if next = - 1 then 0 else next)
            in if next_idx \<ge> int (length rs) then Inr (ReplyNextKey None 0)
               else rbind (py_item (dict_keys rs) next_idx) (\<lambda>key.
                    rbind (dict_get rs key) (\<lambda>route.
                      Inr (ReplyNextKey (Some (rt_id route)) (next_idx + 1))))))"

section \<open>The loop that serves ConfD\<close>

text \<open>
  What \<open>select\<close> found ready in one pass, and what \<open>fd_ready\<close> did: returned, failed because a callback
  did (\<open>ERR_EXTERNAL\<close>), or failed otherwise.
\<close>

datatype fd_result = FdOk | FdExternal | FdFailed

record loop_ready =
  lr_ctlsock :: "fd_result option"
  lr_wrksock :: "fd_result option"
  lr_stop :: "char option"

datatype pass_result = PassAgain | PassBreak | PassRaise py_error

definition fd_pass :: "fd_result \<Rightarrow> pass_result" where
  "fd_pass r = (case r of FdOk \<Rightarrow> PassAgain | FdExternal \<Rightarrow> PassAgain | FdFailed \<Rightarrow> PassRaise ConfdErr)"

definition confd_pass :: "loop_ready \<Rightarrow> pass_result" where
  "confd_pass r =
     (case lr_ctlsock r of
        Some x \<Rightarrow> fd_pass x
      | None \<Rightarrow>
         (case lr_wrksock r of
            Some x \<Rightarrow> fd_pass x
          | None \<Rightarrow>
             (case lr_stop r of
                Some v \<Rightarrow> if v = CHR ''x'' then PassBreak else PassRaise AssertionError
              | None \<Rightarrow> PassAgain)))"

text \<open>\<^const>\<open>None\<close>: the loop is still running after these passes.\<close>

fun confd_loop :: "loop_ready list \<Rightarrow> unit result option" where
  "confd_loop [] = None"
| "confd_loop (r # rs) =
     (case confd_pass r of
        PassAgain \<Rightarrow> confd_loop rs
      | PassBreak \<Rightarrow> Some (Inr ())
      | PassRaise e \<Rightarrow> Some (Inl e))"

section \<open>Random changes\<close>

record change_state =
  cs_routes :: routes
  cs_changed :: "string list"
  cs_msgs :: "string list"
  cs_rng :: rng

definition set_leaf1 :: "string \<Rightarrow> nat \<Rightarrow> routes \<Rightarrow> routes" where
  "set_leaf1 key val rs = map (\<lambda>(k, r). (k, if k = key then r\<lparr>leaf1 := val\<rparr> else r)) rs"

definition route_xpath :: "string \<Rightarrow> string" where
  "route_xpath key = ''/route-status/route[id='' @ key @ '']/leaf1''"

definition change_msg :: "string \<Rightarrow> nat \<Rightarrow> string" where
  "change_msg key val = ''mod'' @ [CHR 0x0A] @ route_xpath key @ [CHR 0x0A] @ nat_str val"

definition change_iter :: "change_state \<Rightarrow> change_state" where
  "change_iter s =
     (let (n, g1) = py_randint 0 (length (cs_routes s) - 1) (cs_rng s);
          key = dict_keys (cs_routes s) ! n
      in if key \<in> set (cs_changed s) then s\<lparr>cs_rng := g1\<rparr>
         else (let (val, g2) = py_randint 1 10 g1
               in \<lparr>cs_routes = set_leaf1 key val (cs_routes s), cs_changed = cs_changed s @ [key],
                   cs_msgs = cs_msgs s @ [change_msg key val], cs_rng = g2\<rparr>))"

text \<open>One pass of the loop: the changed routes, the message and the source of random numbers.\<close>

definition change_pass :: "routes \<Rightarrow> rng \<Rightarrow> routes \<times> string \<times> rng" where
  "change_pass rs g =
     (let (n, g1) = py_randint 1 3 g;
          s = (change_iter ^^ n) \<lparr>cs_routes = rs, cs_changed = [], cs_msgs = [], cs_rng = g1\<rparr>;
          msg = concat (map (\<lambda>m. m @ [CHR 0x0A]) (cs_msgs s))
      in (cs_routes s, butlast msg, cs_rng s))"

text \<open>
  The thread: for each pass, whether the connection and the sending succeed and what \<open>stop_fun\<close> then returns. The
  result has the routes, the messages that were sent, and whether the thread ended.
\<close>

fun generate_changes_loop :: "(bool \<times> bool) list \<Rightarrow> routes \<Rightarrow> rng \<Rightarrow> routes \<times> string list \<times> bool" where
  "generate_changes_loop [] rs g = (rs, [], False)"
| "generate_changes_loop ((sent, stop) # env) rs g =
     (let (rs1, msg, g1) = change_pass rs g;
          out = (if sent then [msg] else [])
      in if stop then (rs1, out, True)
         else (let (rs2, outs, fin) = generate_changes_loop env rs1 g1 in (rs2, out @ outs, fin)))"

definition generate_changes :: "(bool \<times> bool) list \<Rightarrow> routes \<Rightarrow> rng \<Rightarrow> (routes \<times> string list \<times> bool) result" where
  "generate_changes env rs g =
     (if length rs = 0 then Inl AssertionError else Inr (generate_changes_loop env rs g))"

section \<open>Lemmas on the table\<close>

lemma py_randint_range:
  "lo \<le> hi \<Longrightarrow> py_randint lo hi g = (n, g1) \<Longrightarrow> lo \<le> n \<and> n \<le> hi"
  by (auto simp: py_randint_def intro: le_trans [OF add_left_mono [OF mod_less_eq_dividend]])
    (metis add_Suc_right le_add_diff_inverse less_Suc_eq_le mod_less_divisor nat_add_left_cancel_le zero_less_Suc)

text \<open>The identifier of the \<open>i\<close>-th route: digits, which may be none, \<open>rt\<close> and the number.\<close>

definition route_name :: "nat \<Rightarrow> string \<Rightarrow> bool" where
  "route_name i s \<longleftrightarrow> (\<exists>p. (\<forall>c \<in> set p. is_digit c) \<and> length p \<le> 3 \<and> s = p @ ''rt'' @ nat_str i)"

definition route_of :: "nat \<Rightarrow> string \<Rightarrow> route" where
  "route_of i s = \<lparr>rt_id = s, leaf1 = i * 2, leaf2 = i * 3, leaf3 = i * 4, leaf4 = i * 5\<rparr>"

lemma route_name_inj: "route_name i s \<Longrightarrow> route_name j s \<Longrightarrow> i = j"
proof -
  have r: "\<not> is_digit (CHR ''r'')" by (simp add: is_digit_def)
  have "dropWhile is_digit s = ''rt'' @ nat_str i" if "route_name i s" for i s
    using that r by (auto simp: route_name_def dropWhile_append2)
  then show "route_name i s \<Longrightarrow> route_name j s \<Longrightarrow> i = j"
    by (metis digits_val_nat_str same_append_eq)
qed

lemma fill_route_update:
  assumes "fill_route random i (rs, g) = (rs1, g1)"
  obtains s where "route_name i s" and "rs1 = AList.update s (route_of i s) rs"
proof (cases random)
  case True
  obtain n g2 where n: "py_randint 1 100 g = (n, g2)" by fastforce
  then have "n < 10 ^ 3" using py_randint_range [OF _ n] by simp
  then have "length (nat_str n) \<le> 3" using nat_str_length [of 3 n] by simp
  then have "route_name i (nat_str n @ ''rt'' @ nat_str i)"
    using nat_str_digits by (auto simp: route_name_def)
  then show ?thesis
    using that [of "nat_str n @ ''rt'' @ nat_str i"] assms True n
    by (auto simp: fill_route_def route_of_def Let_def)
next
  case False
  have "route_name i (''rt'' @ nat_str i)" by (auto simp: route_name_def intro: exI [of _ "[]"])
  then show ?thesis using that [of "''rt'' @ nat_str i"] assms False
    by (auto simp: fill_route_def route_of_def Let_def)
qed

lemma fill_routes_list:
  assumes "fold (fill_route random) is (rs, g) = (rs', g')" and "distinct is"
    and "\<forall>i \<in> set is. \<forall>s \<in> fst ` set rs. \<not> route_name i s"
  shows "\<exists>ss. length ss = length is \<and> (\<forall>(i, s) \<in> set (zip is ss). route_name i s) \<and>
     rs' = rs @ map2 (\<lambda>i s. (s, route_of i s)) is ss"
  using assms
proof (induction "is" arbitrary: rs g)
  case (Cons i "is")
  obtain rs1 g1 where 1: "fill_route random i (rs, g) = (rs1, g1)" by fastforce
  obtain s where s: "route_name i s" "rs1 = AList.update s (route_of i s) rs"
    using fill_route_update [OF 1] .
  have "s \<notin> fst ` set rs" using s(1) Cons.prems(3) by auto
  with s(2) have rs1: "rs1 = rs @ [(s, route_of i s)]" using update_fresh by simp
  have fresh: "\<forall>j \<in> set is. \<forall>s' \<in> fst ` set rs1. \<not> route_name j s'"
    using Cons.prems(2,3) rs1 s(1) route_name_inj by fastforce
  obtain ss where "length ss = length is" "\<forall>(i, s) \<in> set (zip is ss). route_name i s"
      "rs' = rs1 @ map2 (\<lambda>i s. (s, route_of i s)) is ss"
    using Cons.IH [of rs1 g1, OF _ _ fresh] Cons.prems(1,2) 1 by auto
  then show ?case using s(1) rs1 by (intro exI [of _ "s # ss"]) auto
qed simp

section \<open>Lemmas on changes\<close>

lemma dict_keys_set_leaf1 [simp]: "dict_keys (set_leaf1 key val rs) = dict_keys rs"
  by (induction rs) (auto simp: dict_keys_def set_leaf1_def)

lemma length_set_leaf1 [simp]: "length (set_leaf1 key val rs) = length rs"
  by (simp add: set_leaf1_def)

abbreviation apply_leaf1 :: "(string \<times> nat) list \<Rightarrow> routes \<Rightarrow> routes" where
  "apply_leaf1 cs rs \<equiv> fold (\<lambda>(key, val). set_leaf1 key val) cs rs"

lemma dict_keys_apply [simp]: "dict_keys (apply_leaf1 cs rs) = dict_keys rs"
  by (induction cs arbitrary: rs) (auto split: prod.splits)

lemma length_apply [simp]: "length (apply_leaf1 cs rs) = length rs"
  using arg_cong [OF dict_keys_apply [of cs rs], of length] by (simp add: dict_keys_def)

text \<open>The changes made so far in a pass, which began with the routes \<open>rs\<close>.\<close>

definition made :: "routes \<Rightarrow> (string \<times> nat) list \<Rightarrow> change_state \<Rightarrow> bool" where
  "made rs cs s \<longleftrightarrow>
     cs_routes s = apply_leaf1 cs rs \<and> cs_changed s = map fst cs \<and>
     cs_msgs s = map (\<lambda>(key, val). change_msg key val) cs \<and>
     distinct (map fst cs) \<and> (\<forall>(key, val) \<in> set cs. key \<in> set (dict_keys rs) \<and> 1 \<le> val \<and> val \<le> 10)"

lemma change_iter_made:
  assumes "made rs cs s" and "rs \<noteq> []"
  shows "made rs cs (change_iter s) \<and> cs \<noteq> [] \<or> (\<exists>key val. made rs (cs @ [(key, val)]) (change_iter s))"
proof -
  obtain n g1 where n: "py_randint 0 (length (cs_routes s) - 1) (cs_rng s) = (n, g1)" by fastforce
  obtain val g2 where v: "py_randint 1 10 g1 = (val, g2)" by fastforce
  have len: "length (cs_routes s) = length rs" using assms(1) by (simp add: made_def)
  have "n \<le> length rs - 1" using py_randint_range [OF _ n] len by simp
  with assms(2) have "n < length (dict_keys rs)" by (cases rs) (auto simp: dict_keys_def)
  moreover have "dict_keys (cs_routes s) = dict_keys rs" using assms(1) by (simp add: made_def)
  ultimately have key: "dict_keys (cs_routes s) ! n \<in> set (dict_keys rs)" by simp
  have val: "1 \<le> val \<and> val \<le> 10" using py_randint_range [OF _ v] by simp
  let ?key = "dict_keys (cs_routes s) ! n"
  show ?thesis
  proof (cases "?key \<in> set (cs_changed s)")
    case True
    then have "change_iter s = s\<lparr>cs_rng := g1\<rparr>" by (simp add: change_iter_def n [simplified] Let_def)
    with True assms(1) show ?thesis by (auto simp: made_def)
  next
    case False
    then have "change_iter s = \<lparr>cs_routes = set_leaf1 ?key val (cs_routes s), cs_changed = cs_changed s @ [?key],
        cs_msgs = cs_msgs s @ [change_msg ?key val], cs_rng = g2\<rparr>"
      by (simp add: change_iter_def n [simplified] v [simplified] Let_def)
    with False assms(1) key val have "made rs (cs @ [(?key, val)]) (change_iter s)"
      by (simp add: made_def)
    then show ?thesis by blast
  qed
qed

lemma change_iters_made:
  assumes "rs \<noteq> []" and "made rs [] s" and "0 < n"
  shows "\<exists>cs. made rs cs ((change_iter ^^ n) s) \<and> cs \<noteq> [] \<and> length cs \<le> n"
  using assms(3)
proof (induction n)
  case (Suc n)
  show ?case
  proof (cases n)
    case 0
    then show ?thesis using change_iter_made [OF assms(2,1)] by auto
  next
    case (Suc m)
    with Suc.IH obtain cs where cs: "made rs cs ((change_iter ^^ n) s)" "cs \<noteq> []" "length cs \<le> n" by auto
    from change_iter_made [OF cs(1) assms(1)] show ?thesis
    proof
      assume "made rs cs (change_iter ((change_iter ^^ n) s)) \<and> cs \<noteq> []"
      with cs(3) show ?thesis by (intro exI [of _ cs]) simp
    next
      assume "\<exists>key val. made rs (cs @ [(key, val)]) (change_iter ((change_iter ^^ n) s))"
      then obtain key val where "made rs (cs @ [(key, val)]) (change_iter ((change_iter ^^ n) s))" by blast
      with cs(3) show ?thesis by (intro exI [of _ "cs @ [(key, val)]"]) simp
    qed
  qed
qed simp

lemma butlast_terminated:
  "ms \<noteq> [] \<Longrightarrow> butlast (concat (map (\<lambda>m. m @ [c]) ms)) = py_join [c] ms"
proof (induction ms)
  case (Cons m ms)
  then show ?case by (cases ms) (simp_all add: butlast_append)
qed simp

text \<open>The triples of a batch, in the notation of the receiver.\<close>

definition triple :: "string \<times> nat \<Rightarrow> string \<times> string \<times> string" where
  "triple c = (''mod'', route_xpath (fst c), nat_str (snd c))"

lemma external_message_Cons:
  "external_message (c # cs) = (case c of (op, xpath, val) \<Rightarrow>
     op @ CHR 0x0A # xpath @ CHR 0x0A # val @ (if cs = [] then [] else CHR 0x0A # external_message cs))"
  by (cases cs; cases c) (auto simp: external_message_def)

lemma change_msgs_join:
  "cs \<noteq> [] \<Longrightarrow> py_join [CHR 0x0A] (map (\<lambda>(key, val). change_msg key val) cs) = external_message (map triple cs)"
proof (induction cs)
  case (Cons c cs)
  then show ?case
    by (cases cs; cases c) (auto simp: external_message_Cons change_msg_def triple_def)
qed simp

text \<open>What a pass does, for every outcome of the random numbers.\<close>

lemma change_pass_spec:
  assumes "rs \<noteq> []" and "change_pass rs g = (rs', msg, g')"
  shows "\<exists>cs. cs \<noteq> [] \<and> length cs \<le> 3 \<and> distinct (map fst cs) \<and>
     (\<forall>(key, val) \<in> set cs. key \<in> set (dict_keys rs) \<and> 1 \<le> val \<and> val \<le> 10) \<and>
     rs' = apply_leaf1 cs rs \<and> msg = external_message (map triple cs)"
proof -
  obtain n g1 where n: "py_randint 1 3 g = (n, g1)" by fastforce
  let ?s = "\<lparr>cs_routes = rs, cs_changed = [], cs_msgs = [], cs_rng = g1\<rparr>"
  have "0 < n" "n \<le> 3" using py_randint_range [OF _ n] by simp_all
  moreover have "made rs [] ?s" by (simp add: made_def)
  ultimately obtain cs where cs: "made rs cs ((change_iter ^^ n) ?s)" "cs \<noteq> []" "length cs \<le> 3"
    using change_iters_made [OF assms(1), of ?s n] by auto
  then show ?thesis
    using assms(2) n change_msgs_join [OF cs(2)]
      butlast_terminated [of "map (\<lambda>(key, val). change_msg key val) cs" "CHR 0x0A"]
    by (intro exI [of _ cs]) (auto simp: change_pass_def made_def Let_def)
qed

section \<open>Properties\<close>

text \<open>
  For every outcome of the random numbers the table gets one route for each number below \<open>num\<close>, in
  order, with distinct identifiers and the leaves computed from the number: the random
  prefixes never make two routes collide.
\<close>

theorem fill_routes_spec:
  assumes "route_data_init (Some num) random g = (rs, g')"
  shows "length rs = nat (num - 1) \<and> distinct (dict_keys rs) \<and>
     (\<forall>i < length rs. \<exists>s. route_name (Suc i) s \<and> rs ! i = (s, route_of (Suc i) s))"
proof -
  from assms obtain ss where ss: "length ss = length [1..<nat num]"
      "\<forall>(i, s) \<in> set (zip [1..<nat num] ss). route_name i s"
      "rs = map2 (\<lambda>i s. (s, route_of i s)) [1..<nat num] ss"
    using fill_routes_list [of random "[1..<nat num]" "[]" g rs g']
    by (auto simp: route_data_init_def fill_routes_def)
  have len: "length rs = nat num - 1" using ss(1,3) by simp
  have nth: "route_name (Suc i) (ss ! i) \<and> rs ! i = (ss ! i, route_of (Suc i) (ss ! i))" if "i < length rs" for i
  proof
    have "(Suc i, ss ! i) \<in> set (zip [1..<nat num] ss)"
      using that ss(1,3) by (auto simp: set_zip intro!: exI [of _ i])
    then show "route_name (Suc i) (ss ! i)" using ss(2) by blast
    show "rs ! i = (ss ! i, route_of (Suc i) (ss ! i))" using that ss(1,3) by simp
  qed
  have "distinct (dict_keys rs)"
    unfolding distinct_conv_nth
  proof (intro allI impI)
    fix i j assume "i < length (dict_keys rs)" "j < length (dict_keys rs)" "i \<noteq> j"
    then show "dict_keys rs ! i \<noteq> dict_keys rs ! j"
      using nth [of i] nth [of j] route_name_inj [of "Suc i" "ss ! i" "Suc j"] by (auto simp: dict_keys_def)
  qed
  with len nth show ?thesis by (auto simp: nat_diff_distrib')
qed

lemma fill_routes_spec_witness:
  "length (fst (route_data_init (Some 4) True \<lparr>rg_source = (\<lambda>_. 0), rg_index = 0\<rparr>)) = 3"
proof -
  have "route_data_init (Some 4) True \<lparr>rg_source = (\<lambda>_. 0), rg_index = 0\<rparr> =
      (fst (route_data_init (Some 4) True \<lparr>rg_source = (\<lambda>_. 0), rg_index = 0\<rparr>),
       snd (route_data_init (Some 4) True \<lparr>rg_source = (\<lambda>_. 0), rg_index = 0\<rparr>))" by simp
  from fill_routes_spec [OF this] show ?thesis by simp
qed

text \<open>
  ConfD reads the list by calling \<open>cb_get_next\<close> with -1 and then with the number of the last reply until there is
  no key. The table at the \<open>k\<close>-th call is \<open>tbl k\<close>. \<^const>\<open>None\<close>: the number of calls allowed was not enough.
\<close>

fun traverse :: "nat \<Rightarrow> (nat \<Rightarrow> routes) \<Rightarrow> nat \<Rightarrow> int \<Rightarrow> string list result option" where
  "traverse 0 tbl k next = None"
| "traverse (Suc calls) tbl k next =
     (case cb_get_next (tbl k) next of
        Inr (ReplyNextKey (Some key) next') \<Rightarrow>
          map_option (\<lambda>r. rbind r (\<lambda>keys. Inr (key # keys))) (traverse calls tbl (Suc k) next')
      | Inr _ \<Rightarrow> Some (Inr [])
      | Inl e \<Rightarrow> Some (Inl e))"

text \<open>One iteration of the thread that changes routes, whatever its state.\<close>

definition route_write :: "routes \<Rightarrow> routes \<Rightarrow> bool" where
  "route_write rs rs' \<longleftrightarrow> (\<exists>s. cs_routes s = rs \<and> cs_routes (change_iter s) = rs')"

definition ids_ok :: "routes \<Rightarrow> bool" where
  "ids_ok rs \<longleftrightarrow> distinct (dict_keys rs) \<and> (\<forall>(k, r) \<in> set rs. rt_id r = k)"

lemma route_write_keys:
  assumes "route_write rs rs'" and "ids_ok rs"
  shows "dict_keys rs' = dict_keys rs \<and> ids_ok rs'"
proof -
  obtain s where s: "cs_routes s = rs" "cs_routes (change_iter s) = rs'"
    using assms(1) by (auto simp: route_write_def)
  have "cs_routes (change_iter s) = rs \<or> (\<exists>key val. cs_routes (change_iter s) = set_leaf1 key val rs)"
    using s(1) by (auto simp: change_iter_def Let_def split: prod.splits)
  moreover have "ids_ok (set_leaf1 key val rs)" for key val
    using assms(2) by (fastforce simp: ids_ok_def set_leaf1_def dict_keys_def split_def o_def)
  ultimately show ?thesis using s(2) assms(2) by auto
qed

lemma route_writes_keys:
  "route_write\<^sup>*\<^sup>* rs rs' \<Longrightarrow> ids_ok rs \<Longrightarrow> dict_keys rs' = dict_keys rs \<and> ids_ok rs'"
  by (induction rule: rtranclp_induct) (use route_write_keys in auto)

lemma get_next_at:
  assumes "ids_ok rs" and "i < length rs"
  shows "cb_get_next rs (int i) = Inr (ReplyNextKey (Some (dict_keys rs ! i)) (int i + 1))"
proof -
  obtain k r where kr: "rs ! i = (k, r)" by fastforce
  with assms(2) have mem: "(k, r) \<in> set rs" by (metis nth_mem)
  then have "map_of rs k = Some r" "rt_id r = k"
    using assms(1) by (auto simp: ids_ok_def dict_keys_def)
  then show ?thesis
    using assms(2) kr by (auto simp: cb_get_next_def py_item_def dict_keys_def dict_get_def)
qed

lemma get_next_end: "rs \<noteq> [] \<Longrightarrow> cb_get_next rs (int (length rs)) = Inr (ReplyNextKey None 0)"
  by (simp add: cb_get_next_def)

lemma traverse_from:
  assumes "\<forall>j. dict_keys (tbl j) = keys \<and> ids_ok (tbl j)" and "keys \<noteq> []"
    and "i \<le> length keys" and "length keys - i < calls"
  shows "traverse calls tbl k (int i) = Some (Inr (drop i keys))"
  using assms(3,4)
proof (induction calls arbitrary: i k)
  case (Suc calls)
  have len: "length (tbl k) = length keys" "ids_ok (tbl k)" "dict_keys (tbl k) = keys"
    using assms(1) by (auto simp: dict_keys_def dest: spec [of _ k])
  show ?case
  proof (cases "i = length keys")
    case True
    have "tbl k \<noteq> []" using len(1) assms(2) by auto
    from get_next_end [OF this] True len(1) show ?thesis by simp
  next
    case False
    with Suc.prems have i: "i < length keys" "length keys - Suc i < calls" by auto
    have "traverse calls tbl (Suc k) (int i + 1) = Some (Inr (drop (Suc i) keys))"
      using Suc.IH [of "Suc i" "Suc k"] i by (simp add: add.commute)
    moreover have "cb_get_next (tbl k) (int i) = Inr (ReplyNextKey (Some (keys ! i)) (int i + 1))"
      using get_next_at [OF len(2), of i] len i by simp
    ultimately show ?thesis
      using i(1) by (simp add: Cons_nth_drop_Suc)
  qed
qed simp

text \<open>
  C17. Reading the list of routes ends after one call more than there are routes, and gives every identifier once and
  in the order of the table, also when the change thread writes any number of times between two calls.
\<close>

theorem get_next_traversal:
  assumes "ids_ok (tbl 0)" and "tbl 0 \<noteq> []" and "\<forall>k. route_write\<^sup>*\<^sup>* (tbl k) (tbl (Suc k))"
    and "length (tbl 0) < calls"
  shows "traverse calls tbl 0 (- 1) = Some (Inr (dict_keys (tbl 0)))"
proof -
  have inv: "dict_keys (tbl k) = dict_keys (tbl 0) \<and> ids_ok (tbl k)" for k
  proof (induction k)
    case (Suc k)
    with route_writes_keys [of "tbl k" "tbl (Suc k)"] assms(3) show ?case by auto
  qed (simp add: assms(1))
  have "traverse calls tbl 0 (- 1) = traverse calls tbl 0 0"
    by (cases calls) (simp_all add: cb_get_next_def)
  then show ?thesis
    using traverse_from [of tbl "dict_keys (tbl 0)" 0 calls 0] inv assms(2,4)
    by (simp add: dict_keys_def)
qed

lemma get_next_traversal_witness:
  "let rs = [(''rt1'', route_of 1 ''rt1''), (''rt2'', route_of 2 ''rt2'')]
   in traverse 3 (\<lambda>_. rs) 0 (- 1) = Some (Inr [''rt1'', ''rt2''])"
proof -
  let ?rs = "[(''rt1'', route_of 1 ''rt1''), (''rt2'', route_of 2 ''rt2'')]"
  have "ids_ok ?rs" by (simp add: ids_ok_def dict_keys_def route_of_def)
  from get_next_traversal [OF this, of 3] show ?thesis by (simp add: dict_keys_def)
qed

text \<open>Identifiers that the path notation and the protocol of the adapter carry.\<close>

definition sendable :: "string \<Rightarrow> bool" where
  "sendable key \<longleftrightarrow> plain key \<and> ascii key \<and> CHR 0x0A \<notin> set key \<and> length key \<le> 300"

definition route_path :: "string \<Rightarrow> gnmi_path" where
  "route_path key = \<lparr>p_elem = [mk_elem ''route-status'' [], mk_elem ''route'' [(''id'', key)], mk_elem ''leaf1'' []],
     p_origin = [], p_target = []\<rparr>"

lemma route_xpath_parsed:
  assumes "plain key"
  shows "make_gnmi_path (route_xpath key) [] [] = Inr (route_path key)"
proof -
  have "route_xpath key = concat (map (elem_str False True) (p_elem (route_path key)))"
    by (simp add: route_xpath_def route_path_def elem_str_def key_str_def)
  moreover have "\<forall>e \<in> set (p_elem (route_path key)). wf_elem e"
    using assms by (simp add: route_path_def wf_elem_def plain_def)
  ultimately show ?thesis
    using make_gnmi_path_printed [of "p_elem (route_path key)" "[]" "[]"] by (simp add: route_path_def)
qed

lemma ascii_nat_str: "ascii (nat_str n)" and lf_nat_str: "CHR 0x0A \<notin> set (nat_str n)"
  using nat_str_digits [of n] by (force simp: ascii_def is_digit_def)+

lemma route_xpath_text:
  assumes "sendable key"
  shows "ascii (route_xpath key)" "CHR 0x0A \<notin> set (route_xpath key)" "length (route_xpath key) \<le> 330"
  using assms by (simp_all add: route_xpath_def sendable_def ascii_def)

lemma batch_text:
  assumes "\<forall>(key, val) \<in> set cs. sendable key \<and> val < 10 ^ 2"
  shows "list_all lf_free (map triple cs)" and "ascii (external_message (map triple cs))"
    and "length (external_message (map triple cs)) \<le> 338 * length cs"
proof -
  show "list_all lf_free (map triple cs)"
    using assms by (auto simp: list_all_iff lf_free_def triple_def route_xpath_text lf_nat_str)
  show "ascii (external_message (map triple cs))"
    using assms
  proof (induction cs)
    case (Cons c cs)
    then show ?case
      by (auto simp: external_message_Cons triple_def route_xpath_text ascii_nat_str)
  qed (simp add: external_message_def)
  show "length (external_message (map triple cs)) \<le> 338 * length cs"
    using assms
  proof (induction cs)
    case (Cons c cs)
    then have "length (route_xpath (fst c)) \<le> 330" "length (nat_str (snd c)) \<le> 2"
      using route_xpath_text(3) [of "fst c"] nat_str_length [of 2 "snd c"] by auto
    with Cons show ?case by (auto simp: external_message_Cons triple_def)
  qed (simp add: external_message_def)
qed

text \<open>
  What the provider relies on of the ConfD library: the schema has the leaf, and the type of the leaf reads the decimal notation
  of the values that are sent.
\<close>

definition leaf1_known :: "confd_lib \<Rightarrow> api_adapter \<Rightarrow> routes \<Rightarrow> bool" where
  "leaf1_known lib a rs \<longleftrightarrow>
     (\<forall>key \<in> set (dict_keys rs). \<exists>node. cl_cs_node_cd lib None (fix_path_prefixes a (route_xpath key)) = Some node \<and>
        (\<forall>v \<in> {1..10}. \<exists>cv. cl_str2val lib (nat_str v) (cs_info node) = Inr cv \<and>
           cv_type cv \<in> INT_VALS \<and> cv_int cv = int v))"

abbreviation batch_change :: "string \<times> nat \<Rightarrow> api_change" where
  "batch_change c \<equiv> (OpText ''mod'', route_path (fst c), JsonIetfVal (json_dumps (JInt (int (snd c)))))"

lemma external_change_route:
  assumes "leaf1_known lib a rs" and "key \<in> set (dict_keys rs)" and "plain key" and "1 \<le> val" and "val \<le> 10"
  shows "external_change lib a (triple (key, val)) = Inr (batch_change (key, val))"
proof -
  obtain node cv where "cl_cs_node_cd lib None (fix_path_prefixes a (route_xpath key)) = Some node"
      "cl_str2val lib (nat_str val) (cs_info node) = Inr cv" "cv_type cv \<in> INT_VALS" "cv_int cv = int val"
    using assms by (force simp: leaf1_known_def)
  then show ?thesis
    using route_xpath_parsed [OF assms(3)]
    by (simp add: external_change_def triple_def make_gnmi_json_value_def json_value_def)
qed

text \<open>
  C16. A pass of the change thread, for every outcome of its random numbers, and the adapter that receives its message: between one
  and three routes get a new first leaf, and the handler records exactly these changes, in order and as one batch, with the paths of
  the leaves and the new values, and puts one event.
\<close>

theorem route_change_recorded:
  assumes "rs \<noteq> []" and "\<forall>key \<in> set (dict_keys rs). sendable key" and "change_pass rs g = (rs', msg, g')"
    and "leaf1_known lib (ah_adapter h) rs"
    and "ah_change_thread h = Some (ThLooping True)" and "sh_read_queue h = Some q"
  shows "\<exists>cs. 1 \<le> length cs \<and> length cs \<le> 3 \<and> distinct (map fst cs) \<and> rs' = apply_leaf1 cs rs \<and>
     api_thread_step lib \<lparr>rd_external = Some msg, rd_sub = None, rd_sync = Inr (), rd_stop = False\<rparr> h =
       h\<lparr>ah_change_db := ah_change_db h @ [(EXT_SPOINT, map batch_change cs)],
         sh_read_queue := Some (q @ [SEND_CHANGES])\<rparr>"
proof -
  obtain cs where cs: "cs \<noteq> []" "length cs \<le> 3" "distinct (map fst cs)"
      "\<forall>(key, val) \<in> set cs. key \<in> set (dict_keys rs) \<and> 1 \<le> val \<and> val \<le> 10"
      "rs' = apply_leaf1 cs rs" "msg = external_message (map triple cs)"
    using change_pass_spec [OF assms(1,3)] by blast
  have "\<forall>(key, val) \<in> set cs. sendable key \<and> val < 10 ^ 2" using cs(4) assms(2) by fastforce
  note btext = batch_text [OF this]
  have len: "length (external_message (map triple cs)) \<le> 1024" using btext(3) cs(2) by linarith
  have "external_change lib (ah_adapter h) (triple c) = Inr (batch_change c)" if "c \<in> set cs" for c
  proof -
    obtain key val where c: "c = (key, val)" by fastforce
    with that cs(4) assms(2) have "key \<in> set (dict_keys rs)" "1 \<le> val" "val \<le> 10" "plain key"
      by (auto simp: sendable_def)
    with external_change_route [OF assms(4), of key val] c show ?thesis by simp
  qed
  then have "map_result (external_change lib (ah_adapter h)) (map triple cs) = Inr (map batch_change cs)"
    by (simp add: map_result_map map_result_Inr_map)
  from external_message_recorded [OF assms(5,6) btext(1) _ len btext(2) this] cs show ?thesis
    by (intro exI [of _ cs]) (auto simp: Suc_le_eq)
qed

definition int_lib :: confd_lib where
  "int_lib = example_lib\<lparr>cl_str2val := (\<lambda>s i. case py_int s of
     Some n \<Rightarrow> Inr \<lparr>cv_type = CT_INT32, cv_int = n, cv_bool = False, cv_str = s, cv_val2str = (\<lambda>_. s)\<rparr>
   | None \<Rightarrow> Inl ConfdErr)\<rparr>"

lemma route_change_recorded_witness:
  "let rs = [(''7rt1'', route_of 1 ''7rt1'')];
       h = example_handler\<lparr>ah_change_thread := Some (ThLooping True)\<rparr>;
       msg = fst (snd (change_pass rs \<lparr>rg_source = (\<lambda>_. 0), rg_index = 0\<rparr>))
   in sh_read_queue (api_thread_step int_lib \<lparr>rd_external = Some msg, rd_sub = None, rd_sync = Inr (), rd_stop = False\<rparr> h) =
        Some [SEND_CHANGES]"
proof -
  let ?rs = "[(''7rt1'', route_of 1 ''7rt1'')]"
  let ?h = "example_handler\<lparr>ah_change_thread := Some (ThLooping True)\<rparr>"
  let ?p = "change_pass ?rs \<lparr>rg_source = (\<lambda>_. 0), rg_index = 0\<rparr>"
  have send: "\<forall>key \<in> set (dict_keys ?rs). sendable key"
    by (simp add: dict_keys_def sendable_def plain_def ascii_def)
  have known: "leaf1_known int_lib (ah_adapter ?h) ?rs"
    by (auto simp: leaf1_known_def int_lib_def example_lib_def INT_VALS_def)
  have p: "?p = (fst ?p, fst (snd ?p), snd (snd ?p))" by simp
  have h: "ah_change_thread ?h = Some (ThLooping True)" "sh_read_queue ?h = Some []"
    by (simp_all add: handler_simps)
  from route_change_recorded [OF _ send p known h] show ?thesis by (auto simp: Let_def)
qed

text \<open>
  The loop that serves ConfD: a failed callback does not end it, and it returns at the first pass
  that finds the stop byte and neither socket ready.
\<close>

theorem confd_loop_stops:
  assumes "\<forall>r \<in> set rs. confd_pass r = PassAgain"
    and "lr_ctlsock r = None" and "lr_wrksock r = None" and "lr_stop r = Some (CHR ''x'')"
  shows "confd_loop (rs @ r # rest) = Some (Inr ()) \<and> confd_loop rs = None"
  using assms by (induction rs) (simp_all add: confd_pass_def)

end
