(* ===== verification/Route_Main.thy ===== *)
theory Route_Main
  imports Py_World Route_Status
begin

text \<open>
  The main program of \<open>confdgnmi/src/route_status.py\<close> and the registration of the data provider, as a program over an environment: the
  sockets and the daemon, the two threads, and the end of the program with its \<open>finally\<close> clause. What the threads do is in
  \<open>Route_Status\<close>; here they are started, told to stop and joined. The pipe is made by the second thread, so that the
  environment says whether it is there when the program ends.
\<close>

section \<open>Calls\<close>

datatype sock = MaapiSock | ControlSock | WorkerSock

datatype thread_name = ChangeThread | ConfdThread

datatype route_event =
    SetDebug
  | InitDaemon string
  | NewSock sock
  | MaapiConnect string
  | DpConnect sock string
  | LoadSchemas
  | RegisterTransCb sock
  | TransSetFd sock
  | RegisterDataCb string
  | RegisterDone
  | StartThread thread_name
  | SleepSeconds nat
  | PipeThere
  | SetStopFlag
  | WriteStop char
  | JoinThread thread_name
  | CloseSock sock
  | ClosePipe nat

type_synonym 'a route_prog = "(route_event, 'a) io"

definition DEFAULT_CONFD_ADDR :: string where "DEFAULT_CONFD_ADDR = ''127.0.0.1''"

definition RUN_FOR_TIME :: nat where "RUN_FOR_TIME = 1000"

text \<open>The callbacks of transactions.\<close>

definition cb_init :: "unit route_prog" where
  "cb_init = call (TransSetFd WorkerSock)"

definition init_dp :: "string option \<Rightarrow> unit route_prog" where
  "init_dp confd_ip =
     (let ip = (case confd_ip of None \<Rightarrow> DEFAULT_CONFD_ADDR | Some a \<Rightarrow> a)
      in calls [SetDebug, InitDaemon ''route_dp_daemon'', NewSock MaapiSock, NewSock ControlSock, NewSock WorkerSock,
                MaapiConnect ip, DpConnect ControlSock ip, DpConnect WorkerSock ip, LoadSchemas,
                RegisterTransCb WorkerSock, RegisterDataCb ''routestat'', RegisterDone])"

text \<open>The class attribute \<open>stop_pipe\<close> is \<open>None\<close> until the loop of the second thread has made the pipe.\<close>

definition stop_pipe :: "bool \<Rightarrow> bool route_prog" where
  "stop_pipe confd_thread = (if confd_thread then ask en_bool PipeThere else io_ret False)"

definition close_dp :: "bool \<Rightarrow> unit route_prog" where
  "close_dp confd_thread =
     io_then (calls [CloseSock MaapiSock, CloseSock ControlSock, CloseSock WorkerSock])
    (io_bind (stop_pipe confd_thread) (\<lambda>there. if there then calls [ClosePipe 0, ClosePipe 1] else io_raise TypeError))"

definition stop_confd_loop :: "unit route_prog" where
  "stop_confd_loop = io_bind (stop_pipe True) (\<lambda>there. if there then call (WriteStop (CHR ''x'')) else io_raise TypeError)"

text \<open>
  The \<open>try\<close> block: whether the second thread was created, and the exception that its handlers took.
\<close>

definition main_try :: "(bool \<times> py_error option) route_prog" where
  "main_try =
     io_bind (io_try (call (StartThread ChangeThread))) (\<lambda>e1.
       if e1 = None
       then io_bind (io_try (calls [StartThread ConfdThread, SleepSeconds RUN_FOR_TIME])) (\<lambda>e2. io_ret (True, e2))
       else io_ret (False, e1))"

definition main_finally :: "bool \<Rightarrow> unit route_prog" where
  "main_finally confd_thread =
     io_then (calls [SetStopFlag, JoinThread ChangeThread])
    (io_then (io_when confd_thread (io_then stop_confd_loop (call (JoinThread ConfdThread))))
      (close_dp confd_thread))"

text \<open>The handlers take \<open>KeyboardInterrupt\<close> and every \<open>Exception\<close>; \<open>SystemExit\<close> goes on after the \<open>finally\<close> clause.\<close>

definition route_main :: "rng \<Rightarrow> unit route_prog" where
  "route_main g =
     (let routes = fst (route_data_init (Some 10) True g)
      in if routes = [] then io_raise AssertionError
         else io_then (init_dp None)
             (io_bind main_try (\<lambda>(confd_thread, e).
              io_then (main_finally confd_thread) (if e = Some SystemExit then io_raise SystemExit else io_ret ()))))"

section \<open>Lemmas\<close>

fun route_effect :: "route_event \<Rightarrow> bool" where
  "route_effect PipeThere = False"
| "route_effect (SleepSeconds _) = False"
| "route_effect (StartThread _) = False"
| "route_effect _ = True"

definition init_events :: "route_event list" where
  "init_events =
     [SetDebug, InitDaemon ''route_dp_daemon'', NewSock MaapiSock, NewSock ControlSock, NewSock WorkerSock,
      MaapiConnect DEFAULT_CONFD_ADDR, DpConnect ControlSock DEFAULT_CONFD_ADDR, DpConnect WorkerSock DEFAULT_CONFD_ADDR,
      LoadSchemas, RegisterTransCb WorkerSock, RegisterDataCb ''routestat'', RegisterDone]"

definition end_events :: "route_event list" where
  "end_events =
     [SetStopFlag, JoinThread ChangeThread, WriteStop (CHR ''x''), JoinThread ConfdThread,
      CloseSock MaapiSock, CloseSock ControlSock, CloseSock WorkerSock, ClosePipe 0, ClosePipe 1]"

lemma main_try_effects:
  assumes "main_try en h = (h', Ret r)"
  shows "filter route_effect h' = filter route_effect h"
proof -
  obtain h1 e1 where 1: "io_try (call (StartThread ChangeThread)) en h = (h1, Ret e1)"
    and r: "(if e1 = None then io_bind (io_try (calls [StartThread ConfdThread, SleepSeconds RUN_FOR_TIME])) (\<lambda>e2. io_ret (True, e2))
       else io_ret (False, e1)) en h1 = (h', Ret r)"
    using assms unfolding main_try_def io_bind_Ret by blast
  have h1: "h1 = h @ [StartThread ChangeThread]"
    using io_try_Ret [OF 1] by (auto simp: call_def ask_def)
  show ?thesis
  proof (cases "e1 = None")
    case True
    with r obtain h2 e2 where 2: "io_try (calls [StartThread ConfdThread, SleepSeconds RUN_FOR_TIME]) en h1 = (h2, Ret e2)" and "h' = h2"
      by (auto simp: io_bind_Ret io_ret_def)
    moreover obtain ks where "h2 = h1 @ ks" "prefix ks [StartThread ConfdThread, SleepSeconds RUN_FOR_TIME]"
      using io_try_Ret [OF 2] calls_history by blast
    ultimately show ?thesis using h1 by (auto simp: prefix_Cons)
  next
    case False
    with r have "io_ret (False, e1) en h1 = (h', Ret r)" by (simp only: if_False)
    with h1 show ?thesis by (auto simp: io_ret_def)
  qed
qed

lemma stop_pipe_Ret: "stop_pipe c en h = (h', Ret b) \<Longrightarrow> filter route_effect h' = filter route_effect h \<and> (b \<longrightarrow> c)"
  by (auto simp: stop_pipe_def io_ret_def split: if_splits dest: ask_Ret)

lemma stop_confd_loop_Ret:
  assumes "stop_confd_loop en h = (h', Ret ())"
  shows "filter route_effect h' = filter route_effect h @ [WriteStop (CHR ''x'')]"
proof -
  obtain h1 b where 1: "stop_pipe True en h = (h1, Ret b)"
    and 2: "(if b then call (WriteStop (CHR ''x'')) else io_raise TypeError) en h1 = (h', Ret ())"
    using assms unfolding stop_confd_loop_def io_bind_Ret by blast
  have "h' = h1 @ [WriteStop (CHR ''x'')]" using 2 by (cases b) (auto simp: io_raise_def dest: call_Ret)
  with stop_pipe_Ret [OF 1] show ?thesis by simp
qed

lemma close_dp_Ret:
  assumes "close_dp c en h = (h', Ret ())"
  shows "c \<and> filter route_effect h' = filter route_effect h @
    [CloseSock MaapiSock, CloseSock ControlSock, CloseSock WorkerSock, ClosePipe 0, ClosePipe 1]"
proof -
  obtain h1 where "calls [CloseSock MaapiSock, CloseSock ControlSock, CloseSock WorkerSock] en h = (h1, Ret ())"
    and r: "io_bind (stop_pipe c) (\<lambda>there. if there then calls [ClosePipe 0, ClosePipe 1] else io_raise TypeError) en h1 = (h', Ret ())"
    using assms unfolding close_dp_def io_bind_Ret [of "calls _"] by auto
  from calls_Ret [OF this(1)] have h1: "filter route_effect h1 =
      filter route_effect h @ [CloseSock MaapiSock, CloseSock ControlSock, CloseSock WorkerSock]" by simp
  obtain h2 b where 2: "stop_pipe c en h1 = (h2, Ret b)"
    and r2: "(if b then calls [ClosePipe 0, ClosePipe 1] else io_raise TypeError) en h2 = (h', Ret ())"
    using r unfolding io_bind_Ret by blast
  have b: "b" using r2 by (cases b) (simp_all add: io_raise_def)
  with r2 have "h' = h2 @ [ClosePipe 0, ClosePipe 1]" by (auto simp del: calls.simps dest: calls_Ret)
  with stop_pipe_Ret [OF 2] b h1 show ?thesis by simp
qed

lemma main_finally_Ret:
  assumes "main_finally c en h = (h', Ret ())"
  shows "filter route_effect h' = filter route_effect h @ end_events"
proof -
  obtain h1 h2 where 1: "calls [SetStopFlag, JoinThread ChangeThread] en h = (h1, Ret ())"
    and 2: "io_when c (io_then stop_confd_loop (call (JoinThread ConfdThread))) en h1 = (h2, Ret ())"
    and 3: "close_dp c en h2 = (h', Ret ())"
    using assms unfolding main_finally_def io_bind_Ret [of "calls _"] io_bind_Ret [of "io_when _ _"] by auto
  from close_dp_Ret [OF 3] have c: c by blast
  with 2 obtain h3 where "stop_confd_loop en h1 = (h3, Ret ())" "call (JoinThread ConfdThread) en h3 = (h2, Ret ())"
    unfolding io_when_def by (auto simp: io_bind_Ret)
  then have "filter route_effect h2 = filter route_effect h1 @ [WriteStop (CHR ''x''), JoinThread ConfdThread]"
    using stop_confd_loop_Ret call_Ret by fastforce
  with close_dp_Ret [OF 3] calls_Ret [OF 1] show ?thesis by (simp add: end_events_def)
qed

section \<open>Correctness\<close>

text \<open>
  C26. The end of the provider: when the program returns, whether its time was over or it was interrupted, the flag was set before
  the thread of the changes was joined, the loop was stopped before its thread was joined, and after that all three sockets and
  both ends of the pipe were closed, each once.
\<close>

theorem route_main_closes:
  assumes "route_main g en [] = (h, Ret ())"
  shows "filter route_effect h = init_events @ end_events"
proof -
  obtain h1 h2 h3 c e where 1: "init_dp None en [] = (h1, Ret ())" and 2: "main_try en h1 = (h2, Ret (c, e))"
    and 3: "main_finally c en h2 = (h3, Ret ())" and 4: "(if e = Some SystemExit then io_raise SystemExit else io_ret ()) en h3 = (h, Ret ())"
    using assms unfolding route_main_def Let_def
    by (auto simp: io_bind_Ret io_raise_def split: if_splits)
  have "h = h3" using 4 by (auto simp: io_raise_def io_ret_def split: if_splits)
  moreover have "h1 = init_events"
    using 1 unfolding init_dp_def Let_def by (auto simp: init_events_def simp del: calls.simps dest!: calls_Ret)
  moreover have "filter route_effect init_events = init_events" by (simp add: init_events_def)
  ultimately show ?thesis using main_try_effects [OF 2] main_finally_Ret [OF 3] by simp
qed

text \<open>A run in which the user interrupts the pause.\<close>

definition interrupted :: "route_event env" where
  "interrupted = \<lparr>en_fail = (\<lambda>h. if last h = SleepSeconds RUN_FOR_TIME then Some KeyboardInterrupt else None),
     en_bool = (\<lambda>_. True), en_num = (\<lambda>_. 0), en_str = (\<lambda>_. [])\<rparr>"

lemma interrupted_returns: "snd (route_main \<lparr>rg_source = (\<lambda>k. k), rg_index = 0\<rparr> interrupted []) = Ret ()"
  by code_simp

lemma route_main_closes_witness:
  "filter route_effect (fst (route_main \<lparr>rg_source = (\<lambda>k. k), rg_index = 0\<rparr> interrupted [])) = init_events @ end_events"
  by (rule route_main_closes [of "\<lparr>rg_source = (\<lambda>k. k), rg_index = 0\<rparr>" interrupted])
     (metis interrupted_returns prod.collapse)

text \<open>
  If the second thread has not made the pipe yet when the program is interrupted, stopping it raises, and the sockets stay open.
\<close>

definition too_early :: "route_event env" where
  "too_early = interrupted\<lparr>en_bool := (\<lambda>_. False)\<rparr>"

theorem route_main_without_pipe:
  "let (h, r) = route_main \<lparr>rg_source = (\<lambda>k. k), rg_index = 0\<rparr> too_early []
   in r = Raise TypeError \<and> list_all (\<lambda>s. NewSock s \<in> set h \<and> CloseSock s \<notin> set h) [MaapiSock, ControlSock, WorkerSock]"
  by code_simp

end
