(* ===== verification/Py_Optparse.thy ===== *)
theory Py_Optparse
  imports Py_Text
begin

text \<open>
  The part of Python's \<open>optparse\<close> that command lines go through: options with their strings and actions, the loop over the
  arguments with long options, unique abbreviations, explicit values, clusters of short options, callbacks and the end
  marker \<open>--\<close>, and the notation of integers. A parser is the list of its options in the order in which they were
  added. Every error of the parser, and the help option, is the exception \<open>SystemExit\<close>. A callback says how many of the remaining arguments it
  takes away. The lemmas read a command line that is made of single settings: the parser performs exactly these.
\<close>

section \<open>Options\<close>

datatype 'v opt_action =
    Store "string \<Rightarrow> 'v \<Rightarrow> 'v"
  | StoreInt "int \<Rightarrow> 'v \<Rightarrow> 'v"
  | StoreTrue "'v \<Rightarrow> 'v"
  | Callback "string list \<Rightarrow> 'v \<Rightarrow> 'v \<times> nat"
  | Help

type_synonym 'v opt_parser = "(string list \<times> 'v opt_action) list"

fun takes_value :: "'v opt_action \<Rightarrow> bool" where
  "takes_value (Store f) = True"
| "takes_value (StoreInt f) = True"
| "takes_value _ = False"

definition opt_strings :: "'v opt_parser \<Rightarrow> (string \<times> 'v opt_action) list" where
  "opt_strings p = concat (map (\<lambda>(ss, a). map (\<lambda>s. (s, a)) ss) p)"

definition long_opt :: "'v opt_parser \<Rightarrow> (string \<times> 'v opt_action) list" where
  "long_opt p = filter (\<lambda>(s, a). startswith s ''--'') (opt_strings p)"

definition short_opt :: "'v opt_parser \<Rightarrow> (string \<times> 'v opt_action) list" where
  "short_opt p = filter (\<lambda>(s, a). \<not> startswith s ''--'') (opt_strings p)"

section \<open>Integers\<close>

text \<open>\<open>int(s, radix)\<close>: digits with single underscores between them, after a prefix that fits the radix.\<close>

definition radix_digit :: "nat \<Rightarrow> char \<Rightarrow> nat option" where
  "radix_digit radix c =
     (let k = (of_char c :: nat);
          d = (if 48 \<le> k \<and> k \<le> 57 then k - 48 else if 97 \<le> k \<and> k \<le> 122 then k - 87
               else if 65 \<le> k \<and> k \<le> 90 then k - 55 else radix)
      in if d < radix then Some d else None)"

fun radix_digits :: "nat \<Rightarrow> bool \<Rightarrow> nat \<Rightarrow> string \<Rightarrow> nat option" where
  "radix_digits radix after_digit n [] = (if after_digit then Some n else None)"
| "radix_digits radix after_digit n (c # s) =
     (case radix_digit radix c of
        Some d \<Rightarrow> radix_digits radix True (radix * n + d) s
      | None \<Rightarrow> if c = CHR ''_'' \<and> after_digit then radix_digits radix False n s else None)"

definition radix_prefix :: "nat \<Rightarrow> string \<Rightarrow> bool" where
  "radix_prefix radix s \<longleftrightarrow>
     radix = 16 \<and> s \<in> {''0x'', ''0X''} \<or> radix = 8 \<and> s \<in> {''0o'', ''0O''} \<or> radix = 2 \<and> s \<in> {''0b'', ''0B''}"

definition int_radix :: "nat \<Rightarrow> string \<Rightarrow> int option" where
  "int_radix radix b =
     (let s = py_strip b;
          (sign, t) = (if take 1 s = ''-'' then (- 1, drop 1 s) else if take 1 s = ''+'' then (1, drop 1 s) else (1, s));
          ds = (if radix_prefix radix (take 2 t)
                then (if take 1 (drop 2 t) = ''_'' then drop 3 t else drop 2 t) else t)
      in map_option (\<lambda>n. sign * int n) (radix_digits radix False 0 ds))"

definition opt_parse_num :: "string \<Rightarrow> int option" where
  "opt_parse_num v =
     (if take 2 v \<in> {''0x'', ''0X''} then int_radix 16 v
      else if take 2 v \<in> {''0b'', ''0B''} then int_radix 2 (if drop 2 v = [] then ''0'' else drop 2 v)
      else if take 1 v = ''0'' then int_radix 8 v
      else int_radix 10 v)"

section \<open>The loop over the arguments\<close>

text \<open>\<open>Option.process\<close>, with the remaining arguments.\<close>

fun opt_process :: "'v opt_action \<Rightarrow> string \<Rightarrow> string list \<Rightarrow> 'v \<Rightarrow> ('v \<times> string list) result" where
  "opt_process (Store f) v rargs vals = Inr (f v vals, rargs)"
| "opt_process (StoreInt f) v rargs vals =
     (case opt_parse_num v of Some i \<Rightarrow> Inr (f i vals, rargs) | None \<Rightarrow> Inl SystemExit)"
| "opt_process (StoreTrue f) v rargs vals = Inr (f vals, rargs)"
| "opt_process (Callback cb) v rargs vals = (let (vals', k) = cb rargs vals in Inr (vals', drop k rargs))"
| "opt_process Help v rargs vals = Inl SystemExit"

definition match_abbrev :: "string \<Rightarrow> string list \<Rightarrow> string result" where
  "match_abbrev s names =
     (if s \<in> set names then Inr s
      else case filter (\<lambda>w. startswith w s) names of [w] \<Rightarrow> Inr w | _ \<Rightarrow> Inl SystemExit)"

definition process_value ::
  "'v opt_action \<Rightarrow> string list \<Rightarrow> 'v \<Rightarrow> ('v \<times> string list) result" where
  "process_value a rargs vals = (case rargs of [] \<Rightarrow> Inl SystemExit | v # rest \<Rightarrow> opt_process a v rest vals)"

definition process_long_opt ::
  "'v opt_parser \<Rightarrow> string \<Rightarrow> string list \<Rightarrow> 'v \<Rightarrow> ('v \<times> string list) result" where
  "process_long_opt p arg rargs vals =
     (let explicit = CHR ''='' \<in> set arg;
          opt = (if explicit then takeWhile (\<lambda>c. c \<noteq> CHR ''='') arg else arg);
          rargs1 = (if explicit then tl (dropWhile (\<lambda>c. c \<noteq> CHR ''='') arg) # rargs else rargs)
      in rbind (match_abbrev opt (map fst (long_opt p))) (\<lambda>name.
           case map_of (long_opt p) name of
             None \<Rightarrow> Inl KeyError
           | Some a \<Rightarrow>
               if takes_value a then process_value a rargs1 vals
               else if explicit then Inl SystemExit
               else opt_process a [] rargs1 vals))"

fun process_short_opts ::
  "'v opt_parser \<Rightarrow> string \<Rightarrow> string list \<Rightarrow> 'v \<Rightarrow> ('v \<times> string list) result" where
  "process_short_opts p [] rargs vals = Inr (vals, rargs)"
| "process_short_opts p (c # cs) rargs vals =
     (case map_of (short_opt p) [CHR ''-'', c] of
        None \<Rightarrow> Inl SystemExit
      | Some a \<Rightarrow>
          if takes_value a then process_value a (if cs = [] then rargs else cs # rargs) vals
          else rbind (opt_process a [] rargs vals) (\<lambda>(vals', rargs'). process_short_opts p cs rargs' vals'))"

lemma opt_process_length: "opt_process a v rargs vals = Inr (vals', rargs') \<Longrightarrow> length rargs' \<le> length rargs"
  by (cases a) (auto split: option.splits prod.splits)

lemma process_value_length:
  "process_value a rargs vals = Inr (vals', rargs') \<Longrightarrow> length rargs' < length rargs"
  by (auto simp: process_value_def less_Suc_eq_le split: list.splits dest: opt_process_length)

lemma process_long_opt_length:
  "process_long_opt p arg rargs vals = Inr (vals', rargs') \<Longrightarrow> length rargs' \<le> length rargs"
  by (force simp: process_long_opt_def Let_def rbind_eq_Inr_iff split: option.splits if_splits
      dest: opt_process_length process_value_length)

lemma process_short_opts_length:
  "process_short_opts p cs rargs vals = Inr (vals', rargs') \<Longrightarrow> length rargs' \<le> length rargs"
proof (induction p cs rargs vals arbitrary: vals' rargs' rule: process_short_opts.induct)
  case (2 p c cs rargs vals)
  then obtain a where a: "map_of (short_opt p) [CHR ''-'', c] = Some a" by (auto split: option.splits)
  show ?case
  proof (cases "takes_value a")
    case True
    with 2(2) a have "process_value a (if cs = [] then rargs else cs # rargs) vals = Inr (vals', rargs')" by simp
    from process_value_length [OF this] show ?thesis by (simp split: if_splits)
  next
    case False
    with 2(2) a obtain v1 r1 where 1: "opt_process a [] rargs vals = Inr (v1, r1)"
      and r: "process_short_opts p cs r1 v1 = Inr (vals', rargs')"
      by (auto simp: rbind_eq_Inr_iff)
    from 2(1) [OF a False 1 refl r] opt_process_length [OF 1] show ?thesis by simp
  qed
qed simp

text \<open>\<open>_process_args\<close>: the values and the positional arguments.\<close>

function process_args ::
  "'v opt_parser \<Rightarrow> string list \<Rightarrow> string list \<Rightarrow> 'v \<Rightarrow> ('v \<times> string list) result" where
  "process_args p largs [] vals = Inr (vals, largs)"
| "process_args p largs (arg # rargs) vals =
     (if arg = ''--'' then Inr (vals, largs @ rargs)
      else if take 2 arg = ''--''
      then rbind (process_long_opt p arg rargs vals) (\<lambda>(vals', rargs'). process_args p largs rargs' vals')
      else if take 1 arg = ''-'' \<and> length arg > 1
      then rbind (process_short_opts p (drop 1 arg) rargs vals) (\<lambda>(vals', rargs'). process_args p largs rargs' vals')
      else process_args p (largs @ [arg]) rargs vals)"
  by pat_completeness auto
termination
  by (relation "measure (\<lambda>(p, largs, rargs, vals). length rargs)")
     (auto simp: less_Suc_eq_le dest: process_long_opt_length process_short_opts_length)

definition opt_parse_args :: "'v opt_parser \<Rightarrow> 'v \<Rightarrow> string list \<Rightarrow> ('v \<times> string list) result" where
  "opt_parse_args p defaults args = process_args p [] args defaults"

section \<open>Decimal notation\<close>

text \<open>The parser reads the decimal notation of an integer back.\<close>

lemma radix_digit_dec: "is_digit c \<Longrightarrow> radix_digit 10 c = Some (digit_val c)"
  by (auto simp: radix_digit_def is_digit_def digit_val_def Let_def)

lemma radix_digits_dec:
  "\<forall>c \<in> set s. is_digit c \<Longrightarrow>
   radix_digits 10 b n s = (if b \<or> s \<noteq> [] then Some (foldl (\<lambda>n c. 10 * n + digit_val c) n s) else None)"
  by (induction s arbitrary: b n) (simp_all add: radix_digit_dec)

lemma radix_digits_nat_str: "radix_digits 10 False 0 (nat_str n) = Some n"
  using digits_val_nat_str [of n] by (simp add: radix_digits_dec nat_str_digits digits_val_def)

lemma nat_str_hd:
  assumes "0 < n"
  shows "is_digit (hd (nat_str n))" and "hd (nat_str n) \<noteq> CHR ''0''"
proof -
  show "is_digit (hd (nat_str n))" using nat_str_digits [of n] by simp
  show "hd (nat_str n) \<noteq> CHR ''0''"
    using assms
  proof (induction n rule: nat_str.induct)
    case (1 n)
    have "digit n \<noteq> CHR ''0''" if "n < 10" using that 1(2) of_char_digit [of n] by auto
    with 1 show ?case by (subst nat_str.simps) (auto simp: hd_append)
  qed
qed

lemma int_radix_nat_str: "int_radix 10 (nat_str n) = Some (int n)"
proof -
  have "is_digit (hd (nat_str n))" using nat_str_digits [of n] by simp
  then have "take 1 (nat_str n) \<noteq> ''-''" "take 1 (nat_str n) \<noteq> ''+''"
    by (cases "nat_str n"; auto simp: is_digit_def)+
  then show ?thesis
    by (simp add: int_radix_def strip_digits nat_str_digits radix_prefix_def radix_digits_nat_str)
qed

lemma int_radix_neg: "int_radix 10 (CHR ''-'' # nat_str n) = Some (- int n)"
proof -
  have "dropWhile is_space (rev (nat_str n) @ ''-'') = rev (nat_str n) @ ''-''"
    using nat_str_digits [of n] digit_not_space
    by (cases "rev (nat_str n)") (auto simp: is_space_def)
  then have "py_strip (CHR ''-'' # nat_str n) = CHR ''-'' # nat_str n" by (simp add: py_strip_def is_space_def)
  then show ?thesis
    by (simp add: int_radix_def radix_prefix_def radix_digits_nat_str)
qed

lemma opt_parse_num_int_str: "opt_parse_num (int_str i) = Some i"
proof -
  have zero: "opt_parse_num ''0'' = Some 0" by code_simp
  have pos: "opt_parse_num (nat_str n) = Some (int n)" if "0 < n" for n
  proof -
    obtain c s where "nat_str n = c # s" by (cases "nat_str n") auto
    with nat_str_hd [OF that] int_radix_nat_str [of n] show ?thesis by (auto simp: opt_parse_num_def)
  qed
  have neg: "opt_parse_num (CHR ''-'' # nat_str n) = Some (- int n)" for n
    using int_radix_neg [of n] by (simp add: opt_parse_num_def)
  have "nat_str 0 = ''0''" by code_simp
  with zero pos [of "nat i"] neg [of "nat (- i)"] show ?thesis
    by (cases "i = 0") (auto simp: int_str_def)
qed

section \<open>Command lines made of settings\<close>

text \<open>One setting of an option, in each of the forms that the parser reads.\<close>

datatype opt_item =
    LongValue string string
  | LongSeparate string string
  | LongFlag string
  | ShortAttached char string
  | ShortSeparate char string
  | ShortFlag char

fun item_args :: "opt_item \<Rightarrow> string list" where
  "item_args (LongValue n v) = [n @ ''='' @ v]"
| "item_args (LongSeparate n v) = [n, v]"
| "item_args (LongFlag n) = [n]"
| "item_args (ShortAttached c v) = [CHR ''-'' # c # v]"
| "item_args (ShortSeparate c v) = [[CHR ''-'', c], v]"
| "item_args (ShortFlag c) = [[CHR ''-'', c]]"

definition long_action :: "'v opt_parser \<Rightarrow> string \<Rightarrow> 'v opt_action option" where
  "long_action p n =
     (if take 2 n = ''--'' \<and> n \<noteq> ''--'' \<and> CHR ''='' \<notin> set n
      then (case match_abbrev n (map fst (long_opt p)) of Inr w \<Rightarrow> map_of (long_opt p) w | Inl _ \<Rightarrow> None)
      else None)"

definition short_action :: "'v opt_parser \<Rightarrow> char \<Rightarrow> 'v opt_action option" where
  "short_action p c = (if c = CHR ''-'' then None else map_of (short_opt p) [CHR ''-'', c])"

fun value_effect :: "string \<Rightarrow> 'v opt_action \<Rightarrow> ('v \<Rightarrow> 'v) option" where
  "value_effect v (Store f) = Some (f v)"
| "value_effect v (StoreInt f) = map_option f (opt_parse_num v)"
| "value_effect v _ = None"

fun flag_effect :: "'v opt_action \<Rightarrow> ('v \<Rightarrow> 'v) option" where
  "flag_effect (StoreTrue f) = Some f"
| "flag_effect _ = None"

fun item_effect :: "'v opt_parser \<Rightarrow> opt_item \<Rightarrow> ('v \<Rightarrow> 'v) option" where
  "item_effect p (LongValue n v) = Option.bind (long_action p n) (value_effect v)"
| "item_effect p (LongSeparate n v) = Option.bind (long_action p n) (value_effect v)"
| "item_effect p (LongFlag n) = Option.bind (long_action p n) flag_effect"
| "item_effect p (ShortAttached c v) = (if v = [] then None else Option.bind (short_action p c) (value_effect v))"
| "item_effect p (ShortSeparate c v) = Option.bind (short_action p c) (value_effect v)"
| "item_effect p (ShortFlag c) = Option.bind (short_action p c) flag_effect"

fun items_effect :: "'v opt_parser \<Rightarrow> opt_item list \<Rightarrow> 'v \<Rightarrow> 'v option" where
  "items_effect p [] vals = Some vals"
| "items_effect p (it # its) vals = Option.bind (item_effect p it) (\<lambda>f. items_effect p its (f vals))"

lemma value_effect_process:
  "value_effect v a = Some f \<Longrightarrow> takes_value a \<and> opt_process a v rargs vals = Inr (f vals, rargs)"
  by (cases a) auto

lemma flag_effect_process:
  "flag_effect a = Some f \<Longrightarrow> \<not> takes_value a \<and> opt_process a v rargs vals = Inr (f vals, rargs)"
  by (cases a) auto

lemma long_actionD:
  assumes "long_action p n = Some a"
  shows "take 2 n = ''--''" and "n \<noteq> ''--''" and "CHR ''='' \<notin> set n"
    and "\<exists>w. match_abbrev n (map fst (long_opt p)) = Inr w \<and> map_of (long_opt p) w = Some a"
  using assms by (auto simp: long_action_def split: if_splits sum.splits)

lemma process_long_action:
  assumes "long_action p n = Some a"
  shows "process_long_opt p n rargs vals = (if takes_value a then process_value a rargs vals else opt_process a [] rargs vals)"
    and "process_long_opt p (n @ ''='' @ v) rargs vals =
      (if takes_value a then opt_process a v rargs vals else Inl SystemExit)"
proof -
  note D = long_actionD [OF assms]
  obtain w where w: "match_abbrev n (map fst (long_opt p)) = Inr w" "map_of (long_opt p) w = Some a" using D(4) by blast
  with D(3) show "process_long_opt p n rargs vals =
      (if takes_value a then process_value a rargs vals else opt_process a [] rargs vals)"
    by (simp add: process_long_opt_def)
  have "takeWhile (\<lambda>c. c \<noteq> CHR ''='') (n @ ''='' @ v) = n" "dropWhile (\<lambda>c. c \<noteq> CHR ''='') (n @ ''='' @ v) = ''='' @ v"
    using D(3) by (subst takeWhile_append2 dropWhile_append2; auto)+
  with w show "process_long_opt p (n @ ''='' @ v) rargs vals =
      (if takes_value a then opt_process a v rargs vals else Inl SystemExit)"
    by (simp add: process_long_opt_def process_value_def)
qed

lemma process_args_long:
  assumes "take 2 arg = ''--''" and "arg \<noteq> ''--''"
  shows "process_args p largs (arg # rest) vals =
    rbind (process_long_opt p arg rest vals) (\<lambda>(vals', rargs'). process_args p largs rargs' vals')"
  using assms by simp

lemma process_args_short:
  assumes "c \<noteq> CHR ''-''"
  shows "process_args p largs ((CHR ''-'' # c # cs) # rest) vals =
    rbind (process_short_opts p (c # cs) rest vals) (\<lambda>(vals', rargs'). process_args p largs rargs' vals')"
  using assms by simp

text \<open>The parser performs a setting and goes on with the rest.\<close>

lemma process_item:
  assumes "item_effect p it = Some f"
  shows "process_args p largs (item_args it @ rest) vals = process_args p largs rest (f vals)"
proof (cases it)
  case (LongValue n v)
  with assms obtain a where a: "long_action p n = Some a" "value_effect v a = Some f" by (auto simp: bind_eq_Some_conv)
  from long_actionD(1,2) [OF a(1)] have "take 2 (n @ ''='' @ v) = ''--''" "n @ ''='' @ v \<noteq> ''--''"
    by (cases n; cases "tl n"; auto)+
  with LongValue a show ?thesis
    by (simp add: process_args_long process_long_action(2) [OF a(1), simplified] value_effect_process del: process_args.simps)
next
  case (LongSeparate n v)
  with assms obtain a where a: "long_action p n = Some a" "value_effect v a = Some f" by (auto simp: bind_eq_Some_conv)
  with LongSeparate long_actionD(1,2) [OF a(1)] show ?thesis
    by (simp add: process_args_long process_long_action process_value_def value_effect_process del: process_args.simps)
next
  case (LongFlag n)
  with assms obtain a where a: "long_action p n = Some a" "flag_effect a = Some f" by (auto simp: bind_eq_Some_conv)
  with LongFlag long_actionD(1,2) [OF a(1)] show ?thesis
    by (simp add: process_args_long process_long_action flag_effect_process del: process_args.simps)
next
  case (ShortAttached c v)
  with assms obtain a where "short_action p c = Some a" "value_effect v a = Some f" "v \<noteq> []"
    by (auto simp: bind_eq_Some_conv split: if_splits)
  with ShortAttached show ?thesis
    by (simp add: process_args_short process_value_def value_effect_process short_action_def del: process_args.simps split: if_splits)
next
  case (ShortSeparate c v)
  with assms obtain a where "short_action p c = Some a" "value_effect v a = Some f" by (auto simp: bind_eq_Some_conv)
  with ShortSeparate show ?thesis
    by (simp add: process_args_short process_value_def value_effect_process short_action_def del: process_args.simps split: if_splits)
next
  case (ShortFlag c)
  with assms obtain a where "short_action p c = Some a" "flag_effect a = Some f" by (auto simp: bind_eq_Some_conv)
  with ShortFlag show ?thesis
    by (simp add: process_args_short flag_effect_process short_action_def del: process_args.simps split: if_splits)
qed

lemma process_items:
  "items_effect p its vals = Some vals' \<Longrightarrow>
   process_args p largs (concat (map item_args its) @ rest) vals = process_args p largs rest vals'"
  by (induction its arbitrary: vals) (auto simp: process_item bind_eq_Some_conv simp del: process_args.simps)

lemma items_effect_append:
  "items_effect p (its @ its') vals = Option.bind (items_effect p its vals) (items_effect p its')"
  by (induction its arbitrary: vals) (auto split: bind_split)

end
