(* ===== verification/Netconf_Transport.thy ===== *)
theory Netconf_Transport
  imports Py_Text
begin

text \<open>
  The NETCONF transports of \<open>confd-sync-py/app/netconf_console.py\<close>: the framing of messages in
  \<open>NetconfSSHLikeTransport\<close>, and the two ways of sending in \<open>NetconfSSH\<close> and \<open>NetconfTCP\<close>.

  The record \<open>transport\<close> holds the fields of the object and the connection: \<open>tr_in\<close> is what the
  calls of \<open>_recv\<close> will return, one segment per call, and then \<open>b""\<close> for the end of the
  stream; \<open>tr_out\<close> is what has been handed to the socket or channel. Every loop reads segments,
  so the models recurse over \<open>tr_in\<close>, and \<open>recv_msg\<close> has the number of unread bytes as its measure.
  Timeouts are the caller's and not part of this theory.
\<close>

section \<open>State\<close>

definition BUFSIZ :: nat where "BUFSIZ = 16384"

definition MAX_UINT32 :: int where "MAX_UINT32 = 2 ^ 32 - 1"

abbreviation (input) FRAMING_1_0 :: int where "FRAMING_1_0 \<equiv> 0"
abbreviation (input) FRAMING_1_1 :: int where "FRAMING_1_1 \<equiv> 1"

text \<open>What is handed to \<open>send\<close>, and what \<open>NetconfSSH\<close> holds back: text, or bytes read from a file.\<close>

datatype request = ReqStr ustr | ReqBytes bytes

record transport =
  tr_buf_bytes :: bytes
  tr_framing :: int
  tr_eom_found :: bool
  tr_saved :: request
  tr_in :: "bytes list"
  tr_out :: bytes

definition transport_init :: "bytes list \<Rightarrow> transport" where
  "transport_init segs = \<lparr>tr_buf_bytes = [], tr_framing = FRAMING_1_0, tr_eom_found = False,
     tr_saved = ReqStr [], tr_in = segs, tr_out = []\<rparr>"

section \<open>Receiving\<close>

definition EOM_1_0 :: bytes where "EOM_1_0 = '']]>]]>''"

definition EOM_1_1 :: bytes where
  "EOM_1_1 = CHR 0x0A # ''##'' @ [CHR 0x0A]"

text \<open>
  \<open>while len(bytes) < n\<close>: read more. The result is whether there was enough, the bytes, and the
  segments left.
\<close>

fun recv_more :: "nat \<Rightarrow> bytes \<Rightarrow> bytes list \<Rightarrow> bool \<times> bytes \<times> bytes list" where
  "recv_more n bytes [] = (n \<le> length bytes, bytes, [])"
| "recv_more n bytes (x # xs) =
     (if n \<le> length bytes then (True, bytes, x # xs)
      else if x = [] then (False, bytes, xs)
      else recv_more n (bytes @ x) xs)"

text \<open>
  The codes of the source: 1 for data, 0 for the end of the message, -1 for the end of the stream,
  -2 for a framing error.
\<close>

definition recv_chunk_bytes_framing_1_0 :: "transport \<Rightarrow> transport \<times> (int \<times> bytes)" where
  "recv_chunk_bytes_framing_1_0 t =
     (if tr_eom_found t then (t\<lparr>tr_eom_found := False\<rparr>, (0, []))
      else (case recv_more 6 (tr_buf_bytes t) (tr_in t) of
          (False, bytes, segs) \<Rightarrow> (t\<lparr>tr_buf_bytes := [], tr_in := segs\<rparr>, (- 1, bytes))
        | (True, bytes, segs) \<Rightarrow>
            (case py_find bytes EOM_1_0 of
               Some idx \<Rightarrow>
                 (t\<lparr>tr_buf_bytes := drop (idx + 6) bytes, tr_in := segs, tr_eom_found := True\<rparr>,
                  (1, take idx bytes))
             | None \<Rightarrow>
                 (t\<lparr>tr_buf_bytes := drop (length bytes - 5) bytes, tr_in := segs\<rparr>,
                  (1, take (length bytes - 5) bytes)))))"

text \<open>The loop that reads the chunk header.\<close>

datatype chunk_header = HdrSize nat bytes "bytes list" | HdrEom bytes "bytes list"
  | HdrError int bytes "bytes list"

fun read_header :: "bytes \<Rightarrow> bytes list \<Rightarrow> chunk_header" where
  "read_header bytes segs =
     (case py_find (drop 2 bytes) [CHR 0x0A] of
        Some i \<Rightarrow>
          (let idx = i + 2; field = take i (drop 2 bytes)
           in if idx > 12 then HdrError (- 2) bytes segs
              else (case py_int field of
                  Some sz \<Rightarrow>
                    if sz < 1 \<or> sz > MAX_UINT32 then HdrError (- 2) bytes segs
                    else HdrSize (nat sz) (drop (idx + 1) bytes) segs
                | None \<Rightarrow>
                    if field = ''#'' then HdrEom (drop (idx + 1) bytes) segs
                    else HdrError (- 2) bytes segs))
      | None \<Rightarrow>
          (case segs of
             [] \<Rightarrow> HdrError (- 1) bytes []
           | x # xs \<Rightarrow> if x = [] then HdrError (- 1) bytes xs else read_header (bytes @ x) xs))"

declare read_header.simps [simp del]

definition recv_chunk_bytes_framing_1_1 :: "transport \<Rightarrow> transport \<times> (int \<times> bytes)" where
  "recv_chunk_bytes_framing_1_1 t =
     (case recv_more 4 (tr_buf_bytes t) (tr_in t) of
        (False, bytes, segs) \<Rightarrow> (t\<lparr>tr_buf_bytes := [], tr_in := segs\<rparr>, (- 1, bytes))
      | (True, bytes, segs) \<Rightarrow>
          if take 2 bytes \<noteq> [CHR 0x0A, CHR ''#''] then
            (t\<lparr>tr_buf_bytes := [], tr_in := segs\<rparr>, (- 2, bytes))
          else (case read_header bytes segs of
              HdrError code b ss \<Rightarrow> (t\<lparr>tr_buf_bytes := [], tr_in := ss\<rparr>, (code, b))
            | HdrEom b ss \<Rightarrow> (t\<lparr>tr_buf_bytes := b, tr_in := ss\<rparr>, (0, []))
            | HdrSize sz b ss \<Rightarrow>
                (case recv_more sz b ss of
                   (False, b', ss') \<Rightarrow> (t\<lparr>tr_buf_bytes := [], tr_in := ss'\<rparr>, (- 1, b'))
                 | (True, b', ss') \<Rightarrow>
                     (t\<lparr>tr_buf_bytes := drop sz b', tr_in := ss'\<rparr>, (1, take sz b')))))"

definition recv_chunk_bytes :: "transport \<Rightarrow> transport \<times> (int \<times> bytes) result" where
  "recv_chunk_bytes t =
     (if tr_framing t = FRAMING_1_0 then map_prod id Inr (recv_chunk_bytes_framing_1_0 t)
      else if tr_framing t = FRAMING_1_1 then map_prod id Inr (recv_chunk_bytes_framing_1_1 t)
      else (t, Inl RuntimeError))"

text \<open>\<open>str_data\<close> of bytes.\<close>

definition str_data :: "bytes \<Rightarrow> ustr result" where
  "str_data b = (case utf8_decode b of None \<Rightarrow> Inl UnicodeDecodeError | Some s \<Rightarrow> Inr s)"

text \<open>One call of \<open>_recv\<close>, with what the trace writes: the segment is decoded by itself.\<close>

definition transport_recv :: "bool \<Rightarrow> transport \<Rightarrow> transport \<times> (bytes \<times> ustr) result" where
  "transport_recv trace t =
     (case tr_in t of
        [] \<Rightarrow> (t, Inr ([], []))
      | s # ss \<Rightarrow> (t\<lparr>tr_in := ss\<rparr>, if trace then rbind (str_data s) (\<lambda>u. Inr (s, u)) else Inr (s, [])))"

definition recv_chunk :: "transport \<Rightarrow> transport \<times> (int \<times> ustr) result" where
  "recv_chunk t =
     (case recv_chunk_bytes t of
        (t1, Inl e) \<Rightarrow> (t1, Inl e)
      | (t1, Inr (flag, b)) \<Rightarrow> (t1, rbind (str_data b) (\<lambda>s. Inr (flag, s))))"

text \<open>The bytes that have not been returned yet, and the measure of the loop of \<open>recv_msg\<close>.\<close>

definition stream :: "transport \<Rightarrow> bytes" where
  "stream t = tr_buf_bytes t @ concat (tr_in t)"

lemma recv_more_stream:
  "recv_more n b segs = (ok, b', segs') \<Longrightarrow>
     b' @ concat segs' = b @ concat segs \<and> (ok \<longrightarrow> n \<le> length b')"
  by (induction n b segs rule: recv_more.induct) (auto split: if_splits)

lemma read_header_stream:
  "read_header b segs = HdrSize sz b' segs' \<Longrightarrow>
     0 < sz \<and> length (b' @ concat segs') < length (b @ concat segs)"
proof (induction segs arbitrary: b)
  case Nil
  then show ?case
    by (auto simp: read_header.simps [of b] Let_def split: option.splits if_splits
        dest: py_find_bound)
next
  case (Cons x segs)
  show ?case
  proof (cases "py_find (drop 2 b) [CHR 0x0A]")
    case None
    with Cons.prems have "read_header (b @ x) segs = HdrSize sz b' segs'"
      by (simp add: read_header.simps [of b] split: if_splits)
    with Cons.IH show ?thesis by fastforce
  next
    case (Some i)
    with Cons.prems show ?thesis
      by (auto simp: read_header.simps [of b] Let_def split: option.splits if_splits
          dest: py_find_bound)
  qed
qed

lemma chunk_1_0_shrinks:
  assumes "recv_chunk_bytes_framing_1_0 t = (t', (1, b))"
  shows "length (stream t') < length (stream t)"
proof -
  obtain ok bs segs where r: "recv_more 6 (tr_buf_bytes t) (tr_in t) = (ok, bs, segs)"
    by (cases "recv_more 6 (tr_buf_bytes t) (tr_in t)")
  from recv_more_stream [OF r] have st: "length bs + length (concat segs) = length (stream t)"
    by (metis length_append stream_def)
  from assms r have ok: "ok"
    by (auto simp: recv_chunk_bytes_framing_1_0_def split: if_splits bool.splits)
  with recv_more_stream [OF r] have six: "6 \<le> length bs" by simp
  from assms r ok obtain k where k: "stream t' = drop k bs @ concat segs" "0 < k"
  proof (cases "py_find bs EOM_1_0")
    case None
    with assms r ok have "stream t' = drop (length bs - 5) bs @ concat segs"
      by (auto simp: recv_chunk_bytes_framing_1_0_def stream_def split: if_splits)
    with six that show ?thesis by fastforce
  next
    case (Some i)
    with assms r ok have "stream t' = drop (i + 6) bs @ concat segs"
      by (auto simp: recv_chunk_bytes_framing_1_0_def stream_def split: if_splits)
    with that show ?thesis by fastforce
  qed
  then have "length (stream t') = length bs - k + length (concat segs)" by simp
  with k(2) six st show ?thesis by linarith
qed

lemma read_header_error: "read_header b segs = HdrError code b' segs' \<Longrightarrow> code < 0"
proof (induction segs arbitrary: b)
  case Nil
  then show ?case
    by (auto simp: read_header.simps [of b] Let_def split: option.splits if_splits)
next
  case (Cons x segs)
  then show ?case
    by (auto simp: read_header.simps [of b] Let_def split: option.splits if_splits)
qed

lemma chunk_1_1_shrinks:
  assumes "recv_chunk_bytes_framing_1_1 t = (t', (1, b))"
  shows "length (stream t') < length (stream t)"
proof -
  obtain ok bs segs where r: "recv_more 4 (tr_buf_bytes t) (tr_in t) = (ok, bs, segs)"
    by (cases "recv_more 4 (tr_buf_bytes t) (tr_in t)")
  from recv_more_stream [OF r] have st: "length (bs @ concat segs) = length (stream t)"
    by (simp add: stream_def)
  from assms r obtain sz c ss where h: "read_header bs segs = HdrSize sz c ss"
    by (auto simp: recv_chunk_bytes_framing_1_1_def split: bool.splits if_splits chunk_header.splits
        dest: read_header_error)
  obtain ok' d ds where m: "recv_more sz c ss = (ok', d, ds)" by (cases "recv_more sz c ss")
  from assms r h m have t': "stream t' = drop sz d @ concat ds"
    by (auto simp: recv_chunk_bytes_framing_1_1_def stream_def split: bool.splits if_splits)
  from recv_more_stream [OF m] have "length (d @ concat ds) = length (c @ concat ss)" by simp
  moreover have "length (stream t') = length d - sz + length (concat ds)" using t' by simp
  moreover have "length c + length (concat ss) < length bs + length (concat segs)"
    using read_header_stream [OF h] by simp
  moreover have "length bs + length (concat segs) = length (stream t)" using st by simp
  moreover have "length d + length (concat ds) = length c + length (concat ss)"
    using recv_more_stream [OF m] by (metis length_append)
  ultimately show ?thesis by linarith
qed

lemma recv_chunk_shrinks:
  assumes "recv_chunk t = (t', Inr (1, s))"
  shows "length (stream t') < length (stream t)"
proof -
  from assms obtain b where "recv_chunk_bytes t = (t', Inr (1, b))"
    by (auto simp: recv_chunk_def rbind_eq_Inr_iff split: prod.splits sum.splits)
  then show ?thesis
    using chunk_1_0_shrinks chunk_1_1_shrinks
    by (auto simp: recv_chunk_bytes_def map_prod_def split: if_splits prod.splits)
qed

text \<open>The loop of \<open>recv_msg\<close>, with the message read so far.\<close>

function recv_msg_loop :: "ustr \<Rightarrow> transport \<Rightarrow> transport \<times> ustr result" where
  "recv_msg_loop msg t =
     (case recv_chunk t of
        (t1, Inl e) \<Rightarrow> (t1, Inl e)
      | (t1, Inr (code, s)) \<Rightarrow>
          if code = 1 then recv_msg_loop (msg @ s) t1
          else if code = 0 then (t1, Inr msg)
          else (t1, Inr (msg @ s)))"
  by pat_completeness auto

termination
  by (relation "measure (\<lambda>(msg, t). length (stream t))") (auto dest: recv_chunk_shrinks [OF sym])

declare recv_msg_loop.simps [simp del]

definition recv_msg :: "transport \<Rightarrow> transport \<times> ustr result" where
  "recv_msg t = recv_msg_loop [] t"

section \<open>Sending\<close>

definition get_eom :: "transport \<Rightarrow> bytes" where
  "get_eom t =
     (if tr_framing t = FRAMING_1_0 then EOM_1_0
      else if tr_framing t = FRAMING_1_1 then EOM_1_1
      else [])"

fun req_len :: "request \<Rightarrow> nat" where
  "req_len (ReqStr s) = length s"
| "req_len (ReqBytes b) = length b"

fun req_str :: "request \<Rightarrow> ustr result" where
  "req_str (ReqStr s) = Inr s"
| "req_str (ReqBytes b) = str_data b"

text \<open>\<open>bin_data\<close>: a surrogate cannot be encoded.\<close>

fun bin_data :: "request \<Rightarrow> bytes result" where
  "bin_data (ReqStr s) = (case utf8_encode s of None \<Rightarrow> Inl UnicodeDecodeError | Some b \<Rightarrow> Inr b)"
| "bin_data (ReqBytes b) = Inr b"

text \<open>
  \<open>send\<close>, over the method \<open>_send\<close> of the subclass. With the chunked framing the header counts the
  elements of the argument, and the data is its text.
\<close>

definition send ::
  "(request \<Rightarrow> transport \<Rightarrow> transport result) \<Rightarrow> request \<Rightarrow> transport \<Rightarrow> transport result" where
  "send send_raw request t =
     (if tr_framing t = FRAMING_1_1 then
        rbind (req_str request) (\<lambda>s.
          send_raw (ReqStr (u (CHR 0x0A # ''#'' @ nat_str (req_len request) @ [CHR 0x0A]) @ s)) t)
      else send_raw request t)"

definition send_msg ::
  "(request \<Rightarrow> transport \<Rightarrow> transport result) \<Rightarrow> (transport \<Rightarrow> transport result) \<Rightarrow>
     request \<Rightarrow> transport \<Rightarrow> transport result" where
  "send_msg send_raw send_eom request t = rbind (send send_raw request t) send_eom"

subsection \<open>TCP\<close>

text \<open>
  \<open>sock.send\<close> returns after handing over some of the bytes; \<open>accept\<close> is how many of a buffer the
  socket takes. The rest of the buffer is not sent again.
\<close>

definition tcp_send :: "(bytes \<Rightarrow> nat) \<Rightarrow> request \<Rightarrow> transport \<Rightarrow> transport result" where
  "tcp_send accept buf t =
     rbind (bin_data buf) (\<lambda>b. Inr (t\<lparr>tr_out := tr_out t @ take (accept b) b\<rparr>))"

definition tcp_send_eom :: "(bytes \<Rightarrow> nat) \<Rightarrow> transport \<Rightarrow> transport result" where
  "tcp_send_eom accept t = tcp_send accept (ReqBytes (get_eom t)) t"

subsection \<open>SSH\<close>

text \<open>
  \<open>chan.sendall\<close> hands over the whole buffer, text encoded. What is not yet sent is held in
  \<open>saved\<close> and goes out in pieces of \<open>BUFSIZ\<close>; text and bytes cannot be concatenated.
\<close>

definition chan_sendall :: "request \<Rightarrow> transport \<Rightarrow> transport result" where
  "chan_sendall r t = rbind (bin_data r) (\<lambda>b. Inr (t\<lparr>tr_out := tr_out t @ b\<rparr>))"

fun req_append :: "request \<Rightarrow> request \<Rightarrow> request result" where
  "req_append (ReqStr a) (ReqStr b) = Inr (ReqStr (a @ b))"
| "req_append (ReqBytes a) (ReqBytes b) = Inr (ReqBytes (a @ b))"
| "req_append _ _ = Inl TypeError"

fun req_take :: "nat \<Rightarrow> request \<Rightarrow> request" where
  "req_take n (ReqStr s) = ReqStr (take n s)"
| "req_take n (ReqBytes b) = ReqBytes (take n b)"

fun req_drop :: "nat \<Rightarrow> request \<Rightarrow> request" where
  "req_drop n (ReqStr s) = ReqStr (drop n s)"
| "req_drop n (ReqBytes b) = ReqBytes (drop n b)"

definition ssh_send :: "request \<Rightarrow> transport \<Rightarrow> transport result" where
  "ssh_send r t =
     rbind (if req_len (tr_saved t) > 0 then req_append (tr_saved t) r else Inr r) (\<lambda>buf.
       if req_len buf < BUFSIZ then Inr (t\<lparr>tr_saved := buf\<rparr>)
       else rbind (chan_sendall (req_take BUFSIZ buf) t) (\<lambda>t1.
              Inr (t1\<lparr>tr_saved := req_drop BUFSIZ buf\<rparr>)))"

definition ssh_send_eom :: "transport \<Rightarrow> transport result" where
  "ssh_send_eom t =
     rbind (req_append (tr_saved t) (ReqStr (u (get_eom t)))) (\<lambda>buf.
     rbind (chan_sendall buf t) (\<lambda>t1. Inr (t1\<lparr>tr_saved := ReqStr []\<rparr>)))"

definition ssh_flush :: "transport \<Rightarrow> transport result" where
  "ssh_flush t = rbind (chan_sendall (tr_saved t) t) (\<lambda>t1. Inr (t1\<lparr>tr_saved := ReqStr []\<rparr>))"

section \<open>Reassembly\<close>

text \<open>The end of the stream is the only empty segment, so no segment that waits is empty.\<close>

definition live :: "bytes list \<Rightarrow> bool" where
  "live segs \<longleftrightarrow> (\<forall>x \<in> set segs. x \<noteq> [])"

lemma live_simps [simp]: "live []" "live (x # xs) \<longleftrightarrow> x \<noteq> [] \<and> live xs"
  by (auto simp: live_def)

lemma recv_more_live:
  "live segs \<Longrightarrow> n \<le> length (b @ concat segs) \<Longrightarrow>
     \<exists>b' segs'. recv_more n b segs = (True, b', segs') \<and> n \<le> length b' \<and> live segs' \<and>
       b' @ concat segs' = b @ concat segs"
proof (induction segs arbitrary: b)
  case (Cons x xs)
  then show ?case using Cons.IH [of "b @ x"] by auto
qed simp

subsection \<open>Framing 1.0\<close>

text \<open>The first end marker of the stream is the one behind the message.\<close>

definition ends_first :: "bytes \<Rightarrow> bool" where
  "ends_first m \<longleftrightarrow> py_find (m @ EOM_1_0) EOM_1_0 = Some (length m)"

lemma py_find_drop: "py_find s p = Some i \<Longrightarrow> k \<le> i \<Longrightarrow> py_find (drop k s) p = Some (i - k)"
  by (auto simp: py_find_Some add.commute)

lemma ends_first_drop: "ends_first m \<Longrightarrow> k \<le> length m \<Longrightarrow> ends_first (drop k m)"
  using py_find_drop [of "m @ EOM_1_0" EOM_1_0 "length m" k] by (simp add: ends_first_def)

lemma EOM_1_0_length [simp]: "length EOM_1_0 = 6"
  by (simp add: EOM_1_0_def)

lemma find_in_prefix:
  assumes "ends_first m" and "b @ c = m @ EOM_1_0 @ rest"
  shows "py_find b EOM_1_0 = (if length m + 6 \<le> length b then Some (length m) else None)"
proof (cases "length m + 6 \<le> length b")
  case True
  then have "take (length m + 6) b = m @ EOM_1_0"
    using arg_cong [OF assms(2), of "take (length m + 6)"] by simp
  then obtain r where "b = (m @ EOM_1_0) @ r" by (metis append_take_drop_id)
  then show ?thesis
    using True assms(1) py_find_append_Some [of "m @ EOM_1_0" EOM_1_0 "length m" r]
    by (simp add: ends_first_def)
next
  case False
  have "py_find b EOM_1_0 \<noteq> Some i" for i
  proof
    assume i: "py_find b EOM_1_0 = Some i"
    then have "i + 6 \<le> length b" using py_find_bound by fastforce
    then have "py_find (b @ c) EOM_1_0 = Some i" using py_find_append_Some [OF i] by simp
    moreover have "py_find ((m @ EOM_1_0) @ rest) EOM_1_0 = Some (length m)"
      by (rule py_find_append_Some) (use assms(1) in \<open>simp_all add: ends_first_def\<close>)
    ultimately show False using assms(2) False \<open>i + 6 \<le> length b\<close> by simp
  qed
  with False show ?thesis by (cases "py_find b EOM_1_0") auto
qed

text \<open>One chunk: a part of the message, or the rest of it together with the end marker.\<close>

lemma chunk_1_0:
  assumes "\<not> tr_eom_found t" and "live (tr_in t)" and "stream t = m @ EOM_1_0 @ rest" and "ends_first m"
  obtains (part) b segs k where "0 < k" "k \<le> length m"
      "recv_chunk_bytes_framing_1_0 t = (t\<lparr>tr_buf_bytes := b, tr_in := segs\<rparr>, (1, take k m))"
      "live segs" "b @ concat segs = drop k m @ EOM_1_0 @ rest"
  | (all) b segs where
      "recv_chunk_bytes_framing_1_0 t = (t\<lparr>tr_buf_bytes := b, tr_in := segs, tr_eom_found := True\<rparr>, (1, m))"
      "live segs" "b @ concat segs = rest"
proof -
  have "6 \<le> length (tr_buf_bytes t @ concat (tr_in t))"
    using arg_cong [OF assms(3), of length] by (simp add: stream_def)
  with recv_more_live [OF assms(2)] obtain b segs where
      r: "recv_more 6 (tr_buf_bytes t) (tr_in t) = (True, b, segs)" and six: "6 \<le> length b"
      and segs: "live segs" and st: "b @ concat segs = m @ EOM_1_0 @ rest"
    using assms(3) by (metis stream_def)
  note f = find_in_prefix [OF assms(4) st]
  show ?thesis
  proof (cases "length m + 6 \<le> length b")
    case True
    then have "take (length m) b = m" and "drop (length m + 6) b @ concat segs = rest"
      using arg_cong [OF st, of "take (length m)"] arg_cong [OF st, of "drop (length m + 6)"] by simp_all
    with True all [where b = "drop (length m + 6) b" and segs = segs] show ?thesis
      using assms(1) r f segs by (simp add: recv_chunk_bytes_framing_1_0_def)
  next
    case False
    let ?k = "length b - 5"
    have k: "0 < ?k" "?k \<le> length m" "?k \<le> length b" using False six by simp_all
    then have "take ?k b = take ?k m" and "drop ?k b @ concat segs = drop ?k m @ EOM_1_0 @ rest"
      using arg_cong [OF st, of "take ?k"] arg_cong [OF st, of "drop ?k"] by simp_all
    with False k part [where k = ?k and b = "drop ?k b" and segs = segs] show ?thesis
      using assms(1) r f segs by (simp add: recv_chunk_bytes_framing_1_0_def)
  qed
qed

lemma str_data_ascii: "ascii b \<Longrightarrow> str_data b = Inr (u b)"
  by (simp add: str_data_def utf8_decode_ascii)

lemma ascii_take_drop: "ascii m \<Longrightarrow> ascii (take k m) \<and> ascii (drop k m)"
  by (auto simp: ascii_def dest: in_set_takeD in_set_dropD)

lemma recv_msg_loop_1_0:
  assumes "tr_framing t = FRAMING_1_0" and "\<not> tr_eom_found t" and "live (tr_in t)"
    and "stream t = m @ EOM_1_0 @ rest" and "ends_first m" and "ascii m"
  shows "\<exists>t'. recv_msg_loop acc t = (t', Inr (acc @ u m)) \<and> stream t' = rest \<and> live (tr_in t') \<and>
     \<not> tr_eom_found t' \<and> tr_framing t' = FRAMING_1_0"
  using assms
proof (induction m arbitrary: t acc rule: length_induct)
  case (1 m)
  note p = "1.prems"
  from p(2-5) show ?case
  proof (cases rule: chunk_1_0)
    case (part b segs k)
    let ?t = "t\<lparr>tr_buf_bytes := b, tr_in := segs\<rparr>"
    have "recv_chunk t = (?t, Inr (1, u (take k m)))"
      using part p(1,6) ascii_take_drop [of m k] by (simp add: recv_chunk_def recv_chunk_bytes_def str_data_ascii)
    then have loop: "recv_msg_loop acc t = recv_msg_loop (acc @ u (take k m)) ?t"
      by (simp add: recv_msg_loop.simps [of acc t])
    have "\<exists>t'. recv_msg_loop (acc @ u (take k m)) ?t = (t', Inr ((acc @ u (take k m)) @ u (drop k m))) \<and>
        stream t' = rest \<and> live (tr_in t') \<and> \<not> tr_eom_found t' \<and> tr_framing t' = FRAMING_1_0"
      by (rule "1.IH" [rule_format])
        (use part p ascii_take_drop [of m k] ends_first_drop [of m k] in \<open>simp_all add: stream_def\<close>)
    moreover have "u (take k m) @ u (drop k m) = u m" by (simp flip: u_simps(3))
    ultimately show ?thesis using loop by auto
  next
    case (all b segs)
    let ?t = "t\<lparr>tr_buf_bytes := b, tr_in := segs, tr_eom_found := True\<rparr>"
    have "recv_chunk t = (?t, Inr (1, u m))"
      using all p(1,6) by (simp add: recv_chunk_def recv_chunk_bytes_def str_data_ascii)
    moreover have "recv_chunk ?t = (?t\<lparr>tr_eom_found := False\<rparr>, Inr (0, []))"
      using p(1) by (simp add: recv_chunk_def recv_chunk_bytes_def recv_chunk_bytes_framing_1_0_def
          str_data_ascii)
    ultimately have "recv_msg_loop acc t = (?t\<lparr>tr_eom_found := False\<rparr>, Inr (acc @ u m))"
      by (simp add: recv_msg_loop.simps [of acc t] recv_msg_loop.simps [of _ ?t])
    with all p(1) show ?thesis by (auto simp: stream_def)
  qed
qed

text \<open>
  C4. Reading a message with the end-of-message framing: however the network splits the stream,
  also inside the end marker, \<open>recv_msg\<close> returns exactly the ASCII text before the first marker
  and leaves the stream right behind the marker.
\<close>

theorem recv_msg_framing_1_0:
  assumes "tr_framing t = FRAMING_1_0" and "\<not> tr_eom_found t" and "live (tr_in t)"
    and "stream t = m @ EOM_1_0 @ rest" and "ends_first m" and "ascii m"
  shows "\<exists>t'. recv_msg t = (t', Inr (u m)) \<and> stream t' = rest \<and> live (tr_in t') \<and>
     \<not> tr_eom_found t' \<and> tr_framing t' = FRAMING_1_0"
  using recv_msg_loop_1_0 [OF assms, of "[]"] by (simp add: recv_msg_def)

lemma recv_msg_framing_1_0_witness:
  "\<exists>t'. recv_msg (transport_init [''<ok/>]]'', ''>'', '']]>next'']) = (t', Inr (u ''<ok/>'')) \<and>
     stream t' = ''next''"
proof -
  have first: "ends_first ''<ok/>''" by (simp add: ends_first_def EOM_1_0_def)
  have "stream (transport_init [''<ok/>]]'', ''>'', '']]>next'']) = ''<ok/>'' @ EOM_1_0 @ ''next''"
    by (simp add: stream_def transport_init_def EOM_1_0_def)
  from recv_msg_framing_1_0 [OF _ _ _ this first] show ?thesis
    by (auto simp: transport_init_def)
qed

subsection \<open>Framing 1.1\<close>

text \<open>The chunks as RFC 6242 has them: the size counts octets.\<close>

definition chunk_frame :: "bytes \<Rightarrow> bytes" where
  "chunk_frame c = CHR 0x0A # CHR ''#'' # nat_str (length c) @ CHR 0x0A # c"

definition chunk_ok :: "bytes \<Rightarrow> bool" where
  "chunk_ok c \<longleftrightarrow> c \<noteq> [] \<and> int (length c) \<le> MAX_UINT32"

lemma find_char: "x \<notin> set f \<Longrightarrow> py_find (f @ x # r) [x] = Some (length f)"
  by (induction f) auto

lemma find_char_prefix:
  assumes "x \<notin> set f" and "b @ c = f @ x # r" and "py_find b [x] = Some i"
  shows "i = length f"
proof -
  have "py_find (b @ c) [x] = Some i"
    by (rule py_find_append_Some [OF assms(3)]) (use py_find_bound [OF assms(3)] in simp)
  with assms(2) find_char [OF assms(1), of r] show ?thesis by simp
qed

text \<open>The header loop stops with the whole field in its buffer.\<close>

lemma read_header_reaches:
  assumes "live segs" and "2 \<le> length b" and "CHR 0x0A \<notin> set f"
    and "drop 2 b @ concat segs = f @ CHR 0x0A # r"
  shows "\<exists>b' segs'. read_header b segs = read_header b' segs' \<and> live segs' \<and> 2 \<le> length b' \<and>
     py_find (drop 2 b') [CHR 0x0A] = Some (length f) \<and> take (length f) (drop 2 b') = f \<and>
     drop (length f + 3) b' @ concat segs' = r"
  using assms(1,2,4)
proof (induction segs arbitrary: b)
  case Nil
  then have d: "drop 2 b = f @ CHR 0x0A # r" by simp
  have "drop (length f + 3) b = drop (length f + 1) (drop 2 b)" by (simp add: numeral_3_eq_3)
  with d Nil find_char [OF assms(3), of r] show ?case by (intro exI [of _ b] exI [of _ "[]"]) simp
next
  case (Cons x segs)
  show ?case
  proof (cases "py_find (drop 2 b) [CHR 0x0A]")
    case None
    with Cons.prems have "read_header b (x # segs) = read_header (b @ x) segs"
      by (simp add: read_header.simps [of b])
    moreover have "drop 2 (b @ x) @ concat segs = f @ CHR 0x0A # r" "2 \<le> length (b @ x)"
      using Cons.prems by simp_all
    ultimately show ?thesis using Cons.IH [of "b @ x"] Cons.prems(1) by simp
  next
    case (Some i)
    have i: "i = length f" using find_char_prefix [OF assms(3) Cons.prems(3) Some] .
    have "length f + 1 \<le> length (drop 2 b)" using py_find_bound [OF Some] i by simp
    then have "take (length f) (drop 2 b) = f" and "drop (length f + 1) (drop 2 b) @ concat (x # segs) = r"
      using arg_cong [OF Cons.prems(3), of "take (length f)"]
        arg_cong [OF Cons.prems(3), of "drop (length f + 1)"] by simp_all
    moreover have "drop (length f + 3) b = drop (length f + 1) (drop 2 b)" by (simp add: numeral_3_eq_3)
    ultimately show ?thesis using Some i Cons.prems by (intro exI [of _ b] exI [of _ "x # segs"]) simp
  qed
qed

lemma size_field_short:
  assumes "int n \<le> MAX_UINT32"
  shows "length (nat_str n) \<le> 10"
proof -
  have "n < 10 ^ 10" using assms by (simp add: MAX_UINT32_def)
  then show ?thesis using nat_str_length [of 10 n] by simp
qed

lemma nat_str_newline: "CHR 0x0A \<notin> set (nat_str n)"
  using nat_str_digits [of n] by (auto simp: is_digit_def)

text \<open>The bytes that \<open>recv_chunk_bytes_framing_1_1\<close> starts from.\<close>

lemma start_1_1:
  assumes "live (tr_in t)" and "stream t = CHR 0x0A # CHR ''#'' # f @ CHR 0x0A # r"
    and "f \<noteq> []" and "CHR 0x0A \<notin> set f"
  obtains b segs b' segs' where
      "recv_more 4 (tr_buf_bytes t) (tr_in t) = (True, b, segs)" "take 2 b = [CHR 0x0A, CHR ''#'']"
      "read_header b segs = read_header b' segs'" "live segs'"
      "py_find (drop 2 b') [CHR 0x0A] = Some (length f)" "take (length f) (drop 2 b') = f"
      "drop (length f + 3) b' @ concat segs' = r"
proof -
  have "4 \<le> length (stream t)" using assms(2,3) by (cases f) auto
  then obtain b segs where m: "recv_more 4 (tr_buf_bytes t) (tr_in t) = (True, b, segs)"
    and four: "4 \<le> length b" and live: "live segs" and st: "b @ concat segs = stream t"
    using recv_more_live [OF assms(1), of 4 "tr_buf_bytes t"] by (auto simp: stream_def)
  have "take 2 b = [CHR 0x0A, CHR ''#'']" and d: "drop 2 b @ concat segs = f @ CHR 0x0A # r"
    using arg_cong [OF st, of "take 2"] arg_cong [OF st, of "drop 2"] four assms(2)
    by (simp_all add: numeral_2_eq_2)
  moreover have "2 \<le> length b" using four by simp
  ultimately show ?thesis
    using read_header_reaches [OF live _ assms(4) d] m that by metis
qed

lemma chunk_1_1:
  assumes "live (tr_in t)" and "stream t = chunk_frame c @ r" and "chunk_ok c"
  shows "\<exists>b segs. recv_chunk_bytes_framing_1_1 t = (t\<lparr>tr_buf_bytes := b, tr_in := segs\<rparr>, (1, c)) \<and>
     live segs \<and> b @ concat segs = r"
proof -
  let ?f = "nat_str (length c)"
  have len: "length ?f \<le> 10" and n1: "1 \<le> length c" "int (length c) \<le> MAX_UINT32"
    using assms(3) size_field_short by (auto simp: chunk_ok_def Suc_le_eq)
  from assms(2) have st: "stream t = CHR 0x0A # CHR ''#'' # ?f @ CHR 0x0A # c @ r"
    by (simp add: chunk_frame_def)
  obtain b segs b' segs' where m: "recv_more 4 (tr_buf_bytes t) (tr_in t) = (True, b, segs)"
    and two: "take 2 b = [CHR 0x0A, CHR ''#'']" and h: "read_header b segs = read_header b' segs'"
    and live: "live segs'" and f: "py_find (drop 2 b') [CHR 0x0A] = Some (length ?f)"
      "take (length ?f) (drop 2 b') = ?f" and d: "drop (length ?f + 3) b' @ concat segs' = c @ r"
    by (rule start_1_1 [OF assms(1) st nat_str_not_Nil nat_str_newline])
  have "read_header b' segs' = HdrSize (length c) (drop (length ?f + 3) b') segs'"
    using f len n1 by (auto simp: read_header.simps [of b'] Let_def numeral_3_eq_3)
  moreover obtain e ss where "recv_more (length c) (drop (length ?f + 3) b') segs' = (True, e, ss)"
    and el: "length c \<le> length e" and "live ss" and e: "e @ concat ss = c @ r"
    using recv_more_live [OF live, of "length c" "drop (length ?f + 3) b'"] d by auto
  moreover have "take (length c) e = c" and "drop (length c) e @ concat ss = r"
    using arg_cong [OF e, of "take (length c)"] arg_cong [OF e, of "drop (length c)"] el by simp_all
  ultimately show ?thesis
    using m two h by (auto simp: recv_chunk_bytes_framing_1_1_def)
qed

lemma eom_1_1:
  assumes "live (tr_in t)" and "stream t = EOM_1_1 @ r"
  shows "\<exists>b segs. recv_chunk_bytes_framing_1_1 t = (t\<lparr>tr_buf_bytes := b, tr_in := segs\<rparr>, (0, [])) \<and>
     live segs \<and> b @ concat segs = r"
proof -
  from assms(2) have st: "stream t = CHR 0x0A # CHR ''#'' # ''#'' @ CHR 0x0A # r"
    by (simp add: EOM_1_1_def)
  have hash: "''#'' \<noteq> []" "CHR 0x0A \<notin> set ''#''" by simp_all
  obtain b segs b' segs' where m: "recv_more 4 (tr_buf_bytes t) (tr_in t) = (True, b, segs)"
    and two: "take 2 b = [CHR 0x0A, CHR ''#'']" and h: "read_header b segs = read_header b' segs'"
    and live: "live segs'" and f: "py_find (drop 2 b') [CHR 0x0A] = Some (length ''#'')"
      "take (length ''#'') (drop 2 b') = ''#''" and d: "drop (length ''#'' + 3) b' @ concat segs' = r"
    by (rule start_1_1 [OF assms(1) st hash])
  have "read_header b' segs' = HdrEom (drop 4 b') segs'"
    using f py_int_hash by (simp add: read_header.simps [of b'] Let_def eval_nat_numeral)
  with m two h live d show ?thesis
    by (auto simp: recv_chunk_bytes_framing_1_1_def)
qed

lemma recv_chunks:
  assumes "tr_framing t = FRAMING_1_1" and "live (tr_in t)"
    and "stream t = concat (map chunk_frame cs) @ EOM_1_1 @ rest"
    and "list_all chunk_ok cs" and "map utf8_decode cs = map Some ss"
  shows "\<exists>t'. recv_msg_loop acc t = (t', Inr (acc @ concat ss)) \<and> stream t' = rest \<and>
      live (tr_in t') \<and> tr_framing t' = FRAMING_1_1"
  using assms
proof (induction cs arbitrary: t ss acc)
  case Nil
  then have "stream t = EOM_1_1 @ rest" by simp
  with eom_1_1 [OF Nil.prems(2)] obtain b segs where
    "recv_chunk_bytes_framing_1_1 t = (t\<lparr>tr_buf_bytes := b, tr_in := segs\<rparr>, (0, []))"
    "live segs" "b @ concat segs = rest" by blast
  with Nil.prems(1,5) show ?case
    by (simp add: recv_msg_loop.simps [of acc t] recv_chunk_def recv_chunk_bytes_def str_data_ascii
        stream_def)
next
  case (Cons c cs)
  from Cons.prems(5) obtain s ss' where s: "utf8_decode c = Some s" "ss = s # ss'"
    "map utf8_decode cs = map Some ss'" by (cases ss) auto
  let ?r = "concat (map chunk_frame cs) @ EOM_1_1 @ rest"
  from Cons.prems(3,4) have "stream t = chunk_frame c @ ?r" "chunk_ok c" by simp_all
  with chunk_1_1 [OF Cons.prems(2)] obtain b segs where
    ch: "recv_chunk_bytes_framing_1_1 t = (t\<lparr>tr_buf_bytes := b, tr_in := segs\<rparr>, (1, c))"
    and st: "live segs" "b @ concat segs = ?r" by blast
  let ?t = "t\<lparr>tr_buf_bytes := b, tr_in := segs\<rparr>"
  have "recv_msg_loop acc t = recv_msg_loop (acc @ s) ?t"
    using ch s(1) Cons.prems(1)
    by (simp add: recv_msg_loop.simps [of acc t] recv_chunk_def recv_chunk_bytes_def str_data_def)
  moreover have "\<exists>t'. recv_msg_loop (acc @ s) ?t = (t', Inr ((acc @ s) @ concat ss')) \<and>
      stream t' = rest \<and> live (tr_in t') \<and> tr_framing t' = FRAMING_1_1"
    by (rule Cons.IH) (use Cons.prems st s in \<open>simp_all add: stream_def\<close>)
  ultimately show ?case using s(2) by auto
qed

text \<open>
  C3. Reading a message with the chunked framing: for a stream of RFC 6242 chunks, each of a size from
  1 to 4294967295 and each the encoding of some text, and for any split of the stream into
  segments, \<open>recv_msg\<close> returns the concatenated texts and leaves the stream right behind the end
  of the message.
\<close>

theorem recv_msg_framing_1_1:
  assumes "tr_framing t = FRAMING_1_1" and "live (tr_in t)"
    and "stream t = concat (map chunk_frame cs) @ EOM_1_1 @ rest"
    and "list_all chunk_ok cs" and "map utf8_decode cs = map Some ss"
  shows "\<exists>t'. recv_msg t = (t', Inr (concat ss)) \<and> stream t' = rest \<and> live (tr_in t') \<and>
     tr_framing t' = FRAMING_1_1"
  using recv_chunks [OF assms, of "[]"] by (simp add: recv_msg_def)

lemma recv_msg_framing_1_1_witness:
  "\<exists>t'. recv_msg ((transport_init [[CHR 0x0A], ''#3'', [CHR 0x0A, CHR ''a''], ''bc'' @ [CHR 0x0A] @ ''#'',
       ''#'' @ [CHR 0x0A]])\<lparr>tr_framing := FRAMING_1_1\<rparr>) = (t', Inr (u ''abc'')) \<and> stream t' = []"
proof -
  let ?t = "(transport_init [[CHR 0x0A], ''#3'', [CHR 0x0A, CHR ''a''], ''bc'' @ [CHR 0x0A] @ ''#'',
       ''#'' @ [CHR 0x0A]])\<lparr>tr_framing := FRAMING_1_1\<rparr>"
  have st: "stream ?t = concat (map chunk_frame [''abc'']) @ EOM_1_1 @ []"
    by code_simp
  have live: "live (tr_in ?t)" by (simp add: transport_init_def)
  have ok: "list_all chunk_ok [''abc'']" by (simp add: chunk_ok_def MAX_UINT32_def)
  have dec: "map utf8_decode [''abc''] = map Some [u ''abc'']"
    using utf8_decode_ascii [of "''abc''"] by simp
  from recv_msg_framing_1_1 [OF _ live st ok dec] show ?thesis by auto
qed

text \<open>
  A character of several octets can be lost in the end-of-message framing: the same octets are
  read well in one segment, and with a segment that ends inside the last six octets before
  the split character they raise \<open>UnicodeDecodeError\<close>.
\<close>

theorem recv_msg_splits_character:
  "let m = [CHR 0xC3, CHR 0xA9] @ ''abcd''
   in snd (recv_msg (transport_init [m @ EOM_1_0])) = Inr (0xE9 # u ''abcd'') \<and>
      snd (recv_msg (transport_init [m, EOM_1_0])) = Inl UnicodeDecodeError"
  by code_simp

text \<open>With the trace on, a character that is split between two segments raises even where the message can be read.\<close>

theorem trace_splits_character:
  "let m = ''abcdef'' @ [CHR 0xC3]; e = [CHR 0xA9] @ ''abcdef''
   in snd (recv_msg (transport_init [m, e @ EOM_1_0])) = Inr (u ''abcdef'' @ 0xE9 # u ''abcdef'') \<and>
      snd (transport_recv True (transport_init [m, e @ EOM_1_0])) = Inl UnicodeDecodeError \<and>
      snd (transport_recv False (transport_init [m, e @ EOM_1_0])) = Inr (m, [])"
  by code_simp

section \<open>What sending relies on\<close>

text \<open>
  \<open>written t\<close> is everything the transport has accepted, whether it is on the wire or still held
  back. Sending text appends its encoding, and the end of a message puts everything on the wire.
\<close>

locale framed_sender =
  fixes send_raw :: "request \<Rightarrow> transport \<Rightarrow> transport result"
    and send_eom :: "transport \<Rightarrow> transport result"
    and inv :: "transport \<Rightarrow> bool" and written :: "transport \<Rightarrow> bytes"
  assumes raw_text:
      "inv t \<Longrightarrow> utf8_encode s = Some b \<Longrightarrow>
         \<exists>t'. send_raw (ReqStr s) t = Inr t' \<and> inv t' \<and> written t' = written t @ b \<and>
           tr_framing t' = tr_framing t"
    and eom_flushes:
      "inv t \<Longrightarrow>
         \<exists>t'. send_eom t = Inr t' \<and> inv t' \<and> written t' = written t @ get_eom t \<and>
           tr_out t' = written t' \<and> tr_framing t' = tr_framing t"
begin

lemma send_chunked:
  assumes "inv t" and "tr_framing t = FRAMING_1_1" and "utf8_encode s = Some b"
  shows "\<exists>t'. send send_raw (ReqStr s) t = Inr t' \<and> inv t' \<and> tr_framing t' = tr_framing t \<and>
     written t' = written t @ CHR 0x0A # CHR ''#'' # nat_str (length s) @ CHR 0x0A # b"
proof -
  have "ascii (nat_str (length s))"
    using nat_str_digits [of "length s"] by (auto simp: ascii_def is_digit_def)
  then have "utf8_encode (u (CHR 0x0A # ''#'' @ nat_str (length s) @ [CHR 0x0A])) =
      Some (CHR 0x0A # ''#'' @ nat_str (length s) @ [CHR 0x0A])"
    by (intro utf8_encode_ascii) simp
  from utf8_encode_append [OF this assms(3)] raw_text [OF assms(1)] assms(2) show ?thesis
    by (fastforce simp: send_def)
qed

lemma send_msg_1_1:
  assumes "inv t" and "tr_framing t = FRAMING_1_1" and "ascii m"
  shows "\<exists>t'. send_msg send_raw send_eom (ReqStr (u m)) t = Inr t' \<and> tr_framing t' = tr_framing t \<and>
     tr_out t' = written t @ chunk_frame m @ EOM_1_1"
proof -
  obtain t1 where t1: "send send_raw (ReqStr (u m)) t = Inr t1" "inv t1" "tr_framing t1 = tr_framing t"
    "written t1 = written t @ chunk_frame m"
    using send_chunked [OF assms(1,2) utf8_encode_ascii [OF assms(3)]] by (auto simp: chunk_frame_def)
  with eom_flushes [of t1] assms(2) show ?thesis by (auto simp: send_msg_def get_eom_def)
qed

lemma send_msg_1_0:
  assumes "inv t" and "tr_framing t = FRAMING_1_0" and "ascii m"
  shows "\<exists>t'. send_msg send_raw send_eom (ReqStr (u m)) t = Inr t' \<and> tr_framing t' = tr_framing t \<and>
     tr_out t' = written t @ m @ EOM_1_0"
proof -
  obtain t1 where t1: "send send_raw (ReqStr (u m)) t = Inr t1" "inv t1" "tr_framing t1 = tr_framing t"
    "written t1 = written t @ m"
    using raw_text [OF assms(1) utf8_encode_ascii [OF assms(3)]] assms(2) by (auto simp: send_def)
  with eom_flushes [of t1] assms(2) show ?thesis by (auto simp: send_msg_def get_eom_def)
qed

end

text \<open>A socket that takes every buffer whole.\<close>

interpretation tcp: framed_sender "tcp_send length" "tcp_send_eom length" "\<lambda>t. True" tr_out
  by unfold_locales (auto simp: tcp_send_def tcp_send_eom_def get_eom_def)

text \<open>The SSH transport, with the text it holds back.\<close>

definition encoded :: "ustr \<Rightarrow> bytes" where
  "encoded s = map char_of (concat (map utf8_char s))"

lemma encoded_append: "encoded (s @ t) = encoded s @ encoded t"
  by (simp add: encoded_def)

lemma encoded_Nil [simp]: "encoded [] = []"
  by (simp add: encoded_def)

fun saved_text :: "request \<Rightarrow> ustr" where
  "saved_text (ReqStr s) = s"
| "saved_text (ReqBytes b) = []"

definition ssh_written :: "transport \<Rightarrow> bytes" where
  "ssh_written t = tr_out t @ encoded (saved_text (tr_saved t))"

definition ssh_inv :: "transport \<Rightarrow> bool" where
  "ssh_inv t \<longleftrightarrow> (\<exists>s. tr_saved t = ReqStr s \<and> list_all scalar s)"

lemma chan_sendall_scalar:
  "list_all scalar s \<Longrightarrow> chan_sendall (ReqStr s) t = Inr (t\<lparr>tr_out := tr_out t @ encoded s\<rparr>)"
  by (simp add: chan_sendall_def utf8_encode_def encoded_def)

lemma list_all_take_drop: "list_all P xs \<Longrightarrow> list_all P (take n xs) \<and> list_all P (drop n xs)"
  by (auto simp: list_all_iff dest: in_set_takeD in_set_dropD)

lemma ssh_raw_text:
  assumes "ssh_inv t" and "utf8_encode s = Some b"
  shows "\<exists>t'. ssh_send (ReqStr s) t = Inr t' \<and> ssh_inv t' \<and> ssh_written t' = ssh_written t @ b \<and>
     tr_framing t' = tr_framing t"
proof -
  from assms obtain v where v: "tr_saved t = ReqStr v" "list_all scalar v"
    and sc: "list_all scalar s" and b: "b = encoded s"
    by (auto simp: ssh_inv_def utf8_encode_def encoded_def split: if_splits)
  let ?buf = "v @ s"
  have buf: "(if req_len (tr_saved t) > 0 then req_append (tr_saved t) (ReqStr s) else Inr (ReqStr s)) =
      Inr (ReqStr ?buf)" using v by simp
  have all: "list_all scalar ?buf" using v sc by simp
  show ?thesis
  proof (cases "length ?buf < BUFSIZ")
    case True
    then have "ssh_send (ReqStr s) t = Inr (t\<lparr>tr_saved := ReqStr ?buf\<rparr>)"
      unfolding ssh_send_def buf by simp
    with v sc b show ?thesis by (simp add: ssh_inv_def ssh_written_def encoded_append)
  next
    case False
    let ?t1 = "t\<lparr>tr_out := tr_out t @ encoded (take BUFSIZ ?buf), tr_saved := ReqStr (drop BUFSIZ ?buf)\<rparr>"
    have "ssh_send (ReqStr s) t = Inr ?t1"
      unfolding ssh_send_def buf
      using False chan_sendall_scalar [of "take BUFSIZ ?buf" t] list_all_take_drop [OF all, of BUFSIZ] by simp
    moreover have "ssh_inv ?t1"
      using list_all_take_drop [OF all, of BUFSIZ] by (simp add: ssh_inv_def)
    moreover have "encoded (take BUFSIZ ?buf) @ encoded (drop BUFSIZ ?buf) = encoded v @ encoded s"
      by (metis append_take_drop_id encoded_append)
    ultimately show ?thesis using v b by (simp add: ssh_written_def)
  qed
qed

interpretation ssh: framed_sender ssh_send ssh_send_eom ssh_inv ssh_written
proof unfold_locales
  show "\<exists>t'. ssh_send (ReqStr s) t = Inr t' \<and> ssh_inv t' \<and> ssh_written t' = ssh_written t @ b \<and>
     tr_framing t' = tr_framing t" if "ssh_inv t" "utf8_encode s = Some b" for t s b
    using ssh_raw_text [OF that] .
  show "\<exists>t'. ssh_send_eom t = Inr t' \<and> ssh_inv t' \<and> ssh_written t' = ssh_written t @ get_eom t \<and>
     tr_out t' = ssh_written t' \<and> tr_framing t' = tr_framing t" if "ssh_inv t" for t
  proof -
    have "ascii (get_eom t)" by (simp add: get_eom_def EOM_1_0_def EOM_1_1_def)
    from utf8_encode_ascii [OF this] have "list_all scalar (u (get_eom t))"
      and "encoded (u (get_eom t)) = get_eom t"
      by (auto simp: utf8_encode_def encoded_def split: if_splits)
    with that show ?thesis
      by (auto simp: ssh_send_eom_def chan_sendall_scalar ssh_inv_def ssh_written_def encoded_append)
  qed
qed

section \<open>Properties of sending\<close>

text \<open>The two subclasses: their \<open>_send\<close> and \<open>_send_eom\<close>, and what they have accepted.\<close>

datatype sender = SSH | TCP

fun sender_send :: "sender \<Rightarrow> request \<Rightarrow> transport \<Rightarrow> transport result" where
  "sender_send SSH = ssh_send"
| "sender_send TCP = tcp_send length"

fun sender_send_eom :: "sender \<Rightarrow> transport \<Rightarrow> transport result" where
  "sender_send_eom SSH = ssh_send_eom"
| "sender_send_eom TCP = tcp_send_eom length"

text \<open>
  C5. From client to server: a message that is sent whole, over SSH with its buffer or over a TCP
  socket that takes every buffer, is read back by a peer with the same framing exactly as it was sent,
  however the network splits the octets. The message is ASCII text; it is not empty and at
  most 4294967295 characters with the chunked framing, and holds no end marker with the other.
\<close>

theorem netconf_send_recv:
  assumes "tr_saved c = ReqStr []" and "ascii m"
    and "tr_framing c = FRAMING_1_0 \<and> ends_first m \<or> tr_framing c = FRAMING_1_1 \<and> chunk_ok m"
    and "send_msg (sender_send k) (sender_send_eom k) (ReqStr (u m)) c = Inr c'"
    and "live segs" and "concat segs = drop (length (tr_out c)) (tr_out c')"
  shows "\<exists>t'. recv_msg ((transport_init segs)\<lparr>tr_framing := tr_framing c\<rparr>) = (t', Inr (u m)) \<and> stream t' = []"
proof -
  let ?p = "(transport_init segs)\<lparr>tr_framing := tr_framing c\<rparr>"
  have inv: "ssh_inv c" and w: "ssh_written c = tr_out c"
    using assms(1) by (simp_all add: ssh_inv_def ssh_written_def)
  have st: "stream ?p = concat segs" by (simp add: stream_def transport_init_def)
  from assms(3) show ?thesis
  proof (elim disjE conjE)
    assume f: "tr_framing c = FRAMING_1_0" and first: "ends_first m"
    have "tr_out c' = tr_out c @ m @ EOM_1_0"
      using ssh.send_msg_1_0 [OF inv f assms(2)] tcp.send_msg_1_0 [OF _ f assms(2)] assms(4) w
      by (cases k) auto
    then have "stream ?p = m @ EOM_1_0 @ []" using st assms(6) by simp
    from recv_msg_loop_1_0 [OF _ _ _ this first assms(2), of "[]"] assms(5) f show ?thesis
      by (auto simp: transport_init_def recv_msg_def)
  next
    assume f: "tr_framing c = FRAMING_1_1" and ok: "chunk_ok m"
    have "tr_out c' = tr_out c @ chunk_frame m @ EOM_1_1"
      using ssh.send_msg_1_1 [OF inv f assms(2)] tcp.send_msg_1_1 [OF _ f assms(2)] assms(4) w
      by (cases k) auto
    then have "stream ?p = concat (map chunk_frame [m]) @ EOM_1_1 @ []" using st assms(6) by simp
    from recv_chunks [OF _ _ this, of "[u m]" "[]"] assms(2,5) f ok show ?thesis
      by (auto simp: transport_init_def recv_msg_def utf8_decode_ascii)
  qed
qed

lemma netconf_send_recv_witness:
  "\<exists>t'. recv_msg ((transport_init [CHR 0x0A # ''#5'', CHR 0x0A # ''<ok/>'', EOM_1_1])\<lparr>tr_framing := FRAMING_1_1\<rparr>) =
     (t', Inr (u ''<ok/>'')) \<and> stream t' = []"
proof -
  let ?c = "(transport_init [])\<lparr>tr_framing := FRAMING_1_1\<rparr>"
  obtain c' where c': "send_msg (sender_send SSH) (sender_send_eom SSH) (ReqStr (u ''<ok/>'')) ?c = Inr c'"
    and "tr_out c' = chunk_frame ''<ok/>'' @ EOM_1_1"
    using ssh.send_msg_1_1 [of ?c "''<ok/>''"] by (auto simp: ssh_inv_def ssh_written_def transport_init_def)
  moreover have "concat [CHR 0x0A # ''#5'', CHR 0x0A # ''<ok/>'', EOM_1_1] = chunk_frame ''<ok/>'' @ EOM_1_1"
    by code_simp
  moreover have "tr_out ?c = []" "tr_saved ?c = ReqStr []" and f: "tr_framing ?c = FRAMING_1_1"
    by (simp_all add: transport_init_def)
  ultimately have eq: "concat [CHR 0x0A # ''#5'', CHR 0x0A # ''<ok/>'', EOM_1_1] =
      drop (length (tr_out ?c)) (tr_out c')" and saved: "tr_saved ?c = ReqStr []"
    by (simp_all only: list.size drop_0)
  have ok: "tr_framing ?c = FRAMING_1_0 \<and> ends_first ''<ok/>'' \<or>
      tr_framing ?c = FRAMING_1_1 \<and> chunk_ok ''<ok/>''"
    by (simp add: chunk_ok_def MAX_UINT32_def)
  have asc: "ascii ''<ok/>''" by simp
  have live: "live [CHR 0x0A # ''#5'', CHR 0x0A # ''<ok/>'', EOM_1_1]" by (simp add: EOM_1_1_def)
  from netconf_send_recv [OF saved asc ok c' live eq] show ?thesis by (simp only: f)
qed

text \<open>
  The chunk size that \<open>send\<close> announces counts characters: for text that is encoded as \<open>b\<close>, the
  header has the number of characters, which is the number of octets that follow exactly when
  the text is ASCII and smaller otherwise.
\<close>

theorem send_chunk_size:
  assumes "tr_framing c = FRAMING_1_1" and "utf8_encode s = Some b"
  shows "\<exists>c'. send (sender_send TCP) (ReqStr s) c = Inr c' \<and>
     tr_out c' = tr_out c @ CHR 0x0A # CHR ''#'' # nat_str (length s) @ CHR 0x0A # b \<and>
     length s \<le> length b \<and> (length s = length b \<longleftrightarrow> (\<forall>x \<in> set s. x < 128))"
  using tcp.send_chunked [OF _ assms] utf8_length [OF assms(2)] by auto

lemma send_chunk_size_witness:
  "\<exists>c'. send (sender_send TCP) (ReqStr [0xE9]) ((transport_init [])\<lparr>tr_framing := FRAMING_1_1\<rparr>) = Inr c' \<and>
     tr_out c' = CHR 0x0A # ''#1'' @ CHR 0x0A # [CHR 0xC3, CHR 0xA9]"
proof -
  have e: "utf8_encode [0xE9] = Some [CHR 0xC3, CHR 0xA9]"
    by (simp add: utf8_encode_def scalar_def utf8_char.simps char_of_eq_iff)
  have n: "nat_str 1 = ''1''" by code_simp
  show ?thesis
    using send_chunk_size [OF _ e, of "(transport_init [])\<lparr>tr_framing := FRAMING_1_1\<rparr>"] n
    by (auto simp: transport_init_def)
qed

end
