(* ===== verification/Netconf_Messages.thy ===== *)
theory Netconf_Messages
  imports Py_Text
begin

text \<open>
  The request messages of \<open>confd-sync-py/app/netconf_console.py\<close>, the callbacks of its option
  parser, the filter for DOM nodes, and the choice of the NETCONF version from the server's hello. The
  templates of the source are concatenations here, with \<open>format\<close> written out.

  A document is a tree of \<open>dom\<close> nodes, as the XML parser of the standard library returns it. The
  scanner \<open>scan\<close> reads a message character by character and keeps the stack of open elements; it
  states which messages are balanced.
\<close>

section \<open>Names\<close>

definition NC_NS :: string where
  "NC_NS = ''urn:ietf:params:xml:ns:netconf:base:1.0''"

definition NMDA_NS :: string where
  "NMDA_NS = ''urn:ietf:params:xml:ns:yang:ietf-netconf-nmda''"

definition NMDA_DS_NS :: string where
  "NMDA_DS_NS = ''urn:ietf:params:xml:ns:yang:ietf-datastores''"

definition BASE_1_0 :: string where
  "BASE_1_0 = ''urn:ietf:params:netconf:base:1.0''"

definition BASE_1_1 :: string where
  "BASE_1_1 = ''urn:ietf:params:netconf:base:1.1''"

definition XML_HEAD :: string where
  "XML_HEAD = ''<?xml version=\"1.0\" encoding=\"UTF-8\"?>\<newline>''"

lemmas name_defs = NC_NS_def NMDA_NS_def NMDA_DS_NS_def BASE_1_0_def BASE_1_1_def XML_HEAD_def

section \<open>Options\<close>

text \<open>The parsed options that the messages and the session read; the default of each string is empty.\<close>

record options =
  o_rpc_attribute :: string
  o_xpath :: string
  o_wdefaults :: string
  o_winactive :: bool
  o_subtree_filter :: string
  o_config_filter :: "string option"
  o_max_depth :: string
  o_db :: string
  o_get :: bool
  o_getConfig :: "string option"
  o_getData :: "string option"
  o_rpc :: string
  o_edit :: string
  o_edit_data :: string
  o_copy :: string
  o_kill_session :: string
  o_discard_changes :: bool
  o_commit :: bool
  o_validate :: bool
  o_copy_running_to_startup :: bool
  o_get_schema :: "string option"
  o_create_subscription :: "string option"
  o_establish_subscription :: "string option"
  o_start_time :: string
  o_stop_time :: string
  o_hello :: bool
  o_interactive :: bool
  o_listen :: bool
  o_proto :: string
  o_style :: string
  o_version :: "string option"
  o_iter :: int

text \<open>
  \<open>get_config_opt\<close> and \<open>get_data_opt\<close>: the value for the option and the remaining arguments.
  \<open>ensure_value\<close> keeps a value that is already there.
\<close>

definition db_opt :: "string option \<Rightarrow> string list \<Rightarrow> string option \<times> string list" where
  "db_opt old rargs =
     (let ensure = (\<lambda>v. Some (case old of None \<Rightarrow> v | Some w \<Rightarrow> w))
      in case rargs of
           [] \<Rightarrow> (ensure ''default'', rargs)
         | a # rest \<Rightarrow> if startswith a ''-'' then (ensure ''default'', rargs) else (ensure a, rest))"

definition get_config_opt :: "string list \<Rightarrow> options \<Rightarrow> options \<times> string list" where
  "get_config_opt rargs opts =
     (let (v, rest) = db_opt (o_getConfig opts) rargs in (opts\<lparr>o_getConfig := v\<rparr>, rest))"

definition get_data_opt :: "string list \<Rightarrow> options \<Rightarrow> options \<times> string list" where
  "get_data_opt rargs opts =
     (let (v, rest) = db_opt (o_getData opts) rargs in (opts\<lparr>o_getData := v\<rparr>, rest))"

definition is_option_arg :: "string \<Rightarrow> bool" where
  "is_option_arg a \<longleftrightarrow>
     take 2 a = ''--'' \<and> length a > 2 \<or> take 1 a = ''-'' \<and> length a > 1 \<and> a ! 1 \<noteq> CHR ''-''"

fun opt_xpath_loop :: "string \<Rightarrow> string list \<Rightarrow> string \<times> string list" where
  "opt_xpath_loop val [] = (val, [])"
| "opt_xpath_loop val (a # rargs) =
     (if is_option_arg a then (val, a # rargs) else opt_xpath_loop (val @ '' '' @ a) rargs)"

definition opt_xpath :: "string list \<Rightarrow> options \<Rightarrow> options \<times> string list" where
  "opt_xpath rargs opts =
     (let (v, rest) = opt_xpath_loop [] rargs in (opts\<lparr>o_xpath := v\<rparr>, rest))"

definition validate_options :: "bool \<Rightarrow> options \<Rightarrow> unit result" where
  "validate_options have_paramiko opts =
     (if o_wdefaults opts \<noteq> [] \<and>
         o_wdefaults opts \<notin> {''trim'', ''explicit'', ''report-all'', ''report-all-tagged'', ''true'', ''false''}
      then Inl StdoutError
      else if o_proto opts = ''ssh'' \<and> \<not> have_paramiko then Inl StdoutError
      else Inr ())"

section \<open>Files\<close>

text \<open>
  \<open>get_file\<close>: standard input is text, a file is opened in binary mode. Formatting bytes into a
  template gives their \<open>repr\<close>.
\<close>

datatype file_data = Text string | Bytes bytes

definition get_file :: "string \<Rightarrow> (string \<Rightarrow> bytes result) \<Rightarrow> string \<Rightarrow> file_data result" where
  "get_file stdin_text files name =
     (if name = ''-'' then Inr (Text stdin_text) else rbind (files name) (\<lambda>b. Inr (Bytes b)))"

definition hex_digit :: "nat \<Rightarrow> char" where
  "hex_digit d = (if d < 10 then digit d else char_of (87 + d))"

definition repr_byte :: "char \<Rightarrow> char \<Rightarrow> string" where
  "repr_byte quote c =
     (let n = (of_char c :: nat)
      in if c = CHR 0x5C \<or> c = quote then [CHR 0x5C, c]
         else if n = 9 then [CHR 0x5C, CHR ''t'']
         else if n = 10 then [CHR 0x5C, CHR ''n'']
         else if n = 13 then [CHR 0x5C, CHR ''r'']
         else if n < 32 \<or> 127 \<le> n then [CHR 0x5C, CHR ''x'', hex_digit (n div 16), hex_digit (n mod 16)]
         else [c])"

definition bytes_repr :: "bytes \<Rightarrow> string" where
  "bytes_repr b =
     (let quote = (if CHR 0x27 \<in> set b \<and> CHR 0x22 \<notin> set b then CHR 0x22 else CHR 0x27)
      in CHR ''b'' # quote # concat (map (repr_byte quote) b) @ [quote])"

fun format_data :: "file_data \<Rightarrow> string" where
  "format_data (Text s) = s"
| "format_data (Bytes b) = bytes_repr b"

section \<open>Messages\<close>

abbreviation squote :: string where "squote \<equiv> [CHR 0x27]"

definition hello_msg :: "string list \<Rightarrow> string" where
  "hello_msg versions = XML_HEAD @ ''<hello xmlns=\"'' @ NC_NS @ ''\">\<newline>  <capabilities>\<newline>'' @
     (if ''1.0'' \<in> set versions then ''    <capability>'' @ BASE_1_0 @ ''</capability>\<newline>'' else []) @
     (if ''1.1'' \<in> set versions then ''    <capability>'' @ BASE_1_1 @ ''</capability>\<newline>'' else []) @
     ''\<newline>    </capabilities>\<newline></hello>''"

definition close_msg :: string where
  "close_msg = XML_HEAD @ ''    <rpc xmlns=\"'' @ NC_NS @
     ''\" message-id=\"0\">\<newline>        <close-session/>\<newline>    </rpc>''"

definition mk_filter_str :: "string \<Rightarrow> string" where
  "mk_filter_str xpath =
     (let pre = ''<filter type='' @ squote @ ''xpath'' @ squote @ '' select=''
      in if CHR 0x27 \<in> set xpath then pre @ ''\"'' @ xpath @ ''\"/>''
         else pre @ squote @ xpath @ squote @ ''/>'')"

definition mk_filter_subnotif_str :: "string \<Rightarrow> string \<Rightarrow> string" where
  "mk_filter_subnotif_str filter_field filter_content =
     (let q = (if CHR 0x27 \<in> set filter_content then ''\"'' else squote)
      in ''<'' @ filter_field @ ''>'' @ q @ filter_content @ q @ ''<'' @ filter_field @ ''>'')"

text \<open>The elements of \<open>get_msg\<close> for the options \<open>--with-defaults\<close> and \<open>--with-inactive\<close>.\<close>

definition with_defaults_elem :: "string \<Rightarrow> string \<Rightarrow> string" where
  "with_defaults_elem cmd wd =
     (if wd \<in> {''explicit'', ''trim'', ''report-all'', ''report-all-tagged''} then
        (if cmd = ''get-data'' then ''<with-defaults>'' @ wd @ ''</with-defaults>''
         else ''<with-defaults xmlns='' @ squote @
              ''urn:ietf:params:xml:ns:yang:ietf-netconf-with-defaults'' @ squote @ ''>'' @ wd @
              ''</with-defaults>'')
      else [])"

definition with_inactive_elem :: "bool \<Rightarrow> string" where
  "with_inactive_elem wi =
     (if wi then ''<with-inactive xmlns='' @ squote @ ''http://tail-f.com/ns/netconf/inactive/1.0'' @ squote @ ''/>''
      else [])"

definition get_data_op ::
  "string \<Rightarrow> string \<Rightarrow> string \<Rightarrow> string \<Rightarrow> options \<Rightarrow> string" where
  "get_data_op db subtree_filter delem welem opts =
     (let xpath_filter = (if o_xpath opts \<noteq> [] then ''<xpath-filter>'' @ o_xpath opts @ ''</xpath-filter>'' else []);
          config_false = (if o_config_filter opts = Some ''false'' then ''<config-filter>false</config-filter>''
                          else if o_config_filter opts = Some ''true'' then ''<config-filter>true</config-filter>''
                          else []);
          max_depth = (if o_max_depth opts \<noteq> [] then ''<max-depth>'' @ o_max_depth opts @ ''</max-depth>'' else []);
          ind = ''\<newline>                 ''
      in ''<get-data xmlns=\"'' @ NMDA_NS @ ''\" xmlns:ds=\"'' @ NMDA_DS_NS @ ''\">'' @
         ind @ ''<datastore>ds:'' @ db @ ''</datastore>'' @ ind @ subtree_filter @ ind @ xpath_filter @
         ind @ config_false @ ind @ max_depth @ ind @ delem @ ind @ welem @ ind @ ''</get-data>'')"

definition get_msg ::
  "(string \<Rightarrow> file_data result) \<Rightarrow> string \<Rightarrow> string \<Rightarrow> options \<Rightarrow> string result" where
  "get_msg read_file cmd db opts =
     (let fstr = (if o_xpath opts = [] then [] else mk_filter_str (o_xpath opts));
          delem = with_defaults_elem cmd (o_wdefaults opts);
          welem = with_inactive_elem (o_winactive opts);
          dattr = (if o_wdefaults opts \<in> {''true'', ''false''}
                   then '' with-defaults=\"'' @ o_wdefaults opts @ ''\"'' else [])
      in rbind
          (if cmd = ''get-config'' then
             Inr (''<get-config><source><'' @ db @ ''/></source>'' @ fstr @ delem @ welem @ ''</get-config>'')
           else if cmd = ''get-data'' then
             rbind (if o_subtree_filter opts \<noteq> [] then
                      rbind (read_file (o_subtree_filter opts)) (\<lambda>d.
                        Inr (''<subtree-filter>'' @ format_data d @ ''</subtree-filter>''))
                    else Inr []) (\<lambda>subtree_filter.
               Inr (get_data_op db subtree_filter delem welem opts))
           else Inr (''<get>'' @ fstr @ delem @ welem @ ''</get>''))
          (\<lambda>op. Inr (XML_HEAD @ ''<rpc xmlns=\"'' @ NC_NS @ ''\"'' @ dattr @ '' message-id=\"1\" '' @
                     o_rpc_attribute opts @ ''>\<newline>    '' @ op @ ''\<newline></rpc>'')))"

text \<open>The frame of the simple requests.\<close>

definition rpc_1 :: "string \<Rightarrow> string" where
  "rpc_1 body = XML_HEAD @ ''<rpc xmlns=\"'' @ NC_NS @ ''\" message-id=\"1\">\<newline>'' @ body @ ''\<newline></rpc>''"

definition kill_session_msg :: "string \<Rightarrow> string" where
  "kill_session_msg sid =
     rpc_1 (''    <kill-session><session-id>'' @ sid @ ''</session-id></kill-session>'')"

definition discard_changes_msg :: string where
  "discard_changes_msg = rpc_1 ''    <discard-changes/>''"

definition commit_msg :: string where
  "commit_msg = rpc_1 ''    <commit/>''"

definition validate_msg :: "string \<Rightarrow> string" where
  "validate_msg db = rpc_1 (''    <validate><source><'' @ db @ ''/></source></validate>'')"

definition copy_running_to_startup_msg :: string where
  "copy_running_to_startup_msg =
     rpc_1 (''    <copy-config>\<newline>      <target>\<newline>        <startup/>\<newline>      </target>\<newline>'' @
            ''      <source>\<newline>        <running/>\<newline>      </source>\<newline>    </copy-config>'')"

definition get_schema_msg :: "string \<Rightarrow> string" where
  "get_schema_msg identifier =
     rpc_1 (''    <get-schema xmlns=\"urn:ietf:params:xml:ns:yang:ietf-netconf-monitoring\">\<newline>'' @
            ''      <identifier>'' @ identifier @ ''</identifier>\<newline>    </get-schema>'')"

definition time_elem :: "string \<Rightarrow> string \<Rightarrow> string" where
  "time_elem tag t = (if t = [] then [] else ''<'' @ tag @ ''>'' @ t @ ''+00:00</'' @ tag @ ''>'')"

definition create_subscription_msg :: "string \<Rightarrow> string \<Rightarrow> string \<Rightarrow> string \<Rightarrow> string" where
  "create_subscription_msg stream xpath start stop =
     (let fstr = (if xpath = [] then [] else mk_filter_str xpath)
      in rpc_1 (''  <create-subscription xmlns=\"urn:ietf:params:xml:ns:netconf:notification:1.0\">\<newline>'' @
                ''    <stream>'' @ stream @ ''</stream>\<newline>    '' @ fstr @ ''\<newline>    '' @
                time_elem ''startTime'' start @ ''\<newline>    '' @ time_elem ''stopTime'' stop @
                ''\<newline>  </create-subscription>''))"

definition establish_subscription_msg :: "string \<Rightarrow> string \<Rightarrow> string \<Rightarrow> string \<Rightarrow> string" where
  "establish_subscription_msg stream xpath start stop =
     (let fstr = (if xpath = [] then [] else mk_filter_subnotif_str ''stream-xpath-filter'' xpath)
      in rpc_1 (''  <establish-subscription\<newline>        xmlns=\"urn:ietf:params:xml:ns:yang:ietf-subscribed-notifications\">\<newline>'' @
                ''    <stream>'' @ stream @ ''</stream>\<newline>    '' @ fstr @ ''\<newline>    '' @
                time_elem ''startTime'' start @ ''\<newline>    '' @ time_elem ''stopTime'' stop @
                ''\<newline>  </establish-subscription>''))"

text \<open>
  The interactive mode, for the lines of standard input: up to an empty line. At the end of the
  input \<open>readline\<close> returns the empty string for ever, and the loop does not end (\<^const>\<open>None\<close>).
\<close>

fun read_lines :: "string list \<Rightarrow> (string \<times> string list) option" where
  "read_lines [] = None"
| "read_lines (ln # lns) =
     (if ln = ''\<newline>'' then Some ([], lns)
      else map_option (\<lambda>(m, rest). (ln @ m, rest)) (read_lines lns))"

definition read_msg :: "string list \<Rightarrow> (string \<times> string list) option" where
  "read_msg stdin_lines =
     map_option (\<lambda>(m, rest). (XML_HEAD @ ''    <rpc xmlns=\"'' @ NC_NS @ ''\" message-id=\"2\">\<newline>    '' @
       m @ ''</rpc>\<newline>'', rest)) (read_lines stdin_lines)"

section \<open>Balanced messages\<close>

text \<open>
  The scanner: the stack of open elements and, inside a tag, its text so far in reverse. A
  processing instruction and an empty-element tag leave the stack alone, an end tag must match.
\<close>

definition tag_stack :: "string list \<Rightarrow> string \<Rightarrow> string list option" where
  "tag_stack stk t =
     (case t of
        [] \<Rightarrow> None
      | c # _ \<Rightarrow>
          (let s = rev t
           in if hd s = CHR ''?'' then Some stk
              else if hd s = CHR ''/'' then
                (case stk of [] \<Rightarrow> None | n # stk' \<Rightarrow> if n = tl s then Some stk' else None)
              else if c = CHR ''/'' then Some stk
              else Some (takeWhile (\<lambda>x. \<not> is_space x) s # stk)))"

fun scan :: "string \<Rightarrow> string list \<times> string option \<Rightarrow> (string list \<times> string option) option" where
  "scan [] st = Some st"
| "scan (c # cs) (stk, None) =
     (if c = CHR ''<'' then scan cs (stk, Some []) else scan cs (stk, None))"
| "scan (c # cs) (stk, Some t) =
     (if c = CHR ''<'' then None
      else if c = CHR ''>'' then
        (case tag_stack stk t of None \<Rightarrow> None | Some stk' \<Rightarrow> scan cs (stk', None))
      else scan cs (stk, Some (c # t)))"

definition balanced :: "string \<Rightarrow> bool" where
  "balanced s \<longleftrightarrow> scan s ([], None) = Some ([], None)"

definition no_angle :: "string \<Rightarrow> bool" where
  "no_angle s \<longleftrightarrow> CHR ''<'' \<notin> set s \<and> CHR ''>'' \<notin> set s"

lemma scan_text: "no_angle s \<Longrightarrow> scan (s @ r) (stk, None) = scan r (stk, None)"
  by (induction s) (auto simp: no_angle_def)

lemma scan_tag: "no_angle s \<Longrightarrow> scan (s @ r) (stk, Some t) = scan r (stk, Some (rev s @ t))"
  by (induction s arbitrary: t) (auto simp: no_angle_def)

lemma tag_stack_empty_elem: "s \<noteq> [] \<Longrightarrow> hd s \<noteq> CHR ''?'' \<Longrightarrow> hd s \<noteq> CHR ''/'' \<Longrightarrow>
   tag_stack stk (CHR ''/'' # rev s) = Some stk"
  by (simp add: tag_stack_def hd_append)

lemmas scan_simps = scan_text scan_tag tag_stack_empty_elem

text \<open>A datastore name as it appears in an element.\<close>

definition elem_name :: "string \<Rightarrow> bool" where
  "elem_name s \<longleftrightarrow> s \<noteq> [] \<and> no_angle s \<and> hd s \<noteq> CHR ''?'' \<and> hd s \<noteq> CHR ''/''"

text \<open>
  The simple requests are balanced whatever text they carry, as long as it has no angle
  brackets: session identifiers, datastore and module names, stream names, filters and times.
\<close>

theorem requests_balanced:
  assumes "no_angle sid" and "elem_name db" and "no_angle identifier"
  shows "balanced (kill_session_msg sid) \<and> balanced discard_changes_msg \<and> balanced commit_msg \<and>
     balanced (validate_msg db) \<and> balanced copy_running_to_startup_msg \<and>
     balanced (get_schema_msg identifier) \<and> balanced close_msg"
proof (intro conjI)
  note defs = rpc_1_def name_defs balanced_def
  show "balanced (kill_session_msg sid)"
    using assms(1) by (simp add: kill_session_msg_def defs scan_simps tag_stack_def is_space_def)
  show "balanced discard_changes_msg" by (simp add: discard_changes_msg_def defs tag_stack_def is_space_def)
  show "balanced commit_msg" by (simp add: commit_msg_def defs tag_stack_def is_space_def)
  show "balanced (validate_msg db)"
    using assms(2) by (simp add: validate_msg_def defs scan_simps tag_stack_def is_space_def elem_name_def hd_append)
  show "balanced copy_running_to_startup_msg"
    by (simp add: copy_running_to_startup_msg_def defs tag_stack_def is_space_def)
  show "balanced (get_schema_msg identifier)"
    using assms(3) by (simp add: get_schema_msg_def defs scan_simps tag_stack_def is_space_def)
  show "balanced close_msg" by (simp add: close_msg_def defs tag_stack_def is_space_def)
qed

lemma requests_balanced_witness: "balanced (validate_msg ''running'') \<and> balanced (kill_session_msg ''17'')"
  using requests_balanced [of "''17''" "''running''" "''ietf-interfaces''"]
  by (simp add: no_angle_def elem_name_def)

text \<open>Text that the scanner passes with the stack as it was.\<close>

definition neutral :: "string \<Rightarrow> bool" where
  "neutral s \<longleftrightarrow> (\<forall>stk r. scan (s @ r) (stk, None) = scan r (stk, None))"

lemma neutral_scan: "neutral s \<Longrightarrow> scan (s @ r) (stk, None) = scan r (stk, None)"
  by (simp add: neutral_def)

lemma neutral_Nil [simp]: "neutral []"
  by (simp add: neutral_def)

lemma neutral_text: "no_angle s \<Longrightarrow> neutral s"
  by (simp add: neutral_def scan_text)

lemma neutral_ifI: "neutral x \<Longrightarrow> neutral y \<Longrightarrow> neutral (if b then x else y)"
  by simp

lemma neutral_filter:
  assumes "no_angle xpath"
  shows "neutral (if xpath = [] then [] else mk_filter_str xpath)"
  using assms
  by (auto simp: neutral_def mk_filter_str_def Let_def scan_simps tag_stack_def)

lemma neutral_with_defaults: "neutral (with_defaults_elem cmd wd)"
  by (auto simp: neutral_def with_defaults_elem_def tag_stack_def is_space_def)

lemma neutral_with_inactive: "neutral (with_inactive_elem wi)"
  by (auto simp: neutral_def with_inactive_elem_def tag_stack_def)

lemma neutral_time:
  assumes "no_angle t"
  shows "neutral (time_elem ''startTime'' t)" and "neutral (time_elem ''stopTime'' t)"
  using assms by (auto simp: neutral_def time_elem_def scan_text tag_stack_def is_space_def)

lemma neutral_get_data:
  assumes "no_angle db" and "no_angle (o_xpath opts)" and "no_angle (o_max_depth opts)"
    and "neutral delem" and "neutral welem" and "neutral subtree"
  shows "neutral (get_data_op db subtree delem welem opts)"
proof -
  have "neutral (if o_xpath opts \<noteq> [] then ''<xpath-filter>'' @ o_xpath opts @ ''</xpath-filter>'' else [])"
    "neutral (if o_max_depth opts \<noteq> [] then ''<max-depth>'' @ o_max_depth opts @ ''</max-depth>'' else [])"
    "neutral (if o_config_filter opts = Some ''false'' then ''<config-filter>false</config-filter>''
              else if o_config_filter opts = Some ''true'' then ''<config-filter>true</config-filter>'' else [])"
    using assms(2,3) by (auto simp: neutral_def scan_text tag_stack_def is_space_def)
  note parts = this
  show ?thesis
    unfolding neutral_def get_data_op_def Let_def name_defs
    using assms(1) parts [THEN neutral_scan] assms(4-6) [THEN neutral_scan]
    by (simp add: scan_text tag_stack_def is_space_def del: not_Cons_self)
qed

text \<open>
  The read requests are balanced: for \<open>get\<close>, \<open>get-config\<close> and \<open>get-data\<close> and for every
  combination of the filter, depth, defaults and inactive options, the message closes every
  element it opens, as long as the texts have no angle brackets.
\<close>

theorem get_msg_balanced:
  assumes "elem_name db" and "no_angle (o_xpath opts)" and "no_angle (o_max_depth opts)"
    and "o_rpc_attribute opts = []" and "o_subtree_filter opts = []"
  shows "\<exists>m. get_msg read_file cmd db opts = Inr m \<and> balanced m"
proof -
  let ?f = "if o_xpath opts = [] then [] else mk_filter_str (o_xpath opts)"
  let ?d = "with_defaults_elem cmd (o_wdefaults opts)" and ?w = "with_inactive_elem (o_winactive opts)"
  let ?op = "if cmd = ''get-config'' then
        ''<get-config><source><'' @ db @ ''/></source>'' @ ?f @ ?d @ ?w @ ''</get-config>''
      else if cmd = ''get-data'' then get_data_op db [] ?d ?w opts
      else ''<get>'' @ ?f @ ?d @ ?w @ ''</get>''"
  note elems = neutral_filter [OF assms(2)] neutral_with_defaults [of cmd "o_wdefaults opts"]
    neutral_with_inactive [of "o_winactive opts"]
  have db: "no_angle db" "db \<noteq> []" "hd db \<noteq> CHR ''?''" "hd db \<noteq> CHR ''/''"
    using assms(1) by (auto simp: elem_name_def)
  have ops: "neutral (''<get-config><source><'' @ db @ ''/></source>'' @ ?f @ ?d @ ?w @ ''</get-config>'')"
    "neutral (''<get>'' @ ?f @ ?d @ ?w @ ''</get>'')"
    unfolding neutral_def using db elems [THEN neutral_scan]
    by (simp_all add: scan_tag tag_stack_empty_elem tag_stack_def is_space_def hd_append)
  have "neutral (get_data_op db [] ?d ?w opts)"
    using neutral_get_data [OF db(1) assms(2,3) elems(2,3)] by simp
  then have op: "neutral ?op" by (intro neutral_ifI ops)
  let ?a = "if o_wdefaults opts \<in> {''true'', ''false''} then '' with-defaults=\"'' @ o_wdefaults opts @ ''\"'' else []"
  let ?m = "XML_HEAD @ ''<rpc xmlns=\"'' @ NC_NS @ ''\"'' @ ?a @ '' message-id=\"1\" '' @
      ''>\<newline>    '' @ ?op @ ''\<newline></rpc>''"
  have a: "no_angle ?a" by (auto simp: no_angle_def)
  have "get_msg read_file cmd db opts = Inr ?m"
    using assms(4,5) by (simp add: get_msg_def Let_def)
  moreover have "balanced ?m"
    unfolding balanced_def name_defs using op [THEN neutral_scan] scan_tag [OF a]
    by (simp add: tag_stack_def is_space_def)
  ultimately show ?thesis by blast
qed

text \<open>Options with every string empty and every flag off.\<close>

definition default_options :: options where
  "default_options =
     \<lparr>o_rpc_attribute = [], o_xpath = [], o_wdefaults = [], o_winactive = False, o_subtree_filter = [],
      o_config_filter = None, o_max_depth = [], o_db = ''running'', o_get = False, o_getConfig = None,
      o_getData = None, o_rpc = [], o_edit = [], o_edit_data = [], o_copy = [], o_kill_session = [],
      o_discard_changes = False, o_commit = False, o_validate = False, o_copy_running_to_startup = False,
      o_get_schema = None, o_create_subscription = None, o_establish_subscription = None,
      o_start_time = [], o_stop_time = [], o_hello = False, o_interactive = False, o_listen = False,
      o_proto = ''ssh'', o_style = ''default'', o_version = None, o_iter = 1\<rparr>"

lemma get_msg_balanced_witness:
  "\<exists>m. get_msg (\<lambda>_. Inl KeyError) ''get-config'' ''running''
     (default_options\<lparr>o_xpath := ''/interfaces'', o_wdefaults := ''trim''\<rparr>) = Inr m \<and> balanced m"
  by (rule get_msg_balanced) (simp_all add: default_options_def elem_name_def no_angle_def)

text \<open>
  Subscription requests: \<open>create-subscription\<close> is balanced with and without a filter, and so is
  \<open>establish-subscription\<close> without one; with a filter it is not, since the filter element is
  opened twice and never closed.
\<close>

theorem subscription_balanced:
  assumes "no_angle stream" and "no_angle xpath" and "no_angle start" and "no_angle stop"
  shows "balanced (create_subscription_msg stream xpath start stop) \<and>
     (balanced (establish_subscription_msg stream xpath start stop) \<longleftrightarrow> xpath = [])"
proof
  note times = neutral_time [OF assms(3), THEN neutral_scan] neutral_time [OF assms(4), THEN neutral_scan]
  note defs = rpc_1_def name_defs balanced_def Let_def
  show "balanced (create_subscription_msg stream xpath start stop)"
    using neutral_filter [OF assms(2), THEN neutral_scan] assms(1) times
    by (simp add: create_subscription_msg_def defs scan_text tag_stack_def is_space_def)
  show "balanced (establish_subscription_msg stream xpath start stop) \<longleftrightarrow> xpath = []"
    using assms(1,2) times
    by (auto simp: establish_subscription_msg_def mk_filter_subnotif_str_def defs scan_text tag_stack_def
        is_space_def)
qed

lemma subscription_balanced_witness:
  "balanced (create_subscription_msg ''NETCONF'' ''/a'' [] []) \<and>
   \<not> balanced (establish_subscription_msg ''NETCONF'' ''/a'' [] [])"
  using subscription_balanced [of "''NETCONF''" "''/a''" "[]" "[]"] by (simp add: no_angle_def)

section \<open>Documents\<close>

datatype dom =
    Element string string "dom list"
  | TextNode string
  | OtherNode

fun node_ns :: "dom \<Rightarrow> string option" where
  "node_ns (Element ns n cs) = Some ns"
| "node_ns _ = None"

fun local_name :: "dom \<Rightarrow> string option" where
  "local_name (Element ns n cs) = Some n"
| "local_name _ = None"

fun children :: "dom \<Rightarrow> dom list" where
  "children (Element ns n cs) = cs"
| "children _ = []"

text \<open>\<open>strip\<close>: the loop over the children, which removes while it walks.\<close>

fun keep_node :: "dom \<Rightarrow> bool" where
  "keep_node (TextNode t) = (py_strip t \<noteq> [])"
| "keep_node (Element ns n cs) = True"
| "keep_node OtherNode = False"

fun strip_children :: "dom list \<Rightarrow> dom list" where
  "strip_children [] = []"
| "strip_children (c # cs) = (if keep_node c then c # strip_children cs else strip_children cs)"

fun strip :: "dom \<Rightarrow> dom" where
  "strip (Element ns n cs) = Element ns n (strip_children cs)"
| "strip d = d"

text \<open>
  The walk over the capabilities. A capability without a text as its first child has no
  \<open>nodeValue\<close> to strip.
\<close>

fun capability_value :: "dom \<Rightarrow> string result" where
  "capability_value (Element ns n (TextNode t # cs)) = Inr (py_strip t)"
| "capability_value _ = Inl AttributeError"

fun scan_capabilities :: "string list \<Rightarrow> dom list \<Rightarrow> bool result" where
  "scan_capabilities versions [] = Inr False"
| "scan_capabilities versions (d # ds) =
     rbind (if node_ns d = Some NC_NS \<and> local_name d = Some ''capability'' \<and> ''1.1'' \<in> set versions
            then rbind (capability_value d) (\<lambda>v. Inr (v = BASE_1_1))
            else Inr False) (\<lambda>found.
     rbind (scan_capabilities versions ds) (\<lambda>rest. Inr (found \<or> rest)))"

text \<open>
  Whether the session switches to the chunked framing, from the top-level nodes of the server's
  hello. The first capability node is stripped like its parents.
\<close>

definition negotiate :: "string list \<Rightarrow> dom list \<Rightarrow> bool result" where
  "negotiate versions doc =
     (case doc of
        [] \<Rightarrow> Inr False
      | d0 # _ \<Rightarrow>
          (let d = strip d0
           in if node_ns d = Some NC_NS \<and> local_name d = Some ''hello'' \<and> children d \<noteq> [] then
                (let d1 = strip (hd (children d))
                 in if node_ns d1 = Some NC_NS \<and> local_name d1 = Some ''capabilities'' then
                      (case children d1 of
                         [] \<Rightarrow> Inl AttributeError
                       | c # cs \<Rightarrow> scan_capabilities versions (strip c # cs))
                    else Inr False)
              else Inr False))"

lemma strip_children_filter: "strip_children cs = filter keep_node cs"
  by (induction cs) simp_all

definition capability :: "string \<Rightarrow> dom" where
  "capability v = Element NC_NS ''capability'' [TextNode v]"

lemma scan_capability_list:
  "scan_capabilities versions (map capability vs) =
     Inr (''1.1'' \<in> set versions \<and> BASE_1_1 \<in> set (map py_strip vs))"
  by (induction vs) (auto simp: capability_def)

text \<open>
  The choice of the framing: for a server hello whose capabilities come first, with white space and
  comments anywhere between the elements, the session switches to the chunked framing exactly
  when it offered version 1.1 and the server lists that version, itself surrounded by any white
  space.
\<close>

theorem negotiate_framing:
  assumes "filter keep_node hello_children = Element NC_NS ''capabilities'' caps # more_children"
    and "filter keep_node caps = map capability vs" and "vs \<noteq> []"
    and "\<forall>v \<in> set vs. py_strip v \<noteq> []"
  shows "negotiate versions (Element NC_NS ''hello'' hello_children # rest) =
     Inr (''1.1'' \<in> set versions \<and> BASE_1_1 \<in> set (map py_strip vs))"
proof -
  obtain v vs' where vs: "vs = v # vs'" using assms(3) by (cases vs) auto
  have "strip (capability v) = capability v"
    using assms(4) vs by (simp add: capability_def)
  then show ?thesis
    using assms(1,2) vs scan_capability_list [of versions vs]
    by (simp add: negotiate_def strip_children_filter)
qed

lemma negotiate_framing_witness:
  "negotiate [''1.0'', ''1.1''] [Element NC_NS ''hello''
     [TextNode ''\<newline>'', Element NC_NS ''capabilities''
        [OtherNode, capability ('' '' @ BASE_1_1 @ ''\<newline>'')], Element NC_NS ''session-id'' [TextNode ''1'']]] = Inr True"
  using negotiate_framing [of "[TextNode ''\<newline>'', Element NC_NS ''capabilities''
        [OtherNode, capability ('' '' @ BASE_1_1 @ ''\<newline>'')], Element NC_NS ''session-id'' [TextNode ''1'']]"
      "[OtherNode, capability ('' '' @ BASE_1_1 @ ''\<newline>'')]"
      "[Element NC_NS ''session-id'' [TextNode ''1'']]" "['' '' @ BASE_1_1 @ ''\<newline>'']" "[''1.0'', ''1.1'']" "[]"]
  by (simp add: capability_def py_strip_def is_space_def BASE_1_1_def)

end
