(* ===== verification/Netconf_Session.thy ===== *)
theory Netconf_Session
  imports Netconf_Transport Netconf_Messages
begin

text \<open>
  The session of \<open>confd-sync-py/app/netconf_console.py\<close> (function \<open>main\<close>), in the order of the code:
  which request the options ask for, which versions the client offers, how a request is sent
  from a file, and how one reply is read and printed. Printing through \<open>xmllint\<close>, the process exit and the
  timing of notifications are not part of it.
\<close>

section \<open>The request\<close>

text \<open>
  A whole session or one operation from a file, a message, none, or, in the interactive mode, none
  yet.
\<close>

datatype source =
    CmdFile file_data
  | DataFile file_data
  | Message string
  | NoMessage
  | Unbound

definition select_request ::
  "(string \<Rightarrow> file_data result) \<Rightarrow> string list \<Rightarrow> options \<Rightarrow> source result" where
  "select_request read_file args opts =
     (let msg = (\<lambda>m. Inr (Message m));
          data = (\<lambda>name. rbind (read_file name) (\<lambda>d. Inr (DataFile d)));
          get = (\<lambda>cmd choice. rbind (get_msg read_file cmd
                   (if choice = ''default'' then o_db opts else choice) opts) msg)
      in if length args = 1 \<and> hd args \<noteq> [] then rbind (read_file (hd args)) (\<lambda>d. Inr (CmdFile d))
         else if o_get opts then rbind (get_msg read_file ''get'' [] opts) msg
         else if o_getConfig opts \<noteq> None then get ''get-config'' (the (o_getConfig opts))
         else if o_getData opts \<noteq> None then get ''get-data'' (the (o_getData opts))
         else if o_rpc opts \<noteq> [] then data (o_rpc opts)
         else if o_edit opts \<noteq> [] then data (o_edit opts)
         else if o_edit_data opts \<noteq> [] then data (o_edit_data opts)
         else if o_copy opts \<noteq> [] then data (o_copy opts)
         else if o_kill_session opts \<noteq> [] then msg (kill_session_msg (o_kill_session opts))
         else if o_discard_changes opts then msg discard_changes_msg
         else if o_commit opts then msg commit_msg
         else if o_validate opts then msg (validate_msg (o_db opts))
         else if o_copy_running_to_startup opts then msg copy_running_to_startup_msg
         else if o_get_schema opts \<noteq> None then msg (get_schema_msg (the (o_get_schema opts)))
         else if o_create_subscription opts \<noteq> None then
           msg (create_subscription_msg (the (o_create_subscription opts)) (o_xpath opts)
                  (o_start_time opts) (o_stop_time opts))
         else if o_establish_subscription opts \<noteq> None then
           msg (establish_subscription_msg (the (o_establish_subscription opts)) (o_xpath opts)
                  (o_start_time opts) (o_stop_time opts))
         else if o_hello opts then Inr NoMessage
         else if o_interactive opts then Inr Unbound
         else Inl SystemExit)"

definition check_options :: "bool \<Rightarrow> options \<Rightarrow> unit result" where
  "check_options have_paramiko opts =
     (if o_listen opts \<and> o_proto opts \<noteq> ''ssh'' then Inl SystemExit
      else validate_options have_paramiko opts)"

definition transport_kind :: "options \<Rightarrow> sender" where
  "transport_kind opts = (if o_proto opts = ''ssh'' then SSH else TCP)"

definition offered_versions :: "bool \<Rightarrow> options \<Rightarrow> string list" where
  "offered_versions from_cmd_file opts =
     (if from_cmd_file \<and> o_version opts = None then [''1.0'']
      else (if o_version opts = Some ''1.0'' \<or> o_version opts = None then [''1.0''] else []) @
           (if o_version opts = Some ''1.1'' \<or> o_version opts = None then [''1.1''] else []))"

section \<open>Sending from a file\<close>

fun pieces :: "nat \<Rightarrow> 'a list \<Rightarrow> 'a list list" where
  "pieces n xs = (if n = 0 \<or> xs = [] then [] else take n xs # pieces n (drop n xs))"

declare pieces.simps [simp del]

text \<open>\<open>f.read(BUFSIZ)\<close> until it returns nothing.\<close>

fun file_chunks :: "file_data \<Rightarrow> request list" where
  "file_chunks (Text s) = map (ReqStr \<circ> u) (pieces BUFSIZ s)"
| "file_chunks (Bytes b) = map ReqBytes (pieces BUFSIZ b)"

definition rpc_head :: string where
  "rpc_head = ''<?xml version=\"1.0\" encoding=\"UTF-8\"?>\<newline>                    <rpc xmlns=\"'' @ NC_NS @
     ''\" message-id=\"1\">''"

definition payload_head :: "options \<Rightarrow> string list" where
  "payload_head opts =
     (if o_edit opts \<noteq> [] then
        [''<edit-config xmlns:nc='' @ squote @ NC_NS @ squote @ ''><target><'' @ o_db opts @ ''/></target><config>'']
      else if o_edit_data opts \<noteq> [] then
        [''<edit-data xmlns='' @ squote @ NMDA_NS @ squote @ '' xmlns:ds='' @ squote @ NMDA_DS_NS @ squote @
         ''><datastore>ds:'' @ o_db opts @ ''</datastore><config>'']
      else if o_copy opts \<noteq> [] then
        [''<copy-config><target><'' @ o_db opts @ ''/></target><source><config>'']
      else [])"

definition payload_tail :: "options \<Rightarrow> string list" where
  "payload_tail opts =
     (if o_edit opts \<noteq> [] then [''</config></edit-config>'']
      else if o_edit_data opts \<noteq> [] then [''</config></edit-data>'']
      else if o_copy opts \<noteq> [] then [''</config></source></copy-config>'']
      else [])"

abbreviation reqs :: "string list \<Rightarrow> request list" where
  "reqs ss \<equiv> map (ReqStr \<circ> u) ss"

fun send_all :: "(request \<Rightarrow> transport \<Rightarrow> transport result) \<Rightarrow> request list \<Rightarrow> transport \<Rightarrow> transport result" where
  "send_all put [] t = Inr t"
| "send_all put (r # rs) t = rbind (put r t) (send_all put rs)"

fun sender_flush :: "sender \<Rightarrow> transport \<Rightarrow> transport result" where
  "sender_flush SSH t = ssh_flush t"
| "sender_flush TCP t = Inr t"

text \<open>A data file gets the \<open>rpc\<close> element and framing, a command file is sent as it is.\<close>

fun send_file :: "sender \<Rightarrow> options \<Rightarrow> source \<Rightarrow> transport \<Rightarrow> transport result" where
  "send_file k opts (DataFile d) c =
     rbind (send_all (send (sender_send k))
              (reqs [rpc_head] @ reqs (payload_head opts) @ file_chunks d @ reqs (payload_tail opts) @
               reqs [''</rpc>'']) c) (sender_send_eom k)"
| "send_file k opts (CmdFile d) c =
     rbind (send_all (sender_send k)
              (reqs (payload_head opts) @ file_chunks d @ reqs (payload_tail opts)) c) (sender_flush k)"
| "send_file k opts _ c = Inr c"

text \<open>How many replies to print, negative for all, and the output style.\<close>

definition reply_plan :: "options \<Rightarrow> source \<Rightarrow> int \<times> string" where
  "reply_plan opts src =
     (case src of
        DataFile d \<Rightarrow> (1, o_style opts)
      | CmdFile d \<Rightarrow> (- 1, o_style opts)
      | _ \<Rightarrow>
          if o_create_subscription opts \<noteq> None \<or> o_interactive opts \<or> o_establish_subscription opts \<noteq> None
          then (- 1, if o_style opts = ''default'' then ''all'' else o_style opts)
          else (o_iter opts, o_style opts))"

section \<open>Reading one reply\<close>

text \<open>
  What \<open>recv_chunk(1)\<close> brings: a code with text, or a timeout. \<open>rs_chunk\<close> is the variable \<open>chunk\<close>, which
  keeps its value over a timeout.
\<close>

datatype recv_event = Received int ustr | TimedOut

record reply_state =
  rs_chunk :: ustr
  rs_latest_msg :: ustr
  rs_written :: ustr
  rs_nchunks :: nat
  rs_full_msg :: ustr

text \<open>\<open>rs_full_msg\<close> is \<open>latest_msg\<close> when a message is complete, before it is reset.\<close>

datatype reply_outcome = Complete | Closed | ReplyError | Waiting

fun reply_loop :: "bool \<Rightarrow> recv_event list \<Rightarrow> reply_state \<Rightarrow> reply_outcome \<times> reply_state \<times> recv_event list" where
  "reply_loop do_print [] s = (Waiting, s, [])"
| "reply_loop do_print (TimedOut # evs) s =
     reply_loop do_print evs (s\<lparr>rs_latest_msg := rs_latest_msg s @ rs_chunk s\<rparr>)"
| "reply_loop do_print (Received code chunk # evs) s =
     (let s1 = s\<lparr>rs_chunk := chunk, rs_latest_msg := rs_latest_msg s @ chunk,
                rs_written := rs_written s @ (if do_print then chunk else [])\<rparr>
      in if code < 0 then ((if rs_nchunks s = 0 then Closed else ReplyError), s1, evs)
         else let s2 = s1\<lparr>rs_nchunks := rs_nchunks s + 1\<rparr>
              in if code = 0 then (Complete, s2\<lparr>rs_full_msg := rs_latest_msg s2, rs_latest_msg := []\<rparr>, evs)
                 else reply_loop do_print evs s2)"

section \<open>Lemmas\<close>

text \<open>A request that carries the ASCII text \<open>m\<close>.\<close>

definition carries :: "request \<Rightarrow> string \<Rightarrow> bool" where
  "carries r m \<longleftrightarrow> ascii m \<and> (r = ReqStr (u m) \<or> r = ReqBytes m)"

context framed_sender
begin

lemma send_request:
  assumes "inv t" and "tr_framing t = FRAMING_1_1" and "carries r m"
  shows "\<exists>t'. send send_raw r t = Inr t' \<and> inv t' \<and> tr_framing t' = FRAMING_1_1 \<and>
     written t' = written t @ chunk_frame m"
proof -
  have asc: "ascii m" using assms(3) by (simp add: carries_def)
  have "send send_raw r t = send send_raw (ReqStr (u m)) t"
    using assms(2,3) by (auto simp: carries_def send_def str_data_ascii)
  with send_chunked [OF assms(1,2) utf8_encode_ascii [OF asc]] assms(2) show ?thesis
    by (auto simp: chunk_frame_def)
qed

lemma send_all_chunks:
  assumes "inv t" and "tr_framing t = FRAMING_1_1" and "list_all2 carries rs ms"
  shows "\<exists>t'. send_all (send send_raw) rs t = Inr t' \<and> inv t' \<and> tr_framing t' = FRAMING_1_1 \<and>
     written t' = written t @ concat (map chunk_frame ms)"
  using assms(3,1,2)
proof (induction arbitrary: t rule: list_all2_induct)
  case (Cons r rs m ms)
  from send_request [OF Cons.prems Cons.hyps(1)] obtain t1 where
    "send send_raw r t = Inr t1" "inv t1" "tr_framing t1 = FRAMING_1_1" "written t1 = written t @ chunk_frame m"
    by blast
  with Cons.IH [of t1] show ?case by auto
qed simp

lemma send_all_eom:
  assumes "inv t" and "tr_framing t = FRAMING_1_1" and "list_all2 carries rs ms"
  shows "\<exists>t'. rbind (send_all (send send_raw) rs t) send_eom = Inr t' \<and>
     tr_out t' = written t @ concat (map chunk_frame ms) @ EOM_1_1"
proof -
  from send_all_chunks [OF assms] obtain t1 where "send_all (send send_raw) rs t = Inr t1" "inv t1"
    "tr_framing t1 = FRAMING_1_1" "written t1 = written t @ concat (map chunk_frame ms)" by blast
  with eom_flushes [of t1] show ?thesis by (auto simp: get_eom_def)
qed

end

lemma pieces_concat: "0 < n \<Longrightarrow> concat (pieces n xs) = xs"
proof (induction n xs rule: pieces.induct)
  case (1 n xs)
  then show ?case
    by (cases "xs = []") (simp_all add: pieces.simps [of n xs] pieces.simps [of n "[]"])
qed

lemma pieces_bounds: "p \<in> set (pieces n xs) \<Longrightarrow> p \<noteq> [] \<and> length p \<le> n \<and> set p \<subseteq> set xs"
proof (induction n xs rule: pieces.induct)
  case (1 n xs)
  show ?case
  proof (cases "n = 0 \<or> xs = []")
    case False
    with "1.prems" have "p = take n xs \<or> p \<in> set (pieces n (drop n xs))"
      by (simp add: pieces.simps [of n xs])
    then show ?thesis
      using False "1.IH" [OF False] by (auto dest: in_set_takeD in_set_dropD)
  qed (use "1.prems" in \<open>auto simp: pieces.simps [of n xs]\<close>)
qed

fun content :: "file_data \<Rightarrow> string" where
  "content (Text s) = s"
| "content (Bytes b) = b"

lemma file_chunks_carry:
  assumes "ascii (content d)"
  shows "list_all2 carries (file_chunks d) (pieces BUFSIZ (content d))"
proof -
  have "ascii p" if "p \<in> set (pieces BUFSIZ (content d))" for p
    using pieces_bounds [OF that] assms by (auto simp: ascii_def)
  then show ?thesis
    by (cases d) (auto simp: list_all2_conv_all_nth carries_def)
qed

lemma reqs_carry: "list_all ascii ss \<Longrightarrow> list_all2 carries (reqs ss) ss"
  by (auto simp: list_all2_conv_all_nth carries_def list_all_length)

text \<open>The message that the server should get for a data file.\<close>

definition data_message :: "options \<Rightarrow> string \<Rightarrow> string" where
  "data_message opts txt =
     rpc_head @ concat (payload_head opts) @ txt @ concat (payload_tail opts) @ ''</rpc>''"

definition data_parts :: "options \<Rightarrow> string \<Rightarrow> string list" where
  "data_parts opts txt = [rpc_head] @ payload_head opts @ pieces BUFSIZ txt @ payload_tail opts @ [''</rpc>'']"

lemma u_concat: "u (concat ss) = concat (map u ss)"
  by (induction ss) simp_all

lemma data_parts_concat: "concat (data_parts opts txt) = data_message opts txt"
  by (simp add: data_parts_def data_message_def pieces_concat BUFSIZ_def)

lemma data_parts_ascii:
  assumes "ascii (o_db opts)" and "ascii txt"
  shows "list_all ascii (data_parts opts txt)"
proof -
  have "list_all ascii (pieces BUFSIZ txt)"
    using pieces_bounds assms(2) by (fastforce simp: list_all_iff ascii_def)
  moreover have "list_all ascii (payload_head opts)" "list_all ascii (payload_tail opts)" "ascii rpc_head"
    using assms(1) by (simp_all add: payload_head_def payload_tail_def rpc_head_def name_defs)
  ultimately show ?thesis by (simp add: data_parts_def)
qed

lemma data_parts_ok:
  assumes "length (o_db opts) \<le> 1000"
  shows "list_all chunk_ok (data_parts opts txt)"
proof -
  have "list_all chunk_ok (pieces BUFSIZ txt)"
    using pieces_bounds by (fastforce simp: list_all_iff chunk_ok_def BUFSIZ_def MAX_UINT32_def)
  moreover have "list_all chunk_ok (payload_head opts)" "list_all chunk_ok (payload_tail opts)"
    "chunk_ok rpc_head" "chunk_ok ''</rpc>''"
    using assms
    by (simp_all add: payload_head_def payload_tail_def rpc_head_def name_defs chunk_ok_def MAX_UINT32_def)
  ultimately show ?thesis by (simp add: data_parts_def)
qed

section \<open>Properties\<close>

text \<open>
  C6. A request from a data file with the chunked framing: for an ASCII file of any size, read in
  binary or as text, over SSH or over a TCP socket that takes every buffer, sending succeeds, and
  the peer reads one message, which is the \<open>rpc\<close> element around the operation's element around the
  exact content of the file, however the network splits the octets.
\<close>

theorem data_file_delivered:
  assumes "tr_framing c = FRAMING_1_1" and "tr_saved c = ReqStr []"
    and "ascii (content d)" and "ascii (o_db opts)" and "length (o_db opts) \<le> 1000"
  shows "\<exists>c' sent. send_file k opts (DataFile d) c = Inr c' \<and> tr_out c' = tr_out c @ sent \<and>
     (\<forall>segs. live segs \<and> concat segs = sent \<longrightarrow>
        (\<exists>t'. recv_msg ((transport_init segs)\<lparr>tr_framing := FRAMING_1_1\<rparr>) =
           (t', Inr (u (data_message opts (content d)))) \<and> stream t' = []))"
proof -
  let ?ms = "data_parts opts (content d)"
  let ?rs = "reqs [rpc_head] @ reqs (payload_head opts) @ file_chunks d @ reqs (payload_tail opts) @
      reqs [''</rpc>'']"
  have asc: "list_all ascii ?ms" using data_parts_ascii [OF assms(4,3)] .
  then have "list_all2 carries ?rs ?ms"
    unfolding data_parts_def
    by (intro list_all2_appendI reqs_carry file_chunks_carry [OF assms(3)]) simp_all
  moreover have "ssh_inv c" "ssh_written c = tr_out c"
    using assms(2) by (simp_all add: ssh_inv_def ssh_written_def)
  ultimately obtain c' where c': "send_file k opts (DataFile d) c = Inr c'"
    and out: "tr_out c' = tr_out c @ concat (map chunk_frame ?ms) @ EOM_1_1"
    using ssh.send_all_eom [of c ?rs ?ms] tcp.send_all_eom [of c ?rs ?ms] assms(1)
    by (cases k) auto
  have "\<exists>t'. recv_msg ((transport_init segs)\<lparr>tr_framing := FRAMING_1_1\<rparr>) =
      (t', Inr (u (data_message opts (content d)))) \<and> stream t' = []"
    if "live segs" "concat segs = concat (map chunk_frame ?ms) @ EOM_1_1" for segs
  proof -
    let ?t = "(transport_init segs)\<lparr>tr_framing := FRAMING_1_1\<rparr>"
    have st: "stream ?t = concat (map chunk_frame ?ms) @ EOM_1_1 @ []"
      using that(2) by (simp add: stream_def transport_init_def)
    have dec: "map utf8_decode ?ms = map Some (map u ?ms)"
      using asc by (simp add: list_all_iff utf8_decode_ascii)
    have "concat (map u ?ms) = u (data_message opts (content d))"
      by (simp flip: data_parts_concat u_concat)
    with recv_chunks [OF _ _ st data_parts_ok [OF assms(5)] dec, of "[]"] that(1) show ?thesis
      by (auto simp: recv_msg_def transport_init_def)
  qed
  with c' out show ?thesis by blast
qed

lemma data_file_delivered_witness:
  "\<exists>c' sent. send_file SSH (default_options\<lparr>o_edit := ''edit.xml''\<rparr>) (DataFile (Bytes ''<a/>''))
     ((transport_init [])\<lparr>tr_framing := FRAMING_1_1\<rparr>) = Inr c' \<and> tr_out c' = sent \<and>
     (\<forall>segs. live segs \<and> concat segs = sent \<longrightarrow>
        (\<exists>t'. recv_msg ((transport_init segs)\<lparr>tr_framing := FRAMING_1_1\<rparr>) =
           (t', Inr (u (data_message (default_options\<lparr>o_edit := ''edit.xml''\<rparr>) ''<a/>''))) \<and> stream t' = []))"
  using data_file_delivered [of "(transport_init [])\<lparr>tr_framing := FRAMING_1_1\<rparr>" "Bytes ''<a/>''"
      "default_options\<lparr>o_edit := ''edit.xml''\<rparr>" SSH]
  by (simp add: transport_init_def default_options_def)

lemma ssh_send_small:
  assumes "tr_saved t = ReqStr v" and "length v + length s < BUFSIZ"
  shows "ssh_send (ReqStr s) t = Inr (t\<lparr>tr_saved := ReqStr (v @ s)\<rparr>)"
  using assms by (simp add: ssh_send_def)

lemma send_all_small:
  assumes "tr_framing t = FRAMING_1_0" and "tr_saved t = ReqStr v"
    and "length v + length (concat ss) < BUFSIZ"
  shows "send_all (send ssh_send) (reqs ss @ rs) t =
     send_all (send ssh_send) rs (t\<lparr>tr_saved := ReqStr (v @ u (concat ss))\<rparr>)"
  using assms
proof (induction ss arbitrary: t v)
  case Nil
  then have "t\<lparr>tr_saved := ReqStr v\<rparr> = t" by (cases t) simp
  then show ?case by simp
next
  case (Cons s ss)
  then have "send ssh_send (ReqStr (u s)) t = Inr (t\<lparr>tr_saved := ReqStr (v @ u s)\<rparr>)"
    by (simp add: send_def ssh_send_small)
  with Cons.IH [of "t\<lparr>tr_saved := ReqStr (v @ u s)\<rparr>" "v @ u s"] Cons.prems show ?case by simp
qed

lemma payload_head_length: "length (o_db opts) \<le> 1000 \<Longrightarrow> length (concat (payload_head opts)) \<le> 2000"
  by (simp add: payload_head_def name_defs)

text \<open>
  The same request with the end-of-message framing over SSH, from a file that is not empty and not
  standard input: the text in the SSH buffer and the octets of the file cannot be concatenated, and the
  session ends with \<open>TypeError\<close> before anything of the request is sent.
\<close>

theorem ssh_data_file_fails:
  assumes "tr_framing c = FRAMING_1_0" and "tr_saved c = ReqStr []" and "b \<noteq> []"
    and "length (o_db opts) \<le> 1000"
  shows "send_file SSH opts (DataFile (Bytes b)) c = Inl TypeError"
proof -
  let ?ss = "[rpc_head] @ payload_head opts"
  let ?tail = "reqs (payload_tail opts) @ reqs [''</rpc>'']"
  have "BUFSIZ \<noteq> 0" by (simp add: BUFSIZ_def)
  then obtain p ps where p: "pieces BUFSIZ b = p # ps"
    using assms(3) by (simp add: pieces.simps [of BUFSIZ b])
  have "length (concat ?ss) < BUFSIZ"
    using payload_head_length [OF assms(4)] by (simp add: rpc_head_def name_defs BUFSIZ_def)
  then have "send_all (send ssh_send) (reqs ?ss @ map ReqBytes (pieces BUFSIZ b) @ ?tail) c =
      send_all (send ssh_send) (map ReqBytes (pieces BUFSIZ b) @ ?tail) (c\<lparr>tr_saved := ReqStr (u (concat ?ss))\<rparr>)"
    using send_all_small [OF assms(1,2), of ?ss] by simp
  also have "\<dots> = Inl TypeError"
    using assms(1) by (simp add: p send_def ssh_send_def rpc_head_def)
  finally show ?thesis by simp
qed

lemma ssh_data_file_fails_witness:
  "send_file SSH (default_options\<lparr>o_edit := ''edit.xml''\<rparr>) (DataFile (Bytes ''<a/>'')) (transport_init []) = Inl TypeError"
  by (rule ssh_data_file_fails) (simp_all add: transport_init_def default_options_def)

lemma reply_loop_chunks:
  assumes "filter (\<lambda>e. e \<noteq> TimedOut) evs = map (Received 1) cs @ [Received 0 []]"
  shows "\<exists>s' rest. reply_loop do_print evs s = (Complete, s', rest) \<and>
     rs_written s' = rs_written s @ (if do_print then concat cs else []) \<and>
     rs_nchunks s' = rs_nchunks s + length cs + 1"
  using assms
proof (induction do_print evs s arbitrary: cs rule: reply_loop.induct)
  case (2 do_print evs s)
  then show ?case by simp
next
  case (3 do_print code chunk evs s)
  show ?case
  proof (cases cs)
    case Nil
    with "3.prems" show ?thesis by simp
  next
    case (Cons c cs')
    with "3.prems" have "code = 1" "chunk = c"
      "filter (\<lambda>e. e \<noteq> TimedOut) evs = map (Received 1) cs' @ [Received 0 []]" by simp_all
    with "3.IH" [OF refl _ refl, of cs'] Cons show ?thesis by (fastforce simp: Let_def)
  qed
qed simp

text \<open>
  Reading a reply: whatever timeouts come between its chunks, the chunks of a complete reply are
  printed once each and in order, and nothing is printed when printing is off.
\<close>

theorem reply_loop_prints:
  assumes "filter (\<lambda>e. e \<noteq> TimedOut) evs = map (Received 1) cs @ [Received 0 []]"
  shows "\<exists>s' rest. reply_loop do_print evs \<lparr>rs_chunk = [], rs_latest_msg = [], rs_written = [], rs_nchunks = 0, rs_full_msg = []\<rparr> =
       (Complete, s', rest) \<and>
     rs_written s' = (if do_print then concat cs else []) \<and> rs_nchunks s' = length cs + 1"
  using reply_loop_chunks [OF assms,
      of do_print "\<lparr>rs_chunk = [], rs_latest_msg = [], rs_written = [], rs_nchunks = 0, rs_full_msg = []\<rparr>"] by simp

lemma reply_loop_prints_witness:
  "\<exists>s' rest. reply_loop True [TimedOut, Received 1 (u ''<a>''), TimedOut, Received 1 (u ''</a>''), Received 0 []]
       \<lparr>rs_chunk = [], rs_latest_msg = [], rs_written = [], rs_nchunks = 0, rs_full_msg = []\<rparr> = (Complete, s', rest) \<and>
     rs_written s' = u ''<a></a>''"
  using reply_loop_prints [of "[TimedOut, Received 1 (u ''<a>''), TimedOut, Received 1 (u ''</a>''), Received 0 []]"
      "[u ''<a>'', u ''</a>'']" True]
  by simp

end
