(* ===== verification/Netconf_Options.thy ===== *)
theory Netconf_Options
  imports Py_Optparse Netconf_Session
begin

text \<open>
  The command line of \<open>confd-sync-py/app/netconf_console.py\<close>: the values of \<open>build_options_parser\<close> with their defaults, and the
  parser itself, in the order of the source. The record extends the options that the rest of the program uses
  by those for the connection. The texts of the help are left out.
\<close>

section \<open>Values\<close>

record console_options = options +
  co_debug :: bool
  co_username :: string
  co_password :: string
  co_host :: string
  co_port :: int
  co_listen_address :: string
  co_listen_port :: int
  co_privKeyType :: string
  co_privKeyFile :: string
  co_groups :: string
  co_supgroups :: string

definition default_console_options :: console_options where
  "default_console_options =
     \<lparr>o_rpc_attribute = [], o_xpath = [], o_wdefaults = [], o_winactive = False, o_subtree_filter = [],
      o_config_filter = None, o_max_depth = [], o_db = ''running'', o_get = False, o_getConfig = None,
      o_getData = None, o_rpc = [], o_edit = [], o_edit_data = [], o_copy = [], o_kill_session = [],
      o_discard_changes = False, o_commit = False, o_validate = False, o_copy_running_to_startup = False,
      o_get_schema = None, o_create_subscription = None, o_establish_subscription = None, o_start_time = [],
      o_stop_time = [], o_hello = False, o_interactive = False, o_listen = False, o_proto = ''ssh'',
      o_style = ''default'', o_version = None, o_iter = 1, co_debug = False, co_username = ''admin'',
      co_password = ''admin'', co_host = ''localhost'', co_port = 2022, co_listen_address = ''0.0.0.0'',
      co_listen_port = 4334, co_privKeyType = [], co_privKeyFile = [], co_groups = [], co_supgroups = []\<rparr>"

text \<open>A callback on these values, with the number of arguments that it takes.\<close>

definition option_callback ::
  "(string list \<Rightarrow> options \<Rightarrow> options \<times> string list) \<Rightarrow> string list \<Rightarrow> console_options \<Rightarrow> console_options \<times> nat" where
  "option_callback f rargs r =
     (let (b, rest) = f rargs (options.truncate r)
      in (options.extend b (options.more r), length rargs - length rest))"

section \<open>The parser\<close>

definition standard_options :: "console_options opt_parser" where
  "standard_options =
     [([''-h'', ''--help''], Help),
      ([''-v'', ''--version''], Store (\<lambda>v r. r\<lparr>o_version := Some v\<rparr>)),
      ([''-d'', ''--debug''], StoreTrue (\<lambda>r. r\<lparr>co_debug := True\<rparr>)),
      ([''-u'', ''--user''], Store (\<lambda>v r. r\<lparr>co_username := v\<rparr>)),
      ([''-p'', ''--password''], Store (\<lambda>v r. r\<lparr>co_password := v\<rparr>)),
      ([''--proto''], Store (\<lambda>v r. r\<lparr>o_proto := v\<rparr>)),
      ([''--host''], Store (\<lambda>v r. r\<lparr>co_host := v\<rparr>)),
      ([''--port''], StoreInt (\<lambda>i r. r\<lparr>co_port := i\<rparr>)),
      ([''--listen''], StoreTrue (\<lambda>r. r\<lparr>o_listen := True\<rparr>)),
      ([''--listen-address''], Store (\<lambda>v r. r\<lparr>co_listen_address := v\<rparr>)),
      ([''--listen-port''], StoreInt (\<lambda>i r. r\<lparr>co_listen_port := i\<rparr>)),
      ([''--iter''], StoreInt (\<lambda>i r. r\<lparr>o_iter := i\<rparr>)),
      ([''-i'', ''--interactive''], StoreTrue (\<lambda>r. r\<lparr>o_interactive := True\<rparr>))]"

definition style_options :: "console_options opt_parser" where
  "style_options =
     [([''-s'', ''--outputStyle''], Store (\<lambda>v r. r\<lparr>o_style := v\<rparr>))]"

definition ssh_options :: "console_options opt_parser" where
  "ssh_options =
     [([''--privKeyType''], Store (\<lambda>v r. r\<lparr>co_privKeyType := v\<rparr>)),
      ([''--privKeyFile''], Store (\<lambda>v r. r\<lparr>co_privKeyFile := v\<rparr>))]"

definition tcp_options :: "console_options opt_parser" where
  "tcp_options =
     [([''-g'', ''--groups''], Store (\<lambda>v r. r\<lparr>co_groups := v\<rparr>)),
      ([''-G'', ''--sup-groups''], Store (\<lambda>v r. r\<lparr>co_supgroups := v\<rparr>))]"

definition command_options :: "console_options opt_parser" where
  "command_options =
     [([''--hello''], StoreTrue (\<lambda>r. r\<lparr>o_hello := True\<rparr>)),
      ([''--get''], StoreTrue (\<lambda>r. r\<lparr>o_get := True\<rparr>)),
      ([''--get-config''], Callback (option_callback get_config_opt)),
      ([''--get-data''], Callback (option_callback get_data_opt)),
      ([''--max-depth''], Store (\<lambda>v r. r\<lparr>o_max_depth := v\<rparr>)),
      ([''--config-filter''], Store (\<lambda>v r. r\<lparr>o_config_filter := Some v\<rparr>)),
      ([''--subtree-filter''], Store (\<lambda>v r. r\<lparr>o_subtree_filter := v\<rparr>)),
      ([''--db''], Store (\<lambda>v r. r\<lparr>o_db := v\<rparr>)),
      ([''--with-defaults''], Store (\<lambda>v r. r\<lparr>o_wdefaults := v\<rparr>)),
      ([''--with-inactive''], StoreTrue (\<lambda>r. r\<lparr>o_winactive := True\<rparr>)),
      ([''-x'', ''--xpath''], Callback (option_callback opt_xpath)),
      ([''--kill-session''], Store (\<lambda>v r. r\<lparr>o_kill_session := v\<rparr>)),
      ([''--discard-changes''], StoreTrue (\<lambda>r. r\<lparr>o_discard_changes := True\<rparr>)),
      ([''--commit''], StoreTrue (\<lambda>r. r\<lparr>o_commit := True\<rparr>)),
      ([''--validate''], StoreTrue (\<lambda>r. r\<lparr>o_validate := True\<rparr>)),
      ([''--copy-running-to-startup''], StoreTrue (\<lambda>r. r\<lparr>o_copy_running_to_startup := True\<rparr>)),
      ([''--copy-config''], Store (\<lambda>v r. r\<lparr>o_copy := v\<rparr>)),
      ([''--edit-config''], Store (\<lambda>v r. r\<lparr>o_edit := v\<rparr>)),
      ([''--edit-data''], Store (\<lambda>v r. r\<lparr>o_edit_data := v\<rparr>)),
      ([''--get-schema''], Store (\<lambda>v r. r\<lparr>o_get_schema := Some v\<rparr>)),
      ([''--create-subscription''], Store (\<lambda>v r. r\<lparr>o_create_subscription := Some v\<rparr>)),
      ([''--establish-subscription''], Store (\<lambda>v r. r\<lparr>o_establish_subscription := Some v\<rparr>)),
      ([''--rpc''], Store (\<lambda>v r. r\<lparr>o_rpc := v\<rparr>)),
      ([''--start-time''], Store (\<lambda>v r. r\<lparr>o_start_time := v\<rparr>)),
      ([''--stop-time''], Store (\<lambda>v r. r\<lparr>o_stop_time := v\<rparr>)),
      ([''--rpc-attribute''], Store (\<lambda>v r. r\<lparr>o_rpc_attribute := v\<rparr>))]"

definition build_options_parser :: "console_options opt_parser" where
  "build_options_parser = standard_options @ style_options @ ssh_options @ tcp_options @ command_options"

section \<open>The command line of given values\<close>

definition opt_setting :: "string \<Rightarrow> string option \<Rightarrow> opt_item list" where
  "opt_setting n v = (case v of Some x \<Rightarrow> [LongValue n x] | None \<Rightarrow> [])"

definition flag_setting :: "string \<Rightarrow> bool \<Rightarrow> opt_item list" where
  "flag_setting n b = (if b then [LongFlag n] else [])"

definition option_settings :: "console_options \<Rightarrow> opt_item list" where
  "option_settings v =
     [LongValue ''--user'' (co_username v)] @
     [LongValue ''--password'' (co_password v)] @
     [LongValue ''--proto'' (o_proto v)] @
     [LongValue ''--host'' (co_host v)] @
     [LongValue ''--port'' (int_str (co_port v))] @
     [LongValue ''--listen-address'' (co_listen_address v)] @
     [LongValue ''--listen-port'' (int_str (co_listen_port v))] @
     [LongValue ''--iter'' (int_str (o_iter v))] @
     [LongValue ''--outputStyle'' (o_style v)] @
     [LongValue ''--privKeyType'' (co_privKeyType v)] @
     [LongValue ''--privKeyFile'' (co_privKeyFile v)] @
     [LongValue ''--groups'' (co_groups v)] @
     [LongValue ''--sup-groups'' (co_supgroups v)] @
     [LongValue ''--max-depth'' (o_max_depth v)] @
     [LongValue ''--subtree-filter'' (o_subtree_filter v)] @
     [LongValue ''--db'' (o_db v)] @
     [LongValue ''--with-defaults'' (o_wdefaults v)] @
     [LongValue ''--kill-session'' (o_kill_session v)] @
     [LongValue ''--copy-config'' (o_copy v)] @
     [LongValue ''--edit-config'' (o_edit v)] @
     [LongValue ''--edit-data'' (o_edit_data v)] @
     [LongValue ''--rpc'' (o_rpc v)] @
     [LongValue ''--start-time'' (o_start_time v)] @
     [LongValue ''--stop-time'' (o_stop_time v)] @
     [LongValue ''--rpc-attribute'' (o_rpc_attribute v)] @
     opt_setting ''--version'' (o_version v) @
     flag_setting ''--debug'' (co_debug v) @
     flag_setting ''--listen'' (o_listen v) @
     flag_setting ''--interactive'' (o_interactive v) @
     flag_setting ''--hello'' (o_hello v) @
     flag_setting ''--get'' (o_get v) @
     opt_setting ''--config-filter'' (o_config_filter v) @
     flag_setting ''--with-inactive'' (o_winactive v) @
     flag_setting ''--discard-changes'' (o_discard_changes v) @
     flag_setting ''--commit'' (o_commit v) @
     flag_setting ''--validate'' (o_validate v) @
     flag_setting ''--copy-running-to-startup'' (o_copy_running_to_startup v) @
     opt_setting ''--get-schema'' (o_get_schema v) @
     opt_setting ''--create-subscription'' (o_create_subscription v) @
     opt_setting ''--establish-subscription'' (o_establish_subscription v)"

definition callback_args :: "console_options \<Rightarrow> string list" where
  "callback_args v =
     (if o_xpath v = [] then [] else [''-x'', drop 1 (o_xpath v)]) @
     (case o_getConfig v of None \<Rightarrow> [] | Some db \<Rightarrow> [''--get-config'', db]) @
     (case o_getData v of None \<Rightarrow> [] | Some db \<Rightarrow> [''--get-data'', db])"

definition command_line :: "console_options \<Rightarrow> string list" where
  "command_line v = callback_args v @ concat (map item_args (option_settings v))"

text \<open>The values that a command line can give: the filter starts with a blank, and datastores do not look like options.\<close>

definition expressible :: "console_options \<Rightarrow> bool" where
  "expressible v \<longleftrightarrow>
     (o_xpath v = [] \<or> take 1 (o_xpath v) = '' '' \<and> \<not> is_option_arg (drop 1 (o_xpath v))) \<and>
     (case o_getConfig v of None \<Rightarrow> True | Some db \<Rightarrow> \<not> startswith db ''-'') \<and>
     (case o_getData v of None \<Rightarrow> True | Some db \<Rightarrow> \<not> startswith db ''-'')"

section \<open>Lemmas\<close>

lemmas parser_tables = standard_options_def style_options_def ssh_options_def tcp_options_def command_options_def

lemma long_opt_build:
  "long_opt build_options_parser =
     [(''--help'', Help),
      (''--version'', Store (\<lambda>v r. r\<lparr>o_version := Some v\<rparr>)),
      (''--debug'', StoreTrue (\<lambda>r. r\<lparr>co_debug := True\<rparr>)),
      (''--user'', Store (\<lambda>v r. r\<lparr>co_username := v\<rparr>)),
      (''--password'', Store (\<lambda>v r. r\<lparr>co_password := v\<rparr>)),
      (''--proto'', Store (\<lambda>v r. r\<lparr>o_proto := v\<rparr>)),
      (''--host'', Store (\<lambda>v r. r\<lparr>co_host := v\<rparr>)),
      (''--port'', StoreInt (\<lambda>i r. r\<lparr>co_port := i\<rparr>)),
      (''--listen'', StoreTrue (\<lambda>r. r\<lparr>o_listen := True\<rparr>)),
      (''--listen-address'', Store (\<lambda>v r. r\<lparr>co_listen_address := v\<rparr>)),
      (''--listen-port'', StoreInt (\<lambda>i r. r\<lparr>co_listen_port := i\<rparr>)),
      (''--iter'', StoreInt (\<lambda>i r. r\<lparr>o_iter := i\<rparr>)),
      (''--interactive'', StoreTrue (\<lambda>r. r\<lparr>o_interactive := True\<rparr>)),
      (''--outputStyle'', Store (\<lambda>v r. r\<lparr>o_style := v\<rparr>)),
      (''--privKeyType'', Store (\<lambda>v r. r\<lparr>co_privKeyType := v\<rparr>)),
      (''--privKeyFile'', Store (\<lambda>v r. r\<lparr>co_privKeyFile := v\<rparr>)),
      (''--groups'', Store (\<lambda>v r. r\<lparr>co_groups := v\<rparr>)),
      (''--sup-groups'', Store (\<lambda>v r. r\<lparr>co_supgroups := v\<rparr>)),
      (''--hello'', StoreTrue (\<lambda>r. r\<lparr>o_hello := True\<rparr>)),
      (''--get'', StoreTrue (\<lambda>r. r\<lparr>o_get := True\<rparr>)),
      (''--get-config'', Callback (option_callback get_config_opt)),
      (''--get-data'', Callback (option_callback get_data_opt)),
      (''--max-depth'', Store (\<lambda>v r. r\<lparr>o_max_depth := v\<rparr>)),
      (''--config-filter'', Store (\<lambda>v r. r\<lparr>o_config_filter := Some v\<rparr>)),
      (''--subtree-filter'', Store (\<lambda>v r. r\<lparr>o_subtree_filter := v\<rparr>)),
      (''--db'', Store (\<lambda>v r. r\<lparr>o_db := v\<rparr>)),
      (''--with-defaults'', Store (\<lambda>v r. r\<lparr>o_wdefaults := v\<rparr>)),
      (''--with-inactive'', StoreTrue (\<lambda>r. r\<lparr>o_winactive := True\<rparr>)),
      (''--xpath'', Callback (option_callback opt_xpath)),
      (''--kill-session'', Store (\<lambda>v r. r\<lparr>o_kill_session := v\<rparr>)),
      (''--discard-changes'', StoreTrue (\<lambda>r. r\<lparr>o_discard_changes := True\<rparr>)),
      (''--commit'', StoreTrue (\<lambda>r. r\<lparr>o_commit := True\<rparr>)),
      (''--validate'', StoreTrue (\<lambda>r. r\<lparr>o_validate := True\<rparr>)),
      (''--copy-running-to-startup'', StoreTrue (\<lambda>r. r\<lparr>o_copy_running_to_startup := True\<rparr>)),
      (''--copy-config'', Store (\<lambda>v r. r\<lparr>o_copy := v\<rparr>)),
      (''--edit-config'', Store (\<lambda>v r. r\<lparr>o_edit := v\<rparr>)),
      (''--edit-data'', Store (\<lambda>v r. r\<lparr>o_edit_data := v\<rparr>)),
      (''--get-schema'', Store (\<lambda>v r. r\<lparr>o_get_schema := Some v\<rparr>)),
      (''--create-subscription'', Store (\<lambda>v r. r\<lparr>o_create_subscription := Some v\<rparr>)),
      (''--establish-subscription'', Store (\<lambda>v r. r\<lparr>o_establish_subscription := Some v\<rparr>)),
      (''--rpc'', Store (\<lambda>v r. r\<lparr>o_rpc := v\<rparr>)),
      (''--start-time'', Store (\<lambda>v r. r\<lparr>o_start_time := v\<rparr>)),
      (''--stop-time'', Store (\<lambda>v r. r\<lparr>o_stop_time := v\<rparr>)),
      (''--rpc-attribute'', Store (\<lambda>v r. r\<lparr>o_rpc_attribute := v\<rparr>))]"
  by (simp add: long_opt_def opt_strings_def build_options_parser_def parser_tables)

lemma long_options:
  "map_of (long_opt build_options_parser) ''--version'' = Some (Store (\<lambda>v r. r\<lparr>o_version := Some v\<rparr>))"
  "map_of (long_opt build_options_parser) ''--debug'' = Some (StoreTrue (\<lambda>r. r\<lparr>co_debug := True\<rparr>))"
  "map_of (long_opt build_options_parser) ''--user'' = Some (Store (\<lambda>v r. r\<lparr>co_username := v\<rparr>))"
  "map_of (long_opt build_options_parser) ''--password'' = Some (Store (\<lambda>v r. r\<lparr>co_password := v\<rparr>))"
  "map_of (long_opt build_options_parser) ''--proto'' = Some (Store (\<lambda>v r. r\<lparr>o_proto := v\<rparr>))"
  "map_of (long_opt build_options_parser) ''--host'' = Some (Store (\<lambda>v r. r\<lparr>co_host := v\<rparr>))"
  "map_of (long_opt build_options_parser) ''--port'' = Some (StoreInt (\<lambda>i r. r\<lparr>co_port := i\<rparr>))"
  "map_of (long_opt build_options_parser) ''--listen'' = Some (StoreTrue (\<lambda>r. r\<lparr>o_listen := True\<rparr>))"
  "map_of (long_opt build_options_parser) ''--listen-address'' = Some (Store (\<lambda>v r. r\<lparr>co_listen_address := v\<rparr>))"
  "map_of (long_opt build_options_parser) ''--listen-port'' = Some (StoreInt (\<lambda>i r. r\<lparr>co_listen_port := i\<rparr>))"
  "map_of (long_opt build_options_parser) ''--iter'' = Some (StoreInt (\<lambda>i r. r\<lparr>o_iter := i\<rparr>))"
  "map_of (long_opt build_options_parser) ''--interactive'' = Some (StoreTrue (\<lambda>r. r\<lparr>o_interactive := True\<rparr>))"
  "map_of (long_opt build_options_parser) ''--outputStyle'' = Some (Store (\<lambda>v r. r\<lparr>o_style := v\<rparr>))"
  "map_of (long_opt build_options_parser) ''--privKeyType'' = Some (Store (\<lambda>v r. r\<lparr>co_privKeyType := v\<rparr>))"
  "map_of (long_opt build_options_parser) ''--privKeyFile'' = Some (Store (\<lambda>v r. r\<lparr>co_privKeyFile := v\<rparr>))"
  "map_of (long_opt build_options_parser) ''--groups'' = Some (Store (\<lambda>v r. r\<lparr>co_groups := v\<rparr>))"
  "map_of (long_opt build_options_parser) ''--sup-groups'' = Some (Store (\<lambda>v r. r\<lparr>co_supgroups := v\<rparr>))"
  "map_of (long_opt build_options_parser) ''--hello'' = Some (StoreTrue (\<lambda>r. r\<lparr>o_hello := True\<rparr>))"
  "map_of (long_opt build_options_parser) ''--get'' = Some (StoreTrue (\<lambda>r. r\<lparr>o_get := True\<rparr>))"
  "map_of (long_opt build_options_parser) ''--get-config'' = Some (Callback (option_callback get_config_opt))"
  "map_of (long_opt build_options_parser) ''--get-data'' = Some (Callback (option_callback get_data_opt))"
  "map_of (long_opt build_options_parser) ''--max-depth'' = Some (Store (\<lambda>v r. r\<lparr>o_max_depth := v\<rparr>))"
  "map_of (long_opt build_options_parser) ''--config-filter'' = Some (Store (\<lambda>v r. r\<lparr>o_config_filter := Some v\<rparr>))"
  "map_of (long_opt build_options_parser) ''--subtree-filter'' = Some (Store (\<lambda>v r. r\<lparr>o_subtree_filter := v\<rparr>))"
  "map_of (long_opt build_options_parser) ''--db'' = Some (Store (\<lambda>v r. r\<lparr>o_db := v\<rparr>))"
  "map_of (long_opt build_options_parser) ''--with-defaults'' = Some (Store (\<lambda>v r. r\<lparr>o_wdefaults := v\<rparr>))"
  "map_of (long_opt build_options_parser) ''--with-inactive'' = Some (StoreTrue (\<lambda>r. r\<lparr>o_winactive := True\<rparr>))"
  "map_of (long_opt build_options_parser) ''--xpath'' = Some (Callback (option_callback opt_xpath))"
  "map_of (long_opt build_options_parser) ''--kill-session'' = Some (Store (\<lambda>v r. r\<lparr>o_kill_session := v\<rparr>))"
  "map_of (long_opt build_options_parser) ''--discard-changes'' = Some (StoreTrue (\<lambda>r. r\<lparr>o_discard_changes := True\<rparr>))"
  "map_of (long_opt build_options_parser) ''--commit'' = Some (StoreTrue (\<lambda>r. r\<lparr>o_commit := True\<rparr>))"
  "map_of (long_opt build_options_parser) ''--validate'' = Some (StoreTrue (\<lambda>r. r\<lparr>o_validate := True\<rparr>))"
  "map_of (long_opt build_options_parser) ''--copy-running-to-startup'' = Some (StoreTrue (\<lambda>r. r\<lparr>o_copy_running_to_startup := True\<rparr>))"
  "map_of (long_opt build_options_parser) ''--copy-config'' = Some (Store (\<lambda>v r. r\<lparr>o_copy := v\<rparr>))"
  "map_of (long_opt build_options_parser) ''--edit-config'' = Some (Store (\<lambda>v r. r\<lparr>o_edit := v\<rparr>))"
  "map_of (long_opt build_options_parser) ''--edit-data'' = Some (Store (\<lambda>v r. r\<lparr>o_edit_data := v\<rparr>))"
  "map_of (long_opt build_options_parser) ''--get-schema'' = Some (Store (\<lambda>v r. r\<lparr>o_get_schema := Some v\<rparr>))"
  "map_of (long_opt build_options_parser) ''--create-subscription'' = Some (Store (\<lambda>v r. r\<lparr>o_create_subscription := Some v\<rparr>))"
  "map_of (long_opt build_options_parser) ''--establish-subscription'' = Some (Store (\<lambda>v r. r\<lparr>o_establish_subscription := Some v\<rparr>))"
  "map_of (long_opt build_options_parser) ''--rpc'' = Some (Store (\<lambda>v r. r\<lparr>o_rpc := v\<rparr>))"
  "map_of (long_opt build_options_parser) ''--start-time'' = Some (Store (\<lambda>v r. r\<lparr>o_start_time := v\<rparr>))"
  "map_of (long_opt build_options_parser) ''--stop-time'' = Some (Store (\<lambda>v r. r\<lparr>o_stop_time := v\<rparr>))"
  "map_of (long_opt build_options_parser) ''--rpc-attribute'' = Some (Store (\<lambda>v r. r\<lparr>o_rpc_attribute := v\<rparr>))"
  by (simp_all add: long_opt_build)

lemma long_action_exact:
  "map_of (long_opt p) n = Some a \<Longrightarrow> take 2 n = ''--'' \<Longrightarrow> n \<noteq> ''--'' \<Longrightarrow> CHR ''='' \<notin> set n \<Longrightarrow> long_action p n = Some a"
  by (force simp: long_action_def match_abbrev_def dest: map_of_SomeD)

lemma flag_updates:
  "(if b then r\<lparr>co_debug := True\<rparr> else r) = r\<lparr>co_debug := (b \<or> co_debug r)\<rparr>"
  "(if b then r\<lparr>o_listen := True\<rparr> else r) = r\<lparr>o_listen := (b \<or> o_listen r)\<rparr>"
  "(if b then r\<lparr>o_interactive := True\<rparr> else r) = r\<lparr>o_interactive := (b \<or> o_interactive r)\<rparr>"
  "(if b then r\<lparr>o_hello := True\<rparr> else r) = r\<lparr>o_hello := (b \<or> o_hello r)\<rparr>"
  "(if b then r\<lparr>o_get := True\<rparr> else r) = r\<lparr>o_get := (b \<or> o_get r)\<rparr>"
  "(if b then r\<lparr>o_winactive := True\<rparr> else r) = r\<lparr>o_winactive := (b \<or> o_winactive r)\<rparr>"
  "(if b then r\<lparr>o_discard_changes := True\<rparr> else r) = r\<lparr>o_discard_changes := (b \<or> o_discard_changes r)\<rparr>"
  "(if b then r\<lparr>o_commit := True\<rparr> else r) = r\<lparr>o_commit := (b \<or> o_commit r)\<rparr>"
  "(if b then r\<lparr>o_validate := True\<rparr> else r) = r\<lparr>o_validate := (b \<or> o_validate r)\<rparr>"
  "(if b then r\<lparr>o_copy_running_to_startup := True\<rparr> else r) = r\<lparr>o_copy_running_to_startup := (b \<or> o_copy_running_to_startup r)\<rparr>"
  by (cases r; simp)+

text \<open>A value that is given, or else the one that is there.\<close>

definition given :: "'a option \<Rightarrow> 'a option \<Rightarrow> 'a option" where
  "given y old = (case y of None \<Rightarrow> old | Some x \<Rightarrow> Some x)"

lemma given_None: "given y None = y"
  by (cases y) (simp_all add: given_def)

lemma opt_updates:
  "(case x of None \<Rightarrow> r | Some y \<Rightarrow> r\<lparr>o_version := Some y\<rparr>) = r\<lparr>o_version := given x (o_version r)\<rparr>"
  "(case x of None \<Rightarrow> r | Some y \<Rightarrow> r\<lparr>o_config_filter := Some y\<rparr>) = r\<lparr>o_config_filter := given x (o_config_filter r)\<rparr>"
  "(case x of None \<Rightarrow> r | Some y \<Rightarrow> r\<lparr>o_get_schema := Some y\<rparr>) = r\<lparr>o_get_schema := given x (o_get_schema r)\<rparr>"
  "(case x of None \<Rightarrow> r | Some y \<Rightarrow> r\<lparr>o_create_subscription := Some y\<rparr>) = r\<lparr>o_create_subscription := given x (o_create_subscription r)\<rparr>"
  "(case x of None \<Rightarrow> r | Some y \<Rightarrow> r\<lparr>o_establish_subscription := Some y\<rparr>) = r\<lparr>o_establish_subscription := given x (o_establish_subscription r)\<rparr>"
  by (cases x; cases r; simp add: given_def)+

definition long_name :: "string \<Rightarrow> bool" where
  "long_name n \<longleftrightarrow> take 2 n = ''--'' \<and> n \<noteq> ''--'' \<and> CHR ''='' \<notin> set n"

lemma store_effect:
  "map_of (long_opt p) n = Some (Store f) \<Longrightarrow> long_name n \<Longrightarrow>
   items_effect p (LongValue n x # its) vals = items_effect p its (f x vals)"
  by (simp add: long_action_exact long_name_def)

lemma store_int_effect:
  "map_of (long_opt p) n = Some (StoreInt f) \<Longrightarrow> long_name n \<Longrightarrow>
   items_effect p (LongValue n (int_str i) # its) vals = items_effect p its (f i vals)"
  by (simp add: long_action_exact long_name_def opt_parse_num_int_str)

lemma opt_setting_effect:
  "map_of (long_opt p) n = Some (Store f) \<Longrightarrow> long_name n \<Longrightarrow>
   items_effect p (opt_setting n x @ its) vals = items_effect p its (case x of None \<Rightarrow> vals | Some y \<Rightarrow> f y vals)"
  by (auto simp: long_action_exact long_name_def opt_setting_def split: option.splits)

lemma flag_setting_effect:
  "map_of (long_opt p) n = Some (StoreTrue f) \<Longrightarrow> long_name n \<Longrightarrow>
   items_effect p (flag_setting n b @ its) vals = items_effect p its (if b then f vals else vals)"
  by (simp add: long_action_exact long_name_def flag_setting_def)

lemmas setting_rules = opt_setting_effect [OF long_options(1)]
  flag_setting_effect [OF long_options(2)]
  store_effect [OF long_options(3)]
  store_effect [OF long_options(4)]
  store_effect [OF long_options(5)]
  store_effect [OF long_options(6)]
  store_int_effect [OF long_options(7)]
  flag_setting_effect [OF long_options(8)]
  store_effect [OF long_options(9)]
  store_int_effect [OF long_options(10)]
  store_int_effect [OF long_options(11)]
  flag_setting_effect [OF long_options(12)]
  store_effect [OF long_options(13)]
  store_effect [OF long_options(14)]
  store_effect [OF long_options(15)]
  store_effect [OF long_options(16)]
  store_effect [OF long_options(17)]
  flag_setting_effect [OF long_options(18)]
  flag_setting_effect [OF long_options(19)]
  store_effect [OF long_options(22)]
  opt_setting_effect [OF long_options(23)]
  store_effect [OF long_options(24)]
  store_effect [OF long_options(25)]
  store_effect [OF long_options(26)]
  flag_setting_effect [OF long_options(27)]
  store_effect [OF long_options(29)]
  flag_setting_effect [OF long_options(30)]
  flag_setting_effect [OF long_options(31)]
  flag_setting_effect [OF long_options(32)]
  flag_setting_effect [OF long_options(33)]
  store_effect [OF long_options(34)]
  store_effect [OF long_options(35)]
  store_effect [OF long_options(36)]
  opt_setting_effect [OF long_options(37)]
  opt_setting_effect [OF long_options(38)]
  opt_setting_effect [OF long_options(39)]
  store_effect [OF long_options(40)]
  store_effect [OF long_options(41)]
  store_effect [OF long_options(42)]
  store_effect [OF long_options(43)]

lemma value_effects:
  "items_effect build_options_parser (LongValue ''--user'' x # its) vals = items_effect build_options_parser its (vals\<lparr>co_username := x\<rparr>)"
  "items_effect build_options_parser (LongValue ''--password'' x # its) vals = items_effect build_options_parser its (vals\<lparr>co_password := x\<rparr>)"
  "items_effect build_options_parser (LongValue ''--proto'' x # its) vals = items_effect build_options_parser its (vals\<lparr>o_proto := x\<rparr>)"
  "items_effect build_options_parser (LongValue ''--host'' x # its) vals = items_effect build_options_parser its (vals\<lparr>co_host := x\<rparr>)"
  "items_effect build_options_parser (LongValue ''--listen-address'' x # its) vals = items_effect build_options_parser its (vals\<lparr>co_listen_address := x\<rparr>)"
  "items_effect build_options_parser (LongValue ''--outputStyle'' x # its) vals = items_effect build_options_parser its (vals\<lparr>o_style := x\<rparr>)"
  "items_effect build_options_parser (LongValue ''--privKeyType'' x # its) vals = items_effect build_options_parser its (vals\<lparr>co_privKeyType := x\<rparr>)"
  "items_effect build_options_parser (LongValue ''--privKeyFile'' x # its) vals = items_effect build_options_parser its (vals\<lparr>co_privKeyFile := x\<rparr>)"
  "items_effect build_options_parser (LongValue ''--groups'' x # its) vals = items_effect build_options_parser its (vals\<lparr>co_groups := x\<rparr>)"
  "items_effect build_options_parser (LongValue ''--sup-groups'' x # its) vals = items_effect build_options_parser its (vals\<lparr>co_supgroups := x\<rparr>)"
  "items_effect build_options_parser (LongValue ''--max-depth'' x # its) vals = items_effect build_options_parser its (vals\<lparr>o_max_depth := x\<rparr>)"
  "items_effect build_options_parser (LongValue ''--subtree-filter'' x # its) vals = items_effect build_options_parser its (vals\<lparr>o_subtree_filter := x\<rparr>)"
  "items_effect build_options_parser (LongValue ''--db'' x # its) vals = items_effect build_options_parser its (vals\<lparr>o_db := x\<rparr>)"
  "items_effect build_options_parser (LongValue ''--with-defaults'' x # its) vals = items_effect build_options_parser its (vals\<lparr>o_wdefaults := x\<rparr>)"
  "items_effect build_options_parser (LongValue ''--kill-session'' x # its) vals = items_effect build_options_parser its (vals\<lparr>o_kill_session := x\<rparr>)"
  "items_effect build_options_parser (LongValue ''--copy-config'' x # its) vals = items_effect build_options_parser its (vals\<lparr>o_copy := x\<rparr>)"
  "items_effect build_options_parser (LongValue ''--edit-config'' x # its) vals = items_effect build_options_parser its (vals\<lparr>o_edit := x\<rparr>)"
  "items_effect build_options_parser (LongValue ''--edit-data'' x # its) vals = items_effect build_options_parser its (vals\<lparr>o_edit_data := x\<rparr>)"
  "items_effect build_options_parser (LongValue ''--rpc'' x # its) vals = items_effect build_options_parser its (vals\<lparr>o_rpc := x\<rparr>)"
  "items_effect build_options_parser (LongValue ''--start-time'' x # its) vals = items_effect build_options_parser its (vals\<lparr>o_start_time := x\<rparr>)"
  "items_effect build_options_parser (LongValue ''--stop-time'' x # its) vals = items_effect build_options_parser its (vals\<lparr>o_stop_time := x\<rparr>)"
  "items_effect build_options_parser (LongValue ''--rpc-attribute'' x # its) vals = items_effect build_options_parser its (vals\<lparr>o_rpc_attribute := x\<rparr>)"
  "items_effect build_options_parser (LongValue ''--port'' (int_str i) # its) vals = items_effect build_options_parser its (vals\<lparr>co_port := i\<rparr>)"
  "items_effect build_options_parser (LongValue ''--listen-port'' (int_str i) # its) vals = items_effect build_options_parser its (vals\<lparr>co_listen_port := i\<rparr>)"
  "items_effect build_options_parser (LongValue ''--iter'' (int_str i) # its) vals = items_effect build_options_parser its (vals\<lparr>o_iter := i\<rparr>)"
  by (simp_all add: setting_rules long_name_def del: items_effect.simps)

lemma opt_effects:
  "items_effect build_options_parser (opt_setting ''--version'' y @ its) vals = items_effect build_options_parser its (vals\<lparr>o_version := given y (o_version vals)\<rparr>)"
  "items_effect build_options_parser (opt_setting ''--config-filter'' y @ its) vals = items_effect build_options_parser its (vals\<lparr>o_config_filter := given y (o_config_filter vals)\<rparr>)"
  "items_effect build_options_parser (opt_setting ''--get-schema'' y @ its) vals = items_effect build_options_parser its (vals\<lparr>o_get_schema := given y (o_get_schema vals)\<rparr>)"
  "items_effect build_options_parser (opt_setting ''--create-subscription'' y @ its) vals = items_effect build_options_parser its (vals\<lparr>o_create_subscription := given y (o_create_subscription vals)\<rparr>)"
  "items_effect build_options_parser (opt_setting ''--establish-subscription'' y @ its) vals = items_effect build_options_parser its (vals\<lparr>o_establish_subscription := given y (o_establish_subscription vals)\<rparr>)"
  by (simp_all add: setting_rules long_name_def opt_updates del: items_effect.simps)

lemma flag_effects:
  "items_effect build_options_parser (flag_setting ''--debug'' b @ its) vals = items_effect build_options_parser its (vals\<lparr>co_debug := (b \<or> co_debug vals)\<rparr>)"
  "items_effect build_options_parser (flag_setting ''--listen'' b @ its) vals = items_effect build_options_parser its (vals\<lparr>o_listen := (b \<or> o_listen vals)\<rparr>)"
  "items_effect build_options_parser (flag_setting ''--interactive'' b @ its) vals = items_effect build_options_parser its (vals\<lparr>o_interactive := (b \<or> o_interactive vals)\<rparr>)"
  "items_effect build_options_parser (flag_setting ''--hello'' b @ its) vals = items_effect build_options_parser its (vals\<lparr>o_hello := (b \<or> o_hello vals)\<rparr>)"
  "items_effect build_options_parser (flag_setting ''--get'' b @ its) vals = items_effect build_options_parser its (vals\<lparr>o_get := (b \<or> o_get vals)\<rparr>)"
  "items_effect build_options_parser (flag_setting ''--with-inactive'' b @ its) vals = items_effect build_options_parser its (vals\<lparr>o_winactive := (b \<or> o_winactive vals)\<rparr>)"
  "items_effect build_options_parser (flag_setting ''--discard-changes'' b @ its) vals = items_effect build_options_parser its (vals\<lparr>o_discard_changes := (b \<or> o_discard_changes vals)\<rparr>)"
  "items_effect build_options_parser (flag_setting ''--commit'' b @ its) vals = items_effect build_options_parser its (vals\<lparr>o_commit := (b \<or> o_commit vals)\<rparr>)"
  "items_effect build_options_parser (flag_setting ''--validate'' b @ its) vals = items_effect build_options_parser its (vals\<lparr>o_validate := (b \<or> o_validate vals)\<rparr>)"
  "items_effect build_options_parser (flag_setting ''--copy-running-to-startup'' b @ its) vals = items_effect build_options_parser its (vals\<lparr>o_copy_running_to_startup := (b \<or> o_copy_running_to_startup vals)\<rparr>)"
  by (simp_all add: setting_rules long_name_def flag_updates del: items_effect.simps)


lemma settings_effect:
  "items_effect build_options_parser (option_settings v @ its)
     (default_console_options\<lparr>o_xpath := o_xpath v, o_getConfig := o_getConfig v, o_getData := o_getData v\<rparr>) =
   items_effect build_options_parser its v"
  by (cases v) (simp add: option_settings_def value_effects opt_effects flag_effects given_None default_console_options_def
      del: items_effect.simps)

lemma short_xpath: "map_of (short_opt build_options_parser) ''-x'' = Some (Callback (option_callback opt_xpath))"
  by (simp add: short_opt_def opt_strings_def build_options_parser_def parser_tables)

lemma xpath_callback:
  assumes "\<not> is_option_arg w" and "is_option_arg arg"
  shows "option_callback opt_xpath (w # arg # rest) r = (r\<lparr>o_xpath := '' '' @ w\<rparr>, 1)"
  using assms by (cases r) (simp add: option_callback_def opt_xpath_def options.defs)

lemma db_callbacks:
  assumes "\<not> startswith db ''-''"
  shows "o_getConfig r = None \<Longrightarrow> option_callback get_config_opt (db # rest) r = (r\<lparr>o_getConfig := Some db\<rparr>, 1)"
    and "o_getData r = None \<Longrightarrow> option_callback get_data_opt (db # rest) r = (r\<lparr>o_getData := Some db\<rparr>, 1)"
  using assms by (cases r; simp add: option_callback_def get_config_opt_def get_data_opt_def db_opt_def options.defs)+

lemma process_callback:
  assumes "map_of (long_opt p) n = Some (Callback cb)" and "long_name n" and "cb rargs vals = (vals', k)"
  shows "process_args p largs (n # rargs) vals = process_args p largs (drop k rargs) vals'"
proof -
  have a: "long_action p n = Some (Callback cb)" using assms by (simp add: long_action_exact long_name_def)
  with assms long_actionD(1,2) [OF a] show ?thesis
    by (simp add: process_args_long process_long_action(1) [OF a] del: process_args.simps)
qed

lemma process_xpath:
  assumes "\<not> is_option_arg w" and "is_option_arg arg"
  shows "process_args build_options_parser largs (''-x'' # w # arg # rest) r =
    process_args build_options_parser largs (arg # rest) (r\<lparr>o_xpath := '' '' @ w\<rparr>)"
  by (simp add: process_args_short short_xpath xpath_callback [OF assms] del: process_args.simps)

lemma process_db:
  assumes "\<not> startswith db ''-''"
  shows "o_getConfig r = None \<Longrightarrow> process_args build_options_parser largs (''--get-config'' # db # rest) r =
      process_args build_options_parser largs rest (r\<lparr>o_getConfig := Some db\<rparr>)"
    and "o_getData r = None \<Longrightarrow> process_args build_options_parser largs (''--get-data'' # db # rest) r =
      process_args build_options_parser largs rest (r\<lparr>o_getData := Some db\<rparr>)"
  using assms
  by (simp_all add: process_callback [OF long_options(20)] process_callback [OF long_options(21)] long_name_def db_callbacks
      del: process_args.simps)

text \<open>What follows a filter on the command line is an option.\<close>

lemma settings_first: "\<exists>arg rest. concat (map item_args (option_settings v)) = arg # rest \<and> is_option_arg arg"
  by (simp add: option_settings_def is_option_arg_def)

lemma callbacks_performed:
  assumes "expressible v" and "concat (map item_args its) = arg # rest" and "is_option_arg arg"
  shows "process_args build_options_parser [] (callback_args v @ arg # rest @ tail) default_console_options =
    process_args build_options_parser [] (arg # rest @ tail)
      (default_console_options\<lparr>o_xpath := o_xpath v, o_getConfig := o_getConfig v, o_getData := o_getData v\<rparr>)"
proof -
  let ?P = "process_args build_options_parser []"
  let ?d = default_console_options
  let ?g = "case o_getConfig v of None \<Rightarrow> [] | Some db \<Rightarrow> [''--get-config'', db]"
  let ?h = "case o_getData v of None \<Rightarrow> [] | Some db \<Rightarrow> [''--get-data'', db]"
  let ?a = "arg # rest @ tail"
  have "\<exists>b bs. ?g @ ?h @ ?a = b # bs \<and> is_option_arg b"
    using assms(3) by (cases "o_getConfig v"; cases "o_getData v") (auto simp: is_option_arg_def)
  then obtain b bs where b: "?g @ ?h @ ?a = b # bs" "is_option_arg b" by blast
  have x: "?P (callback_args v @ ?a) ?d = ?P (?g @ ?h @ ?a) (?d\<lparr>o_xpath := o_xpath v\<rparr>)"
  proof (cases "o_xpath v = []")
    case True
    then have "?d\<lparr>o_xpath := o_xpath v\<rparr> = ?d" by (simp add: default_console_options_def)
    with True show ?thesis by (simp add: callback_args_def del: process_args.simps)
  next
    case False
    with assms(1) have w: "o_xpath v = '' '' @ drop 1 (o_xpath v)" "\<not> is_option_arg (drop 1 (o_xpath v))"
      by (cases "o_xpath v"; auto simp: expressible_def)+
    have "callback_args v @ ?a = ''-x'' # drop 1 (o_xpath v) # b # bs"
      using False b(1) by (simp add: callback_args_def)
    then show ?thesis using process_xpath [OF w(2) b(2)] w(1) b(1) by (simp del: process_args.simps)
  qed
  have g: "?P (?g @ ?h @ ?a) r = ?P (?h @ ?a) (r\<lparr>o_getConfig := o_getConfig v\<rparr>)" if "o_getConfig r = None" for r
    using that assms(1) by (cases "o_getConfig v"; cases r) (auto simp: expressible_def process_db simp del: process_args.simps)
  have h: "?P (?h @ ?a) r = ?P ?a (r\<lparr>o_getData := o_getData v\<rparr>)" if "o_getData r = None" for r
    using that assms(1) by (cases "o_getData v"; cases r) (auto simp: expressible_def process_db simp del: process_args.simps)
  show ?thesis by (subst x, subst g) (simp_all add: h default_console_options_def del: process_args.simps)
qed

section \<open>Correctness\<close>

text \<open>
  C13. C0: every expressible set of values has a command line: the parser reads exactly these values from it, whatever the texts are (empty, with
  blanks, signs or a leading dash), and leaves the arguments after the end marker as they are.
\<close>

theorem command_line_parsed:
  assumes "expressible v"
  shows "opt_parse_args build_options_parser default_console_options (command_line v @ ''--'' # files) = Inr (v, files)"
proof -
  let ?P = "process_args build_options_parser []"
  let ?d = "default_console_options\<lparr>o_xpath := o_xpath v, o_getConfig := o_getConfig v, o_getData := o_getData v\<rparr>"
  obtain arg rest where ar: "concat (map item_args (option_settings v)) = arg # rest" "is_option_arg arg"
    using settings_first by blast
  have "opt_parse_args build_options_parser default_console_options (command_line v @ ''--'' # files) =
      ?P (concat (map item_args (option_settings v)) @ ''--'' # files) ?d"
    using callbacks_performed [OF assms ar, of "''--'' # files"] ar(1)
    by (simp add: opt_parse_args_def command_line_def del: process_args.simps)
  also have "\<dots> = ?P (''--'' # files) v"
    using settings_effect [of v "[]"] by (intro process_items) simp
  finally show ?thesis by simp
qed

lemma command_line_parsed_witness:
  "opt_parse_args build_options_parser default_console_options
     (command_line (default_console_options\<lparr>o_xpath := '' /a'', o_getConfig := Some ''candidate'', co_password := ''-x y''\<rparr>) @ [''--'', ''-f''])
   = Inr (default_console_options\<lparr>o_xpath := '' /a'', o_getConfig := Some ''candidate'', co_password := ''-x y''\<rparr>, [''-f''])"
  by (rule command_line_parsed) code_simp

text \<open>
  The option for the filter takes all arguments up to the next option, file names and the end marker too: they become part of the
  filter, and no file is left.
\<close>

lemma opt_xpath_loop_all:
  "list_all (\<lambda>w. \<not> is_option_arg w) ws \<Longrightarrow> opt_xpath_loop val ws = (val @ concat (map (\<lambda>w. '' '' @ w) ws), [])"
  by (induction ws arbitrary: val) auto

theorem xpath_takes_arguments:
  assumes "list_all (\<lambda>w. \<not> is_option_arg w) ws"
  shows "opt_parse_args build_options_parser default_console_options (''-x'' # ws) =
    Inr (default_console_options\<lparr>o_xpath := concat (map (\<lambda>w. '' '' @ w) ws)\<rparr>, [])"
proof -
  have "option_callback opt_xpath ws default_console_options =
      (default_console_options\<lparr>o_xpath := concat (map (\<lambda>w. '' '' @ w) ws)\<rparr>, length ws)"
    by (simp add: option_callback_def opt_xpath_def opt_xpath_loop_all [OF assms] options.defs default_console_options_def)
  then show ?thesis
    by (simp add: opt_parse_args_def process_args_short short_xpath del: process_args.simps(2))
qed

lemma xpath_takes_arguments_witness:
  "opt_parse_args build_options_parser default_console_options [''-x'', ''/a'', ''--'', ''file''] =
     Inr (default_console_options\<lparr>o_xpath := concat (map (\<lambda>w. '' '' @ w) [''/a'', ''--'', ''file''])\<rparr>, [])"
  by (rule xpath_takes_arguments) code_simp

end
