(* ===== verification/Netconf_Console.thy ===== *)
theory Netconf_Console
  imports Netconf_Session
begin

text \<open>
  The rest of \<open>main\<close> of \<open>confd-sync-py/app/netconf_console.py\<close>: connecting, the loop over the replies with its
  printing styles, the reply with a schema, and the end of the program. One pass of the loop is \<open>console_turn\<close>; its
  environment (record \<open>turn\<close>) has the clock, the input of the user, the events of \<open>recv_chunk\<close> and the return code of
  \<open>xmllint\<close>. What is printed is a list of texts with the place where they go.
\<close>

section \<open>Connecting\<close>

text \<open>
  The addresses of a host, with what happens there. The variable \<open>sock\<close> is unbound (\<^const>\<open>None\<close>), \<open>None\<close> or a socket.
\<close>

datatype addr_try = NoSocket | Refused | Accepted nat

fun try_addrs :: "addr_try list \<Rightarrow> nat option option \<Rightarrow> nat option option" where
  "try_addrs [] sock = sock"
| "try_addrs (NoSocket # as) sock = try_addrs as (Some None)"
| "try_addrs (Refused # as) sock = try_addrs as (Some None)"
| "try_addrs (Accepted s # as) sock = Some (Some s)"

definition create_connection :: "addr_try list \<Rightarrow> nat result" where
  "create_connection addrs =
     (case try_addrs addrs None of
        None \<Rightarrow> Inl UnboundLocalError
      | Some None \<Rightarrow> Inl StdoutError
      | Some (Some s) \<Rightarrow> Inr s)"

text \<open>The first line that is sent over TCP.\<close>

definition tcp_header :: "string \<Rightarrow> string \<Rightarrow> nat \<Rightarrow> nat \<Rightarrow> string \<Rightarrow> string \<Rightarrow> string \<Rightarrow> string" where
  "tcp_header username sockname uid gid suplgids home groups =
     ''['' @ username @ '';'' @ sockname @ '';tcp;'' @ nat_str uid @ '';'' @ nat_str gid @ '';'' @ suplgids @ '';'' @ home @
     '';'' @ groups @ '';]\<newline>''"

definition tcp_connect ::
  "(bytes \<Rightarrow> nat) \<Rightarrow> addr_try list \<Rightarrow> string \<Rightarrow> string \<Rightarrow> nat \<Rightarrow> nat \<Rightarrow> string \<Rightarrow> string \<Rightarrow> string \<Rightarrow>
     transport \<Rightarrow> transport result" where
  "tcp_connect accepted addrs username sockname uid gid suplgids home groups t =
     rbind (create_connection addrs) (\<lambda>_.
       tcp_send accepted (ReqStr (u (tcp_header username sockname uid gid suplgids home groups))) t)"

section \<open>The end of a replay\<close>

text \<open>
  The search for \<open><(.*:)?notification.*<(.*:)?replayComplete\<close>, in which a dot matches anything but a line feed:
  the rests of a line behind \<open>(.*:)?p\<close>, and the search in one line.
\<close>

definition after_name :: "ustr \<Rightarrow> ustr \<Rightarrow> ustr list" where
  "after_name p s =
     [drop (k + length p) s. k \<leftarrow> 0 # [Suc i. i \<leftarrow> [0..<length s], s ! i = of_char (CHR '':'')],
                             take (length p) (drop k s) = p]"

definition after_open :: "ustr \<Rightarrow> ustr list" where
  "after_open s = [drop (Suc i) s. i \<leftarrow> [0..<length s], s ! i = of_char (CHR ''<'')]"

definition replay_line :: "ustr \<Rightarrow> bool" where
  "replay_line s =
     list_ex (\<lambda>r1. list_ex (\<lambda>r2. list_ex (\<lambda>r3. after_name (u ''replayComplete'') r3 \<noteq> []) (after_open r2))
       (after_name (u ''notification'') r1)) (after_open s)"

fun u_lines :: "ustr \<Rightarrow> ustr list" where
  "u_lines [] = [[]]"
| "u_lines (c # s) = (if c = 10 then [] # u_lines s else (c # hd (u_lines s)) # tl (u_lines s))"

definition replay_complete :: "ustr \<Rightarrow> bool" where
  "replay_complete s = list_ex replay_line (u_lines s)"

section \<open>The loop over the replies\<close>

datatype sink = ToStdout | ToXmllint

record console =
  cn_n :: int
  cn_do_print :: bool
  cn_closed :: bool
  cn_msg :: "string option"
  cn_replay_complete :: bool
  cn_latest_msg :: ustr
  cn_chunk :: ustr
  cn_received :: bool
  cn_stdout_closed :: bool
  cn_out :: "(sink \<times> ustr) list"
  cn_sent :: "string list"

record turn =
  tn_now :: int
  tn_input :: "string option"
  tn_events :: "recv_event list"
  tn_returncode :: int

text \<open>The settings that do not change in the loop.\<close>

record console_plan =
  cp_style :: string
  cp_hello :: bool
  cp_hello_reply :: ustr
  cp_interactive :: bool
  cp_subscription :: bool
  cp_get_schema :: bool
  cp_stop_time :: int

definition stop_time :: "(string \<Rightarrow> int) \<Rightarrow> options \<Rightarrow> int" where
  "stop_time timegm opts =
     (if (o_create_subscription opts \<noteq> None \<or> o_establish_subscription opts \<noteq> None) \<and> o_stop_time opts \<noteq> []
      then timegm (o_stop_time opts) else 0)"

definition make_console_plan :: "(string \<Rightarrow> int) \<Rightarrow> options \<Rightarrow> source \<Rightarrow> ustr \<Rightarrow> console_plan" where
  "make_console_plan timegm opts src hello_reply =
     (let style = snd (reply_plan opts src)
      in \<lparr>cp_style = (if style = ''default'' then ''pretty'' else style), cp_hello = o_hello opts,
          cp_hello_reply = hello_reply, cp_interactive = o_interactive opts,
          cp_subscription = (o_create_subscription opts \<noteq> None \<or> o_establish_subscription opts \<noteq> None),
          cp_get_schema = (o_get_schema opts \<noteq> None \<and> style = ''default''),
          cp_stop_time = stop_time timegm opts\<rparr>)"

fun source_msg :: "source \<Rightarrow> string option" where
  "source_msg (Message m) = Some m"
| "source_msg _ = None"

definition console_init :: "console_plan \<Rightarrow> options \<Rightarrow> source \<Rightarrow> console" where
  "console_init pl opts src =
     \<lparr>cn_n = (if cp_hello pl \<and> cp_style pl = ''raw'' then 0 else fst (reply_plan opts src)),
      cn_do_print = (cp_style pl \<noteq> ''raw''), cn_closed = False, cn_msg = source_msg src, cn_replay_complete = False,
      cn_latest_msg = [], cn_chunk = [], cn_received = False, cn_stdout_closed = False, cn_out = [], cn_sent = []\<rparr>"

definition console_continues :: "console_plan \<Rightarrow> int \<Rightarrow> console \<Rightarrow> bool" where
  "console_continues pl now c \<longleftrightarrow>
     \<not> cn_closed c \<and> (cn_n c \<noteq> 0 \<or> cp_interactive pl) \<and> \<not> cp_get_schema pl \<and>
     (cp_stop_time pl = 0 \<or> \<not> cn_replay_complete c \<or> now < cp_stop_time pl)"

datatype turn_outcome = Again | Stuck | Raises py_error

text \<open>
  The inner loop of a pass: the state of \<open>reply_loop\<close>, or for the option \<open>hello\<close> the server's hello as the
  whole reply. A write to the standard output after it was closed fails in \<open>write_fd\<close>.
\<close>

definition turn_reply :: "console_plan \<Rightarrow> turn \<Rightarrow> console \<Rightarrow> reply_outcome \<times> reply_state \<times> int" where
  "turn_reply pl tn c =
     (if cp_hello pl then
        (let chunk = (if cp_hello_reply pl \<noteq> [] then cp_hello_reply pl else cn_chunk c)
         in (Complete, \<lparr>rs_chunk = chunk, rs_latest_msg = [], rs_written = (if cn_do_print c then chunk else []),
                        rs_nchunks = 1, rs_full_msg = cn_latest_msg c\<rparr>,
             if cp_hello_reply pl \<noteq> [] then 1 else cn_n c))
      else
        (case reply_loop (cn_do_print c) (tn_events tn)
                \<lparr>rs_chunk = cn_chunk c, rs_latest_msg = cn_latest_msg c, rs_written = [], rs_nchunks = 0, rs_full_msg = []\<rparr> of
           (out, s, _) \<Rightarrow> (out, s, cn_n c)))"

definition writes :: "console_plan \<Rightarrow> turn \<Rightarrow> bool" where
  "writes pl tn \<longleftrightarrow> cp_hello pl \<or> list_ex (\<lambda>e. e \<noteq> TimedOut) (tn_events tn)"

definition console_turn :: "console_plan \<Rightarrow> turn \<Rightarrow> console \<Rightarrow> console \<times> turn_outcome" where
  "console_turn pl tn c =
     (let pipe = cn_do_print c \<and> cp_style pl \<in> {''pretty'', ''all'', ''noaaa''};
          to = (if pipe then ToXmllint else ToStdout);
          msg = (if cp_interactive pl then tn_input tn else cn_msg c)
      in if cp_interactive pl \<and> tn_input tn = None then (c, Stuck)
         else
       (let c1 = c\<lparr>cn_msg := msg, cn_sent := cn_sent c @ (case msg of Some m \<Rightarrow> [m] | None \<Rightarrow> [])\<rparr>
        in if cn_do_print c \<and> \<not> pipe \<and> cn_stdout_closed c \<and> writes pl tn then (c1, Raises StderrError)
           else
         (case turn_reply pl tn c1 of
            (res, s, n) \<Rightarrow>
              (let c2 = c1\<lparr>cn_n := n, cn_chunk := rs_chunk s, cn_latest_msg := rs_latest_msg s,
                           cn_out := cn_out c1 @ (if rs_written s = [] then [] else [(to, rs_written s)]),
                           cn_closed := (res = Closed),
                           cn_replay_complete := cn_replay_complete c1 \<or>
                             (res = Complete \<and> cp_stop_time pl \<noteq> 0 \<and> replay_complete (rs_full_msg s))\<rparr>
               in case res of
                    Waiting \<Rightarrow> (c2, Stuck)
                  | ReplyError \<Rightarrow> (c2, Raises StderrError)
                  | _ \<Rightarrow>
                     (let c3 = (if cp_style pl \<noteq> ''raw'' \<and> \<not> pipe then c2\<lparr>cn_stdout_closed := True\<rparr> else c2)
                      in if pipe \<and> rs_nchunks s > 0 \<and> tn_returncode tn \<noteq> 0 then (c3, Raises StderrError)
                         else if pipe \<and> rs_nchunks s = 0 \<and> \<not> cn_received c3 then (c3, Raises StderrError)
                         else
                           (c3\<lparr>cn_do_print := (if pipe \<and> cp_style pl \<notin> {''all'', ''raw'', ''plain''} then False else cn_do_print c3),
                               cn_received := True, cn_msg := (if cp_subscription pl then None else cn_msg c3),
                               cn_n := cn_n c3 - 1\<rparr>, Again))))))"

text \<open>The loop over the passes that the environment describes; \<open>Stuck\<close> when it needs more of them.\<close>

fun console_loop :: "console_plan \<Rightarrow> turn list \<Rightarrow> console \<Rightarrow> console \<times> turn_outcome" where
  "console_loop pl [] c = (if console_continues pl 0 c then (c, Stuck) else (c, Again))"
| "console_loop pl (tn # tns) c =
     (if \<not> console_continues pl (tn_now tn) c then (c, Again)
      else (case console_turn pl tn c of
              (c1, Again) \<Rightarrow> console_loop pl tns c1
            | (c1, r) \<Rightarrow> (c1, r)))"

section \<open>The end of the session\<close>

text \<open>The reply with a schema: the text that is printed, or the complaint.\<close>

datatype schema_text = SchemaText string | SchemaNone | NoData | NoRpcReply | CannotParse

fun node_value :: "dom \<Rightarrow> string option" where
  "node_value (TextNode t) = Some t"
| "node_value _ = None"

text \<open>The value of a first child that is not a text is \<open>None\<close>, which cannot be written.\<close>

definition schema_output :: "dom list \<Rightarrow> schema_text result" where
  "schema_output doc =
     (case doc of
        [] \<Rightarrow> Inr CannotParse
      | d0 # _ \<Rightarrow>
          (let d = strip d0
           in if node_ns d = Some NC_NS \<and> local_name d = Some ''rpc-reply'' \<and> children d \<noteq> [] then
                (let d1 = hd (children d)
                 in if local_name d1 = Some ''data'' \<and> children d1 \<noteq> [] then
                      (case node_value (hd (children d1)) of
                         Some txt \<Rightarrow> Inr (SchemaText txt)
                       | None \<Rightarrow> Inl StderrError)
                    else Inr NoData)
              else Inr NoRpcReply))"

text \<open>The messages that are sent after the loop.\<close>

definition closing_msgs :: "console_plan \<Rightarrow> console \<Rightarrow> string list" where
  "closing_msgs pl c =
     (if cp_get_schema pl then (case cn_msg c of Some m \<Rightarrow> [m] | None \<Rightarrow> []) else []) @
     (if cn_closed c then [] else [close_msg])"

text \<open>The exit of the program, with what it writes about an exception.\<close>

datatype exit_status = ExitOk | ExitStdout | ExitStderr | ExitTraceback py_error

definition console_exit :: "'a result \<Rightarrow> exit_status" where
  "console_exit r =
     (case r of
        Inr _ \<Rightarrow> ExitOk
      | Inl e \<Rightarrow> if e = StdoutError then ExitStdout else if e = StderrError then ExitStderr else ExitTraceback e)"

section \<open>Lemmas\<close>

text \<open>A reply in the environment of a pass: its chunks, with timeouts between them, read and formatted without error.\<close>

definition reply_turn :: "ustr list \<Rightarrow> turn \<Rightarrow> bool" where
  "reply_turn cs tn \<longleftrightarrow>
     filter (\<lambda>e. e \<noteq> TimedOut) (tn_events tn) = map (Received 1) cs @ [Received 0 []] \<and> concat cs \<noteq> [] \<and>
     tn_returncode tn = 0"

text \<open>A plan for a number of replies to one message.\<close>

definition plain_plan :: "console_plan \<Rightarrow> bool" where
  "plain_plan pl \<longleftrightarrow> \<not> cp_hello pl \<and> \<not> cp_interactive pl \<and> \<not> cp_subscription pl \<and> \<not> cp_get_schema pl \<and> cp_stop_time pl = 0"

lemma turn_reply_complete:
  assumes "plain_plan pl" and "reply_turn cs tn"
  obtains s where "turn_reply pl tn c = (Complete, s, cn_n c)"
    and "rs_written s = (if cn_do_print c then concat cs else [])" and "0 < rs_nchunks s"
proof -
  let ?s = "\<lparr>rs_chunk = cn_chunk c, rs_latest_msg = cn_latest_msg c, rs_written = [], rs_nchunks = 0, rs_full_msg = []\<rparr>"
  from assms(2) have "filter (\<lambda>e. e \<noteq> TimedOut) (tn_events tn) = map (Received 1) cs @ [Received 0 []]"
    by (simp add: reply_turn_def)
  from reply_loop_chunks [OF this, of "cn_do_print c" ?s] obtain s' rest where
    "reply_loop (cn_do_print c) (tn_events tn) ?s = (Complete, s', rest)"
    "rs_written s' = (if cn_do_print c then concat cs else [])" "0 < rs_nchunks s'" by auto
  then show ?thesis using that [of s'] assms(1) by (simp add: turn_reply_def plain_plan_def)
qed

text \<open>One pass with a pipe or with printing off.\<close>

lemma console_turn_reply:
  assumes "plain_plan pl" and "reply_turn cs tn" and "cp_style pl \<in> {''pretty'', ''noaaa'', ''all''}"
  shows "\<exists>c'. console_turn pl tn c = (c', Again) \<and> cn_n c' = cn_n c - 1 \<and> \<not> cn_closed c' \<and> cn_msg c' = cn_msg c \<and>
     cn_do_print c' = (cn_do_print c \<and> cp_style pl = ''all'') \<and>
     cn_sent c' = cn_sent c @ (case cn_msg c of Some m \<Rightarrow> [m] | None \<Rightarrow> []) \<and>
     cn_out c' = cn_out c @ (if cn_do_print c then [(ToXmllint, concat cs)] else [])"
proof -
  let ?c1 = "c\<lparr>cn_msg := cn_msg c, cn_sent := cn_sent c @ (case cn_msg c of Some m \<Rightarrow> [m] | None \<Rightarrow> [])\<rparr>"
  obtain s where s: "turn_reply pl tn ?c1 = (Complete, s, cn_n ?c1)"
      "rs_written s = (if cn_do_print ?c1 then concat cs else [])" "0 < rs_nchunks s"
    by (rule turn_reply_complete [OF assms(1,2), of ?c1])
  have cs: "concat cs \<noteq> []" "tn_returncode tn = 0" using assms(2) by (simp_all add: reply_turn_def)
  show ?thesis
    using assms(1,3) s cs
    by (cases "cn_do_print c"; cases "cp_style pl = ''all''")
      (auto simp: console_turn_def plain_plan_def Let_def simp del: concat_eq_Nil_conv)
qed

lemma console_loop_replies:
  assumes "plain_plan pl" and "cp_style pl \<in> {''pretty'', ''noaaa'', ''all''}"
    and "list_all2 reply_turn css tns" and "cn_n c = int (length tns)" and "\<not> cn_closed c" and "cn_msg c = Some m"
  shows "\<exists>c'. console_loop pl tns c = (c', Again) \<and> cn_n c' = 0 \<and> \<not> cn_closed c' \<and>
     cn_sent c' = cn_sent c @ replicate (length tns) m \<and>
     cn_out c' = cn_out c @ (if \<not> cn_do_print c then []
       else map (\<lambda>cs. (ToXmllint, concat cs)) (if cp_style pl = ''all'' then css else take 1 css))"
  using assms(3-6)
proof (induction arbitrary: c rule: list_all2_induct)
  case Nil
  then show ?case by (simp add: console_continues_def plain_plan_def assms(1)) (use assms(1) in \<open>simp add: plain_plan_def\<close>)
next
  case (Cons cs css tn tns)
  have go: "console_continues pl (tn_now tn) c"
    using Cons.prems assms(1) by (simp add: console_continues_def plain_plan_def)
  from console_turn_reply [OF assms(1) Cons.hyps(1) assms(2), of c] Cons.prems
  obtain c1 where c1: "console_turn pl tn c = (c1, Again)" "cn_n c1 = int (length tns)" "\<not> cn_closed c1" "cn_msg c1 = Some m"
      "cn_do_print c1 = (cn_do_print c \<and> cp_style pl = ''all'')" "cn_sent c1 = cn_sent c @ [m]"
      "cn_out c1 = cn_out c @ (if cn_do_print c then [(ToXmllint, concat cs)] else [])" by auto
  from Cons.IH [OF c1(2-4)] go c1(1,5-7) show ?case by auto
qed

section \<open>Properties\<close>

text \<open>
  C21. A request that is sent \<open>k\<close> times (option \<open>iter\<close>) with a style that formats: whatever timeouts come between the chunks of the \<open>k\<close> replies, the
  message goes out \<open>k\<close> times, all replies are read, the style \<open>all\<close> prints every reply in order and the other styles the
  first one only, the loop ends, and the session is closed with one message.
\<close>

theorem console_prints_replies:
  assumes "pl = make_console_plan timegm opts (Message m) hello_reply" and "plain_plan pl"
    and "cp_style pl \<in> {''pretty'', ''noaaa'', ''all''}"
    and "o_iter opts = int (length tns)" and "list_all2 reply_turn css tns"
  shows "\<exists>c. console_loop pl tns (console_init pl opts (Message m)) = (c, Again) \<and>
     cn_sent c @ closing_msgs pl c = replicate (length tns) m @ [close_msg] \<and>
     cn_out c = map (\<lambda>cs. (ToXmllint, concat cs)) (if cp_style pl = ''all'' then css else take 1 css)"
proof -
  let ?c = "console_init pl opts (Message m)"
  have "o_create_subscription opts = None" "o_establish_subscription opts = None" "\<not> o_interactive opts" "\<not> cp_hello pl"
    using assms(2) unfolding assms(1) plain_plan_def make_console_plan_def Let_def by simp_all
  then have "cn_n ?c = int (length tns)"
    using assms(4) by (simp add: console_init_def reply_plan_def)
  moreover have init: "\<not> cn_closed ?c" "cn_msg ?c = Some m" "cn_sent ?c = []" "cn_out ?c = []" "cn_do_print ?c"
    using assms(3) by (auto simp: console_init_def)
  ultimately obtain c where c: "console_loop pl tns ?c = (c, Again)" "\<not> cn_closed c"
      "cn_sent c = cn_sent ?c @ replicate (length tns) m"
      "cn_out c = cn_out ?c @ (if \<not> cn_do_print ?c then []
        else map (\<lambda>cs. (ToXmllint, concat cs)) (if cp_style pl = ''all'' then css else take 1 css))"
    using console_loop_replies [OF assms(2,3,5), of ?c m] by blast
  have "\<not> cp_get_schema pl" using assms(2) by (simp add: plain_plan_def)
  with c init show ?thesis by (intro exI [of _ c]) (simp add: closing_msgs_def)
qed

lemma console_prints_replies_witness:
  "\<exists>c. console_loop (make_console_plan (\<lambda>_. 0) (default_options\<lparr>o_style := ''all'', o_iter := 1\<rparr>) (Message ''<x/>'') [])
      [\<lparr>tn_now = 0, tn_input = None, tn_events = [TimedOut, Received 1 (u ''<a/>''), Received 0 []], tn_returncode = 0\<rparr>]
      (console_init (make_console_plan (\<lambda>_. 0) (default_options\<lparr>o_style := ''all'', o_iter := 1\<rparr>) (Message ''<x/>'') [])
         (default_options\<lparr>o_style := ''all'', o_iter := 1\<rparr>) (Message ''<x/>'')) = (c, Again) \<and>
     cn_out c = [(ToXmllint, u ''<a/>'')]"
proof -
  let ?o = "default_options\<lparr>o_style := ''all'', o_iter := 1\<rparr>"
  let ?pl = "make_console_plan (\<lambda>_. 0) ?o (Message ''<x/>'') []"
  let ?tns = "[\<lparr>tn_now = 0, tn_input = None, tn_events = [TimedOut, Received 1 (u ''<a/>''), Received 0 []], tn_returncode = 0\<rparr>]"
  have pl: "plain_plan ?pl" "cp_style ?pl \<in> {''pretty'', ''noaaa'', ''all''}"
    by (simp_all add: make_console_plan_def plain_plan_def reply_plan_def default_options_def stop_time_def Let_def)
  have style: "cp_style ?pl = ''all''" by (simp add: make_console_plan_def reply_plan_def default_options_def Let_def)
  have tns: "o_iter ?o = int (length ?tns)" "list_all2 reply_turn [[u ''<a/>'']] ?tns" by (simp_all add: reply_turn_def)
  from console_prints_replies [OF refl pl tns] style show ?thesis by auto
qed

text \<open>
  The style \<open>plain\<close> closes the standard output after the first reply but keeps printing: with a second reply, the program
  ends with an error that names \<open>xmllint\<close>, which it does not use.
\<close>

theorem console_plain_second_reply:
  assumes "plain_plan pl" and "cp_style pl = ''plain''"
    and "reply_turn cs tn" and "reply_turn cs' tn'" and "cn_n c = 2" and "\<not> cn_closed c" and "cn_do_print c" and "\<not> cn_stdout_closed c"
  shows "\<exists>c'. console_loop pl (tn # tn' # tns) c = (c', Raises StderrError) \<and> cn_out c' = cn_out c @ [(ToStdout, concat cs)]"
proof -
  let ?c1 = "c\<lparr>cn_msg := cn_msg c, cn_sent := cn_sent c @ (case cn_msg c of Some m \<Rightarrow> [m] | None \<Rightarrow> [])\<rparr>"
  obtain s where s: "turn_reply pl tn ?c1 = (Complete, s, cn_n ?c1)"
      "rs_written s = (if cn_do_print ?c1 then concat cs else [])" "0 < rs_nchunks s"
    by (rule turn_reply_complete [OF assms(1,3), of ?c1])
  have cs: "concat cs \<noteq> []" using assms(3) by (simp add: reply_turn_def)
  have "\<exists>c1. console_turn pl tn c = (c1, Again) \<and> cn_n c1 = 1 \<and> \<not> cn_closed c1 \<and> cn_do_print c1 \<and> cn_stdout_closed c1 \<and>
      cn_out c1 = cn_out c @ [(ToStdout, concat cs)]"
    using assms s cs by (auto simp: console_turn_def plain_plan_def Let_def simp del: concat_eq_Nil_conv)
  then obtain c1 where c1: "console_turn pl tn c = (c1, Again)" "cn_n c1 = 1" "\<not> cn_closed c1" "cn_do_print c1" "cn_stdout_closed c1"
      "cn_out c1 = cn_out c @ [(ToStdout, concat cs)]" by blast
  have "filter (\<lambda>e. e \<noteq> TimedOut) (tn_events tn') \<noteq> []" using assms(4) by (simp add: reply_turn_def)
  then have "writes pl tn'" by (auto simp: writes_def list_ex_iff filter_empty_conv)
  then have "\<exists>c2. console_turn pl tn' c1 = (c2, Raises StderrError) \<and> cn_out c2 = cn_out c1"
    using c1 assms(1,2) by (simp add: console_turn_def plain_plan_def Let_def)
  with c1 assms(1,5,6) show ?thesis by (auto simp: console_continues_def plain_plan_def)
qed

text \<open>
  Connecting takes the first address that accepts; without one it raises, and for a host without addresses it
  fails on the unbound variable.
\<close>

lemma try_addrs_first:
  "try_addrs (map (\<lambda>b. if b then Refused else NoSocket) bs @ Accepted s # rest) sock = Some (Some s)"
  "try_addrs (map (\<lambda>b. if b then Refused else NoSocket) bs) sock = (if bs = [] then sock else Some None)"
  by (induction bs arbitrary: sock) auto

theorem create_connection_first:
  "create_connection (map (\<lambda>b. if b then Refused else NoSocket) bs @ Accepted s # rest) = Inr s \<and>
   create_connection (map (\<lambda>b. if b then Refused else NoSocket) (b # bs)) = Inl StdoutError \<and>
   create_connection [] = Inl UnboundLocalError"
  using try_addrs_first(1) [of bs s rest None] try_addrs_first(2) [of "b # bs" None]
  by (auto simp: create_connection_def)

end
