(* ===== verification/Netconf_Connect.thy ===== *)
theory Netconf_Connect
  imports Py_World Netconf_Options Netconf_Console
begin

text \<open>
  The way of \<open>confd-sync-py/app/netconf_console.py\<close> from its arguments to the greeting of the server: the parser, the choice of the
  request, the transport objects with their constructors, connecting over TCP and SSH, waiting for a call home, the
  authentication, and the exchange of greetings. It is a program over an environment: the calls are those of sockets, of the
  library \<open>paramiko\<close>, and the questions about the user.
\<close>

section \<open>Calls\<close>

datatype key_type = RSA | DSS

datatype auth = AuthKey key_type string | AuthPassword string

datatype conn_event =
    PrintPid
  | CreateConnection string int
  | NewSocket
  | SetReuseAddr
  | Bind string int
  | PrintListening string int
  | Listen nat
  | Accept
  | CloseListener
  | PrintCallHome
  | NewSshTransport
  | HostKey key_type string
  | LoadPrivateKey key_type string
  | SshConnect string auth
  | OpenSession
  | InvokeSubsystem string
  | GetSockName
  | GetUid
  | GetGid
  | GetHome
  | SendTcp string
  | PrintSocketError
  | SendHello string
  | RecvHello

type_synonym 'a conn_prog = "(conn_event, 'a) io"

section \<open>Transports\<close>

record netconf_ssh =
  ns_hostname :: string
  ns_port :: int
  ns_username :: string
  ns_password :: string
  ns_publicKey :: string
  ns_publicKeyType :: string
  ns_privateKeyFile :: string
  ns_privateKeyType :: string

record netconf_tcp =
  nt_hostname :: string
  nt_port :: int
  nt_username :: string
  nt_groups :: string
  nt_suplgids :: string

text \<open>\<open>_start_ssh\<close>, with the host key that it compares.\<close>

definition start_ssh :: "netconf_ssh \<Rightarrow> unit conn_prog" where
  "start_ssh c =
     io_then (call NewSshTransport)
    (io_then
       (if ns_publicKeyType c = ''rsa'' then call (HostKey RSA (ns_publicKey c))
        else if ns_publicKeyType c = ''dss'' then call (HostKey DSS (ns_publicKey c))
        else io_ret ())
    (io_then
       (if ns_privateKeyFile c \<noteq> [] then
          let kind = (if ns_privateKeyType c = ''rsa'' then RSA else DSS)
          in io_then (call (LoadPrivateKey kind (ns_privateKeyFile c)))
            (io_except (call (SshConnect (ns_username c) (AuthKey kind (ns_privateKeyFile c))))
               AuthenticationException (io_raise StdoutError))
        else
          io_except (call (SshConnect (ns_username c) (AuthPassword (ns_password c))))
            AuthenticationException (io_raise StdoutError))
    (io_then (call OpenSession) (call (InvokeSubsystem ''netconf'')))))"

definition ssh_connect :: "netconf_ssh \<Rightarrow> unit conn_prog" where
  "ssh_connect c = io_then (call (CreateConnection (ns_hostname c) (ns_port c))) (start_ssh c)"

definition ssh_listen :: "string \<Rightarrow> int \<Rightarrow> netconf_ssh \<Rightarrow> unit conn_prog" where
  "ssh_listen host port c =
     io_then (calls [NewSocket, SetReuseAddr, Bind host port, PrintListening host port, Listen 1, Accept, CloseListener,
                     PrintCallHome])
       (start_ssh c)"

text \<open>\<open>NetconfTCP.connect\<close>; an error of the socket while the first line is sent is printed only.\<close>

definition tcp_start :: "netconf_tcp \<Rightarrow> unit conn_prog" where
  "tcp_start c =
     io_then (call (CreateConnection (nt_hostname c) (nt_port c)))
    (io_bind (ask en_str GetSockName) (\<lambda>sockname.
     io_bind (ask en_num GetUid) (\<lambda>uid.
     io_bind (ask en_num GetGid) (\<lambda>gid.
     io_bind (ask en_str GetHome) (\<lambda>home.
       io_except (call (SendTcp (tcp_header (nt_username c) sockname uid gid (nt_suplgids c) home (nt_groups c))))
         OSError (call PrintSocketError))))))"

section \<open>The start of the program\<close>

datatype conn = ConnSSH netconf_ssh | ConnTCP netconf_tcp

definition make_transport :: "console_options \<Rightarrow> conn" where
  "make_transport v =
     (if o_proto v = ''ssh''
      then ConnSSH \<lparr>ns_hostname = co_host v, ns_port = co_port v, ns_username = co_username v, ns_password = co_password v,
             ns_publicKey = [], ns_publicKeyType = [], ns_privateKeyFile = co_privKeyFile v,
             ns_privateKeyType = co_privKeyType v\<rparr>
      else ConnTCP \<lparr>nt_hostname = co_host v, nt_port = co_port v, nt_username = co_username v, nt_groups = co_groups v,
             nt_suplgids = co_supgroups v\<rparr>)"

text \<open>A TCP transport has no method \<open>listen\<close>.\<close>

definition open_transport :: "console_options \<Rightarrow> unit conn_prog" where
  "open_transport v =
     (case make_transport v of
        ConnSSH c \<Rightarrow> if o_listen v then ssh_listen (co_listen_address v) (co_listen_port v) c else ssh_connect c
      | ConnTCP c \<Rightarrow> if o_listen v then io_raise AttributeError else tcp_start c)"

fun from_cmd_file :: "source \<Rightarrow> bool" where
  "from_cmd_file (CmdFile _) = True"
| "from_cmd_file _ = False"

text \<open>The greetings; with a file of commands the greeting is in the file.\<close>

definition exchange_hello :: "options \<Rightarrow> source \<Rightarrow> string conn_prog" where
  "exchange_hello opts src =
     io_then (io_when (\<not> from_cmd_file src) (call (SendHello (hello_msg (offered_versions (from_cmd_file src) opts)))))
       (ask en_str RecvHello)"

definition io_result :: "'a result \<Rightarrow> 'a conn_prog" where
  "io_result r = (case r of Inl e \<Rightarrow> io_raise e | Inr a \<Rightarrow> io_ret a)"

definition console_start ::
  "bool \<Rightarrow> (string \<Rightarrow> file_data result) \<Rightarrow> string list \<Rightarrow> (console_options \<times> source \<times> string) conn_prog" where
  "console_start have_paramiko read_file argv =
     io_bind (io_result (opt_parse_args build_options_parser default_console_options argv)) (\<lambda>(v, args).
     io_then (io_when (co_debug v) (call PrintPid))
    (io_bind (io_result (select_request read_file args (options.truncate v))) (\<lambda>src.
     io_then (io_result (check_options have_paramiko (options.truncate v)))
    (io_then (open_transport v)
    (io_bind (exchange_hello (options.truncate v) src) (\<lambda>hello_reply. io_ret (v, src, hello_reply)))))))"

section \<open>The intended effects\<close>

fun conn_effect :: "conn_event \<Rightarrow> bool" where
  "conn_effect (CreateConnection _ _) = True"
| "conn_effect (Bind _ _) = True"
| "conn_effect (Listen _) = True"
| "conn_effect Accept = True"
| "conn_effect (SshConnect _ _) = True"
| "conn_effect OpenSession = True"
| "conn_effect (InvokeSubsystem _) = True"
| "conn_effect (SendTcp _) = True"
| "conn_effect (SendHello _) = True"
| "conn_effect RecvHello = True"
| "conn_effect _ = False"

text \<open>One attempt to authenticate: with the key if there is a key file, and with the password otherwise.\<close>

definition auth_of :: "console_options \<Rightarrow> auth" where
  "auth_of v =
     (if co_privKeyFile v = [] then AuthPassword (co_password v)
      else AuthKey (if co_privKeyType v = ''rsa'' then RSA else DSS) (co_privKeyFile v))"

definition open_effects :: "string \<Rightarrow> console_options \<Rightarrow> conn_event list" where
  "open_effects header v =
     (if o_proto v = ''ssh''
      then (if o_listen v then [Bind (co_listen_address v) (co_listen_port v), Listen 1, Accept]
            else [CreateConnection (co_host v) (co_port v)]) @
           [SshConnect (co_username v) (auth_of v), OpenSession, InvokeSubsystem ''netconf'']
      else [CreateConnection (co_host v) (co_port v), SendTcp header])"

definition hello_effects :: "options \<Rightarrow> source \<Rightarrow> conn_event list" where
  "hello_effects opts src =
     (if from_cmd_file src then [] else [SendHello (hello_msg (offered_versions False opts))]) @ [RecvHello]"

section \<open>Lemmas\<close>

lemma start_ssh_emits:
  assumes "ns_publicKeyType c = []"
  shows "emits en conn_effect (start_ssh c) h
    [SshConnect (ns_username c)
       (if ns_privateKeyFile c = [] then AuthPassword (ns_password c)
        else AuthKey (if ns_privateKeyType c = ''rsa'' then RSA else DSS) (ns_privateKeyFile c)),
     OpenSession, InvokeSubsystem ''netconf'']"
proof -
  let ?auth = "if ns_privateKeyFile c = [] then AuthPassword (ns_password c)
        else AuthKey (if ns_privateKeyType c = ''rsa'' then RSA else DSS) (ns_privateKeyFile c)"
  have auth: "emits en conn_effect (io_except (call (SshConnect u a)) x (io_raise e)) h1 [SshConnect u a]" for u a x e h1
    by (intro emits_except_raise emits_one) simp
  have last: "emits en conn_effect (io_then (call OpenSession) (call (InvokeSubsystem ''netconf''))) h1
      [OpenSession, InvokeSubsystem ''netconf'']" for h1
    using emits_calls [of en conn_effect "[OpenSession, InvokeSubsystem ''netconf'']" h1]
    by (simp add: io_bind_def io_ret_def call_def ask_def emits_def split: option.splits)
  have rest: "emits en conn_effect
      (io_then (if ns_privateKeyFile c \<noteq> [] then
          let kind = (if ns_privateKeyType c = ''rsa'' then RSA else DSS)
          in io_then (call (LoadPrivateKey kind (ns_privateKeyFile c)))
            (io_except (call (SshConnect (ns_username c) (AuthKey kind (ns_privateKeyFile c))))
               AuthenticationException (io_raise StdoutError))
        else io_except (call (SshConnect (ns_username c) (AuthPassword (ns_password c))))
            AuthenticationException (io_raise StdoutError))
      (io_then (call OpenSession) (call (InvokeSubsystem ''netconf'')))) h1
      ([SshConnect (ns_username c) ?auth] @ [OpenSession, InvokeSubsystem ''netconf''])" for h1
    by (rule emits_bind [OF _ last])
       (auto simp: Let_def intro: auth intro!: emits_silent_bind [OF silent_call])
  show ?thesis
    unfolding start_ssh_def
    by (rule emits_silent_bind [OF silent_call]; (rule emits_silent_bind)?)
       (use assms rest in \<open>simp_all add: emits_ret\<close>)
qed

lemma tcp_start_emits:
  "\<exists>x. emits en conn_effect (tcp_start c) h
    [CreateConnection (nt_hostname c) (nt_port c),
     SendTcp (case x of (sockname, uid, gid, home) \<Rightarrow>
       tcp_header (nt_username c) sockname uid gid (nt_suplgids c) home (nt_groups c))]"
  (is "\<exists>x. emits _ _ _ _ [?e, SendTcp (?hd x)]")
proof -
  let ?m = "io_bind (ask en_str GetSockName) (\<lambda>sockname. io_bind (ask en_num GetUid) (\<lambda>uid.
     io_bind (ask en_num GetGid) (\<lambda>gid. io_bind (ask en_str GetHome) (\<lambda>home.
       io_except (call (SendTcp (tcp_header (nt_username c) sockname uid gid (nt_suplgids c) home (nt_groups c))))
         OSError (call PrintSocketError)))))"
  have send: "emits en conn_effect (io_except (call (SendTcp (?hd x))) OSError (call PrintSocketError)) h1 [SendTcp (?hd x)]" for x h1
    by (rule emits_except_print) simp_all
  have "\<exists>x. emits en conn_effect ?m (h @ [?e]) [SendTcp (?hd x)]"
  proof (intro emits_ask_ex)
    show "\<exists>x. emits en conn_effect
        (io_except (call (SendTcp (tcp_header (nt_username c) sockname uid gid (nt_suplgids c) home (nt_groups c))))
          OSError (call PrintSocketError)) h1 [SendTcp (?hd x)]" for sockname uid gid home h1
      using send [of "(sockname, uid, gid, home)" h1] by (intro exI [of _ "(sockname, uid, gid, home)"]) simp
  qed simp_all
  then obtain x where x: "emits en conn_effect ?m (h @ [?e]) [SendTcp (?hd x)]" ..
  have "emits en conn_effect (io_then (call ?e) ?m) h ([?e] @ [SendTcp (?hd x)])"
    by (rule emits_bind [OF emits_one]) (use x in \<open>auto dest: call_Ret\<close>)
  then show ?thesis unfolding tcp_start_def append.simps by (rule exI [of _ x])
qed

lemma open_transport_emits:
  assumes "check_options hp (options.truncate v) = Inr ()"
  shows "\<exists>sockname uid gid home. emits en conn_effect (open_transport v) h
    (open_effects (tcp_header (co_username v) sockname uid gid (co_supgroups v) home (co_groups v)) v)"
proof (cases "o_proto v = ''ssh''")
  case True
  define c where "c = \<lparr>ns_hostname = co_host v, ns_port = co_port v, ns_username = co_username v, ns_password = co_password v,
    ns_publicKey = [], ns_publicKeyType = [], ns_privateKeyFile = co_privKeyFile v, ns_privateKeyType = co_privKeyType v\<rparr>"
  have cf: "ns_hostname c = co_host v" "ns_port c = co_port v" "ns_username c = co_username v" "ns_password c = co_password v"
    "ns_publicKeyType c = []" "ns_privateKeyFile c = co_privKeyFile v" "ns_privateKeyType c = co_privKeyType v"
    by (simp_all add: c_def)
  have start: "emits en conn_effect (start_ssh c) h1
      [SshConnect (co_username v) (auth_of v), OpenSession, InvokeSubsystem ''netconf'']" for h1
    using start_ssh_emits [of c en h1] by (simp only: cf auth_of_def simp_thms)
  have "emits en conn_effect (ssh_listen (co_listen_address v) (co_listen_port v) c) h
      ([Bind (co_listen_address v) (co_listen_port v), Listen 1, Accept] @
       [SshConnect (co_username v) (auth_of v), OpenSession, InvokeSubsystem ''netconf''])"
    unfolding ssh_listen_def
    using emits_bind [OF emits_calls [of en conn_effect "[NewSocket, SetReuseAddr, Bind (co_listen_address v) (co_listen_port v),
        PrintListening (co_listen_address v) (co_listen_port v), Listen 1, Accept, CloseListener, PrintCallHome]" h] start]
    by (simp del: calls.simps)
  moreover have "emits en conn_effect (ssh_connect c) h
      ([CreateConnection (co_host v) (co_port v)] @
       [SshConnect (co_username v) (auth_of v), OpenSession, InvokeSubsystem ''netconf''])"
    unfolding ssh_connect_def using emits_bind [OF emits_one start] by (simp add: cf)
  ultimately show ?thesis
    using True by (simp add: open_transport_def make_transport_def open_effects_def flip: c_def)
next
  case False
  with assms have nl: "\<not> o_listen v" by (auto simp: check_options_def options.defs split: if_splits)
  define c where "c = \<lparr>nt_hostname = co_host v, nt_port = co_port v, nt_username = co_username v, nt_groups = co_groups v,
    nt_suplgids = co_supgroups v\<rparr>"
  obtain x where x: "emits en conn_effect (tcp_start c) h
    [CreateConnection (nt_hostname c) (nt_port c),
     SendTcp (case x of (sockname, uid, gid, home) \<Rightarrow>
       tcp_header (nt_username c) sockname uid gid (nt_suplgids c) home (nt_groups c))]"
    using tcp_start_emits by blast
  obtain sockname uid gid home where "x = (sockname, uid, gid, home)" by (cases x)
  with x False nl show ?thesis
    by (intro exI [of _ sockname] exI [of _ uid] exI [of _ gid] exI [of _ home])
       (simp add: open_transport_def make_transport_def open_effects_def c_def)
qed

lemma exchange_hello_emits: "emits en conn_effect (exchange_hello opts src) h (hello_effects opts src)"
proof -
  have recv: "emits en conn_effect (ask en_str RecvHello) h1 [RecvHello]" for h1
    using emits_ask [of en conn_effect en_str RecvHello h1] by simp
  have "emits en conn_effect (io_when (\<not> from_cmd_file src) (call (SendHello m))) h (if \<not> from_cmd_file src then [SendHello m] else [])" for m
    by (rule emits_when) (rule emits_one, simp)
  from emits_bind [OF this recv] show ?thesis
    by (cases "from_cmd_file src") (simp_all add: exchange_hello_def hello_effects_def)
qed

lemma io_result_bind:
  "io_bind (io_result (Inr a)) f = f a" "io_bind (io_result (Inl e)) f = io_raise e"
  by (simp_all add: io_bind_def io_result_def io_ret_def io_raise_def fun_eq_iff)

lemma debug_silent: "silent en conn_effect (io_when b (call PrintPid)) h"
  by (rule silent_when) (rule silent_call, simp)

text \<open>The whole way, for a request that is chosen and options that are accepted, and for others.\<close>

lemma console_start_emits:
  assumes "opt_parse_args build_options_parser default_console_options argv = Inr (v, args)"
    and "select_request read_file args (options.truncate v) = Inr src"
    and "check_options hp (options.truncate v) = Inr ()"
  shows "\<exists>sockname uid gid home. emits en conn_effect (console_start hp read_file argv) h
    (open_effects (tcp_header (co_username v) sockname uid gid (co_supgroups v) home (co_groups v)) v @
     hello_effects (options.truncate v) src)"
proof -
  have hello: "emits en conn_effect (io_bind (exchange_hello (options.truncate v) src) (\<lambda>hr. io_ret (v, src, hr))) h1
      (hello_effects (options.truncate v) src)" for h1
    using emits_bind [OF exchange_hello_emits emits_ret] by fastforce
  let ?rest = "io_then (open_transport v) (io_bind (exchange_hello (options.truncate v) src) (\<lambda>hr. io_ret (v, src, hr)))"
  have ex: "\<exists>x. emits en conn_effect ?rest h1
      (open_effects (case x of (sockname, uid, gid, home) \<Rightarrow>
         tcp_header (co_username v) sockname uid gid (co_supgroups v) home (co_groups v)) v @ hello_effects (options.truncate v) src)" for h1
  proof -
    obtain sockname uid gid home where "emits en conn_effect (open_transport v) h1
      (open_effects (tcp_header (co_username v) sockname uid gid (co_supgroups v) home (co_groups v)) v)"
      using open_transport_emits [OF assms(3)] by blast
    from emits_bind [OF this hello] show ?thesis by (intro exI [of _ "(sockname, uid, gid, home)"]) simp
  qed
  have eq: "console_start hp read_file argv = io_then (io_when (co_debug v) (call PrintPid)) ?rest"
    by (simp add: console_start_def assms io_result_bind)
  obtain x where "emits en conn_effect (console_start hp read_file argv) h
      (open_effects (case x of (sockname, uid, gid, home) \<Rightarrow>
         tcp_header (co_username v) sockname uid gid (co_supgroups v) home (co_groups v)) v @ hello_effects (options.truncate v) src)"
    unfolding eq using emits_bind_ex [OF debug_silent ex] by blast
  then show ?thesis by (cases x) auto
qed

lemma console_start_refused:
  assumes "opt_parse_args build_options_parser default_console_options argv = Inr (v, args)"
    and "\<And>src. select_request read_file args (options.truncate v) = Inr src \<Longrightarrow> check_options hp (options.truncate v) \<noteq> Inr ()"
  shows "silent en conn_effect (console_start hp read_file argv) h \<and> (\<forall>h' a. console_start hp read_file argv en h \<noteq> (h', Ret a))"
proof -
  obtain e where "console_start hp read_file argv = io_then (io_when (co_debug v) (call PrintPid)) (io_raise e)"
  proof (cases "select_request read_file args (options.truncate v)")
    case (Inl e)
    with that [of e] show ?thesis by (simp add: console_start_def assms(1) io_result_bind)
  next
    case (Inr src)
    with assms(2) obtain e where "check_options hp (options.truncate v) = Inl e"
      by (cases "check_options hp (options.truncate v)") auto
    with that [of e] Inr show ?thesis by (simp add: console_start_def assms(1) io_result_bind)
  qed
  moreover have "silent en conn_effect (io_then (io_when (co_debug v) (call PrintPid)) (io_raise e)) h"
    by (rule emits_silent_bind [OF debug_silent emits_raise])
  moreover have "io_then (io_when (co_debug v) (call PrintPid)) (io_raise e) en h \<noteq> (h', Ret a)" for h' a
    by (auto simp: io_bind_def io_raise_def split: prod.splits outcome.splits)
  ultimately show ?thesis by metis
qed

section \<open>Correctness\<close>

text \<open>
  C15. C0: what the program does to the network before its first request, for every command line and environment. Arguments that the
  parser refuses, a request that cannot be made and options that do not fit end the program without any
  contact. Otherwise its effects are a prefix of one list, and all of it when it goes on: one connection, or one call home on the
  address and port of the options; one authentication of the user, by the key alone if there is a key file; the
  subsystem only after the authentication; and a greeting of its own unless the commands come from a file.
\<close>

theorem console_start_effects:
  assumes "console_start have_paramiko read_file argv en [] = (h, r)"
  shows "case opt_parse_args build_options_parser default_console_options argv of
      Inl e \<Rightarrow> h = [] \<and> r = Raise e
    | Inr (v, args) \<Rightarrow>
        (case (select_request read_file args (options.truncate v), check_options have_paramiko (options.truncate v)) of
           (Inr src, Inr ()) \<Rightarrow> \<exists>sockname uid gid home.
             let L = open_effects (tcp_header (co_username v) sockname uid gid (co_supgroups v) home (co_groups v)) v @
                     hello_effects (options.truncate v) src
             in prefix (filter conn_effect h) L \<and> (\<forall>a. r = Ret a \<longrightarrow> filter conn_effect h = L)
         | _ \<Rightarrow> filter conn_effect h = [] \<and> (\<forall>a. r \<noteq> Ret a))"
proof (cases "opt_parse_args build_options_parser default_console_options argv")
  case (Inl e)
  with assms show ?thesis by (simp add: console_start_def io_result_bind io_raise_def)
next
  case (Inr va)
  obtain v args where va: "va = (v, args)" by (cases va)
  let ?req = "select_request read_file args (options.truncate v)"
  let ?chk = "check_options have_paramiko (options.truncate v)"
  note parsed = Inr [unfolded va]
  show ?thesis
  proof (cases "\<exists>src. ?req = Inr src \<and> ?chk = Inr ()")
    case True
    then obtain src where ok: "?req = Inr src" "?chk = Inr ()" by blast
    obtain sockname uid gid home where em: "emits en conn_effect (console_start have_paramiko read_file argv) []
        (open_effects (tcp_header (co_username v) sockname uid gid (co_supgroups v) home (co_groups v)) v @
         hello_effects (options.truncate v) src)"
      using console_start_emits [OF parsed ok] by blast
    from emitsD [OF em assms] have "prefix (filter conn_effect h)
        (open_effects (tcp_header (co_username v) sockname uid gid (co_supgroups v) home (co_groups v)) v @
         hello_effects (options.truncate v) src)"
      and "\<forall>a. r = Ret a \<longrightarrow> filter conn_effect h =
        open_effects (tcp_header (co_username v) sockname uid gid (co_supgroups v) home (co_groups v)) v @
         hello_effects (options.truncate v) src" by blast+
    then show ?thesis unfolding parsed ok sum.case prod.case Let_def unit.case by blast
  next
    case False
    then have refused: "silent en conn_effect (console_start have_paramiko read_file argv) [] \<and>
        (\<forall>h' a. console_start have_paramiko read_file argv en [] \<noteq> (h', Ret a))"
      by (intro console_start_refused [OF parsed]) auto
    have "prefix (filter conn_effect h) []" by (rule emitsD(1) [OF conjunct1 [OF refused] assms])
    with refused assms have "filter conn_effect h = [] \<and> (\<forall>a. r \<noteq> Ret a)" by auto
    with False parsed show ?thesis by (auto split: sum.splits)
  qed
qed

definition calm_net :: "conn_event env" where
  "calm_net = \<lparr>en_fail = (\<lambda>_. None), en_bool = (\<lambda>_. True), en_num = (\<lambda>_. 0), en_str = (\<lambda>_. ''x'')\<rparr>"

definition ssh_line :: "string list" where
  "ssh_line = [''--host=h'', ''-u'', ''me'', ''--privKeyF'', ''k'', ''--hello'']"

definition ssh_values :: console_options where
  "ssh_values = default_console_options\<lparr>co_host := ''h'', co_username := ''me'', co_privKeyFile := ''k'', o_hello := True\<rparr>"

lemma ssh_line_parsed: "opt_parse_args build_options_parser default_console_options ssh_line = Inr (ssh_values, [])"
  by code_simp

lemma ssh_line_accepted:
  "select_request (\<lambda>_. Inl KeyError) [] (options.truncate ssh_values) = Inr NoMessage"
  "check_options True (options.truncate ssh_values) = Inr ()"
  by code_simp+

lemma ssh_line_effects:
  "open_effects header ssh_values @ hello_effects (options.truncate ssh_values) NoMessage =
   [CreateConnection ''h'' 2022, SshConnect ''me'' (AuthKey DSS ''k''), OpenSession, InvokeSubsystem ''netconf'',
    SendHello (hello_msg [''1.0'', ''1.1'']), RecvHello]"
  by (simp add: open_effects_def hello_effects_def ssh_values_def default_console_options_def auth_of_def offered_versions_def options.defs)

lemma ssh_line_returns: "\<exists>a. snd (console_start True (\<lambda>_. Inl KeyError) ssh_line calm_net []) = Ret a"
proof -
  have "case snd (console_start True (\<lambda>_. Inl KeyError) ssh_line calm_net []) of Ret _ \<Rightarrow> True | _ \<Rightarrow> False" by code_simp
  then show ?thesis by (cases "snd (console_start True (\<lambda>_. Inl KeyError) ssh_line calm_net [])") auto
qed

lemma console_start_effects_witness:
  "filter conn_effect (fst (console_start True (\<lambda>_. Inl KeyError) ssh_line calm_net [])) =
   [CreateConnection ''h'' 2022, SshConnect ''me'' (AuthKey DSS ''k''), OpenSession, InvokeSubsystem ''netconf'',
    SendHello (hello_msg [''1.0'', ''1.1'']), RecvHello]"
proof -
  obtain a where "snd (console_start True (\<lambda>_. Inl KeyError) ssh_line calm_net []) = Ret a" using ssh_line_returns by blast
  with console_start_effects [OF prod.collapse [symmetric], of True "\<lambda>_. Inl KeyError" ssh_line calm_net]
  show ?thesis unfolding ssh_line_parsed sum.case prod.case ssh_line_accepted unit.case Let_def ssh_line_effects by blast
qed

end
