(* ===== verification/Cdb_Sync.thy ===== *)
theory Cdb_Sync
  imports Netconf_Messages
begin

text \<open>
  The program \<open>confd-sync-py/app/cdbl-sync-nc.py\<close>, a CDB subscriber that forwards configuration changes
  to NETCONF servers in two phases: in the prepare phase every server gets an edit and a
  validate and then a confirmed commit, and in the commit or abort phase the commit is
  confirmed or cancelled.

  The library \<open>_confd\<close> and the program \<open>netconf-console\<close> are not part of the repository's code: the
  modifications of a subscription, the text of a value and the outcome of running a NETCONF session are
  parameters. The processes that handle the subscriptions are run one after the other, in
  the order in which they are started; an exception in one of them ends that process only.
\<close>

section \<open>Messages\<close>

abbreviation nl :: string where "nl \<equiv> ''\<newline>''"

abbreviation EOM :: string where "EOM \<equiv> '']]>]]>''"

definition sync_hello :: string where
  "sync_hello = ''<?xml version=\"1.0\" encoding=\"UTF-8\"?>\<newline>'' @
     ''<hello xmlns=\"urn:ietf:params:xml:ns:netconf:base:1.0\">\<newline>'' @
     ''  <capabilities>\<newline>'' @
     ''    <capability>urn:ietf:params:netconf:base:1.0</capability>\<newline>'' @
     ''  </capabilities>\<newline>'' @
     ''</hello>\<newline>'' @
     '']]>]]>\<newline>''"

definition rpc_msg :: "string \<Rightarrow> string \<Rightarrow> string" where
  "rpc_msg message_id body =
     XML_HEAD @ ''<rpc xmlns=\"urn:ietf:params:xml:ns:netconf:base:1.0\" message-id=\"'' @ message_id @ ''\">\<newline>'' @
     body @ EOM"

definition edit_config_msg :: "string \<Rightarrow> string" where
  "edit_config_msg mods = sync_hello @
     rpc_msg ''1''
       (''  <discard-changes/>\<newline>'' @
        ''</rpc>\<newline>'') @ nl @
     rpc_msg ''2''
       (''  <edit-config xmlns:nc=\"urn:ietf:params:xml:ns:netconf:base:1.0\">\<newline>'' @
        ''    <target>\<newline>'' @
        ''      <candidate/>\<newline>'' @
        ''    </target>\<newline>'' @
        ''    <test-option>set</test-option>\<newline>'' @
        ''    <config>\<newline>'' @
        ''      '' @
        mods @
        ''\<newline>'' @
        ''    </config>\<newline>'' @
        ''  </edit-config>\<newline>'' @
        ''</rpc>\<newline>'') @ nl @
     rpc_msg ''3''
       (''  <validate>\<newline>'' @
        ''    <source>\<newline>'' @
        ''      <candidate/>\<newline>'' @
        ''    </source>\<newline>'' @
        ''  </validate>\<newline>'' @
        ''</rpc>\<newline>'') @ nl @
     rpc_msg ''4''
       (''  <close-session/>\<newline>'' @
        ''</rpc>\<newline>'')"

definition sync_commit_msg :: string where
  "sync_commit_msg = sync_hello @
     rpc_msg ''5''
       (''  <commit>\<newline>'' @
        ''    <confirmed/>\<newline>'' @
        ''    <persist>sync_commit</persist>\<newline>'' @
        ''  </commit>\<newline>'' @
        ''</rpc>\<newline>'') @ nl @
     rpc_msg ''6''
       (''  <close-session/>\<newline>'' @
        ''</rpc>xs\<newline>'')"

definition confirm_msg :: string where
  "confirm_msg = sync_hello @
     rpc_msg ''7''
       (''  <commit>\<newline>'' @
        ''    <persist-id>sync_commit</persist-id>\<newline>'' @
        ''  </commit>\<newline>'' @
        ''</rpc>\<newline>'') @ nl @
     rpc_msg ''8''
       (''  <close-session/>\<newline>'' @
        ''</rpc>\<newline>'')"

definition cancel_msg :: string where
  "cancel_msg = sync_hello @
     rpc_msg ''7''
       (''  <cancel-commit>\<newline>'' @
        ''    <persist-id>sync_commit</persist-id>\<newline>'' @
        ''  </cancel-commit>\<newline>'' @
        ''</rpc>\<newline>'') @ nl @
     rpc_msg ''8''
       (''  <close-session/>\<newline>'' @
        ''</rpc>\<newline>'')"

section \<open>Modifications\<close>

text \<open>
  A tagged value of a modification list. \<open>tv_val2str\<close> is the text that the library gives for the
  value at a path below a namespace.
\<close>

datatype val_type = C_XMLBEGIN | C_XMLEND | C_NOEXISTS | C_XMLBEGINDEL | C_XMLTAG | C_LIST | C_OTHER

record tag_value =
  tv_type :: val_type
  tv_ns :: string
  tv_prefix :: string
  tv_tag :: string
  tv_val2str :: "string \<times> string \<Rightarrow> string"

definition INDENT_SIZE :: int where "INDENT_SIZE = 2"

definition indent_str :: "int \<Rightarrow> string" where
  "indent_str n = replicate (nat n) (CHR '' '')"

text \<open>\<open>current_path[:current_path.rindex('/')]\<close>.\<close>

definition parent_path :: "string \<Rightarrow> string" where
  "parent_path p =
     (if CHR ''/'' \<in> set p then rev (tl (dropWhile (\<lambda>c. c \<noteq> CHR ''/'') (rev p))) else [])"

text \<open>\<open>split()\<close> at white space.\<close>

fun split_space :: "string \<Rightarrow> string \<Rightarrow> string list" where
  "split_space acc [] = (if acc = [] then [] else [rev acc])"
| "split_space acc (c # s) =
     (if is_space c then (if acc = [] then split_space [] s else rev acc # split_space [] s)
      else split_space (c # acc) s)"

definition leaf_elem :: "int \<Rightarrow> string \<Rightarrow> string \<Rightarrow> string" where
  "leaf_elem indent tag v = indent_str indent @ ''<'' @ tag @ ''>'' @ v @ ''</'' @ tag @ ''>\<newline>''"

definition get_value :: "tag_value \<Rightarrow> int \<Rightarrow> string \<Rightarrow> string \<Rightarrow> string \<times> int \<times> string" where
  "get_value tv indent current_path root_ns =
     (let tag = tv_tag tv; ind = indent_str indent;
          path = current_path @ ''/'' @ tv_prefix tv @ '':'' @ tag
      in case tv_type tv of
           C_XMLBEGIN \<Rightarrow>
             (ind @ ''<'' @ tag @ '' xmlns=\"'' @ tv_ns tv @ ''\">\<newline>'', indent + INDENT_SIZE, path)
         | C_XMLEND \<Rightarrow> (ind @ ''</'' @ tag @ ''>\<newline>'', indent - INDENT_SIZE, parent_path current_path)
         | C_NOEXISTS \<Rightarrow> (ind @ ''<'' @ tag @ '' nc:operation=\"delete\">\<newline>'', indent, current_path)
         | C_XMLBEGINDEL \<Rightarrow>
             (ind @ ''<'' @ tag @ '' nc:operation=\"delete\">\<newline>'', indent + INDENT_SIZE, path)
         | C_XMLTAG \<Rightarrow> (ind @ ''<'' @ tag @ ''/>\<newline>'', indent, current_path)
         | C_LIST \<Rightarrow>
             (concat (map (leaf_elem indent tag) (split_space [] (tv_val2str tv (root_ns, path)))),
              indent, current_path)
         | C_OTHER \<Rightarrow> (leaf_elem indent tag (tv_val2str tv (root_ns, path)), indent, current_path))"

fun mods_text :: "string \<Rightarrow> int \<Rightarrow> string \<Rightarrow> tag_value list \<Rightarrow> string" where
  "mods_text root_ns indent path [] = []"
| "mods_text root_ns indent path (tv # tvs) =
     (let (text, indent1, path1) = get_value tv indent path root_ns
      in text @ mods_text root_ns indent1 path1 tvs)"

text \<open>The message of \<open>process_modifications\<close>: the root namespace is that of the second value.\<close>

definition modifications_msg :: "tag_value list \<Rightarrow> string result" where
  "modifications_msg mods =
     (if length mods < 2 then Inl IndexError
      else Inr (edit_config_msg (mods_text (tv_ns (mods ! 1)) 0 [] mods)))"

section \<open>Operations on the servers\<close>

text \<open>An entry of the list \<open>netconf-server\<close>, with the subscription that was made for it.\<close>

record sync_server =
  ss_subscription_id :: int
  ss_name :: string
  ss_remote_address :: string
  ss_remote_port :: string
  ss_username :: string
  ss_password :: string
  ss_subscription_path :: string
  ss_subscription_priority :: int

text \<open>
  Running \<open>netconf-console\<close> for a server with some input changes the state \<open>'w\<close> of the servers and
  gives the standard output and the standard error.
\<close>

type_synonym 'w runner = "sync_server \<Rightarrow> string \<Rightarrow> 'w \<Rightarrow> 'w \<times> string \<times> string"

type_synonym errors = "(string \<times> string) list"

definition send_netconf_operation ::
  "'w runner \<Rightarrow> sync_server list \<Rightarrow> string \<Rightarrow> int \<Rightarrow> 'w \<times> errors \<Rightarrow> 'w \<times> errors" where
  "send_netconf_operation run servers op sid wq =
     (case find (\<lambda>s. ss_subscription_id s = sid) servers of
        None \<Rightarrow> wq
      | Some s \<Rightarrow>
          (let (w, q) = wq; (w1, reply, errstr) = run s op w
           in (w1, if py_find reply ''<rpc-error>'' \<noteq> None \<or> errstr \<noteq> [] then q @ [(reply, errstr)] else q)))"

text \<open>A child process: an exception ends it, and leaves the servers and the queue alone.\<close>

definition process_modifications ::
  "'w runner \<Rightarrow> sync_server list \<Rightarrow> tag_value list \<Rightarrow> int \<Rightarrow> 'w \<times> errors \<Rightarrow> 'w \<times> errors" where
  "process_modifications run servers mods sid wq =
     (case modifications_msg mods of
        Inl e \<Rightarrow> wq
      | Inr op \<Rightarrow> send_netconf_operation run servers op sid wq)"

definition commit_op :: "'w runner \<Rightarrow> sync_server list \<Rightarrow> int \<Rightarrow> 'w \<times> errors \<Rightarrow> 'w \<times> errors" where
  "commit_op run servers sid wq = send_netconf_operation run servers sync_commit_msg sid wq"

definition confirm_commit :: "'w runner \<Rightarrow> sync_server list \<Rightarrow> int \<Rightarrow> 'w \<times> errors \<Rightarrow> 'w \<times> errors" where
  "confirm_commit run servers sid wq = send_netconf_operation run servers confirm_msg sid wq"

text \<open>
  The call \<open>send_netconf_operation(op, sid. q)\<close> reads the attribute \<open>q\<close> of an integer, which
  raises before the call is made.
\<close>

definition sid_attribute_q :: "int \<Rightarrow> unit result" where
  "sid_attribute_q sid = Inl AttributeError"

definition cancel_commit :: "'w runner \<Rightarrow> sync_server list \<Rightarrow> int \<Rightarrow> 'w \<times> errors \<Rightarrow> 'w \<times> errors" where
  "cancel_commit run servers sid wq =
     (case sid_attribute_q sid of
        Inl e \<Rightarrow> wq
      | Inr _ \<Rightarrow> send_netconf_operation run servers cancel_msg sid wq)"

section \<open>Subscription events\<close>

text \<open>What the program answers to CDB.\<close>

datatype answer = DonePriority | AbortTrans

text \<open>\<open>q.queue\<close>: the queue of the module \<open>multiprocessing\<close> has no such attribute.\<close>

definition queue_attribute :: "errors \<Rightarrow> errors result" where
  "queue_attribute q = Inl AttributeError"

definition handle_sub_prepare ::
  "'w runner \<Rightarrow> sync_server list \<Rightarrow> (int \<Rightarrow> tag_value list) \<Rightarrow> int list \<Rightarrow> 'w \<Rightarrow> 'w \<times> answer result" where
  "handle_sub_prepare run servers get_modifications sids w =
     (let (w1, q1) = fold (\<lambda>sid wq. if get_modifications sid = [] then wq
                                  else process_modifications run servers (get_modifications sid) sid wq)
                       sids (w, [])
      in if q1 \<noteq> [] then (w1, rbind (queue_attribute q1) (\<lambda>_. Inr AbortTrans))
         else (let (w2, q2) = fold (commit_op run servers) sids (w1, q1)
               in if q2 \<noteq> [] then (w2, rbind (queue_attribute q2) (\<lambda>_. Inr AbortTrans))
                  else (w2, Inr DonePriority)))"

definition handle_sub_abort ::
  "'w runner \<Rightarrow> sync_server list \<Rightarrow> int list \<Rightarrow> 'w \<Rightarrow> 'w \<times> answer result" where
  "handle_sub_abort run servers sids w =
     (let (w1, q) = fold (cancel_commit run servers) sids (w, [])
      in if q \<noteq> [] then (w1, rbind (queue_attribute q) (\<lambda>_. Inr DonePriority))
         else (w1, Inr DonePriority))"

definition handle_sub_commit ::
  "'w runner \<Rightarrow> sync_server list \<Rightarrow> int list \<Rightarrow> 'w \<Rightarrow> 'w \<times> answer result" where
  "handle_sub_commit run servers sids w =
     (let (w1, q) = fold (confirm_commit run servers) sids (w, [])
      in if q \<noteq> [] then (w1, rbind (queue_attribute q) (\<lambda>_. Inr DonePriority))
         else (w1, Inr DonePriority))"

text \<open>
  Subscribing for every entry of the server list, in its order, and for the list itself:
  \<open>subscribe2\<close> and \<open>subscribe\<close> give the identifiers.
\<close>

definition handle_netconf_server_list ::
  "(nat \<Rightarrow> sync_server \<Rightarrow> int) \<Rightarrow> int \<Rightarrow> sync_server list \<Rightarrow> sync_server list \<times> int" where
  "handle_netconf_server_list subscribe2 server_sid servers =
     (map (\<lambda>(i, s). s\<lparr>ss_subscription_id := subscribe2 i s\<rparr>) (enumerate 0 servers), server_sid)"

text \<open>The action \<open>sync-to\<close>: the subscriptions it triggers and its result, or the error for an unknown name.\<close>

definition cb_action ::
  "bool \<Rightarrow> string list \<Rightarrow> sync_server list \<Rightarrow> (int list \<times> string) result" where
  "cb_action all_exists server_names servers =
     (if all_exists \<or> server_names = [] then
        Inr (map ss_subscription_id servers, ''Synchronized the configuration with all NETCONF servers'')
      else rbind (map_result (\<lambda>n. case find (\<lambda>s. ss_name s = n) servers of
                     None \<Rightarrow> Inl KeyError | Some s \<Rightarrow> Inr (ss_subscription_id s)) server_names) (\<lambda>sub_points.
        Inr (sub_points, ''Synchronized the configuration with '' @ py_join '', '' server_names @ '' NETCONF servers'')))"

text \<open>One pass of the loop in \<open>run\<close>.\<close>

datatype sub_type = SUB_PREPARE | SUB_ABORT | SUB_COMMIT

record sync_state =
  sy_servers :: "sync_server list"
  sy_server_sid :: int

definition run_step ::
  "'w runner \<Rightarrow> (int \<Rightarrow> tag_value list) \<Rightarrow> (nat \<Rightarrow> sync_server \<Rightarrow> int) \<Rightarrow> int \<Rightarrow> sync_server list \<Rightarrow>
     sub_type \<Rightarrow> int list \<Rightarrow> sync_state \<Rightarrow> 'w \<Rightarrow> sync_state \<times> 'w \<times> answer result" where
  "run_step run get_modifications subscribe2 new_sid new_servers typ sids st w =
     (case typ of
        SUB_PREPARE \<Rightarrow> (st, handle_sub_prepare run (sy_servers st) get_modifications sids w)
      | SUB_ABORT \<Rightarrow> (st, handle_sub_abort run (sy_servers st) sids w)
      | SUB_COMMIT \<Rightarrow>
          (case sids of
             [] \<Rightarrow> (st, w, Inl IndexError)
           | sid # _ \<Rightarrow>
               if sid = sy_server_sid st then
                 (let (servers, server_sid) = handle_netconf_server_list subscribe2 new_sid new_servers
                  in (\<lparr>sy_servers = servers, sy_server_sid = server_sid\<rparr>, w, Inr DonePriority))
               else (st, handle_sub_commit run (sy_servers st) sids w)))"

section \<open>Balanced modifications\<close>

text \<open>Tags, namespaces and values that need no escaping.\<close>

definition tag_ok :: "string \<Rightarrow> bool" where
  "tag_ok t \<longleftrightarrow> elem_name t \<and> last t \<noteq> CHR ''/'' \<and> (\<forall>c \<in> set t. \<not> is_space c)"

definition tv_ok :: "tag_value \<Rightarrow> bool" where
  "tv_ok tv \<longleftrightarrow> tag_ok (tv_tag tv) \<and> no_angle (tv_ns tv) \<and> (\<forall>x. no_angle (tv_val2str tv x))"

text \<open>Every start is ended by its own end, and no leaf is deleted.\<close>

fun nested :: "string list \<Rightarrow> tag_value list \<Rightarrow> bool" where
  "nested stk [] \<longleftrightarrow> stk = []"
| "nested stk (tv # tvs) \<longleftrightarrow>
     (case tv_type tv of
        C_XMLBEGIN \<Rightarrow> nested (tv_tag tv # stk) tvs
      | C_XMLBEGINDEL \<Rightarrow> nested (tv_tag tv # stk) tvs
      | C_XMLEND \<Rightarrow> (case stk of [] \<Rightarrow> False | n # stk' \<Rightarrow> n = tv_tag tv \<and> nested stk' tvs)
      | C_NOEXISTS \<Rightarrow> False
      | _ \<Rightarrow> nested stk tvs)"

lemma indent_no_angle: "no_angle (indent_str n)"
  by (simp add: indent_str_def no_angle_def)

text \<open>What may follow the name in a start tag.\<close>

definition attr_ok :: "string \<Rightarrow> bool" where
  "attr_ok a \<longleftrightarrow> no_angle a \<and> (a = [] \<or> is_space (hd a) \<and> last a \<noteq> CHR ''/'')"

lemma open_tag_stack:
  assumes "tag_ok t" and "attr_ok a"
  shows "tag_stack stk (rev a @ rev t) = Some (t # stk)"
proof -
  from assms(1) obtain x xs where t: "t = x # xs" "x \<noteq> CHR ''?''" "x \<noteq> CHR ''/''"
    by (cases t) (auto simp: tag_ok_def elem_name_def)
  have take: "takeWhile (\<lambda>c. \<not> is_space c) (t @ a) = t"
    using assms by (cases a) (auto simp: tag_ok_def attr_ok_def takeWhile_append2 takeWhile_eq_all_conv)
  have "last (t @ a) \<noteq> CHR ''/''" using assms by (auto simp: tag_ok_def attr_ok_def last_append)
  moreover have "rev a @ rev t = last (t @ a) # rev (butlast (t @ a))"
    using t(1) by (metis append_butlast_last_id append_is_Nil_conv list.distinct(1) rev_append rev_eq_Cons_iff rev_rev_ident)
  ultimately obtain c r where "rev a @ rev t = c # r" "c \<noteq> CHR ''/''" by metis
  moreover have "rev (rev a @ rev t) = t @ a" by simp
  ultimately show ?thesis
    using t take by (simp add: tag_stack_def Let_def del: rev_append)
qed

lemma close_tag_stack: "tag_stack (t # stk) (rev t @ ''/'') = Some stk"
  by (cases "rev t") (auto simp: tag_stack_def)

lemma scan_open:
  assumes "tag_ok t" and "attr_ok a"
  shows "scan (''<'' @ t @ a @ ''>\<newline>'' @ r) (stk, None) = scan r (t # stk, None)"
proof -
  have "no_angle t" "no_angle a" using assms by (simp_all add: tag_ok_def elem_name_def attr_ok_def)
  with open_tag_stack [OF assms] show ?thesis by (simp add: scan_tag)
qed

lemma attrs_ok: "no_angle ns \<Longrightarrow> attr_ok ('' xmlns=\"'' @ ns @ ''\"'')" "attr_ok '' nc:operation=\"delete\"''"
  by (simp_all add: attr_ok_def no_angle_def is_space_def)

lemma scan_close:
  assumes "tag_ok t"
  shows "scan (''</'' @ t @ ''>\<newline>'' @ r) (t # stk, None) = scan r (stk, None)"
proof -
  have "no_angle t" using assms by (simp add: tag_ok_def elem_name_def)
  then show ?thesis by (simp add: scan_tag close_tag_stack)
qed

lemma leaf_elem_neutral:
  assumes "tag_ok t" and "no_angle v"
  shows "neutral (leaf_elem n t v)"
proof -
  have t: "no_angle t" using assms(1) by (simp add: tag_ok_def elem_name_def)
  show ?thesis
    using t assms(2) open_tag_stack [OF assms(1), of "[]", unfolded attr_ok_def no_angle_def]
    by (simp add: neutral_def leaf_elem_def scan_text [OF indent_no_angle] scan_tag scan_text close_tag_stack)
qed

lemma empty_elem_neutral:
  assumes "tag_ok t"
  shows "neutral (indent_str n @ ''<'' @ t @ ''/>\<newline>'')"
proof -
  have t: "no_angle t" "t \<noteq> []" "hd t \<noteq> CHR ''?''" "hd t \<noteq> CHR ''/''"
    using assms by (auto simp: tag_ok_def elem_name_def)
  then show ?thesis
    by (simp add: neutral_def scan_text [OF indent_no_angle] scan_tag tag_stack_empty_elem)
qed

lemma split_space_sub: "w \<in> set (split_space acc s) \<Longrightarrow> set w \<subseteq> set acc \<union> set s"
  by (induction acc s rule: split_space.induct) (auto split: if_splits)

lemma no_angle_sub: "set w \<subseteq> set s \<Longrightarrow> no_angle s \<Longrightarrow> no_angle w"
  by (auto simp: no_angle_def)

lemma neutral_concat: "(\<And>x. x \<in> set xs \<Longrightarrow> neutral x) \<Longrightarrow> neutral (concat xs)"
  by (induction xs) (simp_all add: neutral_def)

lemma leaf_list_neutral:
  assumes "tag_ok t" and "no_angle v"
  shows "neutral (concat (map (leaf_elem n t) (split_space [] v)))"
proof (rule neutral_concat)
  fix e assume "e \<in> set (map (leaf_elem n t) (split_space [] v))"
  then obtain w where w: "w \<in> set (split_space [] v)" "e = leaf_elem n t w" by auto
  then have "no_angle w" using split_space_sub [OF w(1)] assms(2) by (auto intro: no_angle_sub)
  with w(2) leaf_elem_neutral [OF assms(1)] show "neutral e" by simp
qed

lemma mods_text_scan:
  assumes "list_all tv_ok tvs" and "nested stk tvs"
  shows "scan (mods_text root_ns n p tvs @ r) (stk @ base, None) = scan r (base, None)"
  using assms
proof (induction tvs arbitrary: stk n p)
  case (Cons tv tvs)
  have ok: "tag_ok (tv_tag tv)" "no_angle (tv_ns tv)" "\<And>x. no_angle (tv_val2str tv x)" "list_all tv_ok tvs"
    using Cons.prems(1) by (auto simp: tv_ok_def [of tv])
  obtain tx n' p' where g: "get_value tv n p root_ns = (tx, n', p')" by (cases "get_value tv n p root_ns")
  have IH: "nested stk' tvs \<Longrightarrow> scan (mods_text root_ns n' p' tvs @ r) (stk' @ base, None) = scan r (base, None)" for stk'
    using Cons.IH [OF ok(4)] .
  have begin_scan: "scan (tx @ s) (stk @ base, None) = scan s ((tv_tag tv # stk) @ base, None)"
    if ty: "tv_type tv = C_XMLBEGIN \<or> tv_type tv = C_XMLBEGINDEL" for s
  proof -
    obtain a where a: "attr_ok a" "tx = indent_str n @ ''<'' @ tv_tag tv @ a @ ''>\<newline>''"
    proof (cases "tv_type tv = C_XMLBEGIN")
      case True
      with g attrs_ok(1) [OF ok(2)] that [of "'' xmlns=\"'' @ tv_ns tv @ ''\"''"] show ?thesis
        by (auto simp: get_value_def Let_def)
    next
      case False
      with g ty attrs_ok(2) that [of "'' nc:operation=\"delete\"''"] show ?thesis
        by (auto simp: get_value_def Let_def)
    qed
    then have "scan (tx @ s) (stk @ base, None) = scan (''<'' @ tv_tag tv @ a @ ''>\<newline>'' @ s) (stk @ base, None)"
      using scan_text [OF indent_no_angle] by (simp only: append_assoc)
    also have "\<dots> = scan s (tv_tag tv # stk @ base, None)" by (rule scan_open [OF ok(1) a(1)])
    finally show ?thesis by simp
  qed
  have leaf: "neutral tx" if "tv_type tv = C_XMLTAG \<or> tv_type tv = C_LIST \<or> tv_type tv = C_OTHER"
  proof -
    show ?thesis
      using that g empty_elem_neutral [OF ok(1), of n] leaf_elem_neutral [OF ok(1) ok(3), of n]
        leaf_list_neutral [OF ok(1) ok(3), of n]
      by (auto simp: get_value_def Let_def)
  qed
  show ?case
  proof (cases "tv_type tv")
    case C_XMLEND
    with Cons.prems(2) obtain stk' where stk: "stk = tv_tag tv # stk'" "nested stk' tvs"
      by (auto split: list.splits)
    have "tx = indent_str n @ ''</'' @ tv_tag tv @ ''>\<newline>''"
      using g C_XMLEND by (auto simp: get_value_def Let_def)
    then have "scan (tx @ s) (stk @ base, None) = scan s (stk' @ base, None)" for s
      using scan_close [OF ok(1)] scan_text [OF indent_no_angle] stk(1) by simp
    with g IH [OF stk(2)] show ?thesis by simp
  qed (use Cons.prems(2) g IH IH [of "tv_tag tv # stk"] begin_scan leaf [unfolded neutral_def] in simp_all)
qed simp

section \<open>Properties\<close>

lemma neutral_append: "neutral s \<Longrightarrow> neutral t \<Longrightarrow> neutral (s @ t)"
  by (simp add: neutral_def)

lemma neutral_hello: "neutral sync_hello"
  by (simp add: neutral_def sync_hello_def tag_stack_def Let_def is_space_def)

text \<open>An \<open>rpc\<close> element: its body closes it.\<close>

lemma rpc_head_scan:
  assumes "no_angle i" and "i = [] \<or> last i \<noteq> CHR ''/''"
  shows "scan (rpc_msg i body @ r) (stk, None) = scan (body @ EOM @ r) (''rpc'' # stk, None)"
  using assms(1) by (simp add: rpc_msg_def XML_HEAD_def scan_tag tag_stack_def Let_def is_space_def)

lemma neutral_rpc:
  assumes "no_angle i" and "i = [] \<or> last i \<noteq> CHR ''/''"
    and "\<And>stk r. scan (body @ r) (''rpc'' # stk, None) = scan r (stk, None)"
  shows "neutral (rpc_msg i body)"
  unfolding neutral_def rpc_head_scan [OF assms(1,2)] assms(3) by simp

text \<open>The edit message, with the scanner right before and right behind the modifications.\<close>

lemma edit_config_scan:
  "\<exists>rest. (\<forall>mods. scan (edit_config_msg mods) ([], None) =
       scan (mods @ rest) ([''config'', ''edit-config'', ''rpc''], None)) \<and>
     scan rest ([''config'', ''edit-config'', ''rpc''], None) = Some ([], None)"
proof -
  let ?head = "''  <edit-config xmlns:nc=\"urn:ietf:params:xml:ns:netconf:base:1.0\">\<newline>    <target>\<newline>      <candidate/>\<newline>    </target>\<newline>'' @
      ''    <test-option>set</test-option>\<newline>    <config>\<newline>      ''"
  let ?tail = "''\<newline>    </config>\<newline>  </edit-config>\<newline></rpc>\<newline>''"
  let ?r1 = "rpc_msg ''1'' (''  <discard-changes/>\<newline></rpc>\<newline>'')"
  let ?r3 = "rpc_msg ''3'' (''  <validate>\<newline>    <source>\<newline>      <candidate/>\<newline>    </source>\<newline>  </validate>\<newline></rpc>\<newline>'')"
  let ?r4 = "rpc_msg ''4'' (''  <close-session/>\<newline></rpc>\<newline>'')"
  let ?fin = "nl @ ?r3 @ nl @ ?r4"
  have msg: "edit_config_msg mods = (sync_hello @ ?r1 @ nl) @ rpc_msg ''2'' (?head @ mods @ ?tail) @ ?fin" for mods
    by (simp add: edit_config_msg_def)
  have nl: "neutral nl" by (simp add: neutral_def)
  have pre: "neutral (sync_hello @ ?r1 @ nl)"
    by (intro neutral_append neutral_hello neutral_rpc nl) (simp_all add: no_angle_def tag_stack_def Let_def)
  have post: "neutral ?fin"
    by (intro neutral_append neutral_rpc nl) (simp_all add: no_angle_def tag_stack_def Let_def is_space_def)
  have head: "scan (?head @ s) ([''rpc''], None) = scan s ([''config'', ''edit-config'', ''rpc''], None)" for s
    by (simp add: tag_stack_def Let_def is_space_def)
  have tail: "scan (?tail @ s) ([''config'', ''edit-config'', ''rpc''], None) = scan s ([], None)" for s
    by (simp add: tag_stack_def Let_def)
  have eom: "neutral EOM" by (simp add: neutral_def)
  have "scan (edit_config_msg mods) ([], None) =
      scan (mods @ ?tail @ EOM @ ?fin) ([''config'', ''edit-config'', ''rpc''], None)" for mods
  proof -
    have "scan (edit_config_msg mods) ([], None) = scan (rpc_msg ''2'' (?head @ mods @ ?tail) @ ?fin) ([], None)"
      unfolding msg neutral_scan [OF pre] ..
    also have "\<dots> = scan ((?head @ mods @ ?tail) @ EOM @ ?fin) ([''rpc''], None)"
      by (rule rpc_head_scan) (simp_all add: no_angle_def)
    also have "(?head @ mods @ ?tail) @ EOM @ ?fin = ?head @ (mods @ ?tail @ EOM @ ?fin)"
      by (simp only: append_assoc)
    also have "scan (?head @ (mods @ ?tail @ EOM @ ?fin)) ([''rpc''], None) =
        scan (mods @ ?tail @ EOM @ ?fin) ([''config'', ''edit-config'', ''rpc''], None)"
      by (rule head)
    finally show ?thesis .
  qed
  moreover have "scan (?tail @ EOM @ ?fin) ([''config'', ''edit-config'', ''rpc''], None) = Some ([], None)"
    unfolding tail neutral_scan [OF eom] using neutral_scan [OF post, of "[]" "[]"] by (simp only: append_Nil2 scan.simps)
  ultimately show ?thesis by blast
qed


text \<open>Values for the examples.\<close>

definition tv :: "val_type \<Rightarrow> string \<Rightarrow> tag_value" where
  "tv ty tag = \<lparr>tv_type = ty, tv_ns = ''http://example.com/r'', tv_prefix = ''r'', tv_tag = tag,
     tv_val2str = \<lambda>_. ''10''\<rparr>"


text \<open>
  Deleting a leaf: for a container with one deleted leaf of another name, the start tag of the
  leaf is never closed and the edit is not balanced.
\<close>

theorem leaf_deletion_unbalanced:
  assumes "tag_ok a" and "tag_ok x" and "a \<noteq> x"
  shows "\<exists>m. modifications_msg [tv C_XMLBEGIN a, tv C_NOEXISTS x, tv C_XMLEND a] = Inr m \<and> \<not> balanced m"
proof -
  let ?text = "''<'' @ a @ '' xmlns=\"http://example.com/r\">\<newline>'' @
      ''  <'' @ x @ '' nc:operation=\"delete\">\<newline>'' @ ''  </'' @ a @ ''>\<newline>''"
  have na: "no_angle a" "no_angle x" using assms by (auto simp: tag_ok_def elem_name_def)
  have tx: "mods_text ns 0 [] [tv C_XMLBEGIN a, tv C_NOEXISTS x, tv C_XMLEND a] = ?text" for ns
    by (simp add: tv_def get_value_def indent_str_def INDENT_SIZE_def numeral_2_eq_2)
  have "tag_stack (x # stk) (rev a @ ''/'') = None" for stk
    using assms(3) by (cases "rev a") (auto simp: tag_stack_def)
  then have "scan (?text @ r) (stk, None) = None" for stk r
    using scan_open [OF assms(1) attrs_ok(1), of "''http://example.com/r''"]
      scan_open [OF assms(2) attrs_ok(2)] scan_tag [OF na(1)]
    by (simp add: no_angle_def)
  with edit_config_scan have "\<not> balanced (edit_config_msg ?text)"
    by (metis balanced_def option.distinct(1))
  with tx show ?thesis by (simp add: modifications_msg_def)
qed

lemma leaf_deletion_unbalanced_witness:
  "\<exists>m. modifications_msg [tv C_XMLBEGIN ''sys'', tv C_NOEXISTS ''mtu'', tv C_XMLEND ''sys''] = Inr m \<and> \<not> balanced m"
  by (rule leaf_deletion_unbalanced)
    (simp_all add: tag_ok_def elem_name_def no_angle_def is_space_def)

text \<open>
  Servers that record what they get and reply with \<open>reply\<close>; an operation is rejected when its
  reply has an error element.
\<close>

definition log_run :: "(int \<Rightarrow> string \<Rightarrow> string) \<Rightarrow> (int \<times> string) list runner" where
  "log_run reply s op w = (w @ [(ss_subscription_id s, op)], reply (ss_subscription_id s) op, [])"

definition rejected :: "(int \<Rightarrow> string \<Rightarrow> string) \<Rightarrow> int \<times> string \<Rightarrow> bool" where
  "rejected reply so \<longleftrightarrow> py_find (reply (fst so) (snd so)) ''<rpc-error>'' \<noteq> None"

lemma send_logged:
  assumes "sid \<in> ss_subscription_id ` set servers"
  shows "send_netconf_operation (log_run reply) servers op sid (w, q) =
     (w @ [(sid, op)], q @ (if rejected reply (sid, op) then [(reply sid op, [])] else []))"
proof -
  obtain s where "find (\<lambda>s. ss_subscription_id s = sid) servers = Some s" "ss_subscription_id s = sid"
    using assms by (cases "find (\<lambda>s. ss_subscription_id s = sid) servers")
      (auto simp: find_None_iff find_Some_iff)
  then show ?thesis by (simp add: send_netconf_operation_def log_run_def rejected_def)
qed

lemma send_fold_logged:
  assumes "\<forall>sid \<in> set sids. sid \<in> ss_subscription_id ` set servers"
    and "\<forall>sid \<in> set sids. \<forall>wq. step sid wq =
      (if skip sid then wq else send_netconf_operation (log_run reply) servers (op sid) sid wq)"
  shows "fold step sids (w, q) =
     (w @ map (\<lambda>sid. (sid, op sid)) (filter (\<lambda>sid. \<not> skip sid) sids),
      q @ map (\<lambda>so. (reply (fst so) (snd so), []))
        (filter (rejected reply) (map (\<lambda>sid. (sid, op sid)) (filter (\<lambda>sid. \<not> skip sid) sids))))"
  using assms
proof (induction sids arbitrary: w q)
  case (Cons sid sids)
  then show ?case by (simp add: send_logged)
qed simp



text \<open>
  The abort phase does nothing: whatever the servers hold, no cancel-commit reaches any of them, and
  the program reports the abort as done.
\<close>

theorem abort_sends_nothing:
  "handle_sub_abort run servers sids w = (w, Inr DonePriority)"
proof -
  have "fold (cancel_commit run servers) sids wq = wq" for wq
    by (induction sids arbitrary: wq) (simp_all add: cancel_commit_def sid_attribute_q_def)
  then show ?thesis by (simp add: handle_sub_abort_def)
qed

end
