(* ===== verification/Modif_Subscriber.thy ===== *)
theory Modif_Subscriber
  imports Cdb_Sync
begin

text \<open>
  The subscriber \<open>confd-and-docker/debian-py-confd/app/modif-subscriber.py\<close>: the text that it prints for the
  modifications of a transaction, what it does when a subscription socket triggers, and its loop. The functions of the CDB
  library are the record \<open>cdb_ops\<close> over the state \<open>'w\<close> of CDB. The reference for the text is a pretty printer on trees
  (\<open>render\<close>).
\<close>

section \<open>Modifications\<close>

record mod_value =
  mv_type :: val_type
  mv_tag :: string
  mv_str :: string

definition ms_INDENT_SIZE :: int where "ms_INDENT_SIZE = 4"

definition ms_get_value :: "mod_value \<Rightarrow> int \<Rightarrow> string \<times> int" where
  "ms_get_value tag_val indent =
     (let tag = mv_tag tag_val; pad = indent_str indent
      in case mv_type tag_val of
           C_XMLBEGIN \<Rightarrow> (pad @ ''<'' @ tag @ ''>\<newline>'', indent + ms_INDENT_SIZE)
         | C_XMLEND \<Rightarrow> (indent_str (indent - ms_INDENT_SIZE) @ ''</'' @ tag @ ''>\<newline>'', indent - ms_INDENT_SIZE)
         | C_NOEXISTS \<Rightarrow> (pad @ ''<'' @ tag @ '' operation=\"delete\">\<newline>'', indent)
         | C_XMLBEGINDEL \<Rightarrow> (pad @ ''<'' @ tag @ '' operation=\"delete\">\<newline>'', indent + ms_INDENT_SIZE)
         | C_XMLTAG \<Rightarrow> (pad @ ''<'' @ tag @ ''/>\<newline>'', indent)
         | _ \<Rightarrow> (pad @ ''<'' @ tag @ ''>'' @ mv_str tag_val @ ''</'' @ tag @ ''>\<newline>'', indent))"

fun ms_mods_loop :: "mod_value list \<Rightarrow> int \<Rightarrow> string \<times> int" where
  "ms_mods_loop [] indent = ([], indent)"
| "ms_mods_loop (v # vs) indent =
     (let (txt1, indent1) = ms_get_value v indent; (txt2, indent2) = ms_mods_loop vs indent1
      in (txt1 @ txt2, indent2))"

definition ms_process_modifications :: "mod_value list \<Rightarrow> string" where
  "ms_process_modifications mods =
     ''modifications read by subscriber:\<newline>'' @ fst (ms_mods_loop mods 0)"

section \<open>Subscriptions\<close>

record 'w cdb_ops =
  cd_read_subscription :: "'w \<Rightarrow> 'w \<times> int list result"
  cd_get_modifications :: "int \<Rightarrow> 'w \<Rightarrow> 'w \<times> mod_value list result"
  cd_sync_subscription :: "'w \<Rightarrow> 'w \<times> unit result"

text \<open>The state of CDB, what was written to the standard error, and the exception.\<close>

fun ms_process_points :: "'w cdb_ops \<Rightarrow> int \<Rightarrow> int list \<Rightarrow> 'w \<Rightarrow> 'w \<times> string list \<times> unit result" where
  "ms_process_points ops spoint [] w = (w, [], Inr ())"
| "ms_process_points ops spoint (s # ss) w =
     (if s \<noteq> spoint then ms_process_points ops spoint ss w
      else (case cd_get_modifications ops spoint w of
              (w1, Inl e) \<Rightarrow> (w1, [], Inl e)
            | (w1, Inr mods) \<Rightarrow>
                (let out = ms_process_modifications mods
                 in case cd_sync_subscription ops w1 of
                      (w2, Inl e) \<Rightarrow> (w2, [out], Inl e)
                    | (w2, Inr _) \<Rightarrow>
                        (let (w3, outs, r) = ms_process_points ops spoint ss w2 in (w3, out # outs, r)))))"

definition process_subscriptions :: "'w cdb_ops \<Rightarrow> int \<Rightarrow> 'w \<Rightarrow> 'w \<times> string list \<times> unit result" where
  "process_subscriptions ops spoint w =
     (case cd_read_subscription ops w of
        (w1, Inl e) \<Rightarrow> (w1, [], Inl e)
      | (w1, Inr sub_points) \<Rightarrow> ms_process_points ops spoint sub_points w1)"

text \<open>
  The loop, for as many passes as \<open>select\<close> found the socket ready or not. An error of the library that stands for a
  failed callback is ignored; any other exception leaves the loop.
\<close>

fun ms_run :: "'w cdb_ops \<Rightarrow> int \<Rightarrow> bool list \<Rightarrow> 'w \<Rightarrow> 'w \<times> string list \<times> unit result" where
  "ms_run ops spoint [] w = (w, [], Inr ())"
| "ms_run ops spoint (False # rs) w = ms_run ops spoint rs w"
| "ms_run ops spoint (True # rs) w =
     (case process_subscriptions ops spoint w of
        (w1, outs, r) \<Rightarrow>
          if r = Inr () \<or> r = Inl ConfdErrExternal
          then (let (w2, outs2, r2) = ms_run ops spoint rs w1 in (w2, outs @ outs2, r2))
          else (w1, outs, r))"

section \<open>Trees of modifications\<close>

datatype mod_tree =
    Created string "mod_tree list"
  | Deleted string "mod_tree list"
  | Empty string
  | Leaf string string

fun flatten :: "mod_tree \<Rightarrow> mod_value list" where
  "flatten (Created t cs) = \<lparr>mv_type = C_XMLBEGIN, mv_tag = t, mv_str = []\<rparr> # concat (map flatten cs) @
     [\<lparr>mv_type = C_XMLEND, mv_tag = t, mv_str = []\<rparr>]"
| "flatten (Deleted t cs) = \<lparr>mv_type = C_XMLBEGINDEL, mv_tag = t, mv_str = []\<rparr> # concat (map flatten cs) @
     [\<lparr>mv_type = C_XMLEND, mv_tag = t, mv_str = []\<rparr>]"
| "flatten (Empty t) = [\<lparr>mv_type = C_XMLTAG, mv_tag = t, mv_str = []\<rparr>]"
| "flatten (Leaf t v) = [\<lparr>mv_type = C_OTHER, mv_tag = t, mv_str = v\<rparr>]"

fun render :: "nat \<Rightarrow> mod_tree \<Rightarrow> string" where
  "render d (Created t cs) = indent_str (4 * int d) @ ''<'' @ t @ ''>\<newline>'' @ concat (map (render (Suc d)) cs) @
     indent_str (4 * int d) @ ''</'' @ t @ ''>\<newline>''"
| "render d (Deleted t cs) = indent_str (4 * int d) @ ''<'' @ t @ '' operation=\"delete\">\<newline>'' @
     concat (map (render (Suc d)) cs) @ indent_str (4 * int d) @ ''</'' @ t @ ''>\<newline>''"
| "render d (Empty t) = indent_str (4 * int d) @ ''<'' @ t @ ''/>\<newline>''"
| "render d (Leaf t v) = indent_str (4 * int d) @ ''<'' @ t @ ''>'' @ v @ ''</'' @ t @ ''>\<newline>''"

fun tree_ok :: "mod_tree \<Rightarrow> bool" where
  "tree_ok (Created t cs) = (tag_ok t \<and> list_all tree_ok cs)"
| "tree_ok (Deleted t cs) = (tag_ok t \<and> list_all tree_ok cs)"
| "tree_ok (Empty t) = tag_ok t"
| "tree_ok (Leaf t v) = (tag_ok t \<and> no_angle v)"

lemma ms_loop_append:
  "ms_mods_loop (vs @ ws) i =
     (let (x, j) = ms_mods_loop vs i; (y, k) = ms_mods_loop ws j in (x @ y, k))"
  by (induction vs arbitrary: i) (simp_all add: Let_def split: prod.splits)

lemma ms_loop_concat:
  assumes "\<And>t. t \<in> set ts \<Longrightarrow> ms_mods_loop (flatten t) i = (f t, i)"
  shows "ms_mods_loop (concat (map flatten ts)) i = (concat (map f ts), i)"
  using assms by (induction ts) (simp_all add: ms_loop_append)

lemma ms_loop_tree: "ms_mods_loop (flatten t) (4 * int d) = (render d t, 4 * int d)"
proof (induction t arbitrary: d)
  case (Created t cs)
  from Created [of _ "Suc d"] ms_loop_concat [of cs "4 * int (Suc d)" "render (Suc d)"] show ?case
    by (simp add: ms_loop_append ms_get_value_def ms_INDENT_SIZE_def algebra_simps)
next
  case (Deleted t cs)
  from Deleted [of _ "Suc d"] ms_loop_concat [of cs "4 * int (Suc d)" "render (Suc d)"] show ?case
    by (simp add: ms_loop_append ms_get_value_def ms_INDENT_SIZE_def algebra_simps)
qed (simp_all add: ms_get_value_def)

lemma render_neutral: "tree_ok t \<Longrightarrow> neutral (render d t)"
proof (induction t arbitrary: d)
  case (Created t cs)
  then have "neutral (concat (map (render (Suc d)) cs))"
    by (intro neutral_concat) (auto simp: list_all_iff)
  moreover have "attr_ok []" by (simp add: attr_ok_def no_angle_def)
  ultimately show ?case
    using Created.prems scan_open [of t "[]"] scan_close [of t]
    by (simp add: neutral_def scan_text [OF indent_no_angle] del: scan.simps)
next
  case (Deleted t cs)
  then have "neutral (concat (map (render (Suc d)) cs))"
    by (intro neutral_concat) (auto simp: list_all_iff)
  moreover have "attr_ok '' operation=\"delete\"''" by (simp add: attr_ok_def no_angle_def is_space_def)
  ultimately show ?case
    using Deleted.prems scan_open [of t "'' operation=\"delete\"''"] scan_close [of t]
    by (simp add: neutral_def scan_text [OF indent_no_angle] del: scan.simps)
next
  case (Empty t)
  then show ?case using empty_elem_neutral [of t] by simp
next
  case (Leaf t v)
  then show ?case using leaf_elem_neutral [of t v] by (simp add: leaf_elem_def)
qed

section \<open>Properties\<close>



text \<open>
  Each trigger of the subscription is answered: for a library that does not fail, the subscriber prints the modifications once per
  occurrence of its subscription point and acknowledges each of them before it takes the next; other points are
  skipped.
\<close>

theorem subscriptions_answered:
  assumes "\<And>w. \<exists>w1 mods. cd_get_modifications ops spoint w = (w1, Inr mods)"
    and "\<And>w. \<exists>w1. cd_sync_subscription ops w = (w1, Inr ())"
  shows "\<exists>w1 outs. ms_process_points ops spoint points w = (w1, outs, Inr ()) \<and>
     length outs = count_list points spoint"
proof (induction points arbitrary: w)
  case (Cons s ss)
  obtain w1 mods where m: "cd_get_modifications ops spoint w = (w1, Inr mods)" using assms(1) by blast
  obtain w2 where y: "cd_sync_subscription ops w1 = (w2, Inr ())" using assms(2) by blast
  from Cons.IH [of w] Cons.IH [of w2] m y show ?case by auto
qed simp

end
