(* ===== verification/Cdb_Daemons.thy ===== *)
theory Cdb_Daemons
  imports Py_World Py_Text
begin

text \<open>
  The main programs of the two subscribers to CDB: \<open>run\<close> of \<open>confd-sync-py/app/cdbl-sync-nc.py\<close> with the sockets of
  \<open>handle_netconf_server_list\<close>, and \<open>run\<close> of \<open>confd-and-docker/debian-py-confd/app/modif-subscriber.py\<close>. What they do with a
  subscription is in \<open>Cdb_Sync\<close> and \<open>Modif_Subscriber\<close>; here it is one call, and the subject are the sockets, the loop and the
  \<open>finally\<close> clause. The sockets of the synchroniser are numbered by the times that it read the list of servers.
\<close>

section \<open>The synchroniser\<close>

datatype cdb_sock = ReadSock nat | OperSock nat | SubSock nat

datatype sync_event =
    ConnectSchemaSock
  | LoadAllSchemas
  | OpenSock cdb_sock
  | StartSession2 cdb_sock bool
  | StartSession cdb_sock
  | NumInstances nat
  | GetSubPath nat nat
  | GetSubPrio nat nat
  | Subscribe2 nat nat string
  | SetSubId nat nat nat
  | GetServerPrio nat
  | SubscribeServers nat nat
  | SubscribeDone nat
  | CloseCdbSock cdb_sock
  | StartSyncDaemon string
  | ReadSubscription nat
  | FirstSid nat
  | HandlePrepare nat
  | HandleAbort nat
  | HandleCommit nat
  | SyncDone nat
  | PrintCtrlC
  | FinishSyncDaemon

type_synonym 'a sync_prog = "(sync_event, 'a) io"

text \<open>The schemas are loaded when the module is; \<open>ms.close\<close> has no parentheses and closes nothing.\<close>

definition load_sync_schemas :: "unit sync_prog" where
  "load_sync_schemas = calls [ConnectSchemaSock, LoadAllSchemas]"

definition subscribe_server :: "nat \<Rightarrow> nat \<Rightarrow> unit sync_prog" where
  "subscribe_server k i =
     io_bind (ask en_str (GetSubPath k i)) (\<lambda>sub_path.
     io_bind (ask en_num (GetSubPrio k i)) (\<lambda>sub_prio.
     io_bind (ask en_num (Subscribe2 k sub_prio sub_path)) (\<lambda>sid.
       call (SetSubId k i sid))))"

fun subscribe_servers :: "nat \<Rightarrow> nat list \<Rightarrow> unit sync_prog" where
  "subscribe_servers k [] = io_ret ()"
| "subscribe_servers k (i # ids) = io_then (subscribe_server k i) (subscribe_servers k ids)"

definition server_list :: "nat \<Rightarrow> bool \<Rightarrow> nat sync_prog" where
  "server_list k lock =
     io_then (calls [OpenSock (ReadSock k), OpenSock (OperSock k), OpenSock (SubSock k), StartSession2 (ReadSock k) lock,
                     StartSession (OperSock k)])
    (io_bind (ask en_num (NumInstances k)) (\<lambda>num.
     io_then (subscribe_servers k [0..<num])
    (io_then (call (CloseCdbSock (OperSock k)))
    (io_bind (ask en_num (GetServerPrio k)) (\<lambda>server_prio.
     io_bind (ask en_num (SubscribeServers k server_prio)) (\<lambda>server_sid.
     io_then (calls [CloseCdbSock (ReadSock k), SubscribeDone k]) (io_ret server_sid)))))))"

text \<open>One pass of the loop, with the socket and the subscription of the list after it.\<close>

definition sync_pass :: "nat \<Rightarrow> nat \<Rightarrow> (nat \<times> nat) sync_prog" where
  "sync_pass k server_sid =
     io_bind (ask en_num (ReadSubscription k)) (\<lambda>type.
     io_then (io_when (type = 0) (call (HandlePrepare k)))
    (io_then (io_when (type = 1) (call (HandleAbort k)))
      (if type = 2 then
         io_bind (ask en_num (FirstSid k)) (\<lambda>sid.
           if sid = server_sid then
             io_bind (server_list (Suc k) False) (\<lambda>new_sid.
             io_then (calls [SyncDone k, CloseCdbSock (SubSock k)]) (io_ret (Suc k, new_sid)))
           else io_then (call (HandleCommit k)) (io_ret (k, server_sid)))
       else io_ret (k, server_sid))))"

text \<open>The loop ends with an exception only; it gives the socket that is in use then.\<close>

fun sync_loop :: "nat \<Rightarrow> nat \<Rightarrow> nat \<Rightarrow> (nat \<times> py_error) sync_prog" where
  "sync_loop 0 k server_sid = io_running"
| "sync_loop (Suc fuel) k server_sid =
     io_bind (io_attempt (sync_pass k server_sid)) (\<lambda>r.
       case r of Inl e \<Rightarrow> io_ret (k, e) | Inr (k', sid') \<Rightarrow> sync_loop fuel k' sid')"

definition sync_run :: "nat \<Rightarrow> unit sync_prog" where
  "sync_run fuel =
     io_bind (server_list 0 True) (\<lambda>server_sid.
     io_then (call (StartSyncDaemon ''sync-to''))
    (io_bind (sync_loop fuel 0 server_sid) (\<lambda>(k, e).
     io_then (io_when (e = KeyboardInterrupt) (call PrintCtrlC))
    (io_then (calls [CloseCdbSock (SubSock k), FinishSyncDaemon])
      (if e = KeyboardInterrupt then io_ret () else io_raise e)))))"

section \<open>The modifications subscriber\<close>

datatype modif_event =
    SetModifDebug
  | NewModifSock bool
  | ConnectModifMaapi
  | LoadModifSchemas
  | ConnectModifCdb
  | SubscribeModif nat string
  | SubscribeModifDone
  | Select
  | ProcessSubscriptions nat
  | PrintModifCtrlC
  | CloseModifSock bool

type_synonym 'a modif_prog = "(modif_event, 'a) io"

text \<open>The loop: an external error of the library is ignored.\<close>

fun modif_loop :: "nat \<Rightarrow> nat \<Rightarrow> unit modif_prog" where
  "modif_loop 0 spoint = io_running"
| "modif_loop (Suc fuel) spoint =
     io_bind (ask en_bool Select) (\<lambda>triggered.
     io_then (io_when triggered (io_except (call (ProcessSubscriptions spoint)) ConfdErrExternal (io_ret ()))) (modif_loop fuel spoint))"

definition modif_run :: "nat \<Rightarrow> unit modif_prog" where
  "modif_run fuel =
     io_then (calls [SetModifDebug, NewModifSock True, NewModifSock False, ConnectModifMaapi, LoadModifSchemas, ConnectModifCdb])
    (io_bind (ask en_num (SubscribeModif 3 ''/folder-user'')) (\<lambda>spoint.
     io_then (call SubscribeModifDone)
    (io_bind (io_attempt (modif_loop fuel spoint)) (\<lambda>r.
     io_then (io_when (r = Inl KeyboardInterrupt) (call PrintModifCtrlC))
    (io_then (call (CloseModifSock True))
      (case r of Inl e \<Rightarrow> if e = KeyboardInterrupt then io_ret () else io_raise e | Inr _ \<Rightarrow> io_ret ()))))))"

section \<open>Lemmas\<close>

text \<open>An environment in which only waiting for the next subscription can be interrupted.\<close>

definition quiet :: "sync_event env \<Rightarrow> bool" where
  "quiet en \<longleftrightarrow> (\<forall>h e. (\<forall>k. e \<noteq> ReadSubscription k) \<longrightarrow> en_fail en (h @ [e]) = None)"

lemma quiet_ask: "quiet en \<Longrightarrow> (\<And>k. e \<noteq> ReadSubscription k) \<Longrightarrow> ask fld e en h = (h @ [e], Ret (fld en (h @ [e])))"
  by (simp add: ask_def quiet_def)

lemma quiet_call: "quiet en \<Longrightarrow> (\<And>k. e \<noteq> ReadSubscription k) \<Longrightarrow> call e en h = (h @ [e], Ret ())"
  by (simp add: call_def quiet_ask)

lemma quiet_calls: "quiet en \<Longrightarrow> (\<And>k. ReadSubscription k \<notin> set es) \<Longrightarrow> calls es en h = (h @ es, Ret ())"
proof (induction es arbitrary: h)
  case (Cons e es)
  from Cons.prems(2) have e: "e \<noteq> ReadSubscription k" for k by auto
  from Cons e show ?case by (simp add: io_bind_def quiet_call)
qed (simp add: io_ret_def)

fun sock_effect :: "sync_event \<Rightarrow> bool" where
  "sock_effect (OpenSock _) = True"
| "sock_effect (CloseCdbSock _) = True"
| "sock_effect FinishSyncDaemon = True"
| "sock_effect _ = False"

definition list_effects :: "nat \<Rightarrow> sync_event list" where
  "list_effects k =
     [OpenSock (ReadSock k), OpenSock (OperSock k), OpenSock (SubSock k), CloseCdbSock (OperSock k), CloseCdbSock (ReadSock k)]"

text \<open>\<open>n\<close> changes of the list of servers: each opens new sockets before the old one is closed.\<close>

definition change_effects :: "nat \<Rightarrow> sync_event list" where
  "change_effects n = concat (map (\<lambda>k. list_effects (Suc k) @ [CloseCdbSock (SubSock k)]) [0..<n])"

lemma change_effects_Suc: "change_effects (Suc n) = change_effects n @ list_effects (Suc n) @ [CloseCdbSock (SubSock n)]"
  by (simp add: change_effects_def)

lemma subscribe_servers_quiet:
  assumes "quiet en"
  shows "\<exists>h'. subscribe_servers k ids en h = (h', Ret ()) \<and> filter sock_effect h' = filter sock_effect h"
proof (induction ids arbitrary: h)
  case (Cons i ids)
  obtain h1 where h1: "subscribe_server k i en h = (h1, Ret ())" "filter sock_effect h1 = filter sock_effect h"
    using assms by (simp add: subscribe_server_def io_bind_def quiet_ask quiet_call)
  with Cons [of h1] show ?case by (auto simp: io_bind_def)
qed (simp add: io_ret_def)

lemma server_list_quiet:
  assumes "quiet en"
  shows "\<exists>h' sid. server_list k lock en h = (h', Ret sid) \<and> filter sock_effect h' = filter sock_effect h @ list_effects k"
proof -
  let ?open = "[OpenSock (ReadSock k), OpenSock (OperSock k), OpenSock (SubSock k), StartSession2 (ReadSock k) lock, StartSession (OperSock k)]"
  let ?close = "[CloseCdbSock (ReadSock k), SubscribeDone k]"
  have c: "calls ?open en h' = (h' @ ?open, Ret ())" "calls ?close en h' = (h' @ ?close, Ret ())" for h'
    using quiet_calls [OF assms, of ?open h'] quiet_calls [OF assms, of ?close h'] by (auto simp del: calls.simps)
  let ?h1 = "h @ ?open @ [NumInstances k]"
  obtain h2 where h2: "subscribe_servers k [0..<en_num en ?h1] en ?h1 = (h2, Ret ())" "filter sock_effect h2 = filter sock_effect ?h1"
    using subscribe_servers_quiet [OF assms] by blast
  have "server_list k lock en h = (h2 @ [CloseCdbSock (OperSock k), GetServerPrio k,
      SubscribeServers k (en_num en (h2 @ [CloseCdbSock (OperSock k), GetServerPrio k]))] @ ?close,
      Ret (en_num en (h2 @ [CloseCdbSock (OperSock k), GetServerPrio k,
        SubscribeServers k (en_num en (h2 @ [CloseCdbSock (OperSock k), GetServerPrio k]))])))"
    using h2(1) by (simp add: server_list_def io_bind_def c quiet_ask [OF assms] quiet_call [OF assms] io_ret_def del: calls.simps)
  with h2(2) show ?thesis by (simp add: list_effects_def)
qed

lemma sync_pass_quiet:
  assumes "quiet en"
  shows "(\<exists>e. sync_pass k sid en h = (h @ [ReadSubscription k], Raise e)) \<or>
    (\<exists>h' sid'. sync_pass k sid en h = (h', Ret (k, sid')) \<and> filter sock_effect h' = filter sock_effect h) \<or>
    (\<exists>h' sid'. sync_pass k sid en h = (h', Ret (Suc k, sid')) \<and>
       filter sock_effect h' = filter sock_effect h @ list_effects (Suc k) @ [CloseCdbSock (SubSock k)])"
proof (cases "en_fail en (h @ [ReadSubscription k])")
  case (Some e)
  then show ?thesis by (simp add: sync_pass_def io_bind_def ask_def)
next
  case None
  let ?h = "h @ [ReadSubscription k]"
  let ?t = "en_num en ?h"
  have read: "ask en_num (ReadSubscription k) en h = (?h, Ret ?t)" using None by (simp add: ask_def)
  let ?done = "[SyncDone k, CloseCdbSock (SubSock k)]"
  have c: "calls ?done en h' = (h' @ ?done, Ret ())" for h'
    using quiet_calls [OF assms, of ?done h'] by (auto simp del: calls.simps)
  obtain h3 sid3 where l: "server_list (Suc k) False en (?h @ [FirstSid k]) = (h3, Ret sid3)"
    "filter sock_effect h3 = filter sock_effect (?h @ [FirstSid k]) @ list_effects (Suc k)"
    using server_list_quiet [OF assms] by blast
  show ?thesis
  proof (cases "?t = 2 \<and> en_num en (?h @ [FirstSid k]) = sid")
    case True
    then have "sync_pass k sid en h = (h3 @ ?done, Ret (Suc k, sid3))"
      using l(1) by (simp add: sync_pass_def io_bind_def read io_when_def quiet_ask [OF assms] c io_ret_def del: calls.simps)
    with l(2) show ?thesis by simp
  next
    case False
    then have "\<exists>h' sid'. sync_pass k sid en h = (h', Ret (k, sid')) \<and> filter sock_effect h' = filter sock_effect h"
      by (cases "?t = 0"; cases "?t = 1"; cases "?t = 2")
         (auto simp: sync_pass_def io_bind_def read io_when_def quiet_ask [OF assms] quiet_call [OF assms] io_ret_def)
    then show ?thesis by blast
  qed
qed

lemma sync_loop_quiet:
  assumes "quiet en" and "sync_loop fuel k sid en h = (h', Ret (n, e))" and "filter sock_effect h = L @ change_effects k"
  shows "filter sock_effect h' = L @ change_effects n"
  using assms(2,3)
proof (induction fuel arbitrary: k sid h)
  case (Suc fuel)
  from sync_pass_quiet [OF assms(1), of k sid h] show ?case
  proof (elim disjE exE conjE)
    fix e'
    assume "sync_pass k sid en h = (h @ [ReadSubscription k], Raise e')"
    with Suc.prems show ?thesis by (auto simp: io_bind_def io_attempt_def io_ret_def)
  next
    fix h1 sid'
    assume p: "sync_pass k sid en h = (h1, Ret (k, sid'))" "filter sock_effect h1 = filter sock_effect h"
    with Suc.prems(1) have "sync_loop fuel k sid' en h1 = (h', Ret (n, e))" by (simp add: io_bind_def io_attempt_def)
    from Suc.IH [OF this] p(2) Suc.prems(2) show ?thesis by simp
  next
    fix h1 sid'
    assume p: "sync_pass k sid en h = (h1, Ret (Suc k, sid'))"
      "filter sock_effect h1 = filter sock_effect h @ list_effects (Suc k) @ [CloseCdbSock (SubSock k)]"
    with Suc.prems(1) have "sync_loop fuel (Suc k) sid' en h1 = (h', Ret (n, e))" by (simp add: io_bind_def io_attempt_def)
    from Suc.IH [OF this] p(2) Suc.prems(2) show ?thesis by (simp add: change_effects_Suc)
  qed
qed (simp add: io_running_def)

lemma sync_loop_no_raise: "sync_loop fuel k sid en h \<noteq> (h', Raise e)"
proof (induction fuel arbitrary: k sid h)
  case (Suc fuel)
  show ?case
    using Suc by (cases "sync_pass k sid en h" rule: prod.exhaust; cases "snd (sync_pass k sid en h)")
      (auto simp: io_bind_def io_attempt_def io_ret_def split: prod.splits)
qed (simp add: io_running_def)

text \<open>In these effects every socket that is opened is closed.\<close>

lemma change_effects_paired:
  "OpenSock s \<in> set (list_effects 0 @ change_effects n @ [CloseCdbSock (SubSock n), FinishSyncDaemon]) \<longleftrightarrow>
   CloseCdbSock s \<in> set (list_effects 0 @ change_effects n @ [CloseCdbSock (SubSock n), FinishSyncDaemon])"
proof (induction n)
  case 0
  show ?case by (auto simp: list_effects_def change_effects_def)
next
  case (Suc n)
  then show ?case by (auto simp: change_effects_Suc list_effects_def)
qed

section \<open>Correctness\<close>


text \<open>An environment in which the list changes once and the user interrupts the program then.\<close>

definition one_change :: "sync_event env" where
  "one_change = \<lparr>en_fail = (\<lambda>h. if last h = ReadSubscription 1 then Some KeyboardInterrupt else None), en_bool = (\<lambda>_. True),
     en_num = (\<lambda>h. 2), en_str = (\<lambda>_. ''/p'')\<rparr>"

lemma one_change_returns: "snd (sync_run 5 one_change []) = Ret ()"
  by code_simp


text \<open>
  The sockets of the modifications subscriber: when it returns, it has closed the socket of the subscription, once; the socket for the schemas
  is never closed.
\<close>

fun is_close :: "modif_event \<Rightarrow> bool" where
  "is_close (CloseModifSock _) = True"
| "is_close _ = False"

lemma modif_loop_silent: "silent en is_close (modif_loop fuel spoint) h"
proof (induction fuel arbitrary: h)
  case (Suc fuel)
  have "silent en is_close (io_except (call (ProcessSubscriptions spoint)) ConfdErrExternal (io_ret ())) h1" for h1
    by (auto simp: emits_def io_except_def call_def ask_def io_ret_def split: option.splits)
  then show ?case using Suc by (auto intro!: silent_intros silent_when)
qed (simp add: emits_running)

lemma attempt_silent: "silent en vis m h \<Longrightarrow> silent en vis (io_attempt m) h"
  by (auto simp: emits_def io_attempt_def split: prod.splits outcome.splits)

lemma modif_run_emits: "emits en is_close (modif_run fuel) h [CloseModifSock True]"
proof -
  have fin: "emits en is_close (io_then (call (CloseModifSock True))
      (case r of Inl e \<Rightarrow> if e = KeyboardInterrupt then io_ret () else io_raise e | Inr _ \<Rightarrow> io_ret ())) h1 ([CloseModifSock True] @ [])" for r h1
    by (rule emits_bind [OF emits_one]) (auto simp: emits_ret emits_raise split: sum.splits)
  have last: "emits en is_close (io_bind (io_attempt (modif_loop fuel spoint)) (\<lambda>r.
     io_then (io_when (r = Inl KeyboardInterrupt) (call PrintModifCtrlC)) (io_then (call (CloseModifSock True))
      (case r of Inl e \<Rightarrow> if e = KeyboardInterrupt then io_ret () else io_raise e | Inr _ \<Rightarrow> io_ret ())))) h1 [CloseModifSock True]" for spoint h1
    by (rule emits_silent_bind [OF attempt_silent [OF modif_loop_silent]], rule emits_silent_bind [OF silent_when])
       (use fin in \<open>auto intro: silent_call\<close>)
  show ?thesis
    unfolding modif_run_def
    by (rule emits_silent_bind, rule silent_calls, simp, rule emits_silent_bind, rule silent_ask, simp,
        rule emits_silent_bind, rule silent_call, simp, rule last)
qed

theorem modif_run_closes:
  assumes "modif_run fuel en [] = (h, r)"
  shows "CloseModifSock False \<notin> set h \<and> (r = Ret () \<longrightarrow> filter is_close h = [CloseModifSock True])"
proof -
  from emitsD [OF modif_run_emits assms] have p: "prefix (filter is_close h) [CloseModifSock True]"
    and r: "r = Ret () \<longrightarrow> filter is_close h = [CloseModifSock True]" by auto
  have "set (filter is_close h) \<subseteq> {CloseModifSock True}" using set_mono_prefix [OF p] by simp
  then have "CloseModifSock False \<notin> set (filter is_close h)" by blast
  with r show ?thesis by simp
qed

definition modif_interrupted :: "modif_event env" where
  "modif_interrupted = \<lparr>en_fail = (\<lambda>h. if length h > 12 \<and> last h = Select then Some KeyboardInterrupt else None), en_bool = (\<lambda>_. True),
     en_num = (\<lambda>h. 2), en_str = (\<lambda>_. [])\<rparr>"

lemma modif_run_closes_witness:
  "filter is_close (fst (modif_run 9 modif_interrupted [])) = [CloseModifSock True]"
proof -
  have "snd (modif_run 9 modif_interrupted []) = Ret ()" by code_simp
  with modif_run_closes [OF prod.collapse [symmetric], of 9 modif_interrupted] show ?thesis by simp
qed

end
