(* ===== verification/Py_Argparse.thy ===== *)
theory Py_Argparse
  imports Py_Optparse
begin

text \<open>
  The part of Python's \<open>argparse\<close> (as of Python 3.11) that the command lines of the programs go through: options with their strings and actions,
  exact and abbreviated option strings, explicit values, clusters of short options, negative numbers, the end
  marker \<open>--\<close>, required options, one positional argument (required, optional, or a command with a parser of its own), and conversions
  to numbers. Every error, unrecognized argument and help option ends the program: it is the exception \<open>SystemExit\<close>. Parsers change nothing outside the
  namespace, so an unrecognized argument may end the loop at once, where the library goes on to the end first.

  The lemmas read a command line that is made of single settings and a positional argument: the parser performs exactly these.
\<close>

section \<open>Parsers\<close>

datatype 'v arg_action =
    ArgStore "string \<Rightarrow> 'v \<Rightarrow> 'v result"
  | ArgConst "'v \<Rightarrow> 'v"
  | ArgExit

record 'v arg_option =
  ar_strings :: "string list"
  ar_required :: bool
  ar_action :: "'v arg_action"

datatype 'v positional =
    PosOne "string \<Rightarrow> 'v \<Rightarrow> 'v result"
  | PosOptional "string \<Rightarrow> 'v \<Rightarrow> 'v result"
  | PosCommand "string \<Rightarrow> string list \<Rightarrow> 'v \<Rightarrow> 'v result"

record 'v arg_parser =
  ap_options :: "'v arg_option list"
  ap_positional :: "'v positional option"

definition opt_arg :: "string list \<Rightarrow> 'v arg_action \<Rightarrow> 'v arg_option" where
  "opt_arg ss a = \<lparr>ar_strings = ss, ar_required = False, ar_action = a\<rparr>"

definition req_arg :: "string list \<Rightarrow> 'v arg_action \<Rightarrow> 'v arg_option" where
  "req_arg ss a = \<lparr>ar_strings = ss, ar_required = True, ar_action = a\<rparr>"

text \<open>A parser has the help option before its own options.\<close>

definition argument_parser :: "'v arg_option list \<Rightarrow> 'v positional option \<Rightarrow> 'v arg_parser" where
  "argument_parser os p = \<lparr>ap_options = opt_arg [''-h'', ''--help''] ArgExit # os, ap_positional = p\<rparr>"

definition option_actions :: "'v arg_parser \<Rightarrow> (string \<times> 'v arg_option) list" where
  "option_actions p = concat (map (\<lambda>ao. map (\<lambda>s. (s, ao)) (ar_strings ao)) (ap_options p))"

section \<open>Conversions\<close>

text \<open>The types of values: text, one of several choices, \<open>int\<close> and \<open>float\<close>. (Floats are only tested: the programs only wait for their time.)\<close>

definition as_text :: "(string \<Rightarrow> 'v \<Rightarrow> 'v) \<Rightarrow> string \<Rightarrow> 'v \<Rightarrow> 'v result" where
  "as_text f s v = Inr (f s v)"

definition as_choice :: "string list \<Rightarrow> (string \<Rightarrow> 'v \<Rightarrow> 'v) \<Rightarrow> string \<Rightarrow> 'v \<Rightarrow> 'v result" where
  "as_choice cs f s v = (if s \<in> set cs then Inr (f s v) else Inl SystemExit)"

definition as_int :: "(int \<Rightarrow> 'v \<Rightarrow> 'v) \<Rightarrow> string \<Rightarrow> 'v \<Rightarrow> 'v result" where
  "as_int f s v = (case int_radix 10 s of Some i \<Rightarrow> Inr (f i v) | None \<Rightarrow> Inl SystemExit)"

fun underscores_ok :: "bool \<Rightarrow> string \<Rightarrow> bool" where
  "underscores_ok after_digit [] = True"
| "underscores_ok after_digit (c # s) =
     (if c = CHR ''_'' then after_digit \<and> s \<noteq> [] \<and> is_digit (hd s) \<and> underscores_ok False s else underscores_ok (is_digit c) s)"

definition drop_sign :: "string \<Rightarrow> string" where
  "drop_sign s = (if take 1 s \<in> {''-'', ''+''} then drop 1 s else s)"

definition exponent_ok :: "string \<Rightarrow> bool" where
  "exponent_ok s \<longleftrightarrow> s = [] \<or>
     take 1 s \<in> {''e'', ''E''} \<and> drop_sign (drop 1 s) \<noteq> [] \<and> list_all is_digit (drop_sign (drop 1 s))"

definition decimal_ok :: "string \<Rightarrow> bool" where
  "decimal_ok s =
     (let a = takeWhile is_digit s; r = dropWhile is_digit s;
          b = (if take 1 r = ''.'' then takeWhile is_digit (drop 1 r) else []);
          r' = (if take 1 r = ''.'' then dropWhile is_digit (drop 1 r) else r)
      in (a \<noteq> [] \<or> b \<noteq> []) \<and> exponent_ok r')"

definition lower :: "string \<Rightarrow> string" where
  "lower = map (\<lambda>c. if 65 \<le> (of_char c :: nat) \<and> (of_char c :: nat) \<le> 90 then char_of ((of_char c :: nat) + 32) else c)"

definition float_ok :: "string \<Rightarrow> bool" where
  "float_ok s =
     (let t = py_strip s; u = drop_sign (filter (\<lambda>c. c \<noteq> CHR ''_'') t)
      in underscores_ok False t \<and> (lower u \<in> {''inf'', ''infinity'', ''nan''} \<or> decimal_ok u))"

definition as_float :: "string \<Rightarrow> 'v \<Rightarrow> 'v result" where
  "as_float s v = (if float_ok s then Inr v else Inl SystemExit)"

section \<open>Options among the arguments\<close>

text \<open>
  What an argument is: an argument, the end marker, or an option with the string of it that was meant and, possibly, an explicit value behind a
  separator, which is empty for a value that is attached to a short option. An option that the parser does not know may belong to a command.
\<close>

datatype 'v arg_tag = TagArg | TagEnd | TagOpt "'v arg_option" string "(string \<times> string) option" | TagUnknown

definition partition_eq :: "string \<Rightarrow> string \<times> (string \<times> string) option" where
  "partition_eq s =
     (takeWhile (\<lambda>c. c \<noteq> CHR ''='') s,
      case dropWhile (\<lambda>c. c \<noteq> CHR ''='') s of [] \<Rightarrow> None | _ # v \<Rightarrow> Some (''='', v))"

definition option_tuples :: "'v arg_parser \<Rightarrow> string \<Rightarrow> ('v arg_option \<times> string \<times> (string \<times> string) option) list" where
  "option_tuples p s =
     (if take 2 s = ''--'' then
        (let (pre, explicit) = partition_eq s
         in map (\<lambda>(n, ao). (ao, n, explicit)) (filter (\<lambda>(n, ao). startswith n pre) (option_actions p)))
      else
        concat (map (\<lambda>(n, ao).
          if n = take 2 s then [(ao, n, Some ([], drop 2 s))] else if startswith n s then [(ao, n, None)] else []) (option_actions p)))"

text \<open>The regular expression of negative numbers; its end matches before a last line feed, too.\<close>

definition negative_number :: "string \<Rightarrow> bool" where
  "negative_number s \<longleftrightarrow> take 1 s = ''-'' \<and>
     (let t = drop 1 s; u = (if t \<noteq> [] \<and> last t = CHR ''\<newline>'' then butlast t else t)
      in case dropWhile is_digit u of [] \<Rightarrow> u \<noteq> [] | c # r \<Rightarrow> c = CHR ''.'' \<and> r \<noteq> [] \<and> list_all is_digit r)"

definition parse_optional :: "'v arg_parser \<Rightarrow> string \<Rightarrow> 'v arg_tag result" where
  "parse_optional p s =
     (if take 1 s \<noteq> ''-'' then Inr TagArg
      else case map_of (option_actions p) s of
        Some ao \<Rightarrow> Inr (TagOpt ao s None)
      | None \<Rightarrow>
          if length s = 1 then Inr TagArg
          else
            (let (pre, explicit) = partition_eq s
             in case (if explicit = None then None else map_of (option_actions p) pre) of
                  Some ao \<Rightarrow> Inr (TagOpt ao pre explicit)
                | None \<Rightarrow>
                    (case option_tuples p s of
                       [(ao, n, e)] \<Rightarrow> Inr (TagOpt ao n e)
                     | [] \<Rightarrow>
                         if negative_number s \<and> \<not> list_ex (\<lambda>(n, ao). negative_number n) (option_actions p) then Inr TagArg
                         else if CHR '' '' \<in> set s then Inr TagArg
                         else Inr TagUnknown
                     | _ \<Rightarrow> Inl SystemExit)))"

fun tag_args :: "'v arg_parser \<Rightarrow> string list \<Rightarrow> ('v arg_tag \<times> string) list result" where
  "tag_args p [] = Inr []"
| "tag_args p (s # ss) =
     (if s = ''--'' then Inr ((TagEnd, s) # map (\<lambda>x. (TagArg, x)) ss)
      else rbind (parse_optional p s) (\<lambda>t. rbind (tag_args p ss) (\<lambda>ts. Inr ((t, s) # ts))))"

declare tag_args.simps(2) [simp del]

section \<open>The loop\<close>

text \<open>The namespace, and the options that were seen.\<close>

type_synonym 'v arg_state = "'v \<times> string list list"

definition next_explicit :: "string \<Rightarrow> (string \<times> string) option" where
  "next_explicit s = (case s of [] \<Rightarrow> None | c # t \<Rightarrow> Some (if c = CHR ''='' then (''='', t) else ([], s)))"

definition explicit_size :: "(string \<times> string) option \<Rightarrow> nat" where
  "explicit_size e = (case e of None \<Rightarrow> 0 | Some (sep, a) \<Rightarrow> Suc (length a))"

lemma next_explicit_size: "a \<noteq> [] \<Longrightarrow> explicit_size (next_explicit (tl a)) < Suc (length a)"
  by (cases a) (auto simp: next_explicit_def explicit_size_def split: list.splits)

text \<open>
  \<open>consume_optional\<close>: a flag with a value attached to its character begins a cluster of short options; the last of them may take the rest of the
  cluster, or the next argument, as its value.
\<close>

function consume_optional ::
  "'v arg_parser \<Rightarrow> 'v arg_option \<Rightarrow> string \<Rightarrow> (string \<times> string) option \<Rightarrow> ('v arg_tag \<times> string) list \<Rightarrow> 'v arg_state \<Rightarrow>
     ('v arg_state \<times> ('v arg_tag \<times> string) list) result" where
  "consume_optional p ao n explicit rest (v, seen) =
     (case ar_action ao of
        ArgExit \<Rightarrow> Inl SystemExit
      | ArgStore f \<Rightarrow>
          (case explicit of
             Some (sep, a) \<Rightarrow> rbind (f a v) (\<lambda>v'. Inr ((v', ar_strings ao # seen), rest))
           | None \<Rightarrow>
               (case rest of
                  (TagArg, a) # rest' \<Rightarrow> rbind (f a v) (\<lambda>v'. Inr ((v', ar_strings ao # seen), rest'))
                | _ \<Rightarrow> Inl SystemExit))
      | ArgConst f \<Rightarrow>
          (case explicit of
             None \<Rightarrow> Inr ((f v, ar_strings ao # seen), rest)
           | Some (sep, a) \<Rightarrow>
               if take 2 n \<noteq> ''--'' \<and> a \<noteq> [] \<and> sep = [] \<and> hd a \<noteq> CHR ''-'' then
                 (case map_of (option_actions p) [CHR ''-'', hd a] of
                    None \<Rightarrow> Inl SystemExit
                  | Some ao' \<Rightarrow>
                      consume_optional p ao' [CHR ''-'', hd a] (next_explicit (tl a)) rest (f v, ar_strings ao # seen))
               else Inl SystemExit))"
  by pat_completeness auto
termination
  by (relation "measure (\<lambda>(p, ao, n, e, rest, st). explicit_size e)") (auto simp: next_explicit_size explicit_size_def [of "Some _"])

declare consume_optional.simps [simp del]

fun is_end :: "'v arg_tag \<times> string \<Rightarrow> bool" where
  "is_end (TagEnd, s) = True"
| "is_end _ = False"

definition skip_end :: "('v arg_tag \<times> string) list \<Rightarrow> ('v arg_tag \<times> string) list" where
  "skip_end = dropWhile is_end"

text \<open>
  \<open>consume_positionals\<close>: the end marker around an argument is dropped, except before a command, where it is taken as the name of the command. A
  command takes everything that is left.
\<close>

fun consume_positional ::
  "'v positional option \<Rightarrow> ('v arg_tag \<times> string) list \<Rightarrow> 'v arg_state \<Rightarrow>
     ('v positional option \<times> ('v arg_tag \<times> string) list \<times> 'v arg_state) result" where
  "consume_positional None items st = Inr (None, items, st)"
| "consume_positional (Some (PosOne f)) items (v, seen) =
     (case skip_end items of
        (TagArg, a) # rest \<Rightarrow> rbind (f a v) (\<lambda>v'. Inr (None, skip_end rest, (v', seen)))
      | _ \<Rightarrow> Inr (Some (PosOne f), items, (v, seen)))"
| "consume_positional (Some (PosOptional f)) items (v, seen) =
     (case skip_end items of
        (TagArg, a) # rest \<Rightarrow> rbind (f a v) (\<lambda>v'. Inr (None, skip_end rest, (v', seen)))
      | rest \<Rightarrow> Inr (None, rest, (v, seen)))"
| "consume_positional (Some (PosCommand f)) items (v, seen) =
     (case items of
        (TagArg, a) # rest \<Rightarrow> rbind (f a (map snd rest) v) (\<lambda>v'. Inr (None, [], (v', seen)))
      | _ \<Rightarrow>
          (case skip_end items of
             (TagArg, a) # rest \<Rightarrow> Inl SystemExit
           | _ \<Rightarrow> Inr (Some (PosCommand f), items, (v, seen))))"

fun is_option :: "'v arg_tag \<times> string \<Rightarrow> bool" where
  "is_option (TagOpt ao n e, s) = True"
| "is_option (TagUnknown, s) = True"
| "is_option _ = False"

fun is_needed :: "'v positional option \<Rightarrow> bool" where
  "is_needed (Some (PosOne f)) = True"
| "is_needed _ = False"

definition finish_args ::
  "'v arg_parser \<Rightarrow> 'v positional option \<times> ('v arg_tag \<times> string) list \<times> 'v arg_state \<Rightarrow> 'v result" where
  "finish_args p = (\<lambda>(pos, items, v, seen).
     if items = [] \<and> \<not> is_needed pos \<and> list_all (\<lambda>ao. ar_required ao \<longrightarrow> ar_strings ao \<in> set seen) (ap_options p)
     then Inr v else Inl SystemExit)"

lemma skip_end_length: "length (skip_end items) \<le> length items"
  by (simp add: skip_end_def length_dropWhile_le)

lemma consume_optional_length:
  "consume_optional p ao n e rest st = Inr (st', rest') \<Longrightarrow> length rest' \<le> length rest"
proof (induction p ao n e rest st rule: consume_optional.induct)
  case (1 p ao n e rest v seen)
  from 1(2) show ?case
    by (subst (asm) consume_optional.simps)
      (auto simp: rbind_eq_Inr_iff split: arg_action.splits option.splits if_splits list.splits arg_tag.splits dest: 1(1) [rotated -1])
qed

function parse_loop ::
  "'v arg_parser \<Rightarrow> 'v positional option \<Rightarrow> ('v arg_tag \<times> string) list \<Rightarrow> 'v arg_state \<Rightarrow> 'v result" where
  "parse_loop p pos items st =
     (if list_ex is_option items then
        (case items of
           (TagOpt ao n e, s) # rest \<Rightarrow> rbind (consume_optional p ao n e rest st) (\<lambda>(st', rest'). parse_loop p pos rest' st')
         | (TagUnknown, s) # rest \<Rightarrow> Inl SystemExit
         | _ \<Rightarrow> rbind (consume_positional pos items st) (\<lambda>(pos', items', st').
                 if length items' < length items then parse_loop p pos' items' st' else Inl SystemExit))
      else rbind (consume_positional pos items st) (finish_args p))"
  by pat_completeness auto
termination
  by (relation "measure (\<lambda>(p, pos, items, st). length items)") (auto simp: less_Suc_eq_le dest: consume_optional_length)

declare parse_loop.simps [simp del]

definition argparse :: "'v arg_parser \<Rightarrow> 'v \<Rightarrow> string list \<Rightarrow> 'v result" where
  "argparse p defaults args = rbind (tag_args p args) (\<lambda>items. parse_loop p (ap_positional p) items (defaults, []))"

section \<open>Command lines made of settings\<close>

text \<open>
  The settings are those of \<open>Py_Optparse\<close>. A setting is valid if its option is known and takes a value or not as the setting has one; a
  value of its own must not look like an option.
\<close>

fun item_name :: "opt_item \<Rightarrow> string" where
  "item_name (LongValue n v) = n"
| "item_name (LongSeparate n v) = n"
| "item_name (LongFlag n) = n"
| "item_name (ShortAttached c v) = [CHR ''-'', c]"
| "item_name (ShortSeparate c v) = [CHR ''-'', c]"
| "item_name (ShortFlag c) = [CHR ''-'', c]"

fun item_value :: "opt_item \<Rightarrow> string option" where
  "item_value (LongFlag n) = None"
| "item_value (ShortFlag c) = None"
| "item_value (LongValue n v) = Some v"
| "item_value (LongSeparate n v) = Some v"
| "item_value (ShortAttached c v) = Some v"
| "item_value (ShortSeparate c v) = Some v"

definition plain_strings :: "'v arg_parser \<Rightarrow> bool" where
  "plain_strings p \<longleftrightarrow> distinct (map fst (option_actions p)) \<and> list_all (\<lambda>(n, ao). take 1 n = ''-'' \<and> CHR ''='' \<notin> set n \<and> n \<noteq> ''--'' \<and> length n > 1 \<and>
     (take 2 n = ''--'' \<or> length n = 2)) (option_actions p)"

definition is_word :: "'v arg_parser \<Rightarrow> string \<Rightarrow> bool" where
  "is_word p s \<longleftrightarrow> s \<noteq> ''--'' \<and> parse_optional p s = Inr TagArg"

definition item_option :: "'v arg_parser \<Rightarrow> opt_item \<Rightarrow> 'v arg_option option" where
  "item_option p it = map_of (option_actions p) (item_name it)"

fun form_ok :: "'v arg_parser \<Rightarrow> opt_item \<Rightarrow> bool" where
  "form_ok p (LongSeparate n v) = is_word p v"
| "form_ok p (ShortSeparate c v) = is_word p v"
| "form_ok p (ShortAttached c v) = (v \<noteq> [] \<and> hd v \<noteq> CHR ''='')"
| "form_ok p _ = True"

definition action_ok :: "'v arg_action \<Rightarrow> string option \<Rightarrow> bool" where
  "action_ok a x = (case (a, x) of (ArgStore f, Some s) \<Rightarrow> True | (ArgConst f, None) \<Rightarrow> True | _ \<Rightarrow> False)"

definition item_valid :: "'v arg_parser \<Rightarrow> opt_item \<Rightarrow> bool" where
  "item_valid p it \<longleftrightarrow> form_ok p it \<and> (case item_option p it of None \<Rightarrow> False | Some ao \<Rightarrow> action_ok (ar_action ao) (item_value it))"

definition action_run :: "'v arg_action \<Rightarrow> string option \<Rightarrow> 'v \<Rightarrow> 'v result" where
  "action_run a x v = (case (a, x) of (ArgStore f, Some s) \<Rightarrow> f s v | (ArgConst f, None) \<Rightarrow> Inr (f v) | _ \<Rightarrow> Inl SystemExit)"

definition item_run :: "'v arg_parser \<Rightarrow> opt_item \<Rightarrow> 'v \<Rightarrow> 'v result" where
  "item_run p it v = (case item_option p it of None \<Rightarrow> Inl SystemExit | Some ao \<Rightarrow> action_run (ar_action ao) (item_value it) v)"

fun items_run :: "'v arg_parser \<Rightarrow> opt_item list \<Rightarrow> 'v \<Rightarrow> 'v result" where
  "items_run p [] v = Inr v"
| "items_run p (it # its) v = rbind (item_run p it v) (items_run p its)"

definition items_args :: "opt_item list \<Rightarrow> string list" where
  "items_args its = concat (map item_args its)"

definition items_seen :: "'v arg_parser \<Rightarrow> opt_item list \<Rightarrow> string list list" where
  "items_seen p its = map (\<lambda>it. ar_strings (the (item_option p it))) its"

definition required_given :: "'v arg_parser \<Rightarrow> opt_item list \<Rightarrow> bool" where
  "required_given p its \<longleftrightarrow> list_all (\<lambda>ao. ar_required ao \<longrightarrow> ar_strings ao \<in> set (items_seen p its)) (ap_options p)"

lemma required_given_iff:
  "required_given p its \<longleftrightarrow> set (map ar_strings (filter ar_required (ap_options p))) \<subseteq> set (items_seen p its)"
  by (auto simp: required_given_def list_all_iff)

lemma items_args_simps [simp]: "items_args [] = []" "items_args (it # its) = item_args it @ items_args its"
  by (simp_all add: items_args_def)

lemma items_run_Nil [simp]: "items_run p [] = Inr"
  by (rule ext) simp

lemma items_run_append: "items_run p (its @ jts) v = rbind (items_run p its v) (items_run p jts)"
  by (induction its arbitrary: v) (auto simp: rbind_def split: sum.splits)

text \<open>How the arguments of a setting are tagged.\<close>

fun item_tags :: "'v arg_parser \<Rightarrow> opt_item \<Rightarrow> ('v arg_tag \<times> string) list" where
  "item_tags p (LongValue n v) = [(TagOpt (the (item_option p (LongValue n v))) n (Some (''='', v)), n @ ''='' @ v)]"
| "item_tags p (LongSeparate n v) = [(TagOpt (the (item_option p (LongSeparate n v))) n None, n), (TagArg, v)]"
| "item_tags p (LongFlag n) = [(TagOpt (the (item_option p (LongFlag n))) n None, n)]"
| "item_tags p (ShortAttached c v) =
     [(TagOpt (the (item_option p (ShortAttached c v))) [CHR ''-'', c] (Some ([], v)), CHR ''-'' # c # v)]"
| "item_tags p (ShortSeparate c v) =
     [(TagOpt (the (item_option p (ShortSeparate c v))) [CHR ''-'', c] None, [CHR ''-'', c]), (TagArg, v)]"
| "item_tags p (ShortFlag c) = [(TagOpt (the (item_option p (ShortFlag c))) [CHR ''-'', c] None, [CHR ''-'', c])]"

definition items_tags :: "'v arg_parser \<Rightarrow> opt_item list \<Rightarrow> ('v arg_tag \<times> string) list" where
  "items_tags p its = concat (map (item_tags p) its)"

lemma plain_known:
  assumes "plain_strings p" and "map_of (option_actions p) n = Some ao"
  shows "take 1 n = ''-''" "CHR ''='' \<notin> set n" "n \<noteq> ''--''" "length n > 1" "take 2 n = ''--'' \<or> length n = 2"
  using assms map_of_SomeD [OF assms(2)] by (auto simp: plain_strings_def list_all_iff)

lemma tag_known:
  assumes "plain_strings p" and "map_of (option_actions p) n = Some ao"
  shows "tag_args p (n # ss) = rbind (tag_args p ss) (\<lambda>ts. Inr ((TagOpt ao n None, n) # ts))"
  using plain_known [OF assms] assms(2) by (simp add: parse_optional_def tag_args.simps(2))

lemma tag_word: "is_word p s \<Longrightarrow> tag_args p (s # ss) = rbind (tag_args p ss) (\<lambda>ts. Inr ((TagArg, s) # ts))"
  by (simp add: is_word_def tag_args.simps(2))

lemma partition_eq_append: "CHR ''='' \<notin> set n \<Longrightarrow> partition_eq (n @ ''='' @ v) = (n, Some (''='', v))"
  by (induction n) (auto simp: partition_eq_def)

lemma tag_explicit:
  assumes "plain_strings p" and "map_of (option_actions p) n = Some ao"
  shows "tag_args p ((n @ ''='' @ v) # ss) = rbind (tag_args p ss) (\<lambda>ts. Inr ((TagOpt ao n (Some (''='', v)), n @ ''='' @ v) # ts))"
proof -
  note n = plain_known [OF assms]
  have "map_of (option_actions p) (n @ ''='' @ v) = None"
    using plain_known(2) [OF assms(1), of "n @ ''='' @ v"] by (cases "map_of (option_actions p) (n @ ''='' @ v)") auto
  moreover have "partition_eq (n @ ''='' @ v) = (n, Some (''='', v))"
    using n(2) by (rule partition_eq_append)
  moreover have "take 1 (n @ ''='' @ v) = ''-''" using n(1,4) by (cases n) auto
  moreover have "set (n @ ''='' @ v) \<noteq> set ''--''" by auto
  then have "n @ ''='' @ v \<noteq> ''--''" by metis
  ultimately show ?thesis using assms(2) n(4) by (auto simp: parse_optional_def tag_args.simps(2))
qed

lemma concat_only:
  assumes "distinct (map fst xs)" and "map_of xs k = Some y"
  shows "concat (map (\<lambda>(n, a). if n = k then [f n a] else []) xs) = [f k y]"
  using assms
proof (induction xs)
  case (Cons x xs)
  have "concat (map (\<lambda>(n, a). if n = k then [f n a] else []) xs) = []" if "k \<notin> fst ` set xs" using that by force
  with Cons show ?case by (cases x) (auto split: if_splits)
qed simp

lemma long_unknown:
  assumes "plain_strings p" and "take 2 s \<noteq> ''--''" and "length s \<noteq> 2"
  shows "map_of (option_actions p) s = None"
  using plain_known(5) [OF assms(1), of s] assms(2,3) by (cases "map_of (option_actions p) s") auto

lemma tag_attached:
  assumes p: "plain_strings p" and known: "map_of (option_actions p) [CHR ''-'', c] = Some ao" and v: "v \<noteq> []" "hd v \<noteq> CHR ''=''"
  shows "tag_args p ((CHR ''-'' # c # v) # ss) =
    rbind (tag_args p ss) (\<lambda>ts. Inr ((TagOpt ao [CHR ''-'', c] (Some ([], v)), CHR ''-'' # c # v) # ts))"
proof -
  let ?s = "CHR ''-'' # c # v"
  from plain_known [OF p known] have c: "c \<noteq> CHR ''-''" "c \<noteq> CHR ''=''" by auto
  have none: "map_of (option_actions p) ?s = None" by (rule long_unknown [OF p]) (use c v in \<open>auto simp: Suc_le_eq\<close>)
  obtain x w where w: "v = x # w" using v(1) by (cases v) auto
  have pre: "map_of (option_actions p) (fst (partition_eq ?s)) = None"
    by (rule long_unknown [OF p]) (use c v(2) w in \<open>auto simp: partition_eq_def\<close>)
  have "\<not> startswith n ?s" if "(n, a) \<in> set (option_actions p)" for n a
  proof
    assume st: "startswith n ?s"
    then obtain r where "n = ?s @ r" by (auto simp: startswith_prefix prefix_def)
    with that p c w show False by (auto simp: plain_strings_def list_all_iff)
  qed
  then have "option_tuples p ?s = concat (map (\<lambda>(n, ao). if n = [CHR ''-'', c] then [(ao, n, Some ([], v))] else []) (option_actions p))"
    unfolding option_tuples_def using c by (auto intro!: arg_cong [where f = concat] map_cong)
  also have "\<dots> = [(ao, [CHR ''-'', c], Some ([], v))]"
    using p known by (intro concat_only) (auto simp: plain_strings_def)
  finally show ?thesis
    using none pre v c by (auto simp: parse_optional_def tag_args.simps(2) split: prod.splits)
qed

lemma tag_item:
  assumes "plain_strings p" and "item_valid p it"
  shows "tag_args p (item_args it @ ss) = rbind (tag_args p ss) (\<lambda>ts. Inr (item_tags p it @ ts))"
proof -
  from assms(2) obtain ao where "map_of (option_actions p) (item_name it) = Some ao"
    by (auto simp: item_valid_def item_option_def split: option.splits)
  with assms show ?thesis
    by (cases it) (auto simp: item_valid_def item_option_def tag_known tag_explicit [simplified] tag_attached tag_word rbind_def split: sum.splits)
qed

lemma tag_items:
  assumes "plain_strings p" and "list_all (item_valid p) its"
  shows "tag_args p (items_args its @ ss) = rbind (tag_args p ss) (\<lambda>ts. Inr (items_tags p its @ ts))"
  using assms(2)
  by (induction its) (auto simp: tag_item [OF assms(1)] items_tags_def rbind_def split: sum.splits)

text \<open>What the loop does with a setting, and with a positional argument.\<close>

lemma loop_option:
  "parse_loop p pos ((TagOpt ao n e, s) # rest) st = rbind (consume_optional p ao n e rest st) (\<lambda>(st', rest'). parse_loop p pos rest' st')"
  by (subst parse_loop.simps) simp

lemma loop_item:
  assumes "item_valid p it"
  shows "parse_loop p pos (item_tags p it @ ts) (v, seen) =
    rbind (item_run p it v) (\<lambda>v'. parse_loop p pos ts (v', ar_strings (the (item_option p it)) # seen))"
proof -
  from assms obtain ao where ao: "item_option p it = Some ao" "action_ok (ar_action ao) (item_value it)"
    by (auto simp: item_valid_def split: option.splits)
  have run: "consume_optional p ao n (Some e) rest (v, seen) = rbind (action_run (ar_action ao) (Some (snd e)) v) (\<lambda>v'. Inr ((v', ar_strings ao # seen), rest))"
    if "action_ok (ar_action ao) (Some (snd e))" for n e rest
    using that by (cases e) (auto simp: consume_optional.simps action_ok_def action_run_def split: arg_action.splits)
  have word: "consume_optional p ao n None ((TagArg, x) # rest) (v, seen) = rbind (action_run (ar_action ao) (Some x) v) (\<lambda>v'. Inr ((v', ar_strings ao # seen), rest))"
    if "action_ok (ar_action ao) (Some x)" for n x rest
    using that by (auto simp: consume_optional.simps action_ok_def action_run_def split: arg_action.splits)
  have flag: "consume_optional p ao n None rest (v, seen) = rbind (action_run (ar_action ao) None v) (\<lambda>v'. Inr ((v', ar_strings ao # seen), rest))"
    if "action_ok (ar_action ao) None" for n rest
    using that by (auto simp: consume_optional.simps action_ok_def action_run_def split: arg_action.splits)
  have assoc: "rbind (rbind m (\<lambda>v'. Inr (g v'))) f = rbind m (\<lambda>v'. f (g v'))" for m :: "'a result" and g :: "'a \<Rightarrow> 'b" and f :: "'b \<Rightarrow> 'c result"
    by (cases m) simp_all
  show ?thesis
    using ao by (cases it) (simp_all add: item_option_def loop_option run word flag assoc item_run_def)
qed

lemma loop_items:
  assumes "list_all (item_valid p) its"
  shows "parse_loop p pos (items_tags p its @ ts) (v, seen) =
    rbind (items_run p its v) (\<lambda>v'. parse_loop p pos ts (v', rev (items_seen p its) @ seen))"
  using assms
proof (induction its arbitrary: v seen)
  case (Cons it its)
  then show ?case
    by (cases "item_run p it v") (auto simp: items_tags_def loop_item items_seen_def append_assoc)
qed (simp add: items_tags_def items_seen_def)

lemma items_tags_end: "list_all (item_valid p) its \<Longrightarrow> skip_end (items_tags p its) = items_tags p its"
proof (cases its)
  case (Cons it jts)
  then show ?thesis by (cases it) (simp_all add: items_tags_def skip_end_def)
qed (simp add: items_tags_def skip_end_def)

lemma loop_word:
  assumes "skip_end ts = ts"
  shows "parse_loop p (Some (PosOne f)) ((TagArg, x) # ts) (v, seen) = rbind (f x v) (\<lambda>v'. parse_loop p None ts (v', seen))"
    and "parse_loop p (Some (PosOptional f)) ((TagArg, x) # ts) (v, seen) = rbind (f x v) (\<lambda>v'. parse_loop p None ts (v', seen))"
  using assms
  by (subst parse_loop.simps, cases "f x v",
      auto simp: skip_end_def parse_loop.simps [of p None ts] rbind_def split: sum.splits)+

lemma loop_end:
  "parse_loop p pos [] (v, seen) =
     (if \<not> is_needed pos \<and> list_all (\<lambda>ao. ar_required ao \<longrightarrow> ar_strings ao \<in> set seen) (ap_options p) then Inr v else Inl SystemExit)"
  by (subst parse_loop.simps) (cases "(pos, [] :: ('a arg_tag \<times> string) list, v, seen)" rule: consume_positional.cases; simp add: skip_end_def finish_args_def)

text \<open>A command line of settings is read as these settings; so is one with a positional argument anywhere between them.\<close>

definition checked :: "'v arg_parser \<Rightarrow> opt_item list \<Rightarrow> 'v \<Rightarrow> 'v result" where
  "checked p its v = (if required_given p its then Inr v else Inl SystemExit)"

lemma loop_end_checked:
  "\<not> is_needed pos \<Longrightarrow> set seen = set (items_seen p its) \<Longrightarrow> parse_loop p pos [] (v, seen) = checked p its v"
  by (simp add: loop_end checked_def required_given_def)

theorem argparse_items:
  assumes "plain_strings p" and "list_all (item_valid p) its" and "\<not> is_needed (ap_positional p)"
  shows "argparse p v (items_args its) = rbind (items_run p its v) (checked p its)"
proof -
  have "parse_loop p (ap_positional p) [] (v', rev (items_seen p its)) = checked p its v'" for v'
    by (rule loop_end_checked) (use assms(3) in simp_all)
  then show ?thesis
    using tag_items [OF assms(1,2), of "[]"] loop_items [OF assms(2), of "ap_positional p" "[]" v "[]"]
    by (simp add: argparse_def)
qed

theorem argparse_word:
  assumes p: "plain_strings p" and its: "list_all (item_valid p) (its @ jts)" and w: "is_word p w"
    and pos: "ap_positional p = Some (PosOne f) \<or> ap_positional p = Some (PosOptional f)"
  shows "argparse p v (items_args its @ w # items_args jts) =
    rbind (items_run p its v) (\<lambda>v1. rbind (f w v1) (\<lambda>v2. rbind (items_run p jts v2) (checked p (its @ jts))))"
proof -
  have its': "list_all (item_valid p) its" "list_all (item_valid p) jts" using its by auto
  have "tag_args p (items_args its @ w # items_args jts) = Inr (items_tags p its @ (TagArg, w) # items_tags p jts)"
    using tag_items [OF p its'(1), of "w # items_args jts"] tag_items [OF p its'(2), of "[]"] by (simp add: tag_word [OF w])
  moreover have "parse_loop p None [] (v', rev (items_seen p jts) @ rev (items_seen p its)) = checked p (its @ jts) v'" for v'
    by (rule loop_end_checked) (auto simp: items_seen_def)
  then have "parse_loop p None (items_tags p jts) (v2, rev (items_seen p its)) = rbind (items_run p jts v2) (checked p (its @ jts))" for v2
    using loop_items [OF its'(2), of None "[]" v2 "rev (items_seen p its)"] by simp
  ultimately show ?thesis
    using pos loop_word [OF items_tags_end [OF its'(2)]] by (auto simp: argparse_def loop_items [OF its'(1)])
qed

lemma checked_simps [simp]:
  "required_given p its \<Longrightarrow> checked p its = Inr" "\<not> required_given p its \<Longrightarrow> checked p its = (\<lambda>v. Inl SystemExit)"
  by (auto simp: checked_def)

lemma rbind_Inr [simp]: "rbind m Inr = m"
  by (cases m) simp_all

text \<open>A command: the arguments behind its name are those of its own parser.\<close>

theorem argparse_command:
  assumes "is_word p w" and "ap_positional p = Some (PosCommand f)" and "tag_args p args = Inr ts"
    and "list_all (\<lambda>ao. \<not> ar_required ao) (ap_options p)"
  shows "argparse p v (w # args) = f w args v"
proof -
  have snd: "map snd ts = args"
    using assms(3)
  proof (induction args arbitrary: ts)
    case (Cons s ss)
    then show ?case by (auto simp: tag_args.simps(2) rbind_eq_Inr_iff comp_def split: if_splits)
  qed simp
  have "parse_loop p (Some (PosCommand f)) ((TagArg, w) # ts) (v, []) = f w args v"
    using assms(4) by (subst parse_loop.simps, cases "f w args v") (auto simp: snd loop_end finish_args_def list_all_iff)
  then show ?thesis using assms(2,3) by (simp add: argparse_def tag_word [OF assms(1)])
qed

text \<open>Settings that are given under a condition.\<close>

fun flag_items :: "(bool \<times> opt_item) list \<Rightarrow> opt_item list" where
  "flag_items [] = []"
| "flag_items ((b, it) # xs) = (if b then it # flag_items xs else flag_items xs)"

lemma flag_items_valid: "list_all (\<lambda>(b, it). item_valid p it) xs \<Longrightarrow> list_all (item_valid p) (flag_items xs)"
  by (induction xs rule: flag_items.induct) auto

lemma items_run_flag:
  assumes "item_run p it = (\<lambda>v. Inr (upd (\<lambda>_. True) v))" and "\<And>v. upd (\<lambda>x. x) v = v"
  shows "items_run p (flag_items ((b, it) # xs)) v = items_run p (flag_items xs) (upd (\<lambda>x. x \<or> b) v)"
  using assms by (cases b) simp_all

text \<open>An invariant of the namespace that every action keeps holds after parsing.\<close>

definition keeps :: "('v \<Rightarrow> bool) \<Rightarrow> ('v \<Rightarrow> 'v result) \<Rightarrow> bool" where
  "keeps I f \<longleftrightarrow> (\<forall>v v'. I v \<longrightarrow> f v = Inr v' \<longrightarrow> I v')"

fun action_keeps :: "('v \<Rightarrow> bool) \<Rightarrow> 'v arg_action \<Rightarrow> bool" where
  "action_keeps I (ArgStore f) = (\<forall>s. keeps I (f s))"
| "action_keeps I (ArgConst f) = (\<forall>v. I v \<longrightarrow> I (f v))"
| "action_keeps I ArgExit = True"

fun positional_keeps :: "('v \<Rightarrow> bool) \<Rightarrow> 'v positional option \<Rightarrow> bool" where
  "positional_keeps I None = True"
| "positional_keeps I (Some (PosOne f)) = (\<forall>s. keeps I (f s))"
| "positional_keeps I (Some (PosOptional f)) = (\<forall>s. keeps I (f s))"
| "positional_keeps I (Some (PosCommand f)) = (\<forall>s ss. keeps I (f s ss))"

fun known_tag :: "'v arg_parser \<Rightarrow> 'v arg_tag \<times> string \<Rightarrow> bool" where
  "known_tag p (TagOpt ao n e, s) = (ao \<in> set (ap_options p))"
| "known_tag p _ = True"

lemma keepsD: "keeps I f \<Longrightarrow> I v \<Longrightarrow> f v = Inr v' \<Longrightarrow> I v'"
  by (auto simp: keeps_def)

lemma option_actions_mem: "(n, ao) \<in> set (option_actions p) \<Longrightarrow> ao \<in> set (ap_options p)"
  by (auto simp: option_actions_def)

lemma option_tuples_mem: "(ao, n, e) \<in> set (option_tuples p s) \<Longrightarrow> ao \<in> set (ap_options p)"
  by (auto simp: option_tuples_def option_actions_mem split: if_splits prod.splits)

lemma parse_optional_known: "parse_optional p s = Inr t \<Longrightarrow> known_tag p (t, x)"
  using option_tuples_mem [of _ _ _ p s]
  by (auto simp: parse_optional_def split: if_splits option.splits prod.splits list.splits dest!: map_of_SomeD option_actions_mem)

lemma tag_args_known: "tag_args p ss = Inr ts \<Longrightarrow> list_all (known_tag p) ts"
proof (induction ss arbitrary: ts)
  case (Cons s ss)
  then show ?case
    by (auto simp: tag_args.simps(2) rbind_eq_Inr_iff list_all_iff parse_optional_known split: if_splits)
qed simp

lemma consume_optional_keeps:
  assumes "list_all (\<lambda>ao. action_keeps I (ar_action ao)) (ap_options p)" and "action_keeps I (ar_action ao)" and "I (fst st)"
    and "consume_optional p ao n e rest st = Inr (st', rest')"
  shows "I (fst st') \<and> set rest' \<subseteq> set rest"
  using assms
proof (induction p ao n e rest st rule: consume_optional.induct)
  case (1 p ao n e rest v seen)
  have next_ok: "action_keeps I (ar_action ao')" if "map_of (option_actions p) x = Some ao'" for x ao'
    using that 1(2) option_actions_mem [OF map_of_SomeD] by (auto simp: list_all_iff)
  show ?case
  proof (cases "ar_action ao")
    case (ArgConst f)
    with 1(5) consider "st' = (f v, ar_strings ao # seen)" "rest' = rest"
      | a ao' where "e = Some ([], a)" "take 2 n \<noteq> ''--'' \<and> a \<noteq> [] \<and> ([] :: string) = [] \<and> hd a \<noteq> CHR ''-''" "map_of (option_actions p) [CHR ''-'', hd a] = Some ao'"
        "consume_optional p ao' [CHR ''-'', hd a] (next_explicit (tl a)) rest (f v, ar_strings ao # seen) = Inr (st', rest')"
      by (subst (asm) consume_optional.simps) (auto split: option.splits if_splits)
    then show ?thesis
    proof cases
      case 2
      have "I (fst (f v, ar_strings ao # seen))" using ArgConst 1(3,4) by simp
      from 1(1) [OF ArgConst 2(1) refl 2(2,3) 1(2) next_ok [OF 2(3)] this 2(4)] show ?thesis .
    qed (use ArgConst 1(3,4) in simp)
  qed (use 1(3-5) in \<open>auto simp: consume_optional.simps rbind_eq_Inr_iff keeps_def split: option.splits list.splits arg_tag.splits\<close>)
qed

lemma skip_end_mem: "y \<in> set (skip_end items) \<Longrightarrow> y \<in> set items"
  by (auto simp: skip_end_def dest: set_dropWhileD)

lemma skip_end_rest: "y \<in> set (skip_end rest) \<Longrightarrow> x # rest = skip_end items \<Longrightarrow> y \<in> set items"
  by (metis list.set_intros(2) skip_end_mem)

text \<open>What a positional argument takes: an argument at the head, or behind the end marker.\<close>

lemma consume_positional_cases:
  assumes "consume_positional pos items st = Inr (pos', items', st')"
  obtains "st' = st" "pos' = pos \<or> pos' = None" "items' = items \<or> items' = skip_end items"
  | f x rest where "pos \<in> {Some (PosOne f), Some (PosOptional f)}" "f x (fst st) = Inr (fst st')" "pos' = None"
      "skip_end items = (TagArg, x) # rest" "items' = skip_end rest"
  | f x ws where "pos = Some (PosCommand f)" "f x ws (fst st) = Inr (fst st')" "pos' = None" "items' = []"
  using assms
  by (cases "(pos, items, st)" rule: consume_positional.cases) (auto simp: rbind_eq_Inr_iff split: list.splits arg_tag.splits)

lemma consume_positional_keeps:
  assumes "positional_keeps I pos" and "I (fst st)" and "consume_positional pos items st = Inr (pos', items', st')"
  shows "I (fst st') \<and> positional_keeps I pos' \<and> set items' \<subseteq> set items"
  using assms(3)
proof (cases rule: consume_positional_cases)
  case 1
  then show ?thesis using assms(1,2) skip_end_mem by auto
next
  case (2 f x rest)
  then show ?thesis using assms(1,2) skip_end_rest [OF _ 2(4) [symmetric]] by (auto simp: keeps_def)
next
  case (3 f x ws)
  then show ?thesis using assms(1,2) by (auto simp: keeps_def)
qed

lemma parse_loop_keeps:
  assumes "list_all (\<lambda>ao. action_keeps I (ar_action ao)) (ap_options p)" and "positional_keeps I pos" and "list_all (known_tag p) items"
    and "I (fst st)" and "parse_loop p pos items st = Inr v"
  shows "I v"
  using assms(2-)
proof (induction "length items" arbitrary: pos items st rule: less_induct)
  case less
  show ?case
  proof (cases "\<exists>ao n e s rest. items = (TagOpt ao n e, s) # rest")
    case True
    then obtain ao n e s rest where items: "items = (TagOpt ao n e, s) # rest" by blast
    with less.prems(4) obtain st' rest' where c: "consume_optional p ao n e rest st = Inr (st', rest')" and l: "parse_loop p pos rest' st' = Inr v"
      by (auto simp: loop_option rbind_eq_Inr_iff)
    have "action_keeps I (ar_action ao)" using items less.prems(2) assms(1) by (auto simp: list_all_iff)
    from consume_optional_keeps [OF assms(1) this less.prems(3) c] have "I (fst st')" "list_all (known_tag p) rest'"
      using items less.prems(2) by (auto simp: list_all_iff)
    moreover have "length rest' < length items" using consume_optional_length [OF c] items by simp
    ultimately show ?thesis using less.hyps [OF _ less.prems(1) _ _ l] by blast
  next
    case False
    with less.prems(4) obtain pos' items' st' where c: "consume_positional pos items st = Inr (pos', items', st')"
      and l: "length items' < length items \<and> parse_loop p pos' items' st' = Inr v \<or> finish_args p (pos', items', st') = Inr v"
      by (subst (asm) parse_loop.simps) (auto simp: rbind_eq_Inr_iff split: list.splits arg_tag.splits if_splits)
    from consume_positional_keeps [OF less.prems(1,3) c] have "I (fst st')" "positional_keeps I pos'" "list_all (known_tag p) items'"
      using less.prems(2) by (auto simp: list_all_iff)
    with l less.hyps [of items' pos' st'] show ?thesis by (auto simp: finish_args_def split: prod.splits if_splits)
  qed
qed

theorem argparse_keeps:
  assumes "list_all (\<lambda>ao. action_keeps I (ar_action ao)) (ap_options p)" and "positional_keeps I (ap_positional p)" and "I v"
    and "argparse p v args = Inr v'"
  shows "I v'"
  using assms parse_loop_keeps [OF assms(1,2), of _ "(v, [])"] by (auto simp: argparse_def rbind_eq_Inr_iff dest: tag_args_known)

lemma keeps_simps [simp]:
  "keeps I (as_text f s) \<longleftrightarrow> (\<forall>v. I v \<longrightarrow> I (f s v))" "keeps I (as_choice cs f s) \<longleftrightarrow> (s \<in> set cs \<longrightarrow> (\<forall>v. I v \<longrightarrow> I (f s v)))"
  "keeps I (as_float s)"
  by (auto simp: keeps_def as_text_def as_choice_def as_float_def)

lemma keeps_int: "(\<And>i v. I v \<Longrightarrow> I (f i v)) \<Longrightarrow> keeps I (as_int f s)"
  by (auto simp: keeps_def as_int_def split: option.splits)

text \<open>Simple words, and the decimal notation of integers.\<close>

lemma is_word_plain: "take 1 s \<noteq> ''-'' \<Longrightarrow> is_word p s"
  by (auto simp: is_word_def parse_optional_def)

lemma as_int_int_str [simp]: "as_int f (int_str i) v = Inr (f i v)"
  by (auto simp: as_int_def int_str_def int_radix_nat_str int_radix_neg)

lemma as_text_simp [simp]: "as_text f s v = Inr (f s v)"
  by (simp add: as_text_def)

end
