(* ===== verification/Ned_Test.thy ===== *)
theory Ned_Test
  imports Py_World
begin

text \<open>
  The tool \<open>ned-test/ned-test.py\<close>, which sets up devices in NSO, builds packages from their models and runs tests. Everything it does is a
  call of another program or library, so that it is modelled as a program over an environment (\<open>Py_World\<close>): a constructor of
  \<open>nso_event\<close> for every kind of call, and one definition for every function of the source. A write transaction of NSO is what
  is between its begin and its end; its operations take effect with \<open>Apply\<close>. The two loops that wait for
  NSO have fuel.
\<close>

section \<open>Calls\<close>

datatype trans_kind = ReadTrans | WriteTrans

datatype nso_event =
    Begin trans_kind string string
  | End trans_kind
  | Create string
  | SetElem2 string string
  | Delete string
  | Apply
  | Exists string
  | GetElem string
  | InstallCryptoKeys
  | CsNodeCd string
  | Val2str string
  | Decrypt string
  | AsPyval string
  | ValueDiffers string string
  | RequestAction string string
  | ConnectMaapi
  | CloseMaapi
  | ReloadPackages
  | ReloadResult string
  | RunCmd string "string option"
  | Rmtree string
  | Copytree string string "string list"
  | Copyfile string string
  | PathExists string
  | IsDir string
  | Getcwd
  | Spawn string
  | LogfileRead
  | Sendline string
  | ExpectExact "string list"
  | Expect "string list"
  | MatchGroup nat
  | Print string
  | Sleep nat
  | Fatal string

type_synonym 'a prog = "(nso_event, 'a) io"

definition say :: "string \<Rightarrow> unit prog" where
  "say s = call (Print s)"

abbreviation ok :: "unit prog" where
  "ok \<equiv> say ''ok\<newline>''"

text \<open>\<open>s in res\<close> for texts.\<close>

definition text_in :: "string \<Rightarrow> string \<Rightarrow> bool" where
  "text_in s t \<longleftrightarrow> py_find t s \<noteq> None"

section \<open>MAAPI\<close>

definition nso_read_trans :: "'a prog \<Rightarrow> 'a prog" where
  "nso_read_trans = io_with (Begin ReadTrans ''admin'' ''read-ctx'') (End ReadTrans)"

definition nso_write_trans :: "'a prog \<Rightarrow> 'a prog" where
  "nso_write_trans = io_with (Begin WriteTrans ''admin'' ''write-ctx'') (End WriteTrans)"

definition maapi_exists :: "string \<Rightarrow> bool prog" where
  "maapi_exists xpath = nso_read_trans (ask en_bool (Exists xpath))"

definition device_path :: "string \<Rightarrow> string \<Rightarrow> string" where
  "device_path name rest = ''/devices/device{'' @ name @ ''}'' @ rest"

definition group_path :: "string \<Rightarrow> string \<Rightarrow> string" where
  "group_path name rest = ''/devices/authgroups/group{'' @ name @ ''}'' @ rest"

definition maapi_set_ned_id :: "string \<Rightarrow> string \<Rightarrow> unit prog" where
  "maapi_set_ned_id device_name ned_id =
     nso_write_trans (calls [SetElem2 ned_id (device_path device_name ''/device-type/netconf/ned-id''), Apply])"

definition maapi_set_elem_str :: "string \<Rightarrow> string \<Rightarrow> unit prog" where
  "maapi_set_elem_str xpath str = nso_write_trans (calls [SetElem2 str xpath, Apply])"

definition maapi_run_action :: "string \<Rightarrow> string \<Rightarrow> string prog" where
  "maapi_run_action action args = nso_read_trans (ask en_str (RequestAction args action))"

definition authgroup_calls :: "string \<Rightarrow> string \<Rightarrow> string \<Rightarrow> nso_event list" where
  "authgroup_calls authgroup username password =
     [Create (group_path authgroup ''''), Create (group_path authgroup ''/default-map''),
      SetElem2 username (group_path authgroup ''/default-map/remote-name''),
      SetElem2 password (group_path authgroup ''/default-map/remote-password''), Apply]"

definition create_authgroup :: "string \<Rightarrow> string \<Rightarrow> string \<Rightarrow> unit prog" where
  "create_authgroup authgroup username password =
     nso_write_trans (io_bind (maapi_exists (group_path authgroup '''')) (\<lambda>there.
       io_when (\<not> there) (calls (authgroup_calls authgroup username password))))"

definition device_calls :: "string \<Rightarrow> string \<Rightarrow> string \<Rightarrow> string \<Rightarrow> nso_event list" where
  "device_calls device_name device_ip device_port ned_id =
     [Create (device_path device_name ''''), SetElem2 device_ip (device_path device_name ''/address''),
      SetElem2 device_port (device_path device_name ''/port''),
      SetElem2 ned_id (device_path device_name ''/device-type/netconf/ned-id''),
      SetElem2 device_name (device_path device_name ''/authgroup''),
      SetElem2 ''raw'' (device_path device_name ''/trace''),
      SetElem2 ''300'' (device_path device_name ''/read-timeout''),
      SetElem2 ''300'' (device_path device_name ''/write-timeout''),
      SetElem2 ''false'' (device_path device_name ''/commit-queue/enabled-by-default''),
      SetElem2 ''unlocked'' (device_path device_name ''/state/admin-state''), Apply]"

definition create_device :: "string \<Rightarrow> string \<Rightarrow> string \<Rightarrow> string \<Rightarrow> unit prog" where
  "create_device device_name device_ip device_port ned_id =
     nso_write_trans (calls (device_calls device_name device_ip device_port ned_id))"

definition fetch_host_keys :: "string \<Rightarrow> unit prog" where
  "fetch_host_keys device_name =
     io_then (say ''Fetch host keys...'')
       (io_bind (maapi_run_action (''/ncs:devices/device{'' @ device_name @ ''}/ssh/fetch-host-keys'')
                   (''devices device '' @ device_name @ '' ssh fetch-host-keys'')) (\<lambda>res.
          io_then (io_when (text_in ''result failed'' res) (call (Fatal res))) ok))"

definition sync_from :: "string \<Rightarrow> unit prog" where
  "sync_from device_name =
     io_then (say (''Sync configuration from '' @ device_name @ ''...''))
       (io_bind (maapi_run_action (''/ncs:devices/device{'' @ device_name @ ''}/sync-from'')
                   (''devices device '' @ device_name @ '' sync-from'')) (\<lambda>res.
          io_then (io_when (text_in ''result false'' res) (call (Fatal res))) ok))"

section \<open>Test devices\<close>

record test_device =
  td_dir :: string
  td_device_name :: string
  td_ip_address :: string
  td_ned_id :: string
  td_netconf_port :: string
  td_password :: string
  td_username :: string

record ned_args =
  na_cli_port :: "string option"
  na_dir :: string
  na_device_name :: string
  na_ip_address :: string
  na_ned_id :: string
  na_netconf_port :: string
  na_password :: string
  na_username :: string
  na_debug :: bool
  na_exclude :: string
  na_install :: bool
  na_netsim :: string
  na_ned_name :: string
  na_vendor :: string
  na_version :: string
  na_yang_source :: string
  na_state_name :: string
  na_directory :: "string option"
  na_pattern :: string
  na_strategy :: string

definition TestDevice :: "ned_args \<Rightarrow> test_device" where
  "TestDevice args =
     \<lparr>td_dir = na_dir args, td_device_name = na_device_name args, td_ip_address = na_ip_address args,
      td_ned_id = na_ned_id args, td_netconf_port = na_netconf_port args, td_password = na_password args,
      td_username = na_username args\<rparr>"

lemma TestDevice_sel [simp]:
  "td_dir (TestDevice args) = na_dir args" "td_device_name (TestDevice args) = na_device_name args"
  "td_ip_address (TestDevice args) = na_ip_address args" "td_ned_id (TestDevice args) = na_ned_id args"
  "td_netconf_port (TestDevice args) = na_netconf_port args" "td_password (TestDevice args) = na_password args"
  "td_username (TestDevice args) = na_username args"
  by (simp_all add: TestDevice_def)

definition get_device :: "string \<Rightarrow> test_device prog" where
  "get_device device_name =
     io_bind (ask en_str Getcwd) (\<lambda>cwd.
     nso_read_trans
      (io_bind (ask en_str (GetElem (device_path device_name ''/authgroup''))) (\<lambda>authgroup.
       io_bind (ask en_bool (Exists (device_path device_name ''/drned-xmnr/cli-port''))) (\<lambda>has_port.
       io_bind (if has_port then ask en_bool (Exists (device_path device_name ''/drned-xmnr/driver'')) else io_ret False) (\<lambda>has_driver.
       io_bind
         (if has_port \<and> has_driver then
            io_then (ask en_str (GetElem (device_path device_name ''/drned-xmnr/cli-port'')))
              (io_bind (ask en_str (GetElem (device_path device_name ''/drned-xmnr/driver''))) (\<lambda>path_value.
               io_bind (ask en_str (AsPyval path_value)) (\<lambda>p.
                 io_ret (py_replace (''/states/'' @ device_name @ ''.py'') '''' p))))
          else io_ret cwd) (\<lambda>dir.
       io_bind (ask en_str (GetElem (device_path device_name ''/address''))) (\<lambda>ip_address.
       io_bind (ask en_str (GetElem (device_path device_name ''/device-type/netconf/ned-id''))) (\<lambda>ned_id.
       io_bind (ask en_str (GetElem (device_path device_name ''/port''))) (\<lambda>netconf_port.
       io_bind (ask en_str (GetElem (group_path authgroup ''/default-map/remote-password''))) (\<lambda>encrypted_pw.
       io_then (call InstallCryptoKeys)
      (io_then (call (CsNodeCd (group_path authgroup ''/default-map/remote-password'')))
      (io_bind (ask en_str (Val2str encrypted_pw)) (\<lambda>pw.
       io_bind (ask en_str (Decrypt pw)) (\<lambda>password.
       io_bind (ask en_str (GetElem (group_path authgroup ''/default-map/remote-name''))) (\<lambda>username.
         io_ret \<lparr>td_dir = dir, td_device_name = device_name, td_ip_address = ip_address, td_ned_id = ned_id,
                 td_netconf_port = netconf_port, td_password = password, td_username = username\<rparr>)))))))))))))))"

definition setup_netconf_device :: "test_device \<Rightarrow> unit prog" where
  "setup_netconf_device td =
     io_then (create_authgroup (td_device_name td) (td_username td) (td_password td))
      (io_then (create_device (td_device_name td) (td_ip_address td) (td_netconf_port td) (td_ned_id td))
        (io_then (fetch_host_keys (td_device_name td)) (sync_from (td_device_name td))))"

definition cli_driver :: "test_device \<Rightarrow> string" where
  "cli_driver td = td_dir td @ ''/states/'' @ td_device_name td @ ''.py''"

definition setup_cli_device :: "test_device \<Rightarrow> string \<Rightarrow> unit prog" where
  "setup_cli_device td cli_port =
     io_then (call (Copyfile (td_dir td @ ''/bin/device.template'') (cli_driver td)))
      (io_then (maapi_set_elem_str (device_path (td_device_name td) ''/drned-xmnr/cli-port'') cli_port)
        (maapi_set_elem_str (device_path (td_device_name td) ''/drned-xmnr/driver'') (cli_driver td)))"

definition setup_drned_xmnr :: "test_device \<Rightarrow> unit prog" where
  "setup_drned_xmnr td =
     (let d = td_device_name td
      in io_bind (ask en_bool (PathExists (''/nyat/xmnr/'' @ d @ ''/test/drned-skeleton''))) (\<lambda>there.
         io_when (\<not> there)
           (io_then (say ''Setup drned-xmnr...'')
             (io_bind (maapi_run_action (''/ncs:devices/device{'' @ d @ ''}/drned-xmnr:drned-xmnr/setup/setup-xmnr'')
                         (''devices device '' @ d @ '' drned-xmnr setup setup-xmnr overwrite true'')) (\<lambda>res.
                io_when (text_in ''success'' res) ok)))))"

definition td_record_test :: "test_device \<Rightarrow> string \<Rightarrow> unit prog" where
  "td_record_test td state_name =
     (let d = td_device_name td
      in io_then (say ''Sync configuration...'')
          (io_bind (maapi_run_action (''/ncs:devices/device{'' @ d @ ''}/sync-from'') (''devices device '' @ d @ '' sync-from'')) (\<lambda>res.
           io_then (io_when (text_in ''result true'' res) ok)
          (io_then (say ''Record start state...'')
          (io_bind (maapi_run_action (''/ncs:devices/device{'' @ d @ ''}/drned-xmnr:drned-xmnr/state/record-state'')
                      (''devices device '' @ d @ '' drned-xmnr state record-state state-name '' @ state_name @ '' overwrite true'')) (\<lambda>res2.
           io_when (text_in ''success'' res2) ok))))))"

definition td_import_tests :: "test_device \<Rightarrow> string \<Rightarrow> string \<Rightarrow> unit prog" where
  "td_import_tests td directory pattern =
     (let d = td_device_name td
      in io_then (say (''import tests from '' @ directory @ ''...''))
          (io_bind (maapi_run_action (''/ncs:devices/device{'' @ d @ ''}/drned-xmnr:drned-xmnr/state/import-state-files'')
                      (''devices device '' @ d @ '' drned-xmnr state import-state-files format nso-xml file-path-pattern '' @ directory @
                       ''/'' @ pattern @ '' overwrite true'')) (\<lambda>res.
           say (if text_in ''success'' res then ''ok\<newline>'' else ''fail\<newline>''))))"

definition td_test_ned :: "test_device \<Rightarrow> string \<Rightarrow> unit prog" where
  "td_test_ned td strategy =
     (let pre = ''\<newline>            devices device '' @ td_device_name td @ '' drned-xmnr transitions '';
          run = (\<lambda>s. run_checked (RunCmd ''ncs_cli -C -u admin'' (Some (pre @ s @ ''\<newline>            ''))))
      in if strategy = ''walk'' then run ''walk-states rollback true''
         else if strategy = ''explore'' then run ''explore-transitions''
         else io_raise PyException)"

section \<open>Building a package\<close>

definition build_ned_package :: "string \<Rightarrow> unit prog" where
  "build_ned_package ned_id = run_checked (RunCmd (''make -C /tmp/'' @ ned_id @ ''/src clean all'') None)"

definition ned_id_of :: "string \<Rightarrow> string \<Rightarrow> string" where
  "ned_id_of ned_name version = ned_name @ ''-nc-'' @ version"

definition make_package_cmd :: "string \<Rightarrow> string \<Rightarrow> string \<Rightarrow> string \<Rightarrow> string" where
  "make_package_cmd ned_name netsim vendor version =
     ''ncs-make-package --netconf-ned /tmp/yangs '' @ ned_name @ '' --dest /tmp/'' @ ned_id_of ned_name version @
     '' --no-java'' @ netsim @ '' --no-python --no-test --verbose --vendor '' @ vendor @ '' --package-version '' @ version"

text \<open>The directory that is removed first is below the current one, and not below \<open>/tmp\<close>, where the package is made.\<close>

definition create_ned_package :: "string \<Rightarrow> string \<Rightarrow> string \<Rightarrow> string \<Rightarrow> string prog" where
  "create_ned_package ned_name netsim vendor version =
     (let ned_id = ned_id_of ned_name version
      in io_then (call (Rmtree ned_id))
          (io_then (run_checked (RunCmd (make_package_cmd ned_name netsim vendor version) None)) (io_ret ned_id)))"

definition td_install_ned :: "test_device \<Rightarrow> string \<Rightarrow> string prog" where
  "td_install_ned td ned_id =
     (let package_dir = td_dir td @ ''/packages/'' @ ned_id
      in io_then (calls [Rmtree package_dir, Copytree (''/tmp/'' @ ned_id) package_dir []])
          (io_with ConnectMaapi CloseMaapi
            (io_with (Begin ReadTrans ''admin'' ''python'') (End ReadTrans)
              (io_then (call ReloadPackages) (ask en_str (ReloadResult ned_id))))))"

text \<open>The lines that are sent to the command line of NSO, and the loop that waits for the modules.\<close>

definition project :: "string \<Rightarrow> string \<Rightarrow> string" where
  "project ned_name version = ''netconf-ned-builder project '' @ ned_name @ '' '' @ version"

definition status_line :: "string \<Rightarrow> string \<Rightarrow> string" where
  "status_line ned_name version =
     ''show '' @ project ned_name version @
     '' module * status | notab | nomore | exclude deselected | exclude module | exclude downloaded | count''"

definition count_pattern :: string where "count_pattern = ''Count: ('' @ [CHR 0x5C] @ ''d+) lines''"

fun download_loop :: "nat \<Rightarrow> string \<Rightarrow> string \<Rightarrow> unit prog" where
  "download_loop 0 ned_name version = io_running"
| "download_loop (Suc fuel) ned_name version =
     io_then (calls [Sendline (status_line ned_name version), Expect [count_pattern]])
       (io_bind (ask en_str (MatchGroup 1)) (\<lambda>left.
          if left = ''0'' then io_ret ()
          else io_then (calls [Print (left @ '' modules left...\<newline>''), Sleep 10]) (download_loop fuel ned_name version)))"

definition prompt :: string where "prompt = ''admin@ncs#''"
definition config_prompt :: string where "config_prompt = ''admin@ncs(config)#''"
definition project_prompt :: "string \<Rightarrow> string \<Rightarrow> string" where
  "project_prompt ned_name version = ''admin@ncs(config-project-'' @ ned_name @ ''/'' @ version @ '')#''"

definition project_setup :: "string \<Rightarrow> string \<Rightarrow> string \<Rightarrow> string \<Rightarrow> string \<Rightarrow> nso_event list" where
  "project_setup device_name ned_name username vendor version =
     [Print ''ok\<newline>'', Sendline ''devtools true'', ExpectExact [prompt], Sendline ''config'', ExpectExact [config_prompt],
      Sendline (''no '' @ project ned_name version), ExpectExact [config_prompt], Sendline ''commit'',
      Print ''Create NED Builder project...'',
      Sendline (project ned_name version @ '' device '' @ device_name @ '' local-user '' @ username @ '' vendor '' @ vendor),
      ExpectExact [project_prompt ned_name version], Sendline ''commit'', ExpectExact [project_prompt ned_name version],
      Sendline ''exit'', ExpectExact [config_prompt], Sendline ''exit'', ExpectExact [prompt], Print ''ok\<newline>'',
      Print (''Fetch list of YANG moduels from '' @ device_name @ ''...''),
      Sendline (project ned_name version @ '' fetch-module-list''), ExpectExact [prompt],
      Sendline (''show '' @ project ned_name version @ '' module | nomore'')]"

definition download_yang_modules ::
  "nat \<Rightarrow> bool \<Rightarrow> string \<Rightarrow> string \<Rightarrow> string \<Rightarrow> string \<Rightarrow> string \<Rightarrow> unit prog" where
  "download_yang_modules fuel debug device_name ned_name username vendor version =
     io_then (call (Spawn ''ncs_cli -C -u admin''))
    (io_then (io_when debug (call LogfileRead))
    (io_then (calls [ExpectExact [prompt], Print ''Fetch hostkeys...'', Sendline (''devices device '' @ device_name @ '' ssh fetch-host-keys'')])
    (io_bind (ask en_num (Expect [''result failed'', ''result (updated|unchanged).*admin@ncs#''])) (\<lambda>index.
     if index = 0 then io_then (call (Print ''error, cannot fetch host keys!\<newline>'')) (io_raise SystemExit)
     else
       io_then (calls (project_setup device_name ned_name username vendor version))
      (io_bind (ask en_num (ExpectExact [''% No entries found.'' @ [CHR 0x0D, CHR 0x0A] @ prompt, prompt])) (\<lambda>index'.
       if index' = 0 then
         io_then (calls [Print ''error\<newline>'', Print ''Try ned-test.py build-ned -d ... to see what went wrong.\<newline>'']) (io_raise SystemExit)
       else
         io_then (calls [Print ''ok\<newline>'', Sendline (project ned_name version @ '' module * * select''), ExpectExact [prompt],
                         Print (''Downloading YANG modules from '' @ device_name @ ''...\<newline>'')])
        (io_then (download_loop fuel ned_name version)
          (calls [Sendline ''exit'', Expect [''EOF'']]))))))))"

definition get_yang_modules ::
  "nat \<Rightarrow> test_device \<Rightarrow> bool \<Rightarrow> string \<Rightarrow> string \<Rightarrow> string \<Rightarrow> string \<Rightarrow> string \<Rightarrow> unit prog" where
  "get_yang_modules fuel td debug ned_name vendor version exclude_patterns yang_source =
     io_bind
       (if yang_source = ''device'' then
          io_then (download_yang_modules fuel debug (td_device_name td) ned_name (td_username td) vendor version)
            (io_ret (''state/netconf-ned-builder/cache/'' @ ned_name @ ''-nc-'' @ version))
        else io_bind (ask en_bool (IsDir yang_source)) (\<lambda>dir. if dir then io_ret yang_source else io_raise PyException)) (\<lambda>src_dir.
       calls [Rmtree ''/tmp/yangs'', Copytree src_dir ''/tmp/yangs'' (py_split (CHR '' '') exclude_patterns)])"

section \<open>Commands\<close>

definition status_cmd :: string where
  "status_cmd = ''ncs --status 2> /dev/null | grep -E '' @ [CHR 0x27] @ ''^status: started$'' @ [CHR 0x27] @ '' > /dev/null''"

fun wait_loop :: "nat \<Rightarrow> unit prog" where
  "wait_loop 0 = io_running"
| "wait_loop (Suc fuel) =
     io_bind (ask en_num (RunCmd status_cmd None)) (\<lambda>code.
       if code = 0 then io_ret () else io_then (calls [Print ''.'', Sleep 5]) (wait_loop fuel))"

definition wait_for_nso :: "nat \<Rightarrow> unit prog" where
  "wait_for_nso fuel = io_then (say ''Wait for NSO to start...'') (io_then (wait_loop fuel) ok)"

definition create_test_device :: "ned_args \<Rightarrow> unit prog" where
  "create_test_device args =
     (let td = TestDevice args
      in io_then (setup_netconf_device td)
           (case na_cli_port args of None \<Rightarrow> io_ret () | Some cli_port \<Rightarrow> setup_cli_device td cli_port))"

definition build_ned :: "nat \<Rightarrow> ned_args \<Rightarrow> unit prog" where
  "build_ned fuel args =
     io_bind (maapi_exists (device_path (na_device_name args) [])) (\<lambda>there.
     if \<not> there then io_raise TestNedError
     else
       io_bind (get_device (na_device_name args)) (\<lambda>td.
       io_bind (ask en_bool (ValueDiffers (td_ned_id td) ''netconf'')) (\<lambda>other.
       if other then io_raise TestNedError
       else
         io_then (get_yang_modules fuel td (na_debug args) (na_ned_name args) (na_vendor args) (na_version args)
                    (na_exclude args) (na_yang_source args))
        (io_bind (create_ned_package (na_ned_name args) (na_netsim args) (na_vendor args) (na_version args)) (\<lambda>ned_id.
         io_then (build_ned_package ned_id)
        (io_then (td_install_ned td ned_id)
          (io_when (na_install args) (maapi_set_ned_id (td_device_name td) ned_id))))))))"

definition record_test :: "ned_args \<Rightarrow> unit prog" where
  "record_test args =
     io_bind (get_device (na_device_name args)) (\<lambda>td.
     io_then (setup_drned_xmnr td)
    (io_bind (maapi_exists (device_path (na_device_name args) (''/drned-xmnr/state/states{'' @ na_state_name args @ ''}''))) (\<lambda>there.
       if \<not> there then td_record_test td (na_state_name args) else io_raise TestNedError)))"

text \<open>Without the option \<open>directory\<close>, asking whether it exists is a type error.\<close>

definition import_tests :: "ned_args \<Rightarrow> unit prog" where
  "import_tests args =
     io_bind (get_device (na_device_name args)) (\<lambda>td.
     io_then (setup_drned_xmnr td)
       (case na_directory args of
          None \<Rightarrow> io_raise TypeError
        | Some directory \<Rightarrow>
            io_bind (ask en_bool (PathExists directory)) (\<lambda>there.
              if there then td_import_tests td directory (na_pattern args) else io_raise TestNedError)))"

definition install_ned :: "ned_args \<Rightarrow> unit prog" where
  "install_ned args =
     io_bind (get_device (na_device_name args)) (\<lambda>td. maapi_set_ned_id (td_device_name td) (na_ned_id args))"

definition test_ned :: "ned_args \<Rightarrow> unit prog" where
  "test_ned args = io_bind (get_device (na_device_name args)) (\<lambda>td. td_test_ned td (na_strategy args))"

definition cleanup :: "ned_args \<Rightarrow> unit prog" where
  "cleanup args =
     nso_write_trans (calls [Delete (device_path (na_device_name args) []), Delete (group_path (na_device_name args) []), Apply])"

definition debug_cmd :: "ned_args \<Rightarrow> unit prog" where
  "debug_cmd args =
     io_with ConnectMaapi CloseMaapi
       (io_with (Begin ReadTrans ''admin'' ''python'') (End ReadTrans)
         (io_then (call ReloadPackages)
           (io_bind (ask en_str (ReloadResult ''drned-xmnr'')) (\<lambda>r. say (r @ ''\<newline>'')))))"

datatype ned_command = Init | BuildNed | RecordTest | ImportTests | InstallNed | TestNed | Cleanup | Debug

text \<open>
  The options of a command before its command line is read: the defaults of the parser of the command.
\<close>

definition no_args :: ned_args where
  "no_args = \<lparr>na_cli_port = None, na_dir = [], na_device_name = [], na_ip_address = [], na_ned_id = [], na_netconf_port = [],
     na_password = [], na_username = [], na_debug = False, na_exclude = [], na_install = False, na_netsim = [],
     na_ned_name = [], na_vendor = [], na_version = [], na_yang_source = [], na_state_name = [], na_directory = None,
     na_pattern = [], na_strategy = []\<rparr>"

fun ned_defaults :: "string \<Rightarrow> ned_command \<Rightarrow> ned_args" where
  "ned_defaults cwd Init = no_args\<lparr>na_dir := cwd, na_ned_id := ''netconf'', na_netconf_port := ''830'',
     na_password := ''admin'', na_username := ''admin''\<rparr>"
| "ned_defaults cwd BuildNed = no_args\<lparr>na_exclude := ''\"\"'', na_netsim := '' --no-netsim'', na_netconf_port := ''830'',
     na_yang_source := ''device'', na_device_name := ''nedbuilder''\<rparr>"
| "ned_defaults cwd ImportTests = no_args\<lparr>na_pattern := ''*.xml''\<rparr>"
| "ned_defaults cwd TestNed = no_args\<lparr>na_strategy := ''walk''\<rparr>"
| "ned_defaults cwd _ = no_args"

fun run_command :: "nat \<Rightarrow> ned_command \<Rightarrow> ned_args \<Rightarrow> unit prog" where
  "run_command fuel Init = create_test_device"
| "run_command fuel BuildNed = build_ned fuel"
| "run_command fuel RecordTest = record_test"
| "run_command fuel ImportTests = import_tests"
| "run_command fuel InstallNed = install_ned"
| "run_command fuel TestNed = test_ned"
| "run_command fuel Cleanup = cleanup"
| "run_command fuel Debug = debug_cmd"

text \<open>The end of the program: the command is run when NSO is up. (Without a command there would be no function to call.)\<close>

definition run_args :: "nat \<Rightarrow> (ned_command \<times> ned_args) option \<Rightarrow> unit prog" where
  "run_args fuel args =
     io_then (wait_for_nso fuel) (case args of None \<Rightarrow> io_raise AttributeError | Some (cmd, a) \<Rightarrow> run_command fuel cmd a)"

section \<open>Effects of the commands\<close>

text \<open>The calls that change something outside: in NSO, on its devices or in the file system.\<close>

fun effect :: "nso_event \<Rightarrow> bool" where
  "effect (Create _) = True"
| "effect (SetElem2 _ _) = True"
| "effect (Delete _) = True"
| "effect Apply = True"
| "effect (RequestAction _ _) = True"
| "effect ReloadPackages = True"
| "effect (RunCmd c _) = (c \<noteq> status_cmd)"
| "effect (Rmtree _) = True"
| "effect (Copytree _ _ _) = True"
| "effect (Copyfile _ _) = True"
| "effect _ = False"

lemma maapi_exists_silent: "silent en effect (maapi_exists p) h"
  unfolding maapi_exists_def nso_read_trans_def by (intro silent_intros) simp_all

lemma maapi_run_action_emits: "emits en effect (maapi_run_action action args) h [RequestAction args action]"
  unfolding maapi_run_action_def nso_read_trans_def
  by (intro emits_with) (use emits_ask [of en effect en_str "RequestAction args action"] in simp_all)

lemma nso_write_emits: "emits en effect (nso_write_trans (calls es)) h (filter effect es)"
  unfolding nso_write_trans_def by (intro emits_with emits_calls) simp_all

lemma say_silent: "silent en effect (say s) h"
  unfolding say_def by (intro silent_intros) simp

lemma get_device_silent: "silent en effect (get_device name) h"
  unfolding get_device_def nso_read_trans_def by (intro silent_intros) simp_all

lemma download_silent: "silent en effect (download_yang_modules fuel debug name ned_name username vendor version) h"
proof -
  have loop: "silent en effect (download_loop fuel ned_name version) h" for h
    by (induction fuel arbitrary: h) (auto intro!: silent_intros silent_calls)
  show ?thesis
    unfolding download_yang_modules_def
    by (intro silent_intros silent_when silent_calls loop) (simp_all add: project_setup_def)
qed

text \<open>Whether the group of a new device is there already.\<close>

definition group_there :: "nso_event env \<Rightarrow> string \<Rightarrow> nso_event list \<Rightarrow> bool" where
  "group_there en name h =
     en_bool en (h @ [Begin WriteTrans ''admin'' ''write-ctx'', Begin ReadTrans ''admin'' ''read-ctx'', Exists (group_path name [])])"

lemma create_authgroup_emits:
  "emits en effect (create_authgroup name username password) h
     (if group_there en name h then [] else authgroup_calls name username password)"
  unfolding create_authgroup_def nso_write_trans_def
proof (intro emits_with emits_silent_bind maapi_exists_silent)
  fix there h1
  assume "maapi_exists (group_path name []) en (h @ [Begin WriteTrans ''admin'' ''write-ctx'']) = (h1, Ret there)"
  then have "there = group_there en name h"
    by (auto simp: maapi_exists_def nso_read_trans_def io_with_def io_bind_def call_def ask_def group_there_def
        split: option.splits prod.splits outcome.splits if_splits)
  then show "emits en effect (io_when (\<not> there) (calls (authgroup_calls name username password))) h1
      (if group_there en name h then [] else authgroup_calls name username password)"
    using emits_when [OF emits_calls [of en effect "authgroup_calls name username password" h1], of "\<not> there"]
    by (simp add: authgroup_calls_def split: if_splits)
qed simp_all

definition fetch_keys_call :: "string \<Rightarrow> nso_event" where
  "fetch_keys_call name =
     RequestAction (''devices device '' @ name @ '' ssh fetch-host-keys'') (''/ncs:devices/device{'' @ name @ ''}/ssh/fetch-host-keys'')"

definition sync_call :: "string \<Rightarrow> nso_event" where
  "sync_call name = RequestAction (''devices device '' @ name @ '' sync-from'') (''/ncs:devices/device{'' @ name @ ''}/sync-from'')"

lemma fatal_silent: "silent en effect (io_then (io_when b (call (Fatal s))) ok) h"
  by (intro silent_intros silent_when say_silent) simp

lemma fetch_host_keys_emits:
  "emits en effect (fetch_host_keys name) h [fetch_keys_call name]"
  unfolding fetch_host_keys_def fetch_keys_call_def
  using emits_silent_bind [OF say_silent emits_bind [OF maapi_run_action_emits fatal_silent]] by simp

lemma sync_from_emits:
  "emits en effect (sync_from name) h [sync_call name]"
  unfolding sync_from_def sync_call_def
  using emits_silent_bind [OF say_silent emits_bind [OF maapi_run_action_emits fatal_silent]] by simp

lemma create_device_emits:
  "emits en effect (create_device name ip port ned_id) h (device_calls name ip port ned_id)"
  unfolding create_device_def using nso_write_emits [of en "device_calls name ip port ned_id" h]
  by (simp add: device_calls_def)

definition cli_calls :: "test_device \<Rightarrow> string \<Rightarrow> nso_event list" where
  "cli_calls td cli_port =
     [Copyfile (td_dir td @ ''/bin/device.template'') (cli_driver td),
      SetElem2 cli_port (device_path (td_device_name td) ''/drned-xmnr/cli-port''), Apply,
      SetElem2 (cli_driver td) (device_path (td_device_name td) ''/drned-xmnr/driver''), Apply]"

lemma setup_cli_device_emits: "emits en effect (setup_cli_device td cli_port) h (cli_calls td cli_port)"
proof -
  have copy: "emits en effect (call (Copyfile s d)) h [Copyfile s d]" for s d h
    using emits_ask [of en effect "\<lambda>_ _. ()" "Copyfile s d" h] by (simp add: call_def)
  have set: "emits en effect (maapi_set_elem_str p v) h [SetElem2 v p, Apply]" for p v h
    using nso_write_emits [of en "[SetElem2 v p, Apply]" h] by (simp add: maapi_set_elem_str_def)
  show ?thesis
    unfolding setup_cli_device_def cli_calls_def
    using emits_bind [OF copy emits_bind [OF set set]] by simp
qed

text \<open>What setting up a device does.\<close>

definition init_effects :: "bool \<Rightarrow> ned_args \<Rightarrow> nso_event list" where
  "init_effects there args =
     (let d = na_device_name args
      in (if there then [] else authgroup_calls d (na_username args) (na_password args)) @
         device_calls d (na_ip_address args) (na_netconf_port args) (na_ned_id args) @
         [fetch_keys_call d] @ [sync_call d] @
         (case na_cli_port args of None \<Rightarrow> [] | Some p \<Rightarrow> cli_calls (TestDevice args) p))"

lemma create_test_device_emits:
  "emits en effect (create_test_device args) h (init_effects (group_there en (na_device_name args) h) args)"
proof -
  have cli: "emits en effect (case na_cli_port args of None \<Rightarrow> io_ret () | Some p \<Rightarrow> setup_cli_device (TestDevice args) p) h
      (case na_cli_port args of None \<Rightarrow> [] | Some p \<Rightarrow> cli_calls (TestDevice args) p)" for h
    by (auto simp: emits_ret setup_cli_device_emits split: option.splits)
  have netconf: "emits en effect (setup_netconf_device td) h
      ((if group_there en (td_device_name td) h then [] else authgroup_calls (td_device_name td) (td_username td) (td_password td)) @
       device_calls (td_device_name td) (td_ip_address td) (td_netconf_port td) (td_ned_id td) @
       [fetch_keys_call (td_device_name td)] @ [sync_call (td_device_name td)])" for td
    unfolding setup_netconf_device_def
    by (intro emits_bind create_authgroup_emits create_device_emits fetch_host_keys_emits sync_from_emits)
  show ?thesis
    using emits_bind [OF netconf [of "TestDevice args"] cli]
    by (cases "group_there en (na_device_name args) h") (simp_all add: create_test_device_def init_effects_def Let_def)
qed

section \<open>Effects of building a package\<close>

text \<open>What building a package does for a device: the source of the models is given, and the package is made, compiled and installed.\<close>

definition yang_dir :: "ned_args \<Rightarrow> string" where
  "yang_dir args =
     (if na_yang_source args = ''device''
      then ''state/netconf-ned-builder/cache/'' @ ned_id_of (na_ned_name args) (na_version args)
      else na_yang_source args)"

definition build_effects :: "string \<Rightarrow> ned_args \<Rightarrow> nso_event list" where
  "build_effects dir args =
     (let ned_id = ned_id_of (na_ned_name args) (na_version args)
      in [Rmtree ''/tmp/yangs'', Copytree (yang_dir args) ''/tmp/yangs'' (py_split (CHR '' '') (na_exclude args))] @
         [Rmtree ned_id, RunCmd (make_package_cmd (na_ned_name args) (na_netsim args) (na_vendor args) (na_version args)) None] @
         [RunCmd (''make -C /tmp/'' @ ned_id @ ''/src clean all'') None] @
         [Rmtree (dir @ ''/packages/'' @ ned_id), Copytree (''/tmp/'' @ ned_id) (dir @ ''/packages/'' @ ned_id) [], ReloadPackages] @
         (if na_install args
          then [SetElem2 ned_id (device_path (na_device_name args) ''/device-type/netconf/ned-id''), Apply] else []))"

lemma cmd_not_status [simp]:
  "make_package_cmd n s v w \<noteq> status_cmd" "''make -C /tmp/'' @ n \<noteq> status_cmd"
  by (simp_all add: make_package_cmd_def status_cmd_def)

lemma get_yang_modules_emits:
  "emits en effect (get_yang_modules fuel td debug (na_ned_name args) vendor (na_version args) (na_exclude args) (na_yang_source args)) h
     [Rmtree ''/tmp/yangs'', Copytree (yang_dir args) ''/tmp/yangs'' (py_split (CHR '' '') (na_exclude args))]"
  unfolding get_yang_modules_def
proof (rule emits_silent_bind)
  show "silent en effect (if na_yang_source args = ''device'' then
          io_then (download_yang_modules fuel debug (td_device_name td) (na_ned_name args) (td_username td) vendor (na_version args))
            (io_ret (''state/netconf-ned-builder/cache/'' @ na_ned_name args @ ''-nc-'' @ na_version args))
        else io_bind (ask en_bool (IsDir (na_yang_source args))) (\<lambda>dir. if dir then io_ret (na_yang_source args) else io_raise PyException)) h"
    by (intro silent_intros download_silent) simp
next
  fix src h1
  assume "(if na_yang_source args = ''device'' then
          io_then (download_yang_modules fuel debug (td_device_name td) (na_ned_name args) (td_username td) vendor (na_version args))
            (io_ret (''state/netconf-ned-builder/cache/'' @ na_ned_name args @ ''-nc-'' @ na_version args))
        else io_bind (ask en_bool (IsDir (na_yang_source args))) (\<lambda>dir. if dir then io_ret (na_yang_source args) else io_raise PyException))
      en h = (h1, Ret src)"
  then have "src = yang_dir args"
    by (auto simp: io_bind_def io_ret_def io_raise_def yang_dir_def ned_id_of_def split: if_splits prod.splits outcome.splits)
  then show "emits en effect (calls [Rmtree ''/tmp/yangs'', Copytree src ''/tmp/yangs'' (py_split (CHR '' '') (na_exclude args))]) h1
     [Rmtree ''/tmp/yangs'', Copytree (yang_dir args) ''/tmp/yangs'' (py_split (CHR '' '') (na_exclude args))]"
    using emits_calls [of en effect "[Rmtree ''/tmp/yangs'', Copytree src ''/tmp/yangs'' (py_split (CHR '' '') (na_exclude args))]" h1]
    by simp
qed

lemma create_ned_package_emits:
  "emits en effect (create_ned_package n s v w) h [Rmtree (ned_id_of n w), RunCmd (make_package_cmd n s v w) None]"
proof -
  have "emits en effect (call (Rmtree (ned_id_of n w))) h [Rmtree (ned_id_of n w)]"
    using emits_ask [of en effect "\<lambda>_ _. ()" "Rmtree (ned_id_of n w)" h] by (simp add: call_def)
  moreover have "emits en effect (run_checked (RunCmd (make_package_cmd n s v w) None)) h1 [RunCmd (make_package_cmd n s v w) None]" for h1
    using emits_run_checked [of en effect "RunCmd (make_package_cmd n s v w) None" h1] by simp
  ultimately show ?thesis
    unfolding create_ned_package_def Let_def using emits_bind [OF _ emits_bind [OF _ emits_ret]] by fastforce
qed

lemma create_ned_package_Ret: "create_ned_package n s v w en h = (h1, Ret a) \<Longrightarrow> a = ned_id_of n w"
  by (auto simp: create_ned_package_def io_bind_def io_ret_def Let_def split: prod.splits outcome.splits)

lemma get_device_Ret: "get_device name en h = (h1, Ret td) \<Longrightarrow> td_device_name td = name"
  by (auto simp: get_device_def nso_read_trans_def io_with_def io_bind_def io_ret_def split: prod.splits outcome.splits if_splits)

lemma td_install_ned_emits:
  "emits en effect (td_install_ned td ned_id) h
     [Rmtree (td_dir td @ ''/packages/'' @ ned_id), Copytree (''/tmp/'' @ ned_id) (td_dir td @ ''/packages/'' @ ned_id) [], ReloadPackages]"
proof -
  let ?p = "td_dir td @ ''/packages/'' @ ned_id"
  have copy: "emits en effect (calls [Rmtree ?p, Copytree (''/tmp/'' @ ned_id) ?p []]) h [Rmtree ?p, Copytree (''/tmp/'' @ ned_id) ?p []]"
    using emits_calls [of en effect "[Rmtree ?p, Copytree (''/tmp/'' @ ned_id) ?p []]" h] by simp
  have call: "emits en effect (call ReloadPackages) h1 [ReloadPackages]" for h1
    using emits_ask [of en effect "\<lambda>_ _. ()" ReloadPackages h1] by (simp add: call_def)
  have read: "silent en effect (ask en_str (ReloadResult ned_id)) h1" for h1
    by (rule silent_ask) simp
  have "emits en effect (io_with ConnectMaapi CloseMaapi (io_with (Begin ReadTrans ''admin'' ''python'') (End ReadTrans)
      (io_then (call ReloadPackages) (ask en_str (ReloadResult ned_id))))) h1 [ReloadPackages]" for h1
    using emits_bind [OF call read] by (intro emits_with) simp_all
  from emits_bind [OF copy this] show ?thesis by (simp add: td_install_ned_def Let_def)
qed

lemma build_tail_emits:
  assumes "td_device_name td = na_device_name args"
  shows "emits en effect
     (io_then (get_yang_modules fuel td (na_debug args) (na_ned_name args) (na_vendor args) (na_version args)
                    (na_exclude args) (na_yang_source args))
        (io_bind (create_ned_package (na_ned_name args) (na_netsim args) (na_vendor args) (na_version args)) (\<lambda>ned_id.
         io_then (build_ned_package ned_id)
        (io_then (td_install_ned td ned_id)
          (io_when (na_install args) (maapi_set_ned_id (td_device_name td) ned_id)))))) h (build_effects (td_dir td) args)"
    (is "emits _ _ ?m _ _")
proof -
  let ?id = "ned_id_of (na_ned_name args) (na_version args)"
  let ?set = "[SetElem2 ?id (device_path (na_device_name args) ''/device-type/netconf/ned-id''), Apply]"
  have set: "emits en effect (io_when (na_install args) (maapi_set_ned_id (td_device_name td) ?id)) h
      (if na_install args then ?set else [])" for h
    using assms nso_write_emits [of en ?set] by (intro emits_when) (simp add: maapi_set_ned_id_def)
  have build: "emits en effect (build_ned_package ?id) h [RunCmd (''make -C /tmp/'' @ ?id @ ''/src clean all'') None]" for h
    unfolding build_ned_package_def
    using emits_run_checked [of en effect "RunCmd (''make -C /tmp/'' @ ?id @ ''/src clean all'') None" h] cmd_not_status(2)
    by (simp only: effect.simps if_True not_False_eq_True)
  have rest: "emits en effect (io_then (build_ned_package ned_id) (io_then (td_install_ned td ned_id)
      (io_when (na_install args) (maapi_set_ned_id (td_device_name td) ned_id)))) h
      ([RunCmd (''make -C /tmp/'' @ ?id @ ''/src clean all'') None] @
       [Rmtree (td_dir td @ ''/packages/'' @ ?id), Copytree (''/tmp/'' @ ?id) (td_dir td @ ''/packages/'' @ ?id) [], ReloadPackages] @
       (if na_install args then ?set else []))" if "ned_id = ?id" for ned_id h
    unfolding that by (intro emits_bind build td_install_ned_emits set)
  show ?thesis
    unfolding build_effects_def Let_def
    by (intro emits_bind [OF get_yang_modules_emits] emits_bind [OF create_ned_package_emits] rest) (rule create_ned_package_Ret)
qed

lemma build_ned_emits: "\<exists>dir. emits en effect (build_ned fuel args) h (build_effects dir args)"
  unfolding build_ned_def
proof (rule emits_bind_ex [OF maapi_exists_silent], goal_cases)
  case (1 there h1)
  show ?case
  proof (cases there)
    case True
    then have eq: "\<not> \<not> there" by simp
    show ?thesis
      unfolding if_not_P [OF eq]
    proof (rule emits_bind_ex [OF get_device_silent])
      fix td h2
      assume "get_device (na_device_name args) en h1 = (h2, Ret td)"
      from build_tail_emits [OF get_device_Ret [OF this]] show "\<exists>x. emits en effect
          (io_bind (ask en_bool (ValueDiffers (td_ned_id td) ''netconf'')) (\<lambda>other. if other then io_raise TestNedError else
             io_then (get_yang_modules fuel td (na_debug args) (na_ned_name args) (na_vendor args) (na_version args)
                    (na_exclude args) (na_yang_source args))
        (io_bind (create_ned_package (na_ned_name args) (na_netsim args) (na_vendor args) (na_version args)) (\<lambda>ned_id.
         io_then (build_ned_package ned_id)
        (io_then (td_install_ned td ned_id)
          (io_when (na_install args) (maapi_set_ned_id (td_device_name td) ned_id))))))) h2 (build_effects x args)"
        by (intro exI [of _ "td_dir td"] emits_silent_bind silent_ask) (simp_all add: emits_raise)
    qed
  qed (simp add: emits_raise)
qed

section \<open>Waiting for NSO\<close>

text \<open>The calls of \<open>k\<close> rounds of the loop.\<close>

definition wait_rounds :: "nat \<Rightarrow> nso_event list" where
  "wait_rounds k = concat (replicate k [RunCmd status_cmd None, Print ''.'', Sleep 5])"

lemma wait_rounds_Suc: "wait_rounds (Suc k) = [RunCmd status_cmd None, Print ''.'', Sleep 5] @ wait_rounds k"
  by (simp add: wait_rounds_def)

lemma wait_loop_rounds:
  assumes "\<And>h. en_fail en h = None" and "\<And>i. i < k \<Longrightarrow> en_num en (h @ wait_rounds i @ [RunCmd status_cmd None]) \<noteq> 0"
    and "en_num en (h @ wait_rounds k @ [RunCmd status_cmd None]) = 0" and "k < fuel"
  shows "wait_loop fuel en h = (h @ wait_rounds k @ [RunCmd status_cmd None], Ret ())"
  using assms(2-4)
proof (induction fuel arbitrary: h k)
  case (Suc fuel)
  show ?case
  proof (cases k)
    case 0
    with Suc.prems(2) show ?thesis
      by (simp add: wait_rounds_def io_bind_def ask_def io_ret_def assms(1))
  next
    case (Suc j)
    let ?h = "h @ [RunCmd status_cmd None, Print ''.'', Sleep 5]"
    have "wait_loop fuel en ?h = (?h @ wait_rounds j @ [RunCmd status_cmd None], Ret ())"
      using Suc.prems(1) [of "Suc _"] Suc.prems(2,3) Suc by (intro Suc.IH) (auto simp: wait_rounds_Suc)
    moreover have "en_num en (h @ [RunCmd status_cmd None]) \<noteq> 0"
      using Suc.prems(1) [of 0] Suc by (simp add: wait_rounds_def)
    ultimately show ?thesis
      using Suc by (simp add: wait_rounds_Suc io_bind_def ask_def io_ret_def call_def assms(1))
  qed
qed simp

lemma wait_loop_Ret: "wait_loop fuel en h = (h1, Ret a) \<Longrightarrow> \<exists>h0. h1 = h0 @ [RunCmd status_cmd None] \<and> en_num en h1 = 0"
proof (induction fuel arbitrary: h)
  case (Suc fuel)
  then show ?case
    by (auto simp: io_bind_def ask_def io_ret_def call_def split: option.splits prod.splits outcome.splits if_splits)
qed (simp add: io_running_def)

lemma wait_for_nso_silent: "silent en effect (wait_for_nso fuel) h"
proof -
  have "silent en effect (wait_loop fuel) h" for h
    by (induction fuel arbitrary: h) (auto intro!: silent_intros silent_calls)
  then show ?thesis
    unfolding wait_for_nso_def by (intro silent_intros say_silent)
qed

section \<open>Properties\<close>

text \<open>
  Setting up a device, whatever NSO and the device do: what it changes is a prefix of the fixed list \<open>init_effects\<close>, and all of it
  if the command returns. So the group of the device is written before the device, each of the transactions is applied only after all
  its operations, keys and configuration are fetched after that, an existing group is left alone, and after the
  first failure nothing more is done.
\<close>

theorem init_effects_spec:
  assumes "create_test_device args en [] = (h, r)"
  shows "prefix (filter effect h) (init_effects (group_there en (na_device_name args) []) args) \<and>
     (r = Ret () \<longrightarrow> filter effect h = init_effects (group_there en (na_device_name args) []) args)"
  using emitsD [OF create_test_device_emits assms] by blast


text \<open>
  Waiting ends: when NSO answers that it is up after \<open>k\<close> other answers, the program goes on after \<open>k\<close> pauses of five seconds.
\<close>

theorem wait_for_nso_returns:
  assumes "\<And>h. en_fail en h = None"
    and "\<And>i. i < k \<Longrightarrow> en_num en (Print ''Wait for NSO to start...'' # wait_rounds i @ [RunCmd status_cmd None]) \<noteq> 0"
    and "en_num en (Print ''Wait for NSO to start...'' # wait_rounds k @ [RunCmd status_cmd None]) = 0" and "k < fuel"
  shows "wait_for_nso fuel en [] =
     (Print ''Wait for NSO to start...'' # wait_rounds k @ [RunCmd status_cmd None, Print ''ok\<newline>''], Ret ())"
  using wait_loop_rounds [of en k "[Print ''Wait for NSO to start...'']" fuel] assms
  by (simp add: wait_for_nso_def io_bind_def say_def call_def ask_def)

text \<open>
  No command does anything before NSO is up: when a run of the program had an effect, the wait before it returned, its last
  question was answered with success, and until then there was none.
\<close>

lemma run_args_waits:
  assumes "run_args fuel args en [] = (h, r)" and "filter effect h \<noteq> []"
  shows "\<exists>h0. wait_for_nso fuel en [] = (h0 @ [RunCmd status_cmd None, Print ''ok\<newline>''], Ret ()) \<and>
     en_num en (h0 @ [RunCmd status_cmd None]) = 0 \<and> filter effect h0 = []"
proof -
  obtain h1 r1 where w: "wait_for_nso fuel en [] = (h1, r1)" by (cases "wait_for_nso fuel en []")
  with emitsD [OF wait_for_nso_silent w] have silent: "filter effect h1 = []" by simp
  have "r1 = Ret ()"
  proof (rule ccontr)
    assume "r1 \<noteq> Ret ()"
    with w assms(1) have "h = h1" by (cases r1) (auto simp: run_args_def io_bind_def)
    with silent assms(2) show False by simp
  qed
  with w obtain h2 where h2: "wait_loop fuel en [Print ''Wait for NSO to start...''] = (h2, Ret ())" "h1 = h2 @ [Print ''ok\<newline>'']"
    by (auto simp: wait_for_nso_def io_bind_def say_def call_def ask_def split: option.splits prod.splits outcome.splits)
  from wait_loop_Ret [OF h2(1)] obtain h0 where "h2 = h0 @ [RunCmd status_cmd None]" "en_num en h2 = 0" by blast
  with w h2(2) \<open>r1 = Ret ()\<close> silent show ?thesis by auto
qed

section \<open>Examples\<close>

text \<open>An environment without failures in which every device exists.\<close>

definition calm :: "nso_event env" where
  "calm = \<lparr>en_fail = \<lambda>_. None, en_bool = (\<lambda>h. case last h of Exists _ \<Rightarrow> True | IsDir _ \<Rightarrow> True | _ \<Rightarrow> False),
     en_num = \<lambda>_. 0, en_str = \<lambda>_. ''r1''\<rparr>"

definition init_args :: ned_args where
  "init_args = (ned_defaults ''/nso'' Init)\<lparr>na_device_name := ''r1'', na_ip_address := ''10.0.0.1''\<rparr>"

lemma init_calm: "snd (create_test_device init_args calm []) = Ret ()"
  by code_simp

lemma init_effects_spec_witness:
  "filter effect (fst (create_test_device init_args calm [])) = init_effects True init_args"
proof -
  have "group_there calm (na_device_name init_args) []" by (simp add: group_there_def calm_def)
  then show ?thesis
    using init_effects_spec [OF prod.collapse [symmetric], of init_args calm] init_calm by simp
qed

definition build_args :: ned_args where
  "build_args = (ned_defaults ''/nso'' BuildNed)\<lparr>na_device_name := ''r1'', na_ned_name := ''r'', na_vendor := ''v'', na_version := ''1'',
     na_install := True, na_yang_source := ''/m''\<rparr>"

lemma build_calm: "snd (build_ned 1 build_args calm []) = Ret ()"
  by code_simp


text \<open>An environment in which NSO needs two rounds.\<close>

definition slow :: "nso_event env" where
  "slow = calm\<lparr>en_num := (\<lambda>h. if length h < 8 then 1 else 0)\<rparr>"

lemma wait_for_nso_returns_witness:
  "wait_for_nso 3 slow [] =
     (Print ''Wait for NSO to start...'' # wait_rounds 2 @ [RunCmd status_cmd None, Print ''ok\<newline>''], Ret ())"
proof (rule wait_for_nso_returns)
  show "en_num slow (Print ''Wait for NSO to start...'' # wait_rounds i @ [RunCmd status_cmd None]) \<noteq> 0" if "i < 2" for i
    using that by (cases "i = 0") (auto simp: slow_def wait_rounds_def numeral_2_eq_2 less_Suc_eq)
qed (simp_all add: slow_def calm_def wait_rounds_def numeral_2_eq_2)

end
