(* ===== verification/Ned_Command_Line.thy ===== *)
theory Ned_Command_Line
  imports Py_Argparse Ned_Test
begin

text \<open>
  The command line of \<open>ned-test/ned-test.py\<close>: a parser with one parser for each command. The namespace of a command is the record of its
  options; the directory from which the program was started is a default of one of them. From the command line of given values the
  program runs the command with these values, when NSO is up.
\<close>

section \<open>The parsers\<close>

abbreviation ned_store :: "string list \<Rightarrow> (string \<Rightarrow> ned_args \<Rightarrow> ned_args) \<Rightarrow> ned_args arg_option" where
  "ned_store ss f \<equiv> opt_arg ss (ArgStore (as_text f))"

abbreviation ned_needs :: "string list \<Rightarrow> (string \<Rightarrow> ned_args \<Rightarrow> ned_args) \<Rightarrow> ned_args arg_option" where
  "ned_needs ss f \<equiv> req_arg ss (ArgStore (as_text f))"

definition set_device :: "string \<Rightarrow> ned_args \<Rightarrow> ned_args result" where
  "set_device = as_text (\<lambda>s a. a\<lparr>na_device_name := s\<rparr>)"

fun ned_parser :: "ned_command \<Rightarrow> ned_args arg_parser" where
  "ned_parser Init = argument_parser
     [ned_store [''-c'', ''--cli-port''] (\<lambda>s a. a\<lparr>na_cli_port := Some s\<rparr>),
      ned_store [''-d'', ''--dir''] (\<lambda>s a. a\<lparr>na_dir := s\<rparr>),
      ned_needs [''-i'', ''--ip-address''] (\<lambda>s a. a\<lparr>na_ip_address := s\<rparr>),
      ned_store [''-N'', ''--ned-id''] (\<lambda>s a. a\<lparr>na_ned_id := s\<rparr>),
      ned_store [''-n'', ''--netconf-port''] (\<lambda>s a. a\<lparr>na_netconf_port := s\<rparr>),
      ned_store [''-p'', ''--password''] (\<lambda>s a. a\<lparr>na_password := s\<rparr>),
      ned_store [''-u'', ''--username''] (\<lambda>s a. a\<lparr>na_username := s\<rparr>)]
     (Some (PosOne set_device))"
| "ned_parser BuildNed = argument_parser
     [opt_arg [''-d'', ''--debug''] (ArgConst (\<lambda>a. a\<lparr>na_debug := True\<rparr>)),
      ned_store [''-e'', ''--exclude''] (\<lambda>s a. a\<lparr>na_exclude := s\<rparr>),
      opt_arg [''-i'', ''--install''] (ArgConst (\<lambda>a. a\<lparr>na_install := True\<rparr>)),
      opt_arg [''-m'', ''--netsim''] (ArgConst (\<lambda>a. a\<lparr>na_netsim := '' ''\<rparr>)),
      ned_needs [''-N'', ''--ned-name''] (\<lambda>s a. a\<lparr>na_ned_name := s\<rparr>),
      ned_store [''-n'', ''--netconf-port''] (\<lambda>s a. a\<lparr>na_netconf_port := s\<rparr>),
      ned_needs [''-v'', ''--vendor''] (\<lambda>s a. a\<lparr>na_vendor := s\<rparr>),
      ned_needs [''-V'', ''--version''] (\<lambda>s a. a\<lparr>na_version := s\<rparr>),
      ned_store [''-y'', ''--yang-source''] (\<lambda>s a. a\<lparr>na_yang_source := s\<rparr>)]
     (Some (PosOptional set_device))"
| "ned_parser RecordTest = argument_parser
     [ned_needs [''-s'', ''--state-name''] (\<lambda>s a. a\<lparr>na_state_name := s\<rparr>)] (Some (PosOne set_device))"
| "ned_parser ImportTests = argument_parser
     [ned_store [''-d'', ''--directory''] (\<lambda>s a. a\<lparr>na_directory := Some s\<rparr>),
      ned_store [''-p'', ''--pattern''] (\<lambda>s a. a\<lparr>na_pattern := s\<rparr>)]
     (Some (PosOne set_device))"
| "ned_parser InstallNed = argument_parser
     [ned_needs [''-N'', ''--ned-id''] (\<lambda>s a. a\<lparr>na_ned_id := s\<rparr>)] (Some (PosOne set_device))"
| "ned_parser TestNed = argument_parser
     [ned_store [''-s'', ''--strategy''] (\<lambda>s a. a\<lparr>na_strategy := s\<rparr>)] (Some (PosOne set_device))"
| "ned_parser Cleanup = argument_parser [] (Some (PosOne set_device))"
| "ned_parser Debug = argument_parser [] (Some (PosOne set_device))"

definition ned_commands :: "(string \<times> ned_command) list" where
  "ned_commands = [(''init'', Init), (''build-ned'', BuildNed), (''record-test'', RecordTest), (''import-tests'', ImportTests),
     (''install-ned'', InstallNed), (''test-ned'', TestNed), (''cleanup'', Cleanup), (''debug'', Debug)]"

definition ned_subparsers :: "string \<Rightarrow> string \<Rightarrow> string list \<Rightarrow> (ned_command \<times> ned_args) option \<Rightarrow> (ned_command \<times> ned_args) option result" where
  "ned_subparsers cwd name args _ =
     (case map_of ned_commands name of
        None \<Rightarrow> Inl SystemExit
      | Some cmd \<Rightarrow> rbind (argparse (ned_parser cmd) (ned_defaults cwd cmd) args) (\<lambda>a. Inr (Some (cmd, a))))"

definition main_parser :: "string \<Rightarrow> (ned_command \<times> ned_args) option arg_parser" where
  "main_parser cwd = argument_parser [] (Some (PosCommand (ned_subparsers cwd)))"

text \<open>The program: without arguments the parser is asked for its error message.\<close>

definition ned_test :: "nat \<Rightarrow> string \<Rightarrow> string list \<Rightarrow> unit prog" where
  "ned_test fuel cwd arguments =
     (if length arguments = 0 then io_raise SystemExit
      else case argparse (main_parser cwd) None arguments of Inl e \<Rightarrow> io_raise e | Inr args \<Rightarrow> run_args fuel args)"

section \<open>Command lines of given values\<close>

text \<open>The settings of a command for given values, and the values that it gets: those, and the defaults for the options of other commands.\<close>

fun ned_items :: "ned_command \<Rightarrow> ned_args \<Rightarrow> opt_item list" where
  "ned_items Init a = (case na_cli_port a of None \<Rightarrow> [] | Some s \<Rightarrow> [LongValue ''--cli-port'' s]) @
     [LongValue ''--dir'' (na_dir a), LongValue ''--ip-address'' (na_ip_address a), LongValue ''--ned-id'' (na_ned_id a),
      LongValue ''--netconf-port'' (na_netconf_port a), LongValue ''--password'' (na_password a), LongValue ''--username'' (na_username a)]"
| "ned_items BuildNed a =
     flag_items [(na_debug a, LongFlag ''--debug''), (na_install a, LongFlag ''--install''), (na_netsim a = '' '', LongFlag ''--netsim'')] @
     [LongValue ''--exclude'' (na_exclude a), LongValue ''--ned-name'' (na_ned_name a), LongValue ''--netconf-port'' (na_netconf_port a),
      LongValue ''--vendor'' (na_vendor a), LongValue ''--version'' (na_version a), LongValue ''--yang-source'' (na_yang_source a)]"
| "ned_items RecordTest a = [LongValue ''--state-name'' (na_state_name a)]"
| "ned_items ImportTests a = (case na_directory a of None \<Rightarrow> [] | Some s \<Rightarrow> [LongValue ''--directory'' s]) @ [LongValue ''--pattern'' (na_pattern a)]"
| "ned_items InstallNed a = [LongValue ''--ned-id'' (na_ned_id a)]"
| "ned_items TestNed a = [LongValue ''--strategy'' (na_strategy a)]"
| "ned_items _ a = []"

fun ned_values :: "ned_command \<Rightarrow> ned_args \<Rightarrow> ned_args" where
  "ned_values Init a = no_args\<lparr>na_cli_port := na_cli_port a, na_dir := na_dir a, na_ip_address := na_ip_address a, na_ned_id := na_ned_id a,
     na_netconf_port := na_netconf_port a, na_password := na_password a, na_username := na_username a, na_device_name := na_device_name a\<rparr>"
| "ned_values BuildNed a = no_args\<lparr>na_debug := na_debug a, na_exclude := na_exclude a, na_install := na_install a,
     na_netsim := (if na_netsim a = '' '' then '' '' else '' --no-netsim''), na_ned_name := na_ned_name a, na_netconf_port := na_netconf_port a,
     na_vendor := na_vendor a, na_version := na_version a, na_yang_source := na_yang_source a, na_device_name := na_device_name a\<rparr>"
| "ned_values RecordTest a = no_args\<lparr>na_state_name := na_state_name a, na_device_name := na_device_name a\<rparr>"
| "ned_values ImportTests a = no_args\<lparr>na_directory := na_directory a, na_pattern := na_pattern a, na_device_name := na_device_name a\<rparr>"
| "ned_values InstallNed a = no_args\<lparr>na_ned_id := na_ned_id a, na_device_name := na_device_name a\<rparr>"
| "ned_values TestNed a = no_args\<lparr>na_strategy := na_strategy a, na_device_name := na_device_name a\<rparr>"
| "ned_values _ a = no_args\<lparr>na_device_name := na_device_name a\<rparr>"

lemmas parser_defs = argument_parser_def option_actions_def opt_arg_def req_arg_def

lemma ned_parser_plain: "plain_strings (ned_parser cmd)"
  by (cases cmd) (simp_all add: plain_strings_def parser_defs)

lemma ned_options:
  "map_of (option_actions (ned_parser Init)) ''--cli-port'' = Some (ned_store [''-c'', ''--cli-port''] (\<lambda>s a. a\<lparr>na_cli_port := Some s\<rparr>))"
  "map_of (option_actions (ned_parser Init)) ''--dir'' = Some (ned_store [''-d'', ''--dir''] (\<lambda>s a. a\<lparr>na_dir := s\<rparr>))"
  "map_of (option_actions (ned_parser Init)) ''--ip-address'' = Some (ned_needs [''-i'', ''--ip-address''] (\<lambda>s a. a\<lparr>na_ip_address := s\<rparr>))"
  "map_of (option_actions (ned_parser Init)) ''--ned-id'' = Some (ned_store [''-N'', ''--ned-id''] (\<lambda>s a. a\<lparr>na_ned_id := s\<rparr>))"
  "map_of (option_actions (ned_parser Init)) ''--netconf-port'' = Some (ned_store [''-n'', ''--netconf-port''] (\<lambda>s a. a\<lparr>na_netconf_port := s\<rparr>))"
  "map_of (option_actions (ned_parser Init)) ''--password'' = Some (ned_store [''-p'', ''--password''] (\<lambda>s a. a\<lparr>na_password := s\<rparr>))"
  "map_of (option_actions (ned_parser Init)) ''--username'' = Some (ned_store [''-u'', ''--username''] (\<lambda>s a. a\<lparr>na_username := s\<rparr>))"
  "map_of (option_actions (ned_parser BuildNed)) ''--debug'' = Some (opt_arg [''-d'', ''--debug''] (ArgConst (\<lambda>a. a\<lparr>na_debug := True\<rparr>)))"
  "map_of (option_actions (ned_parser BuildNed)) ''--exclude'' = Some (ned_store [''-e'', ''--exclude''] (\<lambda>s a. a\<lparr>na_exclude := s\<rparr>))"
  "map_of (option_actions (ned_parser BuildNed)) ''--install'' = Some (opt_arg [''-i'', ''--install''] (ArgConst (\<lambda>a. a\<lparr>na_install := True\<rparr>)))"
  "map_of (option_actions (ned_parser BuildNed)) ''--netsim'' = Some (opt_arg [''-m'', ''--netsim''] (ArgConst (\<lambda>a. a\<lparr>na_netsim := '' ''\<rparr>)))"
  "map_of (option_actions (ned_parser BuildNed)) ''--ned-name'' = Some (ned_needs [''-N'', ''--ned-name''] (\<lambda>s a. a\<lparr>na_ned_name := s\<rparr>))"
  "map_of (option_actions (ned_parser BuildNed)) ''--netconf-port'' = Some (ned_store [''-n'', ''--netconf-port''] (\<lambda>s a. a\<lparr>na_netconf_port := s\<rparr>))"
  "map_of (option_actions (ned_parser BuildNed)) ''--vendor'' = Some (ned_needs [''-v'', ''--vendor''] (\<lambda>s a. a\<lparr>na_vendor := s\<rparr>))"
  "map_of (option_actions (ned_parser BuildNed)) ''--version'' = Some (ned_needs [''-V'', ''--version''] (\<lambda>s a. a\<lparr>na_version := s\<rparr>))"
  "map_of (option_actions (ned_parser BuildNed)) ''--yang-source'' = Some (ned_store [''-y'', ''--yang-source''] (\<lambda>s a. a\<lparr>na_yang_source := s\<rparr>))"
  "map_of (option_actions (ned_parser RecordTest)) ''--state-name'' = Some (ned_needs [''-s'', ''--state-name''] (\<lambda>s a. a\<lparr>na_state_name := s\<rparr>))"
  "map_of (option_actions (ned_parser ImportTests)) ''--directory'' = Some (ned_store [''-d'', ''--directory''] (\<lambda>s a. a\<lparr>na_directory := Some s\<rparr>))"
  "map_of (option_actions (ned_parser ImportTests)) ''--pattern'' = Some (ned_store [''-p'', ''--pattern''] (\<lambda>s a. a\<lparr>na_pattern := s\<rparr>))"
  "map_of (option_actions (ned_parser InstallNed)) ''--ned-id'' = Some (ned_needs [''-N'', ''--ned-id''] (\<lambda>s a. a\<lparr>na_ned_id := s\<rparr>))"
  "map_of (option_actions (ned_parser TestNed)) ''--strategy'' = Some (ned_store [''-s'', ''--strategy''] (\<lambda>s a. a\<lparr>na_strategy := s\<rparr>))"
  by (simp_all add: parser_defs)

lemma ned_items_valid: "list_all (item_valid (ned_parser cmd)) (ned_items cmd a)"
  by (cases cmd) (simp_all add: item_valid_def item_option_def ned_options action_ok_def opt_arg_def req_arg_def flag_items_valid split: option.splits
    del: flag_items.simps(2) ned_parser.simps)

text \<open>The options that have to be given.\<close>

lemma ned_required:
  "map ar_strings (filter ar_required (ap_options (ned_parser cmd))) =
     (case cmd of
        Init \<Rightarrow> [[''-i'', ''--ip-address'']]
      | BuildNed \<Rightarrow> [[''-N'', ''--ned-name''], [''-v'', ''--vendor''], [''-V'', ''--version'']]
      | RecordTest \<Rightarrow> [[''-s'', ''--state-name'']]
      | InstallNed \<Rightarrow> [[''-N'', ''--ned-id'']]
      | _ \<Rightarrow> [])"
  by (cases cmd) (simp_all add: parser_defs)

lemmas ned_option_simps = item_option_def ned_options opt_arg_def req_arg_def

lemma ned_items_given: "required_given (ned_parser cmd) (ned_items cmd a)"
  unfolding required_given_iff ned_required
  by (cases cmd) (simp_all add: items_seen_def ned_option_simps del: ned_parser.simps flag_items.simps(2))

lemma ned_flags_run:
  "items_run (ned_parser BuildNed)
     (flag_items [(b, LongFlag ''--debug''), (c, LongFlag ''--install''), (d, LongFlag ''--netsim'')]) v =
   Inr (v\<lparr>na_debug := b \<or> na_debug v, na_install := c \<or> na_install v, na_netsim := (if d then '' '' else na_netsim v)\<rparr>)"
  by (cases b; cases c; cases d; simp add: item_run_def action_run_def ned_option_simps del: ned_parser.simps)

lemma ned_items_run:
  "items_run (ned_parser cmd) (ned_items cmd a) (ned_defaults cwd cmd) =
     Inr ((ned_values cmd a)\<lparr>na_device_name := na_device_name (ned_defaults cwd cmd)\<rparr>)"
  by (cases cmd) (simp_all add: items_run_append ned_flags_run item_run_def action_run_def ned_option_simps no_args_def split: option.splits
    del: ned_parser.simps flag_items.simps(2))

text \<open>The main parser has only the help option: every argument of a command has a tag, and the command gets all of them.\<close>

lemma main_options: "option_actions (main_parser cwd) = [(''-h'', opt_arg [''-h'', ''--help''] ArgExit), (''--help'', opt_arg [''-h'', ''--help''] ArgExit)]"
  by (simp add: main_parser_def parser_defs)

lemma main_tuples:
  assumes "take 1 s = ''-''" and "length s \<noteq> 1"
  shows "length (option_tuples (main_parser cwd) s) \<le> 1"
proof -
  from assms obtain d r where "s = CHR ''-'' # d # r" by (cases s; cases "tl s") auto
  then show ?thesis by (auto simp: option_tuples_def main_options partition_eq_def)
qed

lemma main_tags: "\<exists>ts. tag_args (main_parser cwd) ws = Inr ts"
proof (induction ws)
  case (Cons w ws)
  have "\<exists>t. parse_optional (main_parser cwd) w = Inr t"
    using main_tuples [of w cwd] by (auto simp: parse_optional_def split: option.splits prod.splits list.splits)
  with Cons show ?case by (auto simp: tag_args.simps(2))
qed simp

lemma ned_test_command:
  assumes "take 1 name \<noteq> ''-''"
  shows "ned_test fuel cwd (name # ws) =
    (case ned_subparsers cwd name ws None of Inl e \<Rightarrow> io_raise e | Inr args \<Rightarrow> run_args fuel args)"
proof -
  obtain ts where ts: "tag_args (main_parser cwd) ws = Inr ts" using main_tags by blast
  have "argparse (main_parser cwd) None (name # ws) = ned_subparsers cwd name ws None"
    by (rule argparse_command [OF is_word_plain [OF assms] _ ts]) (simp_all add: main_parser_def parser_defs)
  then show ?thesis by (simp add: ned_test_def)
qed

text \<open>With another word than the name of a command, or without arguments, the program ends before it does anything.\<close>

lemma ned_test_no_command:
  "map_of ned_commands name = None \<Longrightarrow> take 1 name \<noteq> ''-'' \<Longrightarrow> ned_test fuel cwd (name # ws) = io_raise SystemExit"
  "ned_test fuel cwd [] = io_raise SystemExit"
  by (simp add: ned_test_command ned_subparsers_def) (simp add: ned_test_def)

text \<open>
  C34. The program with the command line of given values waits for NSO and runs the command with these values.
\<close>

theorem ned_test_command_line:
  assumes dev: "take 1 (na_device_name a) \<noteq> ''-''" and cmd: "map_of ned_commands name = Some cmd"
  shows "ned_test fuel cwd (name # items_args (ned_items cmd a) @ [na_device_name a]) =
    io_then (wait_for_nso fuel) (run_command fuel cmd (ned_values cmd a))"
proof -
  have pos: "ap_positional (ned_parser cmd) = Some (PosOne set_device) \<or> ap_positional (ned_parser cmd) = Some (PosOptional set_device)"
    by (cases cmd) (simp_all add: argument_parser_def)
  have "(ned_values cmd a)\<lparr>na_device_name := na_device_name a\<rparr> = ned_values cmd a" by (cases cmd) simp_all
  then have "argparse (ned_parser cmd) (ned_defaults cwd cmd) (items_args (ned_items cmd a) @ [na_device_name a]) = Inr (ned_values cmd a)"
    using argparse_word [OF ned_parser_plain _ is_word_plain [OF dev] pos, of "ned_items cmd a" "[]" "ned_defaults cwd cmd"]
      ned_items_valid [of cmd a] ned_items_given [of cmd a]
    by (simp add: ned_items_run set_device_def)
  moreover have "take 1 name \<noteq> ''-''" using cmd by (auto simp: ned_commands_def split: if_splits)
  ultimately show ?thesis using cmd by (simp add: ned_test_command ned_subparsers_def run_args_def)
qed

lemma ned_test_command_line_witness:
  "ned_test 1 ''/nso'' [''record-test'', ''--state-name=s1'', ''r1''] =
     io_then (wait_for_nso 1) (run_command 1 RecordTest (no_args\<lparr>na_state_name := ''s1'', na_device_name := ''r1''\<rparr>))"
  using ned_test_command_line [of "no_args\<lparr>na_state_name := ''s1'', na_device_name := ''r1''\<rparr>" "''record-test''" RecordTest 1 "''/nso''"]
  by (simp add: ned_commands_def)

text \<open>
  C32. No command does anything before NSO is up: when a run of the program had an effect, its arguments were parsed, the wait before it returned,
  its last question was answered with success, and until then there was none.
\<close>

theorem ned_test_waits:
  assumes "ned_test fuel cwd arguments en [] = (h, r)" and "filter effect h \<noteq> []"
  shows "\<exists>h0 args. argparse (main_parser cwd) None arguments = Inr args \<and>
     wait_for_nso fuel en [] = (h0 @ [RunCmd status_cmd None, Print ''ok\<newline>''], Ret ()) \<and>
     en_num en (h0 @ [RunCmd status_cmd None]) = 0 \<and> filter effect h0 = []"
proof -
  from assms obtain args where "argparse (main_parser cwd) None arguments = Inr args" "run_args fuel args en [] = (h, r)"
    by (auto simp: ned_test_def io_raise_def split: if_splits sum.splits)
  with run_args_waits [OF this(2) assms(2)] show ?thesis by blast
qed

lemma cleanup_calm: "filter effect (fst (ned_test 1 ''/nso'' [''cleanup'', ''r1''] calm [])) \<noteq> []"
  by code_simp

lemma ned_test_waits_witness:
  "\<exists>h0. wait_for_nso 1 calm [] = (h0 @ [RunCmd status_cmd None, Print ''ok\<newline>''], Ret ())"
  using ned_test_waits [OF prod.collapse [symmetric] cleanup_calm] by auto

end
