(* ===== verification/Check_Build.thy ===== *)
theory Check_Build
  imports Py_World Py_Text
begin

text \<open>
  The action of \<open>confd-nso-interop/router_nso/check-build.py\<close> that waits until no module of a project is pending: it saves the
  status of the modules through a stream, looks for a text in it, and tries again after a second. The environment answers
  every call; what the socket gives is a text of octets. The loops take fuel.
\<close>

section \<open>The program\<close>

datatype save_flag = CONFIG_XML_PRETTY | CONFIG_WITH_OPER | CONFIG_UNHIDE_ALL

datatype build_event =
    LoadSchemas
  | BeginRead string string
  | EndRead
  | SaveConfig "save_flag list" string
  | NewStreamSocket
  | StreamConnect nat string
  | Recv nat
  | CloseStream
  | PauseSeconds nat
  | RegisterAction string
  | LogInfo string
  | StartDaemon
  | WaitSignal
  | FinishDaemon

type_synonym 'a build_prog = "(build_event, 'a) io"

text \<open>
  \<open>recv_all_and_close\<close>: every segment is decoded by itself. A stream that never ends is the end of the fuel.
\<close>

fun recv_all_and_close :: "nat \<Rightarrow> ustr \<Rightarrow> ustr build_prog" where
  "recv_all_and_close 0 received = io_running"
| "recv_all_and_close (Suc fuel) received =
     io_bind (ask en_str (Recv 4096)) (\<lambda>buf.
       if buf \<noteq> [] then
         (case utf8_decode buf of
            None \<Rightarrow> io_raise UnicodeDecodeError
          | Some s \<Rightarrow> recv_all_and_close fuel (received @ s))
       else io_then (call CloseStream) (io_ret received))"

definition read_config :: "nat \<Rightarrow> string \<Rightarrow> ustr build_prog" where
  "read_config fuel path =
     io_bind (ask en_num (SaveConfig [CONFIG_XML_PRETTY, CONFIG_WITH_OPER, CONFIG_UNHIDE_ALL] path)) (\<lambda>c_id.
     io_then (call NewStreamSocket)
    (io_then (call (StreamConnect c_id ''127.0.0.1'')) (recv_all_and_close fuel [])))"

definition status_path :: string where
  "status_path = ''/netconf-ned-builder/project{router 1.0}/module/status''"

text \<open>\<open>xml_str.find("selected pending") != -1\<close>.\<close>

definition contains :: "ustr \<Rightarrow> ustr \<Rightarrow> bool" where
  "contains p s \<longleftrightarrow> list_ex (\<lambda>i. take (length p) (drop i s) = p) [0..<Suc (length s)]"

definition pending :: "ustr \<Rightarrow> bool" where
  "pending doc \<longleftrightarrow> contains (u ''selected pending'') doc"

text \<open>The pause is inside the read transaction.\<close>

fun wait_for_pending :: "nat \<Rightarrow> unit build_prog" where
  "wait_for_pending 0 = io_running"
| "wait_for_pending (Suc fuel) =
     io_bind (io_with (BeginRead ''admin'' ''admin'') EndRead
       (io_bind (read_config (Suc fuel) status_path) (\<lambda>doc.
          if pending doc then io_then (call (PauseSeconds 1)) (io_ret True) else io_ret False))) (\<lambda>again.
     if again then wait_for_pending fuel else io_ret ())"

definition check_build_main :: "unit build_prog" where
  "check_build_main =
     calls [LoadSchemas, RegisterAction ''wait-for-pending'', LogInfo ''--- Daemon myaction STARTED ---'', StartDaemon, WaitSignal,
            FinishDaemon, LogInfo ''--- Daemon myaction FINISHED ---'']"

section \<open>Lemmas\<close>

text \<open>A scripted environment: no call fails, and the \<open>k\<close>-th answer of the socket is the \<open>k\<close>-th segment.\<close>

fun is_recv :: "build_event \<Rightarrow> bool" where
  "is_recv (Recv _) = True"
| "is_recv _ = False"

definition scripted :: "bytes list \<Rightarrow> build_event env \<Rightarrow> bool" where
  "scripted segs en \<longleftrightarrow>
     (\<forall>h. en_fail en h = None) \<and>
     (\<forall>h. is_recv (last h) \<and> h \<noteq> [] \<longrightarrow>
        en_str en h = (let k = length (filter is_recv h) - 1 in if k < length segs then segs ! k else []))"

text \<open>What the socket gives for one status after another: the segments of each, and then the end of the stream.\<close>

definition poll_script :: "bytes list list \<Rightarrow> bytes list" where
  "poll_script polls = concat (map (\<lambda>segs. segs @ [[]]) polls)"

lemma scripted_ask:
  assumes "scripted script en" and "length (filter is_recv h) = k" and "k < length script"
  shows "ask en_str (Recv n) en h = (h @ [Recv n], Ret (script ! k))"
  using assms by (simp add: ask_def scripted_def)

lemma scripted_call: "scripted script en \<Longrightarrow> call e en h = (h @ [e], Ret ())"
  by (simp add: call_def ask_def scripted_def)

lemma drop_Cons: "drop k xs = y # ys \<Longrightarrow> k < length xs \<and> xs ! k = y \<and> drop (Suc k) xs = ys"
  by (metis drop_Suc drop_eq_Nil hd_drop_conv_nth linorder_not_le list.discI list.sel(1,3) tl_drop)

lemma recv_all_scripted:
  assumes "scripted script en" and "drop (length (filter is_recv h)) script = segs @ [] # later"
    and "list_all (\<lambda>s. s \<noteq> [] \<and> ascii s) segs" and "length segs < fuel"
  shows "recv_all_and_close fuel received en h =
    (h @ replicate (Suc (length segs)) (Recv 4096) @ [CloseStream], Ret (received @ u (concat segs)))"
  using assms(2-)
proof (induction segs arbitrary: fuel received h)
  case Nil
  then obtain f where f: "fuel = Suc f" by (cases fuel) auto
  from drop_Cons [of "length (filter is_recv h)" script "[]" later] Nil(1)
  show ?case
    using scripted_ask [OF assms(1) refl, of h 4096] assms(1)
    by (simp add: f io_bind_def scripted_call io_ret_def u_def)
next
  case (Cons s segs)
  then obtain f where f: "fuel = Suc f" by (cases fuel) auto
  let ?k = "length (filter is_recv h)"
  have k: "?k < length script" "script ! ?k = s" "drop (Suc ?k) script = segs @ [] # later"
    using drop_Cons [of ?k script s "segs @ [] # later"] Cons.prems(1) by auto
  have s: "s \<noteq> []" "utf8_decode s = Some (u s)" using Cons.prems(2) utf8_decode_ascii by auto
  have "recv_all_and_close f (received @ u s) en (h @ [Recv 4096]) =
      ((h @ [Recv 4096]) @ replicate (Suc (length segs)) (Recv 4096) @ [CloseStream], Ret ((received @ u s) @ u (concat segs)))"
    by (rule Cons.IH) (use k Cons.prems f in auto)
  with s k scripted_ask [OF assms(1) refl k(1), of 4096] show ?case
    by (simp add: f io_bind_def u_def)
qed

text \<open>One pass of the loop: the status is read whole, the transaction is closed, and it pauses if something is pending.\<close>

definition pass :: "nat \<Rightarrow> bool build_prog" where
  "pass fuel = io_with (BeginRead ''admin'' ''admin'') EndRead
     (io_bind (read_config fuel status_path) (\<lambda>doc.
        if pending doc then io_then (call (PauseSeconds 1)) (io_ret True) else io_ret False))"

lemma pass_scripted:
  assumes "scripted script en" and "drop (length (filter is_recv h)) script = segs @ [] # later"
    and "list_all (\<lambda>s. s \<noteq> [] \<and> ascii s) segs" and "length segs < fuel"
  shows "\<exists>h'. pass fuel en h = (h @ h', Ret (pending (u (concat segs)))) \<and> length (filter is_recv h') = Suc (length segs) \<and>
    filter (\<lambda>e. e = PauseSeconds 1 \<or> e = EndRead) h' = (if pending (u (concat segs)) then [PauseSeconds 1] else []) @ [EndRead]"
proof -
  let ?save = "SaveConfig [CONFIG_XML_PRETTY, CONFIG_WITH_OPER, CONFIG_UNHIDE_ALL] status_path"
  let ?h1 = "h @ [BeginRead ''admin'' ''admin'', ?save]"
  define c_id where "c_id = en_num en ?h1"
  let ?h2 = "?h1 @ [NewStreamSocket, StreamConnect c_id ''127.0.0.1'']"
  have recv: "recv_all_and_close fuel [] en ?h2 =
      (?h2 @ replicate (Suc (length segs)) (Recv 4096) @ [CloseStream], Ret ([] @ u (concat segs)))"
    by (rule recv_all_scripted [OF assms(1) _ assms(3,4)]) (use assms(2) in simp)
  have ask: "ask en_num ?save en (h @ [BeginRead ''admin'' ''admin'']) = (?h1, Ret c_id)"
    using assms(1) by (simp add: ask_def scripted_def c_id_def)
  have "read_config fuel status_path en (h @ [BeginRead ''admin'' ''admin'']) =
      (?h2 @ replicate (Suc (length segs)) (Recv 4096) @ [CloseStream], Ret (u (concat segs)))"
    using ask recv by (simp add: read_config_def io_bind_def scripted_call [OF assms(1)])
  then show ?thesis
    by (simp add: pass_def io_with_def io_bind_def scripted_call [OF assms(1)] io_ret_def)
qed

lemma wait_for_pending_pass:
  "wait_for_pending (Suc fuel) = io_bind (pass (Suc fuel)) (\<lambda>again. if again then wait_for_pending fuel else io_ret ())"
  by (simp add: pass_def)

lemma wait_for_pending_polls:
  assumes "scripted script en" and "drop (length (filter is_recv h)) script = poll_script (polls @ [final])"
    and "list_all (\<lambda>segs. pending (u (concat segs))) polls" and "\<not> pending (u (concat final))"
    and "list_all (\<lambda>segs. list_all (\<lambda>s. s \<noteq> [] \<and> ascii s) segs \<and> length segs + length polls < fuel) (polls @ [final])"
  shows "\<exists>h'. wait_for_pending fuel en h = (h @ h', Ret ()) \<and>
    filter (\<lambda>e. e = PauseSeconds 1 \<or> e = EndRead) h' = concat (replicate (length polls) [PauseSeconds 1, EndRead]) @ [EndRead]"
  using assms(2-)
proof (induction polls arbitrary: fuel h)
  case Nil
  then obtain f where f: "fuel = Suc f" by (cases fuel) auto
  obtain h' where h': "pass fuel en h = (h @ h', Ret False)" "filter (\<lambda>e. e = PauseSeconds 1 \<or> e = EndRead) h' = [EndRead]"
    using pass_scripted [OF assms(1), of h final "[]" fuel] Nil by (auto simp: poll_script_def)
  then have "wait_for_pending fuel en h = (h @ h', Ret ())"
    unfolding f wait_for_pending_pass by (simp add: io_bind_def io_ret_def)
  with h'(2) show ?case by simp
next
  case (Cons segs polls)
  then obtain f where f: "fuel = Suc f" by (cases fuel) auto
  obtain h1 where h1: "pass fuel en h = (h @ h1, Ret True)" "length (filter is_recv h1) = Suc (length segs)"
      "filter (\<lambda>e. e = PauseSeconds 1 \<or> e = EndRead) h1 = [PauseSeconds 1, EndRead]"
    using pass_scripted [OF assms(1), of h segs "poll_script (polls @ [final])" fuel] Cons.prems by (auto simp: poll_script_def)
  have "drop (length (filter is_recv (h @ h1))) script =
      drop (Suc (length segs)) (drop (length (filter is_recv h)) script)"
    using h1(2) by (simp add: add.commute)
  also have "\<dots> = poll_script (polls @ [final])" unfolding Cons.prems(1) by (simp add: poll_script_def)
  finally have d: "drop (length (filter is_recv (h @ h1))) script = poll_script (polls @ [final])" .
  have "list_all (\<lambda>segs. list_all (\<lambda>s. s \<noteq> [] \<and> ascii s) segs \<and> length segs + length polls < f) (polls @ [final])"
    using Cons.prems(4) f by (auto simp: list_all_iff)
  then obtain h2 where h2: "wait_for_pending f en (h @ h1) = ((h @ h1) @ h2, Ret ())"
      "filter (\<lambda>e. e = PauseSeconds 1 \<or> e = EndRead) h2 = concat (replicate (length polls) [PauseSeconds 1, EndRead]) @ [EndRead]"
    using Cons.IH [OF d _ Cons.prems(3)] Cons.prems(2) by auto
  have "wait_for_pending fuel en h = (h @ h1 @ h2, Ret ())"
    using h1(1) h2(1) unfolding f wait_for_pending_pass by (simp add: io_bind_def)
  with h1(3) h2(2) show ?case by (intro exI [of _ "h1 @ h2"]) simp
qed

section \<open>Correctness\<close>


definition script_env :: "bytes list \<Rightarrow> build_event env" where
  "script_env segs = \<lparr>en_fail = (\<lambda>_. None), en_bool = (\<lambda>_. True), en_num = (\<lambda>_. 7),
     en_str = (\<lambda>h. let k = length (filter is_recv h) - 1 in if k < length segs then segs ! k else [])\<rparr>"

lemma scripted_env: "scripted segs (script_env segs)"
  by (simp add: scripted_def script_env_def)


text \<open>A character that the socket splits between two segments ends the action with an exception.\<close>

theorem split_character_raises:
  "snd (wait_for_pending 9 (script_env [[CHR 0xC3], [CHR 0xA9], []]) []) = Raise UnicodeDecodeError"
  by code_simp

end
