(* ===== verification/Gnmi_Main.thy ===== *)
theory Gnmi_Main
  imports Py_World Py_Argparse Gnmi_Server
begin

text \<open>
  The start of the gNMI server (\<open>serve\<close> and the main program of \<open>confd_gnmi_server.py\<close>, with the options that it shares with the client
  in \<open>confd_gnmi_common.py\<close> and the debug level of \<open>confd_gnmi_api_adapter.py\<close>) as a program over an environment: the calls are those
  of the adapter classes, of gRPC, of the logging module and of the file system. The arguments of the program are parsed by \<open>argparse\<close>.
\<close>

section \<open>Options\<close>

text \<open>An option without a type stays a text when it is given, whatever the type of its default.\<close>

datatype opt_value = OptInt int | OptStr string

definition PORT :: int where "PORT = 50061"

record server_options =
  so_type :: string
  so_logging :: string
  so_insecure :: bool
  so_port :: int
  so_host :: string
  so_confd_debug :: string
  so_confd_addr :: string
  so_confd_port :: opt_value
  so_monitor :: bool
  so_external_port :: int
  so_cfg :: "string option"
  so_key :: string
  so_crt :: string

definition default_server_options :: server_options where
  "default_server_options =
     \<lparr>so_type = ''demo'', so_logging = ''warning'', so_insecure = False, so_port = PORT, so_host = ''localhost'',
      so_confd_debug = ''debug'', so_confd_addr = ''127.0.0.1'', so_confd_port = OptInt 4565, so_monitor = False,
      so_external_port = 5055, so_cfg = None, so_key = ''server.key'', so_crt = ''server.crt''\<rparr>"

text \<open>The options that the server shares with the client, for the fields of either namespace.\<close>

definition log_levels :: "string list" where
  "log_levels = [''error'', ''warning'', ''info'', ''debug'']"

definition common_optparse_options ::
  "(string \<Rightarrow> 'v \<Rightarrow> 'v) \<Rightarrow> ('v \<Rightarrow> 'v) \<Rightarrow> (int \<Rightarrow> 'v \<Rightarrow> 'v) \<Rightarrow> (string \<Rightarrow> 'v \<Rightarrow> 'v) \<Rightarrow> 'v arg_option list" where
  "common_optparse_options set_logging set_insecure set_port set_host =
     [opt_arg [''--logging''] (ArgStore (as_choice log_levels set_logging)),
      opt_arg [''--insecure''] (ArgConst set_insecure),
      opt_arg [''--port''] (ArgStore (as_int set_port)),
      opt_arg [''--host''] (ArgStore (as_text set_host))]"

definition server_common :: "server_options arg_option list" where
  "server_common = common_optparse_options (\<lambda>s r. r\<lparr>so_logging := s\<rparr>) (\<lambda>r. r\<lparr>so_insecure := True\<rparr>) (\<lambda>i r. r\<lparr>so_port := i\<rparr>)
     (\<lambda>s r. r\<lparr>so_host := s\<rparr>)"

definition server_parser :: "server_options arg_parser" where
  "server_parser = argument_parser
     ([opt_arg [''-v'', ''--version''] ArgExit,
       opt_arg [''-t'', ''--type''] (ArgStore (as_choice [''api'', ''demo''] (\<lambda>s r. r\<lparr>so_type := s\<rparr>)))] @
      server_common @
      [opt_arg [''-d'', ''--confd-debug''] (ArgStore (as_choice [''trace'', ''debug'', ''silent'', ''proto''] (\<lambda>s r. r\<lparr>so_confd_debug := s\<rparr>))),
       opt_arg [''--confd-addr''] (ArgStore (as_text (\<lambda>s r. r\<lparr>so_confd_addr := s\<rparr>))),
       opt_arg [''--confd-port''] (ArgStore (as_text (\<lambda>s r. r\<lparr>so_confd_port := OptStr s\<rparr>))),
       opt_arg [''--monitor-external-changes''] (ArgConst (\<lambda>r. r\<lparr>so_monitor := True\<rparr>)),
       opt_arg [''--external-port''] (ArgStore (as_int (\<lambda>i r. r\<lparr>so_external_port := i\<rparr>))),
       opt_arg [''--cfg''] (ArgStore (as_text (\<lambda>s r. r\<lparr>so_cfg := Some s\<rparr>))),
       opt_arg [''--key''] (ArgStore (as_text (\<lambda>s r. r\<lparr>so_key := s\<rparr>))),
       opt_arg [''--crt''] (ArgStore (as_text (\<lambda>s r. r\<lparr>so_crt := s\<rparr>)))])
     None"

definition parse_args :: "string list \<Rightarrow> server_options result" where
  "parse_args args = argparse server_parser default_server_options args"

section \<open>Calls\<close>

datatype log_level = ERROR | WARNING | INFO | DEBUG

datatype debug_level = CONFD_DEBUG | CONFD_TRACE | CONFD_PROTO_TRACE | CONFD_SILENT

datatype server_event =
    SetLevel log_level
  | BasicConfig "log_level option"
  | SetDebug debug_level
  | SetConfdAddr string
  | SetConfdPort opt_value
  | SetExternalPort int
  | SetMonitor bool
  | ReadFile string
  | LoadConfigString string
  | NewServer nat
  | AddServicer adapter_type
  | AddInsecurePort string
  | AddSecurePort string "(string \<times> string) list"
  | StartServer
  | WaitForTermination

definition set_logging_level :: "log_level option \<Rightarrow> (server_event, unit) io" where
  "set_logging_level level = calls ((case level of Some l \<Rightarrow> [SetLevel l] | None \<Rightarrow> []) @ [BasicConfig level])"

definition common_optparse_process :: "server_options \<Rightarrow> (server_event, unit) io" where
  "common_optparse_process opt =
     set_logging_level
       (if so_logging opt = ''error'' then Some ERROR else if so_logging opt = ''warning'' then Some WARNING
        else if so_logging opt = ''info'' then Some INFO else if so_logging opt = ''debug'' then Some DEBUG else None)"

definition set_confd_debug_level :: "string \<Rightarrow> (server_event, unit) io" where
  "set_confd_debug_level level =
     call (SetDebug
       (if level = ''debug'' then CONFD_DEBUG else if level = ''trace'' then CONFD_TRACE
        else if level = ''proto'' then CONFD_PROTO_TRACE else if level = ''silent'' then CONFD_SILENT else CONFD_TRACE))"

definition listen_addr :: "int \<Rightarrow> string" where
  "listen_addr port = ''[::]:'' @ int_str port"

definition serve :: "int \<Rightarrow> adapter_type \<Rightarrow> bool \<Rightarrow> string option \<Rightarrow> string option \<Rightarrow> (server_event, unit) io" where
  "serve port adapter_type insecure key_file crt_file =
     io_then (calls [NewServer 10, AddServicer adapter_type])
    (io_then
      (if insecure then call (AddInsecurePort (listen_addr port))
       else
         (case (key_file, crt_file) of
            (Some kf, Some cf) \<Rightarrow>
              io_bind (ask en_str (ReadFile kf)) (\<lambda>key. io_bind (ask en_str (ReadFile cf)) (\<lambda>crt.
                call (AddSecurePort (listen_addr port) [(key, crt)])))
          | _ \<Rightarrow> io_raise AssertionError))
      (call StartServer))"

text \<open>The settings of the adapter class, which come before the server.\<close>

definition adapter_settings :: "server_options \<Rightarrow> (server_event, adapter_type) io" where
  "adapter_settings opt =
     (if so_type opt = ''api'' then
        io_then (set_confd_debug_level (so_confd_debug opt))
       (io_then (calls [SetConfdAddr (so_confd_addr opt), SetConfdPort (so_confd_port opt),
                        SetExternalPort (so_external_port opt), SetMonitor (so_monitor opt)])
         (io_ret TYPE_API))
      else if so_type opt = ''demo'' then
        (case so_cfg opt of
           Some (c # cs) \<Rightarrow> io_bind (ask en_str (ReadFile (c # cs))) (\<lambda>cfg. io_then (call (LoadConfigString cfg)) (io_ret TYPE_DEMO))
         | _ \<Rightarrow> io_ret TYPE_DEMO)
      else io_ret TYPE_DEMO)"

definition server_run :: "server_options \<Rightarrow> (server_event, unit) io" where
  "server_run opt =
     io_then (common_optparse_process opt)
    (io_bind (adapter_settings opt) (\<lambda>adapter_type.
     io_then (serve PORT adapter_type (so_insecure opt) (Some (so_key opt)) (Some (so_crt opt)))
       (io_except (call WaitForTermination) KeyboardInterrupt (io_ret ()))))"

definition server_main :: "string list \<Rightarrow> (server_event, unit) io" where
  "server_main args = (case parse_args args of Inl e \<Rightarrow> io_raise e | Inr opt \<Rightarrow> server_run opt)"

section \<open>The options of a command line\<close>

text \<open>What the parser gives has only values of its choices.\<close>

definition choices_ok :: "server_options \<Rightarrow> bool" where
  "choices_ok opt \<longleftrightarrow> so_type opt \<in> {''api'', ''demo''} \<and> so_logging opt \<in> set log_levels \<and>
     so_confd_debug opt \<in> {''trace'', ''debug'', ''silent'', ''proto''}"

lemmas server_parser_defs = server_parser_def server_common_def common_optparse_options_def argument_parser_def opt_arg_def

lemma parse_args_choices: "parse_args args = Inr opt \<Longrightarrow> choices_ok opt"
  unfolding parse_args_def
  by (erule argparse_keeps [rotated -1]) (auto simp: server_parser_defs choices_ok_def default_server_options_def log_levels_def intro!: keeps_int)

text \<open>The command line of given options; those without a value are left out.\<close>

definition server_items :: "server_options \<Rightarrow> opt_item list" where
  "server_items opt =
     flag_items [(so_insecure opt, LongFlag ''--insecure''), (so_monitor opt, LongFlag ''--monitor-external-changes'')] @
     [LongValue ''--type'' (so_type opt), LongValue ''--logging'' (so_logging opt), LongValue ''--port'' (int_str (so_port opt)),
      LongValue ''--host'' (so_host opt), LongValue ''--confd-debug'' (so_confd_debug opt), LongValue ''--confd-addr'' (so_confd_addr opt)] @
     (case so_confd_port opt of OptStr s \<Rightarrow> [LongValue ''--confd-port'' s] | OptInt i \<Rightarrow> []) @
     [LongValue ''--external-port'' (int_str (so_external_port opt))] @
     (case so_cfg opt of Some s \<Rightarrow> [LongValue ''--cfg'' s] | None \<Rightarrow> []) @
     [LongValue ''--key'' (so_key opt), LongValue ''--crt'' (so_crt opt)]"

lemma server_plain: "plain_strings server_parser"
  by (simp add: plain_strings_def option_actions_def server_parser_defs)

lemma server_options:
  "map_of (option_actions server_parser) ''--type'' = Some (opt_arg [''-t'', ''--type''] (ArgStore (as_choice [''api'', ''demo''] (\<lambda>s r. r\<lparr>so_type := s\<rparr>))))"
  "map_of (option_actions server_parser) ''--logging'' = Some (opt_arg [''--logging''] (ArgStore (as_choice log_levels (\<lambda>s r. r\<lparr>so_logging := s\<rparr>))))"
  "map_of (option_actions server_parser) ''--insecure'' = Some (opt_arg [''--insecure''] (ArgConst (\<lambda>r. r\<lparr>so_insecure := True\<rparr>)))"
  "map_of (option_actions server_parser) ''--port'' = Some (opt_arg [''--port''] (ArgStore (as_int (\<lambda>i r. r\<lparr>so_port := i\<rparr>))))"
  "map_of (option_actions server_parser) ''--host'' = Some (opt_arg [''--host''] (ArgStore (as_text (\<lambda>s r. r\<lparr>so_host := s\<rparr>))))"
  "map_of (option_actions server_parser) ''--confd-debug'' =
     Some (opt_arg [''-d'', ''--confd-debug''] (ArgStore (as_choice [''trace'', ''debug'', ''silent'', ''proto''] (\<lambda>s r. r\<lparr>so_confd_debug := s\<rparr>))))"
  "map_of (option_actions server_parser) ''--confd-addr'' = Some (opt_arg [''--confd-addr''] (ArgStore (as_text (\<lambda>s r. r\<lparr>so_confd_addr := s\<rparr>))))"
  "map_of (option_actions server_parser) ''--confd-port'' = Some (opt_arg [''--confd-port''] (ArgStore (as_text (\<lambda>s r. r\<lparr>so_confd_port := OptStr s\<rparr>))))"
  "map_of (option_actions server_parser) ''--monitor-external-changes'' =
     Some (opt_arg [''--monitor-external-changes''] (ArgConst (\<lambda>r. r\<lparr>so_monitor := True\<rparr>)))"
  "map_of (option_actions server_parser) ''--external-port'' = Some (opt_arg [''--external-port''] (ArgStore (as_int (\<lambda>i r. r\<lparr>so_external_port := i\<rparr>))))"
  "map_of (option_actions server_parser) ''--cfg'' = Some (opt_arg [''--cfg''] (ArgStore (as_text (\<lambda>s r. r\<lparr>so_cfg := Some s\<rparr>))))"
  "map_of (option_actions server_parser) ''--key'' = Some (opt_arg [''--key''] (ArgStore (as_text (\<lambda>s r. r\<lparr>so_key := s\<rparr>))))"
  "map_of (option_actions server_parser) ''--crt'' = Some (opt_arg [''--crt''] (ArgStore (as_text (\<lambda>s r. r\<lparr>so_crt := s\<rparr>))))"
  by (simp_all add: option_actions_def server_parser_defs)

lemma server_items_valid: "list_all (item_valid server_parser) (server_items opt)"
  by (simp add: server_items_def item_valid_def item_option_def server_options action_ok_def opt_arg_def flag_items_valid
      split: option.splits opt_value.splits del: flag_items.simps(2))

lemma server_required: "required_given server_parser its"
  by (simp add: required_given_def server_parser_defs)

lemma server_flags_run:
  "items_run server_parser (flag_items [(b, LongFlag ''--insecure''), (c, LongFlag ''--monitor-external-changes'')]) v =
     Inr (v\<lparr>so_insecure := b \<or> so_insecure v, so_monitor := c \<or> so_monitor v\<rparr>)"
  by (cases b; cases c; simp add: item_run_def action_run_def item_option_def server_options opt_arg_def)

text \<open>The parser reads the options back; the port of ConfD is a text, unless it is the default.\<close>

lemma parse_args_items:
  assumes "choices_ok opt" and "\<And>i. so_confd_port opt = OptInt i \<Longrightarrow> i = 4565"
  shows "parse_args (items_args (server_items opt)) = Inr opt"
proof -
  have "items_run server_parser (server_items opt) default_server_options = Inr opt"
    using assms
    by (cases opt) (simp add: server_items_def items_run_append server_flags_run item_run_def action_run_def item_option_def server_options opt_arg_def
      as_choice_def choices_ok_def default_server_options_def split: option.splits opt_value.splits del: flag_items.simps(2))
  then show ?thesis
    using argparse_items [OF server_plain server_items_valid [of opt], of default_server_options] server_required
    by (simp add: parse_args_def) (simp add: server_parser_defs)
qed

section \<open>Properties\<close>

fun is_setting :: "server_event \<Rightarrow> bool" where
  "is_setting (SetDebug _) = True"
| "is_setting (SetConfdAddr _) = True"
| "is_setting (SetConfdPort _) = True"
| "is_setting (SetExternalPort _) = True"
| "is_setting (SetMonitor _) = True"
| "is_setting (LoadConfigString _) = True"
| "is_setting (AddServicer _) = True"
| "is_setting StartServer = True"
| "is_setting _ = False"

text \<open>The settings that have to come before the start, for the content of the configuration file.\<close>

definition type_of_option :: "server_options \<Rightarrow> adapter_type" where
  "type_of_option opt = (if so_type opt = ''api'' then TYPE_API else TYPE_DEMO)"

definition settings :: "string \<Rightarrow> server_options \<Rightarrow> server_event list" where
  "settings cfg opt =
     (if so_type opt = ''api'' then
        [SetDebug (the (map_of [(''debug'', CONFD_DEBUG), (''trace'', CONFD_TRACE), (''proto'', CONFD_PROTO_TRACE), (''silent'', CONFD_SILENT)]
                     (so_confd_debug opt))),
         SetConfdAddr (so_confd_addr opt), SetConfdPort (so_confd_port opt), SetExternalPort (so_external_port opt),
         SetMonitor (so_monitor opt)]
      else if so_cfg opt \<in> {None, Some []} then [] else [LoadConfigString cfg])"

lemma serve_emits:
  "emits en is_setting (serve port t insecure (Some k) (Some c)) h [AddServicer t, StartServer]"
proof -
  have new: "emits en is_setting (calls [NewServer 10, AddServicer t]) h [AddServicer t]"
    using emits_calls [of en is_setting "[NewServer 10, AddServicer t]" h] by simp
  have port: "silent en is_setting (if insecure then call (AddInsecurePort a) else
         io_bind (ask en_str (ReadFile k)) (\<lambda>key. io_bind (ask en_str (ReadFile c)) (\<lambda>crt. call (AddSecurePort a [(key, crt)])))) h1"
    for a h1
    by (intro silent_intros) simp_all
  have start: "emits en is_setting (call StartServer) h1 [StartServer]" for h1
    by (rule emits_one) simp
  from emits_bind [OF new emits_silent_bind [OF port [of "listen_addr port"] start]] show ?thesis
    by (cases insecure) (simp_all add: serve_def)
qed

lemma common_silent: "silent en is_setting (common_optparse_process opt) h"
  unfolding common_optparse_process_def set_logging_level_def by (intro silent_calls) (simp split: option.splits)

lemma wait_silent: "silent en is_setting (io_except (call WaitForTermination) x (io_ret ())) h"
  by (auto simp: emits_def io_except_def call_def ask_def io_ret_def split: option.splits)

lemma adapter_settings_Ret:
  "adapter_settings opt en h = (h1, Ret t) \<Longrightarrow> t = type_of_option opt"
  by (auto simp: adapter_settings_def type_of_option_def io_bind_def io_ret_def
      split: if_splits prod.splits outcome.splits option.splits list.splits)

lemma adapter_settings_emits:
  assumes "choices_ok opt"
  shows "\<exists>cfg. emits en is_setting (adapter_settings opt) h (settings cfg opt)"
proof (cases "so_type opt = ''api''")
  case True
  let ?l = "if so_confd_debug opt = ''debug'' then CONFD_DEBUG else if so_confd_debug opt = ''trace'' then CONFD_TRACE
        else if so_confd_debug opt = ''proto'' then CONFD_PROTO_TRACE else if so_confd_debug opt = ''silent'' then CONFD_SILENT else CONFD_TRACE"
  let ?es = "[SetConfdAddr (so_confd_addr opt), SetConfdPort (so_confd_port opt), SetExternalPort (so_external_port opt),
    SetMonitor (so_monitor opt)]"
  have "settings [] opt = [SetDebug ?l] @ ?es"
    using assms True by (auto simp: choices_ok_def settings_def)
  moreover have lev: "emits en is_setting (set_confd_debug_level (so_confd_debug opt)) h [SetDebug ?l]"
    unfolding set_confd_debug_level_def by (rule emits_one) simp
  moreover have es: "emits en is_setting (io_then (calls ?es) (io_ret TYPE_API)) h1 ?es" for h1
    using emits_bind [OF emits_calls [of en is_setting ?es h1] emits_ret] by simp
  ultimately have "emits en is_setting (adapter_settings opt) h (settings [] opt)"
    using True emits_bind [OF lev es] by (simp only: adapter_settings_def if_True simp_thms)
  then show ?thesis ..
next
  case False
  with assms have demo: "so_type opt = ''demo''" by (simp add: choices_ok_def)
  show ?thesis
  proof (cases "so_cfg opt \<in> {None, Some []}")
    case True
    with demo show ?thesis by (auto simp: adapter_settings_def settings_def emits_ret)
  next
    case False
    then obtain c cs where cfg: "so_cfg opt = Some (c # cs)" by (cases "so_cfg opt"; cases "the (so_cfg opt)") auto
    have "emits en is_setting (io_then (call (LoadConfigString f)) (io_ret TYPE_DEMO)) h1 [LoadConfigString f]" for f h1
      using emits_bind [OF emits_one [of is_setting "LoadConfigString f" en h1] emits_ret] by simp
    then have "\<exists>f. emits en is_setting (io_bind (ask en_str (ReadFile (c # cs)))
        (\<lambda>cfg. io_then (call (LoadConfigString cfg)) (io_ret TYPE_DEMO))) h [LoadConfigString f]"
      by (intro emits_bind_ex [OF silent_ask]) (simp, blast)
    with demo cfg show ?thesis by (simp add: adapter_settings_def settings_def)
  qed
qed

lemma server_run_emits:
  assumes "choices_ok opt"
  shows "\<exists>cfg. emits en is_setting (server_run opt) [] (settings cfg opt @ [AddServicer (type_of_option opt), StartServer])"
proof -
  obtain h1 r1 where c: "common_optparse_process opt en [] = (h1, r1)" by (cases "common_optparse_process opt en []")
  obtain cfg where cfg: "emits en is_setting (adapter_settings opt) h1 (settings cfg opt)"
    using adapter_settings_emits [OF assms] by blast
  have "emits en is_setting (io_bind (adapter_settings opt) (\<lambda>t.
      io_then (serve PORT t (so_insecure opt) (Some (so_key opt)) (Some (so_crt opt)))
        (io_except (call WaitForTermination) KeyboardInterrupt (io_ret ())))) h1
      (settings cfg opt @ [AddServicer (type_of_option opt), StartServer])"
  proof (rule emits_bind [OF cfg])
    fix t h2
    assume "adapter_settings opt en h1 = (h2, Ret t)"
    from adapter_settings_Ret [OF this] emits_bind [OF serve_emits wait_silent]
    show "emits en is_setting (io_then (serve PORT t (so_insecure opt) (Some (so_key opt)) (Some (so_crt opt)))
        (io_except (call WaitForTermination) KeyboardInterrupt (io_ret ()))) h2 [AddServicer (type_of_option opt), StartServer]"
      by simp
  qed
  then have "emits en is_setting (server_run opt) [] (settings cfg opt @ [AddServicer (type_of_option opt), StartServer])"
    unfolding server_run_def using c by (intro emits_silent_bind [OF common_silent]) simp
  then show ?thesis ..
qed

text \<open>
  The server is started only after its adapter class has all its settings: for every command line and environment, nothing happens if the
  parser exits; otherwise what a run sets is a prefix of the settings of the chosen adapter followed by the service of its type and the
  start, and all of it if the program returns.
\<close>

theorem server_main_settings:
  assumes "server_main args en [] = (h, r)"
  shows "case parse_args args of
      Inl e \<Rightarrow> h = [] \<and> r = Raise e
    | Inr opt \<Rightarrow> \<exists>cfg. prefix (filter is_setting h) (settings cfg opt @ [AddServicer (type_of_option opt), StartServer]) \<and>
        (r = Ret () \<longrightarrow> filter is_setting h = settings cfg opt @ [AddServicer (type_of_option opt), StartServer])"
proof (cases "parse_args args")
  case (Inl e)
  with assms show ?thesis by (auto simp: server_main_def io_raise_def)
next
  case (Inr opt)
  from server_run_emits [OF parse_args_choices [OF Inr]] obtain cfg where
    "emits en is_setting (server_run opt) [] (settings cfg opt @ [AddServicer (type_of_option opt), StartServer])" by blast
  from emitsD [OF this] assms Inr show ?thesis by (auto simp: server_main_def)
qed

lemma server_main_settings_witness:
  "\<exists>cfg. filter is_setting (fst (server_main [''--type=api'', ''--insecure'']
       \<lparr>en_fail = \<lambda>_. None, en_bool = \<lambda>_. False, en_num = \<lambda>_. 0, en_str = \<lambda>_. []\<rparr> [])) =
     settings cfg (default_server_options\<lparr>so_type := ''api'', so_insecure := True\<rparr>) @ [AddServicer TYPE_API, StartServer]"
proof -
  let ?o = "default_server_options\<lparr>so_type := ''api'', so_insecure := True\<rparr>"
  let ?en = "\<lparr>en_fail = \<lambda>_. None, en_bool = \<lambda>_. False, en_num = \<lambda>_. 0, en_str = \<lambda>_. []\<rparr>"
  have parsed: "parse_args [''--type=api'', ''--insecure''] = Inr ?o" by code_simp
  have "snd (server_run ?o ?en []) = Ret ()"
    by (simp add: server_run_def default_server_options_def common_optparse_process_def set_logging_level_def
        adapter_settings_def set_confd_debug_level_def serve_def io_bind_def io_except_def call_def ask_def io_ret_def)
  then show ?thesis
    using server_main_settings [OF prod.collapse [symmetric], of "[''--type=api'', ''--insecure'']" ?en]
    by (auto simp: parsed type_of_option_def server_main_def)
qed

text \<open>
  The server with the command line of given options runs with exactly these options.
\<close>

theorem server_command_line:
  assumes "choices_ok opt" and "\<And>i. so_confd_port opt = OptInt i \<Longrightarrow> i = 4565"
  shows "server_main (items_args (server_items opt)) = server_run opt"
  using parse_args_items [OF assms] by (simp add: server_main_def)

text \<open>The options \<open>port\<close> and \<open>host\<close> have no effect: the server always listens on the port 50061.\<close>

theorem port_option_ignored: "server_run (opt\<lparr>so_port := p, so_host := a\<rparr>) = server_run opt"
  by (simp add: server_run_def common_optparse_process_def adapter_settings_def)

end
