(* ===== verification/Gnmi_Command_Line.thy ===== *)
theory Gnmi_Command_Line
  imports Gnmi_Main Gnmi_Client Gnmi_Connect
begin

text \<open>
  The command line of the gNMI client (\<open>parse_args\<close> and the main program of \<open>confd_gnmi_client.py\<close>): its namespace has the options of the operations and
  those of the connection. The delays are only tested to be numbers.
\<close>

section \<open>The parser\<close>

record client_namespace =
  cn_options :: client_options
  cn_logging :: string
  cn_insecure :: bool
  cn_port :: int
  cn_host :: string
  cn_interactive :: bool
  cn_server_crt :: "string option"

definition default_namespace :: client_namespace where
  "default_namespace = \<lparr>cn_options = default_client_options, cn_logging = ''warning'', cn_insecure = False, cn_port = PORT, cn_host = ''localhost'',
     cn_interactive = False, cn_server_crt = None\<rparr>"

definition on_options :: "(client_options \<Rightarrow> client_options) \<Rightarrow> client_namespace \<Rightarrow> client_namespace" where
  "on_options f r = r\<lparr>cn_options := f (cn_options r)\<rparr>"

definition client_common :: "client_namespace arg_option list" where
  "client_common = common_optparse_options (\<lambda>s r. r\<lparr>cn_logging := s\<rparr>) (\<lambda>r. r\<lparr>cn_insecure := True\<rparr>) (\<lambda>i r. r\<lparr>cn_port := i\<rparr>)
     (\<lambda>s r. r\<lparr>cn_host := s\<rparr>)"

text \<open>The choices of the options.\<close>

definition operations :: "string list" where
  "operations = [''capabilities'', ''set'', ''get'', ''delete'', ''subscribe'']"

definition data_types :: "string list" where
  "data_types = [''ALL'', ''CONFIG'', ''STATE'', ''OPERATIONAL'']"

definition sub_modes :: "string list" where
  "sub_modes = [''ONCE'', ''POLL'', ''STREAM'']"

definition encoding_names :: "string list" where
  "encoding_names = [''JSON'', ''JSON_IETF'']"

text \<open>The values are texts; \<open>encode\<close> gives the JSON text that is sent for one.\<close>

definition client_parser :: "(string \<Rightarrow> json_text) \<Rightarrow> client_namespace arg_parser" where
  "client_parser encode = argument_parser
     ([opt_arg [''--version''] ArgExit,
       opt_arg [''-o'', ''--oper''] (ArgStore (as_choice operations
         (\<lambda>s. on_options (\<lambda>r. r\<lparr>co_operation := s\<rparr>))))] @
      client_common @
      [opt_arg [''--prefix''] (ArgStore (as_text (\<lambda>s. on_options (\<lambda>r. r\<lparr>co_prefix := s\<rparr>)))),
       opt_arg [''-p'', ''--path''] (ArgStore (as_text (\<lambda>s. on_options (\<lambda>r. r\<lparr>co_paths := co_paths r @ [s]\<rparr>)))),
       opt_arg [''-t'', ''--data-type''] (ArgStore (as_choice data_types
         (\<lambda>s. on_options (\<lambda>r. r\<lparr>co_datatype := s\<rparr>)))),
       opt_arg [''-v'', ''--val''] (ArgStore (as_text (\<lambda>s. on_options (\<lambda>r. r\<lparr>co_vals := co_vals r @ [encode s]\<rparr>)))),
       opt_arg [''-s'', ''--sub-mode''] (ArgStore (as_choice sub_modes (\<lambda>s. on_options (\<lambda>r. r\<lparr>co_submode := s\<rparr>)))),
       opt_arg [''--poll-count''] (ArgStore (as_int (\<lambda>i. on_options (\<lambda>r. r\<lparr>co_pollcount := i\<rparr>)))),
       opt_arg [''--poll-interval''] (ArgStore as_float),
       opt_arg [''--interactive-poll''] (ArgConst (\<lambda>r. r\<lparr>cn_interactive := True\<rparr>)),
       opt_arg [''--subscription-end-delay''] (ArgStore as_float),
       opt_arg [''--read-count''] (ArgStore (as_int (\<lambda>i. on_options (\<lambda>r. r\<lparr>co_readcount := i\<rparr>)))),
       opt_arg [''--server-crt''] (ArgStore (as_text (\<lambda>s r. r\<lparr>cn_server_crt := Some s\<rparr>))),
       opt_arg [''--user''] (ArgStore (as_text (\<lambda>s. on_options (\<lambda>r. r\<lparr>co_username := s\<rparr>)))),
       opt_arg [''--password''] (ArgStore (as_text (\<lambda>s. on_options (\<lambda>r. r\<lparr>co_password := s\<rparr>)))),
       opt_arg [''--encoding''] (ArgStore (as_choice encoding_names (\<lambda>s. on_options (\<lambda>r. r\<lparr>co_encoding := s\<rparr>))))])
     None"

definition client_parse_args :: "(string \<Rightarrow> json_text) \<Rightarrow> string list \<Rightarrow> client_namespace result" where
  "client_parse_args encode args = argparse (client_parser encode) default_namespace args"

text \<open>The program, once it is connected as \<open>client_connect\<close> says.\<close>

definition client_program ::
  "(string \<Rightarrow> json_text) \<Rightarrow> (int \<Rightarrow> string) \<Rightarrow> 'w stub \<Rightarrow> string list \<Rightarrow> 'w \<Rightarrow> 'w \<times> out_line list \<times> unit result option" where
  "client_program encode show_int st args w =
     (case client_parse_args encode args of Inl e \<Rightarrow> (w, [], Some (Inl e)) | Inr ns \<Rightarrow> client_main show_int st (cn_options ns) w)"

definition client_channel :: "client_namespace \<Rightarrow> dict channel_prog" where
  "client_channel ns = client_connect (cn_host ns) (cn_port ns) None (cn_insecure ns) (cn_server_crt ns)
     (co_username (cn_options ns)) (co_password (cn_options ns))"

section \<open>Command lines of given options\<close>

definition client_choices :: "client_namespace \<Rightarrow> bool" where
  "client_choices ns \<longleftrightarrow>
     co_operation (cn_options ns) \<in> set operations \<and> cn_logging ns \<in> set log_levels \<and>
     co_datatype (cn_options ns) \<in> set data_types \<and>
     co_submode (cn_options ns) \<in> set sub_modes \<and> co_encoding (cn_options ns) \<in> set encoding_names"

lemmas client_parser_defs = client_parser_def client_common_def common_optparse_options_def argument_parser_def opt_arg_def

text \<open>What the parser gives has only values of its choices, so that the tables of the main program have them.\<close>

theorem client_args_choices: "client_parse_args encode args = Inr ns \<Longrightarrow> client_choices ns"
  unfolding client_parse_args_def
  by (erule argparse_keeps [rotated -1])
    (simp_all add: client_parser_defs client_choices_def on_options_def keeps_int,
     simp add: default_namespace_def default_client_options_def log_levels_def operations_def data_types_def sub_modes_def encoding_names_def)

definition client_items :: "string list \<Rightarrow> client_namespace \<Rightarrow> opt_item list" where
  "client_items vals ns =
     (let o' = cn_options ns
      in flag_items [(cn_insecure ns, LongFlag ''--insecure''), (cn_interactive ns, LongFlag ''--interactive-poll'')] @
         [LongValue ''--oper'' (co_operation o'), LongValue ''--logging'' (cn_logging ns), LongValue ''--port'' (int_str (cn_port ns)),
          LongValue ''--host'' (cn_host ns), LongValue ''--prefix'' (co_prefix o')] @
         map (LongValue ''--path'') (co_paths o') @ [LongValue ''--data-type'' (co_datatype o')] @ map (LongValue ''--val'') vals @
         [LongValue ''--sub-mode'' (co_submode o'), LongValue ''--poll-count'' (int_str (co_pollcount o')),
          LongValue ''--read-count'' (int_str (co_readcount o'))] @
         (case cn_server_crt ns of None \<Rightarrow> [] | Some s \<Rightarrow> [LongValue ''--server-crt'' s]) @
         [LongValue ''--user'' (co_username o'), LongValue ''--password'' (co_password o'), LongValue ''--encoding'' (co_encoding o')])"

lemma client_plain: "plain_strings (client_parser encode)"
  by (simp add: plain_strings_def option_actions_def client_parser_defs)

lemma client_opts:
  "map_of (option_actions (client_parser encode)) ''--oper'' = Some (opt_arg [''-o'', ''--oper''] (ArgStore (as_choice operations (\<lambda>s. on_options (\<lambda>r. r\<lparr>co_operation := s\<rparr>)))))"
  "map_of (option_actions (client_parser encode)) ''--prefix'' = Some (opt_arg [''--prefix''] (ArgStore (as_text (\<lambda>s. on_options (\<lambda>r. r\<lparr>co_prefix := s\<rparr>)))))"
  "map_of (option_actions (client_parser encode)) ''--path'' = Some (opt_arg [''-p'', ''--path''] (ArgStore (as_text (\<lambda>s. on_options (\<lambda>r. r\<lparr>co_paths := co_paths r @ [s]\<rparr>)))))"
  "map_of (option_actions (client_parser encode)) ''--data-type'' = Some (opt_arg [''-t'', ''--data-type''] (ArgStore (as_choice data_types (\<lambda>s. on_options (\<lambda>r. r\<lparr>co_datatype := s\<rparr>)))))"
  "map_of (option_actions (client_parser encode)) ''--val'' = Some (opt_arg [''-v'', ''--val''] (ArgStore (as_text (\<lambda>s. on_options (\<lambda>r. r\<lparr>co_vals := co_vals r @ [encode s]\<rparr>)))))"
  "map_of (option_actions (client_parser encode)) ''--sub-mode'' = Some (opt_arg [''-s'', ''--sub-mode''] (ArgStore (as_choice sub_modes (\<lambda>s. on_options (\<lambda>r. r\<lparr>co_submode := s\<rparr>)))))"
  "map_of (option_actions (client_parser encode)) ''--poll-count'' = Some (opt_arg [''--poll-count''] (ArgStore (as_int (\<lambda>i. on_options (\<lambda>r. r\<lparr>co_pollcount := i\<rparr>)))))"
  "map_of (option_actions (client_parser encode)) ''--poll-interval'' = Some (opt_arg [''--poll-interval''] (ArgStore as_float))"
  "map_of (option_actions (client_parser encode)) ''--interactive-poll'' = Some (opt_arg [''--interactive-poll''] (ArgConst (\<lambda>r. r\<lparr>cn_interactive := True\<rparr>)))"
  "map_of (option_actions (client_parser encode)) ''--subscription-end-delay'' = Some (opt_arg [''--subscription-end-delay''] (ArgStore as_float))"
  "map_of (option_actions (client_parser encode)) ''--read-count'' = Some (opt_arg [''--read-count''] (ArgStore (as_int (\<lambda>i. on_options (\<lambda>r. r\<lparr>co_readcount := i\<rparr>)))))"
  "map_of (option_actions (client_parser encode)) ''--server-crt'' = Some (opt_arg [''--server-crt''] (ArgStore (as_text (\<lambda>s r. r\<lparr>cn_server_crt := Some s\<rparr>))))"
  "map_of (option_actions (client_parser encode)) ''--user'' = Some (opt_arg [''--user''] (ArgStore (as_text (\<lambda>s. on_options (\<lambda>r. r\<lparr>co_username := s\<rparr>)))))"
  "map_of (option_actions (client_parser encode)) ''--password'' = Some (opt_arg [''--password''] (ArgStore (as_text (\<lambda>s. on_options (\<lambda>r. r\<lparr>co_password := s\<rparr>)))))"
  "map_of (option_actions (client_parser encode)) ''--encoding'' = Some (opt_arg [''--encoding''] (ArgStore (as_choice encoding_names (\<lambda>s. on_options (\<lambda>r. r\<lparr>co_encoding := s\<rparr>)))))"
  "map_of (option_actions (client_parser encode)) ''--logging'' = Some (opt_arg [''--logging''] (ArgStore (as_choice log_levels (\<lambda>s r. r\<lparr>cn_logging := s\<rparr>))))"
  "map_of (option_actions (client_parser encode)) ''--insecure'' = Some (opt_arg [''--insecure''] (ArgConst (\<lambda>r. r\<lparr>cn_insecure := True\<rparr>)))"
  "map_of (option_actions (client_parser encode)) ''--port'' = Some (opt_arg [''--port''] (ArgStore (as_int (\<lambda>i r. r\<lparr>cn_port := i\<rparr>))))"
  "map_of (option_actions (client_parser encode)) ''--host'' = Some (opt_arg [''--host''] (ArgStore (as_text (\<lambda>s r. r\<lparr>cn_host := s\<rparr>))))"
  by (simp_all add: option_actions_def client_parser_defs)

lemmas client_item_simps = item_option_def client_opts opt_arg_def

lemma client_items_valid: "list_all (item_valid (client_parser encode)) (client_items vals ns)"
  by (cases "cn_server_crt ns")
    (simp_all add: client_items_def Let_def item_valid_def client_item_simps action_ok_def flag_items_valid list.pred_map comp_def list.pred_True)

lemma client_flags_run:
  "items_run (client_parser encode) (flag_items [(b, LongFlag ''--insecure''), (c, LongFlag ''--interactive-poll'')]) v =
     Inr (v\<lparr>cn_insecure := b \<or> cn_insecure v, cn_interactive := c \<or> cn_interactive v\<rparr>)"
  by (cases b; cases c; simp add: item_run_def action_run_def client_item_simps)

lemma client_paths_run:
  "items_run (client_parser encode) (map (LongValue ''--path'') ps) v = Inr (on_options (\<lambda>r. r\<lparr>co_paths := co_paths r @ ps\<rparr>) v)"
  by (induction ps arbitrary: v) (simp_all add: item_run_def action_run_def client_item_simps on_options_def)

lemma client_vals_run:
  "items_run (client_parser encode) (map (LongValue ''--val'') vs) v = Inr (on_options (\<lambda>r. r\<lparr>co_vals := co_vals r @ map encode vs\<rparr>) v)"
  by (induction vs arbitrary: v) (simp_all add: item_run_def action_run_def client_item_simps on_options_def)

lemma client_items_run:
  assumes "client_choices ns" and "co_vals (cn_options ns) = map encode vals"
  shows "items_run (client_parser encode) (client_items vals ns) default_namespace = Inr ns"
proof (cases ns)
  case (fields opts logging insecure port host interactive crt)
  show ?thesis
    using assms unfolding fields
    by (cases opts) (simp add: client_items_def Let_def items_run_append client_flags_run client_paths_run client_vals_run item_run_def action_run_def
      client_item_simps as_choice_def client_choices_def default_namespace_def default_client_options_def on_options_def
      split: option.splits del: flag_items.simps(2))
qed


definition example_namespace :: client_namespace where
  "example_namespace = default_namespace\<lparr>cn_options := default_client_options\<lparr>co_operation := ''get'', co_paths := [''/a'', ''/b'']\<rparr>\<rparr>"


end
