(* ===== verification/Yang_Symlinks.thy ===== *)
theory Yang_Symlinks
  imports Py_Prelude
begin

text \<open>
  The pyang plugin \<open>symlink/origin/symlinks.py\<close>, which replaces symbolic links in YANG modules by copies of their targets. A statement
  is a keyword, an argument and substatements; the functions of pyang that the plugin calls are the record \<open>pyang\<close>. This
  theory has the operations on values: an operation returns the new statement, and what it changes in the module of the
  target is the state of the groupings. The plugin itself changes statement objects in place: that is the theory
  \<open>Yang_Symlink_Store\<close>, which is shown to implement the functions of this one.
\<close>

section \<open>Statements\<close>

datatype keyword = Kw string | Ext string string

datatype stmt = Stmt (st_keyword: keyword) (st_arg: string) (st_substmts: "stmt list")

text \<open>
  The library: which keywords define data, the search of a substatement by keyword and optionally argument, the tokens of
  an XPath expression with their types, and copying a statement with a callback for every copy, which gets the keyword of the parent.
\<close>

record pyang =
  pg_data_keyword :: "keyword \<Rightarrow> bool"
  pg_search_one :: "stmt \<Rightarrow> keyword \<Rightarrow> string option \<Rightarrow> stmt option"
  pg_scan :: "string \<Rightarrow> (string \<times> string) list"
  pg_copy :: "(keyword \<Rightarrow> keyword \<Rightarrow> string \<Rightarrow> string result) \<Rightarrow> keyword \<Rightarrow> stmt \<Rightarrow> stmt result"

definition tailf :: string where "tailf = ''tailf-common''"

definition arg_of :: "stmt option \<Rightarrow> string result" where
  "arg_of s = (case s of None \<Rightarrow> Inl AttributeError | Some st \<Rightarrow> Inr (st_arg st))"

definition module_prefix :: "pyang \<Rightarrow> stmt \<Rightarrow> string \<Rightarrow> string result" where
  "module_prefix pg module import_name =
     (case (if st_arg module = import_name then Some module else pg_search_one pg module (Kw ''import'') (Some import_name)) of
        None \<Rightarrow> Inl AttributeError
      | Some impmod \<Rightarrow> arg_of (pg_search_one pg impmod (Kw ''prefix'') None))"

section \<open>Links\<close>

fun can_use_link :: "pyang \<Rightarrow> stmt \<Rightarrow> bool" where
  "can_use_link pg (Stmt kw arg subs) =
     (if kw \<in> {Kw ''list'', Kw ''choice'', Kw ''uses''} \<or>
         kw = Kw ''container'' \<and> pg_search_one pg (Stmt kw arg subs) (Kw ''presence'') None \<noteq> None
      then False
      else list_all (\<lambda>s. \<not> pg_data_keyword pg (st_keyword s) \<or> can_use_link pg s) subs)"

text \<open>The prefix of the extension module in the module of the link, which is looked up at every leaf.\<close>

definition sub_path :: "string \<Rightarrow> string \<Rightarrow> stmt \<Rightarrow> string" where
  "sub_path path pfx s = path @ ''/'' @ pfx @ '':'' @ st_arg s"

fun add_links :: "pyang \<Rightarrow> string result \<Rightarrow> string \<Rightarrow> string \<Rightarrow> stmt \<Rightarrow> stmt result" where
  "add_links pg tf path pfx (Stmt kw arg subs) =
     (if kw \<in> {Kw ''leaf'', Kw ''leaf-list''} then
        rbind tf (\<lambda>t. Inr (Stmt kw arg (subs @ [Stmt (Ext t ''link'') path []])))
      else
        rbind (map_result (\<lambda>s. if pg_data_keyword pg (st_keyword s) then add_links pg tf (sub_path path pfx s) pfx s else Inr s) subs)
          (\<lambda>subs'. Inr (Stmt kw arg subs')))"

section \<open>Expressions\<close>

definition fix_tokens :: "string \<Rightarrow> (string \<times> string) list \<Rightarrow> string" where
  "fix_tokens pfx toks =
     concat (map (\<lambda>(ty, v). if ty \<noteq> ''name'' \<or> CHR '':'' \<in> set v then v else pfx @ '':'' @ v) toks)"

definition fix_xpaths :: "pyang \<Rightarrow> stmt \<Rightarrow> keyword \<Rightarrow> keyword \<Rightarrow> string \<Rightarrow> string result" where
  "fix_xpaths pg topm parent_kw kw arg =
     (if kw = Kw ''path'' \<and> parent_kw = Kw ''type'' \<or> kw \<in> {Kw ''must'', Kw ''when''} then
        rbind (arg_of (pg_search_one pg topm (Kw ''prefix'') None)) (\<lambda>pfx. Inr (fix_tokens pfx (pg_scan pg arg)))
      else Inr arg)"

section \<open>Replacing a link\<close>

definition add_transform_callpoint :: "pyang \<Rightarrow> stmt \<Rightarrow> stmt \<Rightarrow> stmt result" where
  "add_transform_callpoint pg topm parent =
     rbind (module_prefix pg topm tailf) (\<lambda>tf_prefix.
       Inr (Stmt (st_keyword parent) (st_arg parent)
         (Stmt (Ext tf_prefix ''callpoint'') ''symlink-transform'' [Stmt (Ext tf_prefix ''transform'') ''true'' []] #
          st_substmts parent)))"

text \<open>
  A target with the identities of its statement object and of its module. The dictionary of the groupings that were made compares
  identities; what is appended to the modules of the targets is kept with the identity of the module.
\<close>

record target =
  tg_id :: nat
  tg_stmt :: stmt
  tg_top_id :: nat
  tg_top :: stmt

record groups =
  gr_names :: "(nat \<times> string) list"
  gr_appended :: "(nat \<times> stmt) list"

definition group_name :: "stmt \<Rightarrow> string" where
  "group_name s = st_arg s @ ''-symlink-group''"

definition introduce_grouping :: "pyang \<Rightarrow> target \<Rightarrow> groups \<Rightarrow> (string \<times> groups) result" where
  "introduce_grouping pg tg g =
     (case map_of (gr_names g) (tg_id tg) of
        Some name \<Rightarrow> Inr (name, g)
      | None \<Rightarrow>
          (let name = group_name (tg_stmt tg)
           in rbind (pg_copy pg (fix_xpaths pg (tg_top tg)) (Kw ''grouping'') (tg_stmt tg)) (\<lambda>contents.
                Inr (name, g\<lparr>gr_names := gr_names g @ [(tg_id tg, name)],
                            gr_appended := gr_appended g @ [(tg_top_id tg, Stmt (Kw ''grouping'') name [contents])]\<rparr>))))"

definition do_replace_symlink ::
  "pyang \<Rightarrow> bool \<Rightarrow> (string \<Rightarrow> target result) \<Rightarrow> stmt \<Rightarrow> keyword \<Rightarrow> stmt \<Rightarrow> groups \<Rightarrow> (stmt \<times> groups) result" where
  "do_replace_symlink pg no_groups find_target topm parent_kw symlink g =
     (case pg_search_one pg symlink (Ext tailf ''path'') None of
        None \<Rightarrow> Inl AssertionError
      | Some path \<Rightarrow>
          rbind (find_target (st_arg path)) (\<lambda>tg.
          rbind (module_prefix pg topm (st_arg (tg_top tg))) (\<lambda>target_prefix.
          if can_use_link pg (tg_stmt tg) then
            rbind (pg_copy pg (fix_xpaths pg (tg_top tg)) parent_kw (tg_stmt tg)) (\<lambda>new.
            rbind (add_links pg (module_prefix pg topm tailf) (st_arg path) target_prefix
                     (Stmt (st_keyword new) (st_arg symlink) (st_substmts new))) (\<lambda>new'. Inr (new', g)))
          else if no_groups then
            rbind (pg_copy pg (fix_xpaths pg (tg_top tg)) parent_kw (tg_stmt tg)) (\<lambda>new.
            rbind (add_transform_callpoint pg topm (Stmt (st_keyword new) (st_arg symlink) (st_substmts new))) (\<lambda>new'. Inr (new', g)))
          else
            rbind (introduce_grouping pg tg g) (\<lambda>(group_name, g').
            rbind (add_transform_callpoint pg topm (Stmt (Kw ''refine'') (st_arg (tg_stmt tg)) [])) (\<lambda>refine.
              Inr (Stmt (Kw ''uses'') (target_prefix @ '':'' @ group_name) [refine], g'))))))"

text \<open>The replacement in a whole module, from the first substatement to the last.\<close>

fun map_state :: "('a \<Rightarrow> 'g \<Rightarrow> ('b \<times> 'g) result) \<Rightarrow> 'a list \<Rightarrow> 'g \<Rightarrow> ('b list \<times> 'g) result" where
  "map_state f [] g = Inr ([], g)"
| "map_state f (x # xs) g = rbind (f x g) (\<lambda>(y, g1). rbind (map_state f xs g1) (\<lambda>(ys, g2). Inr (y # ys, g2)))"

lemma map_state_cong [fundef_cong]:
  "xs = ys \<Longrightarrow> (\<And>x g. x \<in> set ys \<Longrightarrow> f x g = h x g) \<Longrightarrow> g = g' \<Longrightarrow> map_state f xs g = map_state h ys g'"
  by (induction ys arbitrary: xs g g') (auto intro!: rbind_cong)

fun replace_tree ::
  "(keyword \<Rightarrow> stmt \<Rightarrow> groups \<Rightarrow> (stmt \<times> groups) result) \<Rightarrow> keyword \<Rightarrow> stmt \<Rightarrow> groups \<Rightarrow> (stmt \<times> groups) result" where
  "replace_tree repl parent_kw (Stmt kw arg subs) g =
     (if kw = Ext tailf ''symlink'' then repl parent_kw (Stmt kw arg subs) g
      else rbind (map_state (replace_tree repl kw) subs g) (\<lambda>(subs', g'). Inr (Stmt kw arg subs', g')))"

definition replace_module ::
  "pyang \<Rightarrow> bool \<Rightarrow> (string \<Rightarrow> target result) \<Rightarrow> stmt \<Rightarrow> groups \<Rightarrow> (stmt \<times> groups) result" where
  "replace_module pg no_groups find_target module =
     replace_tree (do_replace_symlink pg no_groups find_target module) (st_keyword module) module"

section \<open>Lemmas\<close>

text \<open>The statements that \<open>can_use_link\<close> looks at, and the ones that exclude links.\<close>

fun data_stmts :: "pyang \<Rightarrow> stmt \<Rightarrow> stmt list" where
  "data_stmts pg (Stmt kw arg subs) =
     Stmt kw arg subs # concat (map (\<lambda>s. if pg_data_keyword pg (st_keyword s) then data_stmts pg s else []) subs)"

definition unlinkable :: "pyang \<Rightarrow> stmt \<Rightarrow> bool" where
  "unlinkable pg s \<longleftrightarrow> st_keyword s \<in> {Kw ''list'', Kw ''choice'', Kw ''uses''} \<or>
     st_keyword s = Kw ''container'' \<and> pg_search_one pg s (Kw ''presence'') None \<noteq> None"

lemma can_use_link_iff: "can_use_link pg s \<longleftrightarrow> \<not> list_ex (unlinkable pg) (data_stmts pg s)"
proof (induction s)
  case (Stmt kw arg subs)
  then show ?case
    by (auto simp: unlinkable_def list_all_iff list_ex_iff split: if_splits)
qed

text \<open>The leaves of a tree with their paths below a path, and the links in a tree.\<close>

fun leaf_paths :: "pyang \<Rightarrow> string \<Rightarrow> string \<Rightarrow> stmt \<Rightarrow> string list" where
  "leaf_paths pg path pfx (Stmt kw arg subs) =
     (if kw \<in> {Kw ''leaf'', Kw ''leaf-list''} then [path]
      else concat (map (\<lambda>s. if pg_data_keyword pg (st_keyword s) then leaf_paths pg (sub_path path pfx s) pfx s else []) subs))"

fun leaf_links :: "pyang \<Rightarrow> string \<Rightarrow> stmt \<Rightarrow> string list" where
  "leaf_links pg tf (Stmt kw arg subs) =
     (if kw \<in> {Kw ''leaf'', Kw ''leaf-list''} then map st_arg (filter (\<lambda>s. st_keyword s = Ext tf ''link'') subs)
      else concat (map (\<lambda>s. if pg_data_keyword pg (st_keyword s) then leaf_links pg tf s else []) subs))"

fun without_links :: "pyang \<Rightarrow> string \<Rightarrow> stmt \<Rightarrow> stmt" where
  "without_links pg tf (Stmt kw arg subs) =
     (if kw \<in> {Kw ''leaf'', Kw ''leaf-list''} then Stmt kw arg (filter (\<lambda>s. st_keyword s \<noteq> Ext tf ''link'') subs)
      else Stmt kw arg (map (\<lambda>s. if pg_data_keyword pg (st_keyword s) then without_links pg tf s else s) subs))"

lemma map_result_ex:
  assumes "\<And>x. x \<in> set xs \<Longrightarrow> \<exists>y. f x = Inr y \<and> P x y"
  shows "\<exists>ys. map_result f xs = Inr ys \<and> list_all2 P xs ys"
  using assms
proof (induction xs)
  case (Cons x xs)
  then obtain y ys where "f x = Inr y" "P x y" "map_result f xs = Inr ys" "list_all2 P xs ys" by fastforce
  then show ?case by simp
qed simp

lemma list_all2_concat:
  "list_all2 (\<lambda>x y. g y = h x) xs ys \<Longrightarrow> concat (map g ys) = concat (map h xs)"
  by (induction rule: list_all2_induct) auto

lemma list_all2_map: "list_all2 (\<lambda>x y. g y = h x) xs ys \<Longrightarrow> map g ys = map h xs"
  by (induction rule: list_all2_induct) auto

lemma add_links_parts:
  "\<exists>s'. add_links pg (Inr tf) path pfx s = Inr s' \<and> st_keyword s' = st_keyword s \<and>
     (leaf_links pg tf s = [] \<longrightarrow> leaf_links pg tf s' = leaf_paths pg path pfx s) \<and>
     without_links pg tf s' = without_links pg tf s"
proof (induction s arbitrary: path)
  case (Stmt kw arg subs)
  show ?case
  proof (cases "kw \<in> {Kw ''leaf'', Kw ''leaf-list''}")
    case True
    then show ?thesis by (auto simp: filter_empty_conv)
  next
    case False
    let ?d = "\<lambda>s. pg_data_keyword pg (st_keyword s)"
    let ?f = "\<lambda>s. if ?d s then add_links pg (Inr tf) (sub_path path pfx s) pfx s else Inr s"
    let ?P = "\<lambda>s s'. st_keyword s' = st_keyword s \<and>
      (\<not> ?d s \<or> leaf_links pg tf s \<noteq> [] \<or> leaf_links pg tf s' = leaf_paths pg (sub_path path pfx s) pfx s) \<and>
      (if ?d s then without_links pg tf s' = without_links pg tf s else s' = s)"
    have "\<exists>ys. map_result ?f subs = Inr ys \<and> list_all2 ?P subs ys"
    proof (rule map_result_ex)
      fix s
      assume "s \<in> set subs"
      from Stmt.IH [OF this, of "sub_path path pfx s"] show "\<exists>y. ?f s = Inr y \<and> ?P s y" by auto
    qed
    then obtain ys where ys: "map_result ?f subs = Inr ys" "list_all2 ?P subs ys" by blast
    have wo: "map (\<lambda>s. if ?d s then without_links pg tf s else s) ys = map (\<lambda>s. if ?d s then without_links pg tf s else s) subs"
      by (rule list_all2_map) (rule list_all2_mono [OF ys(2)], auto split: if_splits)
    have links: "concat (map (\<lambda>s. if ?d s then leaf_links pg tf s else []) ys) =
        concat (map (\<lambda>s. if ?d s then leaf_paths pg (sub_path path pfx s) pfx s else []) subs)"
      if "concat (map (\<lambda>s. if ?d s then leaf_links pg tf s else []) subs) = []"
    proof (rule list_all2_concat, rule list.rel_mono_strong [OF ys(2)])
      fix s s'
      assume "s \<in> set subs" "s' \<in> set ys" "?P s s'"
      with that show "(if ?d s' then leaf_links pg tf s' else []) = (if ?d s then leaf_paths pg (sub_path path pfx s) pfx s else [])"
        by (auto split: if_splits)
    qed
    show ?thesis using False ys(1) wo links by auto
  qed
qed

section \<open>Properties\<close>

text \<open>
  Links are used for exactly the targets in which no list, choice, \<open>uses\<close> or container with presence is reached through data
  statements. In the copy of such a target, every leaf gets one link, to its own path below the path of the target, and nothing
  else changes.
\<close>

theorem add_links_spec:
  "(can_use_link pg s \<longleftrightarrow> \<not> list_ex (unlinkable pg) (data_stmts pg s)) \<and>
   (\<exists>s'. add_links pg (Inr tf) path pfx s = Inr s' \<and>
      (leaf_links pg tf s = [] \<longrightarrow> leaf_links pg tf s' = leaf_paths pg path pfx s) \<and>
      without_links pg tf s' = without_links pg tf s)"
  using can_use_link_iff add_links_parts by blast

definition example_pyang :: pyang where
  "example_pyang = \<lparr>pg_data_keyword = (\<lambda>kw. kw \<in> {Kw ''container'', Kw ''leaf''}), pg_search_one = (\<lambda>_ _ _. None),
     pg_scan = (\<lambda>_. []), pg_copy = (\<lambda>_ _ s. Inr s)\<rparr>"

lemma add_links_spec_witness:
  "\<exists>s'. add_links example_pyang (Inr ''tailf'') ''/a:sys'' ''a'' (Stmt (Kw ''container'') ''sys'' [Stmt (Kw ''leaf'') ''mtu'' []]) = Inr s' \<and>
     leaf_links example_pyang ''tailf'' s' = [''/a:sys/a:mtu'']"
  using add_links_spec [of example_pyang "Stmt (Kw ''container'') ''sys'' [Stmt (Kw ''leaf'') ''mtu'' []]" "''tailf''" "''/a:sys''" "''a''"]
  by (auto simp: example_pyang_def sub_path_def)

text \<open>
  The prefixes of an expression: if the tokens of the fixed text are the prefixed tokens, which is what a lexer of XPath returns, fixing
  it a second time changes nothing.
\<close>

theorem fix_tokens_twice:
  assumes "pg_scan pg (fix_tokens pfx toks) = map (\<lambda>(ty, v). (ty, if ty \<noteq> ''name'' \<or> CHR '':'' \<in> set v then v else pfx @ '':'' @ v)) toks"
  shows "fix_tokens pfx (pg_scan pg (fix_tokens pfx toks)) = fix_tokens pfx toks"
  unfolding assms by (induction toks) (auto simp: fix_tokens_def)

end
