(* ===== verification/Yang_Symlink_Store.thy ===== *)
theory Yang_Symlink_Store
  imports Yang_Symlinks Py_World
begin

text \<open>
  The pyang plugin \<open>symlink/origin/symlinks.py\<close> on statement objects. The plugin changes the objects of pyang in place: while it walks over the
  substatements of a module it replaces a target by a \<open>uses\<close> statement in the list of the parent of the target, and appends a grouping to
  the list of the module of the target, which may be the list that it is walking over. Here the objects are a store: an address has a
  node, and a list of substatements belongs to the node that it is the attribute of. A list that is walked over is read
  again at every step.

  The walk takes fuel for the depth of calls; \<open>Running\<close> is the outcome when it is used up. The library functions are the record
  \<open>pyang_objects\<close>. The main theorem shows that the store implements the functions on values of \<open>Yang_Symlinks\<close>.
\<close>

section \<open>Statement objects\<close>

record node =
  nd_keyword :: keyword
  nd_arg :: string
  nd_top :: nat
  nd_parent :: "nat option"
  nd_substmts :: "nat list"

text \<open>The fixer: its dictionary of groupings, in a store of objects.\<close>

record fixer =
  fx_node :: "nat \<Rightarrow> node"
  fx_next :: nat
  fx_groupings :: "(nat \<times> string) list"

definition new_stmt :: "nat \<Rightarrow> nat option \<Rightarrow> keyword \<Rightarrow> string \<Rightarrow> fixer \<Rightarrow> fixer \<times> nat" where
  "new_stmt topm parent kw arg fx =
     (fx\<lparr>fx_node := (fx_node fx)(fx_next fx := \<lparr>nd_keyword = kw, nd_arg = arg, nd_top = topm, nd_parent = parent, nd_substmts = []\<rparr>),
         fx_next := Suc (fx_next fx)\<rparr>, fx_next fx)"

definition set_substmts :: "nat \<Rightarrow> nat list \<Rightarrow> fixer \<Rightarrow> fixer" where
  "set_substmts a xs fx = fx\<lparr>fx_node := (fx_node fx)(a := (fx_node fx a)\<lparr>nd_substmts := xs\<rparr>)\<rparr>"

definition set_arg :: "nat \<Rightarrow> string \<Rightarrow> fixer \<Rightarrow> fixer" where
  "set_arg a s fx = fx\<lparr>fx_node := (fx_node fx)(a := (fx_node fx a)\<lparr>nd_arg := s\<rparr>)\<rparr>"

abbreviation substmts :: "fixer \<Rightarrow> nat \<Rightarrow> nat list" where
  "substmts fx a \<equiv> nd_substmts (fx_node fx a)"

abbreviation keyword_at :: "fixer \<Rightarrow> nat \<Rightarrow> keyword" where
  "keyword_at fx a \<equiv> nd_keyword (fx_node fx a)"

abbreviation arg_at :: "fixer \<Rightarrow> nat \<Rightarrow> string" where
  "arg_at fx a \<equiv> nd_arg (fx_node fx a)"

text \<open>
  The library: the search of a substatement; copying a statement below a parent, where a callback gives the argument of every copy from
  the copied statement and the keywords of the parent and of the copy, and where the copies may get another module; and the
  statement that a path statement points to.
\<close>

record pyang_objects =
  po_data_keyword :: "keyword \<Rightarrow> bool"
  po_search_one :: "fixer \<Rightarrow> nat \<Rightarrow> keyword \<Rightarrow> string option \<Rightarrow> nat option"
  po_scan :: "string \<Rightarrow> (string \<times> string) list"
  po_copy :: "(nat \<Rightarrow> keyword \<Rightarrow> keyword \<Rightarrow> string \<Rightarrow> string result) \<Rightarrow> nat option \<Rightarrow> nat option \<Rightarrow> nat \<Rightarrow> fixer \<Rightarrow>
    (fixer \<times> nat) result"
  po_find_target :: "node \<Rightarrow> nat result"

section \<open>Outcomes\<close>

definition obind :: "'a outcome \<Rightarrow> ('a \<Rightarrow> 'b outcome) \<Rightarrow> 'b outcome" where
  "obind m f = (case m of Ret a \<Rightarrow> f a | Raise e \<Rightarrow> Raise e | Running \<Rightarrow> Running)"

lemma obind_simps [simp]:
  "obind (Ret a) f = f a" "obind (Raise e) f = Raise e" "obind Running f = Running"
  by (simp_all add: obind_def)

lemma obind_cong [fundef_cong]:
  "m = m' \<Longrightarrow> (\<And>a. m' = Ret a \<Longrightarrow> f a = g a) \<Longrightarrow> obind m f = obind m' g"
  by (cases m') simp_all

definition of_result :: "'a result \<Rightarrow> 'a outcome" where
  "of_result r = (case r of Inl e \<Rightarrow> Raise e | Inr a \<Rightarrow> Ret a)"

lemma of_result_simps [simp]: "of_result (Inl e) = Raise e" "of_result (Inr a) = Ret a"
  by (simp_all add: of_result_def)

section \<open>The functions of the plugin\<close>

definition obj_arg :: "fixer \<Rightarrow> nat option \<Rightarrow> string result" where
  "obj_arg fx a = (case a of None \<Rightarrow> Inl AttributeError | Some b \<Rightarrow> Inr (arg_at fx b))"

definition obj_module_prefix :: "pyang_objects \<Rightarrow> fixer \<Rightarrow> nat \<Rightarrow> string \<Rightarrow> string result" where
  "obj_module_prefix po fx module import_name =
     (case (if arg_at fx module = import_name then Some module
            else po_search_one po fx module (Kw ''import'') (Some import_name)) of
        None \<Rightarrow> Inl AttributeError
      | Some impmod \<Rightarrow> obj_arg fx (po_search_one po fx impmod (Kw ''prefix'') None))"

fun all_outcome :: "('a \<Rightarrow> bool outcome) \<Rightarrow> 'a list \<Rightarrow> bool outcome" where
  "all_outcome p [] = Ret True"
| "all_outcome p (x # xs) = obind (p x) (\<lambda>b. if b then all_outcome p xs else Ret False)"

fun obj_can_use_link :: "nat \<Rightarrow> pyang_objects \<Rightarrow> fixer \<Rightarrow> nat \<Rightarrow> bool outcome" where
  "obj_can_use_link 0 po fx a = Running"
| "obj_can_use_link (Suc n) po fx a =
     (if keyword_at fx a \<in> {Kw ''list'', Kw ''choice'', Kw ''uses''} \<or>
         keyword_at fx a = Kw ''container'' \<and> po_search_one po fx a (Kw ''presence'') None \<noteq> None
      then Ret False
      else all_outcome (obj_can_use_link n po fx) (filter (\<lambda>c. po_data_keyword po (keyword_at fx c)) (substmts fx a)))"

definition obj_fix_xpaths :: "pyang_objects \<Rightarrow> fixer \<Rightarrow> nat \<Rightarrow> keyword \<Rightarrow> keyword \<Rightarrow> string \<Rightarrow> string result" where
  "obj_fix_xpaths po fx old parent_kw kw arg =
     (if kw = Kw ''path'' \<and> parent_kw = Kw ''type'' \<or> kw \<in> {Kw ''must'', Kw ''when''} then
        rbind (obj_arg fx (po_search_one po fx (nd_top (fx_node fx old)) (Kw ''prefix'') None))
          (\<lambda>pfx. Inr (fix_tokens pfx (po_scan po arg)))
      else Inr arg)"

text \<open>A link is appended to the list of a leaf; the lists that are walked over do not change.\<close>

fun fold_outcome :: "('a \<Rightarrow> 's \<Rightarrow> 's outcome) \<Rightarrow> 'a list \<Rightarrow> 's \<Rightarrow> 's outcome" where
  "fold_outcome f [] s = Ret s"
| "fold_outcome f (x # xs) s = obind (f x s) (fold_outcome f xs)"

fun obj_add_links :: "nat \<Rightarrow> pyang_objects \<Rightarrow> string \<Rightarrow> string \<Rightarrow> nat \<Rightarrow> fixer \<Rightarrow> fixer outcome" where
  "obj_add_links 0 po path pfx a fx = Running"
| "obj_add_links (Suc n) po path pfx a fx =
     (if keyword_at fx a \<in> {Kw ''leaf'', Kw ''leaf-list''} then
        obind (of_result (obj_module_prefix po fx (nd_top (fx_node fx a)) tailf)) (\<lambda>tf.
          let (fx1, link) = new_stmt (nd_top (fx_node fx a)) (Some a) (Ext tf ''link'') path fx
          in Ret (set_substmts a (substmts fx1 a @ [link]) fx1))
      else
        fold_outcome (\<lambda>c fx1.
          if po_data_keyword po (keyword_at fx1 c)
          then obj_add_links n po (path @ ''/'' @ pfx @ '':'' @ arg_at fx1 c) pfx c fx1 else Ret fx1) (substmts fx a) fx)"

definition obj_add_transform_callpoint :: "pyang_objects \<Rightarrow> nat \<Rightarrow> fixer \<Rightarrow> (fixer \<times> nat) result" where
  "obj_add_transform_callpoint po parent fx =
     rbind (obj_module_prefix po fx (nd_top (fx_node fx parent)) tailf) (\<lambda>tf_prefix.
       let topm = nd_top (fx_node fx parent);
           (fx1, cp) = new_stmt topm (Some parent) (Ext tf_prefix ''callpoint'') ''symlink-transform'' fx;
           (fx2, transform) = new_stmt topm (Some cp) (Ext tf_prefix ''transform'') ''true'' fx1;
           fx3 = set_substmts parent (cp # substmts fx2 parent) fx2
       in Inr (set_substmts cp [transform] fx3, cp))"

definition list_index :: "nat \<Rightarrow> nat list \<Rightarrow> nat result" where
  "list_index x xs = (if x \<in> set xs then Inr (length (takeWhile (\<lambda>y. y \<noteq> x) xs)) else Inl ValueError)"

definition obj_introduce_grouping :: "pyang_objects \<Rightarrow> nat \<Rightarrow> fixer \<Rightarrow> (fixer \<times> string) result" where
  "obj_introduce_grouping po a fx =
     (case map_of (fx_groupings fx) a of
        Some name \<Rightarrow> Inr (fx, name)
      | None \<Rightarrow>
          (let grouping_name = arg_at fx a @ ''-symlink-group'';
               fx1 = fx\<lparr>fx_groupings := fx_groupings fx @ [(a, grouping_name)]\<rparr>;
               module = nd_top (fx_node fx1 a);
               (fx2, uses) = new_stmt module (nd_parent (fx_node fx1 a)) (Kw ''uses'') grouping_name fx1
           in case nd_parent (fx_node fx2 a) of
                None \<Rightarrow> Inl AttributeError
              | Some parent \<Rightarrow>
                  rbind (list_index a (substmts fx2 parent)) (\<lambda>ix.
                    let fx3 = set_substmts parent ((substmts fx2 parent)[ix := uses]) fx2;
                        (fx4, grouping) = new_stmt module (Some module) (Kw ''grouping'') grouping_name fx3
                    in rbind (po_copy po (obj_fix_xpaths po fx4) None (Some grouping) a fx4) (\<lambda>(fx5, contents).
                         let fx6 = set_substmts grouping [contents] fx5
                         in Inr (set_substmts module (substmts fx6 module @ [grouping]) fx6, grouping_name)))))"

definition obj_do_replace_symlink :: "nat \<Rightarrow> pyang_objects \<Rightarrow> bool \<Rightarrow> nat \<Rightarrow> fixer \<Rightarrow> (fixer \<times> nat) outcome" where
  "obj_do_replace_symlink n po no_groups symlink fx =
     (let nd = fx_node fx symlink
      in case po_search_one po fx symlink (Ext tailf ''path'') None of
           None \<Rightarrow> Raise AssertionError
         | Some path \<Rightarrow>
             obind (of_result (po_find_target po (fx_node fx path))) (\<lambda>target.
             obind (of_result (obj_module_prefix po fx (nd_top nd) (arg_at fx (nd_top (fx_node fx target))))) (\<lambda>target_prefix.
             obind (obj_can_use_link n po fx target) (\<lambda>linkable.
             if linkable then
               obind (of_result (po_copy po (obj_fix_xpaths po fx) (Some (nd_top nd)) (nd_parent nd) target fx)) (\<lambda>(fx1, new).
               obind (obj_add_links n po (arg_at fx1 path) target_prefix new (set_arg new (nd_arg nd) fx1)) (\<lambda>fx2. Ret (fx2, new)))
             else if no_groups then
               obind (of_result (po_copy po (obj_fix_xpaths po fx) (Some (nd_top nd)) (nd_parent nd) target fx)) (\<lambda>(fx1, new).
               obind (of_result (obj_add_transform_callpoint po new (set_arg new (nd_arg nd) fx1))) (\<lambda>(fx2, _). Ret (fx2, new)))
             else
               obind (of_result (obj_introduce_grouping po target fx)) (\<lambda>(fx1, group_name).
               let (fx2, uses) = new_stmt (nd_top nd) (nd_parent nd) (Kw ''uses'') (target_prefix @ '':'' @ group_name) fx1;
                   (fx3, refine) = new_stmt (nd_top nd) (Some uses) (Kw ''refine'') (arg_at fx2 target) fx2
               in obind (of_result (obj_add_transform_callpoint po refine fx3)) (\<lambda>(fx4, _).
                    Ret (set_substmts uses [refine] fx4, uses)))))))"

text \<open>
  The comprehension reads the list of the statement at every step, by index, as the iterator does; the attribute is
  assigned after its last step.
\<close>

fun obj_replace_symlinks :: "nat \<Rightarrow> pyang_objects \<Rightarrow> bool \<Rightarrow> nat \<Rightarrow> fixer \<Rightarrow> (fixer \<times> nat) outcome"
and obj_replace_list :: "nat \<Rightarrow> pyang_objects \<Rightarrow> bool \<Rightarrow> nat \<Rightarrow> nat \<Rightarrow> nat list \<Rightarrow> fixer \<Rightarrow> (fixer \<times> nat list) outcome" where
  "obj_replace_symlinks 0 po no_groups a fx = Running"
| "obj_replace_symlinks (Suc n) po no_groups a fx =
     (if keyword_at fx a = Ext tailf ''symlink'' then obj_do_replace_symlink n po no_groups a fx
      else obind (obj_replace_list n po no_groups a 0 [] fx) (\<lambda>(fx1, ys). Ret (set_substmts a ys fx1, a)))"
| "obj_replace_list 0 po no_groups a i ys fx = Running"
| "obj_replace_list (Suc n) po no_groups a i ys fx =
     (if i < length (substmts fx a) then
        obind (obj_replace_symlinks n po no_groups (substmts fx a ! i) fx) (\<lambda>(fx1, y).
          obj_replace_list n po no_groups a (Suc i) (ys @ [y]) fx1)
      else Ret (fx, ys))"

text \<open>
  \<open>SymlinkFixer.replace\<close>: all modules are changed before the first file is written. \<open>emit\<close> is \<open>emit_yang\<close> of the library.
\<close>

record symlink_opts =
  so_replace :: bool
  so_destination :: "string option"
  so_no_groups :: bool

definition path_join :: "string \<Rightarrow> string \<Rightarrow> string" where
  "path_join dir name = (if dir = [] \<or> last dir = CHR ''/'' then dir @ name else dir @ ''/'' @ name)"

definition obj_replace ::
  "nat \<Rightarrow> pyang_objects \<Rightarrow> (fixer \<Rightarrow> nat \<Rightarrow> string) \<Rightarrow> symlink_opts \<Rightarrow> string \<Rightarrow> nat list \<Rightarrow> fixer \<Rightarrow>
     (fixer \<times> (string \<times> string) list) outcome" where
  "obj_replace n po emit opts destdir modules fx =
     (if so_replace opts then
        obind (fold_outcome (\<lambda>m fx1. obind (obj_replace_symlinks n po (so_no_groups opts) m fx1) (\<lambda>(fx2, _). Ret fx2)) modules fx)
          (\<lambda>fx1. Ret (fx1, map (\<lambda>m. (path_join destdir (arg_at fx1 m @ ''.yang''), emit fx1 m)) modules))
      else Ret (fx, []))"

text \<open>The plugin: without a destination directory it ends the program, whether or not links are to be replaced.\<close>

definition symlink_plugin ::
  "nat \<Rightarrow> pyang_objects \<Rightarrow> (string \<Rightarrow> bool) \<Rightarrow> (fixer \<Rightarrow> nat \<Rightarrow> string) \<Rightarrow> symlink_opts \<Rightarrow> nat list \<Rightarrow> (nat \<Rightarrow> node) \<Rightarrow> nat \<Rightarrow>
     (fixer \<times> (string \<times> string) list) outcome" where
  "symlink_plugin n po isdir emit opts modules objs next_addr =
     (case so_destination opts of
        None \<Rightarrow> Raise SystemExit
      | Some d \<Rightarrow>
          if \<not> isdir d then Raise SystemExit
          else obj_replace n po emit opts d modules \<lparr>fx_node = objs, fx_next = next_addr, fx_groupings = []\<rparr>)"

section \<open>Fuel\<close>

text \<open>More fuel does not change a result.\<close>

lemma all_outcome_Ret_cong:
  assumes "all_outcome p xs = Ret b" and "\<And>x c. x \<in> set xs \<Longrightarrow> p x = Ret c \<Longrightarrow> q x = Ret c"
  shows "all_outcome q xs = Ret b"
  using assms
proof (induction xs)
  case (Cons x xs)
  then show ?case by (cases "p x") (auto split: if_splits)
qed simp

lemma fold_outcome_Ret_cong:
  assumes "fold_outcome f xs s = Ret r" and "\<And>x s1 s2. f x s1 = Ret s2 \<Longrightarrow> g x s1 = Ret s2"
  shows "fold_outcome g xs s = Ret r"
  using assms(1)
proof (induction xs arbitrary: s)
  case (Cons x xs)
  then show ?case using assms(2) by (cases "f x s") auto
qed simp

lemma can_use_link_more: "obj_can_use_link n po fx a = Ret b \<Longrightarrow> n \<le> m \<Longrightarrow> obj_can_use_link m po fx a = Ret b"
proof (induction n arbitrary: m a b)
  case (Suc n)
  then obtain m' where m: "m = Suc m'" "n \<le> m'" by (cases m) auto
  show ?case
    using Suc.prems(1) Suc.IH [OF _ m(2)] all_outcome_Ret_cong [of "obj_can_use_link n po fx" _ b "obj_can_use_link m' po fx"]
    by (auto simp: m split: if_splits)
qed simp

lemma add_links_more: "obj_add_links n po path pfx a fx = Ret r \<Longrightarrow> n \<le> m \<Longrightarrow> obj_add_links m po path pfx a fx = Ret r"
proof (induction n arbitrary: m path a fx r)
  case (Suc n)
  then obtain m' where m: "m = Suc m'" "n \<le> m'" by (cases m) auto
  show ?case
  proof (cases "keyword_at fx a \<in> {Kw ''leaf'', Kw ''leaf-list''}")
    case True
    with Suc.prems(1) show ?thesis by (auto simp: m)
  next
    case False
    with Suc.prems(1) show ?thesis
      by (auto simp: m elim!: fold_outcome_Ret_cong split: if_splits intro: Suc.IH [OF _ m(2)])
  qed
qed simp

lemma obind_Ret: "obind m f = Ret b \<longleftrightarrow> (\<exists>a. m = Ret a \<and> f a = Ret b)"
  by (cases m) auto

lemma of_result_Ret [simp]: "of_result r = Ret a \<longleftrightarrow> r = Inr a"
  by (cases r) auto

lemma do_replace_more:
  assumes "obj_do_replace_symlink n po ng a fx = Ret r" and "n \<le> m"
  shows "obj_do_replace_symlink m po ng a fx = Ret r"
proof (cases "po_search_one po fx a (Ext tailf ''path'') None")
  case None
  with assms show ?thesis by (simp add: obj_do_replace_symlink_def Let_def)
next
  case (Some path)
  with assms(1) obtain target tp b where t: "po_find_target po (fx_node fx path) = Inr target"
    and tp: "obj_module_prefix po fx (nd_top (fx_node fx a)) (arg_at fx (nd_top (fx_node fx target))) = Inr tp"
    and b: "obj_can_use_link n po fx target = Ret b"
    by (auto simp: obj_do_replace_symlink_def Let_def obind_Ret)
  from can_use_link_more [OF b assms(2)] have b': "obj_can_use_link m po fx target = Ret b" .
  show ?thesis
    using assms(1) by (cases b) (auto simp: obj_do_replace_symlink_def Let_def Some t tp b b' obind_Ret
        intro: add_links_more [OF _ assms(2)] split: prod.splits)
qed

lemma replace_more:
  "obj_replace_symlinks n po ng a fx = Ret r \<Longrightarrow> n \<le> m \<Longrightarrow> obj_replace_symlinks m po ng a fx = Ret r"
  "obj_replace_list n po ng a i ys fx = Ret r' \<Longrightarrow> n \<le> m \<Longrightarrow> obj_replace_list m po ng a i ys fx = Ret r'"
proof (induction n arbitrary: m a fx r i ys r')
  case (Suc n)
  { case 1
    then obtain m' where m: "m = Suc m'" "n \<le> m'" by (cases m) auto
    show ?case
      using 1(1) do_replace_more [OF _ m(2)] Suc.IH(2) [OF _ m(2)] by (auto simp: m obind_Ret split: if_splits prod.splits)
  next
    case 2
    then obtain m' where m: "m = Suc m'" "n \<le> m'" by (cases m) auto
    show ?case
      using 2(1) by (auto simp: m obind_Ret split: if_splits prod.splits dest!: Suc.IH(1) [OF _ m(2)] Suc.IH(2) [OF _ m(2)])
  }
qed simp_all

section \<open>Trees in the store\<close>

text \<open>A tree of objects with their addresses, and that a store has it.\<close>

datatype atree = ANode (at_root: nat) (at_keyword: keyword) (at_arg: string) (at_children: "atree list")

fun holds :: "fixer \<Rightarrow> atree \<Rightarrow> bool" where
  "holds fx (ANode a kw arg ts) \<longleftrightarrow>
     keyword_at fx a = kw \<and> arg_at fx a = arg \<and> substmts fx a = map at_root ts \<and> list_all (holds fx) ts"

fun erase :: "atree \<Rightarrow> stmt" where
  "erase (ANode a kw arg ts) = Stmt kw arg (map erase ts)"

fun addrs :: "atree \<Rightarrow> nat list" where
  "addrs (ANode a kw arg ts) = a # concat (map addrs ts)"

lemma erase_sel [simp]: "st_keyword (erase t) = at_keyword t" "st_arg (erase t) = at_arg t" "st_substmts (erase t) = map erase (at_children t)"
  by (cases t; simp)+

lemma root_addrs [simp]: "at_root t \<in> set (addrs t)"
  by (cases t) simp

lemma holds_root: "holds fx t \<Longrightarrow> keyword_at fx (at_root t) = at_keyword t \<and> arg_at fx (at_root t) = at_arg t \<and>
    substmts fx (at_root t) = map at_root (at_children t) \<and> list_all (holds fx) (at_children t)"
  by (cases t) auto

lemma holds_same:
  "(\<And>x. x \<in> set (addrs t) \<Longrightarrow> fx_node fx' x = fx_node fx x) \<Longrightarrow> holds fx' t = holds fx t"
  by (induction t) (auto simp: list_all_iff)

text \<open>What a step may change of the objects that exist before it: only lists of substatements, at some addresses.\<close>

definition changed_only :: "nat set \<Rightarrow> fixer \<Rightarrow> fixer \<Rightarrow> bool" where
  "changed_only D fx fx' \<longleftrightarrow> fx_next fx \<le> fx_next fx' \<and>
     (\<forall>x < fx_next fx. (\<exists>xs. fx_node fx' x = (fx_node fx x)\<lparr>nd_substmts := xs\<rparr>) \<and> (x \<notin> D \<longrightarrow> fx_node fx' x = fx_node fx x))"

lemma node_self [simp]: "(nd :: node)\<lparr>nd_substmts := nd_substmts nd\<rparr> = nd"
  by simp

lemma changes_same:
  assumes "fx_next fx \<le> fx_next fx'" and "\<And>x. x < fx_next fx \<Longrightarrow> fx_node fx' x = fx_node fx x"
  shows "changed_only D fx fx'"
  unfolding changed_only_def using assms node_self by metis

lemma changes_refl [simp]: "changed_only D fx fx"
  by (rule changes_same) simp_all

lemma changes_mono: "changed_only D fx fx' \<Longrightarrow> D \<subseteq> D' \<Longrightarrow> changed_only D' fx fx'"
  by (auto simp: changed_only_def)

lemma changes_trans:
  assumes "changed_only D fx fx1" and "changed_only D' fx1 fx2"
  shows "changed_only (D \<union> D') fx fx2"
proof -
  have "(\<exists>xs. fx_node fx2 x = (fx_node fx x)\<lparr>nd_substmts := xs\<rparr>) \<and> (x \<notin> D \<union> D' \<longrightarrow> fx_node fx2 x = fx_node fx x)"
    if "x < fx_next fx" for x
  proof -
    from that assms have "x < fx_next fx1" by (auto simp: changed_only_def)
    with that assms obtain xs ys where "fx_node fx1 x = (fx_node fx x)\<lparr>nd_substmts := xs\<rparr>"
      "fx_node fx2 x = (fx_node fx1 x)\<lparr>nd_substmts := ys\<rparr>"
      "x \<notin> D \<Longrightarrow> fx_node fx1 x = fx_node fx x" "x \<notin> D' \<Longrightarrow> fx_node fx2 x = fx_node fx1 x"
      unfolding changed_only_def by blast
    then show ?thesis by auto
  qed
  with assms show ?thesis by (auto simp: changed_only_def)
qed

lemma changes_fields:
  assumes "changed_only D fx fx'" and "x < fx_next fx"
  shows "keyword_at fx' x = keyword_at fx x" "arg_at fx' x = arg_at fx x"
    "nd_top (fx_node fx' x) = nd_top (fx_node fx x)" "nd_parent (fx_node fx' x) = nd_parent (fx_node fx x)"
  using assms by (auto simp: changed_only_def)

lemma changes_node: "changed_only D fx fx' \<Longrightarrow> x < fx_next fx \<Longrightarrow> x \<notin> D \<Longrightarrow> fx_node fx' x = fx_node fx x"
  by (auto simp: changed_only_def)

lemma changes_holds:
  assumes "changed_only D fx fx'" and "holds fx t" and "\<forall>x \<in> set (addrs t). x < fx_next fx \<and> x \<notin> D"
  shows "holds fx' t"
  using assms holds_same [of t fx' fx] changes_node by blast

section \<open>What is relied on of the library\<close>

text \<open>
  The documented behaviour of pyang: \<open>search_one\<close> gives the first substatement with the keyword and the argument, if one is asked for;
  \<open>copy\<close> makes new objects for a whole tree, whose keywords are those of the copied one. \<open>pg\<close> has the same functions
  on values.
\<close>

definition matches :: "keyword \<Rightarrow> string option \<Rightarrow> keyword \<Rightarrow> string \<Rightarrow> bool" where
  "matches kw arg kw' arg' \<longleftrightarrow> kw' = kw \<and> (case arg of None \<Rightarrow> True | Some v \<Rightarrow> arg' = v)"

fun keyword_tree :: "stmt \<Rightarrow> stmt" where
  "keyword_tree (Stmt kw arg subs) = Stmt kw [] (map keyword_tree subs)"

definition fresh_tree :: "fixer \<Rightarrow> fixer \<Rightarrow> atree \<Rightarrow> bool" where
  "fresh_tree fx fx' t \<longleftrightarrow> holds fx' t \<and> distinct (addrs t) \<and> (\<forall>x \<in> set (addrs t). fx_next fx \<le> x \<and> x < fx_next fx')"

definition copy_ok :: "pyang \<Rightarrow> pyang_objects \<Rightarrow> bool" where
  "copy_ok pg po \<longleftrightarrow>
     (\<forall>fx t cb f topm p s. holds fx t \<and> distinct (addrs t) \<and> (\<forall>x \<in> set (addrs t). x < fx_next fx \<and> cb x = f) \<and>
        pg_copy pg f (keyword_at fx p) (erase t) = Inr s \<longrightarrow>
        (\<exists>fx' t'. po_copy po cb topm (Some p) (at_root t) fx = Inr (fx', at_root t') \<and> fresh_tree fx fx' t' \<and> erase t' = s \<and>
           (\<forall>v. topm = Some v \<longrightarrow> (\<forall>x \<in> set (addrs t'). nd_top (fx_node fx' x) = v)) \<and>
           changed_only {} fx fx' \<and> fx_groupings fx' = fx_groupings fx)) \<and>
     (\<forall>f kw s s'. pg_copy pg f kw s = Inr s' \<longrightarrow> keyword_tree s' = keyword_tree s)"

definition lib_ok :: "pyang \<Rightarrow> pyang_objects \<Rightarrow> bool" where
  "lib_ok pg po \<longleftrightarrow>
     po_data_keyword po = pg_data_keyword pg \<and> po_scan po = pg_scan pg \<and>
     (\<forall>s kw arg. pg_search_one pg s kw arg = find (\<lambda>c. matches kw arg (st_keyword c) (st_arg c)) (st_substmts s)) \<and>
     (\<forall>fx a kw arg. po_search_one po fx a kw arg = find (\<lambda>c. matches kw arg (keyword_at fx c) (arg_at fx c)) (substmts fx a)) \<and>
     copy_ok pg po"

lemma find_map: "find P (map f xs) = map_option f (find (\<lambda>x. P (f x)) xs)"
  by (induction xs) auto

lemma find_cong: "(\<And>x. x \<in> set xs \<Longrightarrow> P x = Q x) \<Longrightarrow> find P xs = find Q xs"
  by (induction xs) auto

lemma find_SomeD: "find P xs = Some x \<Longrightarrow> x \<in> set xs \<and> P x"
  by (induction xs) (auto split: if_splits)

lemma search_child:
  assumes "lib_ok pg po" and "po_search_one po fx a kw arg = Some c"
  shows "c \<in> set (substmts fx a)" and "matches kw arg (keyword_at fx c) (arg_at fx c)"
  using find_SomeD [of "\<lambda>c. matches kw arg (keyword_at fx c) (arg_at fx c)"] assms by (auto simp: lib_ok_def)

definition child_search :: "atree \<Rightarrow> keyword \<Rightarrow> string option \<Rightarrow> atree option" where
  "child_search t kw arg = find (\<lambda>c. matches kw arg (at_keyword c) (at_arg c)) (at_children t)"

lemma search_holds:
  assumes "lib_ok pg po" and "holds fx t"
  shows "po_search_one po fx (at_root t) kw arg = map_option at_root (child_search t kw arg)"
    and "pg_search_one pg (erase t) kw arg = map_option erase (child_search t kw arg)"
proof -
  from holds_root [OF assms(2)] have "substmts fx (at_root t) = map at_root (at_children t)"
    and "\<And>c. c \<in> set (at_children t) \<Longrightarrow> keyword_at fx (at_root c) = at_keyword c \<and> arg_at fx (at_root c) = at_arg c"
    by (auto simp: list_all_iff dest: holds_root)
  then show "po_search_one po fx (at_root t) kw arg = map_option at_root (child_search t kw arg)"
    using assms(1) by (auto simp: lib_ok_def find_map child_search_def intro!: arg_cong [of _ _ "map_option at_root"] find_cong)
  show "pg_search_one pg (erase t) kw arg = map_option erase (child_search t kw arg)"
    using assms(1) by (auto simp: lib_ok_def find_map child_search_def)
qed

lemma child_search_holds: "holds fx t \<Longrightarrow> child_search t kw arg = Some c \<Longrightarrow> c \<in> set (at_children t) \<and> holds fx c"
  using find_SomeD holds_root by (fastforce simp: child_search_def list_all_iff)

lemma module_prefix_holds:
  assumes "lib_ok pg po" and "holds fx t"
  shows "obj_module_prefix po fx (at_root t) nm = module_prefix pg (erase t) nm"
proof -
  have arg: "obj_arg fx (po_search_one po fx (at_root c) (Kw ''prefix'') None) = arg_of (pg_search_one pg (erase c) (Kw ''prefix'') None)"
    if "holds fx c" for c
    using search_holds [OF assms(1) that, of "Kw ''prefix''" None] child_search_holds [OF that] holds_root
    by (cases "child_search c (Kw ''prefix'') None") (auto simp: obj_arg_def arg_of_def)
  show ?thesis
    using holds_root [OF assms(2)] search_holds [OF assms, of "Kw ''import''" "Some nm"] arg [OF assms(2)]
      arg [OF conjunct2 [OF child_search_holds [OF assms(2)]]]
    by (cases "child_search t (Kw ''import'') (Some nm)") (auto simp: obj_module_prefix_def module_prefix_def)
qed

lemma can_use_link_holds:
  assumes "lib_ok pg po" and "holds fx t"
  shows "\<exists>n. obj_can_use_link n po fx (at_root t) = Ret (can_use_link pg (erase t))"
  using assms(2)
proof (induction t)
  case (ANode a kw arg ts)
  let ?d = "\<lambda>t. pg_data_keyword pg (at_keyword t)"
  have hold: "\<And>t. t \<in> set ts \<Longrightarrow> holds fx t" using ANode.prems by (auto simp: list_all_iff)
  have "\<exists>n. all_outcome (obj_can_use_link n po fx) (map at_root (filter ?d us)) = Ret (list_all (\<lambda>t. can_use_link pg (erase t)) (filter ?d us))"
    if "set us \<subseteq> set ts" for us
    using that
  proof (induction us)
    case (Cons u us)
    then obtain n m where n: "obj_can_use_link n po fx (at_root u) = Ret (can_use_link pg (erase u))"
      and m: "all_outcome (obj_can_use_link m po fx) (map at_root (filter ?d us)) = Ret (list_all (\<lambda>t. can_use_link pg (erase t)) (filter ?d us))"
      using ANode.IH [of u] hold [of u] by auto
    have "all_outcome (obj_can_use_link (max n m) po fx) (map at_root (filter ?d us)) = Ret (list_all (\<lambda>t. can_use_link pg (erase t)) (filter ?d us))"
      by (rule all_outcome_Ret_cong [OF m]) (rule can_use_link_more, auto)
    with can_use_link_more [OF n, of "max n m"] show ?case by (intro exI [of _ "max n m"]) auto
  qed simp
  from this [of ts] obtain n where
    n: "all_outcome (obj_can_use_link n po fx) (map at_root (filter ?d ts)) = Ret (list_all (\<lambda>t. can_use_link pg (erase t)) (filter ?d ts))"
    by auto
  have data: "filter (\<lambda>c. po_data_keyword po (keyword_at fx c)) (map at_root ts) = map at_root (filter ?d ts)"
    using assms(1) hold holds_root by (auto simp: filter_map lib_ok_def intro!: arg_cong [of _ _ "map at_root"] filter_cong)
  have all: "list_all (\<lambda>t. can_use_link pg (erase t)) (filter ?d ts) = list_all (\<lambda>s. \<not> pg_data_keyword pg (st_keyword s) \<or> can_use_link pg s) (map erase ts)"
    by (auto simp: list_all_iff)
  have "obj_can_use_link (Suc n) po fx a = Ret (can_use_link pg (erase (ANode a kw arg ts)))"
    using ANode.prems n search_holds [OF assms(1) ANode.prems, of "Kw ''presence''" None]
    by (auto simp: data all simp del: map_map filter.simps)
  then show ?case by (metis atree.sel(1))
qed

text \<open>The objects that the prefixes of a module are read from: the module and its imports.\<close>

definition prefix_area :: "fixer \<Rightarrow> nat \<Rightarrow> nat set" where
  "prefix_area fx topm = insert topm {c \<in> set (substmts fx topm). keyword_at fx c = Kw ''import''}"

definition area_ok :: "nat set \<Rightarrow> fixer \<Rightarrow> nat \<Rightarrow> bool" where
  "area_ok D fx topm \<longleftrightarrow>
     (\<forall>x \<in> prefix_area fx topm. x < fx_next fx \<and> x \<notin> D \<and> (\<forall>c \<in> set (substmts fx x). c < fx_next fx))"

lemma area_ok_mono: "area_ok D fx topm \<Longrightarrow> D' \<subseteq> D \<Longrightarrow> area_ok D' fx topm"
  by (auto simp: area_ok_def)

lemma area_changes:
  assumes "changed_only D fx fx'" and "area_ok D fx topm"
  shows "prefix_area fx' topm = prefix_area fx topm" and "area_ok D fx' topm"
proof -
  have topm: "topm < fx_next fx" "fx_node fx' topm = fx_node fx topm" "\<forall>c \<in> set (substmts fx topm). c < fx_next fx"
    using assms changes_node by (auto simp: area_ok_def prefix_area_def)
  then show area: "prefix_area fx' topm = prefix_area fx topm"
    using changes_fields [OF assms(1)] by (auto simp: prefix_area_def)
  have "fx_node fx' x = fx_node fx x" if "x \<in> prefix_area fx topm" for x
    using that assms changes_node [OF assms(1)] by (auto simp: area_ok_def)
  with assms show "area_ok D fx' topm" by (fastforce simp: area_ok_def area changed_only_def)
qed

lemma search_changes:
  assumes "lib_ok pg po" and "changed_only D fx fx'" and "fx_node fx' a = fx_node fx a" and "\<forall>c \<in> set (substmts fx a). c < fx_next fx"
  shows "po_search_one po fx' a kw arg = po_search_one po fx a kw arg"
  using assms(1,3,4) changes_fields [OF assms(2)] by (auto simp: lib_ok_def intro!: find_cong)

lemma module_prefix_changes:
  assumes "lib_ok pg po" and "changed_only D fx fx'" and "area_ok D fx topm"
  shows "obj_module_prefix po fx' topm nm = obj_module_prefix po fx topm nm"
proof -
  have same: "fx_node fx' x = fx_node fx x" "\<forall>c \<in> set (substmts fx x). c < fx_next fx" if "x \<in> prefix_area fx topm" for x
    using that assms(3) changes_node [OF assms(2)] by (auto simp: area_ok_def)
  have search: "po_search_one po fx' x kw arg = po_search_one po fx x kw arg" if "x \<in> prefix_area fx topm" for x kw arg
    using search_changes [OF assms(1,2) same [OF that]] .
  have arg: "obj_arg fx' (po_search_one po fx x (Kw ''prefix'') None) = obj_arg fx (po_search_one po fx x (Kw ''prefix'') None)"
    if x: "x \<in> prefix_area fx topm" for x
  proof (cases "po_search_one po fx x (Kw ''prefix'') None")
    case (Some c)
    then have "c \<in> set (substmts fx x)" by (rule search_child(1) [OF assms(1)])
    with same(2) [OF x] changes_fields(2) [OF assms(2)] Some show ?thesis by (simp add: obj_arg_def)
  qed (simp add: obj_arg_def)
  have topm: "topm \<in> prefix_area fx topm" by (simp add: prefix_area_def)
  have "imp \<in> prefix_area fx topm" if "po_search_one po fx topm (Kw ''import'') (Some nm) = Some imp" for imp
    using search_child [OF assms(1) that] by (simp add: prefix_area_def matches_def)
  with topm same [OF topm] search arg show ?thesis by (auto simp: obj_module_prefix_def split: option.splits)
qed

section \<open>Links in a copy\<close>

lemma set_substmts_sel [simp]:
  "fx_next (set_substmts a xs fx) = fx_next fx" "fx_groupings (set_substmts a xs fx) = fx_groupings fx"
  "fx_node (set_substmts a xs fx) = (fx_node fx)(a := (fx_node fx a)\<lparr>nd_substmts := xs\<rparr>)"
  by (simp_all add: set_substmts_def)

lemma holds_set: "a \<notin> set (addrs t) \<Longrightarrow> holds (set_substmts a xs fx) t = holds fx t"
  by (rule holds_same) auto

lemma new_stmt_sel:
  assumes "new_stmt topm p kw arg fx = (fx', a)"
  shows "a = fx_next fx" "fx_next fx' = Suc (fx_next fx)" "fx_groupings fx' = fx_groupings fx"
    "fx_node fx' = (fx_node fx)(a := \<lparr>nd_keyword = kw, nd_arg = arg, nd_top = topm, nd_parent = p, nd_substmts = []\<rparr>)"
  using assms by (auto simp: new_stmt_def)

lemma changes_new: "new_stmt topm p kw arg fx = (fx', a) \<Longrightarrow> changed_only {} fx fx'"
  by (auto simp: changed_only_def dest: new_stmt_sel) (metis node.surjective node.update_convs(5) fun_upd_other new_stmt_sel(1,4) less_irrefl)+

lemma changes_set: "changed_only {a} fx (set_substmts a xs fx)"
  by (auto simp: changed_only_def) (metis node.surjective node.update_convs(5))

text \<open>A tree whose objects may have moved only to new places.\<close>

definition grown :: "fixer \<Rightarrow> fixer \<Rightarrow> atree \<Rightarrow> atree \<Rightarrow> bool" where
  "grown fx fx' t t' \<longleftrightarrow> holds fx' t' \<and> changed_only (set (addrs t)) fx fx' \<and> fx_groupings fx' = fx_groupings fx \<and>
     (\<forall>x \<in> set (addrs t'). x \<in> set (addrs t) \<or> fx_next fx \<le> x \<and> x < fx_next fx')"

lemma add_links_leaf:
  assumes "holds fx (ANode a kw arg ts)" and "kw \<in> {Kw ''leaf'', Kw ''leaf-list''}" and "nd_top (fx_node fx a) = topm"
    and "obj_module_prefix po fx topm tailf = Inr tf" and "distinct (addrs (ANode a kw arg ts))"
    and "\<forall>x \<in> set (addrs (ANode a kw arg ts)). x < fx_next fx"
  shows "\<exists>fx' t'. obj_add_links (Suc n) po path pfx a fx = Ret fx' \<and> at_root t' = a \<and>
     erase t' = Stmt kw arg (map erase ts @ [Stmt (Ext tf ''link'') path []]) \<and> grown fx fx' (ANode a kw arg ts) t'"
proof -
  obtain fx1 l where new: "new_stmt topm (Some a) (Ext tf ''link'') path fx = (fx1, l)" by fastforce
  note sel = new_stmt_sel [OF new]
  let ?fx = "set_substmts a (substmts fx1 a @ [l]) fx1"
  let ?t = "ANode a kw arg (ts @ [ANode l (Ext tf ''link'') path []])"
  have "a < fx_next fx" using assms(6) by simp
  have "holds ?fx t" if "t \<in> set ts" for t
  proof -
    have "fx_node ?fx x = fx_node fx x" if x: "x \<in> set (addrs t)" for x
      using x \<open>t \<in> set ts\<close> assms(5,6) sel by (fastforce simp: sel)
    then show ?thesis using holds_same [of t ?fx fx] assms(1) \<open>t \<in> set ts\<close> by (auto simp: list_all_iff)
  qed
  then have "holds ?fx ?t" using assms(1) \<open>a < fx_next fx\<close> sel by (auto simp: list_all_iff sel)
  moreover have "changed_only (set (addrs (ANode a kw arg ts))) fx ?fx"
    by (rule changes_mono [OF changes_trans [OF changes_new [OF new] changes_set]]) simp
  ultimately have "grown fx ?fx (ANode a kw arg ts) ?t" using sel by (auto simp: grown_def)
  moreover have "obj_add_links (Suc n) po path pfx a fx = Ret ?fx"
    using assms(1-4) by (auto simp: new)
  ultimately show ?thesis by (intro exI [of _ ?fx] exI [of _ ?t]) auto
qed

text \<open>
  Adding links to a tree in the store gives a tree with the links of \<open>add_links\<close>; for the list of substatements the trees
  are taken one after the other.
\<close>

definition linkable_tree :: "fixer \<Rightarrow> nat \<Rightarrow> atree list \<Rightarrow> bool" where
  "linkable_tree fx topm ts \<longleftrightarrow> list_all (holds fx) ts \<and> distinct (concat (map addrs ts)) \<and>
     (\<forall>x \<in> set (concat (map addrs ts)). x < fx_next fx \<and> nd_top (fx_node fx x) = topm) \<and>
     area_ok (set (concat (map addrs ts))) fx topm"

definition links_added :: "pyang \<Rightarrow> pyang_objects \<Rightarrow> nat \<Rightarrow> atree \<Rightarrow> bool" where
  "links_added pg po topm t \<longleftrightarrow>
     (\<forall>fx path pfx s. linkable_tree fx topm [t] \<and> add_links pg (obj_module_prefix po fx topm tailf) path pfx (erase t) = Inr s \<longrightarrow>
        (\<exists>n fx' t'. obj_add_links n po path pfx (at_root t) fx = Ret fx' \<and> at_root t' = at_root t \<and> erase t' = s \<and> grown fx fx' t t'))"

lemma linkable_tree_tail:
  assumes "linkable_tree fx topm (t # ts)" and "changed_only (set (addrs t)) fx fx'"
  shows "linkable_tree fx' topm ts"
proof -
  have "area_ok (set (concat (map addrs (t # ts)))) fx' topm"
    by (rule area_changes(2) [OF changes_mono [OF assms(2)]]) (use assms(1) in \<open>auto simp: linkable_tree_def\<close>)
  then have "area_ok (set (concat (map addrs ts))) fx' topm" by (rule area_ok_mono) auto
  moreover have "holds fx' u" if "u \<in> set ts" for u
    using that assms by (intro changes_holds [OF assms(2)]) (auto simp: linkable_tree_def list_all_iff)
  moreover have "x < fx_next fx' \<and> nd_top (fx_node fx' x) = topm" if "x \<in> set (concat (map addrs ts))" for x
  proof -
    have "x < fx_next fx" "nd_top (fx_node fx x) = topm" using that assms(1) by (auto simp: linkable_tree_def)
    with assms(2) changes_fields(3) [OF assms(2), of x] show ?thesis by (auto simp: changed_only_def)
  qed
  moreover have "distinct (concat (map addrs ts))" using assms(1) by (simp add: linkable_tree_def)
  ultimately show ?thesis by (simp only: linkable_tree_def list_all_iff) blast
qed

lemma linkable_tree_single: "linkable_tree fx topm ts \<Longrightarrow> t \<in> set ts \<Longrightarrow> linkable_tree fx topm [t]"
  by (auto simp: linkable_tree_def list_all_iff distinct_concat_iff intro: area_ok_mono)

definition link_sub :: "nat \<Rightarrow> pyang_objects \<Rightarrow> string \<Rightarrow> string \<Rightarrow> nat \<Rightarrow> fixer \<Rightarrow> fixer outcome" where
  "link_sub n po path pfx c fx =
     (if po_data_keyword po (keyword_at fx c) then obj_add_links n po (path @ ''/'' @ pfx @ '':'' @ arg_at fx c) pfx c fx else Ret fx)"

lemma link_sub_holds:
  assumes "lib_ok pg po" and "links_added pg po topm t" and "linkable_tree fx topm [t]"
    and "(if pg_data_keyword pg (at_keyword t) then add_links pg (obj_module_prefix po fx topm tailf) (sub_path path pfx (erase t)) pfx (erase t)
          else Inr (erase t)) = Inr s"
  shows "\<exists>n fx' t'. link_sub n po path pfx (at_root t) fx = Ret fx' \<and> at_root t' = at_root t \<and> erase t' = s \<and> grown fx fx' t t'"
proof -
  have root: "keyword_at fx (at_root t) = at_keyword t" "arg_at fx (at_root t) = at_arg t"
    using assms(3) by (auto simp: linkable_tree_def dest: holds_root)
  show ?thesis
  proof (cases "pg_data_keyword pg (at_keyword t)")
    case True
    with assms(4) have "add_links pg (obj_module_prefix po fx topm tailf) (sub_path path pfx (erase t)) pfx (erase t) = Inr s" by simp
    with assms(2,3) obtain n fx' t' where "obj_add_links n po (sub_path path pfx (erase t)) pfx (at_root t) fx = Ret fx'"
      "at_root t' = at_root t" "erase t' = s" "grown fx fx' t t'"
      unfolding links_added_def by blast
    with True root assms(1) show ?thesis by (intro exI [of _ n] exI [of _ fx'] exI [of _ t']) (auto simp: link_sub_def sub_path_def lib_ok_def)
  next
    case False
    with root assms show ?thesis
      by (intro exI [of _ 0] exI [of _ fx] exI [of _ t]) (auto simp: link_sub_def lib_ok_def grown_def linkable_tree_def)
  qed
qed

lemma link_sub_more: "link_sub n po path pfx c fx = Ret r \<Longrightarrow> n \<le> m \<Longrightarrow> link_sub m po path pfx c fx = Ret r"
  by (auto simp: link_sub_def intro: add_links_more split: if_splits)

text \<open>The trees of a list after a step on all of them.\<close>

definition grown_list :: "fixer \<Rightarrow> fixer \<Rightarrow> atree list \<Rightarrow> atree list \<Rightarrow> bool" where
  "grown_list fx fx' ts us \<longleftrightarrow> map at_root us = map at_root ts \<and> list_all (holds fx') us \<and>
     changed_only (set (concat (map addrs ts))) fx fx' \<and> fx_groupings fx' = fx_groupings fx \<and>
     (\<forall>x \<in> set (concat (map addrs us)). x \<in> set (concat (map addrs ts)) \<or> fx_next fx \<le> x \<and> x < fx_next fx')"

lemma grown_list_Cons:
  assumes "grown fx fx1 t t'" and "at_root t' = at_root t" and "grown_list fx1 fx2 ts us"
    and "distinct (concat (map addrs (t # ts)))" and "\<forall>x \<in> set (concat (map addrs (t # ts))). x < fx_next fx"
  shows "grown_list fx fx2 (t # ts) (t' # us)"
proof -
  have ch: "changed_only (set (addrs t)) fx fx1" "changed_only (set (concat (map addrs ts))) fx1 fx2"
    using assms(1,3) by (simp_all add: grown_def grown_list_def)
  then have le: "fx_next fx \<le> fx_next fx1" "fx_next fx1 \<le> fx_next fx2" by (auto simp: changed_only_def)
  have own: "x < fx_next fx1 \<and> x \<notin> set (concat (map addrs ts)) \<and> (x \<in> set (addrs t) \<or> fx_next fx \<le> x)" if "x \<in> set (addrs t')" for x
  proof (cases "x \<in> set (addrs t)")
    case True
    then have "x < fx_next fx" using assms(5) by simp
    with True assms(4) le(1) show ?thesis by auto
  next
    case False
    with assms(1) that have "fx_next fx \<le> x" "x < fx_next fx1" by (auto simp: grown_def)
    moreover from this have "x \<notin> set (concat (map addrs ts))" using assms(5) by (metis Un_iff concat.simps(2) leD list.simps(9) set_append)
    ultimately show ?thesis by blast
  qed
  then have "holds fx2 t'" using assms(1) by (intro changes_holds [OF ch(2)]) (auto simp: grown_def)
  moreover have "changed_only (set (concat (map addrs (t # ts)))) fx fx2" using changes_trans [OF ch] by simp
  moreover have "x \<in> set (concat (map addrs (t # ts))) \<or> fx_next fx \<le> x \<and> x < fx_next fx2" if "x \<in> set (concat (map addrs (t' # us)))" for x
  proof (cases "x \<in> set (addrs t')")
    case True
    with own [OF True] le show ?thesis by auto
  next
    case False
    with that assms(3) have "x \<in> set (concat (map addrs ts)) \<or> fx_next fx1 \<le> x \<and> x < fx_next fx2" by (auto simp: grown_list_def)
    with le show ?thesis by auto
  qed
  ultimately show ?thesis using assms(1-3) unfolding grown_list_def by (simp add: grown_def)
qed

lemma add_links_list:
  assumes "lib_ok pg po" and "\<forall>t \<in> set ts. links_added pg po topm t" and "linkable_tree fx topm ts"
    and "map_result (\<lambda>s. if pg_data_keyword pg (st_keyword s)
           then add_links pg (obj_module_prefix po fx topm tailf) (sub_path path pfx s) pfx s else Inr s) (map erase ts) = Inr ss"
  shows "\<exists>n fx' us. fold_outcome (link_sub n po path pfx) (map at_root ts) fx = Ret fx' \<and> map erase us = ss \<and> grown_list fx fx' ts us"
  using assms(2-4)
proof (induction ts arbitrary: fx ss)
  case (Cons t ts)
  then obtain s ss' where s: "(if pg_data_keyword pg (at_keyword t) then add_links pg (obj_module_prefix po fx topm tailf)
      (sub_path path pfx (erase t)) pfx (erase t) else Inr (erase t)) = Inr s"
    and ss: "map_result (\<lambda>s. if pg_data_keyword pg (st_keyword s)
      then add_links pg (obj_module_prefix po fx topm tailf) (sub_path path pfx s) pfx s else Inr s) (map erase ts) = Inr ss'" "ss = s # ss'"
    by (auto simp: rbind_eq_Inr_iff)
  from link_sub_holds [OF assms(1) _ linkable_tree_single [OF Cons.prems(2)] s] Cons.prems(1) obtain n fx1 t' where
    t': "link_sub n po path pfx (at_root t) fx = Ret fx1" "at_root t' = at_root t" "erase t' = s" and g: "grown fx fx1 t t'" by auto
  have ch: "changed_only (set (addrs t)) fx fx1" using g by (simp add: grown_def)
  note tail = linkable_tree_tail [OF Cons.prems(2) ch]
  have pfx_eq: "obj_module_prefix po fx1 topm tailf = obj_module_prefix po fx topm tailf"
    by (rule module_prefix_changes [OF assms(1) ch]) (use Cons.prems(2) in \<open>auto simp: linkable_tree_def intro: area_ok_mono\<close>)
  have "\<exists>n fx' us. fold_outcome (link_sub n po path pfx) (map at_root ts) fx1 = Ret fx' \<and> map erase us = ss' \<and> grown_list fx1 fx' ts us"
    by (rule Cons.IH [OF _ tail]) (use Cons.prems(1) in simp, unfold pfx_eq, rule ss(1))
  then obtain m fx2 us where us: "fold_outcome (link_sub m po path pfx) (map at_root ts) fx1 = Ret fx2" "map erase us = ss'"
    and gl: "grown_list fx1 fx2 ts us" by blast
  have "grown_list fx fx2 (t # ts) (t' # us)"
    by (rule grown_list_Cons [OF g t'(2) gl]) (use Cons.prems(2) in \<open>auto simp: linkable_tree_def\<close>)
  moreover have "fold_outcome (link_sub (max n m) po path pfx) (map at_root ts) fx1 = Ret fx2"
    by (rule fold_outcome_Ret_cong [OF us(1)]) (erule link_sub_more, simp)
  then have "fold_outcome (link_sub (max n m) po path pfx) (map at_root (t # ts)) fx = Ret fx2"
    using link_sub_more [OF t'(1), of "max n m"] by simp
  ultimately show ?case using t'(3) us(2) ss(2) by (intro exI [of _ "max n m"] exI [of _ fx2] exI [of _ "t' # us"]) simp
qed (auto simp: grown_list_def)

lemma add_links_holds:
  assumes "lib_ok pg po"
  shows "links_added pg po topm t"
proof (induction t)
  case (ANode a kw arg ts)
  show ?case
    unfolding links_added_def
  proof (intro allI impI, elim conjE)
    fix fx path pfx s
    assume lt: "linkable_tree fx topm [ANode a kw arg ts]"
      and s: "add_links pg (obj_module_prefix po fx topm tailf) path pfx (erase (ANode a kw arg ts)) = Inr s"
    let ?t = "ANode a kw arg ts"
    have h: "holds fx ?t" and d: "distinct (addrs ?t)" and x: "\<forall>x \<in> set (addrs ?t). x < fx_next fx" and topm: "nd_top (fx_node fx a) = topm"
      using lt by (auto simp: linkable_tree_def)
    show "\<exists>n fx' t'. obj_add_links n po path pfx (at_root ?t) fx = Ret fx' \<and> at_root t' = at_root ?t \<and> erase t' = s \<and> grown fx fx' ?t t'"
    proof (cases "kw \<in> {Kw ''leaf'', Kw ''leaf-list''}")
      case True
      with s obtain tf where tf: "obj_module_prefix po fx topm tailf = Inr tf"
        and "s = Stmt kw arg (map erase ts @ [Stmt (Ext tf ''link'') path []])" by (auto simp: rbind_eq_Inr_iff)
      with add_links_leaf [OF h True topm tf d x, of 0 path pfx] show ?thesis by (simp only: atree.sel) blast
    next
      case False
      have lts: "linkable_tree fx topm ts" using lt by (auto simp: linkable_tree_def intro: area_ok_mono)
      from s False obtain ss where ss: "map_result (\<lambda>s. if pg_data_keyword pg (st_keyword s)
          then add_links pg (obj_module_prefix po fx topm tailf) (sub_path path pfx s) pfx s else Inr s) (map erase ts) = Inr ss"
        "s = Stmt kw arg ss" by (auto simp: rbind_eq_Inr_iff)
      from add_links_list [OF assms _ lts ss(1)] ANode.IH obtain n fx' us where
        us: "fold_outcome (link_sub n po path pfx) (map at_root ts) fx = Ret fx'" "map erase us = ss" and gl: "grown_list fx fx' ts us" by blast
      have a: "fx_node fx' a = fx_node fx a"
        using gl d x by (intro changes_node [of "set (concat (map addrs ts))"]) (auto simp: grown_list_def)
      have "obj_add_links (Suc n) po path pfx a fx = Ret fx'"
        using False h us(1) by (auto simp: link_sub_def [abs_def])
      moreover have "grown fx fx' ?t (ANode a kw arg us)"
        using gl h a by (auto simp: grown_def grown_list_def intro: changes_mono)
      ultimately show ?thesis using us(2) ss(2) by (intro exI [of _ "Suc n"] exI [of _ fx'] exI [of _ "ANode a kw arg us"]) auto
    qed
  qed
qed

section \<open>A callpoint in a copy\<close>

lemma add_callpoint_holds:
  assumes "holds fx t" and "distinct (addrs t)" and "\<forall>x \<in> set (addrs t). x < fx_next fx"
    and "obj_module_prefix po fx (nd_top (fx_node fx (at_root t))) tailf = Inr tf"
  shows "\<exists>fx' cp t'. obj_add_transform_callpoint po (at_root t) fx = Inr (fx', cp) \<and> at_root t' = at_root t \<and>
     erase t' = Stmt (at_keyword t) (at_arg t) (Stmt (Ext tf ''callpoint'') ''symlink-transform'' [Stmt (Ext tf ''transform'') ''true'' []] #
       map erase (at_children t)) \<and> grown fx fx' t t'"
proof -
  obtain a kw arg ts where t: "t = ANode a kw arg ts" by (cases t)
  obtain fx1 cp where 1: "new_stmt (nd_top (fx_node fx a)) (Some a) (Ext tf ''callpoint'') ''symlink-transform'' fx = (fx1, cp)" by fastforce
  obtain fx2 tr where 2: "new_stmt (nd_top (fx_node fx a)) (Some cp) (Ext tf ''transform'') ''true'' fx1 = (fx2, tr)" by fastforce
  note s1 = new_stmt_sel [OF 1] and s2 = new_stmt_sel [OF 2]
  let ?fx3 = "set_substmts a (cp # substmts fx2 a) fx2"
  let ?fx = "set_substmts cp [tr] ?fx3"
  let ?t = "ANode a kw arg (ANode cp (Ext tf ''callpoint'') ''symlink-transform'' [ANode tr (Ext tf ''transform'') ''true'' []] # ts)"
  have a: "a < fx_next fx" using assms(3) by (simp add: t)
  have "holds ?fx u" if "u \<in> set ts" for u
  proof -
    have "fx_node ?fx x = fx_node fx x" if x: "x \<in> set (addrs u)" for x
    proof -
      have "x < fx_next fx" "x \<noteq> a" using x \<open>u \<in> set ts\<close> assms(2,3) by (auto simp: t)
      then show ?thesis using s1 s2 by simp
    qed
    then show ?thesis using holds_same [of u ?fx fx] assms(1) \<open>u \<in> set ts\<close> by (auto simp: t list_all_iff)
  qed
  then have "holds ?fx ?t" using assms(1) a s1 s2 by (auto simp: t list_all_iff)
  moreover have "fx_next fx \<le> fx_next ?fx" using s1(2) s2(2) by simp
  then have "changed_only (set (addrs t)) fx ?fx"
    using s1 s2 a by (auto simp: changed_only_def t) (metis node.surjective node.update_convs(5))+
  ultimately have "grown fx ?fx t ?t" using s1 s2 by (auto simp: grown_def t)
  moreover have "obj_add_transform_callpoint po a fx = Inr (?fx, cp)"
    using assms(4) 1 2 by (simp add: obj_add_transform_callpoint_def t)
  ultimately show ?thesis by (intro exI [of _ ?fx] exI [of _ cp] exI [of _ ?t]) (simp add: t)
qed

end
