(* ===== verification/Yang_Symlink_Refine.thy ===== *)
theory Yang_Symlink_Refine
  imports Yang_Symlink_Store
begin

text \<open>
  Replacing one link on statement objects implements replacing it on values: the state of the modules with targets, after some targets were
  moved into groupings, as a relation between the store and the groupings on values; and the simulation of \<open>introduce_grouping\<close> and of
  \<open>do_replace_symlink\<close>. The modules with links are other ones than those with targets, as in the example of the repository.
\<close>

section \<open>Modules with targets\<close>

fun no_symlink :: "stmt \<Rightarrow> bool" where
  "no_symlink (Stmt kw arg subs) \<longleftrightarrow> kw \<noteq> Ext tailf ''symlink'' \<and> list_all no_symlink subs"

lemma no_symlink_keywords: "no_symlink (keyword_tree s) = no_symlink s"
  by (induction s) (auto simp: list_all_iff)

text \<open>
  The target of a path in a module; the objects whose lists the plugin changes for the targets; and what is
  assumed of a target: \<open>U\<close> gives the trees of targets and modules, a target is in exactly one list, that of its parent, its tree
  has no link and none of the changed lists, and its module has no links. \<open>L\<close> are the objects of the modules with links.
\<close>

type_synonym finder = "nat \<Rightarrow> string \<Rightarrow> target result"

definition targets :: "finder \<Rightarrow> target set" where
  "targets ft = {tg. \<exists>m s. ft m s = Inr tg}"

definition touched :: "fixer \<Rightarrow> finder \<Rightarrow> nat set" where
  "touched fx0 ft = {p. \<exists>tg \<in> targets ft. nd_parent (fx_node fx0 (tg_id tg)) = Some p} \<union> tg_top_id ` targets ft"

definition only_child_of :: "fixer \<Rightarrow> nat \<Rightarrow> nat \<Rightarrow> bool" where
  "only_child_of fx a p \<longleftrightarrow> a \<in> set (substmts fx p) \<and> distinct (substmts fx p) \<and> p < fx_next fx \<and>
     (\<forall>x < fx_next fx. a \<in> set (substmts fx x) \<longrightarrow> x = p)"

definition target_ok :: "fixer \<Rightarrow> finder \<Rightarrow> nat set \<Rightarrow> (nat \<Rightarrow> atree) \<Rightarrow> target \<Rightarrow> bool" where
  "target_ok fx0 ft L U tg \<longleftrightarrow>
     at_root (U (tg_id tg)) = tg_id tg \<and> holds fx0 (U (tg_id tg)) \<and> erase (U (tg_id tg)) = tg_stmt tg \<and> distinct (addrs (U (tg_id tg))) \<and>
     no_symlink (tg_stmt tg) \<and> st_keyword (tg_stmt tg) \<noteq> Kw ''prefix'' \<and>
     (\<forall>x \<in> set (addrs (U (tg_id tg))). x < fx_next fx0 \<and> nd_top (fx_node fx0 x) = tg_top_id tg \<and> x \<notin> L \<and> x \<notin> touched fx0 ft) \<and>
     at_root (U (tg_top_id tg)) = tg_top_id tg \<and> holds fx0 (U (tg_top_id tg)) \<and> erase (U (tg_top_id tg)) = tg_top tg \<and>
     (\<forall>x \<in> set (addrs (U (tg_top_id tg))). x < fx_next fx0 \<and> x \<notin> L) \<and>
     (\<exists>p. nd_parent (fx_node fx0 (tg_id tg)) = Some p \<and> p \<notin> L \<and> only_child_of fx0 (tg_id tg) p)"

definition targets_ok :: "fixer \<Rightarrow> finder \<Rightarrow> nat set \<Rightarrow> (nat \<Rightarrow> atree) \<Rightarrow> bool" where
  "targets_ok fx0 ft L U \<longleftrightarrow> (\<forall>tg \<in> targets ft. target_ok fx0 ft L U tg) \<and> inj_on tg_id (targets ft) \<and> (\<forall>x \<in> L. x < fx_next fx0)"

text \<open>
  The modules with targets after some groupings: \<open>us\<close> has the \<open>uses\<close> statement of every grouped target, \<open>gs\<close> the groupings that were
  appended to the modules.
\<close>

definition new_tree :: "fixer \<Rightarrow> fixer \<Rightarrow> atree \<Rightarrow> bool" where
  "new_tree fx0 fx t \<longleftrightarrow> holds fx t \<and> (\<forall>x \<in> set (addrs t). fx_next fx0 \<le> x \<and> x < fx_next fx)"

definition moved :: "(nat \<times> nat) list \<Rightarrow> nat \<Rightarrow> nat" where
  "moved us c = (case map_of us c of Some u \<Rightarrow> u | None \<Rightarrow> c)"

definition appended_to :: "(nat \<times> atree) list \<Rightarrow> nat \<Rightarrow> nat list" where
  "appended_to gs x = map (\<lambda>y. at_root (snd y)) (filter (\<lambda>y. fst y = x) gs)"

definition modules_at :: "fixer \<Rightarrow> finder \<Rightarrow> nat set \<Rightarrow> (nat \<times> nat) list \<Rightarrow> (nat \<times> atree) list \<Rightarrow> fixer \<Rightarrow> bool" where
  "modules_at fx0 ft L us gs fx \<longleftrightarrow> fx_next fx0 \<le> fx_next fx \<and>
     (\<forall>x < fx_next fx0. x \<notin> L \<longrightarrow>
        fx_node fx x = (fx_node fx0 x)\<lparr>nd_substmts := map (moved us) (substmts fx0 x) @ appended_to gs x\<rparr>) \<and>
     (\<forall>(i, u) \<in> set us. \<exists>tg \<in> targets ft. tg_id tg = i \<and> new_tree fx0 fx (ANode u (Kw ''uses'') (group_name (tg_stmt tg)) [])) \<and>
     (\<forall>(m, t) \<in> set gs. m \<in> tg_top_id ` targets ft \<and> new_tree fx0 fx t \<and> at_keyword t = Kw ''grouping'' \<and> no_symlink (erase t))"

lemma modules_at_sel:
  assumes "modules_at fx0 ft L us gs fx"
  shows "fx_next fx0 \<le> fx_next fx"
    and "x < fx_next fx0 \<Longrightarrow> x \<notin> L \<Longrightarrow> fx_node fx x = (fx_node fx0 x)\<lparr>nd_substmts := map (moved us) (substmts fx0 x) @ appended_to gs x\<rparr>"
    and "(i, u) \<in> set us \<Longrightarrow> \<exists>tg \<in> targets ft. tg_id tg = i \<and> new_tree fx0 fx (ANode u (Kw ''uses'') (group_name (tg_stmt tg)) [])"
    and "(m, t) \<in> set gs \<Longrightarrow> m \<in> tg_top_id ` targets ft \<and> new_tree fx0 fx t \<and> at_keyword t = Kw ''grouping'' \<and> no_symlink (erase t)"
  using assms by (auto simp: modules_at_def)

lemma modules_atI:
  assumes "fx_next fx0 \<le> fx_next fx"
    and "\<And>x. x < fx_next fx0 \<Longrightarrow> x \<notin> L \<Longrightarrow>
      fx_node fx x = (fx_node fx0 x)\<lparr>nd_substmts := map (moved us) (substmts fx0 x) @ appended_to gs x\<rparr>"
    and "\<And>i u. (i, u) \<in> set us \<Longrightarrow> \<exists>tg \<in> targets ft. tg_id tg = i \<and> new_tree fx0 fx (ANode u (Kw ''uses'') (group_name (tg_stmt tg)) [])"
    and "\<And>m t. (m, t) \<in> set gs \<Longrightarrow> m \<in> tg_top_id ` targets ft \<and> new_tree fx0 fx t \<and> at_keyword t = Kw ''grouping'' \<and> no_symlink (erase t)"
  shows "modules_at fx0 ft L us gs fx"
  unfolding modules_at_def using assms by blast

lemma targetD:
  assumes "targets_ok fx0 ft L U" and "tg \<in> targets ft"
  shows "at_root (U (tg_id tg)) = tg_id tg" "holds fx0 (U (tg_id tg))" "erase (U (tg_id tg)) = tg_stmt tg" "distinct (addrs (U (tg_id tg)))"
    "no_symlink (tg_stmt tg)" "st_keyword (tg_stmt tg) \<noteq> Kw ''prefix''"
    "x \<in> set (addrs (U (tg_id tg))) \<Longrightarrow> x < fx_next fx0 \<and> nd_top (fx_node fx0 x) = tg_top_id tg \<and> x \<notin> L \<and> x \<notin> touched fx0 ft"
    "\<exists>p. nd_parent (fx_node fx0 (tg_id tg)) = Some p"
  using assms unfolding targets_ok_def target_ok_def by blast+

lemma moved_id: "c \<notin> fst ` set us \<Longrightarrow> moved us c = c"
  by (simp add: moved_def map_of_eq_None_iff split: option.splits) (metis image_eqI fst_conv map_of_SomeD option.distinct(1) option.exhaust)

lemma moved_snoc: "i \<notin> fst ` set us \<Longrightarrow> moved (us @ [(i, u)]) c = (if c = i then u else moved us c)"
  by (auto simp: moved_def map_of_eq_None_iff [symmetric] split: option.splits)

lemma modules_at_node:
  assumes "targets_ok fx0 ft L U" and "modules_at fx0 ft L us gs fx" and "x < fx_next fx0" "x \<notin> L" "x \<notin> touched fx0 ft"
  shows "fx_node fx x = fx_node fx0 x"
proof -
  have "appended_to gs x = []" using modules_at_sel(4) [OF assms(2)] assms(5) by (auto simp: appended_to_def filter_empty_conv touched_def)
  moreover have "map (moved us) (substmts fx0 x) = substmts fx0 x"
  proof (rule map_idI, rule moved_id, rule notI)
    fix c
    assume c: "c \<in> set (substmts fx0 x)" "c \<in> fst ` set us"
    then obtain u where "(c, u) \<in> set us" by auto
    with modules_at_sel(3) [OF assms(2)] obtain tg where tg: "tg \<in> targets ft" "tg_id tg = c" by blast
    with assms(1) obtain p where "nd_parent (fx_node fx0 c) = Some p" "only_child_of fx0 c p"
      by (auto simp: targets_ok_def target_ok_def)
    with c(1) assms(3) tg have "x \<in> touched fx0 ft" by (auto simp: only_child_of_def touched_def)
    with assms(5) show False ..
  qed
  ultimately show ?thesis using modules_at_sel(2) [OF assms(2-4)] by simp
qed

lemma target_holds:
  assumes "targets_ok fx0 ft L U" and "modules_at fx0 ft L us gs fx" and "tg \<in> targets ft"
  shows "holds fx (U (tg_id tg))" and "\<forall>x \<in> set (addrs (U (tg_id tg))). x < fx_next fx \<and> fx_node fx x = fx_node fx0 x"
proof -
  have u: "\<forall>x \<in> set (addrs (U (tg_id tg))). x < fx_next fx0 \<and> x \<notin> L \<and> x \<notin> touched fx0 ft" "holds fx0 (U (tg_id tg))"
    using assms(1,3) by (auto simp: targets_ok_def target_ok_def)
  show same: "\<forall>x \<in> set (addrs (U (tg_id tg))). x < fx_next fx \<and> fx_node fx x = fx_node fx0 x"
    using u(1) modules_at_node [OF assms(1,2)] modules_at_sel(1) [OF assms(2)] by (meson less_le_trans)
  show "holds fx (U (tg_id tg))" using holds_same [of "U (tg_id tg)" fx fx0] same u(2) by blast
qed

text \<open>Steps that change nothing in the modules with targets.\<close>

lemma modules_at_frame:
  assumes "targets_ok fx0 ft L U" and "modules_at fx0 ft L us gs fx" and "changed_only D fx fx'" and "D \<subseteq> L"
  shows "modules_at fx0 ft L us gs fx'"
proof -
  have L: "\<forall>x \<in> L. x < fx_next fx0" using assms(1) by (simp add: targets_ok_def)
  have le: "fx_next fx0 \<le> fx_next fx" "fx_next fx \<le> fx_next fx'" using assms(2,3) by (auto simp: modules_at_def changed_only_def)
  have new: "new_tree fx0 fx' t" if "new_tree fx0 fx t" for t
    using that le L assms(4) by (auto simp: new_tree_def intro!: changes_holds [OF assms(3)]) fastforce+
  have "fx_node fx' x = fx_node fx x" if "x < fx_next fx0" "x \<notin> L" for x
    using changes_node [OF assms(3), of x] that le assms(4) by auto
  then show ?thesis
    using assms(2) le new unfolding modules_at_def by (fastforce split: prod.splits)
qed

lemma new_tree_changes:
  assumes "changed_only D fx fx'" and "\<forall>x \<in> D. x < fx_next fx0" and "new_tree fx0 fx t"
  shows "new_tree fx0 fx' t"
proof -
  have "\<forall>x \<in> set (addrs t). x < fx_next fx \<and> x \<notin> D" using assms(2,3) unfolding new_tree_def by (meson leD)
  then have "holds fx' t" using assms(3) by (intro changes_holds [OF assms(1)]) (simp add: new_tree_def)
  with assms(1,3) show ?thesis by (auto simp: new_tree_def changed_only_def)
qed

lemma top_ok:
  assumes "targets_ok fx0 ft L U" and "tg \<in> targets ft"
  shows "tg_top_id tg < fx_next fx0" "tg_top_id tg \<notin> L" "tg_top_id tg \<in> touched fx0 ft"
  using assms root_addrs [of "U (tg_top_id tg)"] by (auto simp: targets_ok_def target_ok_def touched_def simp del: root_addrs)

lemma parent_ok:
  assumes "targets_ok fx0 ft L U" and "tg \<in> targets ft" and "nd_parent (fx_node fx0 (tg_id tg)) = Some p"
  shows "only_child_of fx0 (tg_id tg) p" "p \<notin> L" "p < fx_next fx0"
proof -
  from assms(1,2) have "target_ok fx0 ft L U tg" by (simp add: targets_ok_def)
  then obtain q where "nd_parent (fx_node fx0 (tg_id tg)) = Some q" "q \<notin> L" "only_child_of fx0 (tg_id tg) q"
    unfolding target_ok_def by blast
  with assms(3) show "only_child_of fx0 (tg_id tg) p" "p \<notin> L" by simp_all
  then show "p < fx_next fx0" by (simp add: only_child_of_def)
qed

lemma touched_old:
  assumes "targets_ok fx0 ft L U" and "x \<in> touched fx0 ft"
  shows "x < fx_next fx0" "x \<notin> L"
  using assms(2) top_ok [OF assms(1)] parent_ok [OF assms(1)] by (auto simp: touched_def)

text \<open>The prefix of a module is found as before, because neither targets nor \<open>uses\<close> and \<open>grouping\<close> statements are prefixes.\<close>

lemma find_moved:
  assumes "\<forall>x \<in> set xs. P' (f x) = P x \<and> (P x \<longrightarrow> f x = x)" and "\<forall>y \<in> set ys. \<not> P' y"
  shows "find P' (map f xs @ ys) = find P xs"
  using assms(1)
proof (induction xs)
  case Nil
  then show ?case using assms(2) by (auto simp: find_None_iff)
qed auto

lemma target_prefix:
  assumes lib: "lib_ok pg po" and ok: "targets_ok fx0 ft L U" and at: "modules_at fx0 ft L us gs fx" and tg: "tg \<in> targets ft"
  shows "obj_arg fx (po_search_one po fx (tg_top_id tg) (Kw ''prefix'') None) = arg_of (pg_search_one pg (tg_top tg) (Kw ''prefix'') None)"
proof -
  let ?m = "tg_top_id tg" and ?M = "U (tg_top_id tg)"
  let ?P = "\<lambda>fx c. matches (Kw ''prefix'') None (keyword_at fx c) (arg_at fx c)"
  have M: "at_root ?M = ?m" "holds fx0 ?M" "erase ?M = tg_top tg" "\<forall>x \<in> set (addrs ?M). x < fx_next fx0 \<and> x \<notin> L"
    using ok tg by (auto simp: targets_ok_def target_ok_def)
  have kids: "\<forall>x \<in> set (substmts fx0 ?m). x < fx_next fx0 \<and> x \<notin> L"
    using holds_root [OF M(2)] M(1,4) by (cases ?M) auto
  have field: "keyword_at fx x = keyword_at fx0 x \<and> arg_at fx x = arg_at fx0 x" if "x \<in> set (substmts fx0 ?m)" for x
    using kids that modules_at_sel(2) [OF at] by simp
  have moved: "?P fx (moved us x) = ?P fx0 x \<and> (?P fx0 x \<longrightarrow> moved us x = x)" if x: "x \<in> set (substmts fx0 ?m)" for x
  proof (cases "map_of us x")
    case (Some u)
    with modules_at_sel(3) [OF at map_of_SomeD] obtain tg' where tg': "tg' \<in> targets ft" "tg_id tg' = x"
      and u: "new_tree fx0 fx (ANode u (Kw ''uses'') (group_name (tg_stmt tg')) [])" by blast
    with ok have h: "holds fx0 (U x)" "at_root (U x) = x" "st_keyword (tg_stmt tg') \<noteq> Kw ''prefix''" "erase (U x) = tg_stmt tg'"
      by (auto simp: targets_ok_def target_ok_def)
    have "keyword_at fx0 x = st_keyword (tg_stmt tg')" using holds_root [OF h(1)] h(2) by (simp flip: h(4))
    with u Some h(3) show ?thesis by (simp add: matches_def moved_def new_tree_def)
  qed (use field [OF x] in \<open>simp add: moved_def\<close>)
  have list: "substmts fx ?m = map (moved us) (substmts fx0 ?m) @ appended_to gs ?m"
    using modules_at_sel(2) [OF at top_ok(1,2) [OF ok tg]] by simp
  have "find (?P fx) (substmts fx ?m) = find (?P fx0) (substmts fx0 ?m)"
    unfolding list
  proof (rule find_moved)
    show "\<forall>y \<in> set (appended_to gs ?m). \<not> ?P fx y"
      using modules_at_sel(4) [OF at] holds_root by (fastforce simp: appended_to_def matches_def new_tree_def)
  qed (use moved in blast)
  then have "po_search_one po fx ?m (Kw ''prefix'') None = po_search_one po fx0 ?m (Kw ''prefix'') None"
    using lib by (simp add: lib_ok_def)
  moreover have "obj_arg fx (po_search_one po fx0 ?m (Kw ''prefix'') None) = obj_arg fx0 (po_search_one po fx0 ?m (Kw ''prefix'') None)"
    using field search_child(1) [OF lib, of fx0 ?m] by (auto simp: obj_arg_def split: option.splits)
  moreover have "obj_arg fx0 (po_search_one po fx0 ?m (Kw ''prefix'') None) = arg_of (pg_search_one pg (tg_top tg) (Kw ''prefix'') None)"
    using search_holds [OF lib M(2), of "Kw ''prefix''" None] M(1,3) child_search_holds [OF M(2)] holds_root
    by (auto simp: obj_arg_def arg_of_def split: option.splits)
  ultimately show ?thesis by simp
qed

text \<open>A target is replaced in the list of its parent.\<close>

lemma index_update:
  assumes "a \<in> set xs" and "distinct xs" and "\<forall>x \<in> set xs. (f x = a) = (x = a)"
  shows "(map f xs @ ys)[length (takeWhile (\<lambda>y. y \<noteq> a) (map f xs @ ys)) := u] = map (\<lambda>c. if c = a then u else f c) xs @ ys"
  using assms
proof (induction xs)
  case (Cons x xs)
  show ?case
  proof (cases "x = a")
    case True
    with Cons.prems have "map f xs = map (\<lambda>c. if c = a then u else f c) xs" by auto
    with True Cons.prems show ?thesis by simp
  qed (use Cons in simp)
qed simp

lemma moved_back:
  assumes "targets_ok fx0 ft L U" and "modules_at fx0 ft L us gs fx" and "a < fx_next fx0" and "a \<notin> fst ` set us"
  shows "(moved us x = a) = (x = a)"
proof (cases "map_of us x")
  case (Some u)
  with modules_at_sel(3) [OF assms(2) map_of_SomeD] have "fx_next fx0 \<le> u" by (force simp: new_tree_def)
  moreover have "x \<noteq> a" using Some assms(4) map_of_SomeD by force
  ultimately show ?thesis using Some assms(3) by (auto simp: moved_def)
qed (simp add: moved_def)

lemma modules_at_uses:
  assumes ok: "targets_ok fx0 ft L U" and at: "modules_at fx0 ft L us gs fx" and tg: "tg \<in> targets ft" and new: "tg_id tg \<notin> fst ` set us"
    and u: "new_stmt topm par (Kw ''uses'') (group_name (tg_stmt tg)) fx = (fx2, u)" and p: "nd_parent (fx_node fx0 (tg_id tg)) = Some p"
  shows "\<exists>ix. list_index (tg_id tg) (substmts fx2 p) = Inr ix \<and>
     modules_at fx0 ft L (us @ [(tg_id tg, u)]) gs (set_substmts p ((substmts fx2 p)[ix := u]) fx2)"
proof -
  let ?a = "tg_id tg" and ?us = "us @ [(tg_id tg, u)]"
  have a: "?a < fx_next fx0" using ok tg root_addrs [of "U ?a"] by (auto simp: targets_ok_def target_ok_def simp del: root_addrs)
  note p' = parent_ok [OF ok tg p]
  have le: "fx_next fx0 \<le> fx_next fx" by (rule modules_at_sel(1) [OF at])
  note sel = new_stmt_sel [OF u]
  have "substmts fx2 p = substmts fx p" using sel p'(3) le by simp
  then have zs: "substmts fx2 p = map (moved us) (substmts fx0 p) @ appended_to gs p"
    using modules_at_sel(2) [OF at p'(3,2)] by simp
  have bk: "\<forall>x \<in> set (substmts fx0 p). (moved us x = ?a) = (x = ?a)" using moved_back [OF ok at a new] by blast
  let ?ix = "length (takeWhile (\<lambda>y. y \<noteq> ?a) (substmts fx2 p))"
  let ?fx = "set_substmts p ((substmts fx2 p)[?ix := u]) fx2"
  have ix: "list_index ?a (substmts fx2 p) = Inr ?ix"
    using p'(1) moved_id [OF new] image_eqI [of ?a "moved us" ?a "set (substmts fx0 p)"]
    unfolding zs list_index_def only_child_of_def by simp
  have upd: "(substmts fx2 p)[?ix := u] = map (moved ?us) (substmts fx0 p) @ appended_to gs p"
    unfolding zs using index_update [OF _ _ bk] p'(1) by (simp add: only_child_of_def moved_snoc [OF new] cong: map_cong)
  have ch: "changed_only {p} fx ?fx" using changes_trans [OF changes_new [OF u] changes_set] by simp
  have "fx_node ?fx x = (fx_node fx0 x)\<lparr>nd_substmts := map (moved ?us) (substmts fx0 x) @ appended_to gs x\<rparr>" if x: "x < fx_next fx0" "x \<notin> L" for x
  proof (cases "x = p")
    case True
    have "fx_node fx2 p = fx_node fx p" using sel p'(3) le by simp
    with True upd modules_at_sel(2) [OF at x] show ?thesis by simp
  next
    case False
    with p'(1) x have "?a \<notin> set (substmts fx0 x)" by (auto simp: only_child_of_def)
    then have "map (moved ?us) (substmts fx0 x) = map (moved us) (substmts fx0 x)" by (auto simp: moved_snoc [OF new])
    moreover have "fx_node ?fx x = fx_node fx x" using False changes_node [OF ch] x le by simp
    ultimately show ?thesis using modules_at_sel(2) [OF at x] by simp
  qed
  moreover have keep: "new_tree fx0 fx t \<Longrightarrow> new_tree fx0 ?fx t" for t
    by (rule new_tree_changes [OF ch]) (use p'(3) in auto)
  moreover have own: "new_tree fx0 ?fx (ANode u (Kw ''uses'') (group_name (tg_stmt tg)) [])"
    using sel le p'(3) by (simp add: new_tree_def)
  moreover have "fx_next fx0 \<le> fx_next ?fx" using sel le by simp
  moreover have "\<exists>tg \<in> targets ft. tg_id tg = i \<and> new_tree fx0 ?fx (ANode v (Kw ''uses'') (group_name (tg_stmt tg)) [])"
    if "(i, v) \<in> set ?us" for i v
    using that keep own tg modules_at_sel(3) [OF at, of i v] by auto
  ultimately have "modules_at fx0 ft L ?us gs ?fx"
    using modules_at_sel(4) [OF at] by (intro modules_atI) blast+
  with ix show ?thesis by blast
qed

lemma modules_at_grouping:
  assumes "modules_at fx0 ft L us gs fx" and "new_tree fx0 fx t" and "at_keyword t = Kw ''grouping''" and "no_symlink (erase t)"
    and "m \<in> tg_top_id ` targets ft" and "m < fx_next fx0" and "m \<notin> L"
  shows "modules_at fx0 ft L us (gs @ [(m, t)]) (set_substmts m (substmts fx m @ [at_root t]) fx)"
proof -
  let ?fx = "set_substmts m (substmts fx m @ [at_root t]) fx"
  have keep: "new_tree fx0 fx t' \<Longrightarrow> new_tree fx0 ?fx t'" for t'
    by (rule new_tree_changes [OF changes_set]) (use assms(6) in auto)
  have "fx_node ?fx x = (fx_node fx0 x)\<lparr>nd_substmts := map (moved us) (substmts fx0 x) @ appended_to (gs @ [(m, t)]) x\<rparr>"
    if "x < fx_next fx0" "x \<notin> L" for x
    using modules_at_sel(2) [OF assms(1) that] by (auto simp: appended_to_def)
  with assms keep show ?thesis unfolding modules_at_def by (fastforce split: prod.splits)
qed

section \<open>Groupings\<close>

text \<open>The state of the groupings on values that a store has.\<close>

definition groups_at :: "fixer \<Rightarrow> finder \<Rightarrow> nat set \<Rightarrow> groups \<Rightarrow> fixer \<Rightarrow> bool" where
  "groups_at fx0 ft L g fx \<longleftrightarrow>
     (\<exists>us gs. modules_at fx0 ft L us gs fx \<and> fx_groupings fx = gr_names g \<and> map fst us = map fst (gr_names g) \<and>
        (\<forall>(i, nm) \<in> set (gr_names g). \<exists>tg \<in> targets ft. tg_id tg = i \<and> nm = group_name (tg_stmt tg)) \<and>
        gr_appended g = map (\<lambda>(m, t). (m, erase t)) gs)"

lemma groups_at_frame:
  assumes "targets_ok fx0 ft L U" and "groups_at fx0 ft L g fx" and "changed_only D fx fx'" and "D \<subseteq> L" and "fx_groupings fx' = fx_groupings fx"
  shows "groups_at fx0 ft L g fx'"
  using assms(2,5) modules_at_frame [OF assms(1) _ assms(3,4)] by (auto simp: groups_at_def)

lemma changes_groupings: "changed_only {} fx (fx\<lparr>fx_groupings := ns\<rparr>)"
  by (rule changes_same) simp_all

lemma fix_xpaths_target:
  assumes "lib_ok pg po" and "targets_ok fx0 ft L U" and "modules_at fx0 ft L us gs fx" and "tg \<in> targets ft"
    and "x \<in> set (addrs (U (tg_id tg)))"
  shows "obj_fix_xpaths po fx x = fix_xpaths pg (tg_top tg)"
proof -
  have "nd_top (fx_node fx x) = tg_top_id tg"
    using target_holds(2) [OF assms(2-4)] targetD(7) [OF assms(2,4,5)] assms(5) by simp
  with target_prefix [OF assms(1-4)] assms(1) show ?thesis
    by (intro ext) (simp add: obj_fix_xpaths_def fix_xpaths_def lib_ok_def)
qed

lemma copyD:
  assumes "copy_ok pg po" and "holds fx t" and "distinct (addrs t)" and "\<forall>x \<in> set (addrs t). x < fx_next fx \<and> cb x = f"
    and "pg_copy pg f (keyword_at fx p) (erase t) = Inr s"
  shows "\<exists>fx' t'. po_copy po cb topm (Some p) (at_root t) fx = Inr (fx', at_root t') \<and> fresh_tree fx fx' t' \<and> erase t' = s \<and>
     (\<forall>v. topm = Some v \<longrightarrow> (\<forall>x \<in> set (addrs t'). nd_top (fx_node fx' x) = v)) \<and>
     changed_only {} fx fx' \<and> fx_groupings fx' = fx_groupings fx"
  by (rule assms(1) [unfolded copy_ok_def, THEN conjunct1, rule_format, of fx t cb f p s topm]) (use assms(2-5) in blast)

lemma copy_target:
  assumes "lib_ok pg po" and "targets_ok fx0 ft L U" and "modules_at fx0 ft L us gs fx" and "tg \<in> targets ft"
    and "pg_copy pg (fix_xpaths pg (tg_top tg)) (keyword_at fx p) (tg_stmt tg) = Inr s"
  shows "\<exists>fx' t. po_copy po (obj_fix_xpaths po fx) topm (Some p) (tg_id tg) fx = Inr (fx', at_root t) \<and> fresh_tree fx fx' t \<and> erase t = s \<and>
     (\<forall>v. topm = Some v \<longrightarrow> (\<forall>x \<in> set (addrs t). nd_top (fx_node fx' x) = v)) \<and>
     changed_only {} fx fx' \<and> fx_groupings fx' = fx_groupings fx"
proof -
  let ?u = "U (tg_id tg)"
  note u = targetD(1,3,4) [OF assms(2,4)]
  have "\<forall>x \<in> set (addrs ?u). x < fx_next fx \<and> obj_fix_xpaths po fx x = fix_xpaths pg (tg_top tg)"
    using target_holds(2) [OF assms(2-4)] fix_xpaths_target [OF assms(1-4)] by blast
  moreover have "holds fx ?u" by (rule target_holds(1) [OF assms(2-4)])
  moreover have "copy_ok pg po" using assms(1) by (simp add: lib_ok_def)
  ultimately show ?thesis using copyD [of pg po fx ?u "obj_fix_xpaths po fx" "fix_xpaths pg (tg_top tg)" p s topm] u assms(5) by simp
qed

lemma copy_no_symlink:
  "lib_ok pg po \<Longrightarrow> pg_copy pg f kw s = Inr s' \<Longrightarrow> no_symlink s' = no_symlink s"
  using no_symlink_keywords [of s] no_symlink_keywords [of s'] by (simp add: lib_ok_def copy_ok_def)

text \<open>The copied contents below the new grouping.\<close>

lemma grouping_tree:
  assumes "new_stmt m par (Kw ''grouping'') name fx3 = (fx4, gr)" and "fresh_tree fx4 fx5 t" and "changed_only {} fx4 fx5" and "fx_next fx0 \<le> fx_next fx3"
  shows "new_tree fx0 (set_substmts gr [at_root t] fx5) (ANode gr (Kw ''grouping'') name [t])" and "changed_only {} fx3 (set_substmts gr [at_root t] fx5)"
proof -
  note sel = new_stmt_sel [OF assms(1)]
  let ?fx = "set_substmts gr [at_root t] fx5"
  have gr: "fx_node fx5 gr = fx_node fx4 gr" "gr < fx_next fx5"
    using changes_node [OF assms(3), of gr] assms(3) sel by (auto simp: changed_only_def)
  have "gr \<notin> set (addrs t)" using assms(2) sel by (auto simp: fresh_tree_def)
  then have "holds ?fx t" using holds_set assms(2) by (simp add: fresh_tree_def)
  then show "new_tree fx0 ?fx (ANode gr (Kw ''grouping'') name [t])"
    using gr sel assms(2,4) by (auto simp: new_tree_def fresh_tree_def)
  have "fx_node ?fx x = fx_node fx3 x" if "x < fx_next fx3" for x
    using that changes_node [OF assms(3), of x] sel by auto
  moreover have "fx_next fx3 \<le> fx_next ?fx" using sel assms(3) by (auto simp: changed_only_def)
  ultimately show "changed_only {} fx3 ?fx" by (intro changes_same)
qed

lemma introduce_new:
  assumes lib: "lib_ok pg po" and ok: "targets_ok fx0 ft L U" and at: "modules_at fx0 ft L us gs fx" and tg: "tg \<in> targets ft"
    and new: "tg_id tg \<notin> fst ` set us" "map_of (fx_groupings fx) (tg_id tg) = None"
    and c: "pg_copy pg (fix_xpaths pg (tg_top tg)) (Kw ''grouping'') (tg_stmt tg) = Inr c"
  shows "\<exists>fx' u t. obj_introduce_grouping po (tg_id tg) fx = Inr (fx', group_name (tg_stmt tg)) \<and>
     modules_at fx0 ft L (us @ [(tg_id tg, u)]) (gs @ [(tg_top_id tg, t)]) fx' \<and> erase t = Stmt (Kw ''grouping'') (group_name (tg_stmt tg)) [c] \<and>
     fx_groupings fx' = fx_groupings fx @ [(tg_id tg, group_name (tg_stmt tg))] \<and> changed_only (touched fx0 ft) fx fx'"
proof -
  let ?a = "tg_id tg" and ?m = "tg_top_id tg" and ?name = "group_name (tg_stmt tg)"
  let ?fx1 = "fx\<lparr>fx_groupings := fx_groupings fx @ [(?a, ?name)]\<rparr>"
  have u: "holds fx (U ?a)" "at_root (U ?a) = ?a" "erase (U ?a) = tg_stmt tg" "?a \<in> set (addrs (U ?a))"
    using target_holds(1) [OF ok at tg] targetD(1,3) [OF ok tg] root_addrs [of "U ?a"] by simp_all
  have a: "fx_node fx ?a = fx_node fx0 ?a" "?a < fx_next fx" "nd_top (fx_node fx0 ?a) = ?m" "arg_at fx ?a = st_arg (tg_stmt tg)"
    using target_holds(2) [OF ok at tg] u(2,4) targetD(7) [OF ok tg u(4)] holds_root [OF u(1)] by (simp_all flip: u(3))
  obtain p where p: "nd_parent (fx_node fx0 ?a) = Some p" using targetD(8) [OF ok tg] by blast
  have at1: "modules_at fx0 ft L us gs ?fx1" using modules_at_frame [OF ok at changes_groupings] by simp
  obtain fx2 us' where new2: "new_stmt ?m (Some p) (Kw ''uses'') ?name ?fx1 = (fx2, us')" by fastforce
  note sel2 = new_stmt_sel [OF new2]
  from modules_at_uses [OF ok at1 tg new(1) new2 p] obtain ix where ix: "list_index ?a (substmts fx2 p) = Inr ix"
    and at3: "modules_at fx0 ft L (us @ [(?a, us')]) gs (set_substmts p ((substmts fx2 p)[ix := us']) fx2)" by blast
  let ?fx3 = "set_substmts p ((substmts fx2 p)[ix := us']) fx2"
  obtain fx4 gr where new4: "new_stmt ?m (Some ?m) (Kw ''grouping'') ?name ?fx3 = (fx4, gr)" by fastforce
  note sel4 = new_stmt_sel [OF new4]
  have at4: "modules_at fx0 ft L (us @ [(?a, us')]) gs fx4" using modules_at_frame [OF ok at3 changes_new [OF new4]] by simp
  have "keyword_at fx4 gr = Kw ''grouping''" using sel4 by simp
  with copy_target [OF lib ok at4 tg, of gr c None] c obtain fx5 t where
    t: "po_copy po (obj_fix_xpaths po fx4) None (Some gr) ?a fx4 = Inr (fx5, at_root t)" "fresh_tree fx4 fx5 t" "erase t = c" "changed_only {} fx4 fx5"
      "fx_groupings fx5 = fx_groupings fx4" by auto
  let ?fx6 = "set_substmts gr [at_root t] fx5" and ?t = "ANode gr (Kw ''grouping'') ?name [t]"
  note gt = grouping_tree [OF new4 t(2,4) modules_at_sel(1) [OF at3]]
  have at6: "modules_at fx0 ft L (us @ [(?a, us')]) gs ?fx6" using modules_at_frame [OF ok at3 gt(2)] by simp
  have "no_symlink (erase ?t)" using copy_no_symlink [OF lib c] targetD(5) [OF ok tg] t(3) by (simp add: tailf_def)
  with modules_at_grouping [OF at6 gt(1) _ _ imageI [OF tg] top_ok(1,2) [OF ok tg]]
  have at7: "modules_at fx0 ft L (us @ [(?a, us')]) (gs @ [(?m, ?t)]) (set_substmts ?m (substmts ?fx6 ?m @ [gr]) ?fx6)" by simp
  have "changed_only (touched fx0 ft) fx (set_substmts ?m (substmts ?fx6 ?m @ [gr]) ?fx6)"
    by (rule changes_mono [OF changes_trans [OF changes_trans [OF changes_trans [OF changes_groupings
            changes_trans [OF changes_new [OF new2] changes_set]] gt(2)] changes_set]])
      (use tg p in \<open>auto simp: touched_def\<close>)
  moreover have "obj_introduce_grouping po ?a fx = Inr (set_substmts ?m (substmts ?fx6 ?m @ [gr]) ?fx6, ?name)"
    using new(2) a p new2 ix new4 t(1) sel2 by (auto simp: obj_introduce_grouping_def group_name_def Let_def)
  ultimately show ?thesis
    using at7 t(3,5) sel2(3) sel4(3) by (intro exI [of _ "set_substmts ?m (substmts ?fx6 ?m @ [gr]) ?fx6"] exI [of _ us'] exI [of _ ?t]) simp
qed

lemma introduce_holds:
  assumes lib: "lib_ok pg po" and ok: "targets_ok fx0 ft L U" and at: "groups_at fx0 ft L g fx" and tg: "tg \<in> targets ft"
    and g': "introduce_grouping pg tg g = Inr (name, g')"
  shows "\<exists>fx'. obj_introduce_grouping po (tg_id tg) fx = Inr (fx', name) \<and> groups_at fx0 ft L g' fx' \<and> changed_only (touched fx0 ft) fx fx'"
proof -
  from at obtain us gs where m: "modules_at fx0 ft L us gs fx" "fx_groupings fx = gr_names g" "map fst us = map fst (gr_names g)"
    "gr_appended g = map (\<lambda>(m, t). (m, erase t)) gs"
    "\<forall>(i, nm) \<in> set (gr_names g). \<exists>tg \<in> targets ft. tg_id tg = i \<and> nm = group_name (tg_stmt tg)" unfolding groups_at_def by blast
  show ?thesis
  proof (cases "map_of (gr_names g) (tg_id tg)")
    case (Some nm)
    with g' m(2) at show ?thesis by (auto simp: introduce_grouping_def obj_introduce_grouping_def)
  next
    case None
    with g' obtain c where c: "pg_copy pg (fix_xpaths pg (tg_top tg)) (Kw ''grouping'') (tg_stmt tg) = Inr c" and name: "name = group_name (tg_stmt tg)"
      and gg: "g' = g\<lparr>gr_names := gr_names g @ [(tg_id tg, name)],
        gr_appended := gr_appended g @ [(tg_top_id tg, Stmt (Kw ''grouping'') name [c])]\<rparr>"
      by (auto simp: introduce_grouping_def Let_def rbind_eq_Inr_iff)
    have "tg_id tg \<notin> fst ` set us" using None m(3) by (metis list.set_map map_of_eq_None_iff)
    from introduce_new [OF lib ok m(1) tg this _ c] None m(2) obtain fx' u t where
      "obj_introduce_grouping po (tg_id tg) fx = Inr (fx', name)" "modules_at fx0 ft L (us @ [(tg_id tg, u)]) (gs @ [(tg_top_id tg, t)]) fx'"
      "erase t = Stmt (Kw ''grouping'') name [c]" "fx_groupings fx' = fx_groupings fx @ [(tg_id tg, name)]" "changed_only (touched fx0 ft) fx fx'"
      by (auto simp: name)
    with m gg tg name show ?thesis
      by (intro exI [of _ fx']) (auto simp: groups_at_def intro!: exI [of _ "us @ [(tg_id tg, u)]"] exI [of _ "gs @ [(tg_top_id tg, t)]"])
  qed
qed

section \<open>One link\<close>

text \<open>
  Where a link is replaced: the store has the groupings, and the prefixes of the module of the link are those of its value. The result is a
  new tree.
\<close>

definition link_context :: "pyang \<Rightarrow> pyang_objects \<Rightarrow> fixer \<Rightarrow> finder \<Rightarrow> nat set \<Rightarrow> nat \<Rightarrow> stmt \<Rightarrow> groups \<Rightarrow> fixer \<Rightarrow> bool" where
  "link_context pg po fx0 ft L topm T g fx \<longleftrightarrow> groups_at fx0 ft L g fx \<and> area_ok (touched fx0 ft) fx topm \<and>
     (\<forall>nm. obj_module_prefix po fx topm nm = module_prefix pg T nm)"

definition replaced :: "fixer \<Rightarrow> finder \<Rightarrow> nat set \<Rightarrow> fixer \<Rightarrow> fixer \<Rightarrow> groups \<Rightarrow> stmt \<Rightarrow> atree \<Rightarrow> bool" where
  "replaced fx0 ft L fx fx' g s t \<longleftrightarrow> holds fx' t \<and> erase t = s \<and> groups_at fx0 ft L g fx' \<and> changed_only (touched fx0 ft) fx fx' \<and>
     (\<forall>x \<in> set (addrs t). fx_next fx \<le> x \<and> x < fx_next fx')"

lemma changes_fresh:
  assumes "changed_only D fx fx1" and "changed_only S fx1 fx2" and "\<forall>x \<in> S. fx_next fx \<le> x"
  shows "changed_only D fx fx2"
proof -
  have "changed_only (D \<union> S) fx fx2" by (rule changes_trans [OF assms(1,2)])
  moreover have "x \<notin> S" if "x < fx_next fx" for x using that assms(3) by auto
  ultimately show ?thesis by (auto simp: changed_only_def)
qed

lemma area_fresh:
  assumes "changed_only D fx fx'" and "area_ok D fx topm" and "\<forall>x \<in> S. fx_next fx \<le> x"
  shows "area_ok S fx' topm"
proof -
  have "x \<notin> S" if "x \<in> prefix_area fx' topm" for x
    using that area_changes(1) [OF assms(1,2)] assms(2,3) unfolding area_ok_def by (metis leD)
  with area_changes(2) [OF assms(1,2)] show ?thesis by (auto simp: area_ok_def)
qed

lemma set_arg_sel [simp]:
  "fx_next (set_arg a s fx) = fx_next fx" "fx_groupings (set_arg a s fx) = fx_groupings fx"
  "fx_node (set_arg a s fx) = (fx_node fx)(a := (fx_node fx a)\<lparr>nd_arg := s\<rparr>)"
  by (simp_all add: set_arg_def)

text \<open>The copy of a target below the parent of the link, with the name of the link.\<close>

lemma renamed_copy:
  assumes lib: "lib_ok pg po" and ok: "targets_ok fx0 ft L U" and ctx: "link_context pg po fx0 ft L topm T g fx" and tg: "tg \<in> targets ft"
    and c: "pg_copy pg (fix_xpaths pg (tg_top tg)) (keyword_at fx pa) (tg_stmt tg) = Inr c"
  shows "\<exists>fx1 r t. po_copy po (obj_fix_xpaths po fx) (Some topm) (Some pa) (tg_id tg) fx = Inr (fx1, r) \<and> at_root t = r \<and>
     linkable_tree (set_arg r name fx1) topm [t] \<and> erase t = Stmt (st_keyword c) name (st_substmts c) \<and> changed_only {} fx (set_arg r name fx1) \<and>
     (\<forall>x \<in> set (addrs t). fx_next fx \<le> x) \<and> fx_groupings fx1 = fx_groupings fx \<and>
     (\<forall>nm. obj_module_prefix po (set_arg r name fx1) topm nm = module_prefix pg T nm)"
proof -
  obtain us gs where at: "modules_at fx0 ft L us gs fx" using ctx by (auto simp: link_context_def groups_at_def)
  from copy_target [OF lib ok at tg c, of "Some topm"] obtain fx1 u where
    u: "po_copy po (obj_fix_xpaths po fx) (Some topm) (Some pa) (tg_id tg) fx = Inr (fx1, at_root u)" "fresh_tree fx fx1 u" "erase u = c"
      "\<forall>x \<in> set (addrs u). nd_top (fx_node fx1 x) = topm" "changed_only {} fx fx1" "fx_groupings fx1 = fx_groupings fx" by auto
  obtain r kw arg ts where ur: "u = ANode r kw arg ts" by (cases u)
  let ?fx = "set_arg r name fx1" and ?t = "ANode r kw name ts"
  have new: "\<forall>x \<in> set (addrs ?t). fx_next fx \<le> x \<and> x < fx_next fx1" using u(2) by (auto simp: fresh_tree_def ur)
  have d: "distinct (addrs ?t)" using u(2) by (auto simp: fresh_tree_def ur)
  have "holds ?fx v" if "v \<in> set ts" for v
  proof -
    have "\<And>x. x \<in> set (addrs v) \<Longrightarrow> fx_node ?fx x = fx_node fx1 x" using d that by auto
    then show ?thesis using holds_same [of v ?fx fx1] u(2) that by (auto simp: fresh_tree_def ur list_all_iff)
  qed
  then have h: "holds ?fx ?t" using u(2) by (auto simp: fresh_tree_def ur list_all_iff)
  have r: "fx_next fx \<le> r" using new by simp
  have "fx_node ?fx x = fx_node fx x" if "x < fx_next fx" for x using that changes_node [OF u(5) that] r by auto
  moreover have "fx_next fx \<le> fx_next ?fx" using u(5) by (simp add: changed_only_def)
  ultimately have ch: "changed_only D fx ?fx" for D by (intro changes_same)
  have area: "area_ok (touched fx0 ft) fx topm" using ctx by (simp add: link_context_def)
  have "area_ok (set (addrs ?t)) ?fx topm" by (rule area_fresh [OF ch area]) (use new in blast)
  moreover have "\<forall>x \<in> set (addrs ?t). nd_top (fx_node ?fx x) = topm" using u(4) by (auto simp: ur)
  ultimately have "linkable_tree ?fx topm [?t]" using h d new by (auto simp: linkable_tree_def)
  moreover have "obj_module_prefix po ?fx topm nm = module_prefix pg T nm" for nm
    using module_prefix_changes [OF lib ch area] ctx by (simp add: link_context_def)
  ultimately show ?thesis using u(1,3,6) ur ch new by (intro exI [of _ fx1] exI [of _ r] exI [of _ ?t]) (auto simp flip: u(3))
qed

lemma grown_replaced:
  assumes "targets_ok fx0 ft L U" and "groups_at fx0 ft L g fx" and "changed_only {} fx fx1" and "fx_groupings fx1 = fx_groupings fx"
    and "grown fx1 fx2 t t'" and "\<forall>x \<in> set (addrs t). fx_next fx \<le> x \<and> x < fx_next fx1"
  shows "replaced fx0 ft L fx fx2 g (erase t') t'"
proof -
  have ch: "changed_only {} fx fx2" using assms(5,6) by (intro changes_fresh [OF assms(3)]) (auto simp: grown_def)
  then have "groups_at fx0 ft L g fx2" using assms(4,5) by (intro groups_at_frame [OF assms(1,2) ch]) (auto simp: grown_def)
  moreover have "fx_next fx \<le> fx_next fx1" "fx_next fx1 \<le> fx_next fx2" using assms(3,5) by (auto simp: changed_only_def grown_def)
  ultimately show ?thesis
    using assms(5,6) changes_mono [OF ch] by (fastforce simp: replaced_def grown_def)
qed

lemma group_link:
  assumes lib: "lib_ok pg po" and ok: "targets_ok fx0 ft L U" and ctx: "link_context pg po fx0 ft L topm T g fx" and tf: "module_prefix pg T tailf = Inr tf"
    and fx1: "groups_at fx0 ft L g' fx1" "changed_only (touched fx0 ft) fx fx1"
    and new2: "new_stmt topm par (Kw ''uses'') arg fx1 = (fx2, u)" and new3: "new_stmt topm (Some u) (Kw ''refine'') rarg fx2 = (fx3, r)"
  shows "\<exists>fx4 cp t. obj_add_transform_callpoint po r fx3 = Inr (fx4, cp) \<and> at_root t = u \<and>
     replaced fx0 ft L fx (set_substmts u [r] fx4) g' (Stmt (Kw ''uses'') arg [Stmt (Kw ''refine'') rarg
       [Stmt (Ext tf ''callpoint'') ''symlink-transform'' [Stmt (Ext tf ''transform'') ''true'' []]]]) t"
proof -
  note s2 = new_stmt_sel [OF new2] and s3 = new_stmt_sel [OF new3]
  have ch3: "changed_only (touched fx0 ft) fx fx3" using changes_trans [OF fx1(2) changes_trans [OF changes_new [OF new2] changes_new [OF new3]]] by simp
  have area: "area_ok (touched fx0 ft) fx topm" using ctx by (simp add: link_context_def)
  have "nd_top (fx_node fx3 r) = topm" using s3 by simp
  moreover have "obj_module_prefix po fx3 topm tailf = Inr tf"
    using module_prefix_changes [OF lib ch3 area] ctx tf by (simp add: link_context_def)
  ultimately obtain fx4 cp t where t: "obj_add_transform_callpoint po r fx3 = Inr (fx4, cp)" "at_root t = r"
    "erase t = Stmt (Kw ''refine'') rarg [Stmt (Ext tf ''callpoint'') ''symlink-transform'' [Stmt (Ext tf ''transform'') ''true'' []]]"
    and gr: "grown fx3 fx4 (ANode r (Kw ''refine'') rarg []) t"
    using add_callpoint_holds [of fx3 "ANode r (Kw ''refine'') rarg []" po tf] s3 by auto
  let ?fx = "set_substmts u [r] fx4" and ?t = "ANode u (Kw ''uses'') arg [t]"
  have ch4: "changed_only {r} fx3 fx4" "fx_groupings fx4 = fx_groupings fx3" and ht: "holds fx4 t"
    and adr: "\<forall>x \<in> set (addrs t). x = r \<or> fx_next fx3 \<le> x \<and> x < fx_next fx4" using gr by (auto simp: grown_def)
  have le: "fx_next fx \<le> fx_next fx1" "fx_next fx3 \<le> fx_next fx4" using fx1(2) ch4(1) by (auto simp: changed_only_def)
  have un: "fx_node fx4 u = fx_node fx3 u" using changes_node [OF ch4(1), of u] s2 s3 by simp
  have "u \<notin> set (addrs t)" using adr s2 s3 by auto
  then have "holds ?fx t" using holds_set ht by simp
  then have "holds ?fx ?t" using un s2 s3 t(2) by simp
  moreover have chu: "changed_only ({r} \<union> {u}) fx3 ?fx" by (rule changes_trans [OF ch4(1) changes_set])
  have ch: "changed_only (touched fx0 ft) fx ?fx" by (rule changes_fresh [OF ch3 chu]) (use s2 s3 le in auto)
  moreover have "changed_only {} fx1 ?fx"
    by (rule changes_fresh [OF changes_trans [OF changes_new [OF new2] changes_new [OF new3], simplified] chu]) (use s2 s3 in auto)
  then have "groups_at fx0 ft L g' ?fx" using s2 s3 ch4(2) by (intro groups_at_frame [OF ok fx1(1)]) auto
  ultimately have "replaced fx0 ft L fx ?fx g' (erase ?t) ?t" using adr s2 s3 le by (auto simp: replaced_def)
  with t show ?thesis by (intro exI [of _ fx4] exI [of _ cp] exI [of _ ?t]) simp
qed

lemma top_arg:
  assumes "targets_ok fx0 ft L U" and "modules_at fx0 ft L us gs fx" and "tg \<in> targets ft"
  shows "arg_at fx (tg_top_id tg) = st_arg (tg_top tg)" and "nd_top (fx_node fx (tg_id tg)) = tg_top_id tg" and "arg_at fx (tg_id tg) = st_arg (tg_stmt tg)"
proof -
  have M: "at_root (U (tg_top_id tg)) = tg_top_id tg" "holds fx0 (U (tg_top_id tg))" "erase (U (tg_top_id tg)) = tg_top tg"
    using assms(1,3) unfolding targets_ok_def target_ok_def by blast+
  show "arg_at fx (tg_top_id tg) = st_arg (tg_top tg)"
    using modules_at_sel(2) [OF assms(2) top_ok(1,2) [OF assms(1,3)]] holds_root [OF M(2)] M(1) by (simp flip: M(3))
  have id: "tg_id tg \<in> set (addrs (U (tg_id tg)))" using root_addrs [of "U (tg_id tg)"] targetD(1) [OF assms(1,3)] by simp
  show "nd_top (fx_node fx (tg_id tg)) = tg_top_id tg"
    using target_holds(2) [OF assms] targetD(7) [OF assms(1,3) id] id by simp
  show "arg_at fx (tg_id tg) = st_arg (tg_stmt tg)"
    using holds_root [OF target_holds(1) [OF assms]] targetD(1) [OF assms(1,3)] by (simp flip: targetD(3) [OF assms(1,3)])
qed

definition finds :: "pyang_objects \<Rightarrow> finder \<Rightarrow> bool" where
  "finds po ft \<longleftrightarrow> (\<forall>nd. po_find_target po nd = map_sum id tg_id (ft (nd_top nd) (nd_arg nd)))"

lemma link_case:
  assumes lib: "lib_ok pg po" and ok: "targets_ok fx0 ft L U" and ctx: "link_context pg po fx0 ft L topm T g fx" and tg: "tg \<in> targets ft"
    and cp: "pg_copy pg (fix_xpaths pg (tg_top tg)) (keyword_at fx pa) (tg_stmt tg) = Inr c"
    and al: "add_links pg (module_prefix pg T tailf) path tp (Stmt (st_keyword c) name (st_substmts c)) = Inr s"
  shows "\<exists>m fx1 r fx2 u. po_copy po (obj_fix_xpaths po fx) (Some topm) (Some pa) (tg_id tg) fx = Inr (fx1, r) \<and> changed_only {} fx (set_arg r name fx1) \<and>
     fx_next fx \<le> r \<and> obj_add_links m po path tp r (set_arg r name fx1) = Ret fx2 \<and> at_root u = r \<and> replaced fx0 ft L fx fx2 g s u"
proof -
  from renamed_copy [OF lib ok ctx tg cp, of name] obtain fx1 r u where
    u: "po_copy po (obj_fix_xpaths po fx) (Some topm) (Some pa) (tg_id tg) fx = Inr (fx1, r)" "at_root u = r"
      "linkable_tree (set_arg r name fx1) topm [u]" "erase u = Stmt (st_keyword c) name (st_substmts c)"
      "changed_only {} fx (set_arg r name fx1)" "\<forall>x \<in> set (addrs u). fx_next fx \<le> x" "fx_groupings fx1 = fx_groupings fx"
      "\<forall>nm. obj_module_prefix po (set_arg r name fx1) topm nm = module_prefix pg T nm" by blast
  with add_links_holds [OF lib, of topm u] al obtain m fx2 u' where m: "obj_add_links m po path tp r (set_arg r name fx1) = Ret fx2"
    "at_root u' = r" "erase u' = s" "grown (set_arg r name fx1) fx2 u u'" unfolding links_added_def by metis
  have gat: "groups_at fx0 ft L g fx" using ctx by (simp add: link_context_def)
  have "replaced fx0 ft L fx fx2 g (erase u') u'"
    by (rule grown_replaced [OF ok gat u(5) _ m(4)]) (use u(3,6,7) in \<open>auto simp: linkable_tree_def\<close>)
  moreover have "fx_next fx \<le> r" using u(2,6) root_addrs [of u] by blast
  ultimately show ?thesis using u(1,5) m(1-3) by blast
qed

lemma copy_case:
  assumes lib: "lib_ok pg po" and ok: "targets_ok fx0 ft L U" and ctx: "link_context pg po fx0 ft L topm T g fx" and tg: "tg \<in> targets ft"
    and cp: "pg_copy pg (fix_xpaths pg (tg_top tg)) (keyword_at fx pa) (tg_stmt tg) = Inr c"
    and tf: "add_transform_callpoint pg T (Stmt (st_keyword c) name (st_substmts c)) = Inr s"
  shows "\<exists>fx1 r fx2 cp u. po_copy po (obj_fix_xpaths po fx) (Some topm) (Some pa) (tg_id tg) fx = Inr (fx1, r) \<and>
     obj_add_transform_callpoint po r (set_arg r name fx1) = Inr (fx2, cp) \<and> at_root u = r \<and> replaced fx0 ft L fx fx2 g s u"
proof -
  from renamed_copy [OF lib ok ctx tg cp, of name] obtain fx1 r u where
    u: "po_copy po (obj_fix_xpaths po fx) (Some topm) (Some pa) (tg_id tg) fx = Inr (fx1, r)" "at_root u = r"
      "linkable_tree (set_arg r name fx1) topm [u]" "erase u = Stmt (st_keyword c) name (st_substmts c)"
      "changed_only {} fx (set_arg r name fx1)" "\<forall>x \<in> set (addrs u). fx_next fx \<le> x" "fx_groupings fx1 = fx_groupings fx"
      "\<forall>nm. obj_module_prefix po (set_arg r name fx1) topm nm = module_prefix pg T nm" by blast
  let ?fx = "set_arg r name fx1"
  from tf obtain pf where pf: "module_prefix pg T tailf = Inr pf" and s: "s = Stmt (st_keyword c) name
      (Stmt (Ext pf ''callpoint'') ''symlink-transform'' [Stmt (Ext pf ''transform'') ''true'' []] # st_substmts c)"
    by (auto simp: add_transform_callpoint_def rbind_eq_Inr_iff)
  have lt: "holds ?fx u" "distinct (addrs u)" "\<forall>x \<in> set (addrs u). x < fx_next ?fx" "nd_top (fx_node ?fx (at_root u)) = topm"
    using u(3) by (auto simp: linkable_tree_def)
  have pr: "obj_module_prefix po ?fx (nd_top (fx_node ?fx (at_root u))) tailf = Inr pf" unfolding lt(4) using u(8) pf by simp
  from add_callpoint_holds [OF lt(1-3) pr] obtain fx2 cpt u' where
    c: "obj_add_transform_callpoint po r ?fx = Inr (fx2, cpt)" "at_root u' = r" "grown ?fx fx2 u u'"
      "erase u' = Stmt (at_keyword u) (at_arg u) (Stmt (Ext pf ''callpoint'') ''symlink-transform'' [Stmt (Ext pf ''transform'') ''true'' []] #
       map erase (at_children u))" unfolding u(2) by blast
  have gat: "groups_at fx0 ft L g fx" using ctx by (simp add: link_context_def)
  have "replaced fx0 ft L fx fx2 g (erase u') u'"
    by (rule grown_replaced [OF ok gat u(5) _ c(3)]) (use lt(3) u(6,7) in auto)
  moreover have "erase u' = s" using c(4) u(4) s by (cases u) auto
  ultimately show ?thesis using u(1) c(1,2) by blast
qed

lemma group_case:
  assumes lib: "lib_ok pg po" and ok: "targets_ok fx0 ft L U" and ctx: "link_context pg po fx0 ft L topm T g fx" and tg: "tg \<in> targets ft"
    and ig: "introduce_grouping pg tg g = Inr (gn, g')"
    and ref: "add_transform_callpoint pg T (Stmt (Kw ''refine'') (st_arg (tg_stmt tg)) []) = Inr ref"
  shows "\<exists>fx1 fx2 u fx3 r fx4 cp t. obj_introduce_grouping po (tg_id tg) fx = Inr (fx1, gn) \<and>
     new_stmt topm par (Kw ''uses'') (pfx @ '':'' @ gn) fx1 = (fx2, u) \<and> new_stmt topm (Some u) (Kw ''refine'') (arg_at fx2 (tg_id tg)) fx2 = (fx3, r) \<and>
     obj_add_transform_callpoint po r fx3 = Inr (fx4, cp) \<and> at_root t = u \<and>
     replaced fx0 ft L fx (set_substmts u [r] fx4) g' (Stmt (Kw ''uses'') (pfx @ '':'' @ gn) [ref]) t"
proof -
  obtain us gs where at: "modules_at fx0 ft L us gs fx" using ctx by (auto simp: link_context_def groups_at_def)
  from ref obtain pf where pf: "module_prefix pg T tailf = Inr pf" and ref': "ref = Stmt (Kw ''refine'') (st_arg (tg_stmt tg))
      [Stmt (Ext pf ''callpoint'') ''symlink-transform'' [Stmt (Ext pf ''transform'') ''true'' []]]"
    by (auto simp: add_transform_callpoint_def rbind_eq_Inr_iff)
  from introduce_holds [OF lib ok _ tg ig, of fx] ctx obtain fx1 where
    fx1: "obj_introduce_grouping po (tg_id tg) fx = Inr (fx1, gn)" "groups_at fx0 ft L g' fx1" "changed_only (touched fx0 ft) fx fx1"
    by (auto simp: link_context_def)
  obtain fx2 u where new2: "new_stmt topm par (Kw ''uses'') (pfx @ '':'' @ gn) fx1 = (fx2, u)" by fastforce
  obtain fx3 r where new3: "new_stmt topm (Some u) (Kw ''refine'') (st_arg (tg_stmt tg)) fx2 = (fx3, r)" by fastforce
  have "tg_id tg < fx_next fx" using target_holds(2) [OF ok at tg] root_addrs [of "U (tg_id tg)"] targetD(1) [OF ok tg] by auto
  then have "arg_at fx2 (tg_id tg) = st_arg (tg_stmt tg)"
    using changes_fields(2) [OF changes_trans [OF fx1(3) changes_new [OF new2]]] top_arg(3) [OF ok at tg] by simp
  with group_link [OF lib ok ctx pf fx1(2,3) new2 new3] ref' fx1(1) new2 new3 show ?thesis by metis
qed

text \<open>What the path of a link leads to, in the store and for the value.\<close>

lemma link_found:
  assumes lib: "lib_ok pg po" and find: "finds po ft" and ok: "targets_ok fx0 ft L U" and ctx: "link_context pg po fx0 ft L topm T g fx"
    and h: "holds fx t" and topm: "\<forall>x \<in> set (addrs t). x < fx_next fx \<and> nd_top (fx_node fx x) = topm"
    and s: "do_replace_symlink pg ng (ft topm) T kw (erase t) g = Inr r"
  shows "\<exists>c tg tp n. po_search_one po fx (at_root t) (Ext tailf ''path'') None = Some (at_root c) \<and>
     pg_search_one pg (erase t) (Ext tailf ''path'') None = Some (erase c) \<and> arg_at fx (at_root c) = at_arg c \<and> at_root c < fx_next fx \<and>
     ft topm (at_arg c) = Inr tg \<and> tg \<in> targets ft \<and> po_find_target po (fx_node fx (at_root c)) = Inr (tg_id tg) \<and>
     module_prefix pg T (st_arg (tg_top tg)) = Inr tp \<and> obj_module_prefix po fx topm (arg_at fx (nd_top (fx_node fx (tg_id tg)))) = Inr tp \<and>
     obj_can_use_link n po fx (tg_id tg) = Ret (can_use_link pg (tg_stmt tg))"
proof -
  obtain us gs where at: "modules_at fx0 ft L us gs fx" using ctx by (auto simp: link_context_def groups_at_def)
  from s search_holds(2) [OF lib h, of "Ext tailf ''path''" None] obtain c where c: "child_search t (Ext tailf ''path'') None = Some c"
    by (cases "child_search t (Ext tailf ''path'') None") (auto simp: do_replace_symlink_def)
  have hc: "c \<in> set (at_children t)" "holds fx c" using child_search_holds [OF h c] by auto
  have path: "nd_top (fx_node fx (at_root c)) = topm" "arg_at fx (at_root c) = at_arg c" "at_root c < fx_next fx"
    using topm hc holds_root [OF hc(2)] root_addrs [of c] by (cases t; force)+
  have so: "po_search_one po fx (at_root t) (Ext tailf ''path'') None = Some (at_root c)"
    and sp: "pg_search_one pg (erase t) (Ext tailf ''path'') None = Some (erase c)"
    using search_holds [OF lib h, of "Ext tailf ''path''" None] c by auto
  from s sp obtain tg tp where ftg: "ft topm (at_arg c) = Inr tg" and tp: "module_prefix pg T (st_arg (tg_top tg)) = Inr tp"
    by (auto simp: do_replace_symlink_def rbind_eq_Inr_iff)
  have tg: "tg \<in> targets ft" using ftg by (auto simp: targets_def)
  have fo: "po_find_target po (fx_node fx (at_root c)) = Inr (tg_id tg)" using find path ftg by (simp add: finds_def)
  have tpo: "obj_module_prefix po fx topm (arg_at fx (nd_top (fx_node fx (tg_id tg)))) = Inr tp"
    using ctx tp top_arg [OF ok at tg] by (simp add: link_context_def)
  obtain n where "obj_can_use_link n po fx (tg_id tg) = Ret (can_use_link pg (tg_stmt tg))"
    using can_use_link_holds [OF lib target_holds(1) [OF ok at tg]] targetD(1,3) [OF ok tg] by auto
  with so sp path ftg tg fo tp tpo show ?thesis by blast
qed

lemma do_replace_holds:
  assumes lib: "lib_ok pg po" and find: "finds po ft" and ok: "targets_ok fx0 ft L U" and ctx: "link_context pg po fx0 ft L topm T g fx"
    and h: "holds fx t" and topm: "\<forall>x \<in> set (addrs t). x < fx_next fx \<and> nd_top (fx_node fx x) = topm"
    and pa: "nd_parent (fx_node fx (at_root t)) = Some pa"
    and s: "do_replace_symlink pg ng (ft topm) T (keyword_at fx pa) (erase t) g = Inr (s, g')"
  shows "\<exists>n fx' t'. obj_do_replace_symlink n po ng (at_root t) fx = Ret (fx', at_root t') \<and> replaced fx0 ft L fx fx' g' s t'"
proof -
  have a: "nd_top (fx_node fx (at_root t)) = topm" "arg_at fx (at_root t) = at_arg t" using topm holds_root [OF h] by auto
  from link_found [OF lib find ok ctx h topm s] obtain c tg tp n where
    so: "po_search_one po fx (at_root t) (Ext tailf ''path'') None = Some (at_root c)" and
    sp: "pg_search_one pg (erase t) (Ext tailf ''path'') None = Some (erase c)" and
    path: "arg_at fx (at_root c) = at_arg c" "at_root c < fx_next fx" and
    ftg: "ft topm (at_arg c) = Inr tg" and tg: "tg \<in> targets ft" and fo: "po_find_target po (fx_node fx (at_root c)) = Inr (tg_id tg)" and
    tp: "module_prefix pg T (st_arg (tg_top tg)) = Inr tp" and
    tpo: "obj_module_prefix po fx topm (arg_at fx (nd_top (fx_node fx (tg_id tg)))) = Inr tp" and
    n: "obj_can_use_link n po fx (tg_id tg) = Ret (can_use_link pg (tg_stmt tg))" by blast
  note start = obj_do_replace_symlink_def Let_def so fo a tpo pa
  note spec = s [unfolded do_replace_symlink_def sp option.case erase_sel ftg rbind_simps tp]
  consider "can_use_link pg (tg_stmt tg)" | "\<not> can_use_link pg (tg_stmt tg)" ng | "\<not> can_use_link pg (tg_stmt tg)" "\<not> ng" by blast
  then show ?thesis
  proof cases
    case 1
    with spec obtain c' where cp: "pg_copy pg (fix_xpaths pg (tg_top tg)) (keyword_at fx pa) (tg_stmt tg) = Inr c'" and g': "g' = g"
      and al: "add_links pg (module_prefix pg T tailf) (at_arg c) tp (Stmt (st_keyword c') (at_arg t) (st_substmts c')) = Inr s"
      by (auto simp: rbind_eq_Inr_iff)
    from link_case [OF lib ok ctx tg cp al] obtain m fx1 r fx2 u where
      u: "po_copy po (obj_fix_xpaths po fx) (Some topm) (Some pa) (tg_id tg) fx = Inr (fx1, r)" "changed_only {} fx (set_arg r (at_arg t) fx1)" "fx_next fx \<le> r"
        "obj_add_links m po (at_arg c) tp r (set_arg r (at_arg t) fx1) = Ret fx2" "at_root u = r" "replaced fx0 ft L fx fx2 g s u" by blast
    have "arg_at fx1 (at_root c) = at_arg c" using changes_fields(2) [OF u(2) path(2)] path u(3) by simp
    with 1 u(1) can_use_link_more [OF n, of "max n m"] add_links_more [OF u(4), of "max n m"]
    have "obj_do_replace_symlink (max n m) po ng (at_root t) fx = Ret (fx2, r)" by (simp add: start)
    with u(5,6) g' show ?thesis by blast
  next
    case 2
    with spec obtain c' where cp: "pg_copy pg (fix_xpaths pg (tg_top tg)) (keyword_at fx pa) (tg_stmt tg) = Inr c'" and g': "g' = g"
      and al: "add_transform_callpoint pg T (Stmt (st_keyword c') (at_arg t) (st_substmts c')) = Inr s" by (auto simp: rbind_eq_Inr_iff)
    from copy_case [OF lib ok ctx tg cp al] obtain fx1 r fx2 cpt u where
      u: "po_copy po (obj_fix_xpaths po fx) (Some topm) (Some pa) (tg_id tg) fx = Inr (fx1, r)"
        "obj_add_transform_callpoint po r (set_arg r (at_arg t) fx1) = Inr (fx2, cpt)" "at_root u = r" "replaced fx0 ft L fx fx2 g s u" by blast
    from u(1,2) n 2 have "obj_do_replace_symlink n po ng (at_root t) fx = Ret (fx2, r)" by (simp add: start)
    with u(3,4) g' show ?thesis by blast
  next
    case 3
    with spec obtain gn ref where "introduce_grouping pg tg g = Inr (gn, g')"
      and "add_transform_callpoint pg T (Stmt (Kw ''refine'') (st_arg (tg_stmt tg)) []) = Inr ref"
      and s': "s = Stmt (Kw ''uses'') (tp @ '':'' @ gn) [ref]" by (auto simp: rbind_eq_Inr_iff)
    from group_case [OF lib ok ctx tg this(1,2), of "Some pa" tp] obtain fx1 fx2 u fx3 r fx4 cpt t' where
      "obj_introduce_grouping po (tg_id tg) fx = Inr (fx1, gn)" "new_stmt topm (Some pa) (Kw ''uses'') (tp @ '':'' @ gn) fx1 = (fx2, u)"
      "new_stmt topm (Some u) (Kw ''refine'') (arg_at fx2 (tg_id tg)) fx2 = (fx3, r)" "obj_add_transform_callpoint po r fx3 = Inr (fx4, cpt)"
      and t': "at_root t' = u" "replaced fx0 ft L fx (set_substmts u [r] fx4) g' s t'" unfolding s' by blast
    with n 3 have "obj_do_replace_symlink n po ng (at_root t) fx = Ret (set_substmts u [r] fx4, u)" by (simp add: start)
    with t' show ?thesis by blast
  qed
qed

end
