(* ===== verification/Yang_Symlink_Modules.thy ===== *)
theory Yang_Symlink_Modules
  imports Yang_Symlink_Refine
begin

text \<open>
  The plugin on statement objects implements the functions on values for all modules: a module with symbolic links becomes the value of
  \<open>replace_module\<close>, and a module with targets becomes itself with a \<open>uses\<close> statement in the place of every grouped target and the groupings at its
  end, whatever the order of the modules. The last sections have an implementation of the library that meets what is relied on, and what
  happens when links and targets are in one module.
\<close>

section \<open>Walking over a module\<close>

text \<open>A tree without links is left as it is.\<close>

lemma set_substmts_same: "substmts fx a = xs \<Longrightarrow> set_substmts a xs fx = fx"
  by (auto simp: set_substmts_def)

lemma walk_no_symlink:
  assumes "holds fx t" and "no_symlink (erase t)"
  shows "\<exists>n. obj_replace_symlinks n po ng (at_root t) fx = Ret (fx, at_root t)"
  using assms
proof (induction t)
  case (ANode a kw arg ts)
  have "\<exists>n. obj_replace_list n po ng a (length xs) ys fx = Ret (fx, ys @ map at_root us)"
    if "substmts fx a = xs @ map at_root us" "set us \<subseteq> set ts" for xs us ys
    using that
  proof (induction us arbitrary: xs ys)
    case Nil
    then show ?case by (intro exI [of _ 1]) simp
  next
    case (Cons u us)
    then obtain n where n: "obj_replace_symlinks n po ng (at_root u) fx = Ret (fx, at_root u)"
      using ANode by (fastforce simp: list_all_iff)
    from Cons.IH [of "xs @ [at_root u]" "ys @ [at_root u]"] Cons.prems obtain m where
      m: "obj_replace_list m po ng a (Suc (length xs)) (ys @ [at_root u]) fx = Ret (fx, ys @ at_root u # map at_root us)" by auto
    from replace_more(1) [OF n, of "max n m"] replace_more(2) [OF m, of "max n m"] Cons.prems(1)
    show ?case by (intro exI [of _ "Suc (max n m)"]) (simp add: nth_append)
  qed
  from this [of "[]" ts "[]"] ANode.prems obtain n where
    "obj_replace_list n po ng a 0 [] fx = Ret (fx, map at_root ts)" by auto
  with ANode.prems have "obj_replace_symlinks (Suc n) po ng a fx = Ret (fx, a)" by (auto simp: set_substmts_same)
  then show ?case by (metis atree.sel(1))
qed

text \<open>The statements above links, whose lists are replaced; and that the objects of a tree know their module and parent.\<close>

fun dirty :: "atree \<Rightarrow> nat list" where
  "dirty (ANode a kw arg ts) =
     (if no_symlink (Stmt kw arg (map erase ts)) \<or> kw = Ext tailf ''symlink'' then [] else a # concat (map dirty ts))"

fun placed :: "fixer \<Rightarrow> nat \<Rightarrow> nat \<Rightarrow> atree \<Rightarrow> bool" where
  "placed fx topm pa (ANode a kw arg ts) \<longleftrightarrow>
     nd_top (fx_node fx a) = topm \<and> nd_parent (fx_node fx a) = Some pa \<and> list_all (placed fx topm a) ts"

lemma dirty_addrs: "set (dirty t) \<subseteq> set (addrs t)"
  by (induction t) auto

lemma placed_top: "placed fx topm pa t \<Longrightarrow> x \<in> set (addrs t) \<Longrightarrow> nd_top (fx_node fx x) = topm"
  by (induction t arbitrary: pa) (auto simp: list_all_iff)

lemma placed_same:
  "placed fx topm pa t \<Longrightarrow> (\<And>x. x \<in> set (addrs t) \<Longrightarrow> nd_top (fx_node fx' x) = nd_top (fx_node fx x) \<and>
     nd_parent (fx_node fx' x) = nd_parent (fx_node fx x)) \<Longrightarrow> placed fx' topm pa t"
  by (induction t arbitrary: pa) (auto simp: list_all_iff)

definition walkable :: "pyang \<Rightarrow> pyang_objects \<Rightarrow> fixer \<Rightarrow> finder \<Rightarrow> nat set \<Rightarrow> nat \<Rightarrow> stmt \<Rightarrow> nat \<Rightarrow> groups \<Rightarrow> fixer \<Rightarrow> atree list \<Rightarrow> bool" where
  "walkable pg po fx0 ft L topm T pa g fx ts \<longleftrightarrow> list_all (\<lambda>t. holds fx t \<and> placed fx topm pa t) ts \<and> distinct (concat (map addrs ts)) \<and>
     set (concat (map addrs ts)) \<subseteq> L \<and> pa < fx_next fx \<and> link_context pg po fx0 ft L topm T g fx \<and>
     area_ok (touched fx0 ft \<union> set (concat (map dirty ts))) fx topm"

definition walked :: "fixer \<Rightarrow> finder \<Rightarrow> nat set \<Rightarrow> fixer \<Rightarrow> fixer \<Rightarrow> groups \<Rightarrow> atree list \<Rightarrow> atree list \<Rightarrow> bool" where
  "walked fx0 ft L fx fx' g ts us \<longleftrightarrow> list_all (holds fx') us \<and> groups_at fx0 ft L g fx' \<and>
     changed_only (touched fx0 ft \<union> set (concat (map dirty ts))) fx fx' \<and>
     (\<forall>x \<in> set (concat (map addrs us)). x \<in> set (concat (map addrs ts)) \<or> fx_next fx \<le> x \<and> x < fx_next fx')"

lemma groups_at_next: "groups_at fx0 ft L g fx \<Longrightarrow> fx_next fx0 \<le> fx_next fx"
  by (auto simp: groups_at_def dest: modules_at_sel)

lemma link_old:
  assumes "targets_ok fx0 ft L U" and "groups_at fx0 ft L g fx" and "x \<in> L"
  shows "x < fx_next fx" "x \<notin> touched fx0 ft"
  using assms groups_at_next [OF assms(2)] touched_old(2) [OF assms(1)] by (auto simp: targets_ok_def intro: less_le_trans)

lemma walkable_old:
  assumes "targets_ok fx0 ft L U" and "walkable pg po fx0 ft L topm T pa g fx ts" and "x \<in> set (concat (map addrs ts))"
  shows "x < fx_next fx" "x \<notin> touched fx0 ft"
  by (rule link_old [OF assms(1), of g]; use assms(2,3) in \<open>auto simp: walkable_def link_context_def\<close>)+

lemma walkable_tail:
  assumes lib: "lib_ok pg po" and ok: "targets_ok fx0 ft L U" and w: "walkable pg po fx0 ft L topm T pa g fx (t # ts)" and d: "walked fx0 ft L fx fx1 g1 [t] [u]"
  shows "walkable pg po fx0 ft L topm T pa g1 fx1 ts"
proof -
  have ch: "changed_only (touched fx0 ft \<union> set (concat (map dirty (t # ts)))) fx fx1"
    by (rule changes_mono [of "touched fx0 ft \<union> set (dirty t)"]) (use d in \<open>auto simp: walked_def\<close>)
  have area: "area_ok (touched fx0 ft \<union> set (concat (map dirty (t # ts)))) fx topm" using w by (simp add: walkable_def)
  note area1 = area_changes(2) [OF ch area]
  have v: "holds fx1 v \<and> placed fx1 topm pa v" if "v \<in> set ts" for v
  proof
    have vx: "x < fx_next fx \<and> x \<notin> touched fx0 ft \<union> set (dirty t)" if x: "x \<in> set (addrs v)" for x
    proof -
      have "x \<in> set (concat (map addrs (t # ts)))" "x \<notin> set (addrs t)" using x \<open>v \<in> set ts\<close> w by (auto simp: walkable_def)
      with walkable_old [OF ok w] dirty_addrs [of t] show ?thesis by blast
    qed
    have dt: "changed_only (touched fx0 ft \<union> set (dirty t)) fx fx1" using d by (simp add: walked_def)
    show "holds fx1 v" by (rule changes_holds [OF dt]) (use vx w that in \<open>auto simp: walkable_def list_all_iff\<close>)
    show "placed fx1 topm pa v"
      by (rule placed_same [of fx]) (use vx w that changes_fields(3,4) [OF dt] in \<open>auto simp: walkable_def list_all_iff\<close>)
  qed
  have "obj_module_prefix po fx1 topm nm = module_prefix pg T nm" for nm
    using module_prefix_changes [OF lib ch area] w by (simp add: walkable_def link_context_def)
  then have "link_context pg po fx0 ft L topm T g1 fx1"
    using d area1 by (auto simp: walked_def link_context_def intro: area_ok_mono)
  moreover have "pa < fx_next fx1" using w ch by (auto simp: walkable_def changed_only_def)
  moreover have "area_ok (touched fx0 ft \<union> set (concat (map dirty ts))) fx1 topm" using area1 by (rule area_ok_mono) auto
  moreover have "distinct (concat (map addrs ts))" "set (concat (map addrs ts)) \<subseteq> L" using w by (auto simp: walkable_def)
  ultimately show ?thesis using v by (auto simp: walkable_def list_all_iff)
qed

lemma walked_Cons:
  assumes ok: "targets_ok fx0 ft L U" and g: "groups_at fx0 ft L g fx" and dist: "distinct (concat (map addrs (t # ts)))"
    and L: "set (concat (map addrs (t # ts))) \<subseteq> L" and d: "walked fx0 ft L fx fx1 g1 [t] [u]" and e: "walked fx0 ft L fx1 fx2 g2 ts us"
  shows "walked fx0 ft L fx fx2 g2 (t # ts) (u # us)"
proof -
  have ch1: "changed_only (touched fx0 ft \<union> set (dirty t)) fx fx1" using d by (simp add: walked_def)
  have ch2: "changed_only (touched fx0 ft \<union> set (concat (map dirty ts))) fx1 fx2" using e by (simp add: walked_def)
  have le: "fx_next fx \<le> fx_next fx1" "fx_next fx1 \<le> fx_next fx2" using ch1 ch2 by (auto simp: changed_only_def)
  have own: "x < fx_next fx1 \<and> x \<notin> touched fx0 ft \<union> set (concat (map dirty ts))" if x: "x \<in> set (addrs u)" for x
  proof (cases "x \<in> set (addrs t)")
    case True
    then have "x \<notin> set (concat (map addrs ts))" using dist by auto
    then have "x \<notin> set (concat (map dirty ts))" using dirty_addrs by fastforce
    with True L link_old [OF ok g, of x] le show ?thesis by auto
  next
    case False
    with d x have n: "fx_next fx \<le> x" "x < fx_next fx1" by (auto simp: walked_def)
    have "y < fx_next fx" if "y \<in> touched fx0 ft \<union> set (concat (map dirty ts))" for y
    proof (cases "y \<in> touched fx0 ft")
      case True
      show ?thesis using touched_old(1) [OF ok True] groups_at_next [OF g] by simp
    next
      case False
      with that dirty_addrs have "y \<in> set (concat (map addrs (t # ts)))" by fastforce
      then show ?thesis using L link_old(1) [OF ok g] by blast
    qed
    with n show ?thesis by (meson leD)
  qed
  have "holds fx2 u" by (rule changes_holds [OF ch2]) (use d own in \<open>auto simp: walked_def\<close>)
  moreover have "changed_only (touched fx0 ft \<union> set (concat (map dirty (t # ts)))) fx fx2"
    by (rule changes_mono [OF changes_trans [OF ch1 ch2]]) auto
  moreover have "x \<in> set (concat (map addrs (t # ts))) \<or> fx_next fx \<le> x \<and> x < fx_next fx2" if "x \<in> set (concat (map addrs (u # us)))" for x
  proof (cases "x \<in> set (addrs u)")
    case True
    with d own [OF True] le show ?thesis by (auto simp: walked_def)
  next
    case False
    with that e have "x \<in> set (concat (map addrs ts)) \<or> fx_next fx1 \<le> x \<and> x < fx_next fx2" by (auto simp: walked_def)
    with le show ?thesis by auto
  qed
  ultimately show ?thesis using e unfolding walked_def by auto
qed

lemma replace_tree_same: "no_symlink s \<Longrightarrow> replace_tree repl kw s g = Inr (s, g)"
proof (induction s arbitrary: kw g)
  case (Stmt kw' arg subs)
  have "map_state (replace_tree repl kw') ss g = Inr (ss, g)" if "set ss \<subseteq> set subs" for ss
    using that by (induction ss) (use Stmt in \<open>auto simp: list_all_iff\<close>)
  with Stmt.prems show ?case by simp
qed

definition walks :: "pyang \<Rightarrow> pyang_objects \<Rightarrow> bool \<Rightarrow> fixer \<Rightarrow> finder \<Rightarrow> nat set \<Rightarrow> nat \<Rightarrow> stmt \<Rightarrow> atree \<Rightarrow> bool" where
  "walks pg po ng fx0 ft L topm T t \<longleftrightarrow>
     (\<forall>pa g fx s g'. walkable pg po fx0 ft L topm T pa g fx [t] \<and>
        replace_tree (do_replace_symlink pg ng (ft topm) T) (keyword_at fx pa) (erase t) g = Inr (s, g') \<longrightarrow>
        (\<exists>n fx' u. obj_replace_symlinks n po ng (at_root t) fx = Ret (fx', at_root u) \<and> erase u = s \<and> walked fx0 ft L fx fx' g' [t] [u]))"

lemma walkable_single: "walkable pg po fx0 ft L topm T pa g fx (t # ts) \<Longrightarrow> walkable pg po fx0 ft L topm T pa g fx [t]"
  by (auto simp: walkable_def intro: area_ok_mono)

lemma walk_list:
  assumes lib: "lib_ok pg po" and ok: "targets_ok fx0 ft L U" and each: "\<forall>t \<in> set ts. walks pg po ng fx0 ft L topm T t"
    and "walkable pg po fx0 ft L topm T a g fx ts" and "substmts fx a = xs @ map at_root ts"
    and "a \<notin> touched fx0 ft \<union> set (concat (map dirty ts))"
    and "map_state (replace_tree (do_replace_symlink pg ng (ft topm) T) (keyword_at fx a)) (map erase ts) g = Inr (ss, g')"
  shows "\<exists>n fx' us. obj_replace_list n po ng a (length xs) ys fx = Ret (fx', ys @ map at_root us) \<and> map erase us = ss \<and>
     walked fx0 ft L fx fx' g' ts us"
  using each assms(4-)
proof (induction ts arbitrary: fx g xs ys ss)
  case Nil
  then have "walked fx0 ft L fx fx g [] []" by (simp add: walked_def walkable_def link_context_def)
  with Nil show ?case by (intro exI [of _ 1] exI [of _ fx] exI [of _ "[]"]) simp
next
  case (Cons t ts)
  let ?R = "replace_tree (do_replace_symlink pg ng (ft topm) T)"
  from Cons.prems(5) obtain s g1 ss' where s: "?R (keyword_at fx a) (erase t) g = Inr (s, g1)"
    and ss: "map_state (?R (keyword_at fx a)) (map erase ts) g1 = Inr (ss', g')" "ss = s # ss'"
    by (auto simp: rbind_eq_Inr_iff)
  from Cons.prems(1) s walkable_single [OF Cons.prems(2)] obtain n fx1 u where
    n: "obj_replace_symlinks n po ng (at_root t) fx = Ret (fx1, at_root u)" "erase u = s" and d: "walked fx0 ft L fx fx1 g1 [t] [u]"
    unfolding walks_def by (metis list.set_intros(1))
  have ch: "changed_only (touched fx0 ft \<union> set (dirty t)) fx fx1" using d by (simp add: walked_def)
  have a: "fx_node fx1 a = fx_node fx a"
    using changes_node [OF ch, of a] Cons.prems(2,4) by (simp add: walkable_def)
  have w1: "walkable pg po fx0 ft L topm T a g1 fx1 ts" by (rule walkable_tail [OF lib ok Cons.prems(2) d])
  have "\<exists>n fx' us. obj_replace_list n po ng a (length (xs @ [at_root t])) (ys @ [at_root u]) fx1 = Ret (fx', (ys @ [at_root u]) @ map at_root us) \<and>
      map erase us = ss' \<and> walked fx0 ft L fx1 fx' g' ts us"
    by (rule Cons.IH) (use Cons.prems(1,3,4) w1 a ss(1) in auto)
  then obtain m fx2 us where m: "obj_replace_list m po ng a (Suc (length xs)) (ys @ [at_root u]) fx1 = Ret (fx2, ys @ map at_root (u # us))"
    and us: "map erase us = ss'" "walked fx0 ft L fx1 fx2 g' ts us" by auto
  have "walked fx0 ft L fx fx2 g' (t # ts) (u # us)" by (rule walked_Cons [OF ok _ _ _ d us(2), of g]) (use Cons.prems(2) in \<open>auto simp: walkable_def link_context_def\<close>)
  moreover have "obj_replace_list (Suc (max n m)) po ng a (length xs) ys fx = Ret (fx2, ys @ map at_root (u # us))"
    using replace_more(1) [OF n(1), of "max n m"] replace_more(2) [OF m, of "max n m"] Cons.prems(3) by (simp add: nth_append)
  ultimately show ?case using n(2) us(1) ss(2) by (intro exI [of _ "Suc (max n m)"] exI [of _ fx2] exI [of _ "u # us"]) simp
qed

text \<open>The list of a statement is assigned after its substatements were walked over.\<close>

lemma assign_list:
  assumes ok: "targets_ok fx0 ft L U" and d: "walked fx0 ft L fx fx1 g ts us" and h: "keyword_at fx a = kw" "arg_at fx a = arg"
    and a: "a < fx_next fx" "a \<in> L" "a \<notin> set (concat (map addrs ts))" and dirty: "dirty (ANode a kw arg ts) = a # concat (map dirty ts)"
  shows "walked fx0 ft L fx (set_substmts a (map at_root us) fx1) g [ANode a kw arg ts] [ANode a kw arg us]"
proof -
  let ?fx = "set_substmts a (map at_root us) fx1"
  have ch: "changed_only (touched fx0 ft \<union> set (concat (map dirty ts))) fx fx1" using d by (simp add: walked_def)
  have fields: "keyword_at fx1 a = kw" "arg_at fx1 a = arg" using changes_fields(1,2) [OF ch a(1)] h by auto
  have "a \<notin> set (concat (map addrs us))" using d a(1,3) unfolding walked_def by (meson leD)
  then have "holds ?fx u" if "u \<in> set us" for u
    using d that holds_set [of a u] by (auto simp: walked_def list_all_iff)
  then have "holds ?fx (ANode a kw arg us)" using fields by (auto simp: list_all_iff)
  moreover have "groups_at fx0 ft L g ?fx"
    by (rule groups_at_frame [OF ok _ changes_set]) (use d a(2) in \<open>auto simp: walked_def\<close>)
  moreover have "changed_only (touched fx0 ft \<union> set (dirty (ANode a kw arg ts))) fx ?fx"
    unfolding dirty by (rule changes_mono [OF changes_trans [OF ch changes_set]]) auto
  ultimately show ?thesis using d unfolding walked_def by (auto simp del: dirty.simps)
qed

lemma walk_above:
  assumes lib: "lib_ok pg po" and ok: "targets_ok fx0 ft L U" and each: "\<forall>t \<in> set ts. walks pg po ng fx0 ft L topm T t"
    and h: "holds fx (ANode a kw arg ts)" and link: "kw \<noteq> Ext tailf ''symlink''" "\<not> no_symlink (erase (ANode a kw arg ts))"
    and a: "a \<notin> set (concat (map addrs ts))" "a \<in> L" and wts: "walkable pg po fx0 ft L topm T a g fx ts"
    and s: "replace_tree (do_replace_symlink pg ng (ft topm) T) pk (erase (ANode a kw arg ts)) g = Inr (s, g')"
  shows "\<exists>n fx' u. obj_replace_symlinks n po ng a fx = Ret (fx', at_root u) \<and> at_root u = a \<and> erase u = s \<and>
     walked fx0 ft L fx fx' g' [ANode a kw arg ts] [u]"
proof -
  have dirty: "dirty (ANode a kw arg ts) = a # concat (map dirty ts)" using link by simp
  have fx: "groups_at fx0 ft L g fx" "a < fx_next fx" using wts by (auto simp: walkable_def link_context_def)
  have a': "a \<notin> touched fx0 ft \<union> set (concat (map dirty ts))" using a touched_old(2) [OF ok] dirty_addrs by fastforce
  from s link(1) obtain ss where ss: "map_state (replace_tree (do_replace_symlink pg ng (ft topm) T) kw) (map erase ts) g = Inr (ss, g')"
    "s = Stmt kw arg ss" by (auto simp: rbind_eq_Inr_iff)
  have "\<exists>n fx' us. obj_replace_list n po ng a (length ([] :: nat list)) [] fx = Ret (fx', [] @ map at_root us) \<and> map erase us = ss \<and>
      walked fx0 ft L fx fx' g' ts us"
    by (rule walk_list [OF lib ok each wts _ a']) (use h ss(1) in auto)
  then obtain n fx' us where n: "obj_replace_list n po ng a 0 [] fx = Ret (fx', map at_root us)" and us: "map erase us = ss"
    and d: "walked fx0 ft L fx fx' g' ts us" by auto
  have "walked fx0 ft L fx (set_substmts a (map at_root us) fx') g' [ANode a kw arg ts] [ANode a kw arg us]"
    by (rule assign_list [OF ok d _ _ fx(2) a(2,1) dirty]) (use h in auto)
  moreover have "obj_replace_symlinks (Suc n) po ng a fx = Ret (set_substmts a (map at_root us) fx', a)" using n h link(1) by simp
  ultimately show ?thesis
    using us ss(2) by (intro exI [of _ "Suc n"] exI [of _ "set_substmts a (map at_root us) fx'"] exI [of _ "ANode a kw arg us"]) simp
qed

lemma walk_tree:
  assumes lib: "lib_ok pg po" and find: "finds po ft" and ok: "targets_ok fx0 ft L U"
  shows "walks pg po ng fx0 ft L topm T t"
proof (induction t)
  case (ANode a kw arg ts)
  let ?t = "ANode a kw arg ts" and ?R = "replace_tree (do_replace_symlink pg ng (ft topm) T)"
  show ?case
    unfolding walks_def
  proof (intro allI impI, elim conjE)
    fix pa g fx s g'
    assume w: "walkable pg po fx0 ft L topm T pa g fx [?t]" and s: "?R (keyword_at fx pa) (erase ?t) g = Inr (s, g')"
    have h: "holds fx ?t" "placed fx topm pa ?t" and ctx: "link_context pg po fx0 ft L topm T g fx" using w by (auto simp: walkable_def)
    have x: "\<forall>x \<in> set (addrs ?t). x < fx_next fx \<and> nd_top (fx_node fx x) = topm"
      using walkable_old(1) [OF ok w] placed_top [OF h(2)] by simp
    consider "kw = Ext tailf ''symlink''" | "no_symlink (erase ?t)" | "kw \<noteq> Ext tailf ''symlink''" "\<not> no_symlink (erase ?t)" by blast
    then show "\<exists>n fx' u. obj_replace_symlinks n po ng (at_root ?t) fx = Ret (fx', at_root u) \<and> erase u = s \<and> walked fx0 ft L fx fx' g' [?t] [u]"
    proof cases
      case 1
      with s h have "do_replace_symlink pg ng (ft topm) T (keyword_at fx pa) (erase ?t) g = Inr (s, g')" "nd_parent (fx_node fx (at_root ?t)) = Some pa" by auto
      from do_replace_holds [OF lib find ok ctx h(1) x this(2,1)] obtain n fx' u where
        n: "obj_do_replace_symlink n po ng a fx = Ret (fx', at_root u)" and r: "replaced fx0 ft L fx fx' g' s u" by auto
      have "obj_replace_symlinks (Suc n) po ng a fx = Ret (fx', at_root u)" using n h(1) 1 by simp
      moreover have "walked fx0 ft L fx fx' g' [?t] [u]" using r 1 by (auto simp: walked_def replaced_def)
      ultimately show ?thesis using r by (intro exI [of _ "Suc n"] exI [of _ fx'] exI [of _ u]) (simp add: replaced_def)
    next
      case 2
      have "s = erase ?t" "g' = g" using s replace_tree_same [OF 2] by simp_all
      moreover have "walked fx0 ft L fx fx g [?t] [?t]" using h ctx 2 by (auto simp: walked_def link_context_def)
      ultimately show ?thesis using walk_no_symlink [OF h(1) 2, of po ng] by blast
    next
      case 3
      have "a \<notin> set (concat (map addrs ts))" "a \<in> L" using w by (auto simp: walkable_def)
      moreover have "dirty ?t = a # concat (map dirty ts)" using 3 by simp
      then have "walkable pg po fx0 ft L topm T a g fx ts"
        using w h ctx x unfolding walkable_def by (auto simp: list_all_iff simp del: dirty.simps intro: area_ok_mono)
      ultimately show ?thesis using walk_above [OF lib ok _ h(1) 3 _ _ _ s] ANode.IH by fastforce
    qed
  qed
qed

section \<open>All modules\<close>

text \<open>
  A module with targets, as a value: a \<open>uses\<close> statement in the place of every grouped target, and the groupings at the end of
  the module.
\<close>

fun regroup :: "(nat \<times> string) list \<Rightarrow> atree \<Rightarrow> stmt" where
  "regroup names (ANode a kw arg ts) =
     (case map_of names a of Some nm \<Rightarrow> Stmt (Kw ''uses'') nm [] | None \<Rightarrow> Stmt kw arg (map (regroup names) ts))"

definition grouped :: "groups \<Rightarrow> atree \<Rightarrow> stmt" where
  "grouped g M = Stmt (at_keyword M) (at_arg M)
     (map (regroup (gr_names g)) (at_children M) @ map snd (filter (\<lambda>y. fst y = at_root M) (gr_appended g)))"

lemma regroup_holds:
  assumes ok: "targets_ok fx0 ft L U" and at: "modules_at fx0 ft L us gs fx" and names: "map fst us = map fst ns"
      "\<forall>(i, nm) \<in> set ns. \<exists>tg \<in> targets ft. tg_id tg = i \<and> nm = group_name (tg_stmt tg)"
    and "holds fx0 t" and "\<forall>x \<in> set (addrs t). x < fx_next fx0 \<and> x \<notin> L \<and> x \<notin> tg_top_id ` targets ft"
  shows "\<exists>t'. holds fx t' \<and> at_root t' = moved us (at_root t) \<and> erase t' = regroup ns t \<and> (no_symlink (erase t) \<longrightarrow> no_symlink (erase t'))"
  using assms(5,6)
proof (induction t)
  case (ANode a kw arg ts)
  show ?case
  proof (cases "map_of us a")
    case (Some u)
    then obtain nm where nm: "map_of ns a = Some nm"
      using names(1) by (metis map_of_eq_None_iff not_None_eq list.set_map)
    with names(2) obtain tg where tg: "tg \<in> targets ft" "tg_id tg = a" "nm = group_name (tg_stmt tg)" using map_of_SomeD by fastforce
    from modules_at_sel(3) [OF at map_of_SomeD [OF Some]] obtain tg' where
      tg': "tg' \<in> targets ft" "tg_id tg' = a" "new_tree fx0 fx (ANode u (Kw ''uses'') (group_name (tg_stmt tg')) [])" by blast
    have "tg' = tg" using ok tg tg' by (auto simp: targets_ok_def dest: inj_onD)
    with Some nm tg tg' show ?thesis
      by (intro exI [of _ "ANode u (Kw ''uses'') nm []"]) (auto simp: new_tree_def moved_def)
  next
    case None
    then have none: "map_of ns a = None" using names(1) by (metis map_of_eq_None_iff list.set_map)
    have "\<forall>t \<in> set ts. \<exists>t'. holds fx t' \<and> at_root t' = moved us (at_root t) \<and> erase t' = regroup ns t \<and> (no_symlink (erase t) \<longrightarrow> no_symlink (erase t'))"
      using ANode by (auto simp: list_all_iff)
    then obtain f where f: "\<forall>t \<in> set ts. holds fx (f t) \<and> at_root (f t) = moved us (at_root t) \<and> erase (f t) = regroup ns t \<and>
        (no_symlink (erase t) \<longrightarrow> no_symlink (erase (f t)))" by (rule bchoice [THEN exE])
    have "appended_to gs a = []"
      using modules_at_sel(4) [OF at] ANode.prems(2) by (auto simp: appended_to_def filter_empty_conv)
    with ANode.prems modules_at_sel(2) [OF at, of a] f have "holds fx (ANode a kw arg (map f ts))" by (auto simp: list_all_iff)
    with f None none show ?thesis
      by (intro exI [of _ "ANode a kw arg (map f ts)"]) (auto simp: moved_def list_all_iff)
  qed
qed

text \<open>A module without links, and one with links.\<close>

definition plain_module :: "fixer \<Rightarrow> finder \<Rightarrow> nat set \<Rightarrow> atree \<Rightarrow> bool" where
  "plain_module fx0 ft L M \<longleftrightarrow> holds fx0 M \<and> no_symlink (erase M) \<and> distinct (addrs M) \<and> at_root M \<notin> tg_id ` targets ft \<and>
     (\<forall>x \<in> set (addrs M). x < fx_next fx0 \<and> x \<notin> L \<and> (x \<in> tg_top_id ` targets ft \<longrightarrow> x = at_root M))"

definition link_module :: "fixer \<Rightarrow> atree \<Rightarrow> bool" where
  "link_module fx M \<longleftrightarrow> holds fx M \<and> at_keyword M \<noteq> Ext tailf ''symlink'' \<and> list_all (placed fx (at_root M) (at_root M)) (at_children M) \<and>
     (\<forall>c \<in> set (at_children M). at_keyword c = Kw ''import'' \<longrightarrow> no_symlink (erase c))"

abbreviation has_links :: "atree \<Rightarrow> bool" where
  "has_links M \<equiv> \<not> no_symlink (erase M)"

lemma plain_module_holds:
  assumes ok: "targets_ok fx0 ft L U" and at: "groups_at fx0 ft L g fx" and p: "plain_module fx0 ft L M"
  shows "\<exists>M'. holds fx M' \<and> at_root M' = at_root M \<and> erase M' = grouped g M \<and> no_symlink (erase M')"
proof -
  obtain m kw arg ts where M: "M = ANode m kw arg ts" by (cases M)
  from at obtain us gs where us: "modules_at fx0 ft L us gs fx" "map fst us = map fst (gr_names g)"
    "\<forall>(i, nm) \<in> set (gr_names g). \<exists>tg \<in> targets ft. tg_id tg = i \<and> nm = group_name (tg_stmt tg)"
    "gr_appended g = map (\<lambda>(m, t). (m, erase t)) gs" unfolding groups_at_def by blast
  have x: "x < fx_next fx0 \<and> x \<notin> L \<and> x \<notin> tg_top_id ` targets ft" if "t \<in> set ts" "x \<in> set (addrs t)" for t x
    using p that by (auto simp: plain_module_def M)
  have "\<forall>t \<in> set ts. \<exists>t'. holds fx t' \<and> at_root t' = moved us (at_root t) \<and> erase t' = regroup (gr_names g) t \<and> (no_symlink (erase t) \<longrightarrow> no_symlink (erase t'))"
    using p x by (intro ballI regroup_holds [OF ok us(1-3)]) (auto simp: plain_module_def M list_all_iff)
  then obtain f where f: "\<forall>t \<in> set ts. holds fx (f t) \<and> at_root (f t) = moved us (at_root t) \<and> erase (f t) = regroup (gr_names g) t \<and>
      (no_symlink (erase t) \<longrightarrow> no_symlink (erase (f t)))" by (rule bchoice [THEN exE])
  let ?gs = "map snd (filter (\<lambda>x. fst x = m) gs)"
  let ?M = "ANode m kw arg (map f ts @ ?gs)"
  have gs: "\<forall>t \<in> set ?gs. holds fx t \<and> no_symlink (erase t)" using modules_at_sel(4) [OF us(1)] by (auto simp: new_tree_def)
  have "substmts fx m = map (moved us) (map at_root ts) @ appended_to gs m"
    and "keyword_at fx m = kw" "arg_at fx m = arg"
    using modules_at_sel(2) [OF us(1), of m] p by (auto simp: plain_module_def M)
  then have "holds fx ?M" using f gs by (auto simp: list_all_iff appended_to_def split_beta)
  moreover have "erase ?M = grouped g M" using f us(4) by (simp add: grouped_def M filter_map o_def split_beta)
  moreover have "no_symlink (erase ?M)" using p f gs by (auto simp: plain_module_def M list_all_iff)
  ultimately show ?thesis by (intro exI [of _ ?M]) (simp add: M)
qed

lemma addrs_disjoint:
  "distinct (concat (map addrs ts)) \<Longrightarrow> c \<in> set ts \<Longrightarrow> c' \<in> set ts \<Longrightarrow> c' \<noteq> c \<Longrightarrow> set (addrs c) \<inter> set (addrs c') = {}"
  by (induction ts) auto

lemma link_module_walkable:
  assumes lib: "lib_ok pg po" and ok: "targets_ok fx0 ft L U" and g: "groups_at fx0 ft L g fx" and M: "link_module fx (ANode m kw arg ts)"
    and d: "distinct (addrs (ANode m kw arg ts))" "set (addrs (ANode m kw arg ts)) \<subseteq> L"
  shows "walkable pg po fx0 ft L m (erase (ANode m kw arg ts)) m g fx ts"
proof -
  have h: "holds fx (ANode m kw arg ts)" using M by (simp add: link_module_def)
  have x: "x < fx_next fx \<and> x \<notin> touched fx0 ft" if "x \<in> set (addrs (ANode m kw arg ts))" for x
    using link_old [OF ok g] d(2) that by blast
  have area: "area_ok (touched fx0 ft \<union> set (concat (map dirty ts))) fx m"
    unfolding area_ok_def
  proof (intro ballI conjI)
    fix y
    assume y: "y \<in> prefix_area fx m"
    have "y \<in> set (addrs (ANode m kw arg ts)) \<and> y \<notin> set (concat (map dirty ts)) \<and> (\<forall>c \<in> set (substmts fx y). c \<in> set (addrs (ANode m kw arg ts)))"
    proof (cases "y = m")
      case True
      moreover have "m \<notin> set (concat (map dirty ts))" using d(1) dirty_addrs by fastforce
      ultimately show ?thesis using h by fastforce
    next
      case False
      with y h obtain c where c: "c \<in> set ts" "at_root c = y" "keyword_at fx y = Kw ''import''" by (auto simp: prefix_area_def)
      then have "holds fx c" using h by (auto simp: list_all_iff)
      note hc = holds_root [OF this]
      have "dirty c = []" using M c hc by (cases c) (auto simp: link_module_def)
      moreover have "y \<notin> set (addrs c')" if "c' \<in> set ts" "c' \<noteq> c" for c'
        using addrs_disjoint [of ts c c'] d(1) c(1,2) that root_addrs [of c] by auto
      ultimately have "y \<notin> set (concat (map dirty ts))" using dirty_addrs by fastforce
      moreover have "set (substmts fx y) \<subseteq> set (addrs c)" using hc c(2) by (cases c) force
      ultimately show ?thesis using c by fastforce
    qed
    with x show "y < fx_next fx" "y \<notin> touched fx0 ft \<union> set (concat (map dirty ts))" "\<And>c. c \<in> set (substmts fx y) \<Longrightarrow> c < fx_next fx" by blast+
  qed
  have "link_context pg po fx0 ft L m (erase (ANode m kw arg ts)) g fx"
    unfolding link_context_def using g module_prefix_holds [OF lib h] area by (auto intro: area_ok_mono)
  with M d x area show ?thesis by (auto simp: walkable_def link_module_def list_all_iff)
qed

lemma walk_module:
  assumes lib: "lib_ok pg po" and find: "finds po ft" and ok: "targets_ok fx0 ft L U" and g: "groups_at fx0 ft L g fx" and M: "link_module fx M" "has_links M"
    and d: "distinct (addrs M)" "set (addrs M) \<subseteq> L" and s: "replace_module pg ng (ft (at_root M)) (erase M) g = Inr (s, g')"
  shows "\<exists>n fx' u. obj_replace_symlinks n po ng (at_root M) fx = Ret (fx', at_root u) \<and> at_root u = at_root M \<and> erase u = s \<and> walked fx0 ft L fx fx' g' [M] [u]"
proof -
  obtain m kw arg ts where m: "M = ANode m kw arg ts" by (cases M)
  note w = link_module_walkable [OF lib ok g M(1) [unfolded m] d [unfolded m]]
  have "\<forall>t \<in> set ts. walks pg po ng fx0 ft L m (erase M) t" using walk_tree [OF lib find ok] by blast
  from walk_above [OF lib ok this [unfolded m] _ _ M(2) [unfolded m] _ _ w s [unfolded replace_module_def m atree.sel]] show ?thesis
    using M(1) d by (auto simp: m link_module_def)
qed

definition walk_step :: "nat \<Rightarrow> pyang_objects \<Rightarrow> bool \<Rightarrow> nat \<Rightarrow> fixer \<Rightarrow> fixer outcome" where
  "walk_step n po ng m fx = obind (obj_replace_symlinks n po ng m fx) (\<lambda>(fx', _). Ret fx')"

lemma walk_step_more: "walk_step n po ng m fx = Ret r \<Longrightarrow> n \<le> k \<Longrightarrow> walk_step k po ng m fx = Ret r"
  by (auto simp: walk_step_def obind_Ret dest: replace_more(1))

definition modules_ready :: "fixer \<Rightarrow> finder \<Rightarrow> nat set \<Rightarrow> fixer \<Rightarrow> atree list \<Rightarrow> bool" where
  "modules_ready fx0 ft L fx ms \<longleftrightarrow> (\<forall>M \<in> set ms. if has_links M then link_module fx M else plain_module fx0 ft L M) \<and>
     distinct (concat (map addrs (filter has_links ms))) \<and> set (concat (map addrs (filter has_links ms))) \<subseteq> L"

lemma modules_ready_tail:
  assumes ok: "targets_ok fx0 ft L U" and g: "groups_at fx0 ft L g fx" and r: "modules_ready fx0 ft L fx (M # ms)" "has_links M"
    and d: "walked fx0 ft L fx fx1 g1 [M] [u]"
  shows "modules_ready fx0 ft L fx1 ms"
proof -
  have ch: "changed_only (touched fx0 ft \<union> set (dirty M)) fx fx1" using d by (simp add: walked_def)
  have "link_module fx1 N" if N: "N \<in> set ms" "has_links N" for N
  proof -
    have lm: "link_module fx N" using r(1) N by (auto simp: modules_ready_def)
    have x: "x < fx_next fx \<and> x \<notin> touched fx0 ft \<union> set (dirty M)" if "x \<in> set (addrs N)" for x
    proof -
      have "x \<in> L" "x \<notin> set (addrs M)" using that N r by (auto simp: modules_ready_def)
      with link_old [OF ok g] dirty_addrs [of M] show ?thesis by blast
    qed
    have "holds fx1 N" by (rule changes_holds [OF ch]) (use lm x in \<open>auto simp: link_module_def\<close>)
    moreover have "placed fx1 (at_root N) (at_root N) c" if "c \<in> set (at_children N)" for c
    proof (rule placed_same [of fx])
      show "placed fx (at_root N) (at_root N) c" using lm that by (simp add: link_module_def list_all_iff)
      fix y
      assume "y \<in> set (addrs c)"
      then have "y \<in> set (addrs N)" using that by (cases N) auto
      then show "nd_top (fx_node fx1 y) = nd_top (fx_node fx y) \<and> nd_parent (fx_node fx1 y) = nd_parent (fx_node fx y)"
        using changes_fields(3,4) [OF ch] x by blast
    qed
    ultimately show ?thesis using lm by (simp add: link_module_def list_all_iff)
  qed
  with r show ?thesis by (auto simp: modules_ready_def)
qed

lemma walk_modules:
  assumes lib: "lib_ok pg po" and find: "finds po ft" and ok: "targets_ok fx0 ft L U"
    and "groups_at fx0 ft L g fx" and "modules_ready fx0 ft L fx ms"
    and "map_state (\<lambda>M. replace_module pg ng (ft (at_root M)) (erase M)) (filter has_links ms) g = Inr (ss, g')"
  shows "\<exists>n fx' us. fold_outcome (walk_step n po ng) (map at_root ms) fx = Ret fx' \<and> map at_root us = map at_root (filter has_links ms) \<and>
     map erase us = ss \<and> walked fx0 ft L fx fx' g' (filter has_links ms) us"
  using assms(4-)
proof (induction ms arbitrary: fx g ss)
  case Nil
  then have "walked fx0 ft L fx fx g [] []" by (simp add: walked_def)
  with Nil show ?case by (intro exI [of _ 0] exI [of _ fx] exI [of _ "[]"]) simp
next
  case (Cons M ms)
  show ?case
  proof (cases "has_links M")
    case False
    with Cons.prems(2) have p: "plain_module fx0 ft L M" and r: "modules_ready fx0 ft L fx ms" by (auto simp: modules_ready_def)
    from plain_module_holds [OF ok Cons.prems(1) p] obtain M' where "holds fx M'" "at_root M' = at_root M" "no_symlink (erase M')" by blast
    with walk_no_symlink [of fx M' po ng] obtain n where n: "walk_step n po ng (at_root M) fx = Ret fx" by (auto simp: walk_step_def obind_Ret)
    from Cons.IH [OF Cons.prems(1) r] Cons.prems(3) False obtain m fx' us where
      m: "fold_outcome (walk_step m po ng) (map at_root ms) fx = Ret fx'" and us: "map at_root us = map at_root (filter has_links ms)"
        "map erase us = ss" "walked fx0 ft L fx fx' g' (filter has_links ms) us" by auto
    have "fold_outcome (walk_step (max n m) po ng) (map at_root ms) fx = Ret fx'"
      by (rule fold_outcome_Ret_cong [OF m]) (erule walk_step_more, simp)
    with walk_step_more [OF n, of "max n m"] us False show ?thesis by (intro exI [of _ "max n m"] exI [of _ fx'] exI [of _ us]) simp
  next
    case True
    with Cons.prems(3) obtain s g1 ss' where s: "replace_module pg ng (ft (at_root M)) (erase M) g = Inr (s, g1)" "ss = s # ss'"
      and ss: "map_state (\<lambda>M. replace_module pg ng (ft (at_root M)) (erase M)) (filter has_links ms) g1 = Inr (ss', g')"
      by (auto simp: rbind_eq_Inr_iff)
    have M: "link_module fx M" "distinct (addrs M)" "set (addrs M) \<subseteq> L" using Cons.prems(2) True by (auto simp: modules_ready_def)
    from walk_module [OF lib find ok Cons.prems(1) M(1) True M(2,3) s(1)] obtain n fx1 u where
      n: "walk_step n po ng (at_root M) fx = Ret fx1" and u: "at_root u = at_root M" "erase u = s" and d: "walked fx0 ft L fx fx1 g1 [M] [u]"
      by (auto simp: walk_step_def obind_Ret)
    have g1: "groups_at fx0 ft L g1 fx1" using d by (simp add: walked_def)
    from Cons.IH [OF g1 modules_ready_tail [OF ok Cons.prems(1,2) True d] ss] obtain m fx' us where
      m: "fold_outcome (walk_step m po ng) (map at_root ms) fx1 = Ret fx'" and us: "map at_root us = map at_root (filter has_links ms)"
        "map erase us = ss'" "walked fx0 ft L fx1 fx' g' (filter has_links ms) us" by auto
    have "walked fx0 ft L fx fx' g' (M # filter has_links ms) (u # us)"
      by (rule walked_Cons [OF ok Cons.prems(1) _ _ d us(3)]) (use Cons.prems(2) True in \<open>auto simp: modules_ready_def\<close>)
    moreover have "fold_outcome (walk_step (max n m) po ng) (map at_root ms) fx1 = Ret fx'"
      by (rule fold_outcome_Ret_cong [OF m]) (erule walk_step_more, simp)
    ultimately show ?thesis
      using walk_step_more [OF n, of "max n m"] u us s(2) True by (intro exI [of _ "max n m"] exI [of _ fx'] exI [of _ "u # us"]) simp
  qed
qed

text \<open>No link is left.\<close>

lemma map_result_mem: "map_result f xs = Inr ys \<Longrightarrow> y \<in> set ys \<Longrightarrow> \<exists>x \<in> set xs. f x = Inr y"
  by (induction xs arbitrary: ys) (auto simp: rbind_eq_Inr_iff)

lemma map_state_all:
  assumes "map_state f xs g = Inr (ys, g')" and "\<And>x g y g'. x \<in> set xs \<Longrightarrow> f x g = Inr (y, g') \<Longrightarrow> P y"
  shows "list_all P ys"
  using assms
proof (induction xs arbitrary: g ys)
  case (Cons x xs)
  then obtain y g1 zs where y: "f x g = Inr (y, g1)" and zs: "map_state f xs g1 = Inr (zs, g')" "ys = y # zs" by (auto simp: rbind_eq_Inr_iff)
  have "P y" using Cons.prems(2) y by auto
  moreover have "list_all P zs" by (rule Cons.IH [OF zs(1)]) (use Cons.prems(2) in auto)
  ultimately show ?case using zs(2) by simp
qed simp

lemma add_links_no_symlink:
  "add_links pg tf path pfx s = Inr s' \<Longrightarrow> no_symlink s \<Longrightarrow> no_symlink s'"
proof (induction s arbitrary: path s')
  case (Stmt kw arg subs)
  show ?case
  proof (cases "kw \<in> {Kw ''leaf'', Kw ''leaf-list''}")
    case False
    with Stmt.prems obtain ss where ss: "map_result (\<lambda>s. if pg_data_keyword pg (st_keyword s) then add_links pg tf (sub_path path pfx s) pfx s else Inr s) subs = Inr ss"
      "s' = Stmt kw arg ss" by (auto simp: rbind_eq_Inr_iff)
    have "no_symlink y" if "y \<in> set ss" for y
    proof -
      from map_result_mem [OF ss(1) that] obtain x where x: "x \<in> set subs"
        and y: "(if pg_data_keyword pg (st_keyword x) then add_links pg tf (sub_path path pfx x) pfx x else Inr x) = Inr y" by blast
      have "no_symlink x" using x Stmt.prems(2) by (simp add: list_all_iff)
      with y Stmt.IH [OF x, of "sub_path path pfx x" y] show ?thesis by (simp split: if_splits)
    qed
    with Stmt.prems ss(2) show ?thesis by (auto simp: list_all_iff)
  qed (use Stmt.prems in \<open>auto simp: rbind_eq_Inr_iff\<close>)
qed

lemma do_replace_no_symlink:
  assumes lib: "lib_ok pg po" and tgs: "\<And>p tg. find_target p = Inr tg \<Longrightarrow> no_symlink (tg_stmt tg)"
    and s: "do_replace_symlink pg ng find_target T kw link g = Inr (s, g')"
  shows "no_symlink s"
proof -
  from s obtain path tg tp where tg: "find_target (st_arg path) = Inr tg"
    and spec: "(if can_use_link pg (tg_stmt tg) then
            rbind (pg_copy pg (fix_xpaths pg (tg_top tg)) kw (tg_stmt tg)) (\<lambda>new.
            rbind (add_links pg (module_prefix pg T tailf) (st_arg path) tp (Stmt (st_keyword new) (st_arg link) (st_substmts new))) (\<lambda>new'. Inr (new', g)))
          else if ng then
            rbind (pg_copy pg (fix_xpaths pg (tg_top tg)) kw (tg_stmt tg)) (\<lambda>new.
            rbind (add_transform_callpoint pg T (Stmt (st_keyword new) (st_arg link) (st_substmts new))) (\<lambda>new'. Inr (new', g)))
          else
            rbind (introduce_grouping pg tg g) (\<lambda>(group_name, g').
            rbind (add_transform_callpoint pg T (Stmt (Kw ''refine'') (st_arg (tg_stmt tg)) [])) (\<lambda>refine.
              Inr (Stmt (Kw ''uses'') (tp @ '':'' @ group_name) [refine], g')))) = Inr (s, g')"
    by (auto simp: do_replace_symlink_def rbind_eq_Inr_iff split: option.splits)
  have new: "no_symlink (Stmt (st_keyword c) nm (st_substmts c))" if "pg_copy pg (fix_xpaths pg (tg_top tg)) kw (tg_stmt tg) = Inr c" for c nm
    using copy_no_symlink [OF lib that] tgs [OF tg] by (cases c) simp
  show ?thesis
    using spec new by (auto simp: rbind_eq_Inr_iff add_transform_callpoint_def simp del: add_links.simps dest: add_links_no_symlink split: if_splits)
qed

lemma replace_tree_no_symlink:
  assumes "\<And>kw s g s' g'. repl kw s g = Inr (s', g') \<Longrightarrow> no_symlink s'" and "replace_tree repl kw s g = Inr (s', g')"
  shows "no_symlink s'"
  using assms(2)
proof (induction s arbitrary: kw g s' g')
  case (Stmt kw' arg subs)
  show ?case
  proof (cases "kw' = Ext tailf ''symlink''")
    case True
    with Stmt.prems assms(1) show ?thesis by auto
  next
    case False
    with Stmt.prems obtain ss where ss: "map_state (replace_tree repl kw') subs g = Inr (ss, g')" "s' = Stmt kw' arg ss" by (auto simp: rbind_eq_Inr_iff)
    have "list_all no_symlink ss" by (rule map_state_all [OF ss(1)]) (use Stmt.IH in blast)
    with False ss(2) show ?thesis by simp
  qed
qed

section \<open>Properties\<close>

lemma groups_at_start:
  assumes "fx_groupings fx0 = []"
  shows "groups_at fx0 ft L \<lparr>gr_names = [], gr_appended = []\<rparr> fx0"
proof -
  have "moved [] = (\<lambda>c. c)" by (intro ext) (simp add: moved_def)
  then have "modules_at fx0 ft L [] [] fx0" by (intro modules_atI) (simp_all add: appended_to_def)
  with assms show ?thesis by (auto simp: groups_at_def)
qed

lemma module_root:
  assumes "targets_ok fx0 ft L U" and "modules_ready fx0 ft L fx0 ms" and "fx_groupings fx0 = []" and "M \<in> set ms"
  shows "at_root M < fx_next fx0 \<and> arg_at fx0 (at_root M) = at_arg M"
proof (cases "has_links M")
  case True
  with assms(2,4) have "set (addrs M) \<subseteq> L" and M: "link_module fx0 M" by (auto simp: modules_ready_def)
  then have "at_root M \<in> L" using root_addrs by blast
  then show ?thesis
    using link_old(1) [OF assms(1) groups_at_start [OF assms(3)]] holds_root [of fx0 M] M by (auto simp: link_module_def)
next
  case False
  with assms(2,4) have "plain_module fx0 ft L M" by (auto simp: modules_ready_def)
  then show ?thesis using holds_root by (auto simp: plain_module_def)
qed

text \<open>
  C14. The plugin, with or without groupings, replaces all links: if replacing the links is possible on the values of the modules, then the
  program returns, whatever the order of the modules; every module with links is the value of \<open>replace_module\<close>, every other one has its
  targets replaced and its groupings appended, no link is left, and one file is written for every module, after all changes.
\<close>

theorem symlinks_replaced:
  assumes "lib_ok pg po" and "finds po ft" and "targets_ok fx0 ft L U" and "modules_ready fx0 ft L fx0 ms" and "fx_groupings fx0 = []"
    and "so_replace opts"
    and "map_state (\<lambda>M. replace_module pg (so_no_groups opts) (ft (at_root M)) (erase M)) (filter has_links ms) \<lparr>gr_names = [], gr_appended = []\<rparr> = Inr (ss, g)"
  shows "\<exists>n fx us. (\<forall>k \<ge> n. obj_replace k po emit opts d (map at_root ms) fx0 =
       Ret (fx, map (\<lambda>M. (path_join d (at_arg M @ ''.yang''), emit fx (at_root M))) ms)) \<and>
     map at_root us = map at_root (filter has_links ms) \<and> list_all (holds fx) us \<and> map erase us = ss \<and> list_all no_symlink ss \<and>
     (\<forall>M \<in> set ms. \<not> has_links M \<longrightarrow> (\<exists>M'. holds fx M' \<and> at_root M' = at_root M \<and> erase M' = grouped g M \<and> no_symlink (erase M')))"
proof -
  note start = groups_at_start [OF assms(5), of ft L]
  from walk_modules [OF assms(1-3) start assms(4,7)] obtain n fx us where
    n: "fold_outcome (walk_step n po (so_no_groups opts)) (map at_root ms) fx0 = Ret fx" and us: "map at_root us = map at_root (filter has_links ms)"
      "map erase us = ss" and w: "walked fx0 ft L fx0 fx g (filter has_links ms) us" by blast
  have "at_root M < fx_next fx0 \<and> arg_at fx0 (at_root M) = at_arg M" if "M \<in> set ms" for M
    by (rule module_root [OF assms(3-5) that])
  then have args: "\<forall>M \<in> set ms. arg_at fx (at_root M) = at_arg M" using w changes_fields(2) unfolding walked_def by metis
  have "fold_outcome (walk_step k po (so_no_groups opts)) (map at_root ms) fx0 = Ret fx" if "n \<le> k" for k
    by (rule fold_outcome_Ret_cong [OF n]) (erule walk_step_more, rule that)
  then have "\<forall>k \<ge> n. obj_replace k po emit opts d (map at_root ms) fx0 =
      Ret (fx, map (\<lambda>M. (path_join d (at_arg M @ ''.yang''), emit fx (at_root M))) ms)"
    using assms(6) args by (simp add: obj_replace_def walk_step_def [abs_def])
  moreover have "list_all no_symlink ss"
  proof (rule map_state_all [OF assms(7)])
    fix M g1 s g2
    assume s: "replace_module pg (so_no_groups opts) (ft (at_root M)) (erase M) g1 = Inr (s, g2)"
    show "no_symlink s"
      by (rule replace_tree_no_symlink [OF _ s [unfolded replace_module_def]])
        (rule do_replace_no_symlink [OF assms(1)], use targetD(5) [OF assms(3)] in \<open>auto simp: targets_def\<close>)
  qed
  moreover have "\<exists>M'. holds fx M' \<and> at_root M' = at_root M \<and> erase M' = grouped g M \<and> no_symlink (erase M')"
    if "M \<in> set ms" "\<not> has_links M" for M
    using plain_module_holds [OF assms(3), of g fx M] that assms(4) w by (auto simp: modules_ready_def walked_def)
  ultimately show ?thesis using us w unfolding walked_def by blast
qed

section \<open>An implementation of the library\<close>

text \<open>Searching and copying, on values and on objects; the copy allocates an object before its substatements.\<close>

fun value_copy :: "(keyword \<Rightarrow> keyword \<Rightarrow> string \<Rightarrow> string result) \<Rightarrow> keyword \<Rightarrow> stmt \<Rightarrow> stmt result" where
  "value_copy f pk (Stmt kw arg subs) =
     rbind (f pk kw arg) (\<lambda>arg'. rbind (map_result (value_copy f kw) subs) (\<lambda>subs'. Inr (Stmt kw arg' subs')))"

definition copied_node :: "nat option \<Rightarrow> nat \<Rightarrow> string \<Rightarrow> node \<Rightarrow> node" where
  "copied_node topm p arg nd =
     nd\<lparr>nd_arg := arg, nd_top := (case topm of None \<Rightarrow> nd_top nd | Some v \<Rightarrow> v), nd_parent := Some p, nd_substmts := []\<rparr>"

fun object_copy ::
  "nat \<Rightarrow> (nat \<Rightarrow> keyword \<Rightarrow> keyword \<Rightarrow> string \<Rightarrow> string result) \<Rightarrow> nat option \<Rightarrow> nat \<Rightarrow> nat \<Rightarrow> fixer \<Rightarrow> (nat \<times> fixer) result" where
  "object_copy 0 cb topm p a fx = Inl RuntimeError"
| "object_copy (Suc n) cb topm p a fx =
     (let nd = fx_node fx a; new = fx_next fx
      in rbind (cb a (keyword_at fx p) (nd_keyword nd) (nd_arg nd)) (\<lambda>arg.
           rbind (map_state (object_copy n cb topm new) (nd_substmts nd)
                    (fx\<lparr>fx_node := (fx_node fx)(new := copied_node topm p arg nd), fx_next := Suc new\<rparr>))
             (\<lambda>(cs, fx2). Inr (new, set_substmts new cs fx2))))"

definition ref_pyang :: "(keyword \<Rightarrow> bool) \<Rightarrow> (string \<Rightarrow> (string \<times> string) list) \<Rightarrow> pyang" where
  "ref_pyang data scan = \<lparr>pg_data_keyword = data,
     pg_search_one = (\<lambda>s kw arg. find (\<lambda>c. matches kw arg (st_keyword c) (st_arg c)) (st_substmts s)),
     pg_scan = scan, pg_copy = value_copy\<rparr>"

definition ref_objects :: "(keyword \<Rightarrow> bool) \<Rightarrow> (string \<Rightarrow> (string \<times> string) list) \<Rightarrow> (node \<Rightarrow> nat result) \<Rightarrow> pyang_objects" where
  "ref_objects data scan find_target = \<lparr>po_data_keyword = data,
     po_search_one = (\<lambda>fx a kw arg. find (\<lambda>c. matches kw arg (keyword_at fx c) (arg_at fx c)) (substmts fx a)),
     po_scan = scan,
     po_copy = (\<lambda>cb topm p a fx. case p of None \<Rightarrow> Inl AttributeError
        | Some q \<Rightarrow> map_sum id (\<lambda>(r, fx'). (fx', r)) (object_copy (fx_next fx) cb topm q a fx)),
     po_find_target = find_target\<rparr>"

fun height :: "atree \<Rightarrow> nat" where
  "height (ANode a kw arg ts) = Suc (Max (insert 0 (height ` set ts)))"

lemma height_child: "t \<in> set ts \<Longrightarrow> height t < height (ANode a kw arg ts)"
  by (simp add: less_Suc_eq_le)

lemma height_addrs: "height t \<le> length (addrs t)"
proof (induction t)
  case (ANode a kw arg ts)
  have "height t \<le> length (concat (map addrs ts))" if "t \<in> set ts" for t
  proof -
    have "length (addrs t) \<le> length (concat (map addrs ts))"
      using that by (induction ts) auto
    with ANode.IH [OF that] show ?thesis by simp
  qed
  then show ?case by simp
qed

definition copies :: "nat option \<Rightarrow> fixer \<Rightarrow> fixer \<Rightarrow> atree list \<Rightarrow> bool" where
  "copies topm fx fx' us \<longleftrightarrow> list_all (holds fx') us \<and> distinct (concat (map addrs us)) \<and>
     (\<forall>x \<in> set (concat (map addrs us)). fx_next fx \<le> x \<and> x < fx_next fx' \<and> (\<forall>v. topm = Some v \<longrightarrow> nd_top (fx_node fx' x) = v)) \<and>
     changed_only {} fx fx' \<and> fx_groupings fx' = fx_groupings fx"

definition copyable :: "(nat \<Rightarrow> keyword \<Rightarrow> keyword \<Rightarrow> string \<Rightarrow> string result) \<Rightarrow> (keyword \<Rightarrow> keyword \<Rightarrow> string \<Rightarrow> string result) \<Rightarrow> fixer \<Rightarrow> atree \<Rightarrow> bool" where
  "copyable cb f fx t \<longleftrightarrow> holds fx t \<and> (\<forall>x \<in> set (addrs t). x < fx_next fx \<and> cb x = f)"

lemma copyable_changes: "copyable cb f fx t \<Longrightarrow> changed_only {} fx fx' \<Longrightarrow> copyable cb f fx' t"
proof -
  assume c: "copyable cb f fx t" "changed_only {} fx fx'"
  then have "holds fx' t" using changes_holds [OF c(2), of t] by (simp add: copyable_def)
  with c show "copyable cb f fx' t" by (auto simp: copyable_def changed_only_def)
qed

lemma changes_none: "changed_only {} fx fx1 \<Longrightarrow> changed_only {} fx1 fx2 \<Longrightarrow> changed_only {} fx fx2"
  using changes_trans by fastforce

lemma copies_Cons:
  assumes "copies topm fx fx1 [u]" and "copies topm fx1 fx2 us"
  shows "copies topm fx fx2 (u # us)"
proof -
  have ch: "changed_only {} fx fx1" "changed_only {} fx1 fx2" using assms by (auto simp: copies_def)
  have u: "x < fx_next fx1 \<and> fx_next fx \<le> x \<and> fx_node fx2 x = fx_node fx1 x" if "x \<in> set (addrs u)" for x
    using that assms(1) changes_node [OF ch(2)] by (auto simp: copies_def)
  have "holds fx2 u" using assms(1) u holds_same [of u fx2 fx1] by (auto simp: copies_def)
  moreover have "set (addrs u) \<inter> set (concat (map addrs us)) = {}"
  proof -
    have "\<forall>y \<in> set (concat (map addrs us)). fx_next fx1 \<le> y" using assms(2) by (simp add: copies_def)
    with u show ?thesis by (meson disjoint_iff leD)
  qed
  moreover have "fx_next fx \<le> fx_next fx1" "fx_next fx1 \<le> fx_next fx2" using ch by (auto simp: changed_only_def)
  ultimately show ?thesis
    using assms changes_trans [OF ch] u unfolding copies_def by (auto intro: le_trans less_le_trans)
qed

definition copies_tree :: "nat \<Rightarrow> (nat \<Rightarrow> keyword \<Rightarrow> keyword \<Rightarrow> string \<Rightarrow> string result) \<Rightarrow> (keyword \<Rightarrow> keyword \<Rightarrow> string \<Rightarrow> string result) \<Rightarrow> nat option \<Rightarrow> atree \<Rightarrow> bool" where
  "copies_tree n cb f topm t \<longleftrightarrow> (\<forall>fx p s. copyable cb f fx t \<and> value_copy f (keyword_at fx p) (erase t) = Inr s \<longrightarrow>
     (\<exists>fx' t'. object_copy n cb topm p (at_root t) fx = Inr (at_root t', fx') \<and> erase t' = s \<and> copies topm fx fx' [t']))"

lemma object_copy_list:
  assumes "\<forall>t \<in> set ts. copies_tree n cb f topm t \<and> copyable cb f fx t" and "p < fx_next fx"
    and "map_result (value_copy f (keyword_at fx p)) (map erase ts) = Inr ss"
  shows "\<exists>fx' us. map_state (object_copy n cb topm p) (map at_root ts) fx = Inr (map at_root us, fx') \<and> map erase us = ss \<and> copies topm fx fx' us"
  using assms
proof (induction ts arbitrary: fx ss)
  case (Cons t ts)
  from Cons.prems(3) obtain r rs where r: "value_copy f (keyword_at fx p) (erase t) = Inr r"
    "map_result (value_copy f (keyword_at fx p)) (map erase ts) = Inr rs" "ss = r # rs" by (auto simp: rbind_eq_Inr_iff)
  from Cons.prems(1) r(1) obtain fx1 u where
    u: "object_copy n cb topm p (at_root t) fx = Inr (at_root u, fx1)" "erase u = r" "copies topm fx fx1 [u]"
    unfolding copies_tree_def by (metis list.set_intros(1))
  have ch: "changed_only {} fx fx1" using u(3) by (simp add: copies_def)
  have "keyword_at fx1 p = keyword_at fx p" "p < fx_next fx1"
    using changes_fields(1) [OF ch Cons.prems(2)] Cons.prems(2) ch by (auto simp: changed_only_def)
  moreover have "\<forall>t \<in> set ts. copies_tree n cb f topm t \<and> copyable cb f fx1 t" using Cons.prems(1) copyable_changes [OF _ ch] by simp
  ultimately obtain fx2 us where
    us: "map_state (object_copy n cb topm p) (map at_root ts) fx1 = Inr (map at_root us, fx2)" "map erase us = rs" "copies topm fx1 fx2 us"
    using Cons.IH [of fx1 rs] r(2) by auto
  from u us r(3) copies_Cons [OF u(3) us(3)] show ?case by (intro exI [of _ fx2] exI [of _ "u # us"]) simp
qed (simp add: copies_def)

lemma copied_parent:
  assumes c: "copies topm (fx\<lparr>fx_node := (fx_node fx)(fx_next fx := copied_node topm p arg (fx_node fx a)), fx_next := Suc (fx_next fx)\<rparr>) fx2 us"
    and kw: "keyword_at fx a = kw"
  shows "copies topm fx (set_substmts (fx_next fx) (map at_root us) fx2) [ANode (fx_next fx) kw arg us]"
proof -
  let ?new = "fx_next fx"
  let ?fx1 = "fx\<lparr>fx_node := (fx_node fx)(?new := copied_node topm p arg (fx_node fx a)), fx_next := Suc ?new\<rparr>"
  let ?fx = "set_substmts ?new (map at_root us) fx2"
  have ch: "changed_only {} ?fx1 fx2" using c by (simp add: copies_def)
  have new: "fx_node fx2 ?new = copied_node topm p arg (fx_node fx a)" "?new < fx_next fx2"
    using ch changes_node [OF ch, of ?new] by (auto simp: changed_only_def)
  have later: "\<forall>x \<in> set (concat (map addrs us)). Suc ?new \<le> x \<and> x < fx_next fx2 \<and> (\<forall>v. topm = Some v \<longrightarrow> nd_top (fx_node fx2 x) = v)"
    using c by (simp add: copies_def)
  then have notin: "?new \<notin> set (concat (map addrs us))" by (meson not_less_eq_eq order_refl)
  then have "\<forall>u \<in> set us. holds ?fx u" using c holds_set [of ?new] by (auto simp: copies_def list_all_iff)
  then have "holds ?fx (ANode ?new kw arg us)" using new kw by (auto simp: copied_node_def list_all_iff)
  moreover have "changed_only {} fx ?fx1" by (rule changes_same) auto
  then have "changed_only {} fx ?fx" by (rule changes_fresh [OF changes_none [OF _ ch] changes_set]) simp
  moreover have "distinct (concat (map addrs us))" "fx_groupings fx2 = fx_groupings fx" using c by (auto simp: copies_def)
  moreover have "\<forall>x \<in> set (addrs (ANode ?new kw arg us)). ?new \<le> x \<and> x < fx_next ?fx \<and> (\<forall>v. topm = Some v \<longrightarrow> nd_top (fx_node ?fx x) = v)"
    using later new by (auto simp: copied_node_def intro: Suc_leD)
  ultimately show ?thesis using notin by (simp add: copies_def)
qed

lemma object_copy_holds: "height t \<le> n \<Longrightarrow> copies_tree n cb f topm t"
proof (induction t arbitrary: n)
  case (ANode a kw arg ts)
  then obtain k where k: "n = Suc k" by (cases n) auto
  show ?case
    unfolding copies_tree_def
  proof (intro allI impI, elim conjE)
    fix fx p s
    assume cp: "copyable cb f fx (ANode a kw arg ts)" and v: "value_copy f (keyword_at fx p) (erase (ANode a kw arg ts)) = Inr s"
    from v obtain arg' ss where arg': "f (keyword_at fx p) kw arg = Inr arg'"
      and ss: "map_result (value_copy f kw) (map erase ts) = Inr ss" and s: "s = Stmt kw arg' ss" by (auto simp: rbind_eq_Inr_iff)
    let ?new = "fx_next fx"
    let ?fx1 = "fx\<lparr>fx_node := (fx_node fx)(?new := copied_node topm p arg' (fx_node fx a)), fx_next := Suc ?new\<rparr>"
    have ch: "changed_only {} fx ?fx1" by (rule changes_same) auto
    have node: "keyword_at fx a = kw" "arg_at fx a = arg" "substmts fx a = map at_root ts" "cb a = f" using cp by (auto simp: copyable_def)
    have each: "copies_tree k cb f topm t \<and> copyable cb f ?fx1 t" if t: "t \<in> set ts" for t
    proof
      show "copies_tree k cb f topm t" using ANode.IH [OF t, of k] ANode.prems t k by simp
      have "copyable cb f fx t" using cp t by (auto simp: copyable_def list_all_iff)
      then show "copyable cb f ?fx1 t" by (rule copyable_changes [OF _ ch])
    qed
    have "keyword_at ?fx1 ?new = kw" using node(1) by (simp add: copied_node_def)
    with each ss object_copy_list [of ts k cb f topm ?fx1 ?new ss] obtain fx2 us where
      us: "map_state (object_copy k cb topm ?new) (map at_root ts) ?fx1 = Inr (map at_root us, fx2)" "map erase us = ss" "copies topm ?fx1 fx2 us" by auto
    from copied_parent [OF us(3) node(1)]
    have "copies topm fx (set_substmts ?new (map at_root us) fx2) [ANode ?new kw arg' us]" .
    moreover have "object_copy n cb topm p a fx = Inr (?new, set_substmts ?new (map at_root us) fx2)" using us(1) arg' node by (simp add: k Let_def)
    ultimately show "\<exists>fx' t'. object_copy n cb topm p (at_root (ANode a kw arg ts)) fx = Inr (at_root t', fx') \<and> erase t' = s \<and> copies topm fx fx' [t']"
      using us(2) s by (intro exI [of _ "set_substmts ?new (map at_root us) fx2"] exI [of _ "ANode ?new kw arg' us"]) simp
  qed
qed

lemma value_copy_keywords: "value_copy f pk s = Inr s' \<Longrightarrow> keyword_tree s' = keyword_tree s"
proof (induction s arbitrary: pk s')
  case (Stmt kw arg subs)
  then obtain arg' ss where ss: "map_result (value_copy f kw) subs = Inr ss" "s' = Stmt kw arg' ss" by (auto simp: rbind_eq_Inr_iff)
  have "map keyword_tree ss' = map keyword_tree us" if "map_result (value_copy f kw) us = Inr ss'" "set us \<subseteq> set subs" for us ss'
    using that by (induction us arbitrary: ss') (use Stmt.IH in \<open>auto simp: rbind_eq_Inr_iff\<close>)
  with ss show ?case by simp
qed

theorem ref_lib_ok: "lib_ok (ref_pyang data scan) (ref_objects data scan find_target)"
proof -
  have "\<exists>fx' t'. po_copy (ref_objects data scan find_target) cb topm (Some p) (at_root t) fx = Inr (fx', at_root t') \<and> fresh_tree fx fx' t' \<and> erase t' = s \<and>
      (\<forall>v. topm = Some v \<longrightarrow> (\<forall>x \<in> set (addrs t'). nd_top (fx_node fx' x) = v)) \<and> changed_only {} fx fx' \<and> fx_groupings fx' = fx_groupings fx"
    if h: "holds fx t" "distinct (addrs t)" "\<forall>x \<in> set (addrs t). x < fx_next fx \<and> cb x = f" and v: "value_copy f (keyword_at fx p) (erase t) = Inr s"
    for fx t cb f topm p s
  proof -
    have "length (addrs t) = card (set (addrs t))" using h(2) by (rule distinct_card [symmetric])
    also have "\<dots> \<le> card {..<fx_next fx}" using h(3) by (intro card_mono) auto
    finally have "height t \<le> fx_next fx" using height_addrs [of t] by simp
    from object_copy_holds [OF this, of cb f topm] h v obtain fx' t' where
      "object_copy (fx_next fx) cb topm p (at_root t) fx = Inr (at_root t', fx')" "erase t' = s" "copies topm fx fx' [t']"
      unfolding copies_tree_def copyable_def by blast
    then show ?thesis by (intro exI [of _ fx'] exI [of _ t']) (auto simp: ref_objects_def copies_def fresh_tree_def)
  qed
  then have "copy_ok (ref_pyang data scan) (ref_objects data scan find_target)"
    using value_copy_keywords by (auto simp: copy_ok_def ref_pyang_def)
  then show ?thesis by (simp add: lib_ok_def ref_pyang_def ref_objects_def)
qed

section \<open>The example of the repository\<close>

text \<open>
  A module with a list and a module with a link to it. The objects are numbered from 0; the module with the link is number 4.
\<close>

definition example_root :: atree where
  "example_root = ANode 0 (Kw ''module'') ''root'' [ANode 1 (Kw ''prefix'') ''root'' [],
     ANode 2 (Kw ''list'') ''server'' [ANode 3 (Kw ''leaf'') ''name'' []]]"

definition example_links :: atree where
  "example_links = ANode 4 (Kw ''module'') ''symlinked'' [ANode 5 (Kw ''prefix'') ''symlinks'' [],
     ANode 6 (Kw ''import'') ''tailf-common'' [ANode 7 (Kw ''prefix'') ''tailf'' []],
     ANode 8 (Kw ''import'') ''root'' [ANode 9 (Kw ''prefix'') ''root'' []],
     ANode 10 (Kw ''container'') ''servers'' [ANode 11 (Ext tailf ''symlink'') ''server'' [ANode 12 (Ext tailf ''path'') ''/root:server'' []]]]"

fun nodes_of :: "nat \<Rightarrow> nat option \<Rightarrow> atree \<Rightarrow> (nat \<times> node) list" where
  "nodes_of topm p (ANode a kw arg ts) =
     (a, \<lparr>nd_keyword = kw, nd_arg = arg, nd_top = topm, nd_parent = p, nd_substmts = map at_root ts\<rparr>) #
     concat (map (nodes_of topm (Some a)) ts)"

definition store_of :: "atree list \<Rightarrow> nat \<Rightarrow> fixer" where
  "store_of ms next_addr =
     \<lparr>fx_node = (\<lambda>a. case map_of (concat (map (\<lambda>M. nodes_of (at_root M) None M) ms)) a of
        Some nd \<Rightarrow> nd | None \<Rightarrow> \<lparr>nd_keyword = Kw [], nd_arg = [], nd_top = 0, nd_parent = None, nd_substmts = []\<rparr>),
      fx_next = next_addr, fx_groupings = []\<rparr>"

definition example_target :: target where
  "example_target = \<lparr>tg_id = 2, tg_stmt = Stmt (Kw ''list'') ''server'' [Stmt (Kw ''leaf'') ''name'' []], tg_top_id = 0, tg_top = erase example_root\<rparr>"

definition example_finder :: finder where
  "example_finder m s = (if m = 4 \<and> s = ''/root:server'' then Inr example_target else Inl KeyError)"

definition example_tree :: "nat \<Rightarrow> atree" where
  "example_tree a = (if a = 0 then example_root else ANode 2 (Kw ''list'') ''server'' [ANode 3 (Kw ''leaf'') ''name'' []])"

definition example_data :: "keyword \<Rightarrow> bool" where
  "example_data kw \<longleftrightarrow> kw \<in> {Kw ''container'', Kw ''list'', Kw ''leaf'', Kw ''leaf-list'', Ext tailf ''symlink''}"

definition example_objects :: pyang_objects where
  "example_objects = ref_objects example_data (\<lambda>_. []) (\<lambda>nd. map_sum id tg_id (example_finder (nd_top nd) (nd_arg nd)))"

abbreviation example_store :: fixer where
  "example_store \<equiv> store_of [example_root, example_links] 13"

lemmas example_defs = store_of_def example_root_def example_links_def example_target_def example_tree_def tailf_def

lemma example_targets: "targets example_finder = {example_target}"
  by (auto simp: targets_def example_finder_def)

lemma example_touched: "touched example_store example_finder = {0}"
  by (auto simp: touched_def example_targets) (simp_all add: example_defs)

lemma example_targets_ok: "targets_ok example_store example_finder {4..12} example_tree"
proof -
  have "only_child_of example_store 2 0"
    by (auto simp: only_child_of_def example_defs split: if_splits)
  moreover have "nd_parent (fx_node example_store 2) = Some 0" by (simp add: example_defs)
  ultimately show ?thesis
    unfolding targets_ok_def target_ok_def example_targets example_touched by (simp add: example_defs)
qed

lemma example_ready: "modules_ready example_store example_finder {4..12} example_store [example_links, example_root]"
  by (simp add: modules_ready_def link_module_def plain_module_def example_targets example_defs)

definition example_replaced :: stmt where
  "example_replaced = Stmt (Kw ''module'') ''symlinked'' [Stmt (Kw ''prefix'') ''symlinks'' [],
     Stmt (Kw ''import'') ''tailf-common'' [Stmt (Kw ''prefix'') ''tailf'' []], Stmt (Kw ''import'') ''root'' [Stmt (Kw ''prefix'') ''root'' []],
     Stmt (Kw ''container'') ''servers'' [Stmt (Kw ''uses'') ''root:server-symlink-group'' [Stmt (Kw ''refine'') ''server''
       [Stmt (Ext ''tailf'' ''callpoint'') ''symlink-transform'' [Stmt (Ext ''tailf'' ''transform'') ''true'' []]]]]]"

definition example_grouped :: stmt where
  "example_grouped = Stmt (Kw ''module'') ''root'' [Stmt (Kw ''prefix'') ''root'' [], Stmt (Kw ''uses'') ''server-symlink-group'' [],
     Stmt (Kw ''grouping'') ''server-symlink-group'' [Stmt (Kw ''list'') ''server'' [Stmt (Kw ''leaf'') ''name'' []]]]"

definition example_groups :: groups where
  "example_groups = \<lparr>gr_names = [(2, ''server-symlink-group'')],
     gr_appended = [(0, Stmt (Kw ''grouping'') ''server-symlink-group'' [Stmt (Kw ''list'') ''server'' [Stmt (Kw ''leaf'') ''name'' []]])]\<rparr>"

lemma example_values:
  "map_state (\<lambda>M. replace_module (ref_pyang example_data (\<lambda>_. [])) False (example_finder (at_root M)) (erase M)) [example_links]
     \<lparr>gr_names = [], gr_appended = []\<rparr> = Inr ([example_replaced], example_groups)"
  by code_simp

lemma example_has_links: "filter has_links [example_links, example_root] = [example_links]"
  by (simp add: example_defs)

lemma example_grouped_eq: "grouped example_groups example_root = example_grouped"
  by (simp add: grouped_def example_groups_def example_grouped_def example_defs)

definition default_opts :: symlink_opts where
  "default_opts = \<lparr>so_replace = True, so_destination = Some ''fixed'', so_no_groups = False\<rparr>"

lemma symlinks_replaced_witness:
  "\<exists>n fx u v. (\<forall>k \<ge> n. obj_replace k example_objects (\<lambda>_ _. []) default_opts ''fixed'' [4, 0] example_store =
       Ret (fx, [(''fixed/symlinked.yang'', []), (''fixed/root.yang'', [])])) \<and>
     holds fx u \<and> at_root u = 4 \<and> erase u = example_replaced \<and> holds fx v \<and> at_root v = 0 \<and> erase v = example_grouped"
proof -
  let ?ms = "[example_links, example_root]"
  have lib: "lib_ok (ref_pyang example_data (\<lambda>_. [])) example_objects" unfolding example_objects_def by (rule ref_lib_ok)
  have find: "finds example_objects example_finder" by (simp add: finds_def example_objects_def ref_objects_def)
  have "map_state (\<lambda>M. replace_module (ref_pyang example_data (\<lambda>_. [])) (so_no_groups default_opts) (example_finder (at_root M)) (erase M))
      (filter has_links ?ms) \<lparr>gr_names = [], gr_appended = []\<rparr> = Inr ([example_replaced], example_groups)"
    unfolding example_has_links using example_values by (simp add: default_opts_def)
  note vals = this
  have empty: "fx_groupings example_store = []" by (simp add: store_of_def)
  have wanted: "so_replace default_opts" by (simp add: default_opts_def)
  from symlinks_replaced [OF lib find example_targets_ok example_ready empty wanted vals, of "\<lambda>_ _. []" "''fixed''"] obtain n fx us where
    run: "\<forall>k \<ge> n. obj_replace k example_objects (\<lambda>_ _. []) default_opts ''fixed'' (map at_root ?ms) example_store =
       Ret (fx, map (\<lambda>M. (path_join ''fixed'' (at_arg M @ ''.yang''), [])) ?ms)"
    and us: "map at_root us = map at_root (filter has_links ?ms)" "list_all (holds fx) us" "map erase us = [example_replaced]"
    and plain: "\<forall>M \<in> set ?ms. \<not> has_links M \<longrightarrow> (\<exists>M'. holds fx M' \<and> at_root M' = at_root M \<and> erase M' = grouped example_groups M \<and> no_symlink (erase M'))"
    by (elim exE conjE)
  obtain u where u: "us = [u]" using us(3) by (cases us) auto
  have "no_symlink (erase example_root)" by (simp add: example_defs)
  with plain obtain v where "holds fx v" "at_root v = 0" "erase v = example_grouped"
    by (auto simp: example_grouped_eq) (auto simp: example_root_def)
  moreover have "at_root u = 4" using us(1) u by (simp only: example_has_links) (simp add: example_links_def)
  ultimately show ?thesis
    using run us u by (intro exI [of _ n] exI [of _ fx] exI [of _ u] exI [of _ v]) (simp add: example_links_def example_root_def path_join_def)
qed

section \<open>Where the plugin fails\<close>

text \<open>
  The name of a link is lost when its target is moved into a grouping: the \<open>uses\<close> statement brings the name of the target. (The copies of the other
  modes get the name of the link.)
\<close>

theorem group_ignores_name:
  assumes "\<not> can_use_link pg (tg_stmt tg)" and "pg_search_one pg (Stmt kw name subs) (Ext tailf ''path'') None = Some path"
    and "pg_search_one pg (Stmt kw name' subs) (Ext tailf ''path'') None = Some path" and "find_target (st_arg path) = Inr tg"
  shows "do_replace_symlink pg False find_target T pk (Stmt kw name subs) g = do_replace_symlink pg False find_target T pk (Stmt kw name' subs) g"
  using assms by (simp add: do_replace_symlink_def)

text \<open>Two targets of one name in one module give two groupings of one name.\<close>

theorem groupings_collide:
  assumes "tg_id tg \<noteq> tg_id tg'" and "st_arg (tg_stmt tg) = st_arg (tg_stmt tg')" and "tg_top_id tg = tg_top_id tg'"
    and "map_of (gr_names g) (tg_id tg) = None" and "map_of (gr_names g) (tg_id tg') = None"
    and "introduce_grouping pg tg g = Inr (nm, g1)" and "introduce_grouping pg tg' g1 = Inr (nm', g2)"
  shows "nm' = nm \<and> (\<exists>c c'. gr_appended g2 = gr_appended g @ [(tg_top_id tg, Stmt (Kw ''grouping'') nm [c]), (tg_top_id tg, Stmt (Kw ''grouping'') nm [c'])])"
proof -
  from assms(4,6) obtain c where c: "nm = group_name (tg_stmt tg)" "g1 = g\<lparr>gr_names := gr_names g @ [(tg_id tg, nm)],
      gr_appended := gr_appended g @ [(tg_top_id tg, Stmt (Kw ''grouping'') nm [c])]\<rparr>"
    by (auto simp: introduce_grouping_def Let_def rbind_eq_Inr_iff)
  then have "map_of (gr_names g1) (tg_id tg') = None" using assms(1,5) by (auto simp: map_of_eq_None_iff)
  with assms(7) obtain c' where "nm' = group_name (tg_stmt tg')" "gr_appended g2 = gr_appended g1 @ [(tg_top_id tg', Stmt (Kw ''grouping'') nm' [c'])]"
    by (auto simp: introduce_grouping_def Let_def rbind_eq_Inr_iff)
  with c assms(2,3) show ?thesis by (auto simp: group_name_def)
qed

text \<open>
  A link to a list of its own module: the \<open>uses\<close> statement that replaces the target is put into the list that is being walked over, at a place
  that was already passed; the assignment of the new list then brings the target back, beside the \<open>uses\<close> statement of the same node.
\<close>

fun value_at :: "nat \<Rightarrow> fixer \<Rightarrow> nat \<Rightarrow> stmt" where
  "value_at 0 fx a = Stmt (Kw []) [] []"
| "value_at (Suc n) fx a = Stmt (keyword_at fx a) (arg_at fx a) (map (value_at n fx) (substmts fx a))"

definition one_module :: atree where
  "one_module = ANode 0 (Kw ''module'') ''m'' [ANode 1 (Kw ''prefix'') ''m'' [], ANode 2 (Kw ''import'') ''tailf-common'' [ANode 3 (Kw ''prefix'') ''tailf'' []],
     ANode 4 (Kw ''list'') ''server'' [ANode 5 (Kw ''leaf'') ''name'' []],
     ANode 6 (Ext tailf ''symlink'') ''backup'' [ANode 7 (Ext tailf ''path'') ''/m:server'' []]]"

definition one_objects :: pyang_objects where
  "one_objects = ref_objects example_data (\<lambda>_. []) (\<lambda>nd. Inr 4)"

definition one_replaced :: stmt where
  "one_replaced = Stmt (Kw ''module'') ''m'' [Stmt (Kw ''prefix'') ''m'' [], Stmt (Kw ''import'') ''tailf-common'' [Stmt (Kw ''prefix'') ''tailf'' []],
     Stmt (Kw ''list'') ''server'' [Stmt (Kw ''leaf'') ''name'' []],
     Stmt (Kw ''uses'') ''m:server-symlink-group'' [Stmt (Kw ''refine'') ''server'' [Stmt (Ext ''tailf'' ''callpoint'') ''symlink-transform''
       [Stmt (Ext ''tailf'' ''transform'') ''true'' []]]],
     Stmt (Kw ''grouping'') ''server-symlink-group'' [Stmt (Kw ''list'') ''server'' [Stmt (Kw ''leaf'') ''name'' []]]]"

definition one_run :: "(fixer \<times> nat) outcome" where
  "one_run = obj_replace_symlinks 20 one_objects False 0 (store_of [one_module] 8)"

text \<open>Evaluation by the simplifier: fuel is a numeral, and a continuation is not rewritten before its argument has a value.\<close>

lemmas with_numerals =
  obj_replace_symlinks.simps(2) [where n = "pred_numeral k" for k, folded numeral_eq_Suc]
  obj_replace_list.simps(2) [where n = "pred_numeral k" for k, folded numeral_eq_Suc]
  obj_can_use_link.simps(2) [where n = "pred_numeral k" for k, folded numeral_eq_Suc]
  object_copy.simps(2) [where n = "pred_numeral k" for k, folded numeral_eq_Suc]
  value_at.simps(2) [where n = "pred_numeral k" for k, folded numeral_eq_Suc]

lemma obind_weak_cong: "m = m' \<Longrightarrow> obind m f = obind m' f"
  by simp

lemma rbind_weak_cong: "m = m' \<Longrightarrow> rbind m f = rbind m' f"
  by simp

lemma one_store:
  "fx_next (store_of [one_module] 8) = 8" "fx_groupings (store_of [one_module] 8) = []"
  "fx_node (store_of [one_module] 8) 0 = \<lparr>nd_keyword = Kw ''module'', nd_arg = ''m'', nd_top = 0, nd_parent = None, nd_substmts = [1, 2, 4, 6]\<rparr>"
  "fx_node (store_of [one_module] 8) (Suc 0) = \<lparr>nd_keyword = Kw ''prefix'', nd_arg = ''m'', nd_top = 0, nd_parent = Some 0, nd_substmts = []\<rparr>"
  "fx_node (store_of [one_module] 8) 2 = \<lparr>nd_keyword = Kw ''import'', nd_arg = ''tailf-common'', nd_top = 0, nd_parent = Some 0, nd_substmts = [3]\<rparr>"
  "fx_node (store_of [one_module] 8) 3 = \<lparr>nd_keyword = Kw ''prefix'', nd_arg = ''tailf'', nd_top = 0, nd_parent = Some 2, nd_substmts = []\<rparr>"
  "fx_node (store_of [one_module] 8) 4 = \<lparr>nd_keyword = Kw ''list'', nd_arg = ''server'', nd_top = 0, nd_parent = Some 0, nd_substmts = [5]\<rparr>"
  "fx_node (store_of [one_module] 8) 5 = \<lparr>nd_keyword = Kw ''leaf'', nd_arg = ''name'', nd_top = 0, nd_parent = Some 4, nd_substmts = []\<rparr>"
  "fx_node (store_of [one_module] 8) 6 = \<lparr>nd_keyword = Ext tailf ''symlink'', nd_arg = ''backup'', nd_top = 0, nd_parent = Some 0, nd_substmts = [7]\<rparr>"
  "fx_node (store_of [one_module] 8) 7 = \<lparr>nd_keyword = Ext tailf ''path'', nd_arg = ''/m:server'', nd_top = 0, nd_parent = Some 6, nd_substmts = []\<rparr>"
  by (simp_all add: store_of_def one_module_def)

lemma one_run_value: "(case one_run of Ret (fx, a) \<Rightarrow> Some (a, value_at 10 fx 0) | _ \<Rightarrow> None) = Some (0, one_replaced)"
  by (simp add: one_run_def with_numerals one_store one_objects_def ref_objects_def example_data_def obj_do_replace_symlink_def matches_def copied_node_def
    obj_introduce_grouping_def list_index_def new_stmt_def set_substmts_def obj_add_transform_callpoint_def obj_module_prefix_def obj_arg_def obj_fix_xpaths_def
    one_replaced_def tailf_def Let_def cong: obind_weak_cong rbind_weak_cong)

theorem target_comes_back: "\<exists>fx. one_run = Ret (fx, 0) \<and> value_at 10 fx 0 = one_replaced"
  using one_run_value by (auto split: outcome.splits prod.splits)

end
