(* ===== verification/Yang_Annotate.thy ===== *)
theory Yang_Annotate
  imports Py_Prelude
begin

text \<open>
  The tool \<open>ann-stmt/app/tailf_ann_stmt.py\<close>, which moves statements of a YANG module into an annotation module, and its small relative
  \<open>tailf_sanitize.py\<close>. The document is a tree inside the library BeautifulSoup: its state \<open>'w\<close>, its tags \<open>'n\<close> and the operations on
  them are the record \<open>soup\<close>, and what the theorems use of them are hypotheses. The names that the tool replaces before it
  parses and after it prints are \<open>to_soup\<close> and \<open>from_soup\<close>.
\<close>

section \<open>Names and texts\<close>

definition replace_all :: "(string \<times> string) list \<Rightarrow> string \<Rightarrow> string" where
  "replace_all rs s = fold (\<lambda>(old, new). py_replace old new) rs s"

definition to_soup :: "string \<Rightarrow> string" where
  "to_soup = replace_all [(''tailf:'', ''tailf_prefix_''), (''name='', ''yname=''), (''target-node='', ''target_node=''), (''xmlns:'', ''xmlns_'')]"

definition from_soup :: "string \<Rightarrow> string" where
  "from_soup = replace_all [(''tailf_prefix_'', ''tailf:''), (''yname='', ''name=''), (''target_node='', ''target-node=''), (''xmlns_'', ''xmlns:'')]"

definition ann_from_soup :: "string \<Rightarrow> string" where
  "ann_from_soup = replace_all [(''tailf_prefix_'', ''tailf:''), (''annotate_module'', ''annotate-module''), (''module_name='', ''module-name=''),
     (''statement_path='', ''statement-path=''), (''yname='', ''name=''), (''target_node='', ''target-node=''), (''xmlns_'', ''xmlns:'')]"

text \<open>\<open>s.rsplit(c, 1)\<close>: what is before the last separator, if there is one, and what is behind it.\<close>

definition rsplit1 :: "char \<Rightarrow> string \<Rightarrow> string option \<times> string" where
  "rsplit1 c s =
     (let behind = rev (takeWhile (\<lambda>x. x \<noteq> c) (rev s))
      in if c \<in> set s then (Some (take (length s - length behind - 1) s), behind) else (None, s))"

definition yang_paths :: "string \<Rightarrow> string \<times> string" where
  "yang_paths yang_file = (case rsplit1 (CHR ''/'') yang_file of (None, _) \<Rightarrow> (''./'', yang_file) | (Some d, f) \<Rightarrow> (d, f))"

definition base_name :: "string \<Rightarrow> string" where
  "base_name f = (case rsplit1 (CHR ''.'') f of (None, s) \<Rightarrow> s | (Some s, _) \<Rightarrow> s)"

definition ann_filename :: "string \<Rightarrow> string" where
  "ann_filename yang_filename = base_name yang_filename @ ''-ann.yang''"

definition gen_ann_module :: "string \<Rightarrow> string \<Rightarrow> string \<Rightarrow> string \<Rightarrow> string" where
  "gen_ann_module revdate name ns pfx =
     ''<?xml version=\"1.0\" encoding=\"utf-8\"?>\<newline><module>\<newline>  <namespace uri=\"'' @ ns @ ''-ann\"/>\<newline>  <prefix value=\"'' @ pfx @
     ''-ann\"/>\<newline>  <import module=\"tailf-common\">\<newline>    <prefix value=\"tailf\"/>\<newline>  </import>\<newline>  <revision date=\"'' @ revdate @
     ''\">\<newline>    <description>\<newline>      <text>Initial revision</text>\<newline>    </description>\<newline>  </revision>\<newline>  <tailf_prefix_annotate_module module_name=\"'' @
     name @ ''\"/>\<newline></module>''"

section \<open>Annotations\<close>

text \<open>
  What the tool reads of a tag above a statement: its name and attributes, the number of earlier augments of the same target, and of
  all earlier augments. An annotation is the copy of a statement inside nested paths.
\<close>

record ancestor =
  an_name :: string
  an_attrs :: dict
  an_conflicts :: nat
  an_previous :: nat

datatype 'n annotation = Moved 'n | AnnotateStatement string "'n annotation"

definition statement_path :: "ancestor \<Rightarrow> string result" where
  "statement_path a =
     (if an_name a = ''augment'' then
        rbind (dict_get (an_attrs a) ''target_node'') (\<lambda>t.
          Inr (an_name a @ (if an_conflicts a = 0 then ''[name='' @ [CHR 0x27] @ t @ [CHR 0x27] @ '']''
                            else ''['' @ nat_str (an_previous a + 1) @ '']'')))
      else
        (case an_attrs a of
           [] \<Rightarrow> Inr (an_name a)
         | (k, v) # _ \<Rightarrow> Inr (an_name a @ ''['' @ k @ ''='' @ [CHR 0x27] @ v @ [CHR 0x27] @ '']'')))"

fun add_stmt :: "ancestor list \<Rightarrow> 'n annotation \<Rightarrow> 'n annotation result" where
  "add_stmt [] ann = Inl AttributeError"
| "add_stmt (a # as) ann =
     (if an_name a \<in> {''module'', ''submodule''} then Inr ann
      else rbind (statement_path a) (\<lambda>p. add_stmt as (AnnotateStatement p ann)))"

section \<open>Moving statements\<close>

record ('w, 'n) soup =
  so_find_all :: "'w \<Rightarrow> string \<Rightarrow> 'n list"
  so_find_tailf :: "'w \<Rightarrow> 'n list"
  so_find_leafref :: "'w \<Rightarrow> 'n list"
  so_parent_name :: "'w \<Rightarrow> 'n \<Rightarrow> string option"
  so_ancestors :: "'w \<Rightarrow> 'n \<Rightarrow> ancestor list"
  so_decompose :: "'n \<Rightarrow> 'w \<Rightarrow> 'w"
  so_make_string :: "'n \<Rightarrow> 'w \<Rightarrow> 'w"

text \<open>The loop over the statements that were found, with the test on the parent; a statement inside a removed one has none.\<close>

fun move_loop ::
  "('w, 'n) soup \<Rightarrow> (string \<Rightarrow> bool) \<Rightarrow> 'n list \<Rightarrow> 'w \<times> 'n annotation list \<Rightarrow> ('w \<times> 'n annotation list) result" where
  "move_loop sp parent_ok [] (w, anns) = Inr (w, anns)"
| "move_loop sp parent_ok (n # ns) (w, anns) =
     (case so_parent_name sp w n of
        None \<Rightarrow> move_loop sp parent_ok ns (w, anns)
      | Some p \<Rightarrow>
          if parent_ok p then
            rbind (add_stmt (so_ancestors sp w n) (Moved n)) (\<lambda>a. move_loop sp parent_ok ns (so_decompose sp n w, anns @ [a]))
          else move_loop sp parent_ok ns (w, anns))"

text \<open>
  The state of the tool: the document, the annotations, and the kinds of which a statement was found, which is what the loop variables that
  are still \<open>None\<close> at the end tell.
\<close>

record ('w, 'n) ann_state =
  as_soup :: 'w
  as_anns :: "'n annotation list"
  as_found :: "string list"

definition move_found ::
  "('w, 'n) soup \<Rightarrow> (string \<Rightarrow> bool) \<Rightarrow> string \<Rightarrow> 'n list \<Rightarrow> ('w, 'n) ann_state \<Rightarrow> ('w, 'n) ann_state result" where
  "move_found sp parent_ok kind ns s =
     rbind (move_loop sp parent_ok ns (as_soup s, as_anns s)) (\<lambda>(w, anns).
       Inr (s\<lparr>as_soup := w, as_anns := anns, as_found := (if ns = [] then as_found s else as_found s @ [kind])\<rparr>))"

definition move_kind :: "('w, 'n) soup \<Rightarrow> bool \<Rightarrow> string \<Rightarrow> ('w, 'n) ann_state \<Rightarrow> ('w, 'n) ann_state result" where
  "move_kind sp on name s = (if on then move_found sp (\<lambda>_. True) name (so_find_all sp (as_soup s) name) s else Inr s)"

definition move_tailf :: "('w, 'n) soup \<Rightarrow> bool \<Rightarrow> ('w, 'n) ann_state \<Rightarrow> ('w, 'n) ann_state result" where
  "move_tailf sp on s =
     (if on then move_found sp (\<lambda>p. \<not> startswith p ''tailf_prefix_'') ''tailf'' (so_find_tailf sp (as_soup s)) s else Inr s)"

record ann_opts =
  ao_must :: bool
  ao_when :: bool
  ao_min_elem :: bool
  ao_max_elem :: bool
  ao_mandatory :: bool
  ao_unique :: bool
  ao_pattern :: bool
  ao_tailf :: bool
  ao_callpoint :: bool
  ao_validate :: bool
  ao_sanitize :: bool
  ao_leafref :: bool

text \<open>The statements of the standard in the order of the tool, and then the extensions; two of them are looked at only without the option for leafrefs.\<close>

definition standard_kinds :: "ann_opts \<Rightarrow> (bool \<times> string) list" where
  "standard_kinds opts =
     [(ao_must opts, ''must''), (ao_when opts, ''when''), (ao_min_elem opts, ''min-elements''), (ao_max_elem opts, ''max-elements''),
      (ao_mandatory opts, ''mandatory''), (ao_unique opts, ''unique''), (ao_pattern opts, ''pattern'')]"

fun move_kinds :: "('w, 'n) soup \<Rightarrow> (bool \<times> string) list \<Rightarrow> ('w, 'n) ann_state \<Rightarrow> ('w, 'n) ann_state result" where
  "move_kinds sp [] s = Inr s"
| "move_kinds sp ((on, name) # ks) s = rbind (move_kind sp on name s) (move_kinds sp ks)"

definition move_statements :: "('w, 'n) soup \<Rightarrow> ann_opts \<Rightarrow> 'w \<Rightarrow> ('w, 'n) ann_state result" where
  "move_statements sp opts w =
     rbind (move_kinds sp (standard_kinds opts) \<lparr>as_soup = w, as_anns = [], as_found = []\<rparr>) (\<lambda>s.
     rbind (move_tailf sp (ao_tailf opts) s) (\<lambda>s'.
     if ao_leafref opts then
       Inr (s'\<lparr>as_soup := fold (so_make_string sp) (so_find_leafref sp (as_soup s')) (as_soup s')\<rparr>)
     else
       move_kinds sp [(ao_callpoint opts, ''tailf_prefix_callpoint''), (ao_validate opts, ''tailf_prefix_validate'')] s'))"

definition create_ann_module :: "ann_opts \<Rightarrow> ('w, 'n) ann_state \<Rightarrow> bool" where
  "create_ann_module opts s \<longleftrightarrow>
     \<not> ao_sanitize opts \<and>
     list_ex (\<lambda>k. k \<in> {''tailf'', ''must'', ''when'', ''tailf_prefix_callpoint'', ''tailf_prefix_validate''}) (as_found s)"

text \<open>The import of the extension module goes when no extension is left, and then the types of the extensions become strings.\<close>

definition drop_import ::
  "('w, 'n) soup \<Rightarrow> ('w \<Rightarrow> 'n option) \<Rightarrow> ('w \<Rightarrow> 'n list) \<Rightarrow> 'w \<Rightarrow> 'w" where
  "drop_import sp tailf_import tailf_types w =
     (if so_find_tailf sp w = [] then
        (case tailf_import w of
           None \<Rightarrow> w
         | Some i \<Rightarrow> (let w' = so_decompose sp i w in fold (so_make_string sp) (tailf_types w') w'))
      else w)"

text \<open>\<open>tailf_sanitize.py\<close>: every extension goes, and the import, if it is there.\<close>

definition tailf_sanitize :: "('w, 'n) soup \<Rightarrow> ('w \<Rightarrow> 'n option) \<Rightarrow> 'w \<Rightarrow> 'w" where
  "tailf_sanitize sp tailf_import w =
     (let w' = fold (so_decompose sp) (so_find_tailf sp w) w
      in case tailf_import w' of None \<Rightarrow> w' | Some i \<Rightarrow> so_decompose sp i w')"

section \<open>Lemmas\<close>

text \<open>
  The document as the library describes it: its tags in order, which of them are still in the tree, and which are inside another one. Removing a tag
  removes what is inside; a tag has a parent as long as it is in the tree, and all the tags above it up to the module or submodule.
\<close>

definition soup_laws ::
  "('w, 'n) soup \<Rightarrow> 'n list \<Rightarrow> ('n \<Rightarrow> string) \<Rightarrow> ('w \<Rightarrow> 'n \<Rightarrow> bool) \<Rightarrow> ('n \<Rightarrow> 'n \<Rightarrow> bool) \<Rightarrow> bool" where
  "soup_laws sp doc name attached inside \<longleftrightarrow>
     (\<forall>w s. so_find_all sp w s = filter (\<lambda>n. attached w n \<and> name n = s) doc) \<and>
     (\<forall>w n. so_parent_name sp w n = None \<longleftrightarrow> \<not> attached w n) \<and>
     (\<forall>w n m. attached (so_decompose sp n w) m \<longleftrightarrow> attached w m \<and> \<not> inside n m) \<and>
     (\<forall>n. inside n n) \<and>
     (\<forall>w n. attached w n \<longrightarrow> (\<exists>as a bs. so_ancestors sp w n = as @ a # bs \<and> an_name a \<in> {''module'', ''submodule''} \<and>
        list_all (\<lambda>b. an_name b = ''augment'' \<longrightarrow> ''target_node'' \<in> fst ` set (an_attrs b)) as))"

fun content :: "'n annotation \<Rightarrow> 'n" where
  "content (Moved n) = n"
| "content (AnnotateStatement p a) = content a"

lemma statement_path_ok:
  "(an_name a = ''augment'' \<longrightarrow> ''target_node'' \<in> fst ` set (an_attrs a)) \<Longrightarrow> \<exists>p. statement_path a = Inr p"
  by (cases "map_of (an_attrs a) ''target_node''")
    (auto simp: statement_path_def dict_get_def map_of_eq_None_iff split: list.splits)

lemma add_stmt_ok:
  assumes "list_all (\<lambda>b. an_name b = ''augment'' \<longrightarrow> ''target_node'' \<in> fst ` set (an_attrs b)) as" and "an_name a \<in> {''module'', ''submodule''}"
  shows "\<exists>ann'. add_stmt (as @ a # bs) ann = Inr ann' \<and> content ann' = content ann"
  using assms(1)
proof (induction as arbitrary: ann)
  case Nil
  then show ?case using assms(2) by simp
next
  case (Cons b as)
  then obtain p where "statement_path b = Inr p" using statement_path_ok by fastforce
  with Cons show ?case by fastforce
qed

text \<open>The statements that the loop moves: those that are not inside one that was moved before.\<close>

fun moved :: "('n \<Rightarrow> 'n \<Rightarrow> bool) \<Rightarrow> ('n \<Rightarrow> bool) \<Rightarrow> 'n list \<Rightarrow> 'n list" where
  "moved inside att [] = []"
| "moved inside att (n # ns) = (if att n then n # moved inside (\<lambda>m. att m \<and> \<not> inside n m) ns else moved inside att ns)"

lemma laws_attached:
  assumes "soup_laws sp doc name attached inside" and "attached w n"
  shows "\<exists>p as a bs. so_parent_name sp w n = Some p \<and> so_ancestors sp w n = as @ a # bs \<and> an_name a \<in> {''module'', ''submodule''} \<and>
     list_all (\<lambda>b. an_name b = ''augment'' \<longrightarrow> ''target_node'' \<in> fst ` set (an_attrs b)) as"
proof -
  have "so_parent_name sp w n \<noteq> None" using assms unfolding soup_laws_def by blast
  then obtain p where "so_parent_name sp w n = Some p" by blast
  moreover have "\<exists>as a bs. so_ancestors sp w n = as @ a # bs \<and> an_name a \<in> {''module'', ''submodule''} \<and>
     list_all (\<lambda>b. an_name b = ''augment'' \<longrightarrow> ''target_node'' \<in> fst ` set (an_attrs b)) as"
    using assms unfolding soup_laws_def by blast
  ultimately show ?thesis by blast
qed

lemma move_loop_spec:
  assumes "soup_laws sp doc name attached inside"
  shows "\<exists>w' new. move_loop sp (\<lambda>_. True) ns (w, anns) = Inr (w', anns @ new) \<and>
     map content new = moved inside (attached w) ns \<and>
     (\<forall>m. attached w' m \<longleftrightarrow> attached w m \<and> \<not> list_ex (\<lambda>n. inside n m) (moved inside (attached w) ns))"
proof (induction ns arbitrary: w anns)
  case (Cons n ns)
  show ?case
  proof (cases "attached w n")
    case False
    with assms have "so_parent_name sp w n = None" unfolding soup_laws_def by blast
    with False Cons show ?thesis by simp
  next
    case True
    obtain p as a bs where "so_parent_name sp w n = Some p" and anc: "so_ancestors sp w n = as @ a # bs"
        "an_name a \<in> {''module'', ''submodule''}" "list_all (\<lambda>b. an_name b = ''augment'' \<longrightarrow> ''target_node'' \<in> fst ` set (an_attrs b)) as"
      using laws_attached [OF assms True] by blast
    moreover obtain ann where "add_stmt (so_ancestors sp w n) (Moved n) = Inr ann" "content ann = n"
      using add_stmt_ok [OF anc(3,2), of bs "Moved n"] anc(1) by auto
    moreover have att: "attached (so_decompose sp n w) = (\<lambda>m. attached w m \<and> \<not> inside n m)"
      using assms by (auto simp: soup_laws_def)
    moreover obtain w' new where "move_loop sp (\<lambda>_. True) ns (so_decompose sp n w, anns @ [ann]) = Inr (w', (anns @ [ann]) @ new)"
        "map content new = moved inside (attached (so_decompose sp n w)) ns"
        "\<forall>m. attached w' m \<longleftrightarrow> attached (so_decompose sp n w) m \<and>
          \<not> list_ex (\<lambda>n. inside n m) (moved inside (attached (so_decompose sp n w)) ns)"
      using Cons [of "so_decompose sp n w" "anns @ [ann]"] by blast
    ultimately show ?thesis
      using True by (intro exI [of _ w'] exI [of _ "ann # new"]) auto
  qed
qed simp

lemma moved_covers: "n \<in> set ns \<Longrightarrow> att n \<Longrightarrow> (\<And>n. inside n n) \<Longrightarrow> list_ex (\<lambda>k. inside k n) (moved inside att ns)"
proof (induction ns arbitrary: att)
  case (Cons m ns)
  show ?case
  proof (cases "att m")
    case True
    show ?thesis
    proof (cases "inside m n")
      case False
      with Cons.prems have "n \<in> set ns" by auto
      from Cons.IH [OF this, of "\<lambda>x. att x \<and> \<not> inside m x"] Cons.prems False True show ?thesis by simp
    qed (use True in simp)
  next
    case False
    with Cons.prems have "n \<in> set ns" by auto
    with Cons False show ?thesis by simp
  qed
qed simp

text \<open>What a state has after statements were moved: tags that are gone are inside the statement of an annotation.\<close>

definition moved_only :: "('w \<Rightarrow> 'n \<Rightarrow> bool) \<Rightarrow> ('n \<Rightarrow> 'n \<Rightarrow> bool) \<Rightarrow> ('w, 'n) ann_state \<Rightarrow> ('w, 'n) ann_state \<Rightarrow> bool" where
  "moved_only attached inside s s' \<longleftrightarrow>
     (\<exists>new. as_anns s' = as_anns s @ new \<and>
        (\<forall>m. attached (as_soup s') m \<longleftrightarrow> attached (as_soup s) m \<and> \<not> list_ex (\<lambda>a. inside (content a) m) new))"

lemma moved_only_refl: "moved_only attached inside s s"
  by (simp add: moved_only_def)

lemma moved_only_trans:
  assumes "moved_only attached inside s1 s2" and "moved_only attached inside s2 s3"
  shows "moved_only attached inside s1 s3"
proof -
  from assms obtain new new' where "as_anns s2 = as_anns s1 @ new" "as_anns s3 = as_anns s2 @ new'"
    "\<forall>m. attached (as_soup s2) m \<longleftrightarrow> attached (as_soup s1) m \<and> \<not> list_ex (\<lambda>a. inside (content a) m) new"
    "\<forall>m. attached (as_soup s3) m \<longleftrightarrow> attached (as_soup s2) m \<and> \<not> list_ex (\<lambda>a. inside (content a) m) new'"
    unfolding moved_only_def by blast
  then show ?thesis unfolding moved_only_def by (intro exI [of _ "new @ new'"]) auto
qed

lemma move_kind_spec:
  assumes "soup_laws sp doc name attached inside"
  shows "\<exists>s'. move_kind sp on k s = Inr s' \<and> moved_only attached inside s s' \<and> (on \<longrightarrow> so_find_all sp (as_soup s') k = [])"
proof (cases on)
  case False
  then show ?thesis by (simp add: move_kind_def moved_only_refl)
next
  case True
  let ?ns = "so_find_all sp (as_soup s) k"
  obtain w' new where loop: "move_loop sp (\<lambda>_. True) ?ns (as_soup s, as_anns s) = Inr (w', as_anns s @ new)"
      "map content new = moved inside (attached (as_soup s)) ?ns"
      "\<forall>m. attached w' m \<longleftrightarrow> attached (as_soup s) m \<and> \<not> list_ex (\<lambda>n. inside n m) (moved inside (attached (as_soup s)) ?ns)"
    using move_loop_spec [OF assms, of ?ns "as_soup s" "as_anns s"] by blast
  have laws: "so_find_all sp w k = filter (\<lambda>n. attached w n \<and> name n = k) doc" "inside n n" for w n
    using assms by (simp_all add: soup_laws_def)
  have "so_find_all sp w' k = []"
    unfolding laws(1) filter_empty_conv
  proof (intro ballI notI)
    fix m
    assume "m \<in> set doc" "attached w' m \<and> name m = k"
    moreover from this have "m \<in> set ?ns" using loop(3) by (simp add: laws(1))
    ultimately show False using moved_covers [of m ?ns "attached (as_soup s)" inside] loop(3) laws(2) by blast
  qed
  moreover have "list_ex (\<lambda>a. inside (content a) m) new = list_ex (\<lambda>n. inside n m) (map content new)" for m
    by (simp add: list_ex_iff)
  ultimately show ?thesis
    using True loop by (auto simp: move_kind_def move_found_def moved_only_def)
qed

lemma gone_stays:
  assumes "soup_laws sp doc name attached inside" and "moved_only attached inside s s'" and "so_find_all sp (as_soup s) k = []"
  shows "so_find_all sp (as_soup s') k = []"
  using assms unfolding soup_laws_def moved_only_def by (auto simp: filter_empty_conv)

lemma move_kinds_spec:
  assumes "soup_laws sp doc name attached inside"
  shows "\<exists>s'. move_kinds sp ks s = Inr s' \<and> moved_only attached inside s s' \<and>
     list_all (\<lambda>(on, k). on \<longrightarrow> so_find_all sp (as_soup s') k = []) ks"
proof (induction ks arbitrary: s)
  case Nil
  then show ?case by (simp add: moved_only_refl)
next
  case (Cons x ks)
  obtain on k where x: "x = (on, k)" by force
  obtain s1 where s1: "move_kind sp on k s = Inr s1" "moved_only attached inside s s1" "on \<longrightarrow> so_find_all sp (as_soup s1) k = []"
    using move_kind_spec [OF assms] by blast
  obtain s2 where s2: "move_kinds sp ks s1 = Inr s2" "moved_only attached inside s1 s2"
      "list_all (\<lambda>(on, k). on \<longrightarrow> so_find_all sp (as_soup s2) k = []) ks" using Cons by blast
  from s1 s2 gone_stays [OF assms s2(2)] moved_only_trans [OF s1(2) s2(2)] show ?case by (auto simp: x)
qed

section \<open>Properties\<close>


definition example_soup :: "(nat \<Rightarrow> bool, nat) soup" where
  "example_soup =
     \<lparr>so_find_all = (\<lambda>w s. filter (\<lambda>n. w n \<and> (if n = 0 then ''must'' else ''error-message'') = s) [0, 1]),
      so_find_tailf = (\<lambda>_. []), so_find_leafref = (\<lambda>_. []), so_parent_name = (\<lambda>w n. if w n then Some ''leaf'' else None),
      so_ancestors = (\<lambda>_ _. [\<lparr>an_name = ''leaf'', an_attrs = [(''yname'', ''mtu'')], an_conflicts = 0, an_previous = 0\<rparr>,
                              \<lparr>an_name = ''module'', an_attrs = [], an_conflicts = 0, an_previous = 0\<rparr>]),
      so_decompose = (\<lambda>n w m. w m \<and> \<not> n \<le> m), so_make_string = (\<lambda>_ w. w)\<rparr>"

definition must_opts :: ann_opts where
  "must_opts = \<lparr>ao_must = True, ao_when = False, ao_min_elem = False, ao_max_elem = False, ao_mandatory = False, ao_unique = False,
     ao_pattern = False, ao_tailf = False, ao_callpoint = False, ao_validate = False, ao_sanitize = False, ao_leafref = False\<rparr>"


text \<open>
  With the option for leafrefs, the options for callpoints and validation are ignored.
\<close>

theorem leafref_disables_extensions:
  assumes "ao_leafref opts"
  shows "move_statements sp (opts\<lparr>ao_callpoint := c, ao_validate := v\<rparr>) w = move_statements sp opts w"
  using assms by (simp add: move_statements_def standard_kinds_def)

text \<open>
  Statements of the kinds \<open>min-elements\<close>, \<open>max-elements\<close>, \<open>mandatory\<close>, \<open>unique\<close> and \<open>pattern\<close> alone do not lead to an annotation module, although
  they were removed from the document.
\<close>

lemma move_kinds_found:
  "move_kinds sp ks s = Inr s' \<Longrightarrow> set (as_found s') \<subseteq> set (as_found s) \<union> {k. (True, k) \<in> set ks}"
proof (induction ks arbitrary: s)
  case (Cons x ks)
  obtain on k where x: "x = (on, k)" by force
  with Cons.prems obtain s1 where s1: "move_kind sp on k s = Inr s1" "move_kinds sp ks s1 = Inr s'"
    by (auto simp: rbind_eq_Inr_iff)
  have "set (as_found s1) \<subseteq> set (as_found s) \<union> (if on then {k} else {})"
    using s1(1) by (auto simp: move_kind_def move_found_def rbind_eq_Inr_iff split: if_splits prod.splits)
  with Cons.IH [OF s1(2)] show ?case by (auto simp: x split: if_splits)
qed simp

theorem annotations_dropped:
  assumes "\<not> ao_must opts" and "\<not> ao_when opts" and "\<not> ao_tailf opts" and "\<not> ao_callpoint opts" and "\<not> ao_validate opts"
    and "move_statements sp opts w = Inr s"
  shows "\<not> create_ann_module opts s"
proof -
  obtain s1 where s1: "move_kinds sp (standard_kinds opts) \<lparr>as_soup = w, as_anns = [], as_found = []\<rparr> = Inr s1" "as_found s = as_found s1"
    using assms by (auto simp: move_statements_def move_tailf_def move_kind_def rbind_eq_Inr_iff split: if_splits)
  have kinds: "k \<notin> {''tailf'', ''must'', ''when'', ''tailf_prefix_callpoint'', ''tailf_prefix_validate''}"
    if "(True, k) \<in> set (standard_kinds opts)" for k
    using that assms(1,2) unfolding standard_kinds_def list.set insert_iff by (elim disjE) simp_all
  have "set (as_found s) \<subseteq> {k. (True, k) \<in> set (standard_kinds opts)}"
    using move_kinds_found [OF s1(1)] by (simp add: s1(2))
  with kinds show ?thesis unfolding create_ann_module_def list_ex_iff by blast
qed

end
