(* ===== verification/Cli_Dump.thy ===== *)
theory Cli_Dump
  imports Py_Prelude
begin

text \<open>
  The dump of CLI commands for a schema (\<open>cmd-path/app/confd_cli_dump.py\<close>). The schema that ConfD has loaded is a tree of nodes with their
  metadata in order; moving from a node to one of its keys is the parameter \<open>cd\<close>. The tags that the program builds are the
  datatype \<open>cmd_tag\<close>: a tag to which the program appends is the list of its children.
\<close>

section \<open>Schema nodes and commands\<close>

record node_flags =
  nf_container :: bool
  nf_list :: bool
  nf_leaf_list :: bool
  nf_leaf :: bool
  nf_case :: bool

datatype schema_node =
  SchemaNode (sn_prefix: string) (sn_tag: string) (sn_flags: node_flags) (sn_meta: "(string \<times> string option) list option")
    (sn_type: int) (sn_children: "schema_node list option")

datatype cmd_tag =
  CmdTag (ct_name: string) (ct_xpath: string) (ct_source: string) (ct_params: "(string option \<times> string) list")
    (ct_children: "cmd_tag list")

definition type_names :: "(int \<times> string) list" where
  "type_names =
     [(1, ''end marker''), (2, ''presence container''), (3, ''not yet used''), (4, ''NUL-terminated strings''),
      (5, ''string''), (6, ''int8''), (7, ''int16''), (8, ''int32''), (9, ''int64''), (10, ''uint8''),
      (11, ''uint16''), (12, ''uint32''), (13, ''uint64''), (14, ''xs:float,xs:double''),
      (15, ''inet:ipv4-address''), (16, ''inet:ipv6-address''), (17, ''boolean''), (18, ''xs:QName''),
      (19, ''yang:date-and-time''), (20, ''xs:date''), (23, ''xs:time''), (27, ''enumeration''),
      (29, ''bits size 32''), (30, ''bits size 64''), (31, ''leaf-list''), (32, ''start of container or ist entry''),
      (33, ''end of container or list entry''), (34, ''instance-identifier''), (35, ''union''),
      (36, ''see cdb_get_values in confd_lib_cdb(3)''), (37, ''list with CDB instance index''),
      (38, ''yang:object-identifier''), (39, ''binary''), (40, ''inet:ipv4-prefix''), (41, ''inet:ipv6-prefix''),
      (42, ''default value indicator''), (43, ''decimal64''), (44, ''identityref''), (45, ''deleted list entry''),
      (46, ''yang:dotted-quad''), (47, ''yang:hex-string''), (48, ''tailf:ipv4-address-and-prefix-length''),
      (49, ''tailf:ipv6-address-and-prefix-length''), (50, ''bits size larger than 64''),
      (51, ''OBU list entry moved or inserted first''), (52, ''OBU list entry moved after'')]"

definition type2str :: "int \<Rightarrow> string result" where
  "type2str shallow_type = dict_get type_names shallow_type"

text \<open>The last position of a text.\<close>

fun py_rindex :: "string \<Rightarrow> string \<Rightarrow> nat result" where
  "py_rindex sub [] = (if sub = [] then Inr 0 else Inl ValueError)"
| "py_rindex sub (c # s) =
     (case py_rindex sub s of
        Inr i \<Rightarrow> Inr (Suc i)
      | Inl e \<Rightarrow> if startswith (c # s) sub then Inr 0 else Inl e)"

section \<open>Metadata\<close>

text \<open>
  The variables of the loop over the metadata of a node. The command is there as soon as its tag was made; \<open>ms_inside\<close> says that the
  commands of the children go into it.
\<close>

record md_state =
  ms_cmd_path :: string
  ms_cmd :: "(string \<times> string \<times> (string option \<times> string) list) option"
  ms_expose_key_name :: "string option"
  ms_alt_key_name :: "string option"
  ms_drop_node :: bool
  ms_inside :: bool

definition md_param ::
  "(schema_node \<Rightarrow> string \<Rightarrow> schema_node result) \<Rightarrow> schema_node \<Rightarrow> string option \<Rightarrow> md_state \<Rightarrow> (string option \<times> string) result" where
  "md_param cd node mv st =
     (case mv of
        Some v \<Rightarrow>
          rbind (cd node v) (\<lambda>key.
          rbind (type2str (sn_type key)) (\<lambda>t.
            Inr (if ms_expose_key_name st = Some v
                 then Some (case ms_alt_key_name st of Some a \<Rightarrow> a | None \<Rightarrow> v) else None, t)))
      | None \<Rightarrow> rbind (type2str (sn_type node)) (\<lambda>t. Inr (None, t)))"

definition md_step ::
  "(schema_node \<Rightarrow> string \<Rightarrow> schema_node result) \<Rightarrow> schema_node \<Rightarrow> string \<times> string option \<Rightarrow> md_state \<Rightarrow> md_state result" where
  "md_step cd node = (\<lambda>(md, mv) st.
     if md = ''tailf:alt-name'' then
       (case mv of
          None \<Rightarrow> Inl AttributeError
        | Some alt_name \<Rightarrow>
            (case py_find alt_name '':'' of
               Some index \<Rightarrow> Inr (st\<lparr>ms_alt_key_name := Some (drop (index + 1) alt_name)\<rparr>)
             | None \<Rightarrow> rbind (py_rindex (sn_tag node) (ms_cmd_path st)) (\<lambda>i.
                 Inr (st\<lparr>ms_cmd_path := take i (ms_cmd_path st) @ alt_name @ '' ''\<rparr>))))
     else if md = ''tailf:cli-drop-node-name'' then
       rbind (py_rindex (sn_tag node) (ms_cmd_path st)) (\<lambda>i.
         Inr (st\<lparr>ms_drop_node := True, ms_cmd_path := take i (ms_cmd_path st)\<rparr>))
     else if md = ''tailf:cli-expose-key-name'' then Inr (st\<lparr>ms_expose_key_name := mv\<rparr>)
     else if startswith md ''ID '' \<and> \<not> ms_drop_node st then
       rbind (md_param cd node mv st) (\<lambda>param.
         (let (name, source, params) = (case ms_cmd st of Some c \<Rightarrow> c | None \<Rightarrow> (butlast (ms_cmd_path st), md, []))
          in Inr (st\<lparr>ms_cmd := Some (name, source, params @ [param]),
                    ms_inside := ms_inside st \<or> nf_container (sn_flags node) \<or> nf_list (sn_flags node)\<rparr>)))
     else Inr st)"

fun md_loop ::
  "(schema_node \<Rightarrow> string \<Rightarrow> schema_node result) \<Rightarrow> schema_node \<Rightarrow> (string \<times> string option) list \<Rightarrow> md_state \<Rightarrow> md_state result" where
  "md_loop cd node [] st = Inr st"
| "md_loop cd node (m # ms) st = rbind (md_step cd node m st) (md_loop cd node ms)"

section \<open>The traversal\<close>

definition node_path :: "string \<Rightarrow> string \<Rightarrow> string \<Rightarrow> string" where
  "node_path path pfx tag = path @ ''/'' @ pfx @ '':'' @ tag"

definition node_cmd_path :: "string \<Rightarrow> string \<Rightarrow> string" where
  "node_cmd_path cmd_path tag = cmd_path @ tag @ '' ''"

definition is_data :: "node_flags \<Rightarrow> bool" where
  "is_data fl \<longleftrightarrow> nf_container fl \<or> nf_list fl \<or> nf_leaf_list fl \<or> nf_leaf fl"

definition md_init :: "string \<Rightarrow> md_state" where
  "md_init cmd_path =
     \<lparr>ms_cmd_path = cmd_path, ms_cmd = None, ms_expose_key_name = None, ms_alt_key_name = None, ms_drop_node = False, ms_inside = False\<rparr>"

text \<open>The commands that are appended to the current tag, for a list of siblings.\<close>

definition place :: "md_state \<Rightarrow> string \<Rightarrow> cmd_tag list \<Rightarrow> cmd_tag list" where
  "place st path kids =
     (case ms_cmd st of
        None \<Rightarrow> kids
      | Some (name, source, params) \<Rightarrow>
          if ms_inside st then [CmdTag name path source params kids] else CmdTag name path source params [] # kids)"

fun traverse_cs_nodes ::
  "(schema_node \<Rightarrow> string \<Rightarrow> schema_node result) \<Rightarrow> schema_node list \<Rightarrow> string \<Rightarrow> string \<Rightarrow> cmd_tag list result" where
  "traverse_cs_nodes cd [] path cmd_path = Inr []"
| "traverse_cs_nodes cd (SchemaNode pfx tag fl meta ty ch # ns) path cmd_path =
     rbind
       (if is_data fl then
          (let new_path = node_path path pfx tag; st0 = md_init (node_cmd_path cmd_path tag)
           in rbind (case meta of None \<Rightarrow> Inr st0 | Some ms \<Rightarrow> md_loop cd (SchemaNode pfx tag fl meta ty ch) ms st0) (\<lambda>st.
              rbind (case ch of
                       None \<Rightarrow> Inr []
                     | Some cs \<Rightarrow> traverse_cs_nodes cd cs new_path (if nf_list fl then [] else ms_cmd_path st)) (\<lambda>kids.
                Inr (place st new_path kids))))
        else if nf_case fl then
          (case ch of None \<Rightarrow> Inr [] | Some cs \<Rightarrow> traverse_cs_nodes cd cs path cmd_path)
        else Inr []) (\<lambda>cmds.
     rbind (traverse_cs_nodes cd ns path cmd_path) (\<lambda>more. Inr (cmds @ more)))"

definition cli_dump :: "(schema_node \<Rightarrow> string \<Rightarrow> schema_node result) \<Rightarrow> schema_node list \<Rightarrow> cmd_tag list result" where
  "cli_dump cd root = traverse_cs_nodes cd root [] []"

section \<open>Commands of a schema\<close>

text \<open>Whether the metadata of a node make it a command: an identifier that comes before its name is dropped.\<close>

fun has_id :: "bool \<Rightarrow> (string \<times> string option) list \<Rightarrow> bool" where
  "has_id dropped [] = False"
| "has_id dropped ((md, mv) # ms) =
     (if md = ''tailf:cli-drop-node-name'' then has_id True ms
      else if startswith md ''ID '' \<and> \<not> dropped then True else has_id dropped ms)"

definition is_cmd :: "(string \<times> string option) list option \<Rightarrow> bool" where
  "is_cmd meta = (case meta of None \<Rightarrow> False | Some ms \<Rightarrow> has_id False ms)"

text \<open>The commands of a schema in the order of the schema: their names and paths. The words of a command start again below a list.\<close>

fun schema_cmds :: "schema_node list \<Rightarrow> string \<Rightarrow> string list \<Rightarrow> (string \<times> string) list" where
  "schema_cmds [] path ws = []"
| "schema_cmds (SchemaNode pfx tag fl meta ty ch # ns) path ws =
     (if is_data fl then
        (if is_cmd meta then [(py_join '' '' (ws @ [tag]), node_path path pfx tag)] else []) @
        (case ch of None \<Rightarrow> []
         | Some cs \<Rightarrow> schema_cmds cs (node_path path pfx tag) (if nf_list fl then [] else ws @ [tag]))
      else if nf_case fl then (case ch of None \<Rightarrow> [] | Some cs \<Rightarrow> schema_cmds cs path ws)
      else []) @ schema_cmds ns path ws"

text \<open>The commands of the dump, each before the ones inside it.\<close>

fun tag_cmds :: "cmd_tag \<Rightarrow> (string \<times> string) list" where
  "tag_cmds (CmdTag name xpath source params cs) = (name, xpath) # concat (map tag_cmds cs)"

lemma md_step_cmd:
  assumes "md_step cd node m st = Inr st'"
  shows "ms_drop_node st' = (ms_drop_node st \<or> fst m = ''tailf:cli-drop-node-name'')"
    and "ms_cmd st' \<noteq> None \<longleftrightarrow>
      ms_cmd st \<noteq> None \<or> startswith (fst m) ''ID '' \<and> \<not> ms_drop_node st"
  using assms
  by (auto simp: md_step_def rbind_eq_Inr_iff Let_def split: prod.splits if_splits option.splits)

lemma md_loop_cmd:
  "md_loop cd node ms st = Inr st' \<Longrightarrow>
     ms_cmd st' \<noteq> None \<longleftrightarrow> ms_cmd st \<noteq> None \<or> has_id (ms_drop_node st) ms"
proof (induction ms arbitrary: st)
  case (Cons m ms)
  then obtain st1 where st1: "md_step cd node m st = Inr st1" "md_loop cd node ms st1 = Inr st'"
    by (auto simp: rbind_eq_Inr_iff)
  obtain md mv where m: "m = (md, mv)" by force
  show ?case
    using md_step_cmd [OF st1(1)] Cons.IH [OF st1(2)] by (cases "md = ''tailf:cli-drop-node-name''") (auto simp: m)
qed simp

lemma place_xpaths:
  "map snd (concat (map tag_cmds (place st path kids))) =
     (if ms_cmd st = None then [] else [path]) @ map snd (concat (map tag_cmds kids))"
  by (auto simp: place_def split: option.splits)

lemma node_cmd:
  "(case meta of None \<Rightarrow> Inr (md_init c) | Some ms \<Rightarrow> md_loop cd node ms (md_init c)) = Inr st \<Longrightarrow>
     ms_cmd st \<noteq> None \<longleftrightarrow> is_cmd meta"
  by (cases meta) (auto simp: is_cmd_def md_init_def dest!: md_loop_cmd)

lemma traverse_xpaths:
  "traverse_cs_nodes cd ns path cmd_path = Inr cmds \<Longrightarrow>
     map snd (concat (map tag_cmds cmds)) = map snd (schema_cmds ns path ws)"
proof (induction cd ns path cmd_path arbitrary: cmds ws rule: traverse_cs_nodes.induct)
  case (2 cd pfx tag fl meta ty ch ns path cmd_path)
  let ?p = "node_path path pfx tag"
  have rest_ih: "map snd (concat (map tag_cmds rest)) = map snd (schema_cmds ns path ws)"
    if "traverse_cs_nodes cd ns path cmd_path = Inr rest" for rest
    using 2(4) 2(3) [OF _ that] unfolding traverse_cs_nodes.simps(2) rbind_eq_Inr_iff by blast
  consider (data) "is_data fl" | (case_node) "\<not> is_data fl" "nf_case fl" | (other) "\<not> is_data fl" "\<not> nf_case fl" by blast
  then show ?case
  proof cases
    case data
    with 2(4) obtain st kids rest where parts:
        "(case meta of None \<Rightarrow> Inr (md_init (node_cmd_path cmd_path tag)) | Some ms \<Rightarrow>
           md_loop cd (SchemaNode pfx tag fl meta ty ch) ms (md_init (node_cmd_path cmd_path tag))) = Inr st"
        "(case ch of None \<Rightarrow> Inr [] | Some cs \<Rightarrow> traverse_cs_nodes cd cs ?p (if nf_list fl then [] else ms_cmd_path st)) = Inr kids"
        "traverse_cs_nodes cd ns path cmd_path = Inr rest" "cmds = place st ?p kids @ rest"
      by (auto simp: rbind_eq_Inr_iff Let_def)
    have kids: "map snd (concat (map tag_cmds kids)) =
        map snd (case ch of None \<Rightarrow> [] | Some cs \<Rightarrow> schema_cmds cs ?p (if nf_list fl then [] else ws @ [tag]))"
      using parts(2) 2(1) [OF data refl refl] parts(1) by (cases ch) auto
    show ?thesis
      using node_cmd [OF parts(1)] kids rest_ih [OF parts(3)] parts(4) data
      by (simp add: place_xpaths)
  next
    case case_node
    with 2(4) obtain own rest where parts:
        "(case ch of None \<Rightarrow> Inr [] | Some cs \<Rightarrow> traverse_cs_nodes cd cs path cmd_path) = Inr own"
        "traverse_cs_nodes cd ns path cmd_path = Inr rest" "cmds = own @ rest"
      by (auto simp: rbind_eq_Inr_iff)
    have "map snd (concat (map tag_cmds own)) = map snd (case ch of None \<Rightarrow> [] | Some cs \<Rightarrow> schema_cmds cs path ws)"
      using parts(1) 2(2) [OF case_node] by (cases ch) auto
    with rest_ih [OF parts(2)] parts(3) case_node show ?thesis by simp
  next
    case other
    with 2(4) obtain rest where "traverse_cs_nodes cd ns path cmd_path = Inr rest" "cmds = rest"
      by (auto simp: rbind_eq_Inr_iff)
    with rest_ih other show ?thesis by simp
  qed
qed simp

text \<open>
  Schemas without the extensions that change names, in which every parameter of a command has a known type.
\<close>

definition known_type :: "schema_node \<Rightarrow> bool" where
  "known_type node \<longleftrightarrow> sn_type node \<in> set (map fst type_names)"

definition plain_entry :: "(schema_node \<Rightarrow> string \<Rightarrow> schema_node result) \<Rightarrow> schema_node \<Rightarrow> string \<times> string option \<Rightarrow> bool" where
  "plain_entry cd node = (\<lambda>(md, mv). md \<noteq> ''tailf:alt-name'' \<and> md \<noteq> ''tailf:cli-drop-node-name'' \<and>
     (case mv of None \<Rightarrow> known_type node | Some v \<Rightarrow> (case cd node v of Inl _ \<Rightarrow> False | Inr key \<Rightarrow> known_type key)))"

fun plain_schema :: "(schema_node \<Rightarrow> string \<Rightarrow> schema_node result) \<Rightarrow> schema_node list \<Rightarrow> bool" where
  "plain_schema cd [] = True"
| "plain_schema cd (SchemaNode pfx tag fl meta ty ch # ns) =
     ((case meta of None \<Rightarrow> True | Some ms \<Rightarrow> list_all (plain_entry cd (SchemaNode pfx tag fl meta ty ch)) ms) \<and>
      (case ch of None \<Rightarrow> True | Some cs \<Rightarrow> plain_schema cd cs) \<and> plain_schema cd ns)"

lemma type2str_known: "known_type node \<Longrightarrow> \<exists>t. type2str (sn_type node) = Inr t"
  unfolding known_type_def type2str_def dict_get_def
  by (cases "map_of type_names (sn_type node)") (auto simp: map_of_eq_None_iff)

lemma md_param_known:
  assumes "plain_entry cd node (md, mv)"
  shows "\<exists>p. md_param cd node mv st = Inr p"
  using assms type2str_known by (fastforce simp: plain_entry_def md_param_def rbind_eq_Inr_iff split: option.splits sum.splits)

text \<open>What a loop over such metadata keeps.\<close>

definition named :: "string \<Rightarrow> md_state \<Rightarrow> bool" where
  "named c st \<longleftrightarrow> ms_cmd_path st = c \<and> \<not> ms_drop_node st \<and> (case ms_cmd st of None \<Rightarrow> True | Some (n, _) \<Rightarrow> n = butlast c)"

lemma md_step_plain:
  assumes "plain_entry cd node m" and "named c st"
  shows "\<exists>st'. md_step cd node m st = Inr st' \<and> named c st'"
proof -
  obtain md mv where m: "m = (md, mv)" by force
  with assms(1) obtain p where "md_param cd node mv st = Inr p" using md_param_known by blast
  with assms m show ?thesis
    by (auto simp: md_step_def plain_entry_def named_def Let_def split: option.splits prod.splits)
qed

lemma md_loop_plain:
  "list_all (plain_entry cd node) ms \<Longrightarrow> named c st \<Longrightarrow> \<exists>st'. md_loop cd node ms st = Inr st' \<and> named c st'"
proof (induction ms arbitrary: st)
  case (Cons m ms)
  then obtain st1 where "md_step cd node m st = Inr st1" "named c st1" using md_step_plain by fastforce
  with Cons show ?case by simp
qed simp

definition words :: "string list \<Rightarrow> string" where
  "words ws = concat (map (\<lambda>w. w @ '' '') ws)"

lemma butlast_words: "butlast (words (ws @ [w])) = py_join '' '' (ws @ [w])"
proof (induction ws)
  case Nil
  then show ?case by (simp add: words_def)
next
  case (Cons x ws)
  then show ?case by (cases ws) (simp_all add: words_def butlast_append)
qed

lemma place_named:
  assumes "named c st"
  shows "concat (map tag_cmds (place st path kids)) =
     (if ms_cmd st = None then [] else [(butlast c, path)]) @ concat (map tag_cmds kids)"
  using assms by (auto simp: place_def named_def split: option.splits)

lemma traverse_plain:
  "plain_schema cd ns \<Longrightarrow>
     \<exists>cmds. traverse_cs_nodes cd ns path (words ws) = Inr cmds \<and> concat (map tag_cmds cmds) = schema_cmds ns path ws"
proof (induction ns path ws rule: schema_cmds.induct)
  case (1 path ws)
  then show ?case by simp
next
  case (2 pfx tag fl meta ty ch ns path ws)
  let ?node = "SchemaNode pfx tag fl meta ty ch" and ?p = "node_path path pfx tag" and ?c = "words (ws @ [tag])"
  have c: "node_cmd_path (words ws) tag = ?c" by (simp add: node_cmd_path_def words_def)
  obtain rest where rest: "traverse_cs_nodes cd ns path (words ws) = Inr rest"
      "concat (map tag_cmds rest) = schema_cmds ns path ws" using 2 by auto
  have "\<exists>own. (if is_data fl then
          rbind (case meta of None \<Rightarrow> Inr (md_init ?c) | Some ms \<Rightarrow> md_loop cd ?node ms (md_init ?c)) (\<lambda>st.
              rbind (case ch of
                       None \<Rightarrow> Inr []
                     | Some cs \<Rightarrow> traverse_cs_nodes cd cs ?p (if nf_list fl then [] else ms_cmd_path st)) (\<lambda>kids.
                Inr (place st ?p kids)))
        else if nf_case fl then (case ch of None \<Rightarrow> Inr [] | Some cs \<Rightarrow> traverse_cs_nodes cd cs path (words ws)) else Inr []) = Inr own \<and>
      concat (map tag_cmds own) = (if is_data fl then
        (if is_cmd meta then [(py_join '' '' (ws @ [tag]), ?p)] else []) @
        (case ch of None \<Rightarrow> [] | Some cs \<Rightarrow> schema_cmds cs ?p (if nf_list fl then [] else ws @ [tag]))
      else if nf_case fl then (case ch of None \<Rightarrow> [] | Some cs \<Rightarrow> schema_cmds cs path ws) else [])"
  proof (cases "is_data fl")
    case True
    have "named ?c (md_init ?c)" by (simp add: named_def md_init_def)
    then obtain st where st: "(case meta of None \<Rightarrow> Inr (md_init ?c) | Some ms \<Rightarrow> md_loop cd ?node ms (md_init ?c)) = Inr st"
        "named ?c st" using 2(4) md_loop_plain by (cases meta) fastforce+
    have "\<exists>kids. (case ch of None \<Rightarrow> Inr []
        | Some cs \<Rightarrow> traverse_cs_nodes cd cs ?p (if nf_list fl then [] else ms_cmd_path st)) = Inr kids \<and>
        concat (map tag_cmds kids) = (case ch of None \<Rightarrow> [] | Some cs \<Rightarrow> schema_cmds cs ?p (if nf_list fl then [] else ws @ [tag]))"
      using 2(1) [OF True] 2(4) st(2) by (cases ch; cases "nf_list fl") (auto simp: named_def words_def)
    then obtain kids where kids: "(case ch of None \<Rightarrow> Inr []
        | Some cs \<Rightarrow> traverse_cs_nodes cd cs ?p (if nf_list fl then [] else ms_cmd_path st)) = Inr kids"
        "concat (map tag_cmds kids) = (case ch of None \<Rightarrow> [] | Some cs \<Rightarrow> schema_cmds cs ?p (if nf_list fl then [] else ws @ [tag]))"
      by blast
    show ?thesis
      using True st kids node_cmd [OF st(1)] place_named [OF st(2), of ?p kids]
      by (cases "ms_cmd st") (auto simp: butlast_words)
  next
    case False
    with 2(2) 2(4) show ?thesis by (cases ch; cases "nf_case fl") auto
  qed
  with rest show ?case by (fastforce simp: c Let_def)
qed

section \<open>Properties\<close>

text \<open>
  The dump has exactly one command for every data node with an identifier that its name was not dropped before, in the order of the
  schema, and each command has the path of its node, whatever the names of the commands are.
\<close>

theorem cli_dump_paths:
  assumes "cli_dump cd root = Inr cmds"
  shows "map snd (concat (map tag_cmds cmds)) = map snd (schema_cmds root [] [])"
  using assms unfolding cli_dump_def by (rule traverse_xpaths)

text \<open>
  C31. For a schema without extensions that change names, and with known types, the dump is made, and a command has as its name the tags from
  below the innermost list down to its node.
\<close>

theorem cli_dump_names:
  assumes "plain_schema cd root"
  shows "\<exists>cmds. cli_dump cd root = Inr cmds \<and> concat (map tag_cmds cmds) = schema_cmds root [] []"
  using traverse_plain [OF assms, of "[]" "[]"] by (simp add: cli_dump_def words_def)

definition example_schema :: "schema_node list" where
  "example_schema =
     [SchemaNode ''p'' ''sys'' \<lparr>nf_container = True, nf_list = False, nf_leaf_list = False, nf_leaf = False, nf_case = False\<rparr> None 2
        (Some [SchemaNode ''p'' ''mtu'' \<lparr>nf_container = False, nf_list = False, nf_leaf_list = False, nf_leaf = True, nf_case = False\<rparr>
                 (Some [(''ID p:0'', None)]) 11 None])]"

lemma cli_dump_names_witness:
  "\<exists>cmds. cli_dump (\<lambda>_ _. Inl KeyError) example_schema = Inr cmds \<and> concat (map tag_cmds cmds) = [(''sys mtu'', ''/p:sys/p:mtu'')]"
proof -
  have "plain_schema (\<lambda>_ _. Inl KeyError) example_schema"
    by (simp add: example_schema_def plain_entry_def known_type_def type_names_def)
  from cli_dump_names [OF this] show ?thesis
    by (simp add: example_schema_def is_data_def is_cmd_def node_path_def)
qed

lemma cli_dump_paths_witness:
  "\<exists>cmds. cli_dump (\<lambda>_ _. Inl KeyError) example_schema = Inr cmds \<and> map snd (concat (map tag_cmds cmds)) = [''/p:sys/p:mtu'']"
proof -
  have "plain_schema (\<lambda>_ _. Inl KeyError) example_schema"
    by (simp add: example_schema_def plain_entry_def known_type_def type_names_def)
  with traverse_plain [of "\<lambda>_ _. Inl KeyError" example_schema "[]" "[]"]
  obtain cmds where "cli_dump (\<lambda>_ _. Inl KeyError) example_schema = Inr cmds" by (auto simp: cli_dump_def words_def)
  with cli_dump_paths [OF this] show ?thesis
    by (simp add: example_schema_def is_data_def is_cmd_def node_path_def)
qed

text \<open>
  A node with an alternative name whose name is then dropped: its own tag is no longer in the command, and the program fails if the
  tag does not occur elsewhere in it.
\<close>

theorem alt_name_then_drop:
  assumes "py_rindex tag c = Inr i" and "py_find alt '':'' = None" and "py_rindex tag (take i c @ alt @ '' '') = Inl ValueError"
  shows "md_loop cd (SchemaNode pfx tag fl meta ty ch)
     [(''tailf:alt-name'', Some alt), (''tailf:cli-drop-node-name'', None)] (md_init c) = Inl ValueError"
  using assms by (simp add: md_step_def md_init_def)

lemma alt_name_then_drop_witness:
  "md_loop (\<lambda>_ _. Inl KeyError) (SchemaNode ''p'' ''mtu'' \<lparr>nf_container = False, nf_list = False, nf_leaf_list = False, nf_leaf = True,
       nf_case = False\<rparr> None 11 None)
     [(''tailf:alt-name'', Some ''size''), (''tailf:cli-drop-node-name'', None)] (md_init ''sys mtu '') = Inl ValueError"
  by (rule alt_name_then_drop [where i = 4]) (simp_all add: startswith_def)

end
