(* ===== verification/Yang_Tags.thy ===== *)
theory Yang_Tags
  imports Yang_Annotate Cli_Dump
begin

text \<open>
  The tool \<open>cmd-path/app/confd_tag_yang.py\<close>, which adds metadata to a YANG module: copies of the extensions that change CLI commands, and an
  identifier for every statement that is a command. The statements that the library BeautifulSoup finds, and what the tool reads of
  them, are the record \<open>tag_doc\<close>; the result is the list of the metadata in the order in which they are appended. The dump
  of \<open>Cli_Dump\<close> reads them.
\<close>

section \<open>Metadata\<close>

text \<open>A statement: itself, its parent with its name, the value of the \<open>key\<close> statement before it, and its name.\<close>

record 'n tag_node =
  tn_self :: 'n
  tn_parent :: "('n \<times> string) option"
  tn_key :: "string option"
  tn_yname :: "string option"

text \<open>Metadata with their place, name and value.\<close>

type_synonym 'n metadata = "'n \<times> string \<times> string option"

definition append_md :: "'n tag_node \<Rightarrow> string \<Rightarrow> string option \<Rightarrow> 'n metadata result" where
  "append_md node md mv =
     (case tn_parent node of
        Some (lst, pname) \<Rightarrow>
          if pname = ''list'' then
            (case tn_key node of
               None \<Rightarrow> Inr (tn_self node, md, mv)
             | Some key \<Rightarrow>
                 (case tn_yname node of
                    None \<Rightarrow> Inl KeyError
                  | Some y \<Rightarrow>
                      if py_find key y \<noteq> None
                      then Inr (lst, md, Some (case mv of None \<Rightarrow> y | Some v \<Rightarrow> y @ '':'' @ v))
                      else Inr (tn_self node, md, mv)))
          else Inr (tn_self node, md, mv)
      | None \<Rightarrow> Inr (tn_self node, md, mv))"

record 'n tag_doc =
  td_prefix :: "string option"
  td_alt_names :: "('n tag_node \<times> string option) list"
  td_drop_names :: "'n tag_node list"
  td_expose_keys :: "'n tag_node list"
  td_leafs :: "'n tag_node list"
  td_leaf_lists :: "'n tag_node list"
  td_containers :: "('n tag_node \<times> bool) list"

definition id_md :: "string option \<Rightarrow> nat \<Rightarrow> string result" where
  "id_md pfx i = (case pfx of None \<Rightarrow> Inl TypeError | Some p \<Rightarrow> Inr (''ID '' @ p @ '':'' @ nat_str i))"

fun tag_ids :: "string option \<Rightarrow> nat \<Rightarrow> 'n tag_node list \<Rightarrow> 'n metadata list result" where
  "tag_ids pfx i [] = Inr []"
| "tag_ids pfx i (n # ns) =
     rbind (id_md pfx i) (\<lambda>md. rbind (append_md n md None) (\<lambda>m. rbind (tag_ids pfx (Suc i) ns) (\<lambda>ms. Inr (m # ms))))"

definition tag_alt_name :: "'n tag_node \<times> string option \<Rightarrow> 'n metadata result" where
  "tag_alt_name = (\<lambda>(n, alt). case alt of None \<Rightarrow> Inl KeyError | Some a \<Rightarrow> append_md n ''tailf_prefix_alt_name'' (Some a))"

text \<open>The statements that get an identifier, in the order in which they are numbered.\<close>

definition id_nodes :: "'n tag_doc \<Rightarrow> 'n tag_node list" where
  "id_nodes d = td_leafs d @ td_leaf_lists d @ map fst (filter snd (td_containers d))"

definition tag_yang :: "'n tag_doc \<Rightarrow> 'n metadata list result" where
  "tag_yang d =
     rbind (map_result tag_alt_name (td_alt_names d)) (\<lambda>alts.
     rbind (map_result (\<lambda>n. append_md n ''tailf_prefix_cli_drop_node_name'' None) (td_drop_names d)) (\<lambda>drops.
     rbind (map_result (\<lambda>n. append_md n ''tailf_prefix_cli_expose_key_name'' None) (td_expose_keys d)) (\<lambda>exposes.
     rbind (tag_ids (td_prefix d) 0 (td_leafs d)) (\<lambda>leafs.
     rbind (tag_ids (td_prefix d) (length (td_leafs d)) (td_leaf_lists d)) (\<lambda>lls.
     rbind (tag_ids (td_prefix d) (length (td_leafs d) + length (td_leaf_lists d)) (map fst (filter snd (td_containers d)))) (\<lambda>cs.
       Inr (alts @ drops @ exposes @ leafs @ lls @ cs)))))))"

text \<open>The names that the tool replaces before it parses and after it prints.\<close>

definition tag_to_soup :: "string \<Rightarrow> string" where
  "tag_to_soup = replace_all [(''tailf:'', ''tailf_prefix_''), (''name='', ''yname=''), (''leaf-list'', ''leaflist''),
     (''tailf_prefix_meta-data'', ''tailf_prefix_metadata''), (''tailf_prefix_alt-name'', ''tailf_prefix_alt_name''),
     (''tailf_prefix_cli-drop-node-name'', ''tailf_prefix_cli_drop_node_name''),
     (''tailf_prefix_cli-expose-key-name'', ''tailf_prefix_cli_expose_key_name''), (''xmlns:'', ''xmlns_'')]"

definition tag_from_soup :: "string \<Rightarrow> string" where
  "tag_from_soup = replace_all [(''tailf_prefix_'', ''tailf:''), (''tailf:alt_name'', ''tailf:alt-name''),
     (''tailf:cli_drop_node_name'', ''tailf:cli-drop-node-name''), (''tailf:cli_expose_key_name'', ''tailf:cli-expose-key-name''),
     (''yname='', ''name=''), (''leaflist'', ''leaf-list''), (''xmlns_'', ''xmlns:'')]"

section \<open>Lemmas\<close>

text \<open>A statement without the attribute \<open>name\<close> raises below a list with keys.\<close>

definition named_node :: "'n tag_node \<Rightarrow> bool" where
  "named_node n \<longleftrightarrow> tn_yname n \<noteq> None"

text \<open>Where the metadata of a statement go: to the list, if it is a key, with the name of the key as the value.\<close>

definition is_key :: "'n tag_node \<Rightarrow> bool" where
  "is_key n \<longleftrightarrow> (\<exists>lst key y. tn_parent n = Some (lst, ''list'') \<and> tn_key n = Some key \<and> tn_yname n = Some y \<and> py_find key y \<noteq> None)"

definition md_target :: "'n tag_node \<Rightarrow> 'n" where
  "md_target n = (if is_key n then fst (the (tn_parent n)) else tn_self n)"

definition md_value :: "'n tag_node \<Rightarrow> string option \<Rightarrow> string option" where
  "md_value n mv = (if is_key n then Some (the (tn_yname n) @ (case mv of None \<Rightarrow> [] | Some v \<Rightarrow> '':'' @ v)) else mv)"

lemma append_md_named: "named_node n \<Longrightarrow> append_md n md mv = Inr (md_target n, md, md_value n mv)"
  unfolding append_md_def named_node_def md_target_def md_value_def is_key_def
  by (cases "tn_parent n"; cases "tn_key n"; cases "tn_yname n"; cases mv) auto

lemma tag_ids_named:
  "list_all named_node ns \<Longrightarrow>
     tag_ids (Some p) i ns = Inr (map (\<lambda>(k, n). (md_target n, ''ID '' @ p @ '':'' @ nat_str k, md_value n None)) (enumerate i ns))"
  by (induction ns arbitrary: i) (simp_all add: id_md_def append_md_named)

lemma tag_ids_append:
  "tag_ids pfx i (xs @ ys) = rbind (tag_ids pfx i xs) (\<lambda>a. rbind (tag_ids pfx (i + length xs) ys) (\<lambda>b. Inr (a @ b)))"
proof (induction xs arbitrary: i)
  case Nil
  then show ?case by (cases "tag_ids pfx i ys") simp_all
next
  case (Cons x xs)
  then show ?case
    by (cases "id_md pfx i"; cases "append_md x (projr (id_md pfx i)) None"; cases "tag_ids pfx (Suc i) xs";
        cases "tag_ids pfx (Suc (i + length xs)) ys") simp_all
qed

section \<open>Properties\<close>

text \<open>
  C28. The identifiers: for a module with a prefix, whose statements have names, the leafs, leaf-lists and containers with presence, and no
  other statements, get one identifier each; the identifiers are numbered through, all different, and recognised by the dump of the
  commands; and a key gives its identifier to its list, with its name as the value.
\<close>

theorem tag_yang_ids:
  assumes "td_prefix d = Some p" and "list_all named_node (map fst (td_alt_names d) @ td_drop_names d @ td_expose_keys d @ id_nodes d)"
    and "None \<notin> snd ` set (td_alt_names d)"
  shows "\<exists>exts ids. tag_yang d = Inr (exts @ ids) \<and>
     length exts = length (td_alt_names d) + length (td_drop_names d) + length (td_expose_keys d) \<and>
     map (\<lambda>(t, md, mv). (t, mv)) ids = map (\<lambda>n. (md_target n, md_value n None)) (id_nodes d) \<and>
     map (\<lambda>(t, md, mv). md) ids = map (\<lambda>k. ''ID '' @ p @ '':'' @ nat_str k) [0..<length (id_nodes d)] \<and>
     distinct (map (\<lambda>(t, md, mv). md) ids) \<and> list_all (\<lambda>(t, md, mv). has_id False [(md, mv)]) ids"
proof -
  let ?ids = "map (\<lambda>(k, n). (md_target n, ''ID '' @ p @ '':'' @ nat_str k, md_value n None)) (enumerate 0 (id_nodes d))"
  have alts: "map_result tag_alt_name (td_alt_names d) =
      Inr (map (\<lambda>(n, alt). (md_target n, ''tailf_prefix_alt_name'', md_value n (Some (the alt)))) (td_alt_names d))"
  proof (rule map_result_Inr_map)
    fix x
    assume x: "x \<in> set (td_alt_names d)"
    from x assms(2) have "named_node (fst x)" by (simp add: list_all_iff)
    moreover from x assms(3) have "snd x \<noteq> None" by (metis image_eqI)
    ultimately obtain n a where "x = (n, Some a)" "named_node n" by (cases x) auto
    then show "tag_alt_name x = Inr (case x of (n, alt) \<Rightarrow> (md_target n, ''tailf_prefix_alt_name'', md_value n (Some (the alt))))"
      by (simp add: tag_alt_name_def append_md_named)
  qed
  have exts: "map_result (\<lambda>n. append_md n md None) ns = Inr (map (\<lambda>n. (md_target n, md, md_value n None)) ns)"
    if "list_all named_node ns" for md and ns :: "'a tag_node list"
    using that by (intro map_result_Inr_map) (auto simp: append_md_named list_all_iff)
  have ids: "tag_ids (Some p) 0 (id_nodes d) = Inr ?ids" using assms(2) by (intro tag_ids_named) simp
  obtain es where tag: "tag_yang d = Inr (es @ ?ids)"
    "length es = length (td_alt_names d) + length (td_drop_names d) + length (td_expose_keys d)"
    using ids assms(1,2) unfolding tag_yang_def alts id_nodes_def
    by (auto simp: tag_ids_append rbind_eq_Inr_iff exts)
  have mds: "map (\<lambda>(t, md, mv). md) ?ids = map (\<lambda>k. ''ID '' @ p @ '':'' @ nat_str k) [0..<length (id_nodes d)]"
    by (auto simp: enumerate_eq_zip intro: nth_equalityI)
  moreover have "inj nat_str" by (rule inj_on_inverseI [of _ digits_val]) simp
  then have "distinct (map (\<lambda>k. ''ID '' @ p @ '':'' @ nat_str k) [0..<length (id_nodes d)])"
    by (simp add: distinct_map inj_on_def)
  moreover have "map (\<lambda>(t, md, mv). (t, mv)) ?ids = map (\<lambda>n. (md_target n, md_value n None)) (id_nodes d)"
    by (auto simp: enumerate_eq_zip intro: nth_equalityI)
  moreover have "list_all (\<lambda>(t, md, mv). has_id False [(md, mv)]) ?ids"
    by (auto simp: list_all_iff)
  ultimately show ?thesis using tag by (intro exI [of _ es] exI [of _ ?ids]) simp
qed

text \<open>
  A leaf whose name is only a part of the key of its list counts as a key: its metadata go to the list.
\<close>

theorem key_substring:
  assumes "tn_parent n = Some (lst, ''list'')" and "tn_key n = Some (a @ y @ b)" and "tn_yname n = Some y"
  shows "append_md n md None = Inr (lst, md, Some y)"
proof -
  have "py_find (a @ y @ b) y \<noteq> None"
    unfolding py_find_None by (auto intro!: exI [of _ "length a"])
  with assms show ?thesis by (auto simp: append_md_def)
qed

definition example_tag_doc :: "nat tag_doc" where
  "example_tag_doc =
     \<lparr>td_prefix = Some ''p'', td_alt_names = [], td_drop_names = [], td_expose_keys = [],
      td_leafs = [\<lparr>tn_self = 1, tn_parent = Some (0, ''list''), tn_key = Some ''id'', tn_yname = Some ''id''\<rparr>,
                  \<lparr>tn_self = 2, tn_parent = Some (0, ''list''), tn_key = Some ''id'', tn_yname = Some ''mtu''\<rparr>],
      td_leaf_lists = [], td_containers = []\<rparr>"

lemma tag_yang_ids_witness:
  "\<exists>ids. tag_yang example_tag_doc = Inr ids \<and> map (\<lambda>(t, md, mv). (t, mv)) ids = [(0, Some ''id''), (2, None)]"
proof -
  have "td_prefix example_tag_doc = Some ''p''"
    "list_all named_node (map fst (td_alt_names example_tag_doc) @ td_drop_names example_tag_doc @ td_expose_keys example_tag_doc @
       id_nodes example_tag_doc)"
    "None \<notin> snd ` set (td_alt_names example_tag_doc)"
    by (simp_all add: example_tag_doc_def id_nodes_def named_node_def)
  from tag_yang_ids [OF this] show ?thesis
    by (auto simp: example_tag_doc_def id_nodes_def md_target_def md_value_def is_key_def startswith_def)
qed

lemma key_substring_witness:
  "append_md \<lparr>tn_self = 2, tn_parent = Some (0 :: nat, ''list''), tn_key = Some ''valid'', tn_yname = Some ''id''\<rparr> ''ID p:3'' None =
     Inr (0, ''ID p:3'', Some ''id'')"
  by (rule key_substring [where a = "''val''" and b = "[]"]) simp_all

end
