(* ===== verification/Yang_Programs.thy ===== *)
theory Yang_Programs
  imports Py_World Yang_Tags
begin

text \<open>
  The programs around the tools on YANG modules: \<open>ann-stmt/app/tailf_ann_stmt.py\<close>, \<open>ann-stmt/app/tailf_sanitize.py\<close> and
  \<open>cmd-path/app/confd_tag_yang.py\<close>. Each runs pyang to get the YIN form of a module, changes it as a tree of BeautifulSoup, and
  runs pyang again on the result. They are programs over an environment with the variable \<open>CONFD_DIR\<close>, the date, pyang
  and the file system; the trees are a parameter (record \<open>yin_tools\<close>), with the operations that the source uses.
\<close>

section \<open>Calls and trees\<close>

datatype yang_event =
    EnvHas string
  | EnvGet string
  | WriteStderr
  | Today
  | RunPyang "string list" "string option"
  | MakeDirs string
  | WriteFile string string
  | PrintText string

type_synonym 'a yang_prog = "(yang_event, 'a) io"

datatype root_kind = IsModule | IsSubmodule | NoRoot

record ('n, 'i) ann_module =
  am_template :: string
  am_attrs :: dict
  am_imports :: "'i list"
  am_annotations :: "'n annotation list"

record ('w, 'n, 'i) yin_tools =
  yt_soup :: "('w, 'n) soup"
  yt_parse :: "string \<Rightarrow> 'w"
  yt_print :: "'w \<Rightarrow> string"
  yt_kind :: "'w \<Rightarrow> root_kind"
  yt_namespace :: "'w \<Rightarrow> string result"
  yt_prefix :: "'w \<Rightarrow> string result"
  yt_attrs :: "'w \<Rightarrow> dict"
  yt_imports :: "'w \<Rightarrow> (string \<times> 'i) list"
  yt_tailf_import :: "'w \<Rightarrow> 'n option"
  yt_tailf_types :: "'w \<Rightarrow> 'n list"
  yt_print_ann :: "('n, 'i) ann_module \<Rightarrow> string"

definition io_of :: "'a result \<Rightarrow> 'a yang_prog" where
  "io_of r = (case r of Inl e \<Rightarrow> io_raise e | Inr a \<Rightarrow> io_ret a)"

section \<open>The annotation module\<close>

definition ann_template :: "('w, 'n, 'i) yin_tools \<Rightarrow> string \<Rightarrow> string \<Rightarrow> 'w \<Rightarrow> string result" where
  "ann_template t date name w =
     (if yt_kind t w = IsModule
      then rbind (yt_namespace t w) (\<lambda>ns. rbind (yt_prefix t w) (\<lambda>p. Inr (gen_ann_module date name ns p)))
      else rbind (yt_prefix t w) (\<lambda>p. rbind (dict_get (yt_attrs t w) (''xmlns_'' @ p)) (\<lambda>ns. Inr (gen_ann_module date name ns p))))"

text \<open>The attributes and imports of the module, and its name with \<open>-ann\<close>.\<close>

definition make_ann_module ::
  "('w, 'n, 'i) yin_tools \<Rightarrow> string \<Rightarrow> 'w \<Rightarrow> 'n annotation list \<Rightarrow> ('n, 'i) ann_module result" where
  "make_ann_module t template w anns =
     rbind (dict_get (yt_attrs t w) ''yname'') (\<lambda>name.
       Inr \<lparr>am_template = template, am_attrs = AList.update ''yname'' (name @ ''-ann'') (yt_attrs t w),
            am_imports = map snd (filter (\<lambda>(m, i). m \<noteq> ''tailf-common'') (yt_imports t w)), am_annotations = anns\<rparr>)"

section \<open>The programs\<close>

definition confd_dir :: "string yang_prog" where
  "confd_dir =
     io_bind (ask en_bool (EnvHas ''CONFD_DIR'')) (\<lambda>has.
       if has then ask en_str (EnvGet ''CONFD_DIR'') else io_then (call WriteStderr) (io_raise UnboundLocalError))"

definition pyang_yin :: "string \<Rightarrow> string \<Rightarrow> string \<Rightarrow> yang_event" where
  "pyang_yin yang_path dir yang_file = RunPyang [''-f'', ''yin'', ''-p'', yang_path, ''-p'', dir, yang_file] None"

definition pyang_yang :: "string list \<Rightarrow> string \<Rightarrow> string \<Rightarrow> string \<Rightarrow> yang_event" where
  "pyang_yang flags yang_path dir input = RunPyang ([''-f'', ''yang''] @ flags @ [''-p'', yang_path, ''-p'', dir]) (Some input)"

text \<open>What \<open>tailf_ann_stmt\<close> does with the trees: the new module, and the annotation module if there is one.\<close>

definition ann_trees ::
  "('w, 'n, 'i) yin_tools \<Rightarrow> ann_opts \<Rightarrow> string \<Rightarrow> 'w \<Rightarrow> ('w \<times> ('n, 'i) ann_module option) result" where
  "ann_trees t opts template w =
     rbind (move_statements (yt_soup t) opts w) (\<lambda>s.
     let w' = drop_import (yt_soup t) (yt_tailf_import t) (yt_tailf_types t) (as_soup s)
     in rbind (make_ann_module t template w' (as_anns s)) (\<lambda>am.
          Inr (w', if create_ann_module opts s then Some am else None)))"

definition write_trees ::
  "('w, 'n, 'i) yin_tools \<Rightarrow> string \<Rightarrow> string \<Rightarrow> string \<Rightarrow> string \<Rightarrow> 'w \<times> ('n, 'i) ann_module option \<Rightarrow> unit yang_prog" where
  "write_trees t yang_path dir out_path yang_filename = (\<lambda>(w, am).
     io_bind (ask en_str (pyang_yang [] yang_path dir (from_soup (yt_print t w)))) (\<lambda>yang.
     io_then (calls [MakeDirs out_path, WriteFile (out_path @ ''/'' @ yang_filename) yang])
       (case am of
          None \<Rightarrow> io_ret ()
        | Some m \<Rightarrow>
            io_bind (ask en_str (pyang_yang [''--ignore-error=UNUSED_IMPORT''] yang_path dir (ann_from_soup (yt_print_ann t m)))) (\<lambda>ann.
              call (WriteFile (out_path @ ''/'' @ ann_filename yang_filename) ann)))))"

definition tailf_ann_stmt :: "('w, 'n, 'i) yin_tools \<Rightarrow> ann_opts \<Rightarrow> string \<Rightarrow> string \<Rightarrow> unit yang_prog" where
  "tailf_ann_stmt t opts out_path yang_file =
     io_bind confd_dir (\<lambda>dir.
     let (yang_path, yang_filename) = yang_paths yang_file
     in io_bind (ask en_str (pyang_yin yang_path dir yang_file)) (\<lambda>yin.
        let w = yt_parse t (to_soup yin)
        in if yt_kind t w = NoRoot then call WriteStderr
           else io_bind (ask en_str Today) (\<lambda>date.
                io_bind (io_of (ann_template t date (base_name yang_filename) w)) (\<lambda>template.
                io_bind (io_of (ann_trees t opts template w)) (write_trees t yang_path dir out_path yang_filename)))))"

text \<open>\<open>os.environ\<close> without the test, and what is before the last slash of the file, or the file itself.\<close>

definition tailf_sanitize_main :: "('w, 'n, 'i) yin_tools \<Rightarrow> string \<Rightarrow> unit yang_prog" where
  "tailf_sanitize_main t yang_file =
     io_bind (ask en_str (EnvGet ''CONFD_DIR'')) (\<lambda>dir.
     let yang_path = (case rsplit1 (CHR ''/'') yang_file of (None, s) \<Rightarrow> s | (Some d, _) \<Rightarrow> d)
     in io_bind (ask en_str (pyang_yin yang_path dir yang_file)) (\<lambda>yin.
        let w = tailf_sanitize (yt_soup t) (yt_tailf_import t) (yt_parse t (py_replace ''tailf:'' ''tailf_prefix_'' yin))
        in io_bind (ask en_str (pyang_yang [] yang_path dir (yt_print t w))) (\<lambda>yang. call (PrintText (yang @ [CHR 0x0D])))))"

text \<open>
  \<open>tailf_info_path\<close>: the metadata that are appended are those of \<open>tag_yang\<close>; the tree with them is a parameter.
\<close>

definition tailf_info_path ::
  "(string \<Rightarrow> 'n tag_doc) \<Rightarrow> (string \<Rightarrow> 'n metadata list \<Rightarrow> string) \<Rightarrow> string \<Rightarrow> unit yang_prog" where
  "tailf_info_path parse print_with yang_file =
     io_bind confd_dir (\<lambda>dir.
     let (yang_path, yang_filename) = yang_paths yang_file
     in io_bind (ask en_str (pyang_yin yang_path (dir @ ''/src/confd/yang'') yang_file)) (\<lambda>yin.
        io_bind (io_of (tag_yang (parse (tag_to_soup yin)))) (\<lambda>mds.
        io_bind (ask en_str (pyang_yang [] yang_path dir (tag_from_soup (print_with (tag_to_soup yin) mds)))) (\<lambda>yang.
          call (PrintText (yang @ ''\<newline>''))))))"

section \<open>Effects\<close>

fun yang_effect :: "yang_event \<Rightarrow> bool" where
  "yang_effect (RunPyang _ _) = True"
| "yang_effect (MakeDirs _) = True"
| "yang_effect (WriteFile _ _) = True"
| "yang_effect (PrintText _) = True"
| "yang_effect _ = False"

lemma pyang_effect [simp]: "yang_effect (pyang_yin a b c)" "yang_effect (pyang_yang fl a b c)"
  by (simp_all add: pyang_yin_def pyang_yang_def)

text \<open>What has to happen for given trees, and for given answers of the environment.\<close>

definition write_effects ::
  "('w, 'n, 'i) yin_tools \<Rightarrow> string \<Rightarrow> string \<Rightarrow> string \<Rightarrow> string \<Rightarrow> 'w \<times> ('n, 'i) ann_module option \<Rightarrow> string \<Rightarrow> string \<Rightarrow>
     yang_event list" where
  "write_effects t yang_path dir out_path yang_filename trees yang ann =
     [pyang_yang [] yang_path dir (from_soup (yt_print t (fst trees))), MakeDirs out_path,
      WriteFile (out_path @ ''/'' @ yang_filename) yang] @
     (case snd trees of
        None \<Rightarrow> []
      | Some m \<Rightarrow> [pyang_yang [''--ignore-error=UNUSED_IMPORT''] yang_path dir (ann_from_soup (yt_print_ann t m)),
                  WriteFile (out_path @ ''/'' @ ann_filename yang_filename) ann])"

definition module_effects ::
  "('w, 'n, 'i) yin_tools \<Rightarrow> ann_opts \<Rightarrow> string \<Rightarrow> string \<Rightarrow> string \<Rightarrow> string \<Rightarrow> 'w \<Rightarrow> string \<Rightarrow> string \<Rightarrow> string \<Rightarrow> yang_event list" where
  "module_effects t opts yang_path dir out_path yang_filename w date yang ann =
     (case rbind (ann_template t date (base_name yang_filename) w) (\<lambda>template. ann_trees t opts template w) of
        Inl e \<Rightarrow> []
      | Inr trees \<Rightarrow> write_effects t yang_path dir out_path yang_filename trees yang ann)"

record answers =
  aw_dir :: string
  aw_yin :: string
  aw_date :: string
  aw_yang :: string
  aw_ann :: string

definition ann_effects :: "('w, 'n, 'i) yin_tools \<Rightarrow> ann_opts \<Rightarrow> string \<Rightarrow> string \<Rightarrow> answers \<Rightarrow> yang_event list" where
  "ann_effects t opts out_path yang_file a =
     (let (yang_path, yang_filename) = yang_paths yang_file;
          w = yt_parse t (to_soup (aw_yin a))
      in pyang_yin yang_path (aw_dir a) yang_file #
         (if yt_kind t w = NoRoot then []
          else module_effects t opts yang_path (aw_dir a) out_path yang_filename w (aw_date a) (aw_yang a) (aw_ann a)))"

section \<open>Lemmas\<close>

lemma confd_dir_silent: "silent en yang_effect confd_dir h"
  unfolding confd_dir_def by (intro silent_intros) simp_all

lemma io_of_simps:
  "io_bind (io_of (Inr a)) f = f a" "io_bind (io_of (Inl e)) f = io_raise e"
  by (simp_all add: io_bind_def io_of_def io_ret_def io_raise_def fun_eq_iff)

lemma write_trees_emits:
  "\<exists>yang ann. emits en yang_effect (write_trees t yang_path dir out_path yang_filename trees) h
     (write_effects t yang_path dir out_path yang_filename trees yang ann)"
proof -
  obtain w am where trees: "trees = (w, am)" by (cases trees)
  let ?ann_call = "\<lambda>m. pyang_yang [''--ignore-error=UNUSED_IMPORT''] yang_path dir (ann_from_soup (yt_print_ann t m))"
  let ?file = "\<lambda>ann. WriteFile (out_path @ ''/'' @ ann_filename yang_filename) ann"
  let ?last = "case am of None \<Rightarrow> io_ret () | Some m \<Rightarrow> io_bind (ask en_str (?ann_call m)) (\<lambda>ann. call (?file ann))"
  let ?L = "\<lambda>ann. case am of None \<Rightarrow> [] | Some m \<Rightarrow> [?ann_call m, ?file ann]"
  have last: "\<exists>ann. emits en yang_effect ?last h1 (?L ann)" for h1
  proof (cases am)
    case None
    then show ?thesis by (simp add: emits_ret)
  next
    case (Some m)
    have "\<exists>ann (x::unit). emits en yang_effect (io_bind (ask en_str (?ann_call m)) (\<lambda>ann. call (?file ann))) h1 (?ann_call m # [?file ann])"
      by (rule emits_ask_vis) (auto intro: emits_one)
    with Some show ?thesis by simp
  qed
  let ?dirs = "\<lambda>yang. [MakeDirs out_path, WriteFile (out_path @ ''/'' @ yang_filename) yang]"
  have files: "\<exists>ann. emits en yang_effect (io_then (calls (?dirs yang)) ?last) h1 (?dirs yang @ ?L ann)" for yang h1
    by (rule emits_calls_then) (use last in simp_all)
  have "\<exists>yang ann. emits en yang_effect (write_trees t yang_path dir out_path yang_filename trees) h
      (pyang_yang [] yang_path dir (from_soup (yt_print t w)) # (?dirs yang @ ?L ann))"
    unfolding write_trees_def trees prod.case by (rule emits_ask_vis) (use files in auto)
  then show ?thesis unfolding write_effects_def trees by simp
qed

lemma ann_trees_emits:
  "\<exists>yang ann. emits en yang_effect
    (io_bind (io_of (ann_template t date (base_name yang_filename) w)) (\<lambda>template.
     io_bind (io_of (ann_trees t opts template w)) (write_trees t yang_path dir out_path yang_filename))) h1
    (module_effects t opts yang_path dir out_path yang_filename w date yang ann)"
proof (cases "rbind (ann_template t date (base_name yang_filename) w) (\<lambda>template. ann_trees t opts template w)")
  case (Inl e)
  then have "io_bind (io_of (ann_template t date (base_name yang_filename) w)) (\<lambda>template.
     io_bind (io_of (ann_trees t opts template w)) (write_trees t yang_path dir out_path yang_filename)) = io_raise e"
    by (auto simp: rbind_eq_Inl_iff io_of_simps)
  then show ?thesis by (simp add: emits_raise)
next
  case (Inr trees)
  then have "io_bind (io_of (ann_template t date (base_name yang_filename) w)) (\<lambda>template.
     io_bind (io_of (ann_trees t opts template w)) (write_trees t yang_path dir out_path yang_filename)) =
     write_trees t yang_path dir out_path yang_filename trees"
    by (auto simp: rbind_eq_Inr_iff io_of_simps)
  moreover obtain yang ann where "emits en yang_effect (write_trees t yang_path dir out_path yang_filename trees) h1
      (write_effects t yang_path dir out_path yang_filename trees yang ann)"
    using write_trees_emits by blast
  ultimately show ?thesis using Inr by (auto simp: module_effects_def)
qed

lemma tailf_ann_stmt_emits:
  "\<exists>a. emits en yang_effect (tailf_ann_stmt t opts out_path yang_file) h (ann_effects t opts out_path yang_file a)"
proof -
  obtain yang_path yang_filename where p: "yang_paths yang_file = (yang_path, yang_filename)" by (cases "yang_paths yang_file")
  let ?w = "\<lambda>yin. yt_parse t (to_soup yin)"
  let ?after = "\<lambda>dir yin. if yt_kind t (?w yin) = NoRoot then call WriteStderr
      else io_bind (ask en_str Today) (\<lambda>date.
           io_bind (io_of (ann_template t date (base_name yang_filename) (?w yin))) (\<lambda>template.
           io_bind (io_of (ann_trees t opts template (?w yin))) (write_trees t yang_path dir out_path yang_filename)))"
  let ?L = "\<lambda>dir yin x. if yt_kind t (?w yin) = NoRoot then []
      else module_effects t opts yang_path dir out_path yang_filename (?w yin) (fst x) (fst (snd x)) (snd (snd x))"
  have after: "\<exists>x. emits en yang_effect (?after dir yin) h1 (?L dir yin x)" for dir yin h1
  proof (cases "yt_kind t (?w yin) = NoRoot")
    case True
    then show ?thesis by (simp add: silent_call)
  next
    case False
    have "\<exists>x. emits en yang_effect
      (io_bind (ask en_str Today) (\<lambda>date. io_bind (io_of (ann_template t date (base_name yang_filename) (?w yin))) (\<lambda>template.
       io_bind (io_of (ann_trees t opts template (?w yin))) (write_trees t yang_path dir out_path yang_filename)))) h1
      (module_effects t opts yang_path dir out_path yang_filename (?w yin) (fst x) (fst (snd x)) (snd (snd x)))"
    proof (rule emits_ask_ex)
      show "\<exists>x. emits en yang_effect (io_bind (io_of (ann_template t date (base_name yang_filename) (?w yin))) (\<lambda>template.
         io_bind (io_of (ann_trees t opts template (?w yin))) (write_trees t yang_path dir out_path yang_filename))) h2
        (module_effects t opts yang_path dir out_path yang_filename (?w yin) (fst x) (fst (snd x)) (snd (snd x)))" for date h2
        using ann_trees_emits [of en t date yang_filename "?w yin" opts yang_path dir out_path h2] by fastforce
    qed simp
    with False show ?thesis by (simp only: if_False simp_thms)
  qed
  have dir: "\<exists>y. emits en yang_effect (io_bind (ask en_str (pyang_yin yang_path dir yang_file)) (?after dir)) h1
      (pyang_yin yang_path (fst y) yang_file # ?L (fst y) (fst (snd y)) (snd (snd y)))" for dir h1
  proof -
    have "\<exists>yin x. emits en yang_effect (io_bind (ask en_str (pyang_yin yang_path dir yang_file)) (?after dir)) h1
        (pyang_yin yang_path dir yang_file # ?L dir yin x)"
      by (rule emits_ask_vis) (use after in auto)
    then obtain yin x where "emits en yang_effect (io_bind (ask en_str (pyang_yin yang_path dir yang_file)) (?after dir)) h1
        (pyang_yin yang_path dir yang_file # ?L dir yin x)" by blast
    then show ?thesis by (intro exI [of _ "(dir, yin, x)"]) (simp only: fst_conv snd_conv)
  qed
  have "\<exists>y. emits en yang_effect (tailf_ann_stmt t opts out_path yang_file) h
      (pyang_yin yang_path (fst y) yang_file # ?L (fst y) (fst (snd y)) (snd (snd y)))"
    unfolding tailf_ann_stmt_def p prod.case Let_def by (rule emits_bind_ex [OF confd_dir_silent]) (rule dir)
  then obtain y where y: "emits en yang_effect (tailf_ann_stmt t opts out_path yang_file) h
      (pyang_yin yang_path (fst y) yang_file # ?L (fst y) (fst (snd y)) (snd (snd y)))" ..
  show ?thesis
    by (rule exI [of _ "\<lparr>aw_dir = fst y, aw_yin = fst (snd y), aw_date = fst (snd (snd y)), aw_yang = fst (snd (snd (snd y))),
          aw_ann = snd (snd (snd (snd y)))\<rparr>"])
       (unfold ann_effects_def p Let_def prod.case answers.select_convs, rule y)
qed

section \<open>Correctness\<close>


definition example_tools :: "(nat \<Rightarrow> bool, nat, string) yin_tools" where
  "example_tools =
     \<lparr>yt_soup = example_soup, yt_parse = (\<lambda>_ n. n < 2), yt_print = (\<lambda>_. ''<module/>''), yt_kind = (\<lambda>_. IsModule),
      yt_namespace = (\<lambda>_. Inr ''urn:m''), yt_prefix = (\<lambda>_. Inr ''m''), yt_attrs = (\<lambda>_. [(''yname'', ''m'')]),
      yt_imports = (\<lambda>_. [(''tailf-common'', ''tailf'')]), yt_tailf_import = (\<lambda>_. None), yt_tailf_types = (\<lambda>_. []),
      yt_print_ann = (\<lambda>_. ''<ann/>'')\<rparr>"

text \<open>An environment in which pyang prints nothing, as it does when it fails.\<close>

definition failing_pyang :: "yang_event env" where
  "failing_pyang = \<lparr>en_fail = (\<lambda>_. None), en_bool = (\<lambda>_. True), en_num = (\<lambda>_. 0), en_str = (\<lambda>_. [])\<rparr>"

lemma ann_stmt_returns: "snd (tailf_ann_stmt example_tools must_opts ''.'' ''m.yang'' failing_pyang []) = Ret ()"
  by code_simp


text \<open>
  The result of pyang is written without a look at its return code: when pyang fails and prints nothing, a module in the output directory
  is replaced by an empty file.
\<close>

theorem failing_pyang_empties_module:
  "WriteFile ''./m.yang'' [] \<in> set (fst (tailf_ann_stmt example_tools must_opts ''.'' ''m.yang'' failing_pyang []))"
  by code_simp

end
