(* ===== verification/Yin_Annotate.thy ===== *)
theory Yin_Annotate
  imports Py_Prelude
begin

text \<open>
  The tool \<open>ann2ann-stmt/app/yin_ann_stmt.py\<close>, which rewrites annotations by path (\<open>tailf:annotate\<close>) to nested annotations by statement
  (\<open>tailf:annotate-statement\<close>). The module is only read: a tag of it is the list of what the tool reads of the tag itself, its
  parent, and so on up to the document. What the tool appends to a tag is a list of new tags. Searching the module is the
  parameter \<open>module_soup\<close>.
\<close>

section \<open>Tags\<close>

record mtag =
  mt_name :: string
  mt_yname :: "string option"
  mt_target_node :: "string option"

type_synonym mnode = "mtag list"

record module_soup =
  ms_find_yname :: "string \<Rightarrow> mnode list"
  ms_find_uses :: "string \<Rightarrow> mnode list"

text \<open>The children of an annotation, and the tags that the tool makes. The marks for choices are removed at the end.\<close>

datatype 'c ann_item = Other 'c | Nested string "'c ann_item list"

datatype 'c ann_tag =
    AnnStmt string "'c ann_tag list"
  | RemoveNext string "'c ann_tag list"
  | Content 'c
  | Conflict nat nat "'c ann_tag list"
  | Skipped string

definition attr :: "string option \<Rightarrow> string result" where
  "attr v = (case v of None \<Rightarrow> Inl KeyError | Some s \<Rightarrow> Inr s)"

definition named_path :: "string \<Rightarrow> string \<Rightarrow> string" where
  "named_path name v = name @ ''[name='' @ [CHR 0x27] @ v @ [CHR 0x27] @ '']''"

definition last_part :: "char \<Rightarrow> string \<Rightarrow> string" where
  "last_part c s = last (py_split c s)"

definition parent_stmt :: "mtag \<Rightarrow> 'c ann_tag list \<Rightarrow> 'c ann_tag result" where
  "parent_stmt p ts = rbind (attr (mt_yname p)) (\<lambda>y. Inr (AnnStmt (named_path (mt_name p) y) ts))"

section \<open>One step up the path\<close>

text \<open>
  The test for a choice without a case: the parent is the choice of this tag, the node itself is, or the parent is the choice of the next tag.
  The tags of the path that are left have the next one first.
\<close>

definition choice_test :: "string list \<Rightarrow> string \<Rightarrow> mtag \<Rightarrow> mtag \<Rightarrow> bool result" where
  "choice_test tags tag_name s p =
     rbind (if mt_name p = ''choice'' then rbind (attr (mt_yname p)) (\<lambda>y. Inr (y = tag_name)) else Inr False) (\<lambda>b1.
     rbind (if b1 then Inr True
            else if mt_name s = ''choice'' then rbind (attr (mt_yname s)) (\<lambda>y. Inr (y = tag_name)) else Inr False) (\<lambda>b2.
     rbind (if b2 then Inr True
            else if mt_name p = ''choice'' \<and> tags \<noteq> [] then rbind (attr (mt_yname p)) (\<lambda>y. Inr (y = last_part (CHR '':'') (hd tags)))
            else Inr False) (\<lambda>b3. Inr (b3 \<and> mt_name s \<noteq> ''case''))))"

text \<open>Whether a grouping is used below the tag.\<close>

fun uses_found :: "string \<Rightarrow> mnode list \<Rightarrow> bool result" where
  "uses_found tag_name [] = Inr False"
| "uses_found tag_name (un # us) =
     (case un of
        _ # up # _ \<Rightarrow>
          if mt_yname up \<noteq> None \<and> mt_name up \<noteq> ''grouping'' then
            (if mt_yname up = Some tag_name then Inr True else uses_found tag_name us)
          else
            (case mt_target_node up of
               Some t \<Rightarrow> if last_part (CHR '':'') (last_part (CHR ''/'') t) = tag_name then Inr True else uses_found tag_name us
             | None \<Rightarrow> Inr True)
      | _ \<Rightarrow> Inl AttributeError)"

text \<open>The four ways of a node that is not at a choice.\<close>

definition plain_step ::
  "module_soup \<Rightarrow> string \<Rightarrow> mtag \<Rightarrow> mnode \<Rightarrow> 'c ann_tag \<Rightarrow> ((mnode \<times> 'c ann_tag) list \<times> 'c ann_tag list) result" where
  "plain_step ms tag_name p rest ann =
     (if mt_yname p = Some tag_name then Inr ([(p # rest, AnnStmt (named_path (mt_name p) tag_name) [ann])], [])
      else if mt_name p = ''grouping'' then
        rbind (attr (mt_yname p)) (\<lambda>py.
          rbind (if ms_find_uses ms py = [] then Inr True else uses_found tag_name (ms_find_uses ms py)) (\<lambda>found.
            Inr ([], if found then [AnnStmt (named_path (mt_name p) py) [ann]] else [])))
      else if mt_name p = ''augment'' then
        rbind (attr (mt_target_node p)) (\<lambda>t.
          Inr ([], if last_part (CHR '':'') (last_part (CHR ''/'') t) = tag_name
                   then [AnnStmt (named_path (mt_name p) t) [ann]] else []))
      else Inr ([], []))"

text \<open>
  One node with the annotation that it has so far: the node one level up with its new annotation, if the node is kept, the annotations that
  are finished, the tags that are left and the name that the next nodes are compared with.
\<close>

definition choice_step ::
  "string list \<Rightarrow> string \<Rightarrow> mtag \<Rightarrow> mtag \<Rightarrow> mnode \<Rightarrow> 'c ann_tag \<Rightarrow>
     ((mnode \<times> 'c ann_tag) list \<times> 'c ann_tag list \<times> string list \<times> string) result" where
  "choice_step tags tag_name s p rest ann =
     rbind (attr (mt_yname p)) (\<lambda>py.
       if mt_name p = ''choice'' \<and> py = tag_name then
         rbind (attr (mt_yname s)) (\<lambda>sy.
           Inr ([(p # rest, AnnStmt (named_path (mt_name p) py) [RemoveNext sy [ann]])], [], tags, tag_name))
       else
         (case tags of
            [] \<Rightarrow> Inl IndexError
          | t # ts \<Rightarrow> Inr ([(p # rest, AnnStmt (named_path (mt_name p) py) [ann])], [], ts, last_part (CHR '':'') t)))"

definition own_step ::
  "module_soup \<Rightarrow> string list \<Rightarrow> string \<Rightarrow> mnode \<times> 'c ann_tag \<Rightarrow>
     ((mnode \<times> 'c ann_tag) list \<times> 'c ann_tag list \<times> string list \<times> string) result" where
  "own_step ms tags tag_name = (\<lambda>(node, ann).
     case node of
       s # p # rest \<Rightarrow>
         rbind (choice_test tags tag_name s p) (\<lambda>choice.
           if choice then choice_step tags tag_name s p rest ann
           else rbind (plain_step ms tag_name p rest ann) (\<lambda>(kept, tmp). Inr (kept, tmp, tags, tag_name)))
     | _ \<Rightarrow> Inl AttributeError)"

fun own_loop ::
  "module_soup \<Rightarrow> string list \<Rightarrow> string \<Rightarrow> (mnode \<times> 'c ann_tag) list \<Rightarrow>
     ((mnode \<times> 'c ann_tag) list \<times> 'c ann_tag list \<times> string list) result" where
  "own_loop ms tags tag_name [] = Inr ([], [], tags)"
| "own_loop ms tags tag_name (x # xs) =
     rbind (own_step ms tags tag_name x) (\<lambda>(kept, tmp, tags1, name1).
     rbind (own_loop ms tags1 name1 xs) (\<lambda>(kept', tmp', tags2). Inr (kept @ kept', tmp @ tmp', tags2)))"

text \<open>A tag of another module: what is left of the path is given up.\<close>

definition foreign_step :: "mnode \<times> 'c ann_tag \<Rightarrow> (mnode \<times> 'c ann_tag) list result" where
  "foreign_step = (\<lambda>(node, ann).
     case node of
       [] \<Rightarrow> Inr [(node, ann)]
     | s # up \<Rightarrow>
         if mt_yname s \<noteq> None \<and> mt_name s \<noteq> ''grouping'' then
           (case up of
              [] \<Rightarrow> Inl AttributeError
            | p # _ \<Rightarrow>
                if mt_name p \<in> {''grouping'', ''augment''} then
                  (case mt_target_node p of
                     Some t \<Rightarrow> Inr [(node, AnnStmt (named_path (mt_name p) t) [ann])]
                   | None \<Rightarrow> rbind (parent_stmt p [ann]) (\<lambda>a. Inr [(node, a)]))
                else if mt_name p \<noteq> ''module'' then Inr []
                else Inr [(node, ann)])
         else Inr [(node, ann)])"

lemma choice_step_tags: "choice_step tags tag_name s p rest ann = Inr (kept, tmp, tags1, name1) \<Longrightarrow> length tags1 \<le> length tags"
  by (cases tags) (auto simp: choice_step_def rbind_eq_Inr_iff split: if_splits)

lemma own_step_tags:
  assumes "own_step ms tags tag_name x = Inr (kept, tmp, tags1, name1)"
  shows "length tags1 \<le> length tags"
proof -
  obtain node ann where x: "x = (node, ann)" by force
  with assms obtain s p rest where "node = s # p # rest"
    by (cases node; cases "tl node") (auto simp: own_step_def)
  with assms x choice_step_tags show ?thesis
    by (auto simp: own_step_def rbind_eq_Inr_iff split: if_splits)
qed

lemma own_loop_tags: "own_loop ms tags tag_name xs = Inr (kept, tmp, tags1) \<Longrightarrow> length tags1 \<le> length tags"
proof (induction xs arbitrary: tags tag_name kept tmp)
  case (Cons x xs)
  then obtain k t tags' n' k' t' where
    step: "own_step ms tags tag_name x = Inr (k, t, tags', n')" and rest: "own_loop ms tags' n' xs = Inr (k', t', tags1)"
    by (auto simp: rbind_eq_Inr_iff)
  from own_step_tags [OF step] Cons.IH [OF rest] show ?case by (rule order_trans [rotated])
qed simp

section \<open>The whole path\<close>

function path_loop ::
  "module_soup \<Rightarrow> string \<Rightarrow> string list \<Rightarrow> (mnode \<times> 'c ann_tag) list \<Rightarrow> 'c ann_tag list \<Rightarrow>
     ((mnode \<times> 'c ann_tag) list \<times> 'c ann_tag list) result" where
  "path_loop ms module_prefix [] pairs tmp = Inr (pairs, tmp)"
| "path_loop ms module_prefix (t # tags) pairs tmp =
     (if hd (py_split (CHR '':'') t) = module_prefix then
        (case own_loop ms tags (last_part (CHR '':'') t) pairs of
           Inl e \<Rightarrow> Inl e
         | Inr (pairs', tmp', tags') \<Rightarrow> path_loop ms module_prefix tags' pairs' (tmp @ tmp'))
      else if tags \<noteq> [] then rbind (map_result foreign_step pairs) (\<lambda>ps. Inr (concat ps, tmp))
      else Inr (pairs, tmp))"
  by pat_completeness auto
termination
proof (relation "measure (\<lambda>(ms, pfx, tags, pairs, tmp). length tags)", goal_cases)
  case (2 ms pfx t tags pairs tmp x pairs' y tmp' tags')
  then have "own_loop ms tags (last_part (CHR '':'') t) pairs = Inr (pairs', tmp', tags')" by simp
  from own_loop_tags [OF this] show ?case by simp
qed simp

text \<open>The end: several annotations are marked as conflicts, and without one the path is noted as skipped.\<close>

definition finish :: "string \<Rightarrow> 'c ann_tag list \<Rightarrow> 'c ann_tag list" where
  "finish ann_path nodes =
     (case nodes of
        [] \<Rightarrow> [Skipped ann_path]
      | [n] \<Rightarrow> [n]
      | _ \<Rightarrow> map (\<lambda>(i, n). Conflict (i + 1) (length nodes) [n]) (enumerate 0 nodes))"

definition split_path :: "string \<Rightarrow> string list" where
  "split_path ann_path = (let ts = py_split (CHR ''/'') ann_path in if hd ts = [] then tl ts else ts)"

text \<open>
  The content of an annotation goes below every statement that has the last name of its path. A nested annotation is removed from the document when
  it is handled, so that it is there for the first of these statements only.
\<close>

fun item_content :: "'c ann_item \<Rightarrow> 'c ann_tag list" where
  "item_content (Other c) = [Content c]"
| "item_content (Nested t is) = []"

fun start_pairs :: "'c ann_tag list \<Rightarrow> 'c ann_tag list \<Rightarrow> mnode list \<Rightarrow> (mnode \<times> 'c ann_tag) list result" where
  "start_pairs first others [] = Inr []"
| "start_pairs first others (n # ns) =
     (case n of
        [] \<Rightarrow> Inl AttributeError
      | s # _ \<Rightarrow>
          rbind (attr (mt_yname s)) (\<lambda>y.
          rbind (start_pairs others others ns) (\<lambda>rest. Inr ((n, AnnStmt (named_path (mt_name s) y) first) # rest))))"

fun handle_annotate_node :: "module_soup \<Rightarrow> string \<Rightarrow> string \<Rightarrow> 'c ann_item list \<Rightarrow> 'c ann_tag list result" where
  "handle_annotate_node ms module_prefix ann_path items =
     (case rev (split_path ann_path) of
        [] \<Rightarrow> Inl IndexError
      | t # tags \<Rightarrow>
          (let nodes = ms_find_yname ms (last_part (CHR '':'') t)
           in rbind (if nodes = [] then Inr []
                     else map_result (\<lambda>i. case i of Other c \<Rightarrow> Inr [Content c]
                            | Nested t' is \<Rightarrow> handle_annotate_node ms module_prefix t' is) items) (\<lambda>contents.
              rbind (start_pairs (concat contents) (concat (map item_content items)) nodes) (\<lambda>pairs.
              rbind (path_loop ms module_prefix tags pairs []) (\<lambda>(pairs', tmp).
                Inr (finish ann_path (map snd pairs' @ tmp)))))))"

text \<open>Removing the marks for choices: the mark goes, and with it the tag inside it, whose content stays.\<close>

fun unwrap_tags :: "'c ann_tag \<Rightarrow> 'c ann_tag list" where
  "unwrap_tags (AnnStmt p ts) = [AnnStmt p (concat (map unwrap_tags ts))]"
| "unwrap_tags (RemoveNext y ts) =
     concat (map (\<lambda>t. case t of AnnStmt p us \<Rightarrow> concat (map unwrap_tags us) | _ \<Rightarrow> unwrap_tags t) ts)"
| "unwrap_tags (Conflict i n ts) = [Conflict i n (concat (map unwrap_tags ts))]"
| "unwrap_tags (Content c) = [Content c]"
| "unwrap_tags (Skipped s) = [Skipped s]"

definition trim_yin :: "module_soup \<Rightarrow> string \<Rightarrow> (string \<times> 'c ann_item list) list \<Rightarrow> 'c ann_tag list result" where
  "trim_yin ms module_prefix anns =
     rbind (map_result (\<lambda>(t, items). handle_annotate_node ms module_prefix t items) anns) (\<lambda>ts.
       Inr (concat (map unwrap_tags (concat ts))))"

section \<open>Modules of plain statements\<close>

text \<open>
  A tag with no choice, grouping or augment above it. The document at the end has no name, and the tag is not the document.
\<close>

definition plain_chain :: "mnode \<Rightarrow> bool" where
  "plain_chain node \<longleftrightarrow> list_all (\<lambda>m. mt_name m \<notin> {''choice'', ''grouping'', ''augment''}) node \<and>
     length node \<ge> 2 \<and> mt_yname (last node) = None"

text \<open>The names above a tag, the nearest first, and the annotation of the tag below the annotations of the tags above it.\<close>

fun above :: "string list \<Rightarrow> mnode \<Rightarrow> bool" where
  "above [] node = True"
| "above (n # ns) (s # p # rest) = (mt_yname p = Some n \<and> above ns (p # rest))"
| "above _ _ = False"

fun wrapped :: "string list \<Rightarrow> mnode \<Rightarrow> 'c ann_tag \<Rightarrow> 'c ann_tag" where
  "wrapped (n # ns) (s # p # rest) ann = wrapped ns (p # rest) (AnnStmt (named_path (mt_name p) n) [ann])"
| "wrapped _ node ann = ann"

lemma plain_chain_cases:
  assumes "plain_chain node"
  obtains s p rest where "node = s # p # rest" and "mt_name s \<notin> {''choice'', ''grouping'', ''augment''}"
    and "mt_name p \<notin> {''choice'', ''grouping'', ''augment''}" and "mt_yname p \<noteq> None \<longrightarrow> plain_chain (p # rest)"
proof -
  from assms obtain s p rest where node: "node = s # p # rest"
    by (cases node; cases "tl node") (auto simp: plain_chain_def)
  moreover have "rest \<noteq> []" if "mt_yname p \<noteq> None" using assms that by (auto simp: plain_chain_def node)
  ultimately show thesis using assms that by (auto simp: plain_chain_def Suc_le_eq split: if_splits)
qed

text \<open>One level up, for one node.\<close>

definition up :: "string \<Rightarrow> mnode \<times> 'c ann_tag \<Rightarrow> (mnode \<times> 'c ann_tag) list" where
  "up n = (\<lambda>(node, ann). if above [n] node then [(tl node, wrapped [n] node ann)] else [])"

lemma own_loop_plain:
  "list_all (\<lambda>x. plain_chain (fst x)) pairs \<Longrightarrow> own_loop ms tags n pairs = Inr (concat (map (up n) pairs), [], tags)"
proof (induction pairs)
  case (Cons x pairs)
  obtain node ann where x: "x = (node, ann)" by force
  with Cons.prems have "plain_chain node" by simp
  then obtain s p rest where node: "node = s # p # rest" "mt_name s \<notin> {''choice'', ''grouping'', ''augment''}"
      "mt_name p \<notin> {''choice'', ''grouping'', ''augment''}"
    by (rule plain_chain_cases)
  then have "choice_test tags n s p = Inr False" by (simp add: choice_test_def)
  with node have "own_step ms tags n x = Inr (up n x, [], tags, n)"
    by (simp add: x own_step_def plain_step_def up_def)
  with Cons show ?case by simp
qed simp

lemma up_plain: "list_all (\<lambda>x. plain_chain (fst x)) pairs \<Longrightarrow> list_all (\<lambda>x. plain_chain (fst x)) (concat (map (up n) pairs))"
proof (induction pairs)
  case (Cons x pairs)
  obtain node ann where x: "x = (node, ann)" by force
  from Cons.prems have "plain_chain node" by (simp add: x)
  then obtain s p rest where "node = s # p # rest" "mt_yname p \<noteq> None \<longrightarrow> plain_chain (p # rest)"
    by (rule plain_chain_cases) blast
  with Cons show ?case by (simp add: x up_def)
qed simp

definition climb :: "string list \<Rightarrow> mnode \<times> 'c ann_tag \<Rightarrow> (mnode \<times> 'c ann_tag) list" where
  "climb ns = (\<lambda>(node, ann). if above ns node then [(drop (length ns) node, wrapped ns node ann)] else [])"

lemma climb_Cons: "concat (map (climb ns) (up n x)) = climb (n # ns) x"
proof -
  obtain node ann where x: "x = (node, ann)" by force
  show ?thesis by (cases node; cases "tl node") (simp_all add: x climb_def up_def)
qed

lemma path_loop_plain:
  assumes "list_all (\<lambda>t. hd (py_split (CHR '':'') t) = pfx) tags" and "list_all (\<lambda>x. plain_chain (fst x)) pairs"
  shows "path_loop ms pfx tags pairs tmp = Inr (concat (map (climb (map (last_part (CHR '':'')) tags)) pairs), tmp)"
  using assms
proof (induction tags arbitrary: pairs tmp)
  case Nil
  have "concat (map (climb []) pairs) = pairs" by (induction pairs) (auto simp: climb_def)
  then show ?case by simp
next
  case (Cons t tags)
  let ?n = "last_part (CHR '':'') t" and ?ns = "map (last_part (CHR '':'')) tags"
  have "concat (map (climb ?ns) (concat (map (up ?n) pairs))) = concat (map (climb (?n # ?ns)) pairs)"
    by (induction pairs) (simp_all add: climb_Cons)
  with Cons.IH [of "concat (map (up ?n) pairs)" tmp] Cons.prems own_loop_plain [OF Cons.prems(2), of ms tags ?n] up_plain [OF Cons.prems(2), of ?n]
  show ?case by simp
qed

lemma start_pairs_named:
  assumes "list_all (\<lambda>node. node \<noteq> [] \<and> mt_yname (hd node) = Some y) nodes"
  shows "start_pairs c c nodes = Inr (map (\<lambda>node. (node, AnnStmt (named_path (mt_name (hd node)) y) c)) nodes)"
  using assms by (induction nodes) (auto simp: neq_Nil_conv attr_def)

section \<open>Properties\<close>

text \<open>
  C29. An annotation whose path is in the module, for a module of plain statements: exactly the statements with the last name of the path whose
  parents have the other names, in order, get the annotation, nested in the annotations of these parents; and the result is
  the annotation, a list of conflicts, or a note that the path was skipped, as there are one, several or no such statements.
\<close>

theorem annotation_by_path:
  assumes "rev (split_path ann_path) = t # tags" and "list_all (\<lambda>t. hd (py_split (CHR '':'') t) = pfx) tags"
    and "list_all (\<lambda>node. plain_chain node \<and> mt_yname (hd node) = Some (last_part (CHR '':'') t)) (ms_find_yname ms (last_part (CHR '':'') t))"
  shows "handle_annotate_node ms pfx ann_path (map Other cs) =
     Inr (finish ann_path
       (map (\<lambda>node. wrapped (map (last_part (CHR '':'')) tags) node
                (AnnStmt (named_path (mt_name (hd node)) (last_part (CHR '':'') t)) (map Content cs)))
         (filter (above (map (last_part (CHR '':'')) tags)) (ms_find_yname ms (last_part (CHR '':'') t)))))"
proof -
  let ?y = "last_part (CHR '':'') t" and ?ns = "map (last_part (CHR '':'')) tags"
  let ?nodes = "ms_find_yname ms ?y"
  let ?pairs = "map (\<lambda>node. (node, AnnStmt (named_path (mt_name (hd node)) ?y) (map Content cs))) ?nodes"
  have contents: "map_result (\<lambda>i. case i of Other c \<Rightarrow> Inr [Content c] | Nested t' is \<Rightarrow> handle_annotate_node ms pfx t' is) (map Other cs) =
      Inr (map (\<lambda>c. [Content c]) cs)"
    by (simp add: map_result_map map_result_Inr_map)
  have others: "concat (map item_content (map Other cs)) = map Content cs" "concat (map (\<lambda>c. [Content c]) cs) = map Content cs"
    by (induction cs) simp_all
  have pairs: "start_pairs (map Content cs) (map Content cs) ?nodes = Inr ?pairs"
    using assms(3) by (intro start_pairs_named) (auto simp: list_all_iff plain_chain_def)
  have loop: "path_loop ms pfx tags ?pairs [] = Inr (concat (map (climb ?ns) ?pairs), [])"
    using assms(2,3) by (intro path_loop_plain) (simp_all add: list_all_iff)
  have climbed: "map snd (concat (map (climb ?ns) (map (\<lambda>node. (node, f node)) nodes))) =
      map (\<lambda>node. wrapped ?ns node (f node)) (filter (above ?ns) nodes)" for f :: "mnode \<Rightarrow> 'a ann_tag" and nodes
    by (induction nodes) (simp_all add: climb_def)
  show ?thesis
  proof (cases "?nodes = []")
    case True
    then show ?thesis using assms(1) by (simp add: path_loop_plain [OF assms(2)])
  next
    case False
    then show ?thesis
      using assms(1) contents others pairs loop climbed [of "\<lambda>node. AnnStmt (named_path (mt_name (hd node)) ?y) (map Content cs)" ?nodes]
      by simp
  qed
qed

definition example_module :: module_soup where
  "example_module =
     (let tag = (\<lambda>n y. \<lparr>mt_name = n, mt_yname = y, mt_target_node = None\<rparr>);
          top = [tag ''module'' (Some ''m''), tag ''[document]'' None]
      in \<lparr>ms_find_yname = (\<lambda>y. if y = ''mtu'' then
            [tag ''leaf'' (Some ''mtu'') # tag ''container'' (Some ''sys'') # top,
             tag ''leaf'' (Some ''mtu'') # tag ''container'' (Some ''net'') # top] else []),
          ms_find_uses = (\<lambda>_. [])\<rparr>)"

lemma annotation_by_path_witness:
  "handle_annotate_node example_module ''p'' ''/p:net/p:mtu'' [Other (0 :: nat)] =
     Inr [AnnStmt (named_path ''container'' ''net'') [AnnStmt (named_path ''leaf'' ''mtu'') [Content 0]]]"
proof -
  have path: "rev (split_path ''/p:net/p:mtu'') = ''p:mtu'' # [''p:net'']" by (simp add: split_path_def Let_def)
  have own: "list_all (\<lambda>t. hd (py_split (CHR '':'') t) = ''p'') [''p:net'']" by simp
  have part: "last_part (CHR '':'') ''p:mtu'' = ''mtu''" "last_part (CHR '':'') ''p:net'' = ''net''" by (simp_all add: last_part_def)
  have nodes: "list_all (\<lambda>node. plain_chain node \<and> mt_yname (hd node) = Some (last_part (CHR '':'') ''p:mtu''))
      (ms_find_yname example_module (last_part (CHR '':'') ''p:mtu''))"
    by (simp add: part example_module_def plain_chain_def Let_def)
  from annotation_by_path [OF path own nodes, of "[0 :: nat]"] show ?thesis
    by (simp add: part example_module_def Let_def finish_def del: handle_annotate_node.simps)
qed

text \<open>
  A nested annotation reaches only the first of the statements with the last name of the outer path, although the others may be the ones
  that the path means: the annotations of all others start without it.
\<close>

theorem nested_first_only:
  assumes "list_all (\<lambda>node. node \<noteq> [] \<and> mt_yname (hd node) = Some y) (n # ns)"
  shows "start_pairs first others (n # ns) =
     Inr ((n, AnnStmt (named_path (mt_name (hd n)) y) first) #
          map (\<lambda>node. (node, AnnStmt (named_path (mt_name (hd node)) y) others)) ns)"
  using assms start_pairs_named [of y ns others] by (cases n) (auto simp: attr_def)

end
