(* ===== verification/Yin_Program.thy ===== *)
theory Yin_Program
  imports Yang_Annotate Yin_Annotate
begin

text \<open>
  The program around the conversion of annotations (\<open>trim_yin\<close> and \<open>pattern_replace\<close> of \<open>ann2ann-stmt/app/yin_ann_stmt.py\<close>), which renames attributes in the
  files of the user, in place, before it reads them and back after it has written its result. The state are the files; a step
  that fails leaves them as they are then.
\<close>

section \<open>Files\<close>

type_synonym files = "string \<Rightarrow> string option"

type_synonym 'a file_prog = "files \<Rightarrow> files \<times> 'a result"

definition fbind :: "'a file_prog \<Rightarrow> ('a \<Rightarrow> 'b file_prog) \<Rightarrow> 'b file_prog" where
  "fbind m k = (\<lambda>fs. case m fs of (fs', Inl e) \<Rightarrow> (fs', Inl e) | (fs', Inr a) \<Rightarrow> k a fs')"

text \<open>Text mode: the ends of lines become line feeds. The lines keep theirs.\<close>

fun universal_newlines :: "string \<Rightarrow> string" where
  "universal_newlines [] = []"
| "universal_newlines (c # s) =
     (if c = CHR 0x0D then CHR 0x0A # universal_newlines (if take 1 s = [CHR 0x0A] then drop 1 s else s)
      else c # universal_newlines s)"

fun keep_lines :: "string \<Rightarrow> string list" where
  "keep_lines [] = []"
| "keep_lines (c # s) =
     (if c = CHR 0x0A then [c] # keep_lines s
      else case keep_lines s of [] \<Rightarrow> [[c]] | l # ls \<Rightarrow> (c # l) # ls)"

definition read_file :: "string \<Rightarrow> string file_prog" where
  "read_file name = (\<lambda>fs. (fs, case fs name of None \<Rightarrow> Inl OSError | Some s \<Rightarrow> Inr (universal_newlines s)))"

definition write_file :: "string \<Rightarrow> string \<Rightarrow> unit file_prog" where
  "write_file name s = (\<lambda>fs. (fs(name := Some s), Inr ()))"

definition pattern_replace :: "string \<Rightarrow> string \<Rightarrow> string \<Rightarrow> unit file_prog" where
  "pattern_replace name old new =
     fbind (read_file name) (\<lambda>s. write_file name (concat (map (py_replace old new) (keep_lines s))))"

section \<open>The program\<close>

text \<open>
  The library reads the two documents, finds the prefix of the module in the annotations, and prints the result.
\<close>

record 'c yin_lib =
  yl_module :: "string \<Rightarrow> module_soup"
  yl_anns :: "string \<Rightarrow> (string \<times> 'c ann_item list) list"
  yl_prefix :: "string \<Rightarrow> string \<Rightarrow> string result"
  yl_print :: "string \<Rightarrow> string \<Rightarrow> 'c ann_tag list \<Rightarrow> string"

definition yin_name :: "string \<Rightarrow> string" where
  "yin_name file_name = last (py_split (CHR ''/'') (base_name file_name))"

definition convert :: "'c yin_lib \<Rightarrow> string \<Rightarrow> string \<Rightarrow> string \<Rightarrow> string result" where
  "convert lib name module_text ann_text =
     rbind (yl_prefix lib ann_text name) (\<lambda>module_prefix.
     rbind (trim_yin (yl_module lib module_text) module_prefix (yl_anns lib ann_text)) (\<lambda>ts.
       Inr (yl_print lib name ann_text ts)))"

definition yin_program :: "'c yin_lib \<Rightarrow> string \<Rightarrow> string \<Rightarrow> unit file_prog" where
  "yin_program lib module_file ann_file =
     fbind (pattern_replace module_file ''name='' ''yname='') (\<lambda>_.
     fbind (pattern_replace module_file ''target-node='' ''target_node='') (\<lambda>_.
     fbind (pattern_replace ann_file ''name='' ''yname='') (\<lambda>_.
     fbind (read_file module_file) (\<lambda>module_text.
     fbind (read_file ann_file) (\<lambda>ann_text.
     fbind (\<lambda>fs. (fs, convert lib (yin_name module_file) module_text ann_text)) (\<lambda>result.
     fbind (write_file (ann_file @ ''mod'') result) (\<lambda>_.
     fbind (pattern_replace module_file ''yname='' ''name='') (\<lambda>_.
     fbind (pattern_replace module_file ''target_node='' ''target-node='') (\<lambda>_.
     fbind (pattern_replace ann_file ''yname='' ''name='') (\<lambda>_.
     fbind (pattern_replace (ann_file @ ''mod'') ''yname='' ''name='') (\<lambda>_.
     fbind (pattern_replace (ann_file @ ''mod'') ''statement_path'' ''statement-path'') (\<lambda>_.
       pattern_replace (ann_file @ ''mod'') ''module_name'' ''module-name''))))))))))))"

section \<open>Replacing\<close>

text \<open>Two texts that differ wherever one is laid over the other.\<close>

fun agree :: "string \<Rightarrow> string \<Rightarrow> bool" where
  "agree (a # p) (b # q) \<longleftrightarrow> a = b \<and> agree p q"
| "agree _ _ \<longleftrightarrow> True"

fun clash :: "string \<Rightarrow> string \<Rightarrow> bool" where
  "clash p [] \<longleftrightarrow> True"
| "clash p (c # q) \<longleftrightarrow> \<not> agree p (c # q) \<and> clash p q"

lemma startswith_agree: "startswith (w @ s) p \<Longrightarrow> agree p w"
  by (induction p w rule: agree.induct) auto

lemma startswith_agree': "startswith (w @ s) p \<Longrightarrow> agree w p"
  by (induction w p rule: agree.induct) auto

lemma replace_copy:
  assumes "old \<noteq> []" and "clash old w"
  shows "py_replace old new (w @ s) = w @ py_replace old new s"
  using assms(2)
proof (induction w)
  case (Cons c w)
  have "\<not> startswith (c # w @ s) old"
    using Cons.prems startswith_agree [of "c # w" s old] by auto
  with Cons assms(1) show ?case by (simp add: py_replace_Cons)
qed simp

lemma replace_startswith:
  assumes "old \<noteq> []" and "clash new q" and "startswith (py_replace old new s) q"
  shows "startswith s q"
  using assms(2,3)
proof (induction q arbitrary: s)
  case (Cons c q)
  show ?case
  proof (cases "startswith s old")
    case True
    then obtain t where "s = old @ t" by (auto dest: startswith_exD)
    with Cons.prems assms(1) show ?thesis
      using startswith_agree' [of new "py_replace old new t" "c # q"] by (simp add: py_replace_match)
  next
    case False
    with Cons.prems(2) assms(1) obtain t where t: "s = c # t" "startswith (py_replace old new t) q"
      by (cases s) (auto simp: py_replace_Cons)
    with Cons.IH [of t] Cons.prems(1) show ?thesis by simp
  qed
qed simp

text \<open>Replacing by lines is replacing in the whole text.\<close>

lemma replace_line:
  assumes "old \<noteq> []" and "CHR 0x0A \<notin> set old"
  shows "py_replace old new (l @ CHR 0x0A # t) = py_replace old new l @ CHR 0x0A # py_replace old new t"
proof (induction "length l" arbitrary: l rule: less_induct)
  case less
  have start: "startswith (l @ CHR 0x0A # t) old \<longleftrightarrow> startswith l old"
  proof
    assume s: "startswith (l @ CHR 0x0A # t) old"
    have "length old \<le> length l"
    proof (rule ccontr)
      assume "\<not> length old \<le> length l"
      then have lt: "length l < length old" by simp
      obtain r where "l @ CHR 0x0A # t = old @ r" using s by (auto dest: startswith_exD)
      then have "(old @ r) ! length l = CHR 0x0A" by (metis nth_append_length)
      with lt have "old ! length l = CHR 0x0A" by (simp add: nth_append)
      with lt assms(2) show False by (metis nth_mem)
    qed
    with s show "startswith l old" by (simp add: startswith_def)
  qed (auto dest: startswith_exD)
  show ?case
  proof (cases "startswith l old")
    case True
    then obtain l' where l': "l = old @ l'" by (auto dest: startswith_exD)
    with less [of l'] assms(1) show ?thesis by (simp add: py_replace_match)
  next
    case False
    with start have ns: "\<not> startswith (l @ CHR 0x0A # t) old" by simp
    show ?thesis
    proof (cases l)
      case Nil
      with ns assms(1) show ?thesis by (simp add: py_replace_Cons)
    next
      case (Cons c l')
      with ns False assms(1) less [of l'] show ?thesis by (simp add: py_replace_Cons)
    qed
  qed
qed

lemma keep_lines_line: "CHR 0x0A \<notin> set l \<Longrightarrow> keep_lines (l @ CHR 0x0A # t) = (l @ [CHR 0x0A]) # keep_lines t"
  by (induction l) auto

lemma keep_lines_last: "CHR 0x0A \<notin> set l \<Longrightarrow> l \<noteq> [] \<Longrightarrow> keep_lines l = [l]"
proof (induction l)
  case (Cons c l)
  then show ?case by (cases "l = []") auto
qed simp

lemma replace_lines:
  assumes "old \<noteq> []" and "CHR 0x0A \<notin> set old"
  shows "concat (map (py_replace old new) (keep_lines s)) = py_replace old new s"
proof (induction "length s" arbitrary: s rule: less_induct)
  case less
  show ?case
  proof (cases "CHR 0x0A \<in> set s")
    case True
    then obtain l t where s: "s = l @ CHR 0x0A # t" "CHR 0x0A \<notin> set l" by (meson split_list_first)
    have "py_replace old new (l @ [CHR 0x0A]) = py_replace old new l @ [CHR 0x0A]"
      using replace_line [OF assms, of new l "[]"] assms(1) by simp
    with less [of t] s show ?thesis by (simp add: keep_lines_line replace_line [OF assms])
  next
    case False
    with assms(1) show ?thesis by (cases "s = []") (simp_all add: keep_lines_last)
  qed
qed

lemma universal_newlines_id: "CHR 0x0D \<notin> set s \<Longrightarrow> universal_newlines s = s"
  by (induction s) auto

lemma set_replace: "old \<noteq> [] \<Longrightarrow> set (py_replace old new s) \<subseteq> set new \<union> set s"
proof (induction old new s rule: py_replace.induct)
  case (1 old new s)
  show ?case
  proof (cases "startswith s old")
    case True
    with 1 have "set (py_replace old new (drop (length old) s)) \<subseteq> set new \<union> set s"
      using set_drop_subset by fastforce
    with True 1(3) show ?thesis by (subst py_replace.simps) auto
  next
    case False
    with 1 show ?thesis by (cases s) (auto simp: py_replace_Cons)
  qed
qed

section \<open>The renamed attributes\<close>

abbreviation f1 :: "string \<Rightarrow> string" where "f1 \<equiv> py_replace ''name='' ''yname=''"
abbreviation f2 :: "string \<Rightarrow> string" where "f2 \<equiv> py_replace ''target-node='' ''target_node=''"
abbreviation b1 :: "string \<Rightarrow> string" where "b1 \<equiv> py_replace ''yname='' ''name=''"
abbreviation b2 :: "string \<Rightarrow> string" where "b2 \<equiv> py_replace ''target_node='' ''target-node=''"

text \<open>No attribute of a text has its name from the start.\<close>

definition absent :: "string \<Rightarrow> string \<Rightarrow> bool" where
  "absent p s \<longleftrightarrow> (\<forall>i. \<not> startswith (drop i s) p)"

lemma absent_drop: "absent p s \<Longrightarrow> absent p (drop n s)"
  by (simp add: absent_def)

lemma absent_Cons: "absent p (c # s) \<Longrightarrow> absent p s"
  using absent_drop [of p "c # s" 1] by simp

lemma no_yname_made: "\<not> startswith (f2 (f1 t)) ''name=''"
proof
  assume "startswith (f2 (f1 t)) ''name=''"
  then have "startswith (f1 t) ''name=''" by (rule replace_startswith [rotated 2]) (simp, code_simp)
  moreover from this have "startswith t ''name=''" by (rule replace_startswith [rotated 2]) (simp, code_simp)
  then obtain r where "t = ''name='' @ r" by (auto dest: startswith_exD)
  ultimately show False using py_replace_match [of "''name=''" "''yname=''" r] by simp
qed

text \<open>A part of the text that no replacement touches but one.\<close>

lemma copied:
  "f2 (''yname='' @ r) = ''yname='' @ f2 r" "b2 (''name='' @ r) = ''name='' @ b2 r"
  "f1 (''target-node='' @ r) = ''target-node='' @ f1 r" "b1 (''target_node='' @ r) = ''target_node='' @ b1 r"
  by (rule replace_copy, simp, code_simp)+

lemma step_name:
  assumes "b2 (b1 (f2 (f1 r))) = r"
  shows "b2 (b1 (f2 (f1 (''name='' @ r)))) = ''name='' @ r"
proof -
  have "f1 (''name='' @ r) = ''yname='' @ f1 r" by (rule py_replace_match) simp
  moreover have "b1 (''yname='' @ f2 (f1 r)) = ''name='' @ b1 (f2 (f1 r))" by (rule py_replace_match) simp
  ultimately show ?thesis using assms by (simp only: copied)
qed

lemma step_target:
  assumes "b2 (b1 (f2 (f1 r))) = r"
  shows "b2 (b1 (f2 (f1 (''target-node='' @ r)))) = ''target-node='' @ r"
proof -
  have "f2 (''target-node='' @ f1 r) = ''target_node='' @ f2 (f1 r)" by (rule py_replace_match) simp
  moreover have "b2 (''target_node='' @ b1 (f2 (f1 r))) = ''target-node='' @ b2 (b1 (f2 (f1 r)))" by (rule py_replace_match) simp
  ultimately show ?thesis using assms by (simp only: copied)
qed

lemma startswith_ConsD: "startswith (c # s) (d # p) \<Longrightarrow> c = d \<and> startswith s p"
  by simp

lemma step_char:
  assumes "\<not> startswith (c # t) ''name=''" and "\<not> startswith (c # t) ''target-node=''" and "\<not> startswith (c # t) ''target_node=''"
    and "b2 (b1 (f2 (f1 t))) = t"
  shows "b2 (b1 (f2 (f1 (c # t)))) = c # t"
proof -
  have 1: "f1 (c # t) = c # f1 t" using assms(1) by (intro py_replace_Cons) simp_all
  have "\<not> startswith (c # f1 t) ''target-node=''"
  proof
    assume "startswith (c # f1 t) ''target-node=''"
    then have c: "c = CHR ''t''" and "startswith (f1 t) ''arget-node=''" by (auto dest: startswith_ConsD)
    from this(2) have "startswith t ''arget-node=''" by (rule replace_startswith [rotated 2]) (simp, code_simp)
    with c assms(2) show False by simp
  qed
  then have 2: "f2 (c # f1 t) = c # f2 (f1 t)" by (intro py_replace_Cons) simp_all
  have "\<not> startswith (c # f2 (f1 t)) ''yname=''"
    using no_yname_made [of t] by (auto dest: startswith_ConsD)
  then have 3: "b1 (c # f2 (f1 t)) = c # b1 (f2 (f1 t))" by (intro py_replace_Cons) simp_all
  have "\<not> startswith (c # b1 (f2 (f1 t))) ''target_node=''"
  proof
    assume "startswith (c # b1 (f2 (f1 t))) ''target_node=''"
    then have c: "c = CHR ''t''" and "startswith (b1 (f2 (f1 t))) ''arget_node=''" by (auto dest: startswith_ConsD)
    from this(2) have "startswith (f2 (f1 t)) ''arget_node=''" by (rule replace_startswith [rotated 2]) (simp, code_simp)
    then have "startswith (f1 t) ''arget_node=''" by (rule replace_startswith [rotated 2]) (simp, code_simp)
    then have "startswith t ''arget_node=''" by (rule replace_startswith [rotated 2]) (simp, code_simp)
    with c assms(3) show False by simp
  qed
  then have 4: "b2 (c # b1 (f2 (f1 t))) = c # b2 (b1 (f2 (f1 t)))" by (intro py_replace_Cons) simp_all
  from 1 2 3 4 assms(4) show ?thesis by simp
qed

lemma module_text_restored: "absent ''target_node='' s \<Longrightarrow> b2 (b1 (f2 (f1 s))) = s"
proof (induction "length s" arbitrary: s rule: less_induct)
  case less
  show ?case
  proof (cases s)
    case (Cons c t)
    consider (name) "startswith s ''name=''" | (target) "startswith s ''target-node=''"
      | (other) "\<not> startswith s ''name=''" "\<not> startswith s ''target-node=''" by blast
    then show ?thesis
    proof cases
      case name
      then obtain r where r: "s = ''name='' @ r" by (auto dest: startswith_exD)
      with less.prems have "absent ''target_node='' r" using absent_drop [of _ s 5] by simp
      with less.hyps [of r] r show ?thesis using step_name [of r] by simp
    next
      case target
      then obtain r where r: "s = ''target-node='' @ r" by (auto dest: startswith_exD)
      with less.prems have "absent ''target_node='' r" using absent_drop [of _ s 12] by simp
      with less.hyps [of r] r show ?thesis using step_target [of r] by simp
    next
      case other
      have "\<not> startswith s ''target_node=''" using less.prems unfolding absent_def by (metis drop0)
      with other less.hyps [of t] less.prems Cons absent_Cons step_char [of c t] show ?thesis by simp
    qed
  qed simp
qed

lemma ann_text_restored: "b1 (f1 s) = s"
proof (induction "length s" arbitrary: s rule: less_induct)
  case less
  show ?case
  proof (cases s)
    case (Cons c t)
    show ?thesis
    proof (cases "startswith s ''name=''")
      case True
      then obtain r where r: "s = ''name='' @ r" by (auto dest: startswith_exD)
      have "f1 s = ''yname='' @ f1 r" "b1 (''yname='' @ f1 r) = ''name='' @ b1 (f1 r)"
        using r by (simp_all only: py_replace_match list.simps simp_thms)
      with less.hyps [of r] r show ?thesis by simp
    next
      case False
      then have 1: "f1 s = c # f1 t" using Cons by (simp add: py_replace_Cons)
      have "\<not> startswith (c # f1 t) ''yname=''"
      proof
        assume "startswith (c # f1 t) ''yname=''"
        then have "startswith (f1 t) ''name=''" by (auto dest: startswith_ConsD)
        moreover from this have "startswith t ''name=''" by (rule replace_startswith [rotated 2]) (simp, code_simp)
        then obtain r where "t = ''name='' @ r" by (auto dest: startswith_exD)
        ultimately show False using py_replace_match [of "''name=''" "''yname=''" r] by simp
      qed
      then have "b1 (c # f1 t) = c # b1 (f1 t)" by (intro py_replace_Cons) simp_all
      with 1 less.hyps [of t] Cons show ?thesis by simp
    qed
  qed simp
qed

section \<open>Correctness\<close>

definition renamed :: "string \<Rightarrow> string \<Rightarrow> string \<Rightarrow> string" where
  "renamed old new s = concat (map (py_replace old new) (keep_lines (universal_newlines s)))"

lemma pattern_replace_file: "fs name = Some s \<Longrightarrow> pattern_replace name old new fs = (fs(name \<mapsto> renamed old new s), Inr ())"
  by (simp add: pattern_replace_def fbind_def read_file_def write_file_def renamed_def)

lemma renamed_plain:
  assumes "old \<noteq> []" and "CHR 0x0A \<notin> set old" and "CHR 0x0D \<notin> set s"
  shows "renamed old new s = py_replace old new s"
  using assms by (simp add: renamed_def universal_newlines_id replace_lines)

lemma replace_no_cr: "old \<noteq> [] \<Longrightarrow> CHR 0x0D \<notin> set new \<Longrightarrow> CHR 0x0D \<notin> set s \<Longrightarrow> CHR 0x0D \<notin> set (py_replace old new s)"
  using set_replace [of old new s] by blast

text \<open>
  C36. C0: the files of the user: with files without carriage returns and a module without the name \<open>target_node=\<close>, the program either writes
  its result beside the annotation module and leaves both files of the user as they were, or, when the conversion raises, it leaves them with
  renamed attributes.
\<close>

theorem yin_program_files:
  assumes "fs module_file = Some m" and "fs ann_file = Some a" and "CHR 0x0D \<notin> set m" and "CHR 0x0D \<notin> set a"
    and "absent ''target_node='' m" and "distinct [module_file, ann_file, ann_file @ ''mod'']"
  shows "yin_program lib module_file ann_file fs =
    (case convert lib (yin_name module_file) (f2 (f1 m)) (f1 a) of
       Inr result \<Rightarrow> (fs(ann_file @ ''mod'' \<mapsto> renamed ''module_name'' ''module-name''
         (renamed ''statement_path'' ''statement-path'' (renamed ''yname='' ''name='' result))), Inr ())
     | Inl e \<Rightarrow> (fs(module_file \<mapsto> f2 (f1 m), ann_file \<mapsto> f1 a), Inl e))"
proof -
  have cr: "CHR 0x0D \<notin> set (f1 m)" "CHR 0x0D \<notin> set (f2 (f1 m))" "CHR 0x0D \<notin> set (f1 a)" "CHR 0x0D \<notin> set (b1 (f2 (f1 m)))"
    using assms(3,4) by (simp_all add: replace_no_cr)
  have r: "renamed ''name='' ''yname='' m = f1 m" "renamed ''target-node='' ''target_node='' (f1 m) = f2 (f1 m)"
    "renamed ''name='' ''yname='' a = f1 a" "renamed ''yname='' ''name='' (f2 (f1 m)) = b1 (f2 (f1 m))"
    "renamed ''target_node='' ''target-node='' (b1 (f2 (f1 m))) = m" "renamed ''yname='' ''name='' (f1 a) = a"
    using cr assms(3,4) module_text_restored [OF assms(5)] ann_text_restored by (simp_all add: renamed_plain)
  define M where "M = fs(module_file \<mapsto> f2 (f1 m), ann_file \<mapsto> f1 a)"
  have ne: "module_file \<noteq> ann_file" "module_file \<noteq> ann_file @ ''mod''" "ann_file \<noteq> ann_file @ ''mod''" using assms(6) by auto
  let ?rest = "\<lambda>result. fbind (write_file (ann_file @ ''mod'') result) (\<lambda>_.
     fbind (pattern_replace module_file ''yname='' ''name='') (\<lambda>_.
     fbind (pattern_replace module_file ''target_node='' ''target-node='') (\<lambda>_.
     fbind (pattern_replace ann_file ''yname='' ''name='') (\<lambda>_.
     fbind (pattern_replace (ann_file @ ''mod'') ''yname='' ''name='') (\<lambda>_.
     fbind (pattern_replace (ann_file @ ''mod'') ''statement_path'' ''statement-path'') (\<lambda>_.
       pattern_replace (ann_file @ ''mod'') ''module_name'' ''module-name''))))))"
  have "yin_program lib module_file ann_file fs =
      fbind (\<lambda>fs. (fs, convert lib (yin_name module_file) (f2 (f1 m)) (f1 a))) ?rest M"
    unfolding yin_program_def M_def
    using assms(1,2) ne cr by (simp add: fbind_def pattern_replace_file r read_file_def universal_newlines_id fun_upd_twist)
  moreover have "?rest result M = (fs(ann_file @ ''mod'' \<mapsto> renamed ''module_name'' ''module-name''
      (renamed ''statement_path'' ''statement-path'' (renamed ''yname='' ''name='' result))), Inr ())" for result
    using assms(1,2) ne by (simp add: M_def fbind_def write_file_def pattern_replace_file r fun_eq_iff)
  ultimately show ?thesis by (simp add: fbind_def M_def split: sum.splits)
qed

lemma absent_char: "c \<in> set p \<Longrightarrow> c \<notin> set s \<Longrightarrow> absent p s"
  unfolding absent_def using startswith_mem in_set_dropD by (metis subsetD)

definition example_yin_lib :: "nat yin_lib" where
  "example_yin_lib = \<lparr>yl_module = (\<lambda>_. example_module), yl_anns = (\<lambda>_. [(''/p:net/p:mtu'', [])]), yl_prefix = (\<lambda>_ _. Inr ''p''),
     yl_print = (\<lambda>_ _ _. ''<r yname=z statement_path=q/>'')\<rparr>"

definition example_files :: files where
  "example_files = [''m.yin'' \<mapsto> ''<leaf name=x target-node=y/>'', ''a.yin'' \<mapsto> ''<a yname=w name=y/>'']"

lemma example_converted:
  "convert example_yin_lib (yin_name ''m.yin'') (f2 (f1 ''<leaf name=x target-node=y/>'')) (f1 ''<a yname=w name=y/>'') =
     Inr ''<r yname=z statement_path=q/>''"
  by code_simp

lemma example_renamed:
  "renamed ''module_name'' ''module-name'' (renamed ''statement_path'' ''statement-path'' (renamed ''yname='' ''name=''
     ''<r yname=z statement_path=q/>'')) = ''<r name=z statement-path=q/>''"
  by code_simp

lemma yin_program_files_witness:
  "yin_program example_yin_lib ''m.yin'' ''a.yin'' example_files =
     (example_files(''a.yinmod'' \<mapsto> ''<r name=z statement-path=q/>''), Inr ())"
proof -
  have files: "example_files ''m.yin'' = Some ''<leaf name=x target-node=y/>''" "example_files ''a.yin'' = Some ''<a yname=w name=y/>''"
    by (simp_all add: example_files_def)
  have absent: "absent ''target_node='' ''<leaf name=x target-node=y/>''" by (rule absent_char [of "CHR ''_''"]) simp_all
  show ?thesis
    using yin_program_files [OF files _ _ absent, of example_yin_lib] example_converted example_renamed by simp
qed

end
