(* ===== verification/Yang_Command_Lines.thy ===== *)
theory Yang_Command_Lines
  imports Py_Argparse Yang_Programs Yin_Program Cli_Dump
begin

text \<open>
  The command lines of the tools on YANG modules, from the arguments of the program to the call of its function: \<open>tailf_ann_stmt.py\<close>,
  \<open>tailf_sanitize.py\<close>, \<open>confd_tag_yang.py\<close>, \<open>yin_ann_stmt.py\<close> and \<open>confd_cli_dump.py\<close>. Each tool has its parser, its namespace with the
  defaults, and its main program. A tool does with the command line of given values what its function does with these values.
\<close>

section \<open>The annotation tool\<close>

text \<open>The namespace: the output is the empty text or a list of one path; the file is a list of one name.\<close>

record ann_namespace =
  an_opts :: ann_opts
  an_output :: "string list"
  an_filename :: "string list"

definition no_ann_opts :: ann_opts where
  "no_ann_opts = \<lparr>ao_must = False, ao_when = False, ao_min_elem = False, ao_max_elem = False, ao_mandatory = False, ao_unique = False,
     ao_pattern = False, ao_tailf = False, ao_callpoint = False, ao_validate = False, ao_sanitize = False, ao_leafref = False\<rparr>"

definition ann_flag :: "((bool \<Rightarrow> bool) \<Rightarrow> ann_opts \<Rightarrow> ann_opts) \<Rightarrow> ann_namespace arg_action" where
  "ann_flag field_update = ArgConst (an_opts_update (field_update (\<lambda>_. True)))"

definition ann_stmt_parser :: "ann_namespace arg_parser" where
  "ann_stmt_parser = argument_parser
     [opt_arg [''-m'', ''--must''] (ann_flag ao_must_update),
      opt_arg [''-w'', ''--when''] (ann_flag ao_when_update),
      opt_arg [''-i'', ''--minelem''] (ann_flag ao_min_elem_update),
      opt_arg [''-l'', ''--leafref''] (ann_flag ao_leafref_update),
      opt_arg [''-x'', ''--maxelem''] (ann_flag ao_max_elem_update),
      opt_arg [''-a'', ''--mandatory''] (ann_flag ao_mandatory_update),
      opt_arg [''-u'', ''--unique''] (ann_flag ao_unique_update),
      opt_arg [''-p'', ''--pattern''] (ann_flag ao_pattern_update),
      opt_arg [''-t'', ''--tailf''] (ann_flag ao_tailf_update),
      opt_arg [''-c'', ''--callpoint''] (ann_flag ao_callpoint_update),
      opt_arg [''-v'', ''--validate''] (ann_flag ao_validate_update),
      opt_arg [''-s'', ''--sanitize''] (ann_flag ao_sanitize_update),
      opt_arg [''-o'', ''--output''] (ArgStore (as_text (\<lambda>s r. r\<lparr>an_output := [s]\<rparr>)))]
     (Some (PosOne (as_text (\<lambda>s r. r\<lparr>an_filename := [s]\<rparr>))))"

definition ann_defaults :: ann_namespace where
  "ann_defaults = \<lparr>an_opts = no_ann_opts, an_output = [], an_filename = []\<rparr>"

definition ann_stmt_main :: "('w, 'n, 'i) yin_tools \<Rightarrow> string list \<Rightarrow> unit yang_prog" where
  "ann_stmt_main t argv =
     io_bind (io_of (argparse ann_stmt_parser ann_defaults argv)) (\<lambda>args.
       let output = (if length (an_output args) > 0 then an_output args ! 0 else ''.'')
       in tailf_ann_stmt t (an_opts args) output (an_filename args ! 0))"

text \<open>The command line of given options.\<close>

definition ann_flags :: "ann_opts \<Rightarrow> (bool \<times> opt_item) list" where
  "ann_flags opts =
     [(ao_must opts, ShortFlag (CHR ''m'')), (ao_when opts, ShortFlag (CHR ''w'')), (ao_min_elem opts, ShortFlag (CHR ''i'')),
      (ao_leafref opts, ShortFlag (CHR ''l'')), (ao_max_elem opts, ShortFlag (CHR ''x'')), (ao_mandatory opts, ShortFlag (CHR ''a'')),
      (ao_unique opts, ShortFlag (CHR ''u'')), (ao_pattern opts, ShortFlag (CHR ''p'')), (ao_tailf opts, ShortFlag (CHR ''t'')),
      (ao_callpoint opts, ShortFlag (CHR ''c'')), (ao_validate opts, ShortFlag (CHR ''v'')), (ao_sanitize opts, ShortFlag (CHR ''s''))]"

definition ann_items :: "ann_opts \<Rightarrow> string option \<Rightarrow> opt_item list" where
  "ann_items opts out_path = flag_items (ann_flags opts) @ (case out_path of None \<Rightarrow> [] | Some d \<Rightarrow> [LongValue ''--output'' d])"

lemmas parser_defs = argument_parser_def option_actions_def opt_arg_def req_arg_def

lemma ann_parser_plain: "plain_strings ann_stmt_parser"
  by (simp add: plain_strings_def ann_stmt_parser_def parser_defs)

lemma ann_items_valid: "list_all (item_valid ann_stmt_parser) (ann_items opts out_path)"
proof -
  have "list_all (\<lambda>(b, it). item_valid ann_stmt_parser it) (ann_flags opts)" and "item_valid ann_stmt_parser (LongValue ''--output'' d)" for d
    by (simp_all add: ann_flags_def item_valid_def item_option_def ann_stmt_parser_def parser_defs ann_flag_def action_ok_def)
  then show ?thesis by (auto simp: ann_items_def flag_items_valid split: option.splits)
qed

lemma ann_flag_run:
  assumes "map_of (option_actions ann_stmt_parser) [CHR ''-'', c] = Some (opt_arg ss (ann_flag upd))" and "\<And>v. upd (\<lambda>x. x) v = v"
  shows "items_run ann_stmt_parser (flag_items ((b, ShortFlag c) # xs)) v =
    items_run ann_stmt_parser (flag_items xs) (an_opts_update (upd (\<lambda>x. x \<or> b)) v)"
proof -
  have "item_run ann_stmt_parser (ShortFlag c) = (\<lambda>v. Inr (an_opts_update (upd (\<lambda>_. True)) v))"
    using assms(1) by (auto simp: item_run_def item_option_def opt_arg_def ann_flag_def action_run_def)
  from items_run_flag [where upd = "\<lambda>g. an_opts_update (upd g)", OF this, of b xs v] assms(2) show ?thesis by (cases v) simp
qed

lemma ann_options:
  "map_of (option_actions ann_stmt_parser) ''-m'' = Some (opt_arg [''-m'', ''--must''] (ann_flag ao_must_update))"
  "map_of (option_actions ann_stmt_parser) ''-w'' = Some (opt_arg [''-w'', ''--when''] (ann_flag ao_when_update))"
  "map_of (option_actions ann_stmt_parser) ''-i'' = Some (opt_arg [''-i'', ''--minelem''] (ann_flag ao_min_elem_update))"
  "map_of (option_actions ann_stmt_parser) ''-l'' = Some (opt_arg [''-l'', ''--leafref''] (ann_flag ao_leafref_update))"
  "map_of (option_actions ann_stmt_parser) ''-x'' = Some (opt_arg [''-x'', ''--maxelem''] (ann_flag ao_max_elem_update))"
  "map_of (option_actions ann_stmt_parser) ''-a'' = Some (opt_arg [''-a'', ''--mandatory''] (ann_flag ao_mandatory_update))"
  "map_of (option_actions ann_stmt_parser) ''-u'' = Some (opt_arg [''-u'', ''--unique''] (ann_flag ao_unique_update))"
  "map_of (option_actions ann_stmt_parser) ''-p'' = Some (opt_arg [''-p'', ''--pattern''] (ann_flag ao_pattern_update))"
  "map_of (option_actions ann_stmt_parser) ''-t'' = Some (opt_arg [''-t'', ''--tailf''] (ann_flag ao_tailf_update))"
  "map_of (option_actions ann_stmt_parser) ''-c'' = Some (opt_arg [''-c'', ''--callpoint''] (ann_flag ao_callpoint_update))"
  "map_of (option_actions ann_stmt_parser) ''-v'' = Some (opt_arg [''-v'', ''--validate''] (ann_flag ao_validate_update))"
  "map_of (option_actions ann_stmt_parser) ''-s'' = Some (opt_arg [''-s'', ''--sanitize''] (ann_flag ao_sanitize_update))"
  by (simp_all add: ann_stmt_parser_def argument_parser_def option_actions_def opt_arg_def)

lemma ann_update_id:
  "ao_must_update (\<lambda>x. x) v = v"
  "ao_when_update (\<lambda>x. x) v = v"
  "ao_min_elem_update (\<lambda>x. x) v = v"
  "ao_leafref_update (\<lambda>x. x) v = v"
  "ao_max_elem_update (\<lambda>x. x) v = v"
  "ao_mandatory_update (\<lambda>x. x) v = v"
  "ao_unique_update (\<lambda>x. x) v = v"
  "ao_pattern_update (\<lambda>x. x) v = v"
  "ao_tailf_update (\<lambda>x. x) v = v"
  "ao_callpoint_update (\<lambda>x. x) v = v"
  "ao_validate_update (\<lambda>x. x) v = v"
  "ao_sanitize_update (\<lambda>x. x) v = v"
  by (cases v, simp)+

lemma ann_flags_run: "items_run ann_stmt_parser (flag_items (ann_flags opts)) ann_defaults = Inr (ann_defaults\<lparr>an_opts := opts\<rparr>)"
  unfolding ann_flags_def
  by (cases opts) (simp add: ann_options [THEN ann_flag_run] ann_update_id ann_defaults_def no_ann_opts_def del: flag_items.simps(2))

lemma ann_items_run:
  "items_run ann_stmt_parser (ann_items opts out_path) ann_defaults =
     Inr \<lparr>an_opts = opts, an_output = (case out_path of None \<Rightarrow> [] | Some d \<Rightarrow> [d]), an_filename = []\<rparr>"
proof -
  have "items_run ann_stmt_parser [LongValue ''--output'' d] v = Inr (v\<lparr>an_output := [d]\<rparr>)" for d v
    by (simp add: item_run_def item_option_def ann_stmt_parser_def parser_defs action_run_def)
  then show ?thesis
    by (cases out_path) (simp_all add: ann_items_def items_run_append ann_flags_run, simp_all add: ann_defaults_def)
qed

text \<open>
  The annotation tool does with the command line of given options, output directory and file what its function does with them, with
  the current directory if none is given.
\<close>

theorem ann_stmt_command_line:
  assumes "take 1 yang_file \<noteq> ''-''"
  shows "ann_stmt_main t (items_args (ann_items opts out_path) @ [yang_file]) =
    tailf_ann_stmt t opts (case out_path of None \<Rightarrow> ''.'' | Some d \<Rightarrow> d) yang_file"
proof -
  have pos: "ap_positional ann_stmt_parser = Some (PosOne (as_text (\<lambda>s r. r\<lparr>an_filename := [s]\<rparr>)))"
    by (simp add: ann_stmt_parser_def argument_parser_def)
  have "required_given ann_stmt_parser its" for its
    by (simp add: required_given_def ann_stmt_parser_def parser_defs)
  then have "argparse ann_stmt_parser ann_defaults (items_args (ann_items opts out_path) @ [yang_file]) =
      Inr \<lparr>an_opts = opts, an_output = (case out_path of None \<Rightarrow> [] | Some d \<Rightarrow> [d]), an_filename = [yang_file]\<rparr>"
    using argparse_word [OF ann_parser_plain _ is_word_plain [OF assms] disjI1 [OF pos], of "ann_items opts out_path" "[]" ann_defaults]
      ann_items_valid by (simp add: ann_items_run)
  then show ?thesis
    by (simp add: ann_stmt_main_def io_bind_def io_of_def io_ret_def split: option.splits)
qed

section \<open>The other tools\<close>

definition file_parser :: "string list arg_parser" where
  "file_parser = argument_parser [] (Some (PosOne (as_text (\<lambda>s r. [s]))))"

definition sanitize_program :: "('w, 'n, 'i) yin_tools \<Rightarrow> string list \<Rightarrow> unit yang_prog" where
  "sanitize_program t argv = io_bind (io_of (argparse file_parser [] argv)) (\<lambda>filename. tailf_sanitize_main t (filename ! 0))"

definition tag_program ::
  "(string \<Rightarrow> 'n tag_doc) \<Rightarrow> (string \<Rightarrow> 'n metadata list \<Rightarrow> string) \<Rightarrow> string list \<Rightarrow> unit yang_prog" where
  "tag_program parse print_with argv =
     io_bind (io_of (argparse file_parser [] argv)) (\<lambda>filename. tailf_info_path parse print_with (filename ! 0))"

record yin_namespace =
  yn_annotation_module :: "string option"
  yn_filename :: "string option"

definition yin_parser :: "yin_namespace arg_parser" where
  "yin_parser = argument_parser
     [req_arg [''-a'', ''--tailf-annotation-module''] (ArgStore (as_text (\<lambda>s r. r\<lparr>yn_annotation_module := Some s\<rparr>)))]
     (Some (PosOne (as_text (\<lambda>s r. r\<lparr>yn_filename := Some s\<rparr>))))"

definition yin_main :: "'c yin_lib \<Rightarrow> string list \<Rightarrow> unit file_prog" where
  "yin_main lib argv =
     fbind (\<lambda>fs. (fs, argparse yin_parser \<lparr>yn_annotation_module = None, yn_filename = None\<rparr> argv)) (\<lambda>args.
       case (yn_filename args, yn_annotation_module args) of
         (Some module_file, Some ann_file) \<Rightarrow> yin_program lib module_file ann_file
       | _ \<Rightarrow> (\<lambda>fs. (fs, Inl TypeError)))"

text \<open>The root of a dump: the default is a text, and what is given is a list.\<close>

datatype root_arg = RootText string | RootList "string list"

definition dump_parser :: "root_arg arg_parser" where
  "dump_parser = argument_parser [opt_arg [''-r'', ''--root''] (ArgStore (as_text (\<lambda>s r. RootList [s])))] None"

text \<open>Loading the schemas and \<open>cs_node_cd\<close> are the library; it raises on a list.\<close>

definition dump_program ::
  "unit result \<Rightarrow> (root_arg \<Rightarrow> schema_node list result) \<Rightarrow> (schema_node \<Rightarrow> string \<Rightarrow> schema_node result) \<Rightarrow> string list \<Rightarrow> cmd_tag list result" where
  "dump_program load_schemas cs_node_cd cd argv =
     rbind (argparse dump_parser (RootText ''/native'') argv) (\<lambda>root.
     rbind load_schemas (\<lambda>_. rbind (cs_node_cd root) (cli_dump cd)))"

lemma file_parsed: "take 1 f \<noteq> ''-'' \<Longrightarrow> argparse file_parser [] [f] = Inr [f]"
  using argparse_word [of file_parser "[]" "[]" f "as_text (\<lambda>s r. [s])" "[]"] is_word_plain [of f file_parser]
  by (simp add: plain_strings_def required_given_def file_parser_def parser_defs)

text \<open>The sanitizer and the tagging tool run for the one file that is given.\<close>

theorem file_tools_command_line:
  assumes "take 1 f \<noteq> ''-''"
  shows "sanitize_program t [f] = tailf_sanitize_main t f" and "tag_program parse print_with [f] = tailf_info_path parse print_with f"
  using file_parsed [OF assms] by (simp_all add: sanitize_program_def tag_program_def io_bind_def io_of_def io_ret_def)

text \<open>The converter gets the annotation module from its option and the module from its argument, in both orders.\<close>

theorem yin_command_line:
  assumes "take 1 f \<noteq> ''-''"
  shows "yin_main lib (items_args [LongValue ''--tailf-annotation-module'' a] @ [f]) = yin_program lib f a"
    and "yin_main lib (f # items_args [LongValue ''--tailf-annotation-module'' a]) = yin_program lib f a"
    and "yin_main lib [f] fs = (fs, Inl SystemExit)"
proof -
  have p: "plain_strings yin_parser" and valid: "item_valid yin_parser (LongValue ''--tailf-annotation-module'' a)"
    and req: "required_given yin_parser [LongValue ''--tailf-annotation-module'' a]"
    by (simp_all add: plain_strings_def item_valid_def item_option_def required_given_def items_seen_def action_ok_def yin_parser_def parser_defs)
  have pos: "ap_positional yin_parser = Some (PosOne (as_text (\<lambda>s r. r\<lparr>yn_filename := Some s\<rparr>)))"
    by (simp add: yin_parser_def argument_parser_def)
  have run: "item_run yin_parser (LongValue ''--tailf-annotation-module'' a) v = Inr (v\<lparr>yn_annotation_module := Some a\<rparr>)" for v
    by (simp add: item_run_def item_option_def action_run_def yin_parser_def parser_defs)
  note word = argparse_word [OF p _ is_word_plain [OF assms] disjI1 [OF pos]]
  show "yin_main lib (items_args [LongValue ''--tailf-annotation-module'' a] @ [f]) = yin_program lib f a"
    using word [of "[LongValue ''--tailf-annotation-module'' a]" "[]"] valid req by (simp add: run yin_main_def fbind_def)
  show "yin_main lib (f # items_args [LongValue ''--tailf-annotation-module'' a]) = yin_program lib f a"
    using word [of "[]" "[LongValue ''--tailf-annotation-module'' a]"] valid req by (simp add: run yin_main_def fbind_def)
  have "\<not> required_given yin_parser []" by (simp add: required_given_def items_seen_def yin_parser_def parser_defs)
  then show "yin_main lib [f] fs = (fs, Inl SystemExit)" using word [of "[]" "[]"] by (simp add: yin_main_def fbind_def)
qed

text \<open>A root that is given reaches the library as a list, which is not a path.\<close>

theorem dump_root_is_list:
  "dump_program load_schemas cs_node_cd cd (items_args [LongValue ''--root'' r]) =
     rbind load_schemas (\<lambda>_. rbind (cs_node_cd (RootList [r])) (cli_dump cd))"
  "dump_program load_schemas cs_node_cd cd [] = rbind load_schemas (\<lambda>_. rbind (cs_node_cd (RootText ''/native'')) (cli_dump cd))"
proof -
  have p: "plain_strings dump_parser" and valid: "item_valid dump_parser (LongValue ''--root'' r)" and req: "required_given dump_parser its"
    and pos: "\<not> is_needed (ap_positional dump_parser)" for its
    by (simp_all add: plain_strings_def item_valid_def item_option_def required_given_def action_ok_def dump_parser_def parser_defs)
  have "item_run dump_parser (LongValue ''--root'' r) v = Inr (RootList [r])" for v
    by (simp add: item_run_def item_option_def action_run_def dump_parser_def parser_defs)
  then show "dump_program load_schemas cs_node_cd cd (items_args [LongValue ''--root'' r]) =
      rbind load_schemas (\<lambda>_. rbind (cs_node_cd (RootList [r])) (cli_dump cd))"
    using argparse_items [OF p _ pos, of "[LongValue ''--root'' r]"] valid req by (simp add: dump_program_def)
  show "dump_program load_schemas cs_node_cd cd [] = rbind load_schemas (\<lambda>_. rbind (cs_node_cd (RootText ''/native'')) (cli_dump cd))"
    using argparse_items [OF p _ pos, of "[]"] req by (simp add: dump_program_def)
qed

end
