(* ===== verification/Gen_Common.thy ===== *)
theory Gen_Common
  imports Netconf_Messages Complex_Main
begin

text \<open>
  What the scripts that generate requests and data files share: the number notation of their command lines,
  \<open>%07d\<close> and \<open>%d\<close>, texts of several lines, IPv4 addresses, and for the proofs the contents of the elements with a
  given name (\<open>leaf_texts\<close>).
\<close>

section \<open>Numbers of the command line\<close>

text \<open>
  A number of the command line: an integer, or the float that \<open>pow\<close> gives for an exponent that is
  negative or itself a float.
\<close>

datatype py_num = PInt int | PFloat

fun pow_2 :: "py_num \<Rightarrow> py_num" where
  "pow_2 (PInt n) = (if 0 \<le> n then PInt (2 ^ nat n) else PFloat)"
| "pow_2 PFloat = PFloat"

function parse_num :: "string \<Rightarrow> py_num result" where
  "parse_num s =
     (if take 2 s = ''2^'' then rbind (parse_num (drop 2 s)) (\<lambda>n. Inr (pow_2 n))
      else (case py_int s of Some n \<Rightarrow> Inr (PInt n) | None \<Rightarrow> Inl ValueError))"
  by pat_completeness auto

lemma take_2_length: "take 2 s = ''2^'' \<Longrightarrow> 2 \<le> length s"
  by (cases s; cases "tl s") auto

termination parse_num
  by (relation "measure length") (auto dest: take_2_length)

declare parse_num.simps [simp del]

text \<open>\<open>range(0, n)\<close>; a float raises \<open>TypeError\<close>.\<close>

fun py_range :: "py_num \<Rightarrow> nat list result" where
  "py_range (PInt n) = Inr [0..<nat n]"
| "py_range PFloat = Inl TypeError"

text \<open>The arguments of a script, without the program name; a script gives what it prints and the exception.\<close>

definition py_arg :: "string list \<Rightarrow> nat \<Rightarrow> string result" where
  "py_arg args i = (if i < length args then Inr (args ! i) else Inl IndexError)"

definition num_arg :: "string list \<Rightarrow> nat \<Rightarrow> py_num result" where
  "num_arg args i = rbind (py_arg args i) parse_num"

definition with_arg :: "'a result \<Rightarrow> ('a \<Rightarrow> string \<times> unit result) \<Rightarrow> string \<times> unit result" where
  "with_arg r f = (case r of Inl e \<Rightarrow> ([], Inl e) | Inr a \<Rightarrow> f a)"

lemma with_arg_Inr: "with_arg r f = (out, Inr ()) \<Longrightarrow> \<exists>a. r = Inr a \<and> f a = (out, Inr ())"
  by (cases r) (auto simp: with_arg_def)

section \<open>Texts\<close>

abbreviation lns :: "string list \<Rightarrow> string" where
  "lns \<equiv> py_join ''\<newline>''"

definition printed :: "string \<Rightarrow> string" where
  "printed s = s @ ''\<newline>''"

definition pad7 :: "nat \<Rightarrow> string" where
  "pad7 n = replicate (7 - length (nat_str n)) (CHR ''0'') @ nat_str n"

lemma no_angle_digits: "\<forall>c \<in> set s. is_digit c \<Longrightarrow> no_angle s"
  by (auto simp: no_angle_def is_digit_def)

lemma pad7_digits: "\<forall>c \<in> set (pad7 n). is_digit c"
  using nat_str_digits [of n] by (auto simp: pad7_def is_digit_def)

lemma no_angle_nat_str [simp]: "no_angle (nat_str n)"
  using no_angle_digits [OF nat_str_digits] .

lemma no_angle_pad7 [simp]: "no_angle (pad7 n)"
  using no_angle_digits [OF pad7_digits] .

lemma no_angle_int_str [simp]: "no_angle (int_str i)"
  using no_angle_nat_str by (simp add: int_str_def no_angle_def)

lemma digits_val_zeros: "digits_val (replicate k (CHR ''0'') @ s) = digits_val s"
proof -
  have "fold (\<lambda>c n. 10 * n + digit_val c) (replicate k (CHR ''0'')) 0 = 0"
    by (induction k) (simp_all add: digit_val_def)
  then show ?thesis by (simp add: digits_val_def foldl_conv_fold)
qed

lemma digits_val_pad7 [simp]: "digits_val (pad7 n) = n"
  by (simp add: pad7_def digits_val_zeros)

lemma pad7_inject [simp]: "pad7 m = pad7 n \<longleftrightarrow> m = n"
  by (metis digits_val_pad7)

lemma pad7_length: "n < 10 ^ 7 \<Longrightarrow> length (pad7 n) = 7"
  using nat_str_length [of 7 n] by (simp add: pad7_def)

section \<open>Elements\<close>

text \<open>The texts of the elements \<open>n\<close> without attributes, in the order of the document.\<close>

fun leaf_texts :: "string \<Rightarrow> string \<Rightarrow> string list" where
  "leaf_texts n [] = []"
| "leaf_texts n (c # s) =
     (if startswith (c # s) (CHR ''<'' # n @ ''>'')
      then takeWhile (\<lambda>x. x \<noteq> CHR ''<'') (drop (length n + 2) (c # s)) # leaf_texts n s
      else leaf_texts n s)"

lemma leaf_texts_no_angle: "no_angle s \<Longrightarrow> leaf_texts n (s @ r) = leaf_texts n r"
  by (induction s) (auto simp: no_angle_def)

lemma takeWhile_no_angle: "no_angle s \<Longrightarrow> takeWhile (\<lambda>x. x \<noteq> CHR ''<'') (s @ CHR ''<'' # r) = s"
  by (induction s) (auto simp: no_angle_def)

text \<open>Text that contributes its own elements and is passed by the scanner, whatever follows.\<close>

definition part :: "string \<Rightarrow> string list \<Rightarrow> string \<Rightarrow> bool" where
  "part n ts s \<longleftrightarrow> neutral s \<and> (\<forall>r. leaf_texts n (s @ r) = ts @ leaf_texts n r)"

lemma part_concat:
  assumes "\<And>x. x \<in> set xs \<Longrightarrow> part n (ts x) (f x)"
  shows "part n (concat (map ts xs)) (concat (map f xs))"
  using assms
proof (induction xs)
  case (Cons x xs)
  then have x: "part n (ts x) (f x)" and xs: "part n (concat (map ts xs)) (concat (map f xs))" by auto
  then show ?case by (simp add: part_def neutral_def)
qed (simp add: part_def)

lemma part_scan: "part n ts s \<Longrightarrow> scan (s @ r) (stk, None) = scan r (stk, None)"
  by (simp add: part_def neutral_scan)

lemma part_texts: "part n ts s \<Longrightarrow> leaf_texts n (s @ r) = ts @ leaf_texts n r"
  by (simp add: part_def)

lemmas text_simps = scan_text scan_tag takeWhile_no_angle leaf_texts_no_angle tag_stack_def is_space_def

text \<open>
  Evaluation on long texts. The congruence rules keep the simplifier out of the text that is still to be read, so that
  its work is proportional to the length of the text; the other rules bring the next character to the front.
\<close>

lemma scan_cong: "st = st' \<Longrightarrow> scan s st = scan s st'"
  by simp

lemma leaf_texts_cong: "n = n' \<Longrightarrow> leaf_texts n s = leaf_texts n' s"
  by simp

lemma startswith_cong: "p = p' \<Longrightarrow> startswith s p = startswith s p'"
  by simp

lemmas text_congs = scan_cong leaf_texts_cong startswith_cong

lemma scan_exposed:
  "scan ([] @ r) st = scan r st" "scan ((c # s) @ r) st = scan (c # (s @ r)) st"
  "scan ((a @ b) @ r) st = scan (a @ (b @ r)) st" "scan (lns [x] @ r) st = scan (x @ r) st"
  "scan (lns (x # y # xs) @ r) st = scan (x @ CHR 0x0A # (lns (y # xs) @ r)) st"
  "scan (lns [x]) st = scan x st" "scan (lns (x # y # xs)) st = scan (x @ CHR 0x0A # lns (y # xs)) st"
  by simp_all

lemma leaf_texts_exposed:
  "leaf_texts n ([] @ r) = leaf_texts n r" "leaf_texts n ((c # s) @ r) = leaf_texts n (c # (s @ r))"
  "leaf_texts n ((a @ b) @ r) = leaf_texts n (a @ (b @ r))" "leaf_texts n (lns [x] @ r) = leaf_texts n (x @ r)"
  "leaf_texts n (lns (x # y # xs) @ r) = leaf_texts n (x @ CHR 0x0A # (lns (y # xs) @ r))"
  "leaf_texts n (lns [x]) = leaf_texts n x" "leaf_texts n (lns (x # y # xs)) = leaf_texts n (x @ CHR 0x0A # lns (y # xs))"
  by simp_all

lemma startswith_exposed:
  "startswith ([] @ r) p = startswith r p" "startswith ((c # s) @ r) p = startswith (c # (s @ r)) p"
  "startswith ((a @ b) @ r) p = startswith (a @ (b @ r)) p" "startswith (lns [x] @ r) p = startswith (x @ r) p"
  "startswith (lns (x # y # xs) @ r) p = startswith (x @ CHR 0x0A # (lns (y # xs) @ r)) p"
  "startswith (lns [x]) p = startswith x p" "startswith (lns (x # y # xs)) p = startswith (x @ CHR 0x0A # lns (y # xs)) p"
  by simp_all

lemma leaf_texts_other: "c \<noteq> CHR ''<'' \<Longrightarrow> leaf_texts n (c # s) = leaf_texts n s"
  by simp

lemma leaf_texts_tag:
  "leaf_texts n (CHR ''<'' # s) =
     (if startswith s (n @ ''>'') then takeWhile (\<lambda>x. x \<noteq> CHR ''<'') (drop (length n + 1) s) # leaf_texts n s
      else leaf_texts n s)"
  by simp

lemmas long_text_simps = scan_exposed leaf_texts_exposed startswith_exposed leaf_texts_other leaf_texts_tag text_simps Let_def

section \<open>Properties\<close>

lemma parse_num_nat: "parse_num (nat_str n) = Inr (PInt (int n))"
proof -
  have "take 2 (nat_str n) \<noteq> ''2^''"
  proof
    assume "take 2 (nat_str n) = ''2^''"
    then have "CHR ''^'' \<in> set (take 2 (nat_str n))" by simp
    then have "CHR ''^'' \<in> set (nat_str n)" by (rule in_set_takeD)
    with nat_str_digits [of n] show False by (auto simp: is_digit_def)
  qed
  then show ?thesis by (simp add: parse_num.simps [of "nat_str n"])
qed

text \<open>
  The number notation: any number of \<open>2^\<close> before a decimal number is the power tower of twos, and
  the recursion ends for every string.
\<close>

theorem parse_num_tower:
  "parse_num (concat (replicate k ''2^'') @ nat_str n) = Inr (PInt (((\<lambda>x. 2 ^ nat x) ^^ k) (int n)))"
proof (induction k)
  case 0
  show ?case by (simp add: parse_num_nat)
next
  case (Suc k)
  have "0 \<le> ((\<lambda>x. (2 :: int) ^ nat x) ^^ k) (int n)" by (cases k) simp_all
  with Suc show ?case by (simp add: parse_num.simps [of "CHR ''2'' # _"])
qed

end
