(* ===== verification/Gen_Session.thy ===== *)
theory Gen_Session
  imports Gen_Common Netconf_Transport
begin

text \<open>
  The output of a request generator as a NETCONF session: messages with an end-of-message marker each. The receiver is
  \<open>recv_msg\<close> of \<open>Netconf_Transport\<close>, called once per message.
\<close>

section \<open>Reading a session\<close>

text \<open>A sufficient condition for the end marker not to begin inside a text: no two brackets in a row and none at the end.\<close>

fun sq :: "string \<Rightarrow> bool" where
  "sq [] = True"
| "sq (c # s) = (if c = CHR '']'' then s \<noteq> [] \<and> hd s \<noteq> CHR '']'' \<and> sq s else sq s)"

lemma sq_append: "CHR '']'' \<notin> set s \<Longrightarrow> sq (s @ r) \<longleftrightarrow> sq r"
  by (induction s) auto

lemma sq_cong: "sq s = sq s"
  by simp

lemma sq_exposed:
  "sq ([] @ r) = sq r" "sq ((c # s) @ r) = sq (c # (s @ r))" "sq ((a @ b) @ r) = sq (a @ (b @ r))"
  "sq (lns [x] @ r) = sq (x @ r)" "sq (lns (x # y # xs) @ r) = sq (x @ CHR 0x0A # (lns (y # xs) @ r))"
  by simp_all

lemma sq_other: "c \<noteq> CHR '']'' \<Longrightarrow> sq (c # s) = sq s"
  by simp

lemma sq_ends_first: "sq m \<Longrightarrow> ends_first m"
proof (induction m)
  case Nil
  then show ?case by (simp add: ends_first_def EOM_1_0_def)
next
  case (Cons c m)
  then have "py_find (m @ EOM_1_0) EOM_1_0 = Some (length m)"
    by (auto simp: ends_first_def split: if_splits)
  moreover have "\<not> startswith (c # m @ EOM_1_0) EOM_1_0"
    using Cons.prems by (cases m) (auto simp: EOM_1_0_def split: if_splits)
  ultimately show ?case by (simp add: ends_first_def)
qed

fun recv_msgs :: "nat \<Rightarrow> transport \<Rightarrow> transport \<times> ustr list result" where
  "recv_msgs 0 t = (t, Inr [])"
| "recv_msgs (Suc k) t =
     (case recv_msg t of
        (t1, Inl e) \<Rightarrow> (t1, Inl e)
      | (t1, Inr m) \<Rightarrow> (case recv_msgs k t1 of (t2, r) \<Rightarrow> (t2, rbind r (\<lambda>ms. Inr (m # ms)))))"

lemma recv_msgs_session:
  assumes "tr_framing t = FRAMING_1_0" and "\<not> tr_eom_found t" and "live (tr_in t)"
    and "stream t = concat (map (\<lambda>m. m @ EOM_1_0) ms) @ rest" and "\<forall>m \<in> set ms. sq m \<and> ascii m"
  shows "\<exists>t'. recv_msgs (length ms) t = (t', Inr (map u ms)) \<and> stream t' = rest"
  using assms
proof (induction ms arbitrary: t)
  case (Cons m ms)
  have "stream t = m @ EOM_1_0 @ (concat (map (\<lambda>m. m @ EOM_1_0) ms) @ rest)" using Cons.prems(4) by simp
  from recv_msg_loop_1_0 [OF Cons.prems(1-3) this, of "[]"] Cons.prems(5) sq_ends_first [of m]
  obtain t1 where t1: "recv_msg t = (t1, Inr (u m))" "stream t1 = concat (map (\<lambda>m. m @ EOM_1_0) ms) @ rest"
      "live (tr_in t1)" "\<not> tr_eom_found t1" "tr_framing t1 = FRAMING_1_0"
    by (auto simp: recv_msg_def)
  from Cons.IH [OF t1(5,4,3,2)] Cons.prems(5) t1(1) show ?case by auto
qed simp

text \<open>A message of a session, with the identifiers of the routes that it carries.\<close>

definition msg_ok :: "string \<Rightarrow> string list \<Rightarrow> string \<Rightarrow> bool" where
  "msg_ok n ids m \<longleftrightarrow> balanced m \<and> sq m \<and> ascii m \<and> leaf_texts n m = ids"

text \<open>Blank text between two messages.\<close>

definition blanks :: "string \<Rightarrow> bool" where
  "blanks b \<longleftrightarrow> list_all (\<lambda>c. c = CHR '' '' \<or> c = CHR 0x0A) b"

lemma blanks_text: "blanks b \<Longrightarrow> no_angle b \<and> ascii b \<and> CHR '']'' \<notin> set b"
proof (induction b)
  case (Cons c b)
  then have "c = CHR '' '' \<or> c = CHR 0x0A" "no_angle b \<and> ascii b \<and> CHR '']'' \<notin> set b"
    by (simp_all add: blanks_def)
  then show ?case by (elim disjE) (simp_all add: no_angle_def)
qed (simp add: no_angle_def)

lemma msg_ok_blank:
  assumes "msg_ok n ids m" and "blanks b"
  shows "msg_ok n ids (b @ m)"
  using assms(1) blanks_text [OF assms(2)]
  by (simp add: msg_ok_def balanced_def scan_text leaf_texts_no_angle sq_append)

text \<open>
  A session: its messages, and the blank text behind the last marker. \<open>n\<close> is the name of the elements whose texts are told,
  and \<open>b\<close> the blank text of a delimiter.
\<close>

definition session_ok :: "string \<Rightarrow> string \<Rightarrow> string list list \<Rightarrow> string \<Rightarrow> bool" where
  "session_ok n b idss s \<longleftrightarrow>
     (\<exists>ms. s = concat (map (\<lambda>m. m @ EOM_1_0) ms) @ b \<and> list_all2 (msg_ok n) idss ms)"

lemma session_okI:
  assumes "msg_ok n ids m" and "list_all2 (msg_ok n) idss ms"
    and "s = m @ delim @ concat (map (\<lambda>m. m @ delim) ms)" and "delim = EOM_1_0 @ b" and "blanks b"
  shows "session_ok n b (ids # idss) s"
proof -
  have "b @ concat (map (\<lambda>m. m @ delim) ms) =
      concat (map (\<lambda>m. m @ EOM_1_0) (map (\<lambda>m. b @ m) ms)) @ b" for ms
    by (induction ms) (simp_all add: assms(4))
  then have "s = concat (map (\<lambda>m. m @ EOM_1_0) (m # map (\<lambda>m. b @ m) ms)) @ b"
    using assms(3,4) by simp
  moreover have "list_all2 (msg_ok n) (ids # idss) (m # map (\<lambda>m. b @ m) ms)"
    using assms(1,2) msg_ok_blank [OF _ assms(5)] by (simp add: list_all2_map2 list_all2_mono)
  ultimately show ?thesis unfolding session_ok_def by blast
qed

text \<open>What a receiver gets of a session, however it is cut into segments.\<close>

lemma session_received:
  assumes "session_ok n b idss out"
    and "tr_framing t = FRAMING_1_0" and "\<not> tr_eom_found t" and "live (tr_in t)" and "stream t = out"
  shows "\<exists>ms t'. recv_msgs (length ms) t = (t', Inr (map u ms)) \<and> length ms = length idss \<and> list_all balanced ms \<and>
     map (leaf_texts n) ms = idss \<and> stream t' = b"
proof -
  obtain ms where ms: "list_all2 (msg_ok n) idss ms" "out = concat (map (\<lambda>m. m @ EOM_1_0) ms) @ b"
    using assms(1) by (auto simp: session_ok_def)
  have "\<forall>m \<in> set ms. sq m \<and> ascii m \<and> balanced m"
    using ms(1) by (auto simp: list_all2_conv_all_nth msg_ok_def in_set_conv_nth)
  moreover have "map (leaf_texts n) ms = idss"
    using ms(1) by (induction rule: list_all2_induct) (auto simp: msg_ok_def)
  moreover have "length ms = length idss" using ms(1) by (rule list_all2_lengthD [symmetric])
  ultimately show ?thesis
    using recv_msgs_session [OF assms(2-4), of ms b] ms(2) assms(5)
    by (intro exI [of _ ms]) (auto simp: list_all_iff)
qed

text \<open>Text that may be put into a message.\<close>

definition clean :: "string \<Rightarrow> bool" where
  "clean s \<longleftrightarrow> no_angle s \<and> ascii s \<and> CHR '']'' \<notin> set s"

lemma clean_digits: "\<forall>c \<in> set s. is_digit c \<Longrightarrow> clean s"
  using no_angle_digits [of s] by (force simp: clean_def ascii_def is_digit_def)

lemma clean_pad7: "clean (pad7 n)"
  using clean_digits [OF pad7_digits] .

lemmas message_simps = long_text_simps sq_exposed sq_other sq_append clean_def
declare leaf_texts.simps(2) [simp del] sq.simps(2) [simp del]

lemmas message_congs = text_congs sq_cong

text \<open>Text inside a message, with the texts of its elements \<open>n\<close>.\<close>

definition body :: "string \<Rightarrow> string list \<Rightarrow> string \<Rightarrow> bool" where
  "body n ids s \<longleftrightarrow> part n ids s \<and> ascii s \<and> (\<forall>r. sq (s @ r) = sq r)"

lemma body_concat:
  assumes "\<And>x. x \<in> set xs \<Longrightarrow> body n (ts x) (f x)"
  shows "body n (concat (map ts xs)) (concat (map f xs))"
proof -
  have "part n (concat (map ts xs)) (concat (map f xs))"
    by (rule part_concat) (use assms in \<open>simp add: body_def\<close>)
  moreover have "ascii (concat (map f xs)) \<and> (\<forall>r. sq (concat (map f xs) @ r) = sq r)"
    using assms by (induction xs) (simp_all add: body_def)
  ultimately show ?thesis by (simp add: body_def)
qed

end
