(* ===== verification/Aa_Ncgen.thy ===== *)
theory Aa_Ncgen
  imports Gen_Session
begin

text \<open>
  The request generator \<open>active-active/consistent-sync/app/ncgen.py\<close>: each command prints a NETCONF
  session, that is messages separated by the end-of-message marker. One definition per function, with the
  text it prints. The lemmas show what a receiver with the framing 1.0 reads from a printed session, that its
  messages are balanced, and which routes they carry.
\<close>

section \<open>Messages\<close>

definition print_hello :: "string" where
  "print_hello = printed (
    lns [''<?xml version=\"1.0\" encoding=\"UTF-8\"?>'',
         ''    <hello xmlns=\"urn:ietf:params:xml:ns:netconf:base:1.0\">'',
         ''    <capabilities>'',
         ''    <capability>urn:ietf:params:netconf:base:1.0</capability>'',
         ''    </capabilities>'',
         ''    </hello>'',
         ''    ''])"

definition print_delim :: "string" where
  "print_delim = printed (
    lns ['']]>]]>'',
         ''    ''])"

definition print_close_session :: "string" where
  "print_close_session = printed (
    lns [''<?xml version=\"1.0\" encoding=\"UTF-8\"?>'',
         ''    <rpc xmlns=\"urn:ietf:params:xml:ns:netconf:base:1.0\" message-id=\"2\">'',
         ''    <close-session/>'',
         ''    </rpc>'',
         ''    ''])"

definition print_commit :: "string" where
  "print_commit = printed (
    lns [''<?xml version=\"1.0\" encoding=\"UTF-8\"?>'',
         ''    <rpc xmlns=\"urn:ietf:params:xml:ns:netconf:base:1.0\" message-id=\"2\">'',
         ''    <commit/>'',
         ''    </rpc>'',
         ''    ''])"

definition print_commit_persist_id :: "string \<Rightarrow> string" where
  "print_commit_persist_id pid = printed (
    lns [''<?xml version=\"1.0\" encoding=\"UTF-8\"?>'',
         ''    <rpc xmlns=\"urn:ietf:params:xml:ns:netconf:base:1.0\" message-id=\"1\">'',
         ''    <commit><persist-id>''] @
    pid @
    lns [''</persist-id></commit>'',
         ''    </rpc>'',
         ''    ''])"

definition print_confirmed_commit_persist :: "string \<Rightarrow> string" where
  "print_confirmed_commit_persist pid = printed (
    lns [''<?xml version=\"1.0\" encoding=\"UTF-8\"?>'',
         ''    <rpc xmlns=\"urn:ietf:params:xml:ns:netconf:base:1.0\" message-id=\"3\">'',
         ''    <commit><confirmed/><persist>''] @
    pid @
    lns [''</persist></commit>'',
         ''    </rpc>'',
         ''    ''])"

definition print_close_session2 :: "string" where
  "print_close_session2 = printed (
    lns [''<?xml version=\"1.0\" encoding=\"UTF-8\"?>'',
         ''    <rpc xmlns=\"urn:ietf:params:xml:ns:netconf:base:1.0\" message-id=\"5\">'',
         ''    <close-session/>'',
         ''    </rpc>'',
         ''    ''])"

definition print_close_session3 :: "string" where
  "print_close_session3 = printed (
    lns [''<?xml version=\"1.0\" encoding=\"UTF-8\"?>'',
         ''    <rpc xmlns=\"urn:ietf:params:xml:ns:netconf:base:1.0\" message-id=\"3\">'',
         ''    <close-session/>'',
         ''    </rpc>'',
         ''    ''])"

text \<open>
  The template has one brace field for two arguments: it takes the data store, and the operation is not used. \<open>%s\<close> stays as it is.
\<close>

definition print_delete_config :: "string \<Rightarrow> string \<Rightarrow> string" where
  "print_delete_config op_str data_store = printed (
    lns [''<?xml version=\"1.0\" encoding=\"UTF-8\"?>'',
         ''    <rpc xmlns=\"urn:ietf:params:xml:ns:netconf:base:1.0\" xmlns:nc=\"urn:ietf:params:xml:ns:netconf:base:1.0\" message-id=\"1\">'',
         ''    <edit-config>'',
         ''    <target>'',
         ''    <%s/>'',
         ''    </target>'',
         ''    <config>'',
         ''    ''] @
    data_store @
    lns [''</config>'',
         ''    </edit-config>'',
         ''    </rpc>'',
         ''    ''])"

definition print_edit_config :: "string \<Rightarrow> string \<Rightarrow> string" where
  "print_edit_config op_str data_store = printed (
    ''<?xml version=\"1.0\" encoding=\"UTF-8\"?><rpc xmlns=\"urn:ietf:params:xml:ns:netconf:base:1.0\" xmlns:nc=\"urn:ietf:params:xml:ns:netconf:base:1.0\" message-id=\"1\"><edit-config><target><'' @
    data_store @
    ''/></target><config><active-cfg xmlns=\"http://tail-f.com/ns/example/routes/1.0\"><routes>'' @
    op_str @
    ''</routes></active-cfg></config></edit-config></rpc>'')"

definition print_delete_edit_config :: "string \<Rightarrow> string \<Rightarrow> string" where
  "print_delete_edit_config op_str data_store = printed (
    lns [''<?xml version=\"1.0\" encoding=\"UTF-8\"?>'',
         ''    <rpc xmlns=\"urn:ietf:params:xml:ns:netconf:base:1.0\" xmlns:nc=\"urn:ietf:params:xml:ns:netconf:base:1.0\" message-id=\"1\">'',
         ''    <edit-config>'',
         ''    <target>'',
         ''    <''] @
    data_store @
    lns [''/>'',
         ''    </target>'',
         ''    <config>'',
         ''    <active-cfg xmlns=\"http://tail-f.com/ns/example/routes/1.0\">'',
         ''    <routes nc:operation=\"delete\"/>'',
         ''    </active-cfg>'',
         ''    <active-cfg xmlns=\"http://tail-f.com/ns/example/routes/1.0\">'',
         ''    <routes>'',
         ''    ''] @
    op_str @
    lns [''</routes>'',
         ''    </active-cfg>'',
         ''    </config>'',
         ''    </edit-config>'',
         ''    </rpc>'',
         ''    ''])"

definition print_lock_running :: "string" where
  "print_lock_running = printed (
    lns [''<?xml version=\"1.0\" encoding=\"UTF-8\"?>'',
         ''    <rpc xmlns=\"urn:ietf:params:xml:ns:netconf:base:1.0\" message-id=\"1\">'',
         ''    <lock><target><running/></target></lock>'',
         ''    </rpc>'',
         ''    ''])"

definition print_unlock_running :: "string" where
  "print_unlock_running = printed (
    lns [''<?xml version=\"1.0\" encoding=\"UTF-8\"?>'',
         ''    <rpc xmlns=\"urn:ietf:params:xml:ns:netconf:base:1.0\" message-id=\"2\">'',
         ''    <unlock><target><running/></target></unlock>'',
         ''    </rpc>'',
         ''    ''])"

definition print_partial_lock_running :: "string" where
  "print_partial_lock_running = printed (
    lns [''<?xml version=\"1.0\" encoding=\"UTF-8\"?>'',
         ''    <nc:rpc xmlns=\"urn:ietf:params:xml:ns:netconf:partial-lock:1.0\" xmlns:nc=\"urn:ietf:params:xml:ns:netconf:base:1.0\" message-id=\"1\">'',
         ''    <partial-lock>'',
         ''      <select xmlns:r=\"http://tail-f.com/ns/example/routes/1.0\">'',
         ''        /r:active-cfg/r:routes/r:route[id='0000000']'',
         ''      </select>'',
         ''      <select xmlns:r=\"http://tail-f.com/ns/example/routes/1.0\">'',
         ''        /r:active-cfg/r:routes/r:route[r:id='0000001']'',
         ''      </select>'',
         ''    </partial-lock>'',
         ''</nc:rpc>'',
         ''    ''])"

definition print_partial_unlock_running :: "string \<Rightarrow> string" where
  "print_partial_unlock_running lock_id = printed (
    lns [''<?xml version=\"1.0\" encoding=\"UTF-8\"?>'',
         ''    <nc:rpc xmlns=\"urn:ietf:params:xml:ns:netconf:partial-lock:1.0\" xmlns:nc=\"urn:ietf:params:xml:ns:netconf:base:1.0\" message-id=\"2\">'',
         ''      <partial-unlock>'',
         ''        <lock-id>''] @
    lock_id @
    lns [''</lock-id>'',
         ''      </partial-unlock>'',
         ''    </nc:rpc>'',
         ''    ''])"

definition print_lock_candidate :: "string" where
  "print_lock_candidate = printed (
    lns [''<?xml version=\"1.0\" encoding=\"UTF-8\"?>'',
         ''    <rpc xmlns=\"urn:ietf:params:xml:ns:netconf:base:1.0\" message-id=\"1\">'',
         ''    <lock><target><candidate/></target></lock>'',
         ''    </rpc>'',
         ''    ''])"

definition print_unlock_candidate :: "string" where
  "print_unlock_candidate = printed (
    lns [''<?xml version=\"1.0\" encoding=\"UTF-8\"?>'',
         ''    <rpc xmlns=\"urn:ietf:params:xml:ns:netconf:base:1.0\" message-id=\"4\">'',
         ''    <unlock><target><candidate/></target></unlock>'',
         ''    </rpc>'',
         ''    ''])"

definition print_edit_config2 :: "string \<Rightarrow> string \<Rightarrow> string" where
  "print_edit_config2 op_str data_store = printed (
    lns [''<?xml version=\"1.0\" encoding=\"UTF-8\"?>'',
         ''    <rpc xmlns=\"urn:ietf:params:xml:ns:netconf:base:1.0\" xmlns:nc=\"urn:ietf:params:xml:ns:netconf:base:1.0\" message-id=\"2\">'',
         ''    <edit-config>'',
         ''    <target>'',
         ''    <''] @
    data_store @
    lns [''/>'',
         ''    </target>'',
         ''    <config>'',
         ''    <active-cfg xmlns=\"http://tail-f.com/ns/example/routes/1.0\">'',
         ''    <routes>'',
         ''    ''] @
    op_str @
    lns [''</routes>'',
         ''    </active-cfg>'',
         ''    </config>'',
         ''    </edit-config>'',
         ''    </rpc>'',
         ''    ''])"

definition print_copy_config :: "string \<Rightarrow> string \<Rightarrow> string" where
  "print_copy_config op_str data_store = printed (
    lns [''<?xml version=\"1.0\" encoding=\"UTF-8\"?>'',
         ''    <rpc xmlns=\"urn:ietf:params:xml:ns:netconf:base:1.0\" xmlns:nc=\"urn:ietf:params:xml:ns:netconf:base:1.0\" message-id=\"1\">'',
         ''    <copy-config>'',
         ''    <target>'',
         ''    <''] @
    data_store @
    lns [''/>'',
         ''    </target>'',
         ''    <source>'',
         ''    <config>'',
         ''    <active-cfg xmlns=\"http://tail-f.com/ns/example/routes/1.0\">'',
         ''    <routes>'',
         ''    ''] @
    op_str @
    lns [''</routes>'',
         ''    </active-cfg>'',
         ''    </config>'',
         ''    </source>'',
         ''    </copy-config>'',
         ''    </rpc>'',
         ''    ''])"

section \<open>Sessions\<close>

text \<open>
  The digits of an address from the lowest octet. \<open>num /= 256\<close> divides floats; the division by
  a power of two is exact, so \<open>num\<close> is a rational number here, for arguments that a float holds exactly.
\<close>

definition rat_mod_256 :: "rat \<Rightarrow> rat" where
  "rat_mod_256 x = x - 256 * of_int \<lfloor>x / 256\<rfloor>"

fun dot_notation_loop :: "nat \<Rightarrow> rat \<Rightarrow> string \<Rightarrow> string" where
  "dot_notation_loop 0 num str = str"
| "dot_notation_loop (Suc k) num str =
     (let n = nat \<lfloor>rat_mod_256 num\<rfloor>
      in dot_notation_loop k (num / 256) (if str \<noteq> [] then nat_str n @ ''.'' @ str else nat_str n))"

definition dot_notation :: "int \<Rightarrow> nat \<Rightarrow> string" where
  "dot_notation num len = dot_notation_loop len (of_int num) []"

definition delete_routes_config :: string where
  "delete_routes_config = print_hello @ print_delim @
     print_delete_config (
    lns [[],
         ''    <active-cfg xmlns=\"http://tail-f.com/ns/example/routes/1.0\"><routes nc:operation=\"delete\"/></active-cfg>'']) ''running'' @ print_delim @
     print_close_session @ print_delim"

definition route_text :: "nat \<Rightarrow> string" where
  "route_text i =
    lns [[],
         ''        <route>'',
         ''        <id>''] @
    pad7 i @
    lns [''</id>'',
         ''        <leaf1>1</leaf1>'',
         ''        <leaf2>2</leaf2>'',
         ''        <leaf3>3</leaf3>'',
         ''        <leaf4>4</leaf4>'',
         ''        </route>'']"

definition route_line :: "nat \<Rightarrow> string" where
  "route_line i =
    ''<route><id>'' @
    pad7 i @
    ''</id><leaf1>1</leaf1><leaf2>2</leaf2><leaf3>3</leaf3><leaf4>4</leaf4></route>''"

definition edit_delete_routes_config :: "py_num \<Rightarrow> string \<times> unit result" where
  "edit_delete_routes_config n =
     (case py_range n of
        Inl e \<Rightarrow> (print_hello @ print_delim, Inl e)
      | Inr is \<Rightarrow>
          (print_hello @ print_delim @
           print_delete_edit_config (concat (map route_text is)) ''running'' @ print_delim @
           print_close_session @ print_delim, Inr ()))"

definition edit_config_running :: "py_num \<Rightarrow> string \<times> unit result" where
  "edit_config_running n =
     (case py_range n of
        Inl e \<Rightarrow> (print_hello @ print_delim, Inl e)
      | Inr is \<Rightarrow>
          (print_hello @ print_delim @
           print_edit_config (concat (map route_line is)) ''running'' @ print_delim @
           print_close_session @ print_delim, Inr ()))"

definition edit_config_candidate_confirmed_commit :: "py_num \<Rightarrow> string \<Rightarrow> string \<times> unit result" where
  "edit_config_candidate_confirmed_commit n pid =
     (case py_range n of
        Inl e \<Rightarrow> (print_hello @ print_delim @ print_lock_candidate @ print_delim, Inl e)
      | Inr is \<Rightarrow>
          (print_hello @ print_delim @ print_lock_candidate @ print_delim @
           print_edit_config2 (concat (map route_text is)) ''candidate'' @ print_delim @
           print_confirmed_commit_persist pid @ print_delim @
           print_unlock_candidate @ print_delim @ print_close_session2 @ print_delim, Inr ()))"

definition aa_confirm_commit :: "string \<Rightarrow> string" where
  "aa_confirm_commit pid = print_hello @ print_delim @ print_commit_persist_id pid @ print_delim @
     print_close_session @ print_delim"

definition trans_size_test3 :: "py_num \<Rightarrow> string \<times> unit result" where
  "trans_size_test3 n =
     (case py_range n of
        Inl e \<Rightarrow> (print_hello @ print_delim, Inl e)
      | Inr is \<Rightarrow>
          (print_hello @ print_delim @
           print_copy_config (concat (map route_text is)) ''running'' @ print_delim @
           print_close_session @ print_delim, Inr ()))"

definition lock_unlock_running :: string where
  "lock_unlock_running = print_hello @ print_delim @ print_lock_running @ print_delim @
     print_unlock_running @ print_delim @ print_close_session3 @ print_delim"

definition partial_lock_unlock_running :: "string \<Rightarrow> string" where
  "partial_lock_unlock_running lock_id = print_hello @ print_delim @ print_partial_lock_running @ print_delim @
     print_partial_unlock_running lock_id @ print_delim @ print_close_session3 @ print_delim"

text \<open>
  The script. \<open>format_num\<close> is the notation of a number in a message and \<open>format_argv\<close> that of the argument list.
\<close>

definition ncgen_main ::
  "(py_num \<Rightarrow> string) \<Rightarrow> (string list \<Rightarrow> string) \<Rightarrow> string list \<Rightarrow> string \<times> unit result" where
  "ncgen_main format_num format_argv args =
     with_arg (py_arg args 0) (\<lambda>cmd.
       if cmd = ''edit_config_running'' then with_arg (num_arg args 1) edit_config_running
       else if cmd = ''edit_config_candidate_confirmed_commit'' then
         with_arg (num_arg args 1) (\<lambda>n. with_arg (py_arg args 2) (\<lambda>pid. edit_config_candidate_confirmed_commit n pid))
       else if cmd = ''trans_many_test'' then ([], Inl NameError)
       else if cmd = ''delete_routes_config'' then (delete_routes_config, Inr ())
       else if cmd = ''edit_delete_routes_config'' then with_arg (num_arg args 1) edit_delete_routes_config
       else if cmd = ''confirm_commit'' then with_arg (py_arg args 1) (\<lambda>pid. (aa_confirm_commit pid, Inr ()))
       else if cmd = ''lock_running'' then (lock_unlock_running, Inr ())
       else if cmd = ''partial_lock_running'' then
         with_arg (num_arg args 1) (\<lambda>n. (partial_lock_unlock_running (format_num n), Inr ()))
       else (printed (''Unrecognized command '' @ [CHR 0x27] @ format_argv args @ [CHR 0x27]), Inr ()))"

section \<open>Its messages\<close>

definition blank :: string where
  "blank = ''\<newline>    \<newline>''"

lemma print_delim_eq: "print_delim = EOM_1_0 @ blank"
  by (simp add: print_delim_def EOM_1_0_def blank_def printed_def)

lemma msg_hello: "msg_ok ''id'' [] print_hello"
  unfolding msg_ok_def balanced_def printed_def print_hello_def by (simp add: message_simps cong: message_congs)

lemma aa_sessionI:
  "list_all2 (msg_ok ''id'') idss ms \<Longrightarrow> s = print_hello @ print_delim @ concat (map (\<lambda>m. m @ print_delim) ms) \<Longrightarrow>
     session_ok ''id'' blank ([] # idss) s"
  using session_okI [OF msg_hello _ _ print_delim_eq] by (simp add: blanks_def blank_def)

lemma msg_close_session: "msg_ok ''id'' [] print_close_session" "msg_ok ''id'' [] print_close_session2" "msg_ok ''id'' [] print_close_session3"
  unfolding msg_ok_def balanced_def printed_def print_close_session_def print_close_session2_def
    print_close_session3_def
  by (simp_all add: message_simps cong: message_congs)

lemma msg_commit:
  assumes "clean pid"
  shows "msg_ok ''id'' [] (print_commit_persist_id pid)" "msg_ok ''id'' [] (print_confirmed_commit_persist pid)"
  using assms
  unfolding msg_ok_def balanced_def printed_def print_commit_persist_id_def print_confirmed_commit_persist_def
  by (simp_all add: message_simps cong: message_congs)

lemma msg_lock:
  "msg_ok ''id'' [] print_lock_running" "msg_ok ''id'' [] print_unlock_running" "msg_ok ''id'' [] print_lock_candidate"
  "msg_ok ''id'' [] print_unlock_candidate"
  unfolding msg_ok_def balanced_def printed_def print_lock_running_def print_unlock_running_def
    print_lock_candidate_def print_unlock_candidate_def
  by (simp_all add: message_simps cong: message_congs)

lemma msg_partial_lock:
  assumes "clean lock_id"
  shows "msg_ok ''id'' [] print_partial_lock_running" "msg_ok ''id'' [] (print_partial_unlock_running lock_id)"
  using assms
  unfolding msg_ok_def balanced_def printed_def print_partial_lock_running_def print_partial_unlock_running_def
  by (simp_all add: message_simps sq.simps cong: message_congs)

lemma msg_delete: "msg_ok ''id'' [] (print_delete_config op ''running'')"
  unfolding msg_ok_def balanced_def printed_def print_delete_config_def
  by (simp add: message_simps cong: message_congs)

lemma body_route_text: "body ''id'' [pad7 i] (route_text i)"
  using clean_pad7 [of i]
  unfolding body_def part_def neutral_def route_text_def
  by (simp add: message_simps cong: message_congs)

lemma body_route_line: "body ''id'' [pad7 i] (route_line i)"
  using clean_pad7 [of i]
  unfolding body_def part_def neutral_def route_line_def
  by (simp add: message_simps cong: message_congs)

lemma body_routes:
  "body ''id'' (map pad7 is) (concat (map route_text is))" "body ''id'' (map pad7 is) (concat (map route_line is))"
  using body_concat [of "is" "''id''" "\<lambda>i. [pad7 i]" route_text] body_concat [of "is" "''id''" "\<lambda>i. [pad7 i]" route_line]
    body_route_text body_route_line by simp_all

lemma msg_edit:
  assumes "body ''id'' ids s"
  shows "msg_ok ''id'' ids (print_edit_config s ''running'')" "msg_ok ''id'' ids (print_edit_config2 s ''candidate'')"
    "msg_ok ''id'' ids (print_copy_config s ''running'')" "msg_ok ''id'' ids (print_delete_edit_config s ''running'')"
  using assms part_scan [of "''id''" ids s] part_texts [of "''id''" ids s]
  unfolding msg_ok_def balanced_def printed_def print_edit_config_def print_edit_config2_def
    print_copy_config_def print_delete_edit_config_def body_def
  by (simp_all add: message_simps cong: message_congs)

section \<open>Properties\<close>

text \<open>
  \<open>dot_notation\<close> with its division of floats writes the octets of the number in base 256: the fractions it leaves in
  \<open>num\<close> never reach a digit.
\<close>

fun dotted :: "nat \<Rightarrow> int \<Rightarrow> string list" where
  "dotted 0 n = []"
| "dotted (Suc k) n = dotted k (n div 256) @ [nat_str (nat (n mod 256))]"

lemma rat_floor_div: "\<lfloor>(x :: rat) / 256\<rfloor> = \<lfloor>x\<rfloor> div 256"
proof -
  let ?n = "\<lfloor>x\<rfloor>"
  have "256 * (?n div 256) \<le> ?n" "?n + 1 \<le> 256 * (?n div 256) + 256" by presburger+
  then have "(of_int (256 * (?n div 256)) :: rat) \<le> of_int ?n"
      "(of_int (?n + 1) :: rat) \<le> of_int (256 * (?n div 256) + 256)"
    by (simp_all only: of_int_le_iff)
  moreover have "of_int ?n \<le> x" "x < of_int ?n + 1" by linarith+
  ultimately have "256 * of_int (?n div 256) \<le> x" "x < 256 * of_int (?n div 256) + 256"
    by (simp_all only: of_int_mult of_int_add of_int_numeral of_int_1)
  then show ?thesis by (simp add: floor_eq_iff field_simps)
qed

lemma rat_mod_floor: "\<lfloor>rat_mod_256 x\<rfloor> = \<lfloor>x\<rfloor> mod 256"
proof -
  have "rat_mod_256 x = x - of_int (256 * (\<lfloor>x\<rfloor> div 256))" by (simp add: rat_mod_256_def rat_floor_div)
  then show ?thesis by (simp only: floor_diff_of_int minus_mult_div_eq_mod)
qed

lemma dot_loop:
  assumes "\<forall>d \<in> set ds. d \<noteq> []"
  shows "dot_notation_loop k x (py_join ''.'' ds) = py_join ''.'' (dotted k \<lfloor>x\<rfloor> @ ds)"
  using assms
proof (induction k arbitrary: x ds)
  case (Suc k)
  let ?d = "nat_str (nat (\<lfloor>x\<rfloor> mod 256))"
  have "(if py_join ''.'' ds \<noteq> [] then ?d @ ''.'' @ py_join ''.'' ds else ?d) = py_join ''.'' (?d # ds)"
    using Suc.prems by (cases ds rule: remdups_adj.cases) auto
  then show ?case
    using Suc.IH [of "?d # ds" "x / 256"] Suc.prems by (simp add: rat_mod_floor rat_floor_div Let_def)
qed simp

theorem dot_notation_dotted: "dot_notation num len = py_join ''.'' (dotted len num)"
  using dot_loop [of "[]" len "of_int num"] by (simp add: dot_notation_def)

text \<open>The identifiers that a command line asks for, per message of the session.\<close>

definition wanted_routes :: "string list \<Rightarrow> string list" where
  "wanted_routes args =
     (case num_arg args 1 of
        Inr (PInt n) \<Rightarrow>
          if hd args \<in> {''edit_config_running'', ''edit_config_candidate_confirmed_commit'', ''edit_delete_routes_config''}
          then map pad7 [0..<nat n] else []
      | _ \<Rightarrow> [])"

definition ncgen_commands :: "string list" where
  "ncgen_commands = [''edit_config_running'', ''edit_config_candidate_confirmed_commit'', ''delete_routes_config'',
     ''edit_delete_routes_config'', ''confirm_commit'', ''lock_running'', ''partial_lock_running'']"

lemma session_delete: "session_ok ''id'' blank [[], [], []] delete_routes_config"
  by (rule aa_sessionI [where ms = "[print_delete_config _ ''running'', print_close_session]"])
    (simp_all add: msg_delete msg_close_session delete_routes_config_def)

lemma session_locks: "session_ok ''id'' blank [[], [], [], []] lock_unlock_running"
  "clean lock_id \<Longrightarrow> session_ok ''id'' blank [[], [], [], []] (partial_lock_unlock_running lock_id)"
proof -
  show "session_ok ''id'' blank [[], [], [], []] lock_unlock_running"
    by (rule aa_sessionI [where ms = "[print_lock_running, print_unlock_running, print_close_session3]"])
      (simp_all add: msg_lock msg_close_session lock_unlock_running_def)
  show "session_ok ''id'' blank [[], [], [], []] (partial_lock_unlock_running lock_id)" if "clean lock_id"
    by (rule aa_sessionI [where ms = "[print_partial_lock_running, print_partial_unlock_running lock_id,
        print_close_session3]"])
      (simp_all add: msg_partial_lock [OF that] msg_close_session partial_lock_unlock_running_def)
qed

lemma session_confirm: "clean pid \<Longrightarrow> session_ok ''id'' blank [[], [], []] (aa_confirm_commit pid)"
  by (rule aa_sessionI [where ms = "[print_commit_persist_id pid, print_close_session]"])
    (simp_all add: msg_commit msg_close_session aa_confirm_commit_def)

lemma session_edits:
  "session_ok ''id'' blank [[], map pad7 [0..<nat n], []] (fst (edit_config_running (PInt n)))"
  "session_ok ''id'' blank [[], map pad7 [0..<nat n], []] (fst (edit_delete_routes_config (PInt n)))"
  "session_ok ''id'' blank [[], map pad7 [0..<nat n], []] (fst (trans_size_test3 (PInt n)))"
proof -
  show "session_ok ''id'' blank [[], map pad7 [0..<nat n], []] (fst (edit_config_running (PInt n)))"
    by (rule aa_sessionI [where ms = "[print_edit_config (concat (map route_line [0..<nat n])) ''running'',
        print_close_session]"])
      (simp_all add: msg_edit [OF body_routes(2)] msg_close_session edit_config_running_def)
  show "session_ok ''id'' blank [[], map pad7 [0..<nat n], []] (fst (edit_delete_routes_config (PInt n)))"
    by (rule aa_sessionI [where ms = "[print_delete_edit_config (concat (map route_text [0..<nat n])) ''running'',
        print_close_session]"])
      (simp_all add: msg_edit [OF body_routes(1)] msg_close_session edit_delete_routes_config_def)
  show "session_ok ''id'' blank [[], map pad7 [0..<nat n], []] (fst (trans_size_test3 (PInt n)))"
    by (rule aa_sessionI [where ms = "[print_copy_config (concat (map route_text [0..<nat n])) ''running'',
        print_close_session]"])
      (simp_all add: msg_edit [OF body_routes(1)] msg_close_session trans_size_test3_def)
qed

lemma session_candidate:
  assumes "clean pid"
  shows "session_ok ''id'' blank [[], [], map pad7 [0..<nat n], [], [], []] (fst (edit_config_candidate_confirmed_commit (PInt n) pid))"
  by (rule aa_sessionI [where ms = "[print_lock_candidate,
      print_edit_config2 (concat (map route_text [0..<nat n])) ''candidate'', print_confirmed_commit_persist pid,
      print_unlock_candidate, print_close_session2]"])
    (simp_all add: msg_edit [OF body_routes(1)] msg_lock msg_commit [OF assms] msg_close_session
      edit_config_candidate_confirmed_commit_def)

text \<open>A run of a command that does not raise prints a session with the routes that were asked for.\<close>

lemma ranged_Inr:
  "edit_config_running n = (out, Inr ()) \<Longrightarrow> \<exists>i. n = PInt i"
  "edit_delete_routes_config n = (out, Inr ()) \<Longrightarrow> \<exists>i. n = PInt i"
  "edit_config_candidate_confirmed_commit n pid = (out, Inr ()) \<Longrightarrow> \<exists>i. n = PInt i"
  by (cases n; simp add: edit_config_running_def edit_delete_routes_config_def
      edit_config_candidate_confirmed_commit_def)+

lemma py_arg_clean: "py_arg args i = Inr a \<Longrightarrow> \<forall>a \<in> set args. clean a \<Longrightarrow> clean a"
  by (auto simp: py_arg_def split: if_splits)

lemma ncgen_session:
  assumes "ncgen_main fnum fargv args = (out, Inr ())" and "hd args \<in> set ncgen_commands"
    and "\<forall>a \<in> set args. clean a" and "\<forall>n. clean (fnum n)"
  shows "\<exists>idss. session_ok ''id'' blank idss out \<and> concat idss = wanted_routes args \<and> 3 \<le> length idss"
proof -
  obtain cmd where cmd: "py_arg args 0 = Inr cmd"
    using assms(1) by (auto simp: ncgen_main_def dest: with_arg_Inr)
  then have hd: "hd args = cmd" by (cases args) (auto simp: py_arg_def split: if_splits)
  note run = assms(1) [unfolded ncgen_main_def cmd, unfolded with_arg_def [of "Inr cmd"], simplified]
  consider "cmd = ''edit_config_running''" | "cmd = ''edit_config_candidate_confirmed_commit''"
    | "cmd = ''delete_routes_config''" | "cmd = ''edit_delete_routes_config''" | "cmd = ''confirm_commit''"
    | "cmd = ''lock_running''" | "cmd = ''partial_lock_running''"
    using assms(2) hd unfolding ncgen_commands_def by auto
  then show ?thesis
  proof cases
    case 1
    with run obtain n where "num_arg args 1 = Inr n" "edit_config_running n = (out, Inr ())"
      by (auto dest: with_arg_Inr)
    moreover from this obtain i where "n = PInt i" using ranged_Inr by blast
    ultimately show ?thesis using session_edits(1) [of i] hd 1
      by (intro exI [of _ "[[], map pad7 [0..<nat i], []]"]) (auto simp: wanted_routes_def)
  next
    case 2
    with run obtain n pid where n: "num_arg args 1 = Inr n" "py_arg args 2 = Inr pid"
        "edit_config_candidate_confirmed_commit n pid = (out, Inr ())"
      by (auto dest!: with_arg_Inr)
    moreover from this obtain i where "n = PInt i" using ranged_Inr by blast
    ultimately show ?thesis using session_candidate [OF py_arg_clean [OF n(2) assms(3)], of i] hd 2
      by (intro exI [of _ "[[], [], map pad7 [0..<nat i], [], [], []]"]) (auto simp: wanted_routes_def)
  next
    case 3
    with run session_delete hd show ?thesis
      by (intro exI [of _ "[[], [], []]"]) (auto simp: wanted_routes_def split: sum.splits py_num.splits)
  next
    case 4
    with run obtain n where "num_arg args 1 = Inr n" "edit_delete_routes_config n = (out, Inr ())"
      by (auto dest: with_arg_Inr)
    moreover from this obtain i where "n = PInt i" using ranged_Inr by blast
    ultimately show ?thesis using session_edits(2) [of i] hd 4
      by (intro exI [of _ "[[], map pad7 [0..<nat i], []]"]) (auto simp: wanted_routes_def)
  next
    case 5
    with run obtain pid where p: "py_arg args 1 = Inr pid" "out = aa_confirm_commit pid" by (auto dest!: with_arg_Inr)
    with session_confirm [OF py_arg_clean [OF p(1) assms(3)]] hd 5 show ?thesis
      by (intro exI [of _ "[[], [], []]"]) (auto simp: wanted_routes_def split: sum.splits py_num.splits)
  next
    case 6
    with run session_locks(1) hd show ?thesis
      by (intro exI [of _ "[[], [], [], []]"]) (auto simp: wanted_routes_def split: sum.splits py_num.splits)
  next
    case 7
    with run obtain n where "out = partial_lock_unlock_running (fnum n)" by (auto dest!: with_arg_Inr)
    with session_locks(2) [of "fnum n"] assms(4) hd 7 show ?thesis
      by (intro exI [of _ "[[], [], [], []]"]) (auto simp: wanted_routes_def split: sum.splits py_num.splits)
  qed
qed

text \<open>
  C18. A run of the script that does not raise, read by a receiver with the end-of-message framing however the output is cut into
  segments: the receiver gets at least three messages, each with balanced elements, that together carry exactly the routes
  \<open>0, \<dots>, n - 1\<close> of the command line in order, and only blank text is left.
\<close>

theorem ncgen_session_received:
  assumes "ncgen_main fnum fargv args = (out, Inr ())" and "hd args \<in> set ncgen_commands"
    and "\<forall>a \<in> set args. clean a" and "\<forall>n. clean (fnum n)"
    and "tr_framing t = FRAMING_1_0" and "\<not> tr_eom_found t" and "live (tr_in t)" and "stream t = out"
  shows "\<exists>ms t'. recv_msgs (length ms) t = (t', Inr (map u ms)) \<and> 3 \<le> length ms \<and> list_all balanced ms \<and>
     concat (map (leaf_texts ''id'') ms) = wanted_routes args \<and> stream t' = blank"
proof -
  obtain idss where "session_ok ''id'' blank idss out" "concat idss = wanted_routes args" "3 \<le> length idss"
    using ncgen_session [OF assms(1-4)] by blast
  with session_received [OF this(1) assms(5-8)] show ?thesis by metis
qed

lemma ncgen_session_received_witness:
  "\<exists>ms t'. recv_msgs (length ms)
       (transport_init [fst (ncgen_main (\<lambda>_. []) concat [''edit_config_running'', ''2''])]) = (t', Inr (map u ms)) \<and>
     concat (map (leaf_texts ''id'') ms) = [''0000000'', ''0000001'']"
proof -
  let ?args = "[''edit_config_running'', ''2'']"
  let ?run = "ncgen_main (\<lambda>_. []) concat ?args"
  have "nat_str 2 = ''2''" by code_simp
  with parse_num_nat [of 2] have num: "num_arg ?args 1 = Inr (PInt 2)" by (simp add: num_arg_def py_arg_def)
  then have run: "?run = (fst ?run, Inr ())"
    by (simp add: ncgen_main_def with_arg_def py_arg_def edit_config_running_def)
  then have out: "fst ?run \<noteq> []" using num
    by (simp add: ncgen_main_def with_arg_def py_arg_def edit_config_running_def print_hello_def printed_def)
  have tr: "tr_framing (transport_init [fst ?run]) = FRAMING_1_0" "\<not> tr_eom_found (transport_init [fst ?run])"
      "live (tr_in (transport_init [fst ?run]))" "stream (transport_init [fst ?run]) = fst ?run"
    using out by (simp_all add: transport_init_def stream_def)
  have args: "hd ?args \<in> set ncgen_commands" "\<forall>a \<in> set ?args. clean a" "\<forall>n. clean ((\<lambda>_. []) n)"
    by (simp_all add: ncgen_commands_def clean_def no_angle_def ascii_def)
  have "wanted_routes ?args = [''0000000'', ''0000001'']"
  proof -
    have "map pad7 [0..<nat 2] = [''0000000'', ''0000001'']" by code_simp
    with num show ?thesis by (simp add: wanted_routes_def)
  qed
  with ncgen_session_received [OF run args tr] show ?thesis by metis
qed

text \<open>
  The command that should delete the routes: the message has the name of the data store as the text of its
  configuration, whatever operation it was given.
\<close>

theorem delete_config_ignores_operation:
  assumes "no_angle data_store"
  shows "leaf_texts ''config'' (print_delete_config op_str data_store) = [''\<newline>    '' @ data_store]"
  using assms unfolding printed_def print_delete_config_def
  by (simp add: message_simps cong: message_congs)

end
