(* ===== verification/Mgr_Gen.thy ===== *)
theory Mgr_Gen
  imports Gen_Session
begin

text \<open>
  The request generators of \<open>confd-manager-client\<close>: \<open>app/ncgen.py\<close> prints NETCONF sessions and \<open>app/rcgen.py\<close>
  the body of a RESTCONF patch. Both number their destinations in blocks of 256.
\<close>

section \<open>Messages\<close>

definition mgr_print_hello :: "string" where
  "mgr_print_hello = printed (
    lns [''<?xml version=\"1.0\" encoding=\"UTF-8\"?>'',
         ''<hello xmlns=\"urn:ietf:params:xml:ns:netconf:base:1.0\">'',
         ''  <capabilities>'',
         ''    <capability>urn:ietf:params:netconf:base:1.0</capability>'',
         ''  </capabilities>'',
         ''</hello>''])"

definition mgr_print_delim :: "string" where
  "mgr_print_delim = printed (
    '']]>]]>'')"

definition mgr_print_close_session :: "nat \<Rightarrow> string" where
  "mgr_print_close_session mid = printed (
    lns [''<?xml version=\"1.0\" encoding=\"UTF-8\"?>'',
         ''<rpc xmlns=\"urn:ietf:params:xml:ns:netconf:base:1.0\" message-id=\"''] @
    nat_str mid @
    lns [''\">'',
         ''  <close-session/>'',
         ''</rpc>'',
         ''    ''])"

definition mgr_print_commit :: "nat \<Rightarrow> string" where
  "mgr_print_commit mid = printed (
    lns [''<?xml version=\"1.0\" encoding=\"UTF-8\"?>'',
         ''<rpc xmlns=\"urn:ietf:params:xml:ns:netconf:base:1.0\" message-id=\"''] @
    nat_str mid @
    lns [''\">'',
         ''  <commit/>'',
         ''</rpc>''])"

definition mgr_print_edit_config :: "string \<Rightarrow> string \<Rightarrow> nat \<Rightarrow> string" where
  "mgr_print_edit_config op_str data_store mid = printed (
    lns [''<?xml version=\"1.0\" encoding=\"UTF-8\"?>'',
         ''<rpc xmlns=\"urn:ietf:params:xml:ns:netconf:base:1.0\" message-id=\"''] @
    nat_str mid @
    lns [''\">'',
         ''  <edit-config>'',
         ''    <target>'',
         ''      <''] @
    data_store @
    lns [''/>'',
         ''    </target>'',
         ''    <config>'',
         ''      <router xmlns=\"http://tail-f.com/ns/example/routing\">'',
         ''        <static>'',
         ''          <address-family>'',
         ''            <ipv4>'',
         ''              <unicast>''] @
    op_str @
    lns [[],
         ''              </unicast>'',
         ''            </ipv4>'',
         ''          </address-family>'',
         ''        </static>'',
         ''      </router>'',
         ''    </config>'',
         ''  </edit-config>'',
         ''</rpc>''])"

section \<open>Destinations\<close>

text \<open>
  One block of the loop. The remaining number \<open>n\<close> is counted down; \<open>dest\<close> is the text of one destination.
  \<open>int(math.ceil(n / 256.0))\<close> is exact for every number that a float holds.
\<close>

definition dest_block :: "(nat \<Rightarrow> nat \<Rightarrow> string) \<Rightarrow> nat \<Rightarrow> int \<times> string \<Rightarrow> int \<times> string" where
  "dest_block dest i s =
     (case s of (n, str) \<Rightarrow>
        let l = (if n > 256 then 256 else n)
        in (n - l, str @ concat (map (dest i) [0..<nat l])))"

definition dest_blocks :: "(nat \<Rightarrow> nat \<Rightarrow> string) \<Rightarrow> py_num \<Rightarrow> string result" where
  "dest_blocks dest num =
     (case num of
        PFloat \<Rightarrow> Inl TypeError
      | PInt n \<Rightarrow>
          (let m = - ((- n) div 256)
           in Inr (snd (fold (dest_block dest) [0..<nat m] (n, [])))))"

definition nc_destination :: "nat \<Rightarrow> nat \<Rightarrow> string" where
  "nc_destination i j =
    lns [[],
         ''                <destination>'',
         ''                  <prefix>192.''] @
    nat_str i @
    ''.'' @
    nat_str j @
    lns [''.0/24</prefix>'',
         ''                  <nexthop>172.16.1.2</nexthop>'',
         ''                </destination>'']"

section \<open>Sessions\<close>

definition trans_size_edit_config :: "py_num \<Rightarrow> string \<Rightarrow> string \<times> unit result" where
  "trans_size_edit_config n data_store =
     (case dest_blocks nc_destination n of
        Inl e \<Rightarrow> (mgr_print_hello @ mgr_print_delim, Inl e)
      | Inr str \<Rightarrow>
          (mgr_print_hello @ mgr_print_delim @ mgr_print_edit_config str data_store 1 @ mgr_print_delim @
           (if data_store = ''candidate'' then mgr_print_close_session 2 else mgr_print_close_session 2) @
           mgr_print_delim, Inr ()))"

definition delete_edit_msg :: "string \<Rightarrow> string" where
  "delete_edit_msg data_store = printed (
    lns [''<?xml version=\"1.0\" encoding=\"UTF-8\"?>'',
         ''<rpc xmlns=\"urn:ietf:params:xml:ns:netconf:base:1.0\" xmlns:nc=\"urn:ietf:params:xml:ns:netconf:base:1.0\" message-id=\"1\">'',
         ''  <edit-config>'',
         ''    <target>'',
         ''      <''] @
    data_store @
    lns [''/>'',
         ''    </target>'',
         ''    <config>'',
         ''      <router xmlns=\"http://tail-f.com/ns/example/routing\" nc:operation=\"delete\"/>'',
         ''    </config>'',
         ''  </edit-config>'',
         ''</rpc>''])"

definition trans_delete_edit_config :: "string \<Rightarrow> string" where
  "trans_delete_edit_config data_store =
     mgr_print_hello @ mgr_print_delim @ delete_edit_msg data_store @ mgr_print_delim @
     (if data_store = ''candidate''
      then mgr_print_commit 2 @ mgr_print_delim @ mgr_print_close_session 3
      else mgr_print_close_session 2) @ mgr_print_delim"

definition mgr_ncgen_main :: "(string list \<Rightarrow> string) \<Rightarrow> string list \<Rightarrow> string \<times> unit result" where
  "mgr_ncgen_main format_argv args =
     with_arg (py_arg args 0) (\<lambda>cmd.
       if cmd = ''trans_size_edit_config_running'' then
         with_arg (num_arg args 1) (\<lambda>n. trans_size_edit_config n ''running'')
       else if cmd = ''trans_size_edit_config_candidate'' then
         with_arg (num_arg args 1) (\<lambda>n. trans_size_edit_config n ''candidate'')
       else if cmd = ''trans_delete_edit_config_candidate'' then (trans_delete_edit_config ''candidate'', Inr ())
       else (printed (''Unrecognized command '' @ [CHR 0x27] @ format_argv args @ [CHR 0x27]), Inr ()))"

section \<open>The RESTCONF body\<close>

definition print_plain_patch_config :: "string \<Rightarrow> string" where
  "print_plain_patch_config op_str = printed (
    lns [''<data>'',
         ''  <router xmlns=\"http://tail-f.com/ns/example/routing\">'',
         ''    <static>'',
         ''      <address-family>'',
         ''        <ipv4>'',
         ''          <unicast>''] @
    op_str @
    lns [[],
         ''          </unicast>'',
         ''        </ipv4>'',
         ''      </address-family>'',
         ''    </static>'',
         ''  </router>'',
         ''</data>''])"

definition rc_destination :: "nat \<Rightarrow> nat \<Rightarrow> string" where
  "rc_destination i j =
    lns [[],
         ''            <destination>'',
         ''              <prefix>192.''] @
    nat_str i @
    ''.'' @
    nat_str j @
    lns [''.0/24</prefix>'',
         ''              <nexthop>172.16.1.2</nexthop>'',
         ''            </destination>'']"

definition trans_size_plain_patch_running :: "py_num \<Rightarrow> string \<times> unit result" where
  "trans_size_plain_patch_running n =
     (case dest_blocks rc_destination n of
        Inl e \<Rightarrow> ([], Inl e)
      | Inr str \<Rightarrow> (print_plain_patch_config str, Inr ()))"

definition rcgen_main :: "(string list \<Rightarrow> string) \<Rightarrow> string list \<Rightarrow> string \<times> unit result" where
  "rcgen_main format_argv args =
     with_arg (py_arg args 0) (\<lambda>cmd.
       if cmd = ''trans_size_plain_patch_running'' then with_arg (num_arg args 1) trans_size_plain_patch_running
       else (printed (''Unrecognized command '' @ [CHR 0x27] @ format_argv args @ [CHR 0x27]), Inr ()))"

section \<open>Lemmas\<close>

lemma block_texts:
  assumes "l \<le> 256"
  shows "concat (map (\<lambda>j. dest (k + j div 256) (j mod 256)) [0..<l]) = concat (map (dest k) [0..<l])"
  using assms by (intro arg_cong [where f = concat] map_cong) auto

text \<open>After \<open>k\<close> whole blocks.\<close>

lemma dest_whole_blocks:
  assumes "256 * int k < n"
  shows "fold (dest_block dest) [0..<k] (n, []) =
     (n - 256 * int k, concat (map (\<lambda>d. dest (d div 256) (d mod 256)) [0..<256 * k]))"
  using assms
proof (induction k)
  case (Suc k)
  have "[0..<256 * Suc k] = [0..<256 * k] @ map (\<lambda>j. 256 * k + j) [0..<256]"
    using upt_add_eq_append [of 0 "256 * k" 256] map_add_upt [of "256 * k" 256] by (simp add: add.commute)
  then show ?case
    using Suc by (simp add: dest_block_def o_def block_texts)
qed simp

lemma dest_blocks_all:
  "dest_blocks dest (PInt n) = Inr (concat (map (\<lambda>d. dest (d div 256) (d mod 256)) [0..<nat n]))"
proof (cases "0 < n")
  case True
  let ?m = "nat (- ((- n) div 256))"
  let ?k = "nat ((n - 1) div 256)"
  have m: "?m = Suc ?k" and k: "256 * int ?k < n" and l: "n - 256 * int ?k \<le> 256"
    using True by (auto simp: nat_eq_iff)
  let ?l = "nat n - 256 * ?k"
  have "concat (map (\<lambda>j. dest (?k + j div 256) (j mod 256)) [0..<?l]) = concat (map (dest ?k) [0..<?l])"
    using l by (intro block_texts) linarith
  moreover have "[0..<nat n] = [0..<256 * ?k] @ map (\<lambda>j. 256 * ?k + j) [0..<?l]"
    using upt_add_eq_append [of 0 "256 * ?k" ?l] map_add_upt [of "256 * ?k" ?l] k by (simp add: add.commute)
  moreover have "nat (n - 256 * int ?k) = ?l" using k by linarith
  ultimately show ?thesis
    using dest_whole_blocks [OF k, of dest] m l
    by (simp add: dest_blocks_def Let_def dest_block_def o_def)
next
  case False
  then have "nat (- ((- n) div 256)) = 0" by (simp add: pos_imp_zdiv_nonneg_iff)
  with False show ?thesis by (simp add: dest_blocks_def)
qed

section \<open>Sessions and their messages\<close>

definition prefix_text :: "nat \<Rightarrow> string" where
  "prefix_text d = ''192.'' @ nat_str (d div 256) @ ''.'' @ nat_str (d mod 256) @ ''.0/24''"

lemma mgr_delim_eq: "mgr_print_delim = EOM_1_0 @ ''\<newline>''"
  by (simp add: mgr_print_delim_def EOM_1_0_def printed_def)

lemma clean_nat_str: "clean (nat_str n)"
  using clean_digits [OF nat_str_digits] .

lemma mgr_msg_hello: "msg_ok ''prefix'' [] mgr_print_hello"
  unfolding msg_ok_def balanced_def printed_def mgr_print_hello_def by (simp add: message_simps cong: message_congs)

lemma mgr_msg_fixed:
  "msg_ok ''prefix'' [] (mgr_print_close_session mid)" "msg_ok ''prefix'' [] (mgr_print_commit mid)"
  "msg_ok ''prefix'' [] (delete_edit_msg ''candidate'')"
  using clean_nat_str [of mid]
  unfolding msg_ok_def balanced_def printed_def mgr_print_close_session_def mgr_print_commit_def delete_edit_msg_def
  by (simp_all add: message_simps cong: message_congs)

lemma body_destination:
  "body ''prefix'' [prefix_text d] (nc_destination (d div 256) (d mod 256))"
  "body ''prefix'' [prefix_text d] (rc_destination (d div 256) (d mod 256))"
proof -
  have cl: "clean (prefix_text d)"
    using clean_nat_str [of "d div 256"] clean_nat_str [of "d mod 256"]
    by (simp add: prefix_text_def clean_def no_angle_def)
  have texts:
    "nc_destination (d div 256) (d mod 256) = lns [[],
         ''                <destination>'',
         ''                  <prefix>''] @ prefix_text d @ lns [''</prefix>'',
         ''                  <nexthop>172.16.1.2</nexthop>'',
         ''                </destination>'']"
    "rc_destination (d div 256) (d mod 256) = lns [[],
         ''            <destination>'',
         ''              <prefix>''] @ prefix_text d @ lns [''</prefix>'',
         ''              <nexthop>172.16.1.2</nexthop>'',
         ''            </destination>'']"
    by (simp_all add: nc_destination_def rc_destination_def prefix_text_def)
  show
    "body ''prefix'' [prefix_text d] (nc_destination (d div 256) (d mod 256))"
    "body ''prefix'' [prefix_text d] (rc_destination (d div 256) (d mod 256))"
    using cl unfolding body_def part_def neutral_def texts by (simp_all add: message_simps cong: message_congs)
qed

lemma body_destinations:
  "body ''prefix'' (map prefix_text ds) (concat (map (\<lambda>d. nc_destination (d div 256) (d mod 256)) ds))"
  "body ''prefix'' (map prefix_text ds) (concat (map (\<lambda>d. rc_destination (d div 256) (d mod 256)) ds))"
  using body_concat [of ds "''prefix''" "\<lambda>d. [prefix_text d]"] body_destination by simp_all

lemma mgr_msg_edit:
  assumes "body ''prefix'' ids s"
  shows "msg_ok ''prefix'' ids (mgr_print_edit_config s ''running'' mid)"
    "msg_ok ''prefix'' ids (mgr_print_edit_config s ''candidate'' mid)"
    "balanced (print_plain_patch_config s)" "leaf_texts ''prefix'' (print_plain_patch_config s) = ids"
  using assms part_scan [of "''prefix''" ids s] part_texts [of "''prefix''" ids s] clean_nat_str [of mid]
  unfolding msg_ok_def balanced_def printed_def mgr_print_edit_config_def print_plain_patch_config_def body_def
  by (simp_all add: message_simps cong: message_congs)

lemma mgr_sessionI:
  "list_all2 (msg_ok ''prefix'') idss ms \<Longrightarrow>
     s = mgr_print_hello @ mgr_print_delim @ concat (map (\<lambda>m. m @ mgr_print_delim) ms) \<Longrightarrow>
     session_ok ''prefix'' ''\<newline>'' ([] # idss) s"
  using session_okI [OF mgr_msg_hello _ _ mgr_delim_eq] by (simp add: blanks_def)

lemma mgr_session_edit:
  assumes "data_store = ''running'' \<or> data_store = ''candidate''"
  shows "session_ok ''prefix'' ''\<newline>'' [[], map prefix_text [0..<nat n], []] (fst (trans_size_edit_config (PInt n) data_store))"
  using assms
  by (intro mgr_sessionI [where ms = "[mgr_print_edit_config (concat (map (\<lambda>d. nc_destination (d div 256) (d mod 256)) [0..<nat n])) data_store 1,
      mgr_print_close_session 2]"])
    (auto simp: mgr_msg_edit [OF body_destinations(1)] mgr_msg_fixed trans_size_edit_config_def dest_blocks_all)

lemma mgr_session_delete: "session_ok ''prefix'' ''\<newline>'' [[], [], [], []] (trans_delete_edit_config ''candidate'')"
  by (rule mgr_sessionI [where ms = "[delete_edit_msg ''candidate'', mgr_print_commit 2, mgr_print_close_session 3]"])
    (simp_all add: mgr_msg_fixed trans_delete_edit_config_def)

section \<open>Properties\<close>

lemma dot_split:
  assumes "a @ CHR ''.'' # b = a' @ CHR ''.'' # b'" and "CHR ''.'' \<notin> set a" and "CHR ''.'' \<notin> set a'"
  shows "a = a' \<and> b = b'"
  using assms
proof (induction a arbitrary: a')
  case Nil
  then show ?case by (cases a') auto
next
  case (Cons x a)
  then show ?case by (cases a') auto
qed

lemma prefix_text_inject: "prefix_text d = prefix_text e \<longleftrightarrow> d = e"
proof
  assume eq: "prefix_text d = prefix_text e"
  have dot: "CHR ''.'' \<notin> set (nat_str n)" for n using nat_str_digits [of n] by (auto simp: is_digit_def)
  from eq have "nat_str (d div 256) @ CHR ''.'' # (nat_str (d mod 256) @ ''.0/24'') =
      nat_str (e div 256) @ CHR ''.'' # (nat_str (e mod 256) @ ''.0/24'')"
    by (simp add: prefix_text_def)
  from dot_split [OF this dot dot]
  have "nat_str (d div 256) = nat_str (e div 256)" "nat_str (d mod 256) = nat_str (e mod 256)" by simp_all
  then have "d div 256 = e div 256" "d mod 256 = e mod 256" by (metis digits_val_nat_str)+
  then show "d = e" by (metis mult_div_mod_eq)
qed simp

text \<open>
  C19. The destinations of an edit for \<open>n\<close> destinations: the receiver of the session gets three balanced messages, the
  second with exactly \<open>n\<close> prefixes, all different, numbered by block and position in the block; the RESTCONF
  body has the same prefixes. Up to 65536 destinations every number of a prefix fits into an octet.
\<close>

theorem destinations_received:
  assumes "data_store = ''running'' \<or> data_store = ''candidate''"
    and "trans_size_edit_config (PInt n) data_store = (out, r)"
    and "tr_framing t = FRAMING_1_0" and "\<not> tr_eom_found t" and "live (tr_in t)" and "stream t = out"
  shows "r = Inr () \<and> (\<exists>ms t'. recv_msgs 3 t = (t', Inr (map u ms)) \<and> list_all balanced ms \<and>
       map (leaf_texts ''prefix'') ms = [[], map prefix_text [0..<nat n], []]) \<and>
     leaf_texts ''prefix'' (fst (trans_size_plain_patch_running (PInt n))) = map prefix_text [0..<nat n] \<and>
     distinct (map prefix_text [0..<nat n]) \<and>
     (n \<le> 65536 \<longrightarrow> (\<forall>d < nat n. d div 256 \<le> 255 \<and> d mod 256 \<le> 255))"
proof -
  have out: "out = fst (trans_size_edit_config (PInt n) data_store)" "r = Inr ()"
    using assms(2) unfolding trans_size_edit_config_def dest_blocks_all by simp_all
  from assms(6) out(1) have "stream t = fst (trans_size_edit_config (PInt n) data_store)" by simp
  from session_received [OF mgr_session_edit [OF assms(1), of n] assms(3-5) this]
  obtain ms t' where ms: "recv_msgs (length ms) t = (t', Inr (map u ms))"
      "length ms = length [[], map prefix_text [0..<nat n], []]" "list_all balanced ms"
      "map (leaf_texts ''prefix'') ms = [[], map prefix_text [0..<nat n], []]"
    by (elim exE conjE) (rule that)
  have "length ms = 3" using ms(2) by simp
  with ms(1) have recv: "recv_msgs 3 t = (t', Inr (map u ms))" by metis
  have rc: "leaf_texts ''prefix'' (fst (trans_size_plain_patch_running (PInt n))) = map prefix_text [0..<nat n]"
    using mgr_msg_edit(4) [OF body_destinations(2)] by (simp add: trans_size_plain_patch_running_def dest_blocks_all)
  have "distinct (map prefix_text [0..<nat n])" by (simp add: distinct_map inj_on_def prefix_text_inject)
  moreover have "n \<le> 65536 \<longrightarrow> (\<forall>d < nat n. d div 256 \<le> 255 \<and> d mod 256 \<le> 255)"
  proof (intro impI allI conjI)
    fix d :: nat
    show "d div 256 \<le> 255" if "n \<le> 65536" "d < nat n" using that by linarith
    show "d mod 256 \<le> 255" using mod_less_divisor [of 256 d] by linarith
  qed
  ultimately show ?thesis using recv ms(3,4) rc out(2)
    by - (intro conjI exI [of _ ms] exI [of _ t'], assumption+)
qed

lemma destinations_received_witness:
  "snd (trans_size_edit_config (PInt 2) ''running'') = Inr ()"
proof -
  let ?run = "trans_size_edit_config (PInt 2) ''running''"
  have run: "?run = (fst ?run, snd ?run)" by simp
  have "fst ?run \<noteq> []"
    by (simp add: trans_size_edit_config_def dest_blocks_all mgr_print_hello_def printed_def)
  then have tr: "tr_framing (transport_init [fst ?run]) = FRAMING_1_0" "\<not> tr_eom_found (transport_init [fst ?run])"
      "live (tr_in (transport_init [fst ?run]))" "stream (transport_init [fst ?run]) = fst ?run"
    by (simp_all add: transport_init_def stream_def)
  from destinations_received [OF disjI1 [OF refl] run tr] show ?thesis by blast
qed

end
