(* ===== verification/Cdb_Gen.thy ===== *)
theory Cdb_Gen
  imports Gen_Session
begin

text \<open>
  The generators of configuration and operational data files: \<open>active-active/consistent-sync/app/cdbgen.py\<close>,
  \<open>oper-performance/app/cdbgen.py\<close>, \<open>confdgnmi/datagen.py\<close> and \<open>dp-performance/app/cdbgen.py\<close>. The functions take integer arguments; a
  text that is printed or written to a file is the result. The properties are that the files are balanced and which
  entries they have.
\<close>

section \<open>Data of the active-active example\<close>

definition print_sync_cfg :: "string \<Rightarrow> string" where
  "print_sync_cfg op_str = printed (
    lns [''<config xmlns=\"http://tail-f.com/ns/config/1.0\">'',
         ''    <active-cfg xmlns=\"http://tail-f.com/ns/example/routes/1.0\">'',
         ''    <aacluster xmlns=\"http://tail-f.com/ns/example/aacluster/1.0\">''] @
    op_str @
    lns [[],
         ''    </aacluster>'',
         ''    </active-cfg>'',
         ''    </config>'',
         ''    ''])"

definition join_nodes :: "int \<Rightarrow> int \<Rightarrow> int \<Rightarrow> string" where
  "join_nodes b l m = 
    lns [[],
         ''        <init-nodeid>''] @
    int_str m @
    lns [''</init-nodeid>'',
         [],
         ''        <node>'',
         ''        <nodeid>''] @
    int_str m @
    lns [''</nodeid>'',
         ''        <ip>127.0.0.1</ip>'',
         ''        <port>''] @
    int_str (b + 10 * m) @
    lns [''</port>'',
         ''        </node>'',
         [],
         ''        <node>'',
         ''        <nodeid>''] @
    int_str l @
    lns [''</nodeid>'',
         ''        <ip>127.0.0.1</ip>'',
         ''        <port>''] @
    int_str (b + 10 * l) @
    lns [''</port>'',
         ''        </node>'',
         ''        '']"

definition gen_join_cfg :: "int \<Rightarrow> int \<Rightarrow> int \<Rightarrow> string" where
  "gen_join_cfg b l m = print_sync_cfg (join_nodes b l m)"

definition init_node :: "int \<Rightarrow> string" where
  "init_node m = 
    lns [[],
         ''        <init-nodeid>''] @
    int_str m @
    lns [''</init-nodeid>'',
         ''    '']"

definition sync_node :: "int \<Rightarrow> nat \<Rightarrow> string" where
  "sync_node b i = 
    lns [[],
         ''        <node>'',
         ''        <nodeid>''] @
    int_str (int i) @
    lns [''</nodeid>'',
         ''        <ip>127.0.0.1</ip>'',
         ''        <port>''] @
    int_str (b + 10 * int i) @
    lns [''</port>'',
         ''        </node>'',
         ''        '']"

definition gen_sync_cfg :: "int \<Rightarrow> int \<Rightarrow> int \<Rightarrow> string" where
  "gen_sync_cfg b n m = print_sync_cfg (init_node m @ concat (map (sync_node b) [0..<nat n]))"

definition print_data :: "string \<Rightarrow> string" where
  "print_data op_str = printed (
    lns [''<config xmlns=\"http://tail-f.com/ns/config/1.0\">'',
         ''    <active-cfg xmlns=\"http://tail-f.com/ns/example/routes/1.0\">'',
         ''    <routes>''] @
    op_str @
    lns [[],
         ''    </routes>'',
         ''    </active-cfg>'',
         ''    </config>'',
         ''    ''])"

definition data_route :: "nat \<Rightarrow> string" where
  "data_route i = 
    lns [[],
         ''        <route>'',
         ''            <id>''] @
    pad7 i @
    lns [''</id>'',
         ''            <leaf1>1</leaf1>'',
         ''            <leaf2>2</leaf2>'',
         ''            <leaf3>3</leaf3>'',
         ''            <leaf4>4</leaf4>'',
         ''        </route>'',
         ''        '']"

definition gen_data :: "int \<Rightarrow> string" where
  "gen_data l = print_data (concat (map data_route [0..<nat l]))"

definition seed_route :: "int \<Rightarrow> nat \<Rightarrow> string" where
  "seed_route m i = 
    lns [[],
         ''        <route>'',
         ''            <id>''] @
    pad7 i @
    lns [''</id>'',
         ''            <leaf1>''] @
    int_str (int i + m + 1) @
    lns [''</leaf1>'',
         ''            <leaf2>''] @
    int_str (int i + m + 2) @
    lns [''</leaf2>'',
         ''            <leaf3>''] @
    int_str (int i + m + 3) @
    lns [''</leaf3>'',
         ''            <leaf4>''] @
    int_str (int i + m + 4) @
    lns [''</leaf4>'',
         ''        </route>'',
         ''        '']"

definition gen_data_seed :: "int \<Rightarrow> int \<Rightarrow> string" where
  "gen_data_seed l m = print_data (concat (map (seed_route m) [0..<nat l]))"

definition print_raw :: "string \<Rightarrow> string" where
  "print_raw op_str = printed (
    lns [''</active-cfg xmlns=\"http://tail-f.com/ns/example/routes/1.0\">'',
         ''    <routes>''] @
    op_str @
    lns [[],
         ''    </routes>'',
         ''    </active-cfg>'',
         ''    ''])"

definition raw_route :: "nat \<Rightarrow> string" where
  "raw_route i = 
    lns [[],
         ''        <route>'',
         ''            <id>''] @
    pad7 i @
    lns [''</id>'',
         ''            <leaf1>1</leaf1>'',
         ''            <leaf2>2</leaf2>'',
         ''            <leaf3>3</leaf3>'',
         ''            <leaf4>4</leaf4>'',
         ''        </route>'',
         ''        '']"

definition gen_raw :: "int \<Rightarrow> string" where
  "gen_raw l = print_raw (concat (map raw_route [0..<nat l]))"

section \<open>Route statistics\<close>

definition print_stats :: "string \<Rightarrow> string" where
  "print_stats op_str = printed (
    lns [''<config xmlns=\"http://tail-f.com/ns/config/1.0\">'',
         ''  <routes xmlns=\"http://tail-f.com/ns/example/routes/1.0\">''] @
    op_str @
    lns [[],
         ''  </routes>'',
         ''</config>'',
         ''    ''])"

definition stats_route :: "nat \<Rightarrow> string" where
  "stats_route i = 
    lns [[],
         ''    <route>'',
         ''      <id>''] @
    pad7 i @
    lns [''</id>'',
         ''      <leaf1>1</leaf1>'',
         ''      <leaf2>2</leaf2>'',
         ''      <leaf3>3</leaf3>'',
         ''      <leaf4>4</leaf4>'',
         ''    </route>'']"

definition gen_route_stats :: "int \<Rightarrow> string" where
  "gen_route_stats n = print_stats (concat (map stats_route [0..<nat n]))"

section \<open>Interfaces of the gNMI demonstration\<close>

definition gen_intf :: "string \<Rightarrow> string" where
  "gen_intf name = 
    lns [''<interface xmlns:ns0=\"urn:ietf:params:xml:ns:netconf:base:1.0\"'',
         ''               ns0:operation=\"create\">'',
         ''        <name>''] @
    name @
    lns [''</name>'',
         ''        <type xmlns:ianaift=\"urn:ietf:params:xml:ns:yang:iana-if-type\">'',
         ''            gigabitEthernet'',
         ''        </type>'',
         ''    </interface>'',
         ''    '']"

definition gen_intf_state :: "string \<Rightarrow> string" where
  "gen_intf_state name = 
    lns [''<interface xmlns:ns0=\"urn:ietf:params:xml:ns:netconf:base:1.0\">'',
         ''        <name>''] @
    name @
    lns [''</name>'',
         ''        <type xmlns:ianaift=\"urn:ietf:params:xml:ns:yang:iana-if-type\">'',
         ''            gigabitEthernet'',
         ''        </type>'',
         ''    </interface>'',
         ''    '']"

definition ifname :: "nat \<Rightarrow> string" where
  "ifname index = ''if_'' @ nat_str index"

definition interfaces_file :: "string \<Rightarrow> string" where
  "interfaces_file interfaces_str = 
    lns [''<config xmlns=\"http://tail-f.com/ns/config/1.0\">'',
         ''    <interfaces xmlns=\"urn:ietf:params:xml:ns:yang:ietf-interfaces\">'',
         ''    ''] @
    interfaces_str @
    lns [''</interfaces>'',
         ''    </config>'']"

definition interfaces_state_file :: "string \<Rightarrow> string" where
  "interfaces_state_file interfaces_state_str = 
    lns [''<config xmlns=\"http://tail-f.com/ns/config/1.0\">'',
         ''    <interfaces-state xmlns=\"urn:ietf:params:xml:ns:yang:ietf-interfaces\">'',
         ''    ''] @
    interfaces_state_str @
    lns [''</interfaces-state>'',
         ''     </config>'']"

text \<open>The two files that the script writes.\<close>

definition datagen_main :: "int \<Rightarrow> string \<times> string" where
  "datagen_main interfaces =
     (interfaces_file (concat (map (\<lambda>i. gen_intf (ifname (i + 1))) [0..<nat interfaces])),
      interfaces_state_file (concat (map (\<lambda>i. gen_intf_state (''state_'' @ ifname (i + 1))) [0..<nat interfaces])))"

section \<open>IPv4 addresses\<close>

text \<open>
  \<open>str(ipaddress.IPv4Address(n))\<close> and \<open>int(ipaddress.IPv4Address(s))\<close> of the standard library. The exception is a
  \<open>ValueError\<close>.
\<close>

definition ipv4_str :: "int \<Rightarrow> string result" where
  "ipv4_str n =
     (if 0 \<le> n \<and> n < 4294967296
      then Inr (nat_str (nat (n div 16777216)) @ ''.'' @ nat_str (nat (n div 65536 mod 256)) @ ''.'' @
                nat_str (nat (n div 256 mod 256)) @ ''.'' @ nat_str (nat (n mod 256)))
      else Inl ValueError)"

definition octet :: "string \<Rightarrow> int result" where
  "octet s =
     (if s \<noteq> [] \<and> (\<forall>c \<in> set s. is_digit c) \<and> length s \<le> 3 \<and> digits_val s \<le> 255
      then Inr (int (digits_val s)) else Inl ValueError)"

definition ipv4_int :: "string \<Rightarrow> int result" where
  "ipv4_int s =
     (case map_result octet (py_split (CHR ''.'') s) of
        Inr [a, b, c, d] \<Rightarrow> Inr (a * 16777216 + b * 65536 + c * 256 + d)
      | _ \<Rightarrow> Inl ValueError)"

section \<open>Data of the performance example\<close>

definition print_xml :: "string \<Rightarrow> string \<Rightarrow> string \<Rightarrow> string \<Rightarrow> string \<Rightarrow> string \<Rightarrow> string \<Rightarrow> string" where
  "print_xml unit_str serial_str r_str s_str n_str d_str pfx = printed (
    lns [''<?xml version=\"1.0\" encoding=\"UTF-8\"?>'',
         ''<config xmlns=\"http://tail-f.com/ns/config/1.0\">'',
         ''  <sys xmlns=\"http://example.com/router''] @
    pfx @
    lns [''\">'',
         ''    <interfaces>'',
         ''      <interface>'',
         ''        <name>eth0</name>'',
         ''        <status>'',
         ''          <link>up</link>'',
         ''          <speed>thousand</speed>'',
         ''          <duplex>full</duplex>'',
         ''          <mtu>1500</mtu>'',
         ''          <mac>AA:BB:CC:DD:EE:FF</mac>'',
         ''          <receive>'',
         ''            <bytes>1</bytes>'',
         ''            <packets>2</packets>'',
         ''            <errors>3</errors>'',
         ''            <dropped>4</dropped>'',
         ''          </receive>'',
         ''          <transmit>'',
         ''            <bytes>5</bytes>'',
         ''            <packets>6</packets>'',
         ''            <errors>7</errors>'',
         ''            <dropped>8</dropped>'',
         ''            <collisions>9</collisions>'',
         ''          </transmit>'',
         ''        </status>''] @
    unit_str @
    lns [[],
         ''      </interface>''] @
    serial_str @
    lns [[],
         ''    </interfaces>'',
         ''    <routes>'',
         ''      <inet>''] @
    r_str @
    lns [[],
         ''      </inet>'',
         ''    </routes>'',
         ''    <syslog>''] @
    s_str @
    lns [[],
         ''    </syslog>'',
         ''    <ntp>''] @
    n_str @
    lns [[],
         ''      <local-clock>'',
         ''        <enabled>true</enabled>'',
         ''        <stratum>15</stratum>'',
         ''        <status>'',
         ''          <state>falsetick</state>'',
         ''          <stratum>1</stratum>'',
         ''          <reach>2</reach>'',
         ''          <delay>3</delay>'',
         ''          <offset>4</offset>'',
         ''          <jitter>5</jitter>'',
         ''        </status>'',
         ''      </local-clock>'',
         ''      <restrict>'',
         ''        <name>1.1.1.1</name>'',
         ''        <mask>default</mask>'',
         ''        <flag>ntpport</flag>'',
         ''      </restrict>'',
         ''      <key>'',
         ''        <name>2</name>'',
         ''      </key>'',
         ''      <controlkey>2</controlkey>'',
         ''    </ntp>'',
         ''    <dns>'',
         ''      <search>'',
         ''        <name>1</name>'',
         ''        <domain>tail-f.com</domain>'',
         ''      </search>'',
         ''      <search>'',
         ''        <name>2</name>'',
         ''        <domain>tail-f.com</domain>'',
         ''      </search>'',
         ''      <search>'',
         ''        <name>3</name>'',
         ''        <domain>tail-f.com</domain>'',
         ''      </search>''] @
    d_str @
    lns [[],
         ''    </dns>'',
         ''  </sys>'',
         ''</config>''])"

definition unit_text :: "nat \<Rightarrow> string \<Rightarrow> string" where
  "unit_text i prefixstr = 
    lns [[],
         ''        <unit>'',
         ''          <name>''] @
    nat_str i @
    lns [''</name>'',
         ''          <enabled>true</enabled>'',
         ''          <family>'',
         ''            <inet>'',
         ''              <address>'',
         ''                <name>''] @
    prefixstr @
    lns [''</name>'',
         ''                <prefix-length>24</prefix-length>'',
         ''              </address>'',
         ''            </inet>'',
         ''          </family>'',
         ''          <status>'',
         ''            <receive>'',
         ''              <bytes>''] @
    nat_str i @
    lns [''</bytes>'',
         ''              <packets>''] @
    nat_str i @
    lns [''</packets>'',
         ''              <errors>''] @
    nat_str i @
    lns [''</errors>'',
         ''              <dropped>''] @
    nat_str i @
    lns [''</dropped>'',
         ''            </receive>'',
         ''            <transmit>'',
         ''              <bytes>''] @
    nat_str i @
    lns [''</bytes>'',
         ''              <packets>''] @
    nat_str i @
    lns [''</packets>'',
         ''              <errors>''] @
    nat_str i @
    lns [''</errors>'',
         ''              <dropped>''] @
    nat_str i @
    lns [''</dropped>'',
         ''              <collisions>''] @
    nat_str i @
    lns [''</collisions>'',
         ''            </transmit>'',
         ''          </status>'',
         ''        </unit>'']"

definition serial_text :: "string \<Rightarrow> nat \<Rightarrow> string" where
  "serial_text pfx i = 
    lns [[],
         ''      <serial xmlns=\"http://example.com/example-serial''] @
    pfx @
    lns [''\">'',
         ''        <name>ppp''] @
    nat_str i @
    lns [''</name>'',
         ''        <ppp>'',
         ''          <accounting>acme</accounting>'',
         ''        </ppp>'',
         ''        <authentication>'',
         ''          <method>pap</method>'',
         ''        </authentication>'',
         ''        <authorization>admin</authorization>'',
         ''        <multilink>'',
         ''          <links>'',
         ''            <minimum>'',
         ''              <minimum-value>0</minimum-value>'',
         ''              <mandatory/>'',
         ''            </minimum>'',
         ''          </links>'',
         ''          <group>1</group>'',
         ''          <fragment>'',
         ''            <delay>'',
         ''              <delay-value>256</delay-value>'',
         ''              <additional-delay-value>65535</additional-delay-value>'',
         ''            </delay>'',
         ''          </fragment>'',
         ''        </multilink>'',
         ''        <status>'',
         ''          <receive>'',
         ''            <bytes>''] @
    nat_str i @
    lns [''</bytes>'',
         ''            <packets>''] @
    nat_str i @
    lns [''</packets>'',
         ''            <errors>''] @
    nat_str i @
    lns [''</errors>'',
         ''            <dropped>''] @
    nat_str i @
    lns [''</dropped>'',
         ''          </receive>'',
         ''          <transmit>'',
         ''            <bytes>''] @
    nat_str i @
    lns [''</bytes>'',
         ''            <packets>''] @
    nat_str i @
    lns [''</packets>'',
         ''            <errors>''] @
    nat_str i @
    lns [''</errors>'',
         ''            <dropped>''] @
    nat_str i @
    lns [''</dropped>'',
         ''            <collisions>''] @
    nat_str i @
    lns [''</collisions>'',
         ''          </transmit>'',
         ''        </status>'',
         ''      </serial>'']"

definition r_text :: "string \<Rightarrow> nat \<Rightarrow> string" where
  "r_text ipstr i = 
    lns [[],
         ''        <route>'',
         ''          <name>''] @
    ipstr @
    lns [''</name>'',
         ''          <prefix-length>24</prefix-length>'',
         ''          <description>route''] @
    nat_str i @
    lns [''</description>'',
         ''          <next-hop>'',
         ''            <name>''] @
    ipstr @
    lns [''</name>'',
         ''            <metric>100</metric>'',
         ''          </next-hop>'',
         ''        </route>'']"

definition s_text :: "string \<Rightarrow> nat \<Rightarrow> string" where
  "s_text ipstr i = 
    lns [[],
         ''      <server>'',
         ''        <name>''] @
    ipstr @
    lns [''</name>'',
         ''        <enabled>true</enabled>'',
         ''        <selector>'',
         ''          <name>''] @
    nat_str i @
    lns [''</name>'',
         ''          <facility>auth</facility>'',
         ''          <facility>authpriv</facility>'',
         ''          <facility>local0</facility>'',
         ''        </selector>'',
         ''        <administrator>admin''] @
    nat_str i @
    lns [''</administrator>'',
         ''      </server>'']"

definition n_text :: "string \<Rightarrow> nat \<Rightarrow> string" where
  "n_text ipstr i = 
    lns [[],
         ''      <server>'',
         ''        <name>nserver''] @
    ipstr @
    lns [''</name>'',
         ''        <key>2</key>'',
         ''        <status>'',
         ''          <state>outlyer</state>'',
         ''          <stratum>15</stratum>'',
         ''          <reach>377</reach>'',
         ''          <delay>''] @
    nat_str i @
    lns [''</delay>'',
         ''          <offset>''] @
    nat_str i @
    lns [''</offset>'',
         ''          <jitter>''] @
    nat_str i @
    lns [''</jitter>'',
         ''        </status>'',
         ''      </server>'']"

definition d_text :: "string \<Rightarrow> string" where
  "d_text ipstr = 
    lns [[],
         ''      <server>'',
         ''        <address>''] @
    ipstr @
    lns [''</address>'',
         ''      </server>'']"

record xml_strs =
  xs_unit :: string
  xs_serial :: string
  xs_r :: string
  xs_s :: string
  xs_n :: string
  xs_d :: string
  xs_prefix :: string
  xs_ip :: string

definition gen_xml_step :: "string \<Rightarrow> nat \<Rightarrow> xml_strs \<Rightarrow> xml_strs result" where
  "gen_xml_step pfx i x =
     (let x1 = x\<lparr>xs_unit := xs_unit x @ unit_text i (xs_prefix x),
          xs_serial := xs_serial x @ serial_text pfx i,
          xs_r := xs_r x @ r_text (xs_ip x) i,
          xs_s := xs_s x @ s_text (xs_ip x) i,
          xs_n := xs_n x @ n_text (xs_ip x) i,
          xs_d := xs_d x @ d_text (xs_ip x)\<rparr>
      in rbind (ipv4_int (xs_prefix x)) (\<lambda>prefixint.
         rbind (ipv4_str (prefixint + 256)) (\<lambda>prefixstr.
         rbind (ipv4_int (xs_ip x)) (\<lambda>ipint.
         rbind (ipv4_str (ipint + 1)) (\<lambda>ipstr.
         Inr (x1\<lparr>xs_prefix := prefixstr, xs_ip := ipstr\<rparr>))))))"

fun gen_xml_loop :: "string \<Rightarrow> nat list \<Rightarrow> xml_strs \<Rightarrow> xml_strs result" where
  "gen_xml_loop pfx [] x = Inr x"
| "gen_xml_loop pfx (i # is) x = rbind (gen_xml_step pfx i x) (gen_xml_loop pfx is)"

definition gen_xml :: "int \<Rightarrow> string \<Rightarrow> string result" where
  "gen_xml n pfx =
     rbind (gen_xml_loop pfx [0..<nat n]
       \<lparr>xs_unit = [], xs_serial = [], xs_r = [], xs_s = [], xs_n = [], xs_d = [],
        xs_prefix = ''1.0.0.0'', xs_ip = ''1.0.0.1''\<rparr>) (\<lambda>x.
     Inr (print_xml (xs_unit x) (xs_serial x) (xs_r x) (xs_s x) (xs_n x) (xs_d x) pfx))"

section \<open>Lemmas\<close>

lemmas gen_simps = long_text_simps clean_def

lemma part_map:
  assumes "\<And>x. part n [g x] (f x)"
  shows "part n (map g xs) (concat (map f xs))"
  using part_concat [of xs n "\<lambda>x. [g x]" f] assms by simp

lemma part_routes:
  "part ''id'' [pad7 i] (data_route i)" "part ''id'' [pad7 i] (seed_route m i)" "part ''id'' [pad7 i] (raw_route i)"
  "part ''id'' [pad7 i] (stats_route i)"
  unfolding part_def neutral_def data_route_def seed_route_def raw_route_def stats_route_def
  by (simp_all add: gen_simps cong: text_congs)

lemma part_nodes:
  "part ''nodeid'' [int_str (int i)] (sync_node b i)" "part ''port'' [int_str (b + 10 * int i)] (sync_node b i)"
  "part ''nodeid'' [] (init_node m)" "part ''port'' [] (init_node m)"
  "part ''nodeid'' [int_str m, int_str l] (join_nodes b l m)"
  "part ''port'' [int_str (b + 10 * m), int_str (b + 10 * l)] (join_nodes b l m)"
  unfolding part_def neutral_def sync_node_def init_node_def join_nodes_def
  by (simp_all add: gen_simps cong: text_congs)

lemma frame_data:
  assumes "part n ts s" and "n \<in> {''id'', ''nodeid'', ''port''}"
  shows "balanced (print_data s) \<and> leaf_texts n (print_data s) = ts"
    "balanced (print_stats s) \<and> leaf_texts n (print_stats s) = ts"
    "balanced (print_sync_cfg s) \<and> leaf_texts n (print_sync_cfg s) = ts"
  using assms(2) part_scan [OF assms(1)] part_texts [OF assms(1)]
  unfolding balanced_def printed_def print_data_def print_stats_def print_sync_cfg_def insert_iff empty_iff
  by (elim disjE; simp add: gen_simps cong: text_congs)+

lemma neutral_unit: "no_angle prefixstr \<Longrightarrow> neutral (unit_text i prefixstr)"
  unfolding neutral_def unit_text_def by (simp add: gen_simps cong: text_congs)

lemma neutral_serial: "no_angle pfx \<Longrightarrow> neutral (serial_text pfx i)"
  unfolding neutral_def serial_text_def by (simp add: gen_simps cong: text_congs)

lemma neutral_servers:
  assumes "no_angle ipstr"
  shows "neutral (r_text ipstr i)" "neutral (s_text ipstr i)" "neutral (n_text ipstr i)" "neutral (d_text ipstr)"
  using assms unfolding neutral_def r_text_def s_text_def n_text_def d_text_def
  by (simp_all add: gen_simps cong: text_congs)

lemma balanced_print_xml:
  assumes "neutral a" "neutral b" "neutral c" "neutral d" "neutral e" "neutral f" "no_angle pfx"
  shows "balanced (print_xml a b c d e f pfx)"
  using assms(7) unfolding balanced_def printed_def print_xml_def
  by (simp add: gen_simps assms(1-6) [THEN neutral_scan] cong: text_congs)

lemma neutral_concat_map: "(\<And>x. x \<in> set xs \<Longrightarrow> neutral (f x)) \<Longrightarrow> neutral (concat (map f xs))"
  by (induction xs) (simp_all add: neutral_def)

subsection \<open>Addresses\<close>

lemma octet_nat_str: "k \<le> 255 \<Longrightarrow> octet (nat_str k) = Inr (int k)"
  using nat_str_length [of 3 k] nat_str_digits [of k] by (simp add: octet_def)

lemma dot_free: "CHR ''.'' \<notin> set (nat_str n)"
  using nat_str_digits [of n] by (auto simp: is_digit_def)

lemma octets_value:
  fixes n :: int
  assumes "0 \<le> n"
  shows "n div 16777216 * 16777216 + n div 65536 mod 256 * 65536 + n div 256 mod 256 * 256 + n mod 256 = n"
proof -
  have "n div 65536 = n div 16777216 * 256 + n div 65536 mod 256"
    using div_mult_mod_eq [of "n div 65536" 256] zdiv_zmult2_eq [of 256 n 65536] by simp
  moreover have "n div 256 = n div 65536 * 256 + n div 256 mod 256"
    using div_mult_mod_eq [of "n div 256" 256] zdiv_zmult2_eq [of 256 n 256] by simp
  moreover have "n = n div 256 * 256 + n mod 256" using div_mult_mod_eq [of n 256] by simp
  ultimately show ?thesis by linarith
qed

lemma ipv4_str_int:
  assumes "0 \<le> n" and "n < 4294967296"
  obtains s where "ipv4_str n = Inr s" and "ipv4_int s = Inr n" and "no_angle s"
proof
  let ?o = "[nat_str (nat (n div 16777216)), nat_str (nat (n div 65536 mod 256)),
      nat_str (nat (n div 256 mod 256)), nat_str (nat (n mod 256))]"
  let ?s = "py_join ''.'' ?o"
  show "ipv4_str n = Inr ?s" using assms by (simp add: ipv4_str_def)
  have "py_split (CHR ''.'') ?s = ?o"
    using dot_free by (simp add: py_split_append_sep py_split_free)
  moreover have o: "octet (nat_str (nat a)) = Inr a" if "0 \<le> a" "a \<le> 255" for a
    using that octet_nat_str [of "nat a"] by simp
  have "octet (nat_str (nat (n div 16777216))) = Inr (n div 16777216)"
      "octet (nat_str (nat (n div 65536 mod 256))) = Inr (n div 65536 mod 256)"
      "octet (nat_str (nat (n div 256 mod 256))) = Inr (n div 256 mod 256)"
      "octet (nat_str (nat (n mod 256))) = Inr (n mod 256)"
    by (rule o; use assms in \<open>simp add: pos_imp_zdiv_nonneg_iff\<close>)+
  ultimately show "ipv4_int ?s = Inr n"
    unfolding ipv4_int_def by (simp only: map_result.simps rbind_simps sum.case list.case octets_value [OF assms(1)])
  show "no_angle ?s" using no_angle_nat_str by (simp add: no_angle_def)
qed

definition addr :: "int \<Rightarrow> string" where
  "addr n = projr (ipv4_str n)"

lemma addr_ok:
  assumes "0 \<le> n" and "n < 4294967296"
  shows "ipv4_str n = Inr (addr n)" "ipv4_int (addr n) = Inr n" "no_angle (addr n)"
  using ipv4_str_int [OF assms] by (metis addr_def projr_def sum.sel(2))+

subsection \<open>The loop\<close>

definition net_at :: "nat \<Rightarrow> string" where
  "net_at i = addr (16777216 + 256 * int i)"

definition host_at :: "nat \<Rightarrow> string" where
  "host_at i = addr (16777217 + int i)"

definition xml_at :: "string \<Rightarrow> nat \<Rightarrow> xml_strs" where
  "xml_at pfx k =
     \<lparr>xs_unit = concat (map (\<lambda>i. unit_text i (net_at i)) [0..<k]),
      xs_serial = concat (map (serial_text pfx) [0..<k]),
      xs_r = concat (map (\<lambda>i. r_text (host_at i) i) [0..<k]),
      xs_s = concat (map (\<lambda>i. s_text (host_at i) i) [0..<k]),
      xs_n = concat (map (\<lambda>i. n_text (host_at i) i) [0..<k]),
      xs_d = concat (map (\<lambda>i. d_text (host_at i)) [0..<k]),
      xs_prefix = net_at k, xs_ip = host_at k\<rparr>"

definition max_units :: nat where
  "max_units = 16711679"

lemma gen_xml_step_at:
  "gen_xml_step pfx k (xml_at pfx k) =
     (if k < max_units then Inr (xml_at pfx (Suc k)) else gen_xml_step pfx k (xml_at pfx k))"
  "k = max_units \<Longrightarrow> gen_xml_step pfx k (xml_at pfx k) = Inl ValueError"
proof -
  have "ipv4_str (16777216 + 256 * int k + 256) = Inr (net_at (Suc k))" if "k < max_units"
    using that addr_ok(1) [of "16777216 + 256 * int (Suc k)"] by (simp add: max_units_def net_at_def algebra_simps)
  moreover have "ipv4_str (16777217 + int k + 1) = Inr (host_at (Suc k))" if "k < max_units"
    using that addr_ok(1) [of "16777217 + int (Suc k)"] by (simp add: max_units_def host_at_def algebra_simps)
  moreover have at: "ipv4_int (net_at k) = Inr (16777216 + 256 * int k)" "ipv4_int (host_at k) = Inr (16777217 + int k)"
    if "k \<le> max_units"
    using that addr_ok(2) [of "16777216 + 256 * int k"] addr_ok(2) [of "16777217 + int k"]
    by (simp_all add: max_units_def net_at_def host_at_def)
  ultimately show "gen_xml_step pfx k (xml_at pfx k) =
     (if k < max_units then Inr (xml_at pfx (Suc k)) else gen_xml_step pfx k (xml_at pfx k))"
    by (auto simp: gen_xml_step_def xml_at_def Let_def)
  show "gen_xml_step pfx k (xml_at pfx k) = Inl ValueError" if "k = max_units"
    using that at by (simp add: gen_xml_step_def xml_at_def Let_def ipv4_str_def max_units_def)
qed

lemma gen_xml_loop_append:
  "gen_xml_loop pfx (is @ js) x = rbind (gen_xml_loop pfx is x) (gen_xml_loop pfx js)"
  by (induction "is" arbitrary: x) (auto simp: rbind_def split: sum.splits)

lemma gen_xml_loop_at: "k \<le> max_units \<Longrightarrow> gen_xml_loop pfx [0..<k] (xml_at pfx 0) = Inr (xml_at pfx k)"
proof (induction k)
  case (Suc k)
  then show ?case using gen_xml_step_at(1) [of pfx k] by (simp add: gen_xml_loop_append)
qed simp

lemma gen_xml_loop_over: "max_units < k \<Longrightarrow> gen_xml_loop pfx [0..<k] (xml_at pfx 0) = Inl ValueError"
proof -
  assume "max_units < k"
  then have "[0..<k] = [0..<max_units] @ max_units # [Suc max_units..<k]"
    using upt_add_eq_append [of 0 max_units "k - max_units"] upt_conv_Cons [of max_units k] by simp
  then show ?thesis
    using gen_xml_loop_at [of max_units pfx] gen_xml_step_at(2) [of max_units pfx] by (simp add: gen_xml_loop_append)
qed

lemma first_addresses: "net_at 0 = ''1.0.0.0''" "host_at 0 = ''1.0.0.1''"
  by code_simp+

lemma xml_init: "xml_at pfx 0 = \<lparr>xs_unit = [], xs_serial = [], xs_r = [], xs_s = [], xs_n = [], xs_d = [],
    xs_prefix = ''1.0.0.0'', xs_ip = ''1.0.0.1''\<rparr>"
  by (simp add: xml_at_def first_addresses)

lemma address_text:
  assumes "i < max_units"
  shows "no_angle (net_at i)" "no_angle (host_at i)"
  using assms addr_ok(3) [of "16777216 + 256 * int i"] addr_ok(3) [of "16777217 + int i"]
  by (simp_all add: net_at_def host_at_def max_units_def)

lemma net_at_inject:
  assumes "i < max_units" and "j < max_units" and "net_at i = net_at j"
  shows "i = j"
proof -
  have "ipv4_int (net_at k) = Inr (16777216 + 256 * int k)" if "k < max_units" for k
    using that addr_ok(2) [of "16777216 + 256 * int k"] by (simp add: net_at_def max_units_def)
  from this [OF assms(1)] this [OF assms(2)] assms(3)
  have "Inr (16777216 + 256 * int i) = (Inr (16777216 + 256 * int j) :: int result)" by metis
  then show ?thesis by simp
qed

section \<open>Properties\<close>

text \<open>
  C20. The file with \<open>n\<close> units, routes and servers: it is generated exactly for numbers up to 16711679, the last for
  which the address of the next network is an IPv4 address; beyond, the script raises \<open>ValueError\<close> and prints
  nothing. The file is balanced, and its units have the networks \<open>1.0.0.0\<close>, \<open>1.0.1.0\<close> and so on, which are all different.
\<close>

theorem gen_xml_spec:
  assumes "no_angle pfx"
  shows "(case gen_xml n pfx of
       Inr out \<Rightarrow> n \<le> 16711679 \<and> balanced out \<and>
         (\<exists>b c d e f. out = print_xml (concat (map (\<lambda>i. unit_text i (net_at i)) [0..<nat n])) b c d e f pfx) \<and>
         distinct (map net_at [0..<nat n])
     | Inl err \<Rightarrow> 16711679 < n \<and> err = ValueError)"
proof (cases "n \<le> 16711679")
  case True
  then have le: "nat n \<le> max_units" by (simp add: max_units_def)
  let ?x = "xml_at pfx (nat n)"
  have gen: "gen_xml n pfx = Inr (print_xml (xs_unit ?x) (xs_serial ?x) (xs_r ?x) (xs_s ?x) (xs_n ?x) (xs_d ?x) pfx)"
    using gen_xml_loop_at [OF le, of pfx] by (simp add: gen_xml_def xml_init)
  have "neutral (xs_unit ?x)" "neutral (xs_serial ?x)" "neutral (xs_r ?x)" "neutral (xs_s ?x)" "neutral (xs_n ?x)"
      "neutral (xs_d ?x)"
    unfolding xml_at_def xml_strs.simps
    using le assms by (auto intro!: neutral_concat_map neutral_unit neutral_serial neutral_servers address_text)
  from balanced_print_xml [OF this assms] have "balanced (print_xml (xs_unit ?x) (xs_serial ?x) (xs_r ?x) (xs_s ?x)
      (xs_n ?x) (xs_d ?x) pfx)" .
  moreover have "distinct (map net_at [0..<nat n])"
    using le net_at_inject by (auto simp: distinct_map inj_on_def)
  moreover have "xs_unit ?x = concat (map (\<lambda>i. unit_text i (net_at i)) [0..<nat n])" by (simp add: xml_at_def)
  ultimately show ?thesis using True unfolding gen sum.case by metis
next
  case False
  then have "max_units < nat n" by (simp add: max_units_def)
  with gen_xml_loop_over [of "nat n" pfx] have "gen_xml n pfx = Inl ValueError" by (simp add: gen_xml_def xml_init)
  with False show ?thesis by simp
qed

lemma gen_xml_spec_witness: "\<exists>out. gen_xml 3 ''-state'' = Inr out \<and> balanced out"
proof -
  have "no_angle ''-state''" by (simp add: no_angle_def)
  from gen_xml_spec [OF this, of 3] show ?thesis by (cases "gen_xml 3 ''-state''") auto
qed

text \<open>
  The route files of the three generators for \<open>n\<close> routes are balanced and have exactly the identifiers
  \<open>0, \<dots>, n - 1\<close> in order, each once, and of seven digits up to ten million routes.
\<close>

theorem route_files:
  "(\<forall>out \<in> {gen_data n, gen_data_seed n m, gen_route_stats n}.
      balanced out \<and> leaf_texts ''id'' out = map pad7 [0..<nat n]) \<and>
   distinct (map pad7 [0..<nat n]) \<and> (n \<le> 10 ^ 7 \<longrightarrow> (\<forall>i < nat n. length (pad7 i) = 7))"
proof -
  have parts: "part ''id'' (map pad7 [0..<nat n]) (concat (map data_route [0..<nat n]))"
      "part ''id'' (map pad7 [0..<nat n]) (concat (map (seed_route m) [0..<nat n]))"
      "part ''id'' (map pad7 [0..<nat n]) (concat (map stats_route [0..<nat n]))"
    by (rule part_map; rule part_routes)+
  have "\<forall>out \<in> {gen_data n, gen_data_seed n m, gen_route_stats n}.
      balanced out \<and> leaf_texts ''id'' out = map pad7 [0..<nat n]"
    using frame_data(1) [OF parts(1)] frame_data(1) [OF parts(2)] frame_data(2) [OF parts(3)]
    by (simp add: gen_data_def gen_data_seed_def gen_route_stats_def)
  moreover have "distinct (map pad7 [0..<nat n])" by (simp add: distinct_map inj_on_def)
  moreover have "n \<le> 10 ^ 7 \<longrightarrow> (\<forall>i < nat n. length (pad7 i) = 7)" by (auto intro!: pad7_length)
  ultimately show ?thesis by blast
qed

lemma route_files_witness: "balanced (gen_data 2) \<and> length (pad7 1) = 7"
  using route_files [of 2 0] by auto

text \<open>
  The cluster configuration: the nodes \<open>0, \<dots>, n - 1\<close> with their ports ten apart. The raw file begins with an end
  tag and is never balanced.
\<close>

theorem sync_cfg_nodes:
  "balanced (gen_sync_cfg b n m) \<and>
   leaf_texts ''nodeid'' (gen_sync_cfg b n m) = map (\<lambda>i. int_str (int i)) [0..<nat n] \<and>
   leaf_texts ''port'' (gen_sync_cfg b n m) = map (\<lambda>i. int_str (b + 10 * int i)) [0..<nat n] \<and>
   balanced (gen_join_cfg b l m) \<and> leaf_texts ''nodeid'' (gen_join_cfg b l m) = [int_str m, int_str l] \<and>
   \<not> balanced (gen_raw n)"
proof (intro conjI)
  have app: "part x ts s \<Longrightarrow> part x ts' s' \<Longrightarrow> part x (ts @ ts') (s @ s')" for x ts ts' s s'
    by (simp add: part_def neutral_def)
  have id: "part ''nodeid'' (map (\<lambda>i. int_str (int i)) [0..<nat n]) (init_node m @ concat (map (sync_node b) [0..<nat n]))"
    using app [OF part_nodes(3) part_map [OF part_nodes(1)]] by simp
  have port: "part ''port'' (map (\<lambda>i. int_str (b + 10 * int i)) [0..<nat n]) (init_node m @ concat (map (sync_node b) [0..<nat n]))"
    using app [OF part_nodes(4) part_map [OF part_nodes(2)]] by simp
  from frame_data(3) [OF id] show "balanced (gen_sync_cfg b n m)"
      "leaf_texts ''nodeid'' (gen_sync_cfg b n m) = map (\<lambda>i. int_str (int i)) [0..<nat n]"
    by (simp_all add: gen_sync_cfg_def)
  from frame_data(3) [OF port]
  show "leaf_texts ''port'' (gen_sync_cfg b n m) = map (\<lambda>i. int_str (b + 10 * int i)) [0..<nat n]"
    by (simp add: gen_sync_cfg_def)
  from frame_data(3) [OF part_nodes(5)] show "balanced (gen_join_cfg b l m)"
      "leaf_texts ''nodeid'' (gen_join_cfg b l m) = [int_str m, int_str l]"
    by (simp_all add: gen_join_cfg_def)
  show "\<not> balanced (gen_raw n)"
    unfolding balanced_def gen_raw_def print_raw_def printed_def by (simp add: gen_simps cong: text_congs)
qed

text \<open>
  The files of the gNMI demonstration: balanced, with the interfaces \<open>if_1, \<dots>, if_n\<close>.
\<close>

lemma part_intf:
  assumes "no_angle name"
  shows "part ''name'' [name] (gen_intf name)" "part ''name'' [name] (gen_intf_state name)"
  using assms unfolding part_def neutral_def gen_intf_def gen_intf_state_def
  by (simp_all add: gen_simps cong: text_congs)

theorem datagen_files:
  "case datagen_main n of (cfg, state) \<Rightarrow>
     balanced cfg \<and> leaf_texts ''name'' cfg = map (\<lambda>i. ''if_'' @ nat_str (Suc i)) [0..<nat n] \<and>
     balanced state \<and> leaf_texts ''name'' state = map (\<lambda>i. ''state_if_'' @ nat_str (Suc i)) [0..<nat n]"
proof -
  have name: "no_angle (ifname k)" "no_angle (''state_'' @ ifname k)" for k
    using no_angle_nat_str [of k] by (simp_all add: ifname_def no_angle_def)
  let ?c = "concat (map (\<lambda>i. gen_intf (ifname (i + 1))) [0..<nat n])"
  let ?s = "concat (map (\<lambda>i. gen_intf_state (''state_'' @ ifname (i + 1))) [0..<nat n])"
  have c: "part ''name'' (map (\<lambda>i. ifname (i + 1)) [0..<nat n]) ?c"
    and s: "part ''name'' (map (\<lambda>i. ''state_'' @ ifname (i + 1)) [0..<nat n]) ?s"
    by (rule part_map; rule part_intf; rule name)+
  have "balanced (interfaces_file ?c)" "leaf_texts ''name'' (interfaces_file ?c) = map (\<lambda>i. ifname (i + 1)) [0..<nat n]"
    unfolding balanced_def interfaces_file_def
    by (simp_all add: gen_simps part_scan [OF c] part_texts [OF c] cong: text_congs)
  moreover have "balanced (interfaces_state_file ?s)"
      "leaf_texts ''name'' (interfaces_state_file ?s) = map (\<lambda>i. ''state_'' @ ifname (i + 1)) [0..<nat n]"
    unfolding balanced_def interfaces_state_file_def
    by (simp_all add: gen_simps part_scan [OF s] part_texts [OF s] cong: text_congs)
  ultimately show ?thesis by (simp add: datagen_main_def ifname_def)
qed

end
