(* ===== verification/Spec2Isabelle.thy ===== *)
theory Spec2Isabelle
  imports Gnmi_Client Gnmi_Connect Gnmi_Api_Types Route_Main Netconf_Connect Modif_Subscriber Cdb_Daemons Ned_Command_Line Check_Build Gnmi_Command_Line Yang_Symlink_Modules Yang_Command_Lines Aa_Ncgen Mgr_Gen Cdb_Gen
begin

text \<open>
  A verification library for the Python programs of the ConfD demonstrations.

  \<^bold>\<open>The programs.\<close> The repository is a collection of demonstrations around the management agent ConfD. Its Python programs fall
  into five groups.

  \<^item> The gNMI adapter (\<open>confdgnmi/src\<close>): a gRPC service (\<open>confd_gnmi_server.py\<close>) over an abstract adapter
    (\<open>confd_gnmi_adapter.py\<close>) with two implementations, an in-memory database (\<open>confd_gnmi_demo_adapter.py\<close>) and one on the API of
    ConfD (\<open>confd_gnmi_api_adapter.py\<close>); a client (\<open>confd_gnmi_client.py\<close>); and a provider of operational data that sends its changes to the
    adapter (\<open>route_status.py\<close>). A subscription is a generator that a queue of events drives; a second thread
    puts the events and records the changes.
  \<^item> NETCONF: the console \<open>confd-sync-py/app/netconf_console.py\<close> with its transports, framings, requests and
    printing styles; the synchroniser \<open>cdbl-sync-nc.py\<close>, which turns the modifications of a transaction into edits for
    several servers and runs a two-phase commit with the console; and the subscriber \<open>modif-subscriber.py\<close>.
  \<^item> Generators of requests and data: \<open>ncgen.py\<close>, \<open>rcgen.py\<close>, \<open>cdbgen.py\<close> and \<open>datagen.py\<close> in several directories.
  \<^item> Tools on YANG modules: \<open>ann-stmt\<close> moves statements into annotation modules, \<open>ann2ann-stmt\<close> turns annotations by path into nested
    ones, \<open>cmd-path\<close> tags the statements of CLI commands and dumps the commands of a schema, and \<open>symlink\<close> is a plugin of pyang.
  \<^item> \<open>ned-test/ned-test.py\<close>, a tool that drives NSO, and the action \<open>check-build.py\<close>, which waits for it.

  \<^bold>\<open>Theories.\<close> Each component is one theory, below the preludes.

  \<^item> \<open>Py_Prelude\<close> (exceptions as a sum, the string methods, dictionaries), \<open>Py_Text\<close> (Unicode strings, UTF-8, integer
    literals), \<open>Py_Optparse\<close> (the loop of \<open>optparse\<close> over the arguments), \<open>Py_Argparse\<close> (the parsers of \<open>argparse\<close>) and \<open>Py_World\<close> (programs that call other programs, over an environment that answers from the history of calls, with a
    calculus for their effects).
  \<^item> \<open>Gnmi_Messages\<close> (the protocol buffers that are used), \<open>Gnmi_Common\<close> (paths), \<open>Gnmi_Adapter\<close> (the generator \<open>read\<close>
    over the operations of a handler; the locale \<open>monitor_lifecycle\<close> is the contract of a handler),
    \<open>Gnmi_Demo_Adapter\<close>, \<open>Gnmi_Demo_Handler\<close> (the change thread as a step relation, interleaved with the generator),
    \<open>Gnmi_Server\<close> (the RPCs; the locale \<open>server_adapter\<close>), \<open>Gnmi_Api_Adapter\<close>, \<open>Gnmi_Api_Types\<close> (the types of its values), \<open>Gnmi_Api_Handler\<close>,
    \<open>Gnmi_Client\<close>, \<open>Route_Status\<close>, and the programs \<open>Gnmi_Main\<close>, \<open>Gnmi_Connect\<close>, \<open>Gnmi_Command_Line\<close>
    and \<open>Route_Main\<close>.
  \<^item> \<open>Netconf_Transport\<close> (both framings and both transports, on octets), \<open>Netconf_Messages\<close> (requests, options, the hello
    exchange), \<open>Netconf_Session\<close> (what is sent and how one reply is read), \<open>Netconf_Console\<close> (the loop over the replies and the
    end of the program), \<open>Netconf_Options\<close> (the command line), \<open>Netconf_Connect\<close> (from the arguments to the greeting), \<open>Cdb_Sync\<close> and \<open>Modif_Subscriber\<close>, with their main programs in \<open>Cdb_Daemons\<close>.
  \<^item> \<open>Gen_Common\<close>, \<open>Gen_Session\<close>, \<open>Aa_Ncgen\<close>, \<open>Mgr_Gen\<close> and \<open>Cdb_Gen\<close> for the generators.
  \<^item> \<open>Yang_Annotate\<close> (\<open>tailf_ann_stmt.py\<close>, \<open>tailf_sanitize.py\<close>), \<open>Yin_Annotate\<close> and \<open>Yin_Program\<close> (\<open>yin_ann_stmt.py\<close>), \<open>Yang_Tags\<close> (\<open>confd_tag_yang.py\<close>),
    \<open>Cli_Dump\<close> (\<open>confd_cli_dump.py\<close>), \<open>Yang_Symlinks\<close> (the plugin \<open>symlinks.py\<close> on trees as values), \<open>Yang_Symlink_Store\<close> (the plugin on objects that it changes
    in place), \<open>Yang_Symlink_Refine\<close> and \<open>Yang_Symlink_Modules\<close> (the second implements the first, for one link and for all modules), and \<open>Yang_Programs\<close> with the runs of pyang
    and the files, with the command lines in \<open>Yang_Command_Lines\<close>.
  \<^item> \<open>Ned_Test\<close> with its command line in \<open>Ned_Command_Line\<close>, and \<open>Check_Build\<close>.

  \<^bold>\<open>How the code is modelled.\<close> A function of the source is a function of the same name on explicit states; objects are records, and
  exceptions are the left summand of \<^typ>\<open>'a result\<close>. Libraries outside the repository are parameters: the API of ConfD is the record
  \<open>confd_lib\<close>, transactions, subscriptions and the trees of BeautifulSoup are records of operations, and what the theorems need of them are their
  hypotheses, each with a witness. Random numbers, sockets and clocks are inputs. Python integers are \<^typ>\<open>int\<close> or, where the code cannot
  make them negative, \<^typ>\<open>nat\<close>; nothing in these programs wraps around.

  \<^bold>\<open>What is shown.\<close>

  \<^item> Subscriptions: in every interleaving of the change thread with the generator, for both adapters, changes are sent once, in order and none is
    lost; the generator yields the sync response exactly once, restarting it when events arrive equals one run on all
    events, and its thread is gone when it returns. A route change reaches the adapter as the message says.
  \<^item> Values: what a client sets is what it gets back, through the client, the service and the demo adapter; a call of \<open>set\<close> on ConfD
    is one transaction; paths and their texts are inverse to each other.
  \<^item> NETCONF: however the stream is split, a message is read exactly, with both framings; what one side sends the other receives; a
    request from a file arrives whole; the console prints the replies as its style says and closes the session. The
    synchroniser sends commits only if all servers accepted their edits.
  \<^item> Texts: the requests, edits and printed modifications are balanced XML, and the generated sessions are received as the intended
    messages, with the intended entries.
  \<^item> Types: every value of ConfD becomes a JSON value of its type.
  \<^item> Command lines: the parsers of the console, the gNMI client and server, the YANG tools and \<open>ned-test\<close> read from the command line of given values
    exactly these values, and the programs run with them.
  \<^item> YANG tools: every statement of a chosen kind is moved into an annotation, none is lost or left behind; an annotation by path becomes nested
    annotations of exactly its statements, and the files of the user are as before; every command gets one identifier at its place; the dump has the commands of the schema;
    the symlink plugin leaves no link, and its changes of shared objects have the result of a replacement on values.
  \<^item> Programs over an environment (\<open>ned-test\<close>, the start of the server and of the console, the annotation tool): for every
    behaviour of the environment, their effects are a prefix of a fixed list, and all of it if they return; the route provider and the synchroniser
    close what they opened.
  \<^item> What the code does against its intention is proved as well and listed with the findings of the project: for example a pending
    event that makes stopping a subscription fail, two transactions for one set request, and announced chunk sizes that
    count characters.

  \<^bold>\<open>Loops and fuel.\<close> Loops over data are structural or have a termination proof. A generator that waits for events is a function
  of the events that arrive; the theorems say when it returns. The loops that wait for NSO take fuel: the theorems
  on waiting show that any fuel above the number of failed questions, and of segments of a stream, is enough.

  \<^bold>\<open>Not modelled.\<close> The insides of the libraries (the API of ConfD and NSO, gRPC, paramiko, BeautifulSoup, pyang); the command lines of the data
  generators (they pass floats on to number formats); the stub \<open>confd_gnmi_netconf_adapter.py\<close>, which nothing creates; timeouts of
  sockets; logging; the text of exceptions; and the C programs, scripts, YANG modules and tests of the repository.
\<close>

end
